(* ===== verification/Prelude.thy ===== *)
theory Prelude
  imports Complex_Main "HOL-Library.AList" "HOL-Library.Char_ord" "HOL-Library.List_Lexorder"
    "HOL-Library.Product_Lexorder"
begin

text \<open>
  The shared base of the development.

  \<^item> Python strings are HOL strings, one \<^typ>\<open>char\<close> per code point, so the model covers the
    code points 0 to 255 (ASCII and Latin-1); \<open>str.strip\<close>, \<open>str.lower\<close>, \<open>str.split\<close>,
    \<open>str.replace\<close> and \<open>str(int)\<close> are written out for that range.
  \<^item> Python dictionaries keep their insertion order: they are association lists, with
    \<^const>\<open>AList.update\<close> for an item assignment and \<^const>\<open>AList.delete\<close> for \<open>pop\<close>.
  \<^item> The locale \<open>keyed_store\<close> is the interface every key-value component of the engine offers
    (plain dictionaries, the attribute proxies of nodes, edges and graphs, the pipeline context).
\<close>

named_theorems pystr \<open>facts about the Python string operations\<close>
named_theorems pydict \<open>facts about insertion-ordered dictionaries\<close>
named_theorems frames \<open>what an operation leaves unchanged\<close>

section \<open>Strings\<close>

definition py_isspace :: "char \<Rightarrow> bool" where
  "py_isspace c = (let n = (of_char c :: nat)
     in (9 \<le> n \<and> n \<le> 13) \<or> (28 \<le> n \<and> n \<le> 32) \<or> n = 133 \<or> n = 160)"

definition py_lstrip :: "string \<Rightarrow> string" where
  "py_lstrip s = dropWhile py_isspace s"

definition py_rstrip :: "string \<Rightarrow> string" where
  "py_rstrip s = rev (dropWhile py_isspace (rev s))"

definition py_strip :: "string \<Rightarrow> string" where
  "py_strip s = py_rstrip (py_lstrip s)"

definition py_lower_char :: "char \<Rightarrow> char" where
  "py_lower_char c = (let n = (of_char c :: nat)
     in if (65 \<le> n \<and> n \<le> 90) \<or> (192 \<le> n \<and> n \<le> 222 \<and> n \<noteq> 215) then char_of (n + 32) else c)"

definition py_lower :: "string \<Rightarrow> string" where
  "py_lower s = map py_lower_char s"

fun startswith :: "string \<Rightarrow> string \<Rightarrow> bool" where
  "startswith [] s = True"
| "startswith (p # ps) [] = False"
| "startswith (p # ps) (c # cs) = (p = c \<and> startswith ps cs)"

definition endswith :: "string \<Rightarrow> string \<Rightarrow> bool" where
  "endswith p s = startswith (rev p) (rev s)"

fun occurs_in :: "string \<Rightarrow> string \<Rightarrow> bool" where
  "occurs_in sub [] = (sub = [])"
| "occurs_in sub (c # cs) = (startswith sub (c # cs) \<or> occurs_in sub cs)"

text \<open>\<open>s.split(sep)\<close> for a non-empty separator: left to right, no overlaps.\<close>

fun split_go :: "string \<Rightarrow> string \<Rightarrow> string \<Rightarrow> string list" where
  "split_go sep acc [] = [rev acc]"
| "split_go sep acc (c # cs) =
     (if startswith sep (c # cs)
      then rev acc # split_go sep [] (drop (length sep - 1) cs)
      else split_go sep (c # acc) cs)"

definition py_split :: "string \<Rightarrow> string \<Rightarrow> string list" where
  "py_split sep s = split_go sep [] s"

text \<open>\<open>s.split(sep, maxsplit=1)\<close> where \<open>sep\<close> occurs: the parts before and after its first
  occurrence, \<^const>\<open>None\<close> where it does not occur.\<close>

fun split1_go :: "string \<Rightarrow> string \<Rightarrow> string \<Rightarrow> (string \<times> string) option" where
  "split1_go sep acc [] = None"
| "split1_go sep acc (c # cs) =
     (if startswith sep (c # cs) then Some (rev acc, drop (length sep) (c # cs))
      else split1_go sep (c # acc) cs)"

definition py_split1 :: "string \<Rightarrow> string \<Rightarrow> (string \<times> string) option" where
  "py_split1 sep s = split1_go sep [] s"

text \<open>\<open>s.replace(old, new)\<close> for a non-empty \<open>old\<close>.\<close>

fun replace_str :: "string \<Rightarrow> string \<Rightarrow> string \<Rightarrow> string" where
  "replace_str old new [] = []"
| "replace_str old new (c # cs) =
     (if startswith old (c # cs) then new @ replace_str old new (drop (length old - 1) cs)
      else c # replace_str old new cs)"

fun py_join :: "string \<Rightarrow> string list \<Rightarrow> string" where
  "py_join sep [] = []"
| "py_join sep [x] = x"
| "py_join sep (x # y # ys) = x @ sep @ py_join sep (y # ys)"

definition digit_char :: "nat \<Rightarrow> char" where
  "digit_char d = char_of (48 + d)"

fun nat_str :: "nat \<Rightarrow> string" where
  "nat_str n = (if n < 10 then [digit_char n] else nat_str (n div 10) @ [digit_char (n mod 10)])"

declare nat_str.simps [simp del]

definition int_str :: "int \<Rightarrow> string" where
  "int_str i = (if i < 0 then CHR ''-'' # nat_str (nat (- i)) else nat_str (nat i))"

text \<open>A value between single quotes, as the f-strings of the source write names.\<close>

definition quoted :: "string \<Rightarrow> string" where
  "quoted s = CHR 0x27 # s @ [CHR 0x27]"

text \<open>Truth of an optional string: \<open>None\<close> and the empty string are false.\<close>

fun str_true :: "string option \<Rightarrow> bool" where
  "str_true None = False"
| "str_true (Some s) = (s \<noteq> [])"

lemma str_true_iff: "str_true x \<longleftrightarrow> (\<exists>s. x = Some s \<and> s \<noteq> [])"
  by (cases x) auto

lemma startswith_iff [pystr]: "startswith p s \<longleftrightarrow> (\<exists>t. s = p @ t)"
  by (induction p s rule: startswith.induct) auto

lemma startswith_append [simp]: "startswith p (p @ s)"
  by (simp add: startswith_iff)

lemma startswith_self [simp]: "startswith p p"
  by (induction p) auto

lemma startswith_drop: "startswith p s \<Longrightarrow> p @ drop (length p) s = s"
  by (auto simp: startswith_iff)

lemma endswith_iff [pystr]: "endswith p s \<longleftrightarrow> (\<exists>t. s = t @ p)"
proof -
  have "endswith p s \<longleftrightarrow> (\<exists>t. rev s = rev p @ t)"
    by (simp add: endswith_def startswith_iff)
  also have "\<dots> \<longleftrightarrow> (\<exists>t. s = rev t @ p)"
    by (metis rev_append rev_rev_ident)
  also have "\<dots> \<longleftrightarrow> (\<exists>t. s = t @ p)"
    by (metis rev_rev_ident)
  finally show ?thesis .
qed

lemma occurs_in_iff [pystr]: "occurs_in sub s \<longleftrightarrow> (\<exists>a b. s = a @ sub @ b)"
proof (induction s)
  case Nil
  then show ?case by auto
next
  case (Cons c cs)
  show ?case
  proof
    assume "occurs_in sub (c # cs)"
    then consider "startswith sub (c # cs)" | "occurs_in sub cs" by auto
    then show "\<exists>a b. c # cs = a @ sub @ b"
    proof cases
      case 1
      then obtain t where "c # cs = [] @ sub @ t" by (auto simp: startswith_iff)
      then show ?thesis by blast
    next
      case 2
      then obtain a b where "cs = a @ sub @ b" using Cons.IH by blast
      then have "c # cs = (c # a) @ sub @ b" by simp
      then show ?thesis by blast
    qed
  next
    assume "\<exists>a b. c # cs = a @ sub @ b"
    then obtain a b where ab: "c # cs = a @ sub @ b" by blast
    show "occurs_in sub (c # cs)"
    proof (cases a)
      case Nil
      then have "startswith sub (c # cs)" using ab by simp
      then show ?thesis by simp
    next
      case (Cons x xs)
      then have "cs = xs @ sub @ b" using ab by simp
      then have "occurs_in sub cs" using Cons.IH by blast
      then show ?thesis by simp
    qed
  qed
qed

lemma py_join_single [simp]: "py_join sep [x] = x"
  by simp

lemma lstrip_idem [simp]: "py_lstrip (py_lstrip s) = py_lstrip s"
  unfolding py_lstrip_def by (induction s) auto

lemma lower_length [simp]: "length (py_lower s) = length s"
  by (simp add: py_lower_def)

text \<open>A decimal string is a non-empty run of digits, and different numbers print differently.\<close>

lemma nat_str_nonempty [simp]: "nat_str n \<noteq> []"
  by (subst nat_str.simps) simp

fun digits_val :: "nat \<Rightarrow> string \<Rightarrow> nat" where
  "digits_val acc [] = acc"
| "digits_val acc (c # cs) = digits_val (acc * 10 + (of_char c - 48)) cs"

lemma digits_val_append: "digits_val acc (xs @ ys) = digits_val (digits_val acc xs) ys"
  by (induction xs arbitrary: acc) auto

lemma of_char_digit: "d < 10 \<Longrightarrow> of_char (digit_char d) = 48 + d"
  by (simp add: digit_char_def take_bit_eq_mod)

lemma digits_val_nat_str [simp]: "digits_val 0 (nat_str n) = n"
proof (induction n rule: nat_str.induct)
  case (1 n)
  show ?case
  proof (cases "n < 10")
    case True
    then show ?thesis by (subst nat_str.simps) (simp add: of_char_digit)
  next
    case False
    then have "digits_val 0 (nat_str (n div 10)) = n div 10" using 1 by simp
    with False show ?thesis
      by (subst nat_str.simps) (simp add: digits_val_append of_char_digit)
  qed
qed

lemma nat_str_inj [simp]: "nat_str m = nat_str n \<longleftrightarrow> m = n"
  by (metis digits_val_nat_str)

definition is_digit :: "char \<Rightarrow> bool" where
  "is_digit c = (let n = (of_char c :: nat) in 48 \<le> n \<and> n \<le> 57)"

definition is_alpha :: "char \<Rightarrow> bool" where
  "is_alpha c = (let n = (of_char c :: nat) in (65 \<le> n \<and> n \<le> 90) \<or> (97 \<le> n \<and> n \<le> 122))"

definition is_word :: "char \<Rightarrow> bool" where
  "is_word c = (is_alpha c \<or> is_digit c \<or> c = CHR ''_'')"

text \<open>\<open>\w\<close> of the \<open>re\<close> module, and \<open>\b\<close> behind a match.\<close>

definition re_word :: "char \<Rightarrow> bool" where
  "re_word c =
     (let n = (of_char c :: nat) in
      is_word c \<or> n \<in> {170, 178, 179, 181, 185, 186, 188, 189, 190} \<or> (192 \<le> n \<and> n \<noteq> 215 \<and> n \<noteq> 247))"

definition word_ends :: "string \<Rightarrow> bool" where
  "word_ends rest = (rest = [] \<or> \<not> re_word (hd rest))"

lemma nat_str_digits: "\<forall>c \<in> set (nat_str n). is_digit c"
proof (induction n rule: nat_str.induct)
  case (1 n)
  have d: "d < 10 \<Longrightarrow> is_digit (digit_char d)" for d
    by (simp add: is_digit_def of_char_digit)
  show ?case
  proof (cases "n < 10")
    case True
    then show ?thesis by (subst nat_str.simps) (simp add: d)
  next
    case False
    then have "\<forall>c \<in> set (nat_str (n div 10)). is_digit c" using 1 by simp
    with False show ?thesis by (subst nat_str.simps) (simp add: d)
  qed
qed

section \<open>Insertion-ordered dictionaries\<close>

type_synonym 'v dict = "(string \<times> 'v) list"

abbreviation dict_get :: "'v dict \<Rightarrow> string \<Rightarrow> 'v option" where
  "dict_get d k \<equiv> map_of d k"

abbreviation dict_set :: "string \<Rightarrow> 'v \<Rightarrow> 'v dict \<Rightarrow> 'v dict" where
  "dict_set k v d \<equiv> AList.update k v d"

abbreviation dict_pop :: "string \<Rightarrow> 'v dict \<Rightarrow> 'v dict" where
  "dict_pop k d \<equiv> AList.delete k d"

abbreviation dict_keys :: "'v dict \<Rightarrow> string list" where
  "dict_keys d \<equiv> map fst d"

definition dict_has :: "'v dict \<Rightarrow> string \<Rightarrow> bool" where
  "dict_has d k = (k \<in> set (dict_keys d))"

definition dict_update :: "'v dict \<Rightarrow> 'v dict \<Rightarrow> 'v dict" where
  "dict_update d e = foldl (\<lambda>acc (k, v). dict_set k v acc) d e"

definition dict_ok :: "'v dict \<Rightarrow> bool" where
  "dict_ok d = distinct (dict_keys d)"

lemma dict_has_iff [pydict]: "dict_has d k \<longleftrightarrow> dict_get d k \<noteq> None"
  by (simp add: dict_has_def map_of_eq_None_iff)

lemma dict_get_set [simp]: "dict_get (dict_set k v d) k' = (if k' = k then Some v else dict_get d k')"
  by (simp add: update_conv')

lemma dict_get_pop [simp]: "dict_get (dict_pop k d) k' = (if k' = k then None else dict_get d k')"
  by (simp add: delete_conv')

lemma dict_ok_set [simp]: "dict_ok d \<Longrightarrow> dict_ok (dict_set k v d)"
  by (simp add: dict_ok_def distinct_update)

lemma dict_ok_pop [simp]: "dict_ok d \<Longrightarrow> dict_ok (dict_pop k d)"
  by (simp add: dict_ok_def distinct_delete)

lemma dict_ok_Nil [simp]: "dict_ok []"
  by (simp add: dict_ok_def)

lemma dict_update_Nil [simp]: "dict_update d [] = d"
  by (simp add: dict_update_def)

lemma dict_update_Cons [simp]: "dict_update d ((k, v) # e) = dict_update (dict_set k v d) e"
  by (simp add: dict_update_def)

lemma dict_ok_update [simp]: "dict_ok d \<Longrightarrow> dict_ok (dict_update d e)"
  by (induction e arbitrary: d) auto

lemma dict_get_update:
  "dict_ok e \<Longrightarrow> dict_get (dict_update d e) k = (case dict_get e k of None \<Rightarrow> dict_get d k | Some v \<Rightarrow> Some v)"
proof (induction e arbitrary: d)
  case Nil
  then show ?case by simp
next
  case (Cons p e)
  obtain k' v where p: "p = (k', v)" by force
  have "dict_ok e" "dict_get e k' = None"
    using Cons.prems by (auto simp: p dict_ok_def map_of_eq_None_iff)
  with Cons.IH show ?case by (auto simp: p split: option.splits)
qed

lemma dict_get_update_other: "k \<notin> set (dict_keys e) \<Longrightarrow> dict_get (dict_update d e) k = dict_get d k"
  by (induction e arbitrary: d) auto

section \<open>The interface of a key-value component\<close>

text \<open>
  \<open>look s k\<close> is \<open>s.get(k)\<close> with the default for an absent key, \<open>put k v s\<close> is the item
  assignment. The laws are what the engine relies on: a read after a write sees the write, and a
  write touches no other key. \<open>putter\<close> collects what follows for a sequence of writes, such as
  \<open>update\<close> of several pairs.
\<close>

locale keyed_store =
  fixes look :: "'s \<Rightarrow> string \<Rightarrow> 'v"
    and put :: "string \<Rightarrow> 'v \<Rightarrow> 's \<Rightarrow> 's"
  assumes look_put: "look (put k v s) k' = (if k' = k then v else look s k')"
begin

lemma look_put_same: "look (put k v s) k = v"
  by (simp add: look_put)

lemma look_put_other: "k' \<noteq> k \<Longrightarrow> look (put k v s) k' = look s k'"
  by (simp add: look_put)

lemma look_puts_other:
  "k \<notin> set (map fst kvs) \<Longrightarrow> look (foldl (\<lambda>acc (k, v). put k v acc) s kvs) k = look s k"
proof (induction kvs arbitrary: s)
  case Nil
  then show ?case by simp
next
  case (Cons p kvs)
  then show ?case by (cases p) (simp add: look_put_other)
qed

lemma look_puts_in:
  assumes "distinct (map fst kvs)" and "(k, v) \<in> set kvs"
  shows "look (foldl (\<lambda>acc (k, v). put k v acc) s kvs) k = v"
  using assms
proof (induction kvs arbitrary: s)
  case Nil
  then show ?case by simp
next
  case (Cons p kvs)
  obtain k' v' where p: "p = (k', v')" by force
  show ?case
  proof (cases "(k, v) = p")
    case True
    then have "k \<notin> set (map fst kvs)" using Cons.prems(1) p by auto
    with True p show ?thesis by (simp add: look_puts_other look_put_same)
  next
    case False
    with Cons.prems p have "(k, v) \<in> set kvs" "distinct (map fst kvs)" by auto
    then show ?thesis using p Cons.IH by simp
  qed
qed

end

text \<open>A store that can also remove a key for good: afterwards a read gives the default.\<close>

locale erasable_store = keyed_store look put
  for look :: "'s \<Rightarrow> string \<Rightarrow> 'v"
    and put :: "string \<Rightarrow> 'v \<Rightarrow> 's \<Rightarrow> 's" +
  fixes erase :: "string \<Rightarrow> 's \<Rightarrow> 's"
    and absent :: 'v
  assumes look_erase: "look (erase k s) k' = (if k' = k then absent else look s k')"
begin

lemma erase_after_put: "look (erase k (put k v s)) k' = look (erase k s) k'"
  by (simp add: look_erase look_put)

lemma put_erase_restores: "look s k = absent \<Longrightarrow> look (erase k (put k v s)) k' = look s k'"
  by (simp add: look_erase look_put)

end

end
