(* ===== verification/PyVal.thy ===== *)
theory PyVal
  imports Prelude
begin

text \<open>
  The dynamically typed values the pipeline moves around: attribute values of a DOT graph, context
  values, the fields of a node's status file. \<open>PDict\<close> is an insertion-ordered dictionary with
  string keys. \<open>PFloat\<close> is a float, by the rational it stands for: a decimal of at most fifteen digits and
  of ordinary size, which Python reads and prints without a visible rounding. \<open>py_str\<close>, \<open>py_repr\<close>, \<open>py_true\<close> and \<open>py_eq\<close> are
  Python's \<open>str\<close>, \<open>repr\<close>, truth value and \<open>==\<close> on these values.
\<close>

datatype pyval =
    PNone
  | PBool bool
  | PInt int
  | PFloat rat
  | PStr string
  | PList "pyval list"
  | PDict "(string \<times> pyval) list"

section \<open>Printing\<close>

definition hex_digit :: "nat \<Rightarrow> char" where
  "hex_digit d = (if d < 10 then char_of (48 + d) else char_of (87 + d))"

definition repr_char :: "char \<Rightarrow> char \<Rightarrow> string" where
  "repr_char quote c =
     (let n = (of_char c :: nat) in
      if c = quote \<or> n = 92 then [CHR 0x5C, c]
      else if n = 9 then [CHR 0x5C, CHR ''t'']
      else if n = 10 then [CHR 0x5C, CHR ''n'']
      else if n = 13 then [CHR 0x5C, CHR ''r'']
      else if n < 32 \<or> (127 \<le> n \<and> n \<le> 160) \<or> n = 173
        then [CHR 0x5C, CHR ''x'', hex_digit (n div 16), hex_digit (n mod 16)]
      else [c])"

definition repr_str :: "string \<Rightarrow> string" where
  "repr_str s =
     (let quote = (if CHR 0x27 \<in> set s \<and> CHR 0x22 \<notin> set s then CHR 0x22 else CHR 0x27)
      in quote # concat (map (repr_char quote) s) @ [quote])"

text \<open>The shortest decimal of a rational that has one, with at least one digit after the point.\<close>

definition fraction_digits :: "rat \<Rightarrow> nat" where
  "fraction_digits q =
     (case find (\<lambda>k. snd (quotient_of (q * 10 ^ k)) = 1) [1..<40] of None \<Rightarrow> 40 | Some k \<Rightarrow> k)"

definition pad_zeros :: "nat \<Rightarrow> string \<Rightarrow> string" where
  "pad_zeros k s = replicate (k - length s) CHR ''0'' @ s"

definition float_text :: "rat \<Rightarrow> string" where
  "float_text q =
     (let k = fraction_digits q; n = nat \<lfloor>\<bar>q\<bar> * 10 ^ k\<rfloor>
      in (if q < 0 then ''-'' else []) @ nat_str (n div 10 ^ k) @ ''.'' @ pad_zeros k (nat_str (n mod 10 ^ k)))"

fun py_repr :: "pyval \<Rightarrow> string" where
  "py_repr PNone = ''None''"
| "py_repr (PBool b) = (if b then ''True'' else ''False'')"
| "py_repr (PInt i) = int_str i"
| "py_repr (PFloat q) = float_text q"
| "py_repr (PStr s) = repr_str s"
| "py_repr (PList xs) = ''['' @ py_join '', '' (map py_repr xs) @ '']''"
| "py_repr (PDict d) =
     ''{'' @ py_join '', '' (map (\<lambda>(k, v). repr_str k @ '': '' @ py_repr v) d) @ ''}''"

fun py_str :: "pyval \<Rightarrow> string" where
  "py_str (PStr s) = s"
| "py_str v = py_repr v"

definition repr_strs :: "string list \<Rightarrow> string" where
  "repr_strs xs = py_repr (PList (map PStr xs))"

section \<open>Truth and equality\<close>

fun py_true :: "pyval \<Rightarrow> bool" where
  "py_true PNone = False"
| "py_true (PBool b) = b"
| "py_true (PInt i) = (i \<noteq> 0)"
| "py_true (PFloat q) = (q \<noteq> 0)"
| "py_true (PStr s) = (s \<noteq> [])"
| "py_true (PList xs) = (xs \<noteq> [])"
| "py_true (PDict d) = (d \<noteq> [])"

text \<open>\<open>==\<close>: numbers compare by value, booleans are 0 and 1, dictionaries compare as maps.\<close>

fun num_of :: "pyval \<Rightarrow> rat option" where
  "num_of (PBool b) = Some (if b then 1 else 0)"
| "num_of (PInt i) = Some (of_int i)"
| "num_of (PFloat q) = Some q"
| "num_of _ = None"

function py_eq :: "pyval \<Rightarrow> pyval \<Rightarrow> bool" where
  "py_eq a b =
     (case a of
        PNone \<Rightarrow> b = PNone
      | PBool x \<Rightarrow> num_of b = num_of a
      | PInt i \<Rightarrow> num_of b = num_of a
      | PFloat q \<Rightarrow> num_of b = num_of a
      | PStr s \<Rightarrow> b = PStr s
      | PList xs \<Rightarrow>
          (case b of
             PList ys \<Rightarrow> length xs = length ys \<and> (\<forall>(x, y) \<in> set (zip xs ys). py_eq x y)
           | _ \<Rightarrow> False)
      | PDict d \<Rightarrow>
          (case b of
             PDict e \<Rightarrow> length d = length e
               \<and> (\<forall>(k, v) \<in> set d. (case map_of e k of None \<Rightarrow> False | Some w \<Rightarrow> py_eq v w))
           | _ \<Rightarrow> False))"
  by pat_completeness auto

lemma size_in_PList: "x \<in> set xs \<Longrightarrow> size x < size (PList xs)"
  by (induction xs) auto

lemma size_in_PDict: "(k, v) \<in> set d \<Longrightarrow> size v < size (PDict d)"
  by (induction d) auto

termination py_eq
proof (relation "measure (\<lambda>(a, b). size a)", goal_cases)
  case 1
  then show ?case by simp
next
  case (2 a b xs ys z x y)
  then have "x \<in> set xs" by (auto dest: set_zip_leftD)
  then show ?case using 2 size_in_PList by fastforce
next
  case (3 a b d e z k v w)
  then have "(k, v) \<in> set d" by simp
  then show ?case using 3 size_in_PDict by fastforce
qed

declare py_eq.simps [simp del]

fun py_eq_opt :: "pyval option \<Rightarrow> pyval option \<Rightarrow> bool" where
  "py_eq_opt None None = True"
| "py_eq_opt (Some a) (Some b) = py_eq a b"
| "py_eq_opt _ _ = False"

text \<open>A value whose dictionaries have no repeated key, as every Python value is.\<close>

fun py_wf :: "pyval \<Rightarrow> bool" where
  "py_wf (PList xs) = (\<forall>x \<in> set xs. py_wf x)"
| "py_wf (PDict d) = (distinct (map fst d) \<and> (\<forall>(k, v) \<in> set d. py_wf v))"
| "py_wf _ = True"

lemma py_eq_refl: "py_wf a \<Longrightarrow> py_eq a a"
proof (induction a rule: py_wf.induct)
  case (1 xs)
  have "\<forall>(x, y) \<in> set (zip xs xs). py_eq x y"
    using 1 by (auto simp: zip_same)
  then show ?case by (subst py_eq.simps) simp
next
  case (2 d)
  have "case map_of d k of None \<Rightarrow> False | Some w \<Rightarrow> py_eq v w" if kv: "(k, v) \<in> set d" for k v
  proof -
    have "map_of d k = Some v" using 2 kv by (simp add: map_of_is_SomeI)
    moreover have "py_eq v v" using 2 kv by fastforce
    ultimately show ?thesis by simp
  qed
  then have "\<forall>(k, v) \<in> set d. (case map_of d k of None \<Rightarrow> False | Some w \<Rightarrow> py_eq v w)"
    by blast
  then show ?case by (subst py_eq.simps) simp
qed (subst py_eq.simps, simp)+

lemma py_true_str [simp]: "py_true (PStr s) \<longleftrightarrow> s \<noteq> []"
  by simp

lemma int_str_nat [simp]: "int_str (int n) = nat_str n"
  by (simp add: int_str_def)

lemma int_str_inj [simp]: "int_str i = int_str j \<longleftrightarrow> i = j"
proof
  have no_minus: "nat_str n \<noteq> CHR ''-'' # s" for n s
    using nat_str_digits [of n] by (auto simp: is_digit_def)
  assume "int_str i = int_str j"
  then show "i = j"
    using no_minus by (auto simp: int_str_def split: if_splits) (metis no_minus)+
qed simp

end
