(* ===== verification/Graph_Model.thy ===== *)
theory Graph_Model
  imports PyVal
begin

text \<open>
  The graph data model of \<open>graph.py\<close>: nodes, edges and graphs as records, with the attributes that
  the dataclasses promote to first-class fields, the attribute proxies that keep dictionary-style
  access to the promoted fields working, and the readers every other component uses
  (\<open>resolve_bool_attr\<close>, \<open>parse_tool_env_names\<close>, start and exit node tests, outgoing edges).

  A promoted field holds \<^const>\<open>PNone\<close> where the dataclass holds \<open>None\<close>. Each proxy is shown to be
  a \<open>keyed_store\<close>: what is written through it is read back through it, promoted or not.
\<close>

section \<open>Attribute readers\<close>

definition resolve_bool_attr :: "pyval \<Rightarrow> bool" where
  "resolve_bool_attr value =
     (case value of
        PBool b \<Rightarrow> b
      | PNone \<Rightarrow> False
      | PStr s \<Rightarrow> (if py_lower (py_strip s) = ''true'' then True
                    else if py_lower (py_strip s) = ''false'' then False
                    else False)
      | _ \<Rightarrow> False)"

text \<open>The one case in which the source logs its warning.\<close>

definition bool_attr_warns :: "pyval \<Rightarrow> bool" where
  "bool_attr_warns value =
     (case value of
        PBool b \<Rightarrow> False
      | PNone \<Rightarrow> False
      | PStr s \<Rightarrow> py_lower (py_strip s) \<notin> {''true'', ''false''}
      | _ \<Rightarrow> True)"

text \<open>\<open>^[A-Za-z_][A-Za-z0-9_]*$\<close> under \<open>re.match\<close>: \<open>$\<close> also matches before a final newline.\<close>

definition posix_env_name :: "string \<Rightarrow> bool" where
  "posix_env_name s =
     (case s of
        [] \<Rightarrow> False
      | c # cs \<Rightarrow> (is_alpha c \<or> c = CHR ''_'')
          \<and> (list_all is_word cs
             \<or> (cs \<noteq> [] \<and> last cs = CHR 0x0A \<and> list_all is_word (butlast cs))))"

definition parse_tool_env_names :: "pyval \<Rightarrow> string list" where
  "parse_tool_env_names value =
     (if \<not> py_true value then []
      else map py_strip (filter (\<lambda>name. py_strip name \<noteq> []) (py_split '','' (py_str value))))"

definition non_identifier_tool_env_names :: "pyval \<Rightarrow> string list" where
  "non_identifier_tool_env_names value =
     filter (\<lambda>name. \<not> posix_env_name name) (parse_tool_env_names value)"

section \<open>Nodes\<close>

record node =
  n_id :: string
  n_label :: string
  n_shape :: string
  n_type :: string
  n_prompt :: string
  n_raw :: "pyval dict"
  n_handler_type :: string
  n_max_retries :: pyval
  n_goal_gate :: pyval
  n_retry_target :: pyval
  n_fallback_retry_target :: pyval
  n_fidelity :: pyval
  n_thread_id :: pyval
  n_timeout :: pyval
  n_llm_model :: pyval
  n_llm_provider :: pyval
  n_reasoning_effort :: pyval
  n_auto_status :: pyval
  n_allow_partial :: pyval

definition node_promoted_attrs :: "string list" where
  "node_promoted_attrs =
     [''max_retries'', ''goal_gate'', ''retry_target'', ''fallback_retry_target'', ''fidelity'',
      ''thread_id'', ''timeout'', ''llm_model'', ''llm_provider'', ''reasoning_effort'',
      ''auto_status'', ''allow_partial'']"

text \<open>\<open>getattr(node, key, None)\<close> and \<open>object.__setattr__(node, key, v)\<close> for a promoted key.\<close>

definition node_field :: "node \<Rightarrow> string \<Rightarrow> pyval" where
  "node_field n k =
     (if k = ''max_retries'' then n_max_retries n
      else if k = ''goal_gate'' then n_goal_gate n
      else if k = ''retry_target'' then n_retry_target n
      else if k = ''fallback_retry_target'' then n_fallback_retry_target n
      else if k = ''fidelity'' then n_fidelity n
      else if k = ''thread_id'' then n_thread_id n
      else if k = ''timeout'' then n_timeout n
      else if k = ''llm_model'' then n_llm_model n
      else if k = ''llm_provider'' then n_llm_provider n
      else if k = ''reasoning_effort'' then n_reasoning_effort n
      else if k = ''auto_status'' then n_auto_status n
      else if k = ''allow_partial'' then n_allow_partial n
      else PNone)"

definition node_set_field :: "string \<Rightarrow> pyval \<Rightarrow> node \<Rightarrow> node" where
  "node_set_field k v n =
     (if k = ''max_retries'' then n\<lparr>n_max_retries := v\<rparr>
      else if k = ''goal_gate'' then n\<lparr>n_goal_gate := v\<rparr>
      else if k = ''retry_target'' then n\<lparr>n_retry_target := v\<rparr>
      else if k = ''fallback_retry_target'' then n\<lparr>n_fallback_retry_target := v\<rparr>
      else if k = ''fidelity'' then n\<lparr>n_fidelity := v\<rparr>
      else if k = ''thread_id'' then n\<lparr>n_thread_id := v\<rparr>
      else if k = ''timeout'' then n\<lparr>n_timeout := v\<rparr>
      else if k = ''llm_model'' then n\<lparr>n_llm_model := v\<rparr>
      else if k = ''llm_provider'' then n\<lparr>n_llm_provider := v\<rparr>
      else if k = ''reasoning_effort'' then n\<lparr>n_reasoning_effort := v\<rparr>
      else if k = ''auto_status'' then n\<lparr>n_auto_status := v\<rparr>
      else if k = ''allow_partial'' then n\<lparr>n_allow_partial := v\<rparr>
      else n)"

definition raw_get :: "pyval dict \<Rightarrow> string \<Rightarrow> pyval \<Rightarrow> pyval" where
  "raw_get d k dflt = (case dict_get d k of None \<Rightarrow> dflt | Some v \<Rightarrow> v)"

definition node_attr_get_d :: "node \<Rightarrow> string \<Rightarrow> pyval \<Rightarrow> pyval" where
  "node_attr_get_d n k dflt =
     (if k \<in> set node_promoted_attrs
      then (if node_field n k \<noteq> PNone then node_field n k else dflt)
      else raw_get (n_raw n) k dflt)"

definition node_attr_get :: "node \<Rightarrow> string \<Rightarrow> pyval" where
  "node_attr_get n k = node_attr_get_d n k PNone"

text \<open>\<open>attrs[key]\<close>; \<^const>\<open>None\<close> is \<open>KeyError\<close>. A promoted key whose field is \<open>None\<close> falls
  through to the plain dictionary.\<close>

definition node_attr_item :: "node \<Rightarrow> string \<Rightarrow> pyval option" where
  "node_attr_item n k =
     (if k \<in> set node_promoted_attrs \<and> node_field n k \<noteq> PNone then Some (node_field n k)
      else dict_get (n_raw n) k)"

definition node_attr_set :: "string \<Rightarrow> pyval \<Rightarrow> node \<Rightarrow> node" where
  "node_attr_set k v n =
     (if k \<in> set node_promoted_attrs then node_set_field k v n
      else n\<lparr>n_raw := dict_set k v (n_raw n)\<rparr>)"

definition node_attr_has :: "node \<Rightarrow> string \<Rightarrow> bool" where
  "node_attr_has n k =
     (if k \<in> set node_promoted_attrs then node_field n k \<noteq> PNone else dict_has (n_raw n) k)"

text \<open>\<open>__post_init__\<close>: the label defaults to the id, and each promoted key present in the raw
  attributes is popped and fills its field unless the field was given explicitly.\<close>

definition node_promote :: "string \<Rightarrow> node \<Rightarrow> node" where
  "node_promote k n =
     (case dict_get (n_raw n) k of
        None \<Rightarrow> n
      | Some v \<Rightarrow>
          (let n' = n\<lparr>n_raw := dict_pop k (n_raw n)\<rparr>
           in if node_field n' k = PNone then node_set_field k v n' else n'))"

definition node_post_init :: "node \<Rightarrow> node" where
  "node_post_init n =
     fold node_promote node_promoted_attrs (if n_label n = [] then n\<lparr>n_label := n_id n\<rparr> else n)"

definition is_start_node :: "node \<Rightarrow> bool" where
  "is_start_node n =
     (if n_shape n = ''Mdiamond'' then True
      else if n_type n = ''start'' then True
      else if py_lower (n_id n) = ''start'' then True
      else False)"

definition is_exit_node :: "node \<Rightarrow> bool" where
  "is_exit_node n =
     (if n_shape n = ''Msquare'' then True
      else if n_type n = ''exit'' then True
      else if py_lower (n_id n) \<in> {''exit'', ''end''} then True
      else False)"

section \<open>Edges\<close>

record edge =
  from_node :: string
  to_node :: string
  e_label :: string
  e_condition :: string
  e_weight :: rat
  e_raw :: "pyval dict"
  e_fidelity :: pyval
  e_thread_id :: pyval
  e_loop_restart :: pyval

definition edge_promoted_attrs :: "string list" where
  "edge_promoted_attrs = [''fidelity'', ''thread_id'', ''loop_restart'']"

definition edge_field :: "edge \<Rightarrow> string \<Rightarrow> pyval" where
  "edge_field e k =
     (if k = ''fidelity'' then e_fidelity e
      else if k = ''thread_id'' then e_thread_id e
      else if k = ''loop_restart'' then e_loop_restart e
      else PNone)"

definition edge_set_field :: "string \<Rightarrow> pyval \<Rightarrow> edge \<Rightarrow> edge" where
  "edge_set_field k v e =
     (if k = ''fidelity'' then e\<lparr>e_fidelity := v\<rparr>
      else if k = ''thread_id'' then e\<lparr>e_thread_id := v\<rparr>
      else if k = ''loop_restart'' then e\<lparr>e_loop_restart := v\<rparr>
      else e)"

definition edge_attr_get :: "edge \<Rightarrow> string \<Rightarrow> pyval" where
  "edge_attr_get e k =
     (if k \<in> set edge_promoted_attrs then edge_field e k else raw_get (e_raw e) k PNone)"

definition edge_attr_item :: "edge \<Rightarrow> string \<Rightarrow> pyval option" where
  "edge_attr_item e k =
     (if k \<in> set edge_promoted_attrs \<and> edge_field e k \<noteq> PNone then Some (edge_field e k)
      else dict_get (e_raw e) k)"

definition edge_attr_set :: "string \<Rightarrow> pyval \<Rightarrow> edge \<Rightarrow> edge" where
  "edge_attr_set k v e =
     (if k \<in> set edge_promoted_attrs then edge_set_field k v e
      else e\<lparr>e_raw := dict_set k v (e_raw e)\<rparr>)"

definition edge_attr_has :: "edge \<Rightarrow> string \<Rightarrow> bool" where
  "edge_attr_has e k =
     (if k \<in> set edge_promoted_attrs then edge_field e k \<noteq> PNone else dict_has (e_raw e) k)"

definition edge_promote :: "string \<Rightarrow> edge \<Rightarrow> edge" where
  "edge_promote k e =
     (case dict_get (e_raw e) k of
        None \<Rightarrow> e
      | Some v \<Rightarrow>
          (let e' = e\<lparr>e_raw := dict_pop k (e_raw e)\<rparr>
           in if edge_field e' k = PNone then edge_set_field k v e' else e'))"

definition edge_post_init :: "edge \<Rightarrow> edge" where
  "edge_post_init e = fold edge_promote edge_promoted_attrs e"

section \<open>Graphs\<close>

record graph =
  g_name :: string
  g_nodes :: "node dict"
  g_edges :: "edge list"
  g_goal :: string
  g_dot_source :: string
  g_default_max_retry :: pyval
  g_model_stylesheet :: string
  g_source_dir :: string
  g_raw :: "pyval dict"
  g_retry_target :: pyval
  g_fallback_retry_target :: pyval
  g_default_fidelity :: pyval
  g_label :: pyval
  g_max_pipeline_duration :: pyval

definition graph_promoted_attrs :: "string list" where
  "graph_promoted_attrs =
     [''retry_target'', ''fallback_retry_target'', ''default_fidelity'', ''label'',
      ''max_pipeline_duration'']"

definition graph_field :: "graph \<Rightarrow> string \<Rightarrow> pyval" where
  "graph_field g k =
     (if k = ''retry_target'' then g_retry_target g
      else if k = ''fallback_retry_target'' then g_fallback_retry_target g
      else if k = ''default_fidelity'' then g_default_fidelity g
      else if k = ''label'' then g_label g
      else if k = ''max_pipeline_duration'' then g_max_pipeline_duration g
      else PNone)"

definition graph_set_field :: "string \<Rightarrow> pyval \<Rightarrow> graph \<Rightarrow> graph" where
  "graph_set_field k v g =
     (if k = ''retry_target'' then g\<lparr>g_retry_target := v\<rparr>
      else if k = ''fallback_retry_target'' then g\<lparr>g_fallback_retry_target := v\<rparr>
      else if k = ''default_fidelity'' then g\<lparr>g_default_fidelity := v\<rparr>
      else if k = ''label'' then g\<lparr>g_label := v\<rparr>
      else if k = ''max_pipeline_duration'' then g\<lparr>g_max_pipeline_duration := v\<rparr>
      else g)"

definition graph_attr_get :: "graph \<Rightarrow> string \<Rightarrow> pyval" where
  "graph_attr_get g k =
     (if k \<in> set graph_promoted_attrs then graph_field g k else raw_get (g_raw g) k PNone)"

definition graph_attr_item :: "graph \<Rightarrow> string \<Rightarrow> pyval option" where
  "graph_attr_item g k =
     (if k \<in> set graph_promoted_attrs \<and> graph_field g k \<noteq> PNone then Some (graph_field g k)
      else dict_get (g_raw g) k)"

definition graph_attr_set :: "string \<Rightarrow> pyval \<Rightarrow> graph \<Rightarrow> graph" where
  "graph_attr_set k v g =
     (if k \<in> set graph_promoted_attrs then graph_set_field k v g
      else g\<lparr>g_raw := dict_set k v (g_raw g)\<rparr>)"

definition graph_attr_has :: "graph \<Rightarrow> string \<Rightarrow> bool" where
  "graph_attr_has g k =
     (if k \<in> set graph_promoted_attrs then graph_field g k \<noteq> PNone else dict_has (g_raw g) k)"

definition graph_promote :: "string \<Rightarrow> graph \<Rightarrow> graph" where
  "graph_promote k g =
     (case dict_get (g_raw g) k of
        None \<Rightarrow> g
      | Some v \<Rightarrow>
          (let g' = g\<lparr>g_raw := dict_pop k (g_raw g)\<rparr>
           in if graph_field g' k = PNone then graph_set_field k v g' else g'))"

definition graph_post_init :: "graph \<Rightarrow> graph" where
  "graph_post_init g = fold graph_promote graph_promoted_attrs g"

definition outgoing_edges :: "graph \<Rightarrow> string \<Rightarrow> edge list" where
  "outgoing_edges g node_id = filter (\<lambda>e. from_node e = node_id) (g_edges g)"

definition incoming_edges :: "graph \<Rightarrow> string \<Rightarrow> edge list" where
  "incoming_edges g node_id = filter (\<lambda>e. to_node e = node_id) (g_edges g)"


section \<open>The attribute proxies\<close>

text \<open>
  The three proxy classes of \<open>graph.py\<close> are one interface: promoted keys live in fields, the other
  keys in the underlying dictionary, and \<open>get\<close>, \<open>__setitem__\<close> and the promotion of
  \<open>__post_init__\<close> dispatch on the key.
\<close>

locale attr_proxy =
  fixes field :: "'s \<Rightarrow> string \<Rightarrow> pyval"
    and set_field :: "string \<Rightarrow> pyval \<Rightarrow> 's \<Rightarrow> 's"
    and raw :: "'s \<Rightarrow> pyval dict"
    and set_raw :: "pyval dict \<Rightarrow> 's \<Rightarrow> 's"
    and promoted :: "string list"
    and get :: "'s \<Rightarrow> string \<Rightarrow> pyval"
    and item :: "'s \<Rightarrow> string \<Rightarrow> pyval option"
    and has :: "'s \<Rightarrow> string \<Rightarrow> bool"
    and assign :: "string \<Rightarrow> pyval \<Rightarrow> 's \<Rightarrow> 's"
    and promote :: "string \<Rightarrow> 's \<Rightarrow> 's"
  assumes field_set_field:
      "k \<in> set promoted \<Longrightarrow> field (set_field k v s) k' = (if k' = k then v else field s k')"
    and raw_set_field: "raw (set_field k v s) = raw s"
    and field_set_raw: "field (set_raw d s) k = field s k"
    and raw_set_raw: "raw (set_raw d s) = d"
    and distinct_promoted: "distinct promoted"
    and get_eq: "get s k = (if k \<in> set promoted then field s k else raw_get (raw s) k PNone)"
    and item_eq: "item s k = (if k \<in> set promoted \<and> field s k \<noteq> PNone then Some (field s k)
                              else dict_get (raw s) k)"
    and has_eq: "has s k = (if k \<in> set promoted then field s k \<noteq> PNone else dict_has (raw s) k)"
    and assign_eq: "assign k v s = (if k \<in> set promoted then set_field k v s
                                    else set_raw (dict_set k v (raw s)) s)"
    and promote_eq: "promote k s =
      (case dict_get (raw s) k of
         None \<Rightarrow> s
       | Some v \<Rightarrow> (let s' = set_raw (dict_pop k (raw s)) s
                    in if field s' k = PNone then set_field k v s' else s'))"
begin

lemma get_assign: "get (assign k v s) k' = (if k' = k then v else get s k')"
  by (auto simp: get_eq assign_eq field_set_field raw_set_field field_set_raw raw_set_raw raw_get_def)

lemma has_assign: "v \<noteq> PNone \<Longrightarrow> has (assign k v s) k' \<longleftrightarrow> k' = k \<or> has s k'"
  by (auto simp: has_eq assign_eq field_set_field raw_set_field field_set_raw raw_set_raw dict_has_iff)

lemma promote_field:
  "k \<in> set promoted \<Longrightarrow>
   field (promote k s) k' =
     (if k' = k \<and> field s k = PNone then raw_get (raw s) k PNone else field s k')"
  by (auto simp: promote_eq field_set_field field_set_raw raw_get_def Let_def split: option.splits)

lemma promote_raw: "dict_get (raw (promote k s)) k' = (if k' = k then None else dict_get (raw s) k')"
  by (auto simp: promote_eq raw_set_field raw_set_raw Let_def split: option.splits)

lemma fold_promote:
  "distinct ks \<Longrightarrow> set ks \<subseteq> set promoted \<Longrightarrow>
   field (fold promote ks s) k =
     (if k \<in> set ks \<and> field s k = PNone then raw_get (raw s) k PNone else field s k)
   \<and> dict_get (raw (fold promote ks s)) k = (if k \<in> set ks then None else dict_get (raw s) k)"
proof (induction ks arbitrary: s)
  case Nil
  then show ?case by simp
next
  case (Cons x ks)
  then have IH: "field (fold promote ks (promote x s)) k =
      (if k \<in> set ks \<and> field (promote x s) k = PNone then raw_get (raw (promote x s)) k PNone
       else field (promote x s) k)"
    "dict_get (raw (fold promote ks (promote x s))) k =
      (if k \<in> set ks then None else dict_get (raw (promote x s)) k)"
    by auto
  have "x \<in> set promoted" "x \<notin> set ks" using Cons.prems by auto
  with IH show ?case by (auto simp: promote_field promote_raw raw_get_def)
qed

text \<open>Construction loses no attribute: afterwards \<open>get\<close> returns the explicitly given field, or
  else the raw attribute, and no promoted key is left in the dictionary.\<close>

lemma get_after_promotion:
  "get (fold promote promoted s) k =
     (if k \<in> set promoted \<and> field s k \<noteq> PNone then field s k else raw_get (raw s) k PNone)"
  using fold_promote [OF distinct_promoted subset_refl, of s k]
  by (auto simp: get_eq raw_get_def)

lemma no_promoted_key_left: "k \<in> set promoted \<Longrightarrow> \<not> dict_has (raw (fold promote promoted s)) k"
  using fold_promote [OF distinct_promoted subset_refl, of s k] by (simp add: dict_has_iff)

text \<open>\<open>in\<close> and the subscript agree once construction is over.\<close>

lemma has_iff_item:
  "(\<And>k. k \<in> set promoted \<Longrightarrow> \<not> dict_has (raw s) k) \<Longrightarrow> has s k \<longleftrightarrow> item s k \<noteq> None"
  by (auto simp: has_eq item_eq dict_has_iff)

end

sublocale attr_proxy \<subseteq> keyed_store get assign
  by unfold_locales (rule get_assign)

lemma node_promoted_cases: "k \<in> set node_promoted_attrs \<Longrightarrow>
    k = ''max_retries'' \<or> k = ''goal_gate'' \<or> k = ''retry_target'' \<or> k = ''fallback_retry_target'' \<or> k = ''fidelity'' \<or> k = ''thread_id'' \<or> k = ''timeout'' \<or> k = ''llm_model'' \<or> k = ''llm_provider'' \<or> k = ''reasoning_effort'' \<or> k = ''auto_status'' \<or> k = ''allow_partial''"
  by (simp add: node_promoted_attrs_def)

lemma node_field_set_same:
  "k \<in> set node_promoted_attrs \<Longrightarrow> node_field (node_set_field k v x) k = v"
  by (drule node_promoted_cases, elim disjE) (simp_all add: node_field_def node_set_field_def)

lemma node_field_set_other:
  "k \<in> set node_promoted_attrs \<Longrightarrow> k' \<noteq> k \<Longrightarrow>
   node_field (node_set_field k v x) k' = node_field x k'"
  by (drule node_promoted_cases, elim disjE) (simp_all add: node_field_def node_set_field_def)

lemma node_field_set:
  "k \<in> set node_promoted_attrs \<Longrightarrow>
   node_field (node_set_field k v x) k' = (if k' = k then v else node_field x k')"
  by (simp add: node_field_set_same node_field_set_other)

lemma node_set_field_raw: "n_raw (node_set_field k v x) = n_raw x"
  unfolding node_set_field_def by (auto split: if_split)

lemma node_field_set_raw: "node_field (x\<lparr>n_raw := d\<rparr>) k = node_field x k"
  unfolding node_field_def by simp

lemma node_attr_get_eq: "node_attr_get n k =
    (if k \<in> set node_promoted_attrs then node_field n k else raw_get (n_raw n) k PNone)"
  by (simp add: node_attr_get_def node_attr_get_d_def)

lemma n_raw_of_set: "n_raw (x\<lparr>n_raw := d\<rparr>) = d"
  by simp

lemma node_promoted_distinct: "distinct node_promoted_attrs"
  by (simp add: node_promoted_attrs_def)

interpretation na: attr_proxy node_field node_set_field n_raw "\<lambda>d x. x\<lparr>n_raw := d\<rparr>"
  node_promoted_attrs node_attr_get node_attr_item node_attr_has node_attr_set node_promote
  by unfold_locales
    (simp_all only: node_field_set node_set_field_raw node_field_set_raw node_promoted_distinct
       node_attr_get_eq node_attr_item_def node_attr_has_def node_attr_set_def node_promote_def
       n_raw_of_set)

lemma edge_promoted_cases: "k \<in> set edge_promoted_attrs \<Longrightarrow>
    k = ''fidelity'' \<or> k = ''thread_id'' \<or> k = ''loop_restart''"
  by (simp add: edge_promoted_attrs_def)

lemma edge_field_set_same:
  "k \<in> set edge_promoted_attrs \<Longrightarrow> edge_field (edge_set_field k v x) k = v"
  by (drule edge_promoted_cases, elim disjE) (simp_all add: edge_field_def edge_set_field_def)

lemma edge_field_set_other:
  "k \<in> set edge_promoted_attrs \<Longrightarrow> k' \<noteq> k \<Longrightarrow>
   edge_field (edge_set_field k v x) k' = edge_field x k'"
  by (drule edge_promoted_cases, elim disjE) (simp_all add: edge_field_def edge_set_field_def)

lemma edge_field_set:
  "k \<in> set edge_promoted_attrs \<Longrightarrow>
   edge_field (edge_set_field k v x) k' = (if k' = k then v else edge_field x k')"
  by (simp add: edge_field_set_same edge_field_set_other)

lemma edge_set_field_raw: "e_raw (edge_set_field k v x) = e_raw x"
  unfolding edge_set_field_def by (auto split: if_split)

lemma edge_field_set_raw: "edge_field (x\<lparr>e_raw := d\<rparr>) k = edge_field x k"
  unfolding edge_field_def by simp

lemma e_raw_of_set: "e_raw (x\<lparr>e_raw := d\<rparr>) = d"
  by simp

lemma edge_promoted_distinct: "distinct edge_promoted_attrs"
  by (simp add: edge_promoted_attrs_def)

interpretation ea: attr_proxy edge_field edge_set_field e_raw "\<lambda>d x. x\<lparr>e_raw := d\<rparr>"
  edge_promoted_attrs edge_attr_get edge_attr_item edge_attr_has edge_attr_set edge_promote
  by unfold_locales
    (simp_all only: edge_field_set edge_set_field_raw edge_field_set_raw edge_promoted_distinct
       edge_attr_get_def edge_attr_item_def edge_attr_has_def edge_attr_set_def edge_promote_def
       e_raw_of_set)

lemma graph_promoted_cases: "k \<in> set graph_promoted_attrs \<Longrightarrow>
    k = ''retry_target'' \<or> k = ''fallback_retry_target'' \<or> k = ''default_fidelity'' \<or> k = ''label'' \<or> k = ''max_pipeline_duration''"
  by (simp add: graph_promoted_attrs_def)

lemma graph_field_set_same:
  "k \<in> set graph_promoted_attrs \<Longrightarrow> graph_field (graph_set_field k v x) k = v"
  by (drule graph_promoted_cases, elim disjE) (simp_all add: graph_field_def graph_set_field_def)

lemma graph_field_set_other:
  "k \<in> set graph_promoted_attrs \<Longrightarrow> k' \<noteq> k \<Longrightarrow>
   graph_field (graph_set_field k v x) k' = graph_field x k'"
  by (drule graph_promoted_cases, elim disjE) (simp_all add: graph_field_def graph_set_field_def)

lemma graph_field_set:
  "k \<in> set graph_promoted_attrs \<Longrightarrow>
   graph_field (graph_set_field k v x) k' = (if k' = k then v else graph_field x k')"
  by (simp add: graph_field_set_same graph_field_set_other)

lemma graph_set_field_raw: "g_raw (graph_set_field k v x) = g_raw x"
  unfolding graph_set_field_def by (auto split: if_split)

lemma graph_field_set_raw: "graph_field (x\<lparr>g_raw := d\<rparr>) k = graph_field x k"
  unfolding graph_field_def by simp

lemma g_raw_of_set: "g_raw (x\<lparr>g_raw := d\<rparr>) = d"
  by simp

lemma graph_promoted_distinct: "distinct graph_promoted_attrs"
  by (simp add: graph_promoted_attrs_def)

interpretation ga: attr_proxy graph_field graph_set_field g_raw "\<lambda>d x. x\<lparr>g_raw := d\<rparr>"
  graph_promoted_attrs graph_attr_get graph_attr_item graph_attr_has graph_attr_set graph_promote
  by unfold_locales
    (simp_all only: graph_field_set graph_set_field_raw graph_field_set_raw graph_promoted_distinct
       graph_attr_get_def graph_attr_item_def graph_attr_has_def graph_attr_set_def graph_promote_def
       g_raw_of_set)

text \<open>Assigning or promoting an attribute leaves the identity of a node alone.\<close>

lemma node_set_field_frame [frames]:
  "n_id (node_set_field k v n) = n_id n" "n_shape (node_set_field k v n) = n_shape n"
  "n_label (node_set_field k v n) = n_label n" "n_type (node_set_field k v n) = n_type n"
  "n_prompt (node_set_field k v n) = n_prompt n"
  unfolding node_set_field_def by (auto split: if_split)

lemma node_attr_set_frame [frames]:
  "n_id (node_attr_set k v n) = n_id n" "n_shape (node_attr_set k v n) = n_shape n"
  "n_prompt (node_attr_set k v n) = n_prompt n" "n_type (node_attr_set k v n) = n_type n"
  by (simp_all add: node_attr_set_def node_set_field_frame)

lemma node_promote_frame [frames]:
  "n_id (node_promote k n) = n_id n" "n_shape (node_promote k n) = n_shape n"
  "n_label (node_promote k n) = n_label n" "n_type (node_promote k n) = n_type n"
  by (simp_all add: node_promote_def node_set_field_frame Let_def split: option.splits)

lemma outgoing_edges_from: "e \<in> set (outgoing_edges g n) \<Longrightarrow> from_node e = n \<and> e \<in> set (g_edges g)"
  by (auto simp: outgoing_edges_def)

text \<open>A graph whose node keys are the node ids and whose edges end in nodes of the graph, as the
  parser builds it and the validator accepts it.\<close>

definition graph_ok :: "graph \<Rightarrow> bool" where
  "graph_ok g =
     (dict_ok (g_nodes g)
      \<and> (\<forall>(k, n) \<in> set (g_nodes g). n_id n = k)
      \<and> (\<forall>e \<in> set (g_edges g). dict_has (g_nodes g) (to_node e)))"

lemma graph_ok_edge: "graph_ok g \<Longrightarrow> e \<in> set (outgoing_edges g n) \<Longrightarrow> \<exists>m. dict_get (g_nodes g) (to_node e) = Some m"
  by (auto simp: graph_ok_def dict_has_iff outgoing_edges_def)

lemma graph_ok_id: "graph_ok g \<Longrightarrow> dict_get (g_nodes g) k = Some n \<Longrightarrow> n_id n = k"
  by (auto simp: graph_ok_def dest!: map_of_SomeD)

end
