(* ===== verification/Pipeline_State.thy ===== *)
theory Pipeline_State
  imports Graph_Model
begin

text \<open>
  What a node execution produces and what the pipeline remembers: the \<open>Outcome\<close> of \<open>outcome.py\<close>
  and the \<open>PipelineContext\<close> of \<open>context.py\<close>. Every context method takes the lock for its whole
  body, so each is one atomic operation on the pair of the value dictionary and the run log; the
  context is an \<open>erasable_store\<close>.
\<close>

section \<open>Exceptions\<close>

text \<open>
  The exceptions the pipeline tells apart: the child-graph resolution fault of \<open>pipeline.py\<close>, and
  any other one with its type name, whether it is a \<open>TimeoutError\<close>, \<open>ConnectionError\<close> or \<open>OSError\<close>,
  and its text.
\<close>

datatype exc =
    ChildDotResolutionError string
  | PyError (exc_type: string) (exc_transient: bool) (exc_msg: string)

text \<open>\<open>except Exception\<close> lets a cancellation through.\<close>

definition is_cancellation :: "exc \<Rightarrow> bool" where
  "is_cancellation e = (case e of PyError t tr m \<Rightarrow> t = ''CancelledError'' | _ \<Rightarrow> False)"

section \<open>Outcomes\<close>

datatype stage_status = SUCCESS | PARTIAL_SUCCESS | RETRY | FAIL | SKIPPED

definition status_value :: "stage_status \<Rightarrow> string" where
  "status_value s =
     (case s of
        SUCCESS \<Rightarrow> ''success''
      | PARTIAL_SUCCESS \<Rightarrow> ''partial_success''
      | RETRY \<Rightarrow> ''retry''
      | FAIL \<Rightarrow> ''fail''
      | SKIPPED \<Rightarrow> ''skipped'')"

text \<open>\<open>StageStatus(value)\<close>; \<^const>\<open>None\<close> is the \<open>ValueError\<close> of an unknown value.\<close>

definition status_of_value :: "string \<Rightarrow> stage_status option" where
  "status_of_value v =
     (if v = ''success'' then Some SUCCESS
      else if v = ''partial_success'' then Some PARTIAL_SUCCESS
      else if v = ''retry'' then Some RETRY
      else if v = ''fail'' then Some FAIL
      else if v = ''skipped'' then Some SKIPPED
      else None)"

record outcome =
  o_status :: stage_status
  o_preferred_label :: "string option"
  o_suggested_next_ids :: "pyval list option"
  o_context_updates :: "pyval dict option"
  o_notes :: "string option"
  o_failure_reason :: "string option"
  o_session_id :: "string option"
  o_is_explicit :: bool
  o_response_text :: "string option"
  o_failed_step :: "pyval option"
  o_attempt_count :: "int option"

text \<open>\<open>Outcome(status=s)\<close>: every other field at its default.\<close>

definition mk_outcome :: "stage_status \<Rightarrow> outcome" where
  "mk_outcome s =
     \<lparr>o_status = s, o_preferred_label = None, o_suggested_next_ids = None,
      o_context_updates = None, o_notes = None, o_failure_reason = None, o_session_id = None,
      o_is_explicit = False, o_response_text = None, o_failed_step = None,
      o_attempt_count = None\<rparr>"

definition is_success :: "outcome \<Rightarrow> bool" where
  "is_success x = (o_status x \<in> {SUCCESS, PARTIAL_SUCCESS})"

lemma status_roundtrip [simp]: "status_of_value (status_value s) = Some s"
  by (cases s) (simp_all add: status_of_value_def status_value_def)

lemma status_of_value_Some: "status_of_value v = Some s \<Longrightarrow> v = status_value s"
  by (auto simp: status_of_value_def status_value_def split: if_splits)

lemma status_value_inj [simp]: "status_value s = status_value t \<longleftrightarrow> s = t"
  by (metis option.inject status_roundtrip)

lemma status_value_nonempty [simp]: "status_value s \<noteq> []"
  by (cases s) (simp_all add: status_value_def)

lemma mk_outcome_simps [simp]:
  "o_status (mk_outcome s) = s" "o_preferred_label (mk_outcome s) = None"
  "o_suggested_next_ids (mk_outcome s) = None" "o_context_updates (mk_outcome s) = None"
  "o_notes (mk_outcome s) = None" "o_failure_reason (mk_outcome s) = None"
  "o_session_id (mk_outcome s) = None" "o_is_explicit (mk_outcome s) = False"
  "o_response_text (mk_outcome s) = None" "o_failed_step (mk_outcome s) = None"
  "o_attempt_count (mk_outcome s) = None"
  by (simp_all add: mk_outcome_def)

section \<open>The pipeline context\<close>

record ctx =
  c_values :: "pyval dict"
  c_logs :: "string list"

definition ctx_new :: ctx where
  "ctx_new = \<lparr>c_values = [], c_logs = []\<rparr>"

definition ctx_get_d :: "ctx \<Rightarrow> string \<Rightarrow> pyval \<Rightarrow> pyval" where
  "ctx_get_d c k dflt = (case dict_get (c_values c) k of None \<Rightarrow> dflt | Some v \<Rightarrow> v)"

definition ctx_get :: "ctx \<Rightarrow> string \<Rightarrow> pyval" where
  "ctx_get c k = ctx_get_d c k PNone"

definition ctx_get_string :: "ctx \<Rightarrow> string \<Rightarrow> string \<Rightarrow> string" where
  "ctx_get_string c k dflt = (if ctx_get c k = PNone then dflt else py_str (ctx_get c k))"

definition ctx_set :: "string \<Rightarrow> pyval \<Rightarrow> ctx \<Rightarrow> ctx" where
  "ctx_set k v c = c\<lparr>c_values := dict_set k v (c_values c)\<rparr>"

definition ctx_pop :: "string \<Rightarrow> ctx \<Rightarrow> ctx" where
  "ctx_pop k c = c\<lparr>c_values := dict_pop k (c_values c)\<rparr>"

definition ctx_update :: "pyval dict \<Rightarrow> ctx \<Rightarrow> ctx" where
  "ctx_update updates c = c\<lparr>c_values := dict_update (c_values c) updates\<rparr>"

definition ctx_snapshot :: "ctx \<Rightarrow> pyval dict" where
  "ctx_snapshot c = c_values c"

text \<open>Python's \<open>clone\<close> copies both containers; the values are shared, and no operation of the
  context mutates a value in place.\<close>

definition ctx_clone :: "ctx \<Rightarrow> ctx" where
  "ctx_clone c = ctx_new\<lparr>c_values := c_values c, c_logs := c_logs c\<rparr>"

definition ctx_append_log :: "string \<Rightarrow> ctx \<Rightarrow> ctx" where
  "ctx_append_log entry c = c\<lparr>c_logs := c_logs c @ [entry]\<rparr>"

definition ctx_get_logs :: "ctx \<Rightarrow> string list" where
  "ctx_get_logs c = c_logs c"

definition ctx_ok :: "ctx \<Rightarrow> bool" where
  "ctx_ok c = dict_ok (c_values c)"

interpretation cx: erasable_store ctx_get ctx_set ctx_pop PNone
  by unfold_locales (auto simp: ctx_get_def ctx_get_d_def ctx_set_def ctx_pop_def)

lemma ctx_ok_new [simp]: "ctx_ok ctx_new"
  by (simp add: ctx_ok_def ctx_new_def)

lemma ctx_ok_set [simp]: "ctx_ok c \<Longrightarrow> ctx_ok (ctx_set k v c)"
  by (simp add: ctx_ok_def ctx_set_def)

lemma ctx_ok_pop [simp]: "ctx_ok c \<Longrightarrow> ctx_ok (ctx_pop k c)"
  by (simp add: ctx_ok_def ctx_pop_def)

lemma ctx_ok_update [simp]: "ctx_ok c \<Longrightarrow> ctx_ok (ctx_update u c)"
  by (simp add: ctx_ok_def ctx_update_def)

lemma ctx_clone_id [simp]: "ctx_clone c = c"
  by (simp add: ctx_clone_def ctx_new_def)

lemma ctx_get_cong: "c_values c = c_values d \<Longrightarrow> ctx_get c k = ctx_get d k"
  by (simp add: ctx_get_def ctx_get_d_def)

lemma ctx_append_log_values [frames]: "c_values (ctx_append_log e c) = c_values c"
  by (simp add: ctx_append_log_def)

lemma ctx_get_append_log [simp]: "ctx_get (ctx_append_log e c) k = ctx_get c k"
  by (rule ctx_get_cong) (simp add: frames)

lemma ctx_logs_frame [frames]:
  "c_logs (ctx_set k v c) = c_logs c" "c_logs (ctx_pop k c) = c_logs c"
  "c_logs (ctx_update u c) = c_logs c"
  by (simp_all add: ctx_set_def ctx_pop_def ctx_update_def)

lemma ctx_update_fold: "ctx_update u c = foldl (\<lambda>acc (k, v). ctx_set k v acc) c u"
proof (induction u arbitrary: c)
  case Nil
  then show ?case by (simp add: ctx_update_def)
next
  case (Cons p u)
  obtain k v where p: "p = (k, v)" by force
  have "ctx_update (p # u) c = ctx_update u (ctx_set k v c)"
    by (simp add: ctx_update_def ctx_set_def p)
  with Cons.IH p show ?case by simp
qed

lemma ctx_get_update_other: "k \<notin> set (dict_keys u) \<Longrightarrow> ctx_get (ctx_update u c) k = ctx_get c k"
  unfolding ctx_update_fold by (rule cx.look_puts_other)

lemma ctx_get_update_in: "dict_ok u \<Longrightarrow> (k, v) \<in> set u \<Longrightarrow> ctx_get (ctx_update u c) k = v"
  unfolding ctx_update_fold dict_ok_def by (rule cx.look_puts_in)

end
