(* ===== verification/Routing.thy ===== *)
theory Routing
  imports Pipeline_State
begin

text \<open>
  How the engine chooses where to go next: the condition expression language of \<open>conditions.py\<close>
  (parser and evaluator) and the five-step edge selection of \<open>edge_selection.py\<close>.
\<close>

section \<open>The condition language\<close>

type_synonym clause = "string \<times> string \<times> string"

definition parse_clause :: "string \<Rightarrow> clause" where
  "parse_clause cl =
     (case py_split1 ''!='' cl of
        Some (key, value) \<Rightarrow> (py_strip key, ''!='', py_strip value)
      | None \<Rightarrow>
          (case py_split1 ''='' cl of
             Some (key, value) \<Rightarrow> (py_strip key, ''='', py_strip value)
           | None \<Rightarrow> (cl, ''truthy'', '''')))"

definition parse_condition :: "string \<Rightarrow> clause list" where
  "parse_condition condition =
     (if condition = [] then []
      else map parse_clause
             (filter (\<lambda>cl. cl \<noteq> []) (map py_strip (py_split ''&&'' condition))))"

definition context_prefix :: string where
  "context_prefix = ''context.''"

definition resolve_key :: "string \<Rightarrow> outcome \<Rightarrow> ctx \<Rightarrow> string" where
  "resolve_key key out c =
     (if key = ''outcome'' then
        (if str_true (o_preferred_label out) then the (o_preferred_label out)
         else status_value (o_status out))
      else if key = ''preferred_label'' then
        (case o_preferred_label out of None \<Rightarrow> '''' | Some l \<Rightarrow> l)
      else if startswith context_prefix key then
        (if ctx_get c key \<noteq> PNone then py_str (ctx_get c key)
         else (let short_key = drop (length context_prefix) key in
               if ctx_get c short_key \<noteq> PNone then py_str (ctx_get c short_key) else ''''))
      else if ctx_get c key \<noteq> PNone then py_str (ctx_get c key)
      else '''')"

definition evaluate_clause :: "clause \<Rightarrow> outcome \<Rightarrow> ctx \<Rightarrow> bool" where
  "evaluate_clause cl out c =
     (case cl of (key, op, value) \<Rightarrow>
        (let resolved = resolve_key key out c in
         if op = ''!='' then resolved \<noteq> value
         else if op = ''='' then resolved = value
         else resolved \<noteq> []))"

definition evaluate_condition :: "string \<Rightarrow> outcome \<Rightarrow> ctx \<Rightarrow> bool" where
  "evaluate_condition condition out c =
     (if condition = [] \<or> py_strip condition = [] then True
      else list_all (\<lambda>cl. evaluate_clause cl out c) (parse_condition condition))"

section \<open>Edge selection\<close>

text \<open>\<open>sorted(edges, key=lambda e: (-e.weight, e.to_node))[0]\<close>; \<^const>\<open>None\<close> is the
  \<open>IndexError\<close> on an empty list.\<close>

definition edge_rank :: "edge \<Rightarrow> rat \<times> string" where
  "edge_rank e = (- e_weight e, to_node e)"

definition best_by_weight_then_lexical :: "edge list \<Rightarrow> edge option" where
  "best_by_weight_then_lexical es = (case sort_key edge_rank es of [] \<Rightarrow> None | e # _ \<Rightarrow> Some e)"

definition coerce_suggested_id :: "pyval \<Rightarrow> string option" where
  "coerce_suggested_id value =
     (case value of
        PStr s \<Rightarrow> Some s
      | PBool _ \<Rightarrow> None
      | PInt i \<Rightarrow> Some (int_str i)
      | _ \<Rightarrow> None)"

text \<open>
  \<open>^\[.\]\s*|^.\)\s*|^.\s*-\s*\<close>: the alternatives in order, at the start of the text only; the dot
  matches anything but a newline. \<open>strip_accelerator\<close> is \<open>_ACCELERATOR_RE.sub("", s)\<close>.
\<close>

definition strip_accelerator :: "string \<Rightarrow> string" where
  "strip_accelerator s =
     (case s of
        a # x # b # rest \<Rightarrow>
          (if a = CHR ''['' \<and> x \<noteq> CHR 0x0A \<and> b = CHR '']'' then py_lstrip rest
           else if a \<noteq> CHR 0x0A \<and> x = CHR '')'' then py_lstrip (b # rest)
           else if a \<noteq> CHR 0x0A
             then (case py_lstrip (x # b # rest) of
                     d # after \<Rightarrow> (if d = CHR ''-'' then py_lstrip after else s)
                   | [] \<Rightarrow> s)
           else s)
      | [a, x] \<Rightarrow> (if a \<noteq> CHR 0x0A \<and> (x = CHR '')'' \<or> x = CHR ''-'') then [] else s)
      | _ \<Rightarrow> s)"

definition normalize_label :: "string \<Rightarrow> string" where
  "normalize_label label = py_strip (strip_accelerator (py_lower (py_strip label)))"

definition condition_matched :: "edge list \<Rightarrow> outcome \<Rightarrow> ctx \<Rightarrow> edge list" where
  "condition_matched es out c =
     filter (\<lambda>e. e_condition e \<noteq> [] \<and> evaluate_condition (e_condition e) out c) es"

definition unconditional :: "edge list \<Rightarrow> edge list" where
  "unconditional es = filter (\<lambda>e. e_condition e = []) es"

definition label_match :: "edge list \<Rightarrow> string \<Rightarrow> edge option" where
  "label_match es pref =
     find (\<lambda>e. e_condition e = [] \<and> e_label e \<noteq> [] \<and> normalize_label (e_label e) = normalize_label pref)
       es"

fun suggested_match :: "edge list \<Rightarrow> pyval list \<Rightarrow> edge option" where
  "suggested_match es [] = None"
| "suggested_match es (raw_id # rest) =
     (case coerce_suggested_id raw_id of
        None \<Rightarrow> suggested_match es rest
      | Some suggested_id \<Rightarrow>
          (case find (\<lambda>e. e_condition e = [] \<and> to_node e = suggested_id) es of
             Some e \<Rightarrow> Some e
           | None \<Rightarrow> suggested_match es rest))"

definition select_edge :: "string \<Rightarrow> outcome \<Rightarrow> ctx \<Rightarrow> graph \<Rightarrow> edge option" where
  "select_edge node_id out c g =
     (let es = outgoing_edges g node_id in
      if es = [] then None
      else if condition_matched es out c \<noteq> []
        then best_by_weight_then_lexical (condition_matched es out c)
      else
        (case (if str_true (o_preferred_label out)
               then label_match es (the (o_preferred_label out)) else None) of
           Some e \<Rightarrow> Some e
         | None \<Rightarrow>
             (case suggested_match es
                     (case o_suggested_next_ids out of None \<Rightarrow> [] | Some ids \<Rightarrow> ids) of
                Some e \<Rightarrow> Some e
              | None \<Rightarrow>
                  (if unconditional es \<noteq> [] then best_by_weight_then_lexical (unconditional es)
                   else None))))"

definition select_all_matching_edges :: "string \<Rightarrow> outcome \<Rightarrow> ctx \<Rightarrow> graph \<Rightarrow> edge list" where
  "select_all_matching_edges node_id out c g =
     (let es = outgoing_edges g node_id in
      if es = [] then [] else condition_matched es out c)"


section \<open>Lemmas: the condition language\<close>

lemma startswith_double: "startswith [x, x] s \<longleftrightarrow> (\<exists>t. s = x # x # t)"
  by (auto simp: startswith_iff)

lemma split_go_double:
  "a = [] \<or> last a \<noteq> x \<Longrightarrow>
   split_go [x, x] acc (a @ x # x # b) = split_go [x, x] acc a @ split_go [x, x] [] b"
proof (induction "length a" arbitrary: a acc rule: less_induct)
  case less
  show ?case
  proof (cases a)
    case Nil
    then show ?thesis by simp
  next
    case (Cons c cs)
    show ?thesis
    proof (cases "startswith [x, x] a")
      case True
      then obtain cs' where a: "a = x # x # cs'" by (auto simp: startswith_double)
      then have "cs' = [] \<or> last cs' \<noteq> x" using less.prems by (cases cs') auto
      with a have "split_go [x, x] [] (cs' @ x # x # b) = split_go [x, x] [] cs' @ split_go [x, x] [] b"
        using less.hyps [of cs' "[]"] by simp
      then show ?thesis by (simp add: a)
    next
      case False
      have n: "\<not> startswith [x, x] (c # (cs @ x # x # b))"
        using False less.prems Cons by (cases cs) (auto simp: startswith_double)
      have "cs = [] \<or> last cs \<noteq> x" using less.prems Cons by (cases cs) auto
      then have "split_go [x, x] (c # acc) (cs @ x # x # b) =
          split_go [x, x] (c # acc) cs @ split_go [x, x] [] b"
        using less.hyps [of cs "c # acc"] Cons by simp
      with False n Cons show ?thesis by (simp only: append_Cons split_go.simps if_False)
    qed
  qed
qed

lemma split_amp:
  "a = [] \<or> last a \<noteq> CHR ''&'' \<Longrightarrow> py_split ''&&'' (a @ ''&&'' @ b) = py_split ''&&'' a @ py_split ''&&'' b"
  unfolding py_split_def using split_go_double [of a "CHR ''&''" "[]" b] by simp

lemma py_split_Nil [simp]: "py_split sep [] = [[]]"
  by (simp add: py_split_def)

lemma parse_condition_eq:
  "parse_condition condition =
     map parse_clause (filter (\<lambda>cl. cl \<noteq> []) (map py_strip (py_split ''&&'' condition)))"
  by (simp add: parse_condition_def py_strip_def py_lstrip_def py_rstrip_def)

lemma parse_condition_conj:
  "a = [] \<or> last a \<noteq> CHR ''&'' \<Longrightarrow>
   parse_condition (a @ ''&&'' @ b) = parse_condition a @ parse_condition b"
  by (simp only: parse_condition_eq split_amp map_append filter_append)

lemma py_strip_blank: "py_strip s = [] \<longleftrightarrow> list_all py_isspace s"
proof -
  have "dropWhile py_isspace (rev (dropWhile py_isspace s)) = [] \<longleftrightarrow> dropWhile py_isspace s = []"
    by (metis dropWhile.simps(1) dropWhile_eq_Nil_conv hd_dropWhile list.set_sel(1) rev_is_Nil_conv set_rev)
  then show ?thesis
    by (simp add: py_strip_def py_rstrip_def py_lstrip_def dropWhile_eq_Nil_conv list_all_iff)
qed

lemma split_go_no_amp:
  "CHR ''&'' \<notin> set s \<Longrightarrow> split_go ''&&'' acc s = [rev acc @ s]"
  by (induction s arbitrary: acc) auto

lemma parse_blank: "py_strip condition = [] \<Longrightarrow> parse_condition condition = []"
proof -
  assume blank: "py_strip condition = []"
  then have "list_all py_isspace condition" by (simp add: py_strip_blank)
  moreover have "\<not> py_isspace CHR ''&''" by (simp add: py_isspace_def)
  ultimately have "CHR ''&'' \<notin> set condition" by (auto simp: list_all_iff)
  with blank show ?thesis
    by (simp add: parse_condition_eq py_split_def split_go_no_amp)
qed

lemma evaluate_condition_eq:
  "evaluate_condition condition out c = list_all (\<lambda>cl. evaluate_clause cl out c) (parse_condition condition)"
proof -
  have "py_strip [] = []" by (simp add: py_strip_def py_lstrip_def py_rstrip_def)
  then show ?thesis by (auto simp: evaluate_condition_def parse_blank)
qed

lemma evaluate_condition_conj:
  "a = [] \<or> last a \<noteq> CHR ''&'' \<Longrightarrow>
   evaluate_condition (a @ ''&&'' @ b) out c \<longleftrightarrow> evaluate_condition a out c \<and> evaluate_condition b out c"
  by (simp only: evaluate_condition_eq parse_condition_conj list_all_append)

text \<open>Printing a clause and reading it back.\<close>

definition stripped :: "string \<Rightarrow> bool" where
  "stripped s = (py_strip s = s)"

definition clause_str :: "clause \<Rightarrow> string" where
  "clause_str cl = (case cl of (key, op, value) \<Rightarrow> if op = ''truthy'' then key else key @ op @ value)"

definition clause_ok :: "clause \<Rightarrow> bool" where
  "clause_ok cl =
     (case cl of (key, op, value) \<Rightarrow>
        key \<noteq> [] \<and> stripped key \<and> stripped value
        \<and> CHR ''='' \<notin> set key \<and> CHR ''!'' \<notin> set key \<and> CHR ''&'' \<notin> set key
        \<and> CHR ''&'' \<notin> set value
        \<and> (if op = ''='' then CHR ''!'' \<notin> set value
           else if op = ''!='' then True
           else op = ''truthy'' \<and> value = []))"

lemma dropWhile_fix: "dropWhile P s = s \<longleftrightarrow> s = [] \<or> \<not> P (hd s)"
proof (cases s)
  case (Cons x xs)
  have "length (dropWhile P xs) \<le> length xs" by (rule length_dropWhile_le)
  then have "P x \<Longrightarrow> dropWhile P xs \<noteq> x # xs" by (metis Suc_n_not_le_n length_Cons)
  then show ?thesis by (simp add: Cons)
qed simp

lemma length_rstrip: "length (py_rstrip t) \<le> length t"
  unfolding py_rstrip_def by (metis length_dropWhile_le length_rev)

lemma stripped_iff:
  "stripped s \<longleftrightarrow> s = [] \<or> (\<not> py_isspace (hd s) \<and> \<not> py_isspace (last s))"
proof
  assume st: "stripped s"
  have "length (py_lstrip s) \<ge> length s"
    using st length_rstrip [of "py_lstrip s"] by (simp add: stripped_def py_strip_def)
  then have l: "py_lstrip s = s"
    by (metis append_eq_conv_conj dropWhile_eq_drop drop_eq_Nil2 le_antisym length_dropWhile_le
        py_lstrip_def append_self_conv2 length_append takeWhile_dropWhile_id add_le_same_cancel2
        le_zero_eq length_0_conv)
  then have "py_rstrip s = s" using st by (simp add: stripped_def py_strip_def)
  then have "dropWhile py_isspace (rev s) = rev s"
    by (metis py_rstrip_def rev_rev_ident)
  with l show "s = [] \<or> (\<not> py_isspace (hd s) \<and> \<not> py_isspace (last s))"
    by (auto simp: py_lstrip_def dropWhile_fix hd_rev)
next
  assume "s = [] \<or> (\<not> py_isspace (hd s) \<and> \<not> py_isspace (last s))"
  then have "dropWhile py_isspace s = s" "dropWhile py_isspace (rev s) = rev s"
    by (auto simp: dropWhile_fix hd_rev)
  then show "stripped s"
    by (simp add: stripped_def py_strip_def py_lstrip_def py_rstrip_def)
qed

lemma split1_go_first:
  "list_all (\<lambda>ch. ch \<noteq> x) key \<Longrightarrow> split1_go (x # xs) acc (key @ (x # xs) @ value) = Some (rev acc @ key, value)"
proof (induction key arbitrary: acc)
  case Nil
  have "startswith (x # xs) ((x # xs) @ value)" by (rule startswith_append)
  then show ?case by simp
next
  case (Cons k key)
  then show ?case by auto
qed

lemma split1_go_absent: "x \<notin> set s \<Longrightarrow> split1_go (x # xs) acc s = None"
  by (induction s arbitrary: acc) auto

lemma clause_okD:
  assumes "clause_ok (key, op, v)"
  shows "key \<noteq> []" "py_strip key = key" "py_strip v = v" "CHR ''='' \<notin> set key" "CHR ''!'' \<notin> set key"
    "CHR ''&'' \<notin> set key" "CHR ''&'' \<notin> set v"
    "(op = ''='' \<and> CHR ''!'' \<notin> set v) \<or> op = ''!='' \<or> (op = ''truthy'' \<and> v = [])"
  using assms unfolding clause_ok_def stripped_def by (simp_all split: if_splits)

lemma clause_str_simps [simp]:
  "clause_str (key, ''='', v) = key @ ''='' @ v"
  "clause_str (key, ''!='', v) = key @ ''!='' @ v"
  "clause_str (key, ''truthy'', v) = key"
  by (simp_all add: clause_str_def)

lemma list_all_neq: "list_all (\<lambda>ch. ch \<noteq> x) s \<longleftrightarrow> x \<notin> set s"
  by (induction s) auto

lemma parse_clause_eq_op:
  assumes "CHR ''='' \<notin> set key" "CHR ''!'' \<notin> set key" "CHR ''!'' \<notin> set v"
  shows "parse_clause (key @ ''='' @ v) = (py_strip key, ''='', py_strip v)"
proof -
  have "split1_go ''!='' [] (key @ ''='' @ v) = None"
    using assms by (intro split1_go_absent) auto
  moreover have "split1_go ''='' [] (key @ ''='' @ v) = Some (key, v)"
    using split1_go_first [of "CHR ''=''" key "[]" "[]" v] assms by (simp add: list_all_neq)
  ultimately show ?thesis by (simp add: parse_clause_def py_split1_def)
qed

lemma parse_clause_neq_op:
  assumes "CHR ''!'' \<notin> set key"
  shows "parse_clause (key @ ''!='' @ v) = (py_strip key, ''!='', py_strip v)"
proof -
  have "split1_go ''!='' [] (key @ ''!='' @ v) = Some (key, v)"
    using split1_go_first [of "CHR ''!''" key "''=''" "[]" v] assms by (simp add: list_all_neq)
  then show ?thesis by (simp add: parse_clause_def py_split1_def)
qed

lemma parse_clause_str: "clause_ok cl \<Longrightarrow> parse_clause (clause_str cl) = cl"
proof -
  assume ok: "clause_ok cl"
  obtain key op v where cl: "cl = (key, op, v)" by (cases cl) auto
  note k = clause_okD [OF ok [unfolded cl]]
  from k(8) show ?thesis
  proof (elim disjE conjE)
    assume op: "op = ''=''" and nv: "CHR ''!'' \<notin> set v"
    show ?thesis unfolding cl op clause_str_simps parse_clause_eq_op [OF k(4,5) nv] k(2,3) ..
  next
    assume op: "op = ''!=''"
    show ?thesis unfolding cl op clause_str_simps parse_clause_neq_op [OF k(5)] k(2,3) ..
  next
    assume "op = ''truthy''" "v = []"
    with k show ?thesis
      by (simp add: cl parse_clause_def py_split1_def split1_go_absent)
  qed
qed

lemma stripped_append:
  assumes "stripped key" "key \<noteq> []" "stripped v" "op \<noteq> []" "\<not> py_isspace (last op)"
  shows "stripped (key @ op @ v)"
  using assms by (cases "v = []") (auto simp: stripped_iff)

lemma clause_str_ok:
  assumes "clause_ok cl"
  shows "clause_str cl \<noteq> []" "CHR ''&'' \<notin> set (clause_str cl)" "py_strip (clause_str cl) = clause_str cl"
proof -
  obtain key op v where cl: "cl = (key, op, v)" by (cases cl) auto
  note k = clause_okD [OF assms [unfolded cl]]
  have sp: "\<not> py_isspace (CHR ''='')" by (simp add: py_isspace_def)
  have st: "stripped key" "stripped v" using k(2,3) by (simp_all add: stripped_def)
  have "clause_str cl \<noteq> [] \<and> CHR ''&'' \<notin> set (clause_str cl) \<and> stripped (clause_str cl)"
    using k(8)
  proof (elim disjE conjE)
    assume "op = ''=''"
    with k st sp show ?thesis using stripped_append [OF st(1) k(1) st(2), of "''=''"] by (simp add: cl)
  next
    assume "op = ''!=''"
    with k st sp show ?thesis using stripped_append [OF st(1) k(1) st(2), of "''!=''"] by (simp add: cl)
  next
    assume "op = ''truthy''" "v = []"
    with k st show ?thesis by (simp add: cl)
  qed
  then show "clause_str cl \<noteq> []" "CHR ''&'' \<notin> set (clause_str cl)" "py_strip (clause_str cl) = clause_str cl"
    by (simp_all add: stripped_def)
qed

lemma parse_condition_single:
  assumes "clause_ok cl"
  shows "parse_condition (clause_str cl) = [cl]"
  using assms clause_str_ok [OF assms]
  by (simp add: parse_condition_eq py_split_def split_go_no_amp parse_clause_str)

lemma parse_condition_print:
  "list_all clause_ok cls \<Longrightarrow> parse_condition (py_join ''&&'' (map clause_str cls)) = cls"
proof (induction cls rule: induct_list012)
  case 1
  then show ?case by (simp add: parse_condition_def)
next
  case (2 x)
  then show ?case by (simp add: parse_condition_single)
next
  case (3 x y zs)
  then have x: "clause_ok x" and rest: "list_all clause_ok (y # zs)" by auto
  have "last (clause_str x) \<noteq> CHR ''&''"
    using clause_str_ok [OF x] by (metis last_in_set)
  then have "parse_condition (clause_str x @ ''&&'' @ py_join ''&&'' (map clause_str (y # zs))) =
      parse_condition (clause_str x) @ parse_condition (py_join ''&&'' (map clause_str (y # zs)))"
    by (intro parse_condition_conj) auto
  with 3 x rest show ?case by (simp add: parse_condition_single)
qed


section \<open>Lemmas: edge selection\<close>

text \<open>
  The selection is a chain of narrower and narrower pickers. What all of them promise - the pick
  is one of the candidates offered - is the interface \<open>picker\<close>, and the tie-breaking step refines
  it to \<open>ranked_picker\<close>: the pick is minimal in the rank and the first of the minimal ones.
\<close>

locale picker =
  fixes pick :: "'e list \<Rightarrow> 'e option"
    and eligible :: "'e \<Rightarrow> bool"
  assumes pick_in: "pick es = Some e \<Longrightarrow> e \<in> set es \<and> eligible e"
begin

lemma pick_Nil: "pick [] = None"
  using pick_in [of "[]"] by (cases "pick []") auto

lemma pick_filter: "pick (filter P es) = Some e \<Longrightarrow> e \<in> set es \<and> P e \<and> eligible e"
  using pick_in by fastforce

end

locale ranked_picker = picker pick "\<lambda>_. True"
  for pick :: "'e list \<Rightarrow> 'e option" +
  fixes rank :: "'e \<Rightarrow> 'r::linorder"
  assumes pick_some: "es \<noteq> [] \<Longrightarrow> \<exists>e. pick es = Some e"
    and pick_least: "pick es = Some e \<Longrightarrow> e' \<in> set es \<Longrightarrow> rank e \<le> rank e'"
begin

lemma pick_None_iff: "pick es = None \<longleftrightarrow> es = []"
  using pick_some pick_Nil by fastforce

text \<open>The rank of the pick depends on the candidates only, not on their order.\<close>

lemma pick_rank_set:
  assumes "pick es = Some e" and "pick es' = Some e'" and "set es = set es'"
  shows "rank e = rank e'"
proof (rule antisym)
  show "rank e \<le> rank e'" using assms pick_least pick_in by metis
  show "rank e' \<le> rank e" using assms pick_least pick_in by metis
qed

end

lemma best_in: "best_by_weight_then_lexical es = Some e \<Longrightarrow> e \<in> set es"
proof -
  assume "best_by_weight_then_lexical es = Some e"
  then obtain rest where "sort_key edge_rank es = e # rest"
    by (auto simp: best_by_weight_then_lexical_def split: list.splits)
  then have "e \<in> set (sort_key edge_rank es)" by simp
  then show ?thesis by (simp only: set_sort)
qed

lemma best_some: "es \<noteq> [] \<Longrightarrow> \<exists>e. best_by_weight_then_lexical es = Some e"
proof -
  assume "es \<noteq> []"
  then have "set (sort_key edge_rank es) \<noteq> {}" by (simp only: set_sort set_empty not_False_eq_True)
  then have "sort_key edge_rank es \<noteq> []" by (metis set_empty)
  then show ?thesis by (auto simp: best_by_weight_then_lexical_def split: list.splits)
qed

lemma best_least:
  assumes "best_by_weight_then_lexical es = Some e" and "e' \<in> set es"
  shows "edge_rank e \<le> edge_rank e'"
proof -
  obtain rest where sk: "sort_key edge_rank es = e # rest"
    using assms(1) by (auto simp: best_by_weight_then_lexical_def split: list.splits)
  have "sorted (map edge_rank (e # rest))"
    using sorted_sort_key [of edge_rank es] by (simp only: sk)
  moreover have "e' \<in> set (e # rest)" using assms(2) sk by (metis set_sort)
  ultimately show ?thesis by auto
qed

interpretation best: ranked_picker best_by_weight_then_lexical edge_rank
  by unfold_locales (auto simp: best_in best_some best_least)

lemma find_in: "find P xs = Some x \<Longrightarrow> x \<in> set xs \<and> P x"
  by (auto simp: find_Some_iff)

interpretation lbl: picker "\<lambda>es. label_match es pref" "\<lambda>e. e_condition e = []" for pref
  by unfold_locales (auto simp: label_match_def dest: find_in)

lemma suggested_match_in: "suggested_match es ids = Some e \<Longrightarrow> e \<in> set es \<and> e_condition e = []"
  by (induction ids) (auto dest: find_in split: option.splits)

interpretation sug: picker "\<lambda>es. suggested_match es ids" "\<lambda>e. e_condition e = []" for ids
  by unfold_locales (rule suggested_match_in)

definition edge_admissible :: "outcome \<Rightarrow> ctx \<Rightarrow> edge \<Rightarrow> bool" where
  "edge_admissible out c e = (e_condition e = [] \<or> evaluate_condition (e_condition e) out c)"

lemma condition_matched_iff:
  "e \<in> set (condition_matched es out c) \<longleftrightarrow>
   e \<in> set es \<and> e_condition e \<noteq> [] \<and> evaluate_condition (e_condition e) out c"
  by (auto simp: condition_matched_def)

lemma unconditional_iff: "e \<in> set (unconditional es) \<longleftrightarrow> e \<in> set es \<and> e_condition e = []"
  by (auto simp: unconditional_def)

lemma select_edge_cases:
  assumes "select_edge n out c g = Some e"
  obtains (matched) "best_by_weight_then_lexical (condition_matched (outgoing_edges g n) out c) = Some e"
  | (plain) "condition_matched (outgoing_edges g n) out c = []" "e \<in> set (outgoing_edges g n)"
      "e_condition e = []"
  using assms
  by (auto simp: select_edge_def Let_def unconditional_iff
      dest!: lbl.pick_in sug.pick_in best_in split: if_splits option.splits)

lemma select_edge_sound:
  assumes "select_edge n out c g = Some e"
  shows "e \<in> set (outgoing_edges g n) \<and> edge_admissible out c e"
  using assms
proof (cases rule: select_edge_cases)
  case matched
  then have "e \<in> set (condition_matched (outgoing_edges g n) out c)" by (rule best_in)
  then show ?thesis by (simp add: condition_matched_iff edge_admissible_def)
next
  case plain
  then show ?thesis by (simp add: edge_admissible_def)
qed

lemma suggested_match_none: "\<forall>e \<in> set es. e_condition e \<noteq> [] \<Longrightarrow> suggested_match es ids = None"
  using suggested_match_in by (cases "suggested_match es ids") auto

lemma label_match_none: "\<forall>e \<in> set es. e_condition e \<noteq> [] \<Longrightarrow> label_match es p = None"
  using lbl.pick_in by (cases "label_match es p") auto

lemma select_edge_None_iff:
  "select_edge n out c g = None \<longleftrightarrow> (\<forall>e \<in> set (outgoing_edges g n). \<not> edge_admissible out c e)"
proof
  assume none: "select_edge n out c g = None"
  show "\<forall>e \<in> set (outgoing_edges g n). \<not> edge_admissible out c e"
  proof (cases "outgoing_edges g n = []")
    case False
    have m: "condition_matched (outgoing_edges g n) out c = []"
    proof (rule ccontr)
      assume "condition_matched (outgoing_edges g n) out c \<noteq> []"
      then show False using False none best_some by (fastforce simp: select_edge_def)
    qed
    have "unconditional (outgoing_edges g n) = []"
    proof (rule ccontr)
      assume "unconditional (outgoing_edges g n) \<noteq> []"
      moreover from this obtain e where "best_by_weight_then_lexical (unconditional (outgoing_edges g n)) = Some e"
        using best_some by blast
      ultimately show False
        using False none m unfolding select_edge_def Let_def
        by (simp only: if_True if_False not_False_eq_True simp_thms split: option.splits) simp_all
    qed
    with m show ?thesis
      by (auto simp: edge_admissible_def condition_matched_def unconditional_def filter_empty_conv)
  qed simp
next
  assume all: "\<forall>e \<in> set (outgoing_edges g n). \<not> edge_admissible out c e"
  then show "select_edge n out c g = None"
    using select_edge_sound by (cases "select_edge n out c g") blast+
qed

text \<open>Step 1 wins over every later step, and picks the heaviest, lexically first match.\<close>

lemma select_edge_matched:
  assumes "\<exists>e \<in> set (outgoing_edges g n). e_condition e \<noteq> [] \<and> evaluate_condition (e_condition e) out c"
  shows "select_edge n out c g = best_by_weight_then_lexical (condition_matched (outgoing_edges g n) out c)"
proof -
  have "condition_matched (outgoing_edges g n) out c \<noteq> []" "outgoing_edges g n \<noteq> []"
    using assms by (auto simp: condition_matched_def filter_empty_conv)
  then show ?thesis by (simp add: select_edge_def)
qed

text \<open>A suggested id given as a bare integer routes like its string form.\<close>

definition id_as_string :: "pyval \<Rightarrow> pyval" where
  "id_as_string v = (case coerce_suggested_id v of None \<Rightarrow> v | Some s \<Rightarrow> PStr s)"

lemma coerce_id_as_string: "coerce_suggested_id (id_as_string v) = coerce_suggested_id v"
  by (auto simp: id_as_string_def coerce_suggested_id_def split: pyval.splits)

lemma suggested_match_as_string: "suggested_match es (map id_as_string ids) = suggested_match es ids"
  by (induction ids) (auto simp: coerce_id_as_string split: option.splits)

text \<open>Routing reads nothing of an outcome but its status, label and suggestions, and nothing of a
  context but its values.\<close>

lemma resolve_key_cong:
  "o_status a = o_status b \<Longrightarrow> o_preferred_label a = o_preferred_label b \<Longrightarrow>
   (\<And>k. ctx_get c k = ctx_get d k) \<Longrightarrow> resolve_key key a c = resolve_key key b d"
  by (simp add: resolve_key_def Let_def)

lemma evaluate_condition_cong:
  assumes "o_status a = o_status b" "o_preferred_label a = o_preferred_label b"
    "\<And>k. ctx_get c k = ctx_get d k"
  shows "evaluate_condition cond a c = evaluate_condition cond b d"
proof -
  have "evaluate_clause cl a c = evaluate_clause cl b d" for cl
    using resolve_key_cong [OF assms] by (auto simp: evaluate_clause_def split: prod.splits)
  then have "(\<lambda>cl. evaluate_clause cl a c) = (\<lambda>cl. evaluate_clause cl b d)" by (rule ext)
  then show ?thesis unfolding evaluate_condition_eq by simp
qed

lemma select_edge_cong:
  assumes "o_status a = o_status b" "o_preferred_label a = o_preferred_label b"
    "o_suggested_next_ids a = o_suggested_next_ids b" "\<And>k. ctx_get c k = ctx_get d k"
  shows "select_edge n a c g = select_edge n b d g"
proof -
  have cm: "condition_matched es a c = condition_matched es b d" for es
    using evaluate_condition_cong [OF assms(1,2,4)] by (simp add: condition_matched_def)
  show ?thesis unfolding select_edge_def cm assms(2,3) ..
qed

end
