(* ===== verification/Contracts.thy ===== *)
theory Contracts
  imports Complex_Main Pipeline_State
begin

text \<open>
  The file-backed contracts of a node execution: the freshness floor of \<open>freshness.py\<close>, the
  \<open>must_write=\<close> artifact contract of \<open>must_write.py\<close> and the \<open>status.json\<close> verdict channel of
  \<open>status_file.py\<close>.

  The file system is a function from paths to files; a file is its modification time and its
  content, or the message of the \<open>OSError\<close> that reading it raises. What the host supplies is the
  record \<open>host\<close>: the rounding of an exact quotient or difference to a double (\<open>h_f64\<close>), the
  working directory, \<open>json.loads\<close> with the message of its \<open>JSONDecodeError\<close>, the other exceptions \<open>json.loads\<close> raises
  (asked for by the handler of tools, and not raised to the other readers), and the UTF-8 decoding of a text file with the message of its \<open>UnicodeDecodeError\<close>. A file's content is its
  bytes, one \<^typ>\<open>char\<close> each.
\<close>

record file_info =
  f_mtime_ns :: int
  f_content :: "string + string"

type_synonym fsys = "string \<Rightarrow> file_info option"

record host =
  h_f64 :: "rat \<Rightarrow> rat"
  h_cwd :: string
  h_json_loads :: "string \<Rightarrow> string + pyval"
  h_json_raises :: "string \<Rightarrow> exc option"
  h_decode_utf8 :: "string \<Rightarrow> string + string"

section \<open>Freshness\<close>

definition granularity_divisors_ns :: "int list" where
  "granularity_divisors_ns = [1000000000, 100000000, 10000000, 1000000]"

definition mtime_granularity_seconds :: "(rat \<Rightarrow> rat) \<Rightarrow> int \<Rightarrow> rat" where
  "mtime_granularity_seconds f64 mtime_ns =
     (if mtime_ns \<le> 0 then 0
      else (case find (\<lambda>d. mtime_ns mod d = 0) granularity_divisors_ns of
              Some d \<Rightarrow> f64 (of_int d / 1000000000)
            | None \<Rightarrow> 0))"

definition wrote_after_node_start :: "(rat \<Rightarrow> rat) \<Rightarrow> int \<Rightarrow> rat \<Rightarrow> bool" where
  "wrote_after_node_start f64 mtime_ns node_start_wall =
     (let mtime = f64 (of_int mtime_ns / 1000000000) in
      if mtime > node_start_wall then True
      else if mtime = node_start_wall then False
      else mtime > f64 (node_start_wall - mtime_granularity_seconds f64 mtime_ns))"

section \<open>Paths and number formatting\<close>

text \<open>\<open>str(Path(s))\<close> on POSIX: repeated slashes and \<open>.\<close> components vanish.\<close>

definition path_root :: "string \<Rightarrow> string" where
  "path_root s =
     (if startswith ''//'' s \<and> \<not> startswith ''///'' s then ''//''
      else if startswith ''/'' s then ''/'' else [])"

definition path_str :: "string \<Rightarrow> string" where
  "path_str s =
     (let ps = filter (\<lambda>p. p \<noteq> [] \<and> p \<noteq> ''.'') (py_split ''/'' s)
      in if path_root s = [] \<and> ps = [] then ''.'' else path_root s @ py_join ''/'' ps)"

text \<open>\<open>Path(base) / s\<close> for a non-empty base.\<close>

definition path_div :: "string \<Rightarrow> string \<Rightarrow> string" where
  "path_div base s = (if startswith ''/'' s then path_str s else path_str (base @ ''/'' @ s))"

text \<open>\<open>os.path.join(a, b)\<close>.\<close>

definition os_path_join :: "string \<Rightarrow> string \<Rightarrow> string" where
  "os_path_join a b =
     (if startswith ''/'' b then b
      else if a = [] \<or> endswith ''/'' a then a @ b
      else a @ ''/'' @ b)"

text \<open>\<open>f"{x:.3f}"\<close>: three decimals, ties to even.\<close>

definition round_half_even :: "rat \<Rightarrow> int" where
  "round_half_even q =
     (let f = \<lfloor>q\<rfloor>; r = q - of_int f
      in if r < 1 / 2 then f else if r > 1 / 2 then f + 1 else if even f then f else f + 1)"

definition fmt3 :: "rat \<Rightarrow> string" where
  "fmt3 x =
     (let n = nat (round_half_even (\<bar>x\<bar> * 1000)); frac = n mod 1000
      in (if x < 0 then ''-'' else []) @ nat_str (n div 1000) @ ''.''
         @ nat_str (frac div 100) @ nat_str (frac div 10 mod 10) @ nat_str (frac mod 10))"

section \<open>must_write\<close>

text \<open>\<open>bytes.strip()\<close> leaves nothing exactly when every byte is ASCII whitespace.\<close>

definition blank_bytes :: "string \<Rightarrow> bool" where
  "blank_bytes s = list_all (\<lambda>c. let n = (of_char c :: nat) in (9 \<le> n \<and> n \<le> 13) \<or> n = 32) s"

definition must_write_fail :: "string \<Rightarrow> string \<Rightarrow> outcome" where
  "must_write_fail reason note = (mk_outcome FAIL)\<lparr>o_failure_reason := Some reason, o_notes := Some note\<rparr>"

definition must_write_declared :: "node \<Rightarrow> string" where
  "must_write_declared n = py_strip (py_str (node_attr_get n ''must_write''))"

definition must_write_path :: "host \<Rightarrow> node \<Rightarrow> ctx \<Rightarrow> string" where
  "must_write_path h n c =
     (let raw_path = must_write_declared n in
      if startswith ''/'' raw_path then path_str raw_path
      else (let base = ctx_get c ''context.target_dir''
            in path_div (if py_true base then py_str base else h_cwd h) raw_path))"

definition declared_msg :: "node \<Rightarrow> string" where
  "declared_msg n = ''Node '' @ quoted (n_id n) @ '' declared must_write='' @ repr_str (must_write_declared n)"

definition check_must_write :: "host \<Rightarrow> fsys \<Rightarrow> node \<Rightarrow> outcome \<Rightarrow> rat \<Rightarrow> ctx \<Rightarrow> outcome option" where
  "check_must_write h fs n out node_start_wall c =
     (if \<not> py_true (node_attr_get n ''must_write'') then None
      else if o_status out = FAIL then None
      else if o_status out = SKIPPED then None
      else
        (let artifact = must_write_path h n c in
         case fs artifact of
           None \<Rightarrow> Some (must_write_fail
             (declared_msg n @ '' but no artifact was written (path: '' @ artifact @ '')'')
             (''must_write= contract: the artifact at '' @ quoted artifact @ '' does not exist. The node must write a non-trivial file at this path during its own execution.''))
         | Some f \<Rightarrow>
             (if \<not> wrote_after_node_start (h_f64 h) (f_mtime_ns f) node_start_wall then
                Some (must_write_fail
                  (declared_msg n @ '' but the artifact was not written by this execution (mtime ''
                   @ fmt3 (h_f64 h (of_int (f_mtime_ns f) / 1000000000)) @ '' <= node_start ''
                   @ fmt3 node_start_wall @ ''; planted before or at node start)'')
                  (''must_write= freshness floor: the artifact at '' @ quoted artifact
                   @ '' exists but its mtime does not strictly post-date this node's start (mtime must be strictly greater than node_start_wall). A pre-planted file -- including one whose mtime equals the recorded start time -- does not satisfy the contract.''))
              else
                (case f_content f of
                   Inl err \<Rightarrow> Some (must_write_fail
                     (declared_msg n @ '' but the artifact could not be read: '' @ err)
                     (''must_write= contract: unreadable artifact at '' @ quoted artifact @ ''.''))
                 | Inr content \<Rightarrow>
                     (if blank_bytes content then Some (must_write_fail
                        (declared_msg n @ '' but the artifact is empty or whitespace-only (non-trivial content required)'')
                        (''must_write= non-trivial check: the artifact at '' @ quoted artifact
                         @ '' contains no non-whitespace bytes. The node must write substantive content.''))
                      else None)))))"

section \<open>status.json\<close>

definition py_type_name :: "pyval \<Rightarrow> string" where
  "py_type_name v =
     (case v of
        PNone \<Rightarrow> ''NoneType'' | PBool _ \<Rightarrow> ''bool'' | PInt _ \<Rightarrow> ''int'' | PFloat _ \<Rightarrow> ''float''
      | PStr _ \<Rightarrow> ''str'' | PList _ \<Rightarrow> ''list'' | PDict _ \<Rightarrow> ''dict'')"

definition allowed_outcome_values :: "string list" where
  "allowed_outcome_values = [''fail'', ''partial_success'', ''retry'', ''skipped'', ''success'']"

definition malformed_status :: "node \<Rightarrow> string \<Rightarrow> string option \<Rightarrow> outcome" where
  "malformed_status n reason session_id =
     (mk_outcome FAIL)
       \<lparr>o_failure_reason := Some (''Malformed status.json for node '' @ quoted (n_id n) @ '': '' @ reason),
        o_notes := Some ''status.json contract violation (Appendix C) -- fail-closed'',
        o_is_explicit := True,
        o_session_id := session_id\<rparr>"

definition opt_str_of :: "pyval \<Rightarrow> string option" where
  "opt_str_of v = (case v of PStr s \<Rightarrow> Some s | _ \<Rightarrow> None)"

definition opt_list_of :: "pyval \<Rightarrow> pyval list option" where
  "opt_list_of v = (case v of PList xs \<Rightarrow> Some xs | _ \<Rightarrow> None)"

definition opt_dict_of :: "pyval \<Rightarrow> pyval dict option" where
  "opt_dict_of v = (case v of PDict d \<Rightarrow> Some d | _ \<Rightarrow> None)"

text \<open>The checks of the envelope in the order of the source: the reason it is refused, or the
  outcome it states.\<close>

definition status_candidate :: "outcome \<Rightarrow> pyval \<Rightarrow> string + outcome" where
  "status_candidate handler_outcome data =
     (case data of
        PDict d \<Rightarrow>
          (if \<not> dict_has d ''outcome'' then Inl ''status.json missing required 'outcome' field''
           else
             (case (case raw_get d ''outcome'' PNone of PStr s \<Rightarrow> status_of_value s | _ \<Rightarrow> None) of
                None \<Rightarrow> Inl (''status.json 'outcome' must be one of '' @ repr_strs allowed_outcome_values
                             @ '', got '' @ py_repr (raw_get d ''outcome'' PNone))
              | Some st \<Rightarrow>
                  (let ids = raw_get d ''suggested_next_ids'' PNone;
                       upd = raw_get d ''context_updates'' PNone;
                       lab = raw_get d ''preferred_label'' PNone;
                       note = raw_get d ''notes'' PNone
                   in if ids \<noteq> PNone \<and> opt_list_of ids = None
                      then Inl ''status.json 'suggested_next_ids' must be a list''
                      else if upd \<noteq> PNone \<and> opt_dict_of upd = None
                      then Inl ''status.json 'context_updates' must be an object''
                      else if lab \<noteq> PNone \<and> opt_str_of lab = None
                      then Inl ''status.json 'preferred_label' must be a string''
                      else if note \<noteq> PNone \<and> opt_str_of note = None
                      then Inl ''status.json 'notes' must be a string''
                      else Inr ((mk_outcome st)
                        \<lparr>o_preferred_label := opt_str_of lab,
                         o_suggested_next_ids := opt_list_of ids,
                         o_context_updates := opt_dict_of upd,
                         o_notes := opt_str_of note,
                         o_is_explicit := True,
                         o_session_id := o_session_id handler_outcome,
                         o_response_text := o_response_text handler_outcome\<rparr>))))
      | _ \<Rightarrow> Inl (''status.json must be a JSON object, got '' @ py_type_name data))"

definition status_matches :: "outcome \<Rightarrow> outcome \<Rightarrow> bool" where
  "status_matches candidate existing =
     (o_status candidate = o_status existing
      \<and> o_preferred_label candidate = o_preferred_label existing
      \<and> py_eq_opt (map_option PList (o_suggested_next_ids candidate))
                  (map_option PList (o_suggested_next_ids existing))
      \<and> py_eq_opt (map_option PDict (o_context_updates candidate))
                  (map_option PDict (o_context_updates existing))
      \<and> o_notes candidate = o_notes existing)"

definition status_path :: "string \<Rightarrow> node \<Rightarrow> string" where
  "status_path logs_root n = os_path_join (os_path_join logs_root (n_id n)) ''status.json''"

text \<open>
  \<^const>\<open>Inl\<close> is the one exception the function lets through: a file whose bytes are not UTF-8
  raises \<open>UnicodeDecodeError\<close> in \<open>f.read()\<close>, which \<open>except OSError\<close> does not catch.
\<close>

definition read_status_override ::
    "host \<Rightarrow> fsys \<Rightarrow> node \<Rightarrow> string \<Rightarrow> rat \<Rightarrow> outcome \<Rightarrow> exc + outcome option" where
  "read_status_override h fs n logs_root node_start_wall handler_outcome =
     (case fs (status_path logs_root n) of
        None \<Rightarrow> Inr None
      | Some f \<Rightarrow>
          (if \<not> wrote_after_node_start (h_f64 h) (f_mtime_ns f) node_start_wall then Inr None
           else
             (let bad = (\<lambda>reason. Inr (Some (malformed_status n reason (o_session_id handler_outcome)))) in
              case f_content f of
                Inl err \<Rightarrow> bad (''could not read status.json: '' @ err)
              | Inr bytes \<Rightarrow>
                  (case h_decode_utf8 h bytes of
                     Inl err \<Rightarrow> Inl (PyError ''UnicodeDecodeError'' False err)
                   | Inr raw \<Rightarrow>
                       (case h_json_loads h raw of
                          Inl err \<Rightarrow> bad (''invalid JSON in status.json: '' @ err)
                        | Inr data \<Rightarrow>
                            (case status_candidate handler_outcome data of
                               Inl reason \<Rightarrow> bad reason
                             | Inr candidate \<Rightarrow>
                                 (if status_matches candidate handler_outcome then Inr None
                                  else Inr (Some candidate))))))))"

section \<open>Lemmas\<close>

lemma find_divisor: "find P granularity_divisors_ns = Some d \<Longrightarrow> d \<in> {1000000000, 100000000, 10000000, 1000000} \<and> P d"
  by (auto simp: granularity_divisors_ns_def split: if_splits)

lemma granularity_bounds:
  assumes "mono f64" "f64 0 = 0" "f64 1 = 1"
  shows "0 \<le> mtime_granularity_seconds f64 m \<and> mtime_granularity_seconds f64 m \<le> 1"
proof -
  have "0 \<le> f64 (of_int d / 1000000000) \<and> f64 (of_int d / 1000000000) \<le> 1"
    if "d \<in> {1000000000, 100000000, 10000000, 1000000}" for d :: int
  proof -
    have "f64 0 \<le> f64 (of_int d / 1000000000)" "f64 (of_int d / 1000000000) \<le> f64 1"
      using that by (auto intro!: monoD [OF assms(1)])
    then show ?thesis using assms by simp
  qed
  then show ?thesis
    by (auto simp: mtime_granularity_seconds_def dest!: find_divisor split: option.splits)
qed

text \<open>The tolerance of the floor is at most one second, and equality is never tolerated.\<close>

lemma fresh_bound:
  assumes "mono f64" "f64 0 = 0" "f64 1 = 1" "wrote_after_node_start f64 m start"
  shows "f64 (start - 1) < f64 (of_int m / 1000000000) \<or> start < f64 (of_int m / 1000000000)"
proof (cases "f64 (of_int m / 1000000000) > start")
  case False
  then have "f64 (start - mtime_granularity_seconds f64 m) < f64 (of_int m / 1000000000)"
    using assms(4) by (simp add: wrote_after_node_start_def Let_def split: if_splits)
  moreover have "f64 (start - 1) \<le> f64 (start - mtime_granularity_seconds f64 m)"
    using granularity_bounds [OF assms(1-3), of m] by (intro monoD [OF assms(1)]) simp
  ultimately show ?thesis by simp
qed simp

lemma fresh_not_equal: "wrote_after_node_start f64 m start \<Longrightarrow> f64 (of_int m / 1000000000) \<noteq> start"
  by (auto simp: wrote_after_node_start_def Let_def)

lemma check_must_write_None:
  assumes "check_must_write h fs n out start c = None" "py_true (node_attr_get n ''must_write'')"
    "is_success out"
  shows "\<exists>f content. fs (must_write_path h n c) = Some f \<and> wrote_after_node_start (h_f64 h) (f_mtime_ns f) start
      \<and> f_content f = Inr content \<and> \<not> blank_bytes content"
  using assms
  by (auto simp: check_must_write_def is_success_def Let_def split: if_splits option.splits sum.splits)

lemma check_must_write_Some:
  "check_must_write h fs n out start c = Some m \<Longrightarrow>
   o_status m = FAIL \<and> \<not> o_is_explicit m \<and> o_attempt_count m = None"
  by (auto simp: check_must_write_def must_write_fail_def Let_def split: if_splits option.splits sum.splits)

lemma check_must_write_cong:
  "o_status a = o_status b \<Longrightarrow> check_must_write h fs n a start c = check_must_write h fs n b start c"
  by (simp add: check_must_write_def)

lemma status_candidate_fields:
  "status_candidate ho data = Inr cand \<Longrightarrow>
   o_is_explicit cand \<and> o_session_id cand = o_session_id ho \<and> o_response_text cand = o_response_text ho
   \<and> o_failure_reason cand = None \<and> o_attempt_count cand = None"
  by (auto simp: status_candidate_def Let_def split: pyval.splits option.splits if_splits)

lemma read_status_override_fields:
  assumes "read_status_override h fs n logs start ho = Inr (Some x)"
  shows "o_is_explicit x \<and> o_session_id x = o_session_id ho"
  using assms
  by (auto simp: read_status_override_def malformed_status_def Let_def
      dest: status_candidate_fields split: option.splits sum.splits if_splits)

end
