(* ===== verification/Retry.thy ===== *)
theory Retry
  imports Contracts
begin

text \<open>
  \<open>retry.py\<close>: exception classification, the backoff schedule, retry policies and the retry ladder
  \<open>execute_with_retry\<close>, together with the environment it runs in and the events it emits.

  The environment \<open>env\<close> is what the ladder calls and cannot see into: the clock, the file system,
  the node handler, the random generator and the sleep, each a function of a world of type
  \<^typ>\<open>'w\<close> that it may change. A handler returns an outcome or raises. Delays are exact rationals;
  the one effect of their being doubles that matters is modelled: a power beyond the largest double
  raises \<open>OverflowError\<close>.
\<close>

section \<open>Exception classification\<close>

text \<open>\<open>\w\<close> of a Unicode pattern on the code points of the model.\<close>

definition re_word :: "char \<Rightarrow> bool" where
  "re_word c =
     (is_word c \<or> (let n = (of_char c :: nat) in
        n \<in> {170, 178, 179, 181, 185, 186, 188, 189, 190} \<or> (192 \<le> n \<and> n \<noteq> 215 \<and> n \<noteq> 247)))"

text \<open>\<open>\b(code)\b\<close> searched anywhere, for codes of three characters.\<close>

fun code_search :: "(string \<Rightarrow> bool) \<Rightarrow> bool \<Rightarrow> string \<Rightarrow> bool" where
  "code_search P after_word [] = False"
| "code_search P after_word (c # cs) =
     ((\<not> after_word \<and> P (take 3 (c # cs))
       \<and> (drop 3 (c # cs) = [] \<or> \<not> re_word (hd (drop 3 (c # cs)))))
      \<or> code_search P (re_word c) cs)"

definition retryable_code :: "string \<Rightarrow> bool" where
  "retryable_code s =
     (s = ''429'' \<or> (case s of [a, b, c] \<Rightarrow> a = CHR ''5'' \<and> is_digit b \<and> is_digit c | _ \<Rightarrow> False))"

definition terminal_code :: "string \<Rightarrow> bool" where
  "terminal_code s = (s \<in> {''400'', ''401'', ''403'', ''404'', ''405'', ''422''})"

definition rate_limit_at :: "string \<Rightarrow> bool" where
  "rate_limit_at s =
     (startswith ''rate'' s
      \<and> (let r = drop 4 s in
         startswith ''limit'' r \<or> (r \<noteq> [] \<and> hd r \<noteq> CHR 0x0A \<and> startswith ''limit'' (tl r))))"

fun search_at :: "(string \<Rightarrow> bool) \<Rightarrow> string \<Rightarrow> bool" where
  "search_at P [] = P []"
| "search_at P (c # cs) = (P (c # cs) \<or> search_at P cs)"

definition retryable_keyword :: "string \<Rightarrow> bool" where
  "retryable_keyword msg =
     (let m = py_lower msg in
      search_at rate_limit_at m \<or> occurs_in ''throttl'' m \<or> occurs_in ''too many requests'' m)"

fun exc_str :: "exc \<Rightarrow> string" where
  "exc_str (ChildDotResolutionError m) = m"
| "exc_str (PyError t tr m) = m"

fun is_transient :: "exc \<Rightarrow> bool" where
  "is_transient (ChildDotResolutionError m) = False"
| "is_transient (PyError t tr m) = tr"

fun exc_type_name :: "exc \<Rightarrow> string" where
  "exc_type_name (ChildDotResolutionError m) = ''ChildDotResolutionError''"
| "exc_type_name (PyError t tr m) = t"

definition should_retry :: "exc \<Rightarrow> bool" where
  "should_retry e =
     (if is_transient e then True
      else if code_search terminal_code False (exc_str e) then False
      else if code_search retryable_code False (exc_str e) then True
      else if retryable_keyword (exc_str e) then True
      else False)"

section \<open>Backoff\<close>

record backoff =
  b_initial_delay_ms :: rat
  b_backoff_factor :: rat
  b_max_delay_ms :: rat
  b_jitter :: bool

definition default_backoff :: backoff where
  "default_backoff =
     \<lparr>b_initial_delay_ms = 200, b_backoff_factor = 2, b_max_delay_ms = 60000, b_jitter = True\<rparr>"

text \<open>The largest double is below \<open>2 ^ 1024\<close>; a float power at or beyond it overflows.\<close>

definition float_limit :: rat where
  "float_limit = 2 ^ 1024"

definition delay_for_attempt :: "backoff \<Rightarrow> rat \<Rightarrow> nat \<Rightarrow> exc + rat" where
  "delay_for_attempt b u attempt =
     (let p = b_backoff_factor b ^ (attempt - 1) in
      if p \<ge> float_limit then Inl (PyError ''OverflowError'' False ''(34, 'Numerical result out of range')'')
      else (let delay = min (b_initial_delay_ms b * p) (b_max_delay_ms b)
            in Inr (if b_jitter b then delay * u else delay)))"

section \<open>Policies\<close>

record policy =
  p_max_attempts :: nat
  p_backoff :: backoff

definition value_error :: "string \<Rightarrow> exc" where
  "value_error msg = PyError ''ValueError'' False msg"

definition from_preset :: "string \<Rightarrow> exc + policy" where
  "from_preset name =
     (if name = ''none'' then Inr \<lparr>p_max_attempts = 1, p_backoff = default_backoff\<rparr>
      else if name = ''standard'' then Inr \<lparr>p_max_attempts = 5, p_backoff = default_backoff\<rparr>
      else if name = ''aggressive'' then
        Inr \<lparr>p_max_attempts = 5, p_backoff = default_backoff\<lparr>b_initial_delay_ms := 500\<rparr>\<rparr>
      else if name = ''linear'' then
        Inr \<lparr>p_max_attempts = 3,
             p_backoff = default_backoff\<lparr>b_initial_delay_ms := 500, b_backoff_factor := 1\<rparr>\<rparr>
      else if name = ''patient'' then
        Inr \<lparr>p_max_attempts = 3,
             p_backoff = default_backoff\<lparr>b_initial_delay_ms := 2000, b_backoff_factor := 3\<rparr>\<rparr>
      else Inl (value_error (''Unknown retry preset '' @ quoted name
        @ ''. Valid presets: aggressive, linear, none, patient, standard'')))"

text \<open>\<open>re.fullmatch(r"[+]?\d+", s)\<close> and \<open>int(s)\<close> of such a string.\<close>

definition digits_of_count :: "string \<Rightarrow> string option" where
  "digits_of_count s =
     (let ds = (case s of c # cs \<Rightarrow> if c = CHR ''+'' then cs else s | [] \<Rightarrow> [])
      in if ds \<noteq> [] \<and> list_all is_digit ds then Some ds else None)"

definition parse_non_negative_retry_count :: "pyval \<Rightarrow> exc + nat" where
  "parse_non_negative_retry_count value =
     (let err = Inl (value_error (''max_retries must be a non-negative integer, got '' @ py_repr value)) in
      case value of
        PBool _ \<Rightarrow> Inl (value_error ''max_retries must be a non-negative integer, not a boolean'')
      | PInt i \<Rightarrow> (if i \<ge> 0 then Inr (nat i) else err)
      | PStr s \<Rightarrow> (case digits_of_count (py_strip s) of None \<Rightarrow> err | Some ds \<Rightarrow> Inr (digits_val 0 ds))
      | _ \<Rightarrow> err)"

definition policy_from_node :: "node \<Rightarrow> graph \<Rightarrow> exc + policy" where
  "policy_from_node n g =
     (let m0 = node_attr_get n ''max_retries'';
          m1 = (if m0 = PNone then g_default_max_retry g else m0);
          m2 = (if m1 = PNone then PInt 0 else m1)
      in case parse_non_negative_retry_count m2 of
           Inl e \<Rightarrow> Inl e
         | Inr k \<Rightarrow> Inr \<lparr>p_max_attempts = k + 1, p_backoff = default_backoff\<rparr>)"

section \<open>The environment and the events\<close>

record 'w env =
  e_host :: host
  e_hooks :: bool
  e_wall :: "'w \<Rightarrow> rat \<times> 'w"
  e_files :: "'w \<Rightarrow> fsys"
  e_handler :: "node \<Rightarrow> ctx \<Rightarrow> 'w \<Rightarrow> (exc + outcome) \<times> ctx \<times> 'w"
  e_random :: "'w \<Rightarrow> rat \<times> 'w"
  e_sleep :: "rat \<Rightarrow> 'w \<Rightarrow> 'w"

text \<open>
  The pipeline events with their payloads, in the order of the payload keys. Durations, time stamps,
  the checkpoint path and the branch discriminator are left out; a key that only some emitters send
  is an option. \<open>PIPELINE_NODE_COMPLETE\<close> carries node, status, notes, failure reason, execution
  index, attempt, failed step and worker session.
\<close>

datatype event =
    PIPELINE_STAGE_RETRYING string nat nat rat "string option"
  | PIPELINE_STAGE_FAILED string nat string
  | PIPELINE_NODE_START string string "int option"
  | PIPELINE_NODE_COMPLETE string string "string option" "string option" "int option" "int option"
      "pyval option" "string option"
  | PIPELINE_NODE_SKIPPED string "(string \<times> string) list"
  | PIPELINE_NODE_CONTRACT_VIOLATION string "string list" "string list" "string list"
  | PIPELINE_GOAL_GATE_CHECK "string list" "string list"
  | PIPELINE_EDGE_SELECTED string string string
  | PIPELINE_CHECKPOINT string
  | PIPELINE_ERROR string string string
  | PIPELINE_COMPLETE string nat
  | PIPELINE_START string nat nat string string
  | PIPELINE_RESUME string nat int
  | PIPELINE_RESUME_FIDELITY_DEGRADE string
  | PIPELINE_PARALLEL_STARTED string nat
  | PIPELINE_PARALLEL_BRANCH_STARTED string string
  | PIPELINE_PARALLEL_BRANCH_COMPLETED string string string
  | PIPELINE_PARALLEL_COMPLETED string nat nat

record 'w rstate =
  r_ctx :: ctx
  r_world :: 'w
  r_events :: "event list"

definition r_emit :: "'w env \<Rightarrow> event \<Rightarrow> 'w rstate \<Rightarrow> 'w rstate" where
  "r_emit env ev st = (if e_hooks env then st\<lparr>r_events := r_events st @ [ev]\<rparr> else st)"

text \<open>One draw of \<open>random.uniform(0.5, 1.5)\<close>, made only when jitter is on.\<close>

definition draw :: "'w env \<Rightarrow> backoff \<Rightarrow> 'w \<Rightarrow> rat \<times> 'w" where
  "draw env b w = (if b_jitter b then e_random env w else (1, w))"

definition emit_retrying ::
    "'w env \<Rightarrow> node \<Rightarrow> policy \<Rightarrow> nat \<Rightarrow> string option \<Rightarrow> 'w rstate \<Rightarrow> exc option \<times> 'w rstate" where
  "emit_retrying env n pol attempt reason st =
     (if \<not> e_hooks env then (None, st)
      else (let (u, w) = draw env (p_backoff pol) (r_world st); st' = st\<lparr>r_world := w\<rparr> in
            case delay_for_attempt (p_backoff pol) u attempt of
              Inl e \<Rightarrow> (Some e, st')
            | Inr d \<Rightarrow> (None, r_emit env
                (PIPELINE_STAGE_RETRYING (n_id n) attempt (p_max_attempts pol) d reason) st')))"

definition sleep_backoff ::
    "'w env \<Rightarrow> policy \<Rightarrow> nat \<Rightarrow> 'w rstate \<Rightarrow> exc option \<times> 'w rstate" where
  "sleep_backoff env pol attempt st =
     (let (u, w) = draw env (p_backoff pol) (r_world st) in
      case delay_for_attempt (p_backoff pol) u attempt of
        Inl e \<Rightarrow> (Some e, st\<lparr>r_world := w\<rparr>)
      | Inr d \<Rightarrow> (None, st\<lparr>r_world := (if d > 0 then e_sleep env (d / 1000) w else w)\<rparr>))"

definition retry_pause ::
    "'w env \<Rightarrow> node \<Rightarrow> policy \<Rightarrow> nat \<Rightarrow> string option \<Rightarrow> 'w rstate \<Rightarrow> exc option \<times> 'w rstate" where
  "retry_pause env n pol attempt reason st =
     (case emit_retrying env n pol attempt reason st of
        (Some e, st1) \<Rightarrow> (Some e, st1)
      | (None, st1) \<Rightarrow> sleep_backoff env pol attempt st1)"

definition emit_stage_failed ::
    "'w env \<Rightarrow> node \<Rightarrow> nat \<Rightarrow> stage_status \<Rightarrow> 'w rstate \<Rightarrow> 'w rstate" where
  "emit_stage_failed env n attempts final_status st =
     r_emit env (PIPELINE_STAGE_FAILED (n_id n) attempts (status_value final_status)) st"

section \<open>The retry ladder\<close>

definition with_attempts :: "nat \<Rightarrow> outcome \<Rightarrow> outcome" where
  "with_attempts a out = out\<lparr>o_attempt_count := Some (int a)\<rparr>"

definition terminal_failure :: "exc \<Rightarrow> nat \<Rightarrow> outcome" where
  "terminal_failure e attempt =
     with_attempts attempt ((mk_outcome FAIL)\<lparr>o_failure_reason := Some (exc_str e)\<rparr>)"

text \<open>After the last attempt returned RETRY: the verdict manufactured from \<open>allow_partial\<close>.\<close>

definition exhausted_outcome ::
    "'w env \<Rightarrow> node \<Rightarrow> policy \<Rightarrow> rat \<Rightarrow> outcome option \<Rightarrow> 'w rstate \<Rightarrow> outcome" where
  "exhausted_outcome env n pol start last_outcome st =
     (if resolve_bool_attr (node_attr_get n ''allow_partial'') then
        (let final = with_attempts (p_max_attempts pol)
               ((mk_outcome PARTIAL_SUCCESS)
                 \<lparr>o_notes := Some ''Retries exhausted, partial accepted'',
                  o_failure_reason := (case last_outcome of None \<Rightarrow> None | Some x \<Rightarrow> o_failure_reason x)\<rparr>)
         in case check_must_write (e_host env) (e_files env (r_world st)) n final start (r_ctx st) of
              None \<Rightarrow> final
            | Some m \<Rightarrow> m)
      else with_attempts (p_max_attempts pol)
             ((mk_outcome FAIL)\<lparr>o_failure_reason := Some ''Max retries exceeded''\<rparr>))"

text \<open>One iteration of the attempt loop: a \<open>return\<close> or a raise, or the next iteration with the
  \<open>last_outcome\<close> of the loop.\<close>

datatype 'w move = Finish "exc + outcome" "'w rstate" | Again "outcome option" "'w rstate"

definition pause_again ::
    "'w env \<Rightarrow> node \<Rightarrow> policy \<Rightarrow> nat \<Rightarrow> string option \<Rightarrow> outcome option \<Rightarrow> 'w rstate \<Rightarrow> 'w move" where
  "pause_again env n pol attempt reason last_outcome st =
     (case retry_pause env n pol attempt reason st of
        (Some e, st2) \<Rightarrow> Finish (Inl e) st2
      | (None, st2) \<Rightarrow> Again last_outcome st2)"

text \<open>The branch for a completed attempt, on its status.\<close>

definition on_outcome ::
    "'w env \<Rightarrow> node \<Rightarrow> policy \<Rightarrow> rat \<Rightarrow> nat \<Rightarrow> outcome \<Rightarrow> 'w rstate \<Rightarrow> 'w move" where
  "on_outcome env n pol start attempt out st =
     (if o_status out \<in> {SUCCESS, PARTIAL_SUCCESS} then
        (case check_must_write (e_host env) (e_files env (r_world st)) n out start (r_ctx st) of
           None \<Rightarrow> Finish (Inr (with_attempts attempt out)) st
         | Some mw \<Rightarrow>
             (if attempt < p_max_attempts pol
              then pause_again env n pol attempt (Some ''must_write_violation'') (Some mw) st
              else Finish (Inr (with_attempts attempt mw)) (emit_stage_failed env n attempt (o_status mw) st)))
      else if o_status out = FAIL then
        Finish (Inr (with_attempts attempt out)) (emit_stage_failed env n attempt FAIL st)
      else if o_status out = SKIPPED then Finish (Inr (with_attempts attempt out)) st
      else if attempt < p_max_attempts pol then pause_again env n pol attempt None (Some out) st
      else Again (Some out) st)"

definition attempt_step ::
    "'w env \<Rightarrow> string \<Rightarrow> node \<Rightarrow> policy \<Rightarrow> rat \<Rightarrow> nat \<Rightarrow> outcome option \<Rightarrow> 'w rstate \<Rightarrow> 'w move" where
  "attempt_step env logs n pol start attempt last_outcome st =
     (let (t0, w0) = e_wall env (r_world st);
          (res, c1, w1) = e_handler env n (r_ctx st) w0;
          st1 = st\<lparr>r_ctx := c1, r_world := w1\<rparr>
      in case res of
           Inl e \<Rightarrow>
             (case e of
                ChildDotResolutionError m \<Rightarrow> Finish (Inl e) st1
              | PyError t tr m \<Rightarrow>
                  (if \<not> should_retry e then
                     Finish (Inr (terminal_failure e attempt)) (emit_stage_failed env n attempt FAIL st1)
                   else if attempt < p_max_attempts pol then
                     pause_again env n pol attempt (Some (''exception:'' @ exc_type_name e)) last_outcome st1
                   else Finish (Inr (terminal_failure e attempt)) (emit_stage_failed env n attempt FAIL st1)))
         | Inr out0 \<Rightarrow>
             (case read_status_override (e_host env) (e_files env w1) n logs t0 out0 of
                Inl e \<Rightarrow> Finish (Inl e) st1
              | Inr ov \<Rightarrow>
                  on_outcome env n pol start attempt (case ov of None \<Rightarrow> out0 | Some x \<Rightarrow> x) st1))"

fun ladder ::
    "'w env \<Rightarrow> string \<Rightarrow> node \<Rightarrow> policy \<Rightarrow> rat \<Rightarrow> nat \<Rightarrow> nat \<Rightarrow> outcome option \<Rightarrow> 'w rstate
     \<Rightarrow> (exc + outcome) \<times> 'w rstate" where
  "ladder env logs n pol start 0 attempt last_outcome st =
     (let final = exhausted_outcome env n pol start last_outcome st
      in (Inr final, emit_stage_failed env n (p_max_attempts pol) (o_status final) st))"
| "ladder env logs n pol start (Suc k) attempt last_outcome st =
     (case attempt_step env logs n pol start attempt last_outcome st of
        Finish r st' \<Rightarrow> (r, st')
      | Again last' st' \<Rightarrow> ladder env logs n pol start k (Suc attempt) last' st')"

definition execute_with_retry ::
    "'w env \<Rightarrow> string \<Rightarrow> node \<Rightarrow> policy \<Rightarrow> 'w rstate \<Rightarrow> (exc + outcome) \<times> 'w rstate" where
  "execute_with_retry env logs n pol st =
     (let (start, w) = e_wall env (r_world st)
      in ladder env logs n pol start (p_max_attempts pol) 1 None (st\<lparr>r_world := w\<rparr>))"


section \<open>Lemmas: the backoff schedule\<close>

definition backoff_ok :: "backoff \<Rightarrow> bool" where
  "backoff_ok b = (0 \<le> b_initial_delay_ms b \<and> 0 \<le> b_backoff_factor b \<and> 0 \<le> b_max_delay_ms b)"

lemma delay_bounds:
  assumes "backoff_ok b" "1 / 2 \<le> u" "u \<le> 3 / 2" "delay_for_attempt b u a = Inr d"
  shows "0 \<le> d \<and> d \<le> 3 / 2 * b_max_delay_ms b"
proof -
  define x where "x = min (b_initial_delay_ms b * b_backoff_factor b ^ (a - 1)) (b_max_delay_ms b)"
  have x: "0 \<le> x" "x \<le> b_max_delay_ms b"
    using assms(1) by (auto simp: x_def backoff_ok_def)
  have d: "d = (if b_jitter b then x * u else x)"
    using assms(4) by (simp add: delay_for_attempt_def Let_def x_def split: if_splits)
  have "x * u \<le> b_max_delay_ms b * (3 / 2)" using x assms by (intro mult_mono) auto
  moreover have "0 \<le> x * u" using x assms by simp
  ultimately show ?thesis using x assms(1) by (auto simp: d backoff_ok_def)
qed

lemma delay_mono:
  assumes "backoff_ok b" "1 \<le> b_backoff_factor b" "\<not> b_jitter b" "a \<le> a'"
    "delay_for_attempt b u a = Inr d" "delay_for_attempt b u a' = Inr d'"
  shows "d \<le> d'"
proof -
  have "b_backoff_factor b ^ (a - 1) \<le> b_backoff_factor b ^ (a' - 1)"
    using assms(2,4) by (intro power_increasing) auto
  then have "b_initial_delay_ms b * b_backoff_factor b ^ (a - 1) \<le> b_initial_delay_ms b * b_backoff_factor b ^ (a' - 1)"
    using assms(1) by (intro mult_left_mono) (auto simp: backoff_ok_def)
  with assms(3,5,6) show ?thesis
    by (auto simp: delay_for_attempt_def Let_def split: if_splits)
qed

text \<open>With the default schedule the power fits a double up to attempt 1024 and not at 1025.\<close>

lemma default_delay_defined: "a \<le> 1024 \<Longrightarrow> \<exists>d. delay_for_attempt default_backoff u a = Inr d"
proof -
  assume "a \<le> 1024"
  then have "a - 1 < (1024 :: nat)" by simp
  then have "(2::rat) ^ (a - 1) < 2 ^ 1024" by (intro power_strict_increasing) auto
  then show ?thesis
    by (simp add: delay_for_attempt_def default_backoff_def float_limit_def Let_def not_le)
qed

lemma default_delay_overflow: "1025 \<le> a \<Longrightarrow> \<exists>e. delay_for_attempt default_backoff u a = Inl e"
proof -
  assume "1025 \<le> a"
  then have "(1024 :: nat) \<le> a - 1" by simp
  then have "(2::rat) ^ 1024 \<le> 2 ^ (a - 1)" by (intro power_increasing) auto
  then show ?thesis
    by (simp add: delay_for_attempt_def default_backoff_def float_limit_def Let_def)
qed

section \<open>Lemmas: the ladder\<close>

lemma r_emit_frame [simp]:
  "r_ctx (r_emit env ev st) = r_ctx st" "r_world (r_emit env ev st) = r_world st"
  by (simp_all add: r_emit_def)

lemma emit_stage_failed_frame [simp]:
  "r_ctx (emit_stage_failed env n a s st) = r_ctx st"
  "r_world (emit_stage_failed env n a s st) = r_world st"
  by (simp_all add: emit_stage_failed_def)

lemma retry_pause_ctx: "retry_pause env n pol a reason st = (e, st') \<Longrightarrow> r_ctx st' = r_ctx st"
  by (auto simp: retry_pause_def emit_retrying_def sleep_backoff_def Let_def
      split: prod.splits sum.splits if_splits option.splits)

lemma with_attempts_simps [simp]:
  "o_status (with_attempts a out) = o_status out" "o_attempt_count (with_attempts a out) = Some (int a)"
  "o_is_explicit (with_attempts a out) = o_is_explicit out"
  by (simp_all add: with_attempts_def)

text \<open>The interface of an attempt loop, for what holds of every result it returns.\<close>

locale attempt_loop =
  fixes step :: "nat \<Rightarrow> 's \<Rightarrow> 'r + 's"
    and final :: "nat \<Rightarrow> 's \<Rightarrow> 'r"
    and run :: "nat \<Rightarrow> nat \<Rightarrow> 's \<Rightarrow> 'r"
  assumes run_0: "run 0 a s = final a s"
    and run_Suc: "run (Suc k) a s = (case step a s of Inl r \<Rightarrow> r | Inr s' \<Rightarrow> run k (Suc a) s')"
begin

text \<open>Invariant rule: \<open>I\<close> holds of the state before attempt \<open>a\<close>, \<open>P\<close> of every result.\<close>

lemma run_rule:
  assumes "I a s"
    and "\<And>a s r. I a s \<Longrightarrow> a < m \<Longrightarrow> step a s = Inl r \<Longrightarrow> P r"
    and "\<And>a s s'. I a s \<Longrightarrow> a < m \<Longrightarrow> step a s = Inr s' \<Longrightarrow> I (Suc a) s'"
    and "\<And>s. I m s \<Longrightarrow> P (final m s)"
    and "a + k = m"
  shows "P (run k a s)"
  using assms(1,5)
proof (induction k arbitrary: a s)
  case 0
  then show ?case using assms(4) by (simp add: run_0)
next
  case (Suc k)
  show ?case
  proof (cases "step a s")
    case (Inl r)
    then show ?thesis using assms(2) Suc by (simp add: run_Suc)
  next
    case (Inr s')
    then have "I (Suc a) s'" using assms(3) Suc by simp
    then show ?thesis using Inr Suc by (simp add: run_Suc)
  qed
qed

end

definition move_step ::
    "'w env \<Rightarrow> string \<Rightarrow> node \<Rightarrow> policy \<Rightarrow> rat \<Rightarrow> nat \<Rightarrow> outcome option \<times> 'w rstate
     \<Rightarrow> ((exc + outcome) \<times> 'w rstate) + (outcome option \<times> 'w rstate)" where
  "move_step env logs n pol start a p =
     (case attempt_step env logs n pol start a (fst p) (snd p) of
        Finish r st \<Rightarrow> Inl (r, st) | Again l st \<Rightarrow> Inr (l, st))"

definition move_final ::
    "'w env \<Rightarrow> node \<Rightarrow> policy \<Rightarrow> rat \<Rightarrow> nat \<Rightarrow> outcome option \<times> 'w rstate
     \<Rightarrow> (exc + outcome) \<times> 'w rstate" where
  "move_final env n pol start a p =
     (let final = exhausted_outcome env n pol start (fst p) (snd p)
      in (Inr final, emit_stage_failed env n (p_max_attempts pol) (o_status final) (snd p)))"

interpretation al: attempt_loop "move_step env logs n pol start" "move_final env n pol start"
    "\<lambda>k a p. ladder env logs n pol start k a (fst p) (snd p)"
  for env :: "'w env" and logs n pol start
  by unfold_locales (auto simp: move_step_def move_final_def split: move.splits)

lemma ladder_rule:
  assumes "ladder env logs n pol start k a l st = (r, st')" "a + k = m" "I a l st"
    and "\<And>a l st r st'. I a l st \<Longrightarrow> a < m \<Longrightarrow>
          attempt_step env logs n pol start a l st = Finish r st' \<Longrightarrow> P r st'"
    and "\<And>a l st l' st'. I a l st \<Longrightarrow> a < m \<Longrightarrow>
          attempt_step env logs n pol start a l st = Again l' st' \<Longrightarrow> I (Suc a) l' st'"
    and "\<And>l st out. I m l st \<Longrightarrow> exhausted_outcome env n pol start l st = out \<Longrightarrow>
          P (Inr out) (emit_stage_failed env n (p_max_attempts pol) (o_status out) st)"
  shows "P r st'"
proof -
  have "case ladder env logs n pol start k a (fst (l, st)) (snd (l, st)) of (r, st') \<Rightarrow> P r st'"
    using assms(2-)
    by (intro al.run_rule [of "\<lambda>a p. I a (fst p) (snd p)" a "(l, st)" m env logs n pol start
          "\<lambda>p. case p of (r, st') \<Rightarrow> P r st'" k])
      (auto simp: move_step_def move_final_def Let_def split: move.splits)
  with assms(1) show ?thesis by simp
qed

text \<open>What one attempt can do, read off its branches once.\<close>

definition is_stage_failed :: "event \<Rightarrow> bool" where
  "is_stage_failed ev = (case ev of PIPELINE_STAGE_FAILED _ _ _ \<Rightarrow> True | _ \<Rightarrow> False)"

lemma retry_pause_events:
  assumes "retry_pause env n pol a reason st = (e, st')"
  shows "\<exists>evs. r_events st' = r_events st @ evs \<and> \<not> (\<exists>ev \<in> set evs. is_stage_failed ev)"
  using assms
  by (auto simp: retry_pause_def emit_retrying_def sleep_backoff_def r_emit_def Let_def is_stage_failed_def
      split: prod.splits sum.splits if_splits option.splits)

lemma pause_again_cases:
  assumes "pause_again env n pol a reason l st = mv"
  obtains (raise) e st' evs where "mv = Finish (Inl e) st'"
  | (loop) st' evs where "mv = Again l st'" "r_ctx st' = r_ctx st"
      "r_events st' = r_events st @ evs" "\<not> (\<exists>ev \<in> set evs. is_stage_failed ev)"
proof (cases "retry_pause env n pol a reason st")
  case (Pair e st')
  show ?thesis
  proof (cases e)
    case None
    obtain evs where "r_events st' = r_events st @ evs" "\<not> (\<exists>ev \<in> set evs. is_stage_failed ev)"
      using retry_pause_events [OF Pair] by blast
    moreover have "mv = Again l st'" using assms Pair None by (simp add: pause_again_def)
    ultimately show ?thesis using loop retry_pause_ctx [OF Pair] by blast
  next
    case (Some x)
    then have "mv = Finish (Inl x) st'" using assms Pair by (simp add: pause_again_def)
    then show ?thesis using raise by blast
  qed
qed

text \<open>A returned outcome of one attempt: an accepted completion, a skip, or a reported failure.\<close>

lemma on_outcome_finish:
  assumes "on_outcome env n pol start a out st = Finish (Inr res) st'"
  shows "(is_success res \<and> st' = st
           \<and> check_must_write (e_host env) (e_files env (r_world st)) n res start (r_ctx st) = None)
       \<or> (o_status res = SKIPPED \<and> st' = st)
       \<or> (o_status res = FAIL \<and> st' = emit_stage_failed env n a FAIL st)"
proof -
  have "pause_again env n pol a reason l st \<noteq> Finish (Inr res) st'" for reason l
    by (auto elim: pause_again_cases)
  moreover have "check_must_write h fs n (with_attempts a out) start c = check_must_write h fs n out start c" for h fs c
    by (rule check_must_write_cong) simp
  ultimately show ?thesis
    using assms check_must_write_Some
    by (cases "o_status out")
      (auto simp: on_outcome_def is_success_def split: option.splits if_splits)
qed

lemma attempt_step_finish:
  assumes "attempt_step env logs n pol start a l st = Finish (Inr res) st'"
  shows "\<exists>st1. r_events st1 = r_events st \<and>
       ((is_success res \<and> st' = st1
           \<and> check_must_write (e_host env) (e_files env (r_world st1)) n res start (r_ctx st1) = None)
       \<or> (o_status res = SKIPPED \<and> st' = st1)
       \<or> (o_status res = FAIL \<and> st' = emit_stage_failed env n a FAIL st1))"
proof -
  obtain t0 w0 where w0: "e_wall env (r_world st) = (t0, w0)" by force
  obtain rs c1 w1 where h: "e_handler env n (r_ctx st) w0 = (rs, c1, w1)" by (metis prod_cases3)
  define st1 where "st1 = st\<lparr>r_ctx := c1, r_world := w1\<rparr>"
  have ev: "r_events st1 = r_events st" by (simp add: st1_def)
  have np: "pause_again env n pol a reason l st1 \<noteq> Finish (Inr res) st'" for reason l
    by (auto elim: pause_again_cases)
  show ?thesis
  proof (cases rs)
    case (Inl e)
    then have "o_status res = FAIL \<and> st' = emit_stage_failed env n a FAIL st1"
      using assms w0 h np
      by (auto simp: attempt_step_def st1_def [symmetric] terminal_failure_def split: exc.splits if_splits)
    then show ?thesis using ev by blast
  next
    case (Inr out0)
    then obtain out where "on_outcome env n pol start a out st1 = Finish (Inr res) st'"
      using assms w0 h by (auto simp: attempt_step_def st1_def [symmetric] split: sum.splits)
    then show ?thesis using on_outcome_finish ev by blast
  qed
qed

lemma exhausted_cases:
  assumes "exhausted_outcome env n pol start l st = out"
  shows "o_status out = FAIL \<or>
    (o_status out = PARTIAL_SUCCESS
     \<and> check_must_write (e_host env) (e_files env (r_world st)) n out start (r_ctx st) = None)"
  using assms check_must_write_Some
  by (auto simp: exhausted_outcome_def Let_def split: if_splits option.splits)

text \<open>The ladder never hands RETRY to the engine.\<close>

lemma ladder_not_retry:
  fixes env :: "'a env"
  assumes "ladder env logs n pol start k a l st = (Inr out, st')"
  shows "o_status out \<noteq> RETRY"
proof -
  let ?P = "\<lambda>r (s :: 'a rstate). case r of Inl (e :: exc) \<Rightarrow> True | Inr out \<Rightarrow> o_status out \<noteq> RETRY"
  have "?P (Inr out) st'"
    using assms(1) refl
  proof (rule ladder_rule [where I = "\<lambda>_ _ _. True" and P = ?P])
    fix a l st r st'
    assume "attempt_step env logs n pol start a l st = Finish r st'"
    then show "?P r st'"
      by (cases r) (auto dest!: attempt_step_finish simp: is_success_def)
  next
    fix l st out
    assume "exhausted_outcome env n pol start l st = out"
    then show "?P (Inr out) (emit_stage_failed env n (p_max_attempts pol) (o_status out) st)"
      using exhausted_cases [of env n pol start l st out] by auto
  qed simp_all
  then show ?thesis by simp
qed

text \<open>A completion the ladder returns satisfies the artifact contract in the state it returns.\<close>

lemma ladder_must_write:
  assumes "ladder env logs n pol start k a l st = (Inr out, st')" "is_success out"
  shows "check_must_write (e_host env) (e_files env (r_world st')) n out start (r_ctx st') = None"
proof -
  let ?P = "\<lambda>r st'. case r of Inl (e :: exc) \<Rightarrow> True | Inr out \<Rightarrow> is_success out \<longrightarrow>
    check_must_write (e_host env) (e_files env (r_world st')) n out start (r_ctx st') = None"
  have "?P (Inr out) st'"
    using assms(1) refl
  proof (rule ladder_rule [where I = "\<lambda>_ _ _. True" and P = ?P])
    fix a l st r st'
    assume "attempt_step env logs n pol start a l st = Finish r st'"
    then show "?P r st'"
      by (cases r) (auto dest!: attempt_step_finish simp: is_success_def)
  next
    fix l st out
    assume "exhausted_outcome env n pol start l st = out"
    then show "?P (Inr out) (emit_stage_failed env n (p_max_attempts pol) (o_status out) st)"
      using exhausted_cases [of env n pol start l st out] by (auto simp: is_success_def)
  qed simp_all
  with assms(2) show ?thesis by simp
qed

text \<open>The failure event tells the truth: it is emitted for every FAIL and names the status returned.\<close>

definition failure_events_true :: "node \<Rightarrow> outcome \<Rightarrow> event list \<Rightarrow> bool" where
  "failure_events_true n out evs =
     (list_all (\<lambda>ev. case ev of
          PIPELINE_STAGE_FAILED i a v \<Rightarrow> i = n_id n \<and> v = status_value (o_status out) | _ \<Rightarrow> True) evs
      \<and> (o_status out = FAIL \<longrightarrow> list_ex is_stage_failed evs))"

lemma failure_events_snoc:
  assumes "\<not> (\<exists>ev \<in> set evs. is_stage_failed ev)" "e_hooks env"
    "r_events st = old @ evs"
  shows "\<exists>evs'. r_events (emit_stage_failed env n a (o_status out) st) = old @ evs' \<and> failure_events_true n out evs'"
proof -
  have "list_all (\<lambda>ev. case ev of
      PIPELINE_STAGE_FAILED i a v \<Rightarrow> i = n_id n \<and> v = status_value (o_status out) | _ \<Rightarrow> True) evs"
    using assms(1) by (auto simp: list_all_iff is_stage_failed_def split: event.splits)
  then have "failure_events_true n out (evs @ [PIPELINE_STAGE_FAILED (n_id n) a (status_value (o_status out))])"
    by (simp add: failure_events_true_def is_stage_failed_def)
  then show ?thesis using assms(2,3) by (auto simp: emit_stage_failed_def r_emit_def)
qed

lemma no_failure_events:
  "\<not> (\<exists>ev \<in> set evs. is_stage_failed ev) \<Longrightarrow> o_status out \<noteq> FAIL \<Longrightarrow> failure_events_true n out evs"
  by (auto simp: failure_events_true_def list_all_iff is_stage_failed_def split: event.splits)

lemma attempt_step_again:
  assumes "attempt_step env logs n pol start a l st = Again l' st'"
  shows "\<exists>evs. r_events st' = r_events st @ evs \<and> \<not> (\<exists>ev \<in> set evs. is_stage_failed ev)"
proof -
  obtain t0 w0 where w0: "e_wall env (r_world st) = (t0, w0)" by force
  obtain rs c1 w1 where h: "e_handler env n (r_ctx st) w0 = (rs, c1, w1)" by (metis prod_cases3)
  define st1 where "st1 = st\<lparr>r_ctx := c1, r_world := w1\<rparr>"
  have ev: "r_events st1 = r_events st" by (simp add: st1_def)
  have "(\<exists>reason lx. pause_again env n pol a reason lx st1 = Again l' st') \<or> st' = st1"
    using assms w0 h
    by (auto simp: attempt_step_def st1_def [symmetric] on_outcome_def
        split: sum.splits exc.splits if_splits option.splits)
  then show ?thesis using ev by (auto elim!: pause_again_cases)
qed

lemma ladder_failure_events:
  fixes env :: "'a env"
  assumes "ladder env logs n pol start k a l st = (Inr out, st')" "e_hooks env"
  shows "\<exists>evs. r_events st' = r_events st @ evs \<and> failure_events_true n out evs"
proof -
  let ?I = "\<lambda>s :: 'a rstate. \<exists>evs. r_events s = r_events st @ evs \<and> \<not> (\<exists>ev \<in> set evs. is_stage_failed ev)"
  let ?P = "\<lambda>r (s :: 'a rstate). case r of Inl (e :: exc) \<Rightarrow> True
    | Inr out \<Rightarrow> \<exists>evs. r_events s = r_events st @ evs \<and> failure_events_true n out evs"
  have "?P (Inr out) st'"
    using assms(1) refl
  proof (rule ladder_rule [where I = "\<lambda>_ _ s. ?I s" and P = ?P])
    show "?I st" by (rule exI [of _ "[]"]) simp
  next
    fix a l s r s'
    assume I: "?I s" and f: "attempt_step env logs n pol start a l s = Finish r s'"
    show "?P r s'"
    proof (cases r)
      case (Inr res)
      obtain s1 evs where s1: "r_events s1 = r_events st @ evs" "\<not> (\<exists>ev \<in> set evs. is_stage_failed ev)"
        "(s' = s1 \<and> o_status res \<noteq> FAIL) \<or> (o_status res = FAIL \<and> s' = emit_stage_failed env n a FAIL s1)"
        using attempt_step_finish [OF f [unfolded Inr]] I by (fastforce simp: is_success_def)
      show ?thesis
      proof (cases "o_status res = FAIL")
        case True
        then have "s' = emit_stage_failed env n a (o_status res) s1" using s1(3) by simp
        then show ?thesis
          using failure_events_snoc [OF s1(2) assms(2) s1(1), where out = res and a = a and n = n] Inr by simp
      next
        case False
        then have "s' = s1" using s1(3) by simp
        then show ?thesis using s1(1) no_failure_events [OF s1(2) False, of n] Inr by auto
      qed
    qed simp
  next
    fix a l s l' s'
    assume I: "?I s" and f: "attempt_step env logs n pol start a l s = Again l' s'"
    obtain e1 where "r_events s = r_events st @ e1" "\<not> (\<exists>ev \<in> set e1. is_stage_failed ev)"
      using I by blast
    moreover obtain e2 where "r_events s' = r_events s @ e2" "\<not> (\<exists>ev \<in> set e2. is_stage_failed ev)"
      using attempt_step_again [OF f] by blast
    ultimately show "?I s'" by (intro exI [of _ "e1 @ e2"]) auto
  next
    fix l s out
    assume "?I s"
    then obtain evs where "r_events s = r_events st @ evs" "\<not> (\<exists>ev \<in> set evs. is_stage_failed ev)"
      by blast
    then show "?P (Inr out) (emit_stage_failed env n (p_max_attempts pol) (o_status out) s)"
      using failure_events_snoc assms(2) by fastforce
  qed
  then show ?thesis by simp
qed


text \<open>
  How often the handler runs. \<open>calls\<close> is any count of handler runs kept in the world: the handler
  adds at most one to it, the clock, the generator and the sleep leave it alone.
\<close>

definition counts_calls :: "'w env \<Rightarrow> ('w \<Rightarrow> nat) \<Rightarrow> bool" where
  "counts_calls env calls =
     ((\<forall>n c w. calls (snd (snd (e_handler env n c w))) \<le> Suc (calls w))
      \<and> (\<forall>w. calls (snd (e_wall env w)) = calls w)
      \<and> (\<forall>w. calls (snd (e_random env w)) = calls w)
      \<and> (\<forall>d w. calls (e_sleep env d w) = calls w))"

lemma counts_calls_simps:
  assumes "counts_calls env calls"
  shows "e_wall env w = (t, w') \<Longrightarrow> calls w' = calls w"
    "draw env b w = (u, w') \<Longrightarrow> calls w' = calls w"
    "calls (e_sleep env d w) = calls w"
    "e_handler env n c w = (r, c', w') \<Longrightarrow> calls w' \<le> Suc (calls w)"
proof -
  show "e_wall env w = (t, w') \<Longrightarrow> calls w' = calls w"
    using assms unfolding counts_calls_def by (metis snd_conv)
  show "draw env b w = (u, w') \<Longrightarrow> calls w' = calls w"
    using assms unfolding counts_calls_def draw_def by (metis snd_conv)
  show "calls (e_sleep env d w) = calls w" using assms unfolding counts_calls_def by blast
  show "e_handler env n c w = (r, c', w') \<Longrightarrow> calls w' \<le> Suc (calls w)"
    using assms unfolding counts_calls_def by (metis snd_conv)
qed

lemma retry_pause_calls:
  assumes "counts_calls env calls" "retry_pause env n pol a reason st = (e, st')"
  shows "calls (r_world st') = calls (r_world st)"
  using assms(2)
  by (auto simp: retry_pause_def emit_retrying_def sleep_backoff_def Let_def counts_calls_simps [OF assms(1)]
      split: prod.splits sum.splits if_splits option.splits)

lemma pause_again_calls:
  assumes "counts_calls env calls"
  shows "pause_again env n pol a reason l st = Finish r st' \<Longrightarrow> calls (r_world st') = calls (r_world st)"
    "pause_again env n pol a reason l st = Again l' st' \<Longrightarrow> calls (r_world st') = calls (r_world st)"
  using retry_pause_calls [OF assms]
  by (auto simp: pause_again_def split: prod.splits option.splits)

lemma attempt_step_calls:
  assumes "counts_calls env calls"
  shows "attempt_step env logs n pol start a l st = Finish r st' \<Longrightarrow>
      calls (r_world st') \<le> Suc (calls (r_world st))"
    "attempt_step env logs n pol start a l st = Again l' st' \<Longrightarrow>
      calls (r_world st') \<le> Suc (calls (r_world st))"
proof -
  obtain t0 w0 where w0: "e_wall env (r_world st) = (t0, w0)" by force
  obtain rs c1 w1 where h: "e_handler env n (r_ctx st) w0 = (rs, c1, w1)" by (metis prod_cases3)
  define st1 where "st1 = st\<lparr>r_ctx := c1, r_world := w1\<rparr>"
  have c: "calls (r_world st1) \<le> Suc (calls (r_world st))"
    using counts_calls_simps(1) [OF assms w0] counts_calls_simps(4) [OF assms h] by (simp add: st1_def)
  have world: "r_world st' = r_world st1 \<or> calls (r_world st') = calls (r_world st1)"
    if "attempt_step env logs n pol start a l st = mv" "mv = Finish r st' \<or> mv = Again l' st'" for mv
    using that w0 h pause_again_calls [OF assms]
    by (auto simp: attempt_step_def st1_def [symmetric] on_outcome_def
        split: sum.splits exc.splits if_splits option.splits)
  show "attempt_step env logs n pol start a l st = Finish r st' \<Longrightarrow>
      calls (r_world st') \<le> Suc (calls (r_world st))"
    using world c by fastforce
  show "attempt_step env logs n pol start a l st = Again l' st' \<Longrightarrow>
      calls (r_world st') \<le> Suc (calls (r_world st))"
    using world c by fastforce
qed

lemma ladder_calls:
  assumes "counts_calls env calls" "ladder env logs n pol start k a l st = (r, st')"
  shows "calls (r_world st') \<le> calls (r_world st) + k"
  using assms(2)
proof (induction k arbitrary: a l st)
  case 0
  then show ?case by (auto simp: Let_def)
next
  case (Suc k)
  show ?case
  proof (cases "attempt_step env logs n pol start a l st")
    case (Finish r1 s1)
    then show ?thesis using Suc.prems attempt_step_calls(1) [OF assms(1) Finish] by simp
  next
    case (Again l1 s1)
    then have "calls (r_world st') \<le> calls (r_world s1) + k" using Suc by simp
    then show ?thesis using attempt_step_calls(2) [OF assms(1) Again] by simp
  qed
qed

end
