(* ===== verification/Fidelity.thy ===== *)
theory Fidelity
  imports Pipeline_State
begin

text \<open>
  \<open>fidelity.py\<close>: how much prior state a node's session carries. The resolution of the fidelity mode
  and of the thread key along their precedence chains, and the preambles built for a fresh session.
  The warnings the source logs for an invalid mode change no result and are left out.
\<close>

definition valid_fidelity_modes :: "string list" where
  "valid_fidelity_modes =
     [''full'', ''truncate'', ''compact'', ''summary:low'', ''summary:medium'', ''summary:high'']"

definition default_fidelity :: string where
  "default_fidelity = ''compact''"

definition resume_fidelity_cap_key :: string where
  "resume_fidelity_cap_key = ''resume.fidelity_cap''"

text \<open>\<open>if v: if v in VALID_FIDELITY_MODES: return v\<close>.\<close>

definition valid_mode :: "pyval \<Rightarrow> string option" where
  "valid_mode v =
     (case v of PStr s \<Rightarrow> (if s \<in> set valid_fidelity_modes then Some s else None) | _ \<Rightarrow> None)"

definition resolve_fidelity :: "node \<Rightarrow> edge option \<Rightarrow> graph \<Rightarrow> string" where
  "resolve_fidelity n incoming g =
     (case (case incoming of None \<Rightarrow> None | Some e \<Rightarrow> valid_mode (edge_attr_get e ''fidelity'')) of
        Some m \<Rightarrow> m
      | None \<Rightarrow>
          (case valid_mode (node_attr_get n ''fidelity'') of
             Some m \<Rightarrow> m
           | None \<Rightarrow>
               (case valid_mode (graph_attr_get g ''default_fidelity'') of
                  Some m \<Rightarrow> m
                | None \<Rightarrow> default_fidelity)))"

definition resolve_thread_key :: "node \<Rightarrow> edge option \<Rightarrow> graph \<Rightarrow> string option \<Rightarrow> string" where
  "resolve_thread_key n incoming g previous_node_id =
     (let nt = node_attr_get n ''thread_id'';
          et = (case incoming of None \<Rightarrow> PNone | Some e \<Rightarrow> edge_attr_get e ''thread_id'');
          gt = graph_attr_get g ''default_thread_id''
      in if py_true nt then py_str nt
         else if py_true et then py_str et
         else if py_true gt then py_str gt
         else if str_true previous_node_id then the previous_node_id
         else n_id n)"

section \<open>Preambles\<close>

definition newline :: string where
  "newline = [CHR 0x0A]"

definition or_else :: "string option \<Rightarrow> (string \<Rightarrow> string list) \<Rightarrow> string list" where
  "or_else x f = (if str_true x then f (the x) else [])"

definition build_truncate_preamble :: "ctx \<Rightarrow> string" where
  "build_truncate_preamble c =
     ''Goal: '' @ ctx_get_string c ''graph.goal'' ''No goal set'' @ newline
     @ ''Run ID: '' @ ctx_get_string c ''internal.run_id'' ''unknown''"

text \<open>The \<open>context.*\<close> values, sorted by key.\<close>

definition context_values :: "ctx \<Rightarrow> (string \<times> pyval) list" where
  "context_values c = filter (\<lambda>(k, v). startswith ''context.'' k) (sort_key fst (ctx_snapshot c))"

definition context_lines :: "string \<Rightarrow> ctx \<Rightarrow> string list" where
  "context_lines heading c =
     (if context_values c = [] then []
      else heading # map (\<lambda>(k, v). ''  - '' @ k @ '': '' @ py_str v) (context_values c))"

definition last_response_lines :: "ctx \<Rightarrow> string list" where
  "last_response_lines c =
     (if py_true (ctx_get c ''last_response'')
      then [''Last response:'', ''  '' @ py_str (ctx_get c ''last_response''), []] else [])"

definition build_compact_preamble :: "ctx \<Rightarrow> outcome dict \<Rightarrow> string" where
  "build_compact_preamble c completed =
     py_join newline
       ([''Goal: '' @ ctx_get_string c ''graph.goal'' ''No goal set'', []]
        @ (if completed = [] then []
           else ''Completed stages:''
             # map (\<lambda>(i, x). ''  - '' @ i @ '': '' @ status_value (o_status x)
                 @ (if str_true (o_notes x) then '' - '' @ the (o_notes x) else [])) completed
             @ [[]])
        @ last_response_lines c
        @ context_lines ''Context values:'' c)"

definition summary_low :: "outcome dict \<Rightarrow> string list" where
  "summary_low completed =
     (if completed = [] then []
      else [''Progress: '' @ nat_str (length (filter (\<lambda>(i, x). is_success x) completed)) @ ''/''
              @ nat_str (length completed) @ '' stages completed successfully.'',
            ''Stages: '' @ py_join '', '' (dict_keys completed)])"

definition summary_medium :: "ctx \<Rightarrow> outcome dict \<Rightarrow> string list" where
  "summary_medium c completed =
     (if completed = [] then []
      else ''Stage outcomes:''
        # concat (map (\<lambda>(i, x). (''  - '' @ i @ '': '' @ status_value (o_status x))
            # or_else (o_notes x) (\<lambda>s. [''    Notes: '' @ s])) completed)
        @ [[]])
     @ last_response_lines c
     @ context_lines ''Active context:'' c"

definition summary_high :: "ctx \<Rightarrow> outcome dict \<Rightarrow> string list" where
  "summary_high c completed =
     (if completed = [] then []
      else ''Detailed stage outcomes:''
        # concat (map (\<lambda>(i, x). (''  - '' @ i @ '': '' @ status_value (o_status x))
            # or_else (o_notes x) (\<lambda>s. [''    Notes: '' @ s])
            @ or_else (o_failure_reason x) (\<lambda>s. [''    Failure: '' @ s])
            @ (case o_context_updates x of None \<Rightarrow> []
               | Some u \<Rightarrow> map (\<lambda>(k, v). ''    Update: '' @ k @ '' = '' @ py_str v) u)) completed)
        @ [[]])
     @ last_response_lines c
     @ context_lines ''Full context state:'' c"

definition build_summary_preamble :: "string \<Rightarrow> ctx \<Rightarrow> outcome dict \<Rightarrow> string" where
  "build_summary_preamble level c completed =
     py_join newline
       ([''Goal: '' @ ctx_get_string c ''graph.goal'' ''No goal set'', []]
        @ (if level = ''low'' then summary_low completed
           else if level = ''medium'' then summary_medium c completed
           else if level = ''high'' then summary_high c completed
           else []))"

definition build_preamble :: "string \<Rightarrow> ctx \<Rightarrow> outcome dict \<Rightarrow> string" where
  "build_preamble fidelity c completed =
     (if fidelity = ''full'' then []
      else if fidelity = ''truncate'' then build_truncate_preamble c
      else if fidelity = ''compact'' then build_compact_preamble c completed
      else if startswith ''summary:'' fidelity then build_summary_preamble (drop 8 fidelity) c completed
      else build_compact_preamble c completed)"

section \<open>Lemmas\<close>

lemma valid_mode_Some: "valid_mode v = Some m \<Longrightarrow> m \<in> set valid_fidelity_modes"
  by (auto simp: valid_mode_def split: pyval.splits if_splits)

lemma resolve_fidelity_valid: "resolve_fidelity n e g \<in> set valid_fidelity_modes"
proof -
  have "default_fidelity \<in> set valid_fidelity_modes"
    by (simp add: default_fidelity_def valid_fidelity_modes_def)
  then show ?thesis
    by (auto simp: resolve_fidelity_def dest!: valid_mode_Some split: option.splits)
qed

end
