(* ===== verification/Checkpoints.thy ===== *)
theory Checkpoints
  imports Contracts
begin

text \<open>
  \<open>checkpoint.py\<close>: the checkpoint record, its JSON form, the raw loader and the resume ladder.

  Every field a checkpoint file supplies is dynamically typed, so the record keeps the loaded
  values. The ladder's refusals are the constructors of \<open>resume_error\<close>, one per error class of the
  source, with \<open>Unhandled\<close> for an exception of another class that escapes it. \<open>sha\<close> is SHA-256 of
  the UTF-8 bytes of a text, in hex.
\<close>

definition schema_version :: int where
  "schema_version = 2"

definition run_state_in_flight :: string where
  "run_state_in_flight = ''in_flight''"

definition run_state_completed :: string where
  "run_state_completed = ''completed''"

definition valid_statuses :: "string list" where
  "valid_statuses = [''success'', ''partial_success'', ''retry'', ''fail'', ''skipped'']"

datatype resume_error =
    CheckpointMissing
  | CheckpointCorrupt
  | CheckpointSchemaVersion int
  | CheckpointAlreadyCompleted
  | CheckpointGraphMismatch
  | CheckpointStructure
  | Unhandled string

record checkpoint =
  cp_current_node :: pyval
  cp_completed_nodes :: "pyval list"
  cp_context :: pyval
  cp_timestamp :: pyval
  cp_node_retries :: pyval
  cp_logs :: pyval
  cp_schema_version :: int
  cp_run_state :: pyval
  cp_node_outcomes :: pyval
  cp_engine_state :: pyval
  cp_graph :: "pyval dict"

definition fingerprint_dot_source :: "(string \<Rightarrow> string) \<Rightarrow> string \<Rightarrow> string" where
  "fingerprint_dot_source sha dot_source = ''sha256:'' @ sha dot_source"

definition graph_fingerprint :: "checkpoint \<Rightarrow> string" where
  "graph_fingerprint cp = py_str (raw_get (cp_graph cp) ''fingerprint'' (PStr []))"

definition graph_dot_source :: "checkpoint \<Rightarrow> string" where
  "graph_dot_source cp = py_str (raw_get (cp_graph cp) ''dot_source'' (PStr []))"

definition graph_source_dir :: "checkpoint \<Rightarrow> string" where
  "graph_source_dir cp = py_str (raw_get (cp_graph cp) ''source_dir'' (PStr []))"

section \<open>Save and load\<close>

text \<open>The JSON object \<open>save_checkpoint\<close> dumps, in its key order.\<close>

definition checkpoint_json :: "checkpoint \<Rightarrow> pyval" where
  "checkpoint_json cp =
     PDict [(''current_node'', cp_current_node cp),
            (''completed_nodes'', PList (cp_completed_nodes cp)),
            (''context'', cp_context cp),
            (''timestamp'', cp_timestamp cp),
            (''node_retries'', cp_node_retries cp),
            (''logs'', cp_logs cp),
            (''schema_version'', PInt (cp_schema_version cp)),
            (''run_state'', cp_run_state cp),
            (''node_outcomes'', cp_node_outcomes cp),
            (''engine_state'', cp_engine_state cp),
            (''graph'', PDict (cp_graph cp))]"

text \<open>\<open>_validated_graph_block\<close>: \<^const>\<open>None\<close> is \<open>CheckpointFormatError\<close>.\<close>

definition validated_graph_block :: "pyval \<Rightarrow> pyval dict option" where
  "validated_graph_block block =
     (case block of
        PDict d \<Rightarrow>
          (if dict_has d ''source_dir'' then
             (case raw_get d ''source_dir'' PNone of PStr _ \<Rightarrow> Some d | _ \<Rightarrow> None)
           else Some d)
      | _ \<Rightarrow> Some [])"

text \<open>\<open>list(raw)\<close>, with the keys for the legacy dictionary form; \<^const>\<open>None\<close> is \<open>TypeError\<close>.\<close>

definition completed_list :: "pyval \<Rightarrow> pyval list option" where
  "completed_list raw =
     (case raw of
        PDict d \<Rightarrow> Some (map PStr (dict_keys d))
      | PList xs \<Rightarrow> Some xs
      | PStr s \<Rightarrow> Some (map (\<lambda>ch. PStr [ch]) s)
      | _ \<Rightarrow> None)"

text \<open>\<open>int(v)\<close>; \<^const>\<open>None\<close> is \<open>TypeError\<close> or \<open>ValueError\<close>. Of the strings, those with an
  optional sign and decimal digits.\<close>

definition py_int :: "pyval \<Rightarrow> int option" where
  "py_int v =
     (case v of
        PInt i \<Rightarrow> Some i
      | PBool b \<Rightarrow> Some (if b then 1 else 0)
      | PFloat q \<Rightarrow> Some (if q < 0 then - \<lfloor>- q\<rfloor> else \<lfloor>q\<rfloor>)
      | PStr s \<Rightarrow>
          (let t = py_strip s; neg = startswith ''-'' t;
               ds = (if startswith ''-'' t \<or> startswith ''+'' t then tl t else t)
           in if ds \<noteq> [] \<and> list_all is_digit ds
              then Some (if neg then - int (digits_val 0 ds) else int (digits_val 0 ds)) else None)
      | _ \<Rightarrow> None)"

definition or_empty :: "pyval \<Rightarrow> pyval" where
  "or_empty v = (if py_true v then v else PDict [])"

text \<open>\<open>load_checkpoint\<close> on parsed JSON; \<^const>\<open>None\<close> is one of the exceptions rung 2 turns into
  \<open>CheckpointCorruptError\<close> (\<open>CheckpointFormatError\<close>, \<open>KeyError\<close>, \<open>TypeError\<close>, \<open>ValueError\<close>).\<close>

definition load_checkpoint :: "pyval \<Rightarrow> checkpoint option" where
  "load_checkpoint data =
     (case data of
        PDict d \<Rightarrow>
          (case completed_list (raw_get d ''completed_nodes'' (PList [])) of
             None \<Rightarrow> None
           | Some completed \<Rightarrow>
               (case validated_graph_block (raw_get d ''graph'' (PDict [])) of
                  None \<Rightarrow> None
                | Some graph_block \<Rightarrow>
                    (case dict_get d ''current_node'' of
                       None \<Rightarrow> None
                     | Some current \<Rightarrow>
                         (case py_int (raw_get d ''schema_version'' (PInt 1)) of
                            None \<Rightarrow> None
                          | Some version \<Rightarrow> Some
                              \<lparr>cp_current_node = current,
                               cp_completed_nodes = completed,
                               cp_context = raw_get d ''context'' (PDict []),
                               cp_timestamp = raw_get d ''timestamp'' (PStr []),
                               cp_node_retries = raw_get d ''node_retries'' (PDict []),
                               cp_logs = raw_get d ''logs'' (PList []),
                               cp_schema_version = version,
                               cp_run_state = raw_get d ''run_state'' (PStr run_state_in_flight),
                               cp_node_outcomes = or_empty (raw_get d ''node_outcomes'' PNone),
                               cp_engine_state = or_empty (raw_get d ''engine_state'' PNone),
                               cp_graph = graph_block\<rparr>))))
      | _ \<Rightarrow> None)"

section \<open>The resume ladder\<close>

definition rung_version :: "checkpoint \<Rightarrow> resume_error option" where
  "rung_version cp =
     (if cp_schema_version cp \<noteq> schema_version
      then Some (CheckpointSchemaVersion (cp_schema_version cp)) else None)"

text \<open>The refusal of a finished run reads \<open>context_snapshot.get\<close>, which only a dictionary has.\<close>

definition rung_liveness :: "checkpoint \<Rightarrow> resume_error option" where
  "rung_liveness cp =
     (if cp_run_state cp \<noteq> PStr run_state_in_flight
      then (case cp_context cp of
              PDict _ \<Rightarrow> Some CheckpointAlreadyCompleted
            | _ \<Rightarrow> Some (Unhandled ''AttributeError''))
      else None)"

definition rung_identity :: "(string \<Rightarrow> string) \<Rightarrow> checkpoint \<Rightarrow> string option \<Rightarrow> resume_error option" where
  "rung_identity sha cp dot_source =
     (if graph_fingerprint cp = [] \<or> graph_dot_source cp = [] then Some CheckpointStructure
      else (case dot_source of
              None \<Rightarrow> None
            | Some src \<Rightarrow>
                (if fingerprint_dot_source sha src \<noteq> graph_fingerprint cp
                 then Some CheckpointGraphMismatch else None)))"

text \<open>Rungs 1 and 2: the file and its JSON.\<close>

definition read_checkpoint_file :: "host \<Rightarrow> fsys \<Rightarrow> string \<Rightarrow> resume_error + checkpoint" where
  "read_checkpoint_file h fs path =
     (case fs path of
        None \<Rightarrow> Inl CheckpointMissing
      | Some f \<Rightarrow>
          (case f_content f of
             Inl err \<Rightarrow> Inl (Unhandled ''OSError'')
           | Inr bytes \<Rightarrow>
               (case h_decode_utf8 h bytes of
                  Inl err \<Rightarrow> Inl CheckpointCorrupt
                | Inr text \<Rightarrow>
                    (case h_json_loads h text of
                       Inl err \<Rightarrow> Inl CheckpointCorrupt
                     | Inr data \<Rightarrow>
                         (case load_checkpoint data of
                            None \<Rightarrow> Inl CheckpointCorrupt
                          | Some cp \<Rightarrow> Inr cp)))))"

definition load_checkpoint_for_resume ::
    "host \<Rightarrow> (string \<Rightarrow> string) \<Rightarrow> fsys \<Rightarrow> string \<Rightarrow> string option \<Rightarrow> resume_error + checkpoint" where
  "load_checkpoint_for_resume h sha fs path dot_source =
     (case read_checkpoint_file h fs path of
        Inl e \<Rightarrow> Inl e
      | Inr cp \<Rightarrow>
          (case rung_version cp of
             Some e \<Rightarrow> Inl e
           | None \<Rightarrow>
               (case rung_liveness cp of
                  Some e \<Rightarrow> Inl e
                | None \<Rightarrow>
                    (case rung_identity sha cp dot_source of
                       Some e \<Rightarrow> Inl e
                     | None \<Rightarrow> Inr cp))))"

text \<open>\<open>v in d\<close>: \<^const>\<open>None\<close> is the \<open>TypeError\<close> of an unhashable \<open>v\<close>.\<close>

definition py_in_keys :: "pyval \<Rightarrow> string list \<Rightarrow> bool option" where
  "py_in_keys v ks =
     (case v of
        PStr s \<Rightarrow> Some (s \<in> set ks)
      | PList _ \<Rightarrow> None
      | PDict _ \<Rightarrow> None
      | _ \<Rightarrow> Some False)"

definition check_current :: "string list \<Rightarrow> checkpoint \<Rightarrow> resume_error option" where
  "check_current ids cp =
     (case py_in_keys (cp_current_node cp) ids of
        None \<Rightarrow> Some (Unhandled ''TypeError'')
      | Some present \<Rightarrow> (if present then None else Some CheckpointStructure))"

definition check_completed :: "string list \<Rightarrow> checkpoint \<Rightarrow> resume_error option" where
  "check_completed ids cp =
     (if \<exists>v \<in> set (cp_completed_nodes cp). py_in_keys v ids = None then Some (Unhandled ''TypeError'')
      else if \<exists>v \<in> set (cp_completed_nodes cp). py_in_keys v ids = Some False then Some CheckpointStructure
      else None)"

fun check_records :: "string list \<Rightarrow> pyval dict \<Rightarrow> resume_error option" where
  "check_records ids [] = None"
| "check_records ids ((node_id, rec) # rest) =
     (if node_id \<notin> set ids then Some CheckpointStructure
      else (case rec of
              PDict r \<Rightarrow>
                (case py_in_keys (raw_get r ''status'' PNone) valid_statuses of
                   None \<Rightarrow> Some (Unhandled ''TypeError'')
                 | Some ok \<Rightarrow> (if ok then check_records ids rest else Some CheckpointStructure))
            | _ \<Rightarrow> Some CheckpointStructure))"

definition verify_checkpoint_structure :: "checkpoint \<Rightarrow> graph \<Rightarrow> resume_error option" where
  "verify_checkpoint_structure cp g =
     (let ids = dict_keys (g_nodes g) in
      case check_current ids cp of
        Some e \<Rightarrow> Some e
      | None \<Rightarrow>
          (case check_completed ids cp of
             Some e \<Rightarrow> Some e
           | None \<Rightarrow>
               (case cp_node_outcomes cp of
                  PDict d \<Rightarrow> check_records ids d
                | _ \<Rightarrow> Some (Unhandled ''AttributeError''))))"

section \<open>Outcome records\<close>

definition opt_str_val :: "string option \<Rightarrow> pyval" where
  "opt_str_val x = (case x of None \<Rightarrow> PNone | Some s \<Rightarrow> PStr s)"

definition opt_list_val :: "pyval list option \<Rightarrow> pyval" where
  "opt_list_val x = (case x of None \<Rightarrow> PNone | Some s \<Rightarrow> PList s)"

text \<open>One entry of \<open>_serialize_node_outcomes\<close> and of \<open>_serialize_node_retries\<close>.\<close>

definition outcome_record :: "outcome \<Rightarrow> pyval" where
  "outcome_record out =
     PDict [(''status'', PStr (status_value (o_status out))),
            (''preferred_label'', opt_str_val (o_preferred_label out)),
            (''suggested_next_ids'', opt_list_val (o_suggested_next_ids out)),
            (''is_explicit'', PBool (o_is_explicit out)),
            (''failure_reason'', opt_str_val (o_failure_reason out)),
            (''notes'', opt_str_val (o_notes out))]"

definition retries_consumed :: "outcome \<Rightarrow> int" where
  "retries_consumed out =
     (let a = (case o_attempt_count out of None \<Rightarrow> 1 | Some a \<Rightarrow> if a = 0 then 1 else a)
      in max 0 (a - 1))"

text \<open>\<open>_outcome_from_checkpoint_record\<close>; \<^const>\<open>None\<close> is the \<open>KeyError\<close>, \<open>TypeError\<close> or
  \<open>ValueError\<close> of an invalid status. A label, note or reason that is no string and suggestions that
  are no list, which the writer never writes, read as absent.\<close>

definition outcome_of_record :: "pyval dict \<Rightarrow> int \<Rightarrow> outcome option" where
  "outcome_of_record rec retries =
     (case dict_get rec ''status'' of
        Some (PStr s) \<Rightarrow>
          map_option (\<lambda>st. (mk_outcome st)
            \<lparr>o_preferred_label := opt_str_of (raw_get rec ''preferred_label'' PNone),
             o_suggested_next_ids := opt_list_of (raw_get rec ''suggested_next_ids'' PNone),
             o_notes := opt_str_of (raw_get rec ''notes'' PNone),
             o_failure_reason := opt_str_of (raw_get rec ''failure_reason'' PNone),
             o_is_explicit := py_true (raw_get rec ''is_explicit'' (PBool False)),
             o_attempt_count := Some (retries + 1)\<rparr>) (status_of_value s)
      | _ \<Rightarrow> None)"

section \<open>Lemmas\<close>

definition checkpoint_writable :: "checkpoint \<Rightarrow> bool" where
  "checkpoint_writable cp =
     ((\<exists>d. cp_node_outcomes cp = PDict d) \<and> (\<exists>d. cp_engine_state cp = PDict d)
      \<and> validated_graph_block (PDict (cp_graph cp)) = Some (cp_graph cp))"

lemma load_save_checkpoint:
  "checkpoint_writable cp \<Longrightarrow> load_checkpoint (checkpoint_json cp) = Some cp"
  by (cases cp)
    (auto simp: checkpoint_writable_def load_checkpoint_def checkpoint_json_def raw_get_def
      completed_list_def py_int_def or_empty_def)

lemma outcome_record_roundtrip:
  "\<exists>d. outcome_record out = PDict d \<and> outcome_of_record d r =
     Some ((mk_outcome (o_status out))
       \<lparr>o_preferred_label := o_preferred_label out, o_suggested_next_ids := o_suggested_next_ids out,
        o_notes := o_notes out, o_failure_reason := o_failure_reason out,
        o_is_explicit := o_is_explicit out, o_attempt_count := Some (r + 1)\<rparr>)"
  by (auto simp: outcome_record_def outcome_of_record_def raw_get_def opt_str_of_def opt_list_of_def
      opt_str_val_def opt_list_val_def split: option.splits)

lemma resume_ladder_ok:
  assumes "load_checkpoint_for_resume h sha fs path src = Inr cp"
  shows "cp_schema_version cp = schema_version \<and> cp_run_state cp = PStr run_state_in_flight
    \<and> graph_fingerprint cp \<noteq> [] \<and> graph_dot_source cp \<noteq> []
    \<and> (\<forall>s. src = Some s \<longrightarrow> fingerprint_dot_source sha s = graph_fingerprint cp)
    \<and> read_checkpoint_file h fs path = Inr cp"
  using assms
  by (auto simp: load_checkpoint_for_resume_def rung_version_def rung_liveness_def rung_identity_def
      split: sum.splits option.splits if_splits pyval.splits)

lemma check_records_ok:
  "check_records ids d = None \<longleftrightarrow>
   (\<forall>(k, v) \<in> set d. k \<in> set ids \<and>
      (\<exists>r s. v = PDict r \<and> raw_get r ''status'' PNone = PStr s \<and> s \<in> set valid_statuses))"
  by (induction ids d rule: check_records.induct)
    (auto simp: py_in_keys_def split: pyval.splits if_splits option.splits)

end
