(* ===== verification/Templates.thy ===== *)
theory Templates
  imports Pipeline_State
begin

text \<open>
  Template strings: the substitution policy of \<open>substitution.py\<close> (used when a handler runs), the
  reference scan the engine runs before a handler (\<open>extract_refs\<close>), the parameter and goal
  expansion of \<open>transforms.py\<close>, and the output table of \<open>node_outputs.py\<close>. Each regular expression
  of the source is a scanner over the text: it tries its pattern at every position from left to
  right and continues after a match, as \<open>re.sub\<close> and \<open>re.finditer\<close> do.
\<close>

section \<open>Scanners\<close>

definition dollar :: char where
  "dollar = CHR 0x24"

text \<open>\<open>\$\{([^}]+)\}\<close> at the start of the text: the key and what follows the match.\<close>

definition braced_at :: "string \<Rightarrow> (string \<times> string) option" where
  "braced_at s =
     (case s of
        a # b # rest \<Rightarrow>
          (if a = dollar \<and> b = CHR ''{'' then
             (let key = takeWhile (\<lambda>ch. ch \<noteq> CHR ''}'') rest;
                  after = dropWhile (\<lambda>ch. ch \<noteq> CHR ''}'') rest
              in if key \<noteq> [] \<and> after \<noteq> [] then Some (key, tl after) else None)
           else None)
      | _ \<Rightarrow> None)"

lemma braced_at_shorter: "braced_at s = Some (k, r) \<Longrightarrow> length r < length s"
proof -
  assume h: "braced_at s = Some (k, r)"
  then obtain a b rest where s: "s = a # b # rest" "r = tl (dropWhile (\<lambda>ch. ch \<noteq> CHR ''}'') rest)"
    by (auto simp: braced_at_def Let_def split: list.splits if_splits)
  have "length (dropWhile (\<lambda>ch. ch \<noteq> CHR ''}'') rest) \<le> length rest" by (rule length_dropWhile_le)
  with s show ?thesis by simp
qed

text \<open>\<open>re.sub\<close> of the braced pattern with a replacement function of the key.\<close>

function sub_braced :: "(string \<Rightarrow> string) \<Rightarrow> string \<Rightarrow> string" where
  "sub_braced f s =
     (case braced_at s of
        Some (key, rest) \<Rightarrow> f key @ sub_braced f rest
      | None \<Rightarrow> (case s of [] \<Rightarrow> [] | c # cs \<Rightarrow> c # sub_braced f cs))"
  by pat_completeness auto
termination
  by (relation "measure (\<lambda>(f, s). length s)") (auto dest: braced_at_shorter)

declare sub_braced.simps [simp del]

function braced_keys :: "string \<Rightarrow> string list" where
  "braced_keys s =
     (case braced_at s of
        Some (key, rest) \<Rightarrow> key # braced_keys rest
      | None \<Rightarrow> (case s of [] \<Rightarrow> [] | c # cs \<Rightarrow> braced_keys cs))"
  by pat_completeness auto
termination
  by (relation "measure length") (auto dest: braced_at_shorter)

declare braced_keys.simps [simp del]

text \<open>\<open>\$key(?![boundary])\<close>: the token, not followed by a boundary character.\<close>

definition token_at :: "string \<Rightarrow> (char \<Rightarrow> bool) \<Rightarrow> string \<Rightarrow> bool" where
  "token_at key boundary s =
     (startswith (dollar # key) s
      \<and> (let rest = drop (Suc (length key)) s in rest = [] \<or> \<not> boundary (hd rest)))"

function sub_token :: "string \<Rightarrow> (char \<Rightarrow> bool) \<Rightarrow> string \<Rightarrow> string \<Rightarrow> string" where
  "sub_token key boundary v [] = []"
| "sub_token key boundary v (c # cs) =
     (if token_at key boundary (c # cs) then v @ sub_token key boundary v (drop (length key) cs)
      else c # sub_token key boundary v cs)"
  by pat_completeness auto
termination
  by (relation "measure (\<lambda>(key, boundary, v, s). length s)") auto

text \<open>\<open>\$([A-Za-z_][A-Za-z0-9_.]*)\<close>, all matches.\<close>

definition ref_char :: "char \<Rightarrow> bool" where
  "ref_char c = (is_word c \<or> c = CHR ''.'')"

definition ref_start :: "char \<Rightarrow> bool" where
  "ref_start c = (is_alpha c \<or> c = CHR ''_'')"

function bare_refs :: "string \<Rightarrow> string list" where
  "bare_refs [] = []"
| "bare_refs (c # cs) =
     (if c = dollar \<and> cs \<noteq> [] \<and> ref_start (hd cs)
      then takeWhile ref_char cs # bare_refs (dropWhile ref_char cs)
      else bare_refs cs)"
  by pat_completeness auto
termination
  by (relation "measure length") (auto simp: le_imp_less_Suc length_dropWhile_le)

section \<open>substitution.py\<close>

definition dotted_sibling :: "string list \<Rightarrow> string \<Rightarrow> bool" where
  "dotted_sibling keys key = (\<exists>other \<in> set keys. other \<noteq> key \<and> startswith (key @ ''.'') other)"

definition boundary_chars :: "string list \<Rightarrow> string \<Rightarrow> char \<Rightarrow> bool" where
  "boundary_chars keys key c = (is_word c \<or> (dotted_sibling keys key \<and> c = CHR ''.''))"

definition replace_braced :: "pyval dict \<Rightarrow> string \<Rightarrow> string" where
  "replace_braced snapshot key =
     (case dict_get snapshot key of
        None \<Rightarrow> dollar # ''{'' @ key @ ''}''
      | Some v \<Rightarrow> (if v = PNone then dollar # ''{'' @ key @ ''}'' else py_str v))"

definition replace_bare :: "pyval dict \<Rightarrow> string \<Rightarrow> string \<Rightarrow> string" where
  "replace_bare snapshot key text =
     (case dict_get snapshot key of
        None \<Rightarrow> text
      | Some v \<Rightarrow>
          (if v \<noteq> PNone \<and> occurs_in (dollar # key) text
           then sub_token key (boundary_chars (dict_keys snapshot) key) (py_str v) text
           else text))"

definition longest_first :: "string list \<Rightarrow> string list" where
  "longest_first keys = sort_key (\<lambda>k. - int (length k)) keys"

definition substitute_context :: "string \<Rightarrow> pyval dict \<Rightarrow> string" where
  "substitute_context text snapshot =
     (if dollar \<notin> set text then text
      else (let t1 = sub_braced (replace_braced snapshot) text;
                t2 = fold (replace_bare snapshot) (longest_first (dict_keys snapshot)) t1
            in replace_str [dollar, dollar] [dollar] t2))"

text \<open>The set of references, as a list without repetition.\<close>

definition extract_refs :: "string \<Rightarrow> string list" where
  "extract_refs text =
     (if dollar \<notin> set text then []
      else remdups (braced_keys text @ bare_refs (sub_braced (\<lambda>_. []) text)))"

section \<open>transforms.py\<close>

definition expand_params :: "string \<Rightarrow> string dict \<Rightarrow> string" where
  "expand_params text params =
     fold (\<lambda>(key, v) t. sub_token key (boundary_chars (dict_keys params) key) v t) params text"

definition expand_goal_variable :: "string \<Rightarrow> string \<Rightarrow> string \<Rightarrow> string" where
  "expand_goal_variable text graph_goal context_goal =
     (let goal_value = (if context_goal \<noteq> [] then context_goal else graph_goal)
      in if goal_value = [] then text else replace_str (dollar # ''goal'') goal_value text)"

text \<open>\<open>context.get("graph.goal") or ""\<close> and \<open>context.get("graph.params_values") or {}\<close>, the values
  of the latter through \<open>str\<close>.\<close>

definition params_of :: "pyval \<Rightarrow> string dict" where
  "params_of v = (case v of PDict d \<Rightarrow> map (\<lambda>(k, x). (k, py_str x)) d | _ \<Rightarrow> [])"

definition expand_prompt :: "string \<Rightarrow> string \<Rightarrow> string dict \<Rightarrow> string \<Rightarrow> string" where
  "expand_prompt graph_goal context_goal params prompt =
     (if prompt = [] then prompt
      else (let p1 = (if occurs_in (dollar # ''goal'') prompt
                      then expand_goal_variable prompt graph_goal context_goal else prompt)
            in if params \<noteq> [] \<and> dollar \<in> set p1 then expand_params p1 params else p1))"

definition expand_variables :: "graph \<Rightarrow> ctx \<Rightarrow> graph" where
  "expand_variables g c =
     (let context_goal = (if py_true (ctx_get c ''graph.goal'') then py_str (ctx_get c ''graph.goal'') else []);
          params = params_of (ctx_get c ''graph.params_values'')
      in g\<lparr>g_nodes := map (\<lambda>(k, n). (k, n\<lparr>n_prompt := expand_prompt (g_goal g) context_goal params (n_prompt n)\<rparr>))
                       (g_nodes g)\<rparr>)"

section \<open>node_outputs.py\<close>

definition shape_to_handler :: "(string \<times> string) list" where
  "shape_to_handler =
     [(''Mdiamond'', ''start''), (''Msquare'', ''exit''), (''box'', ''codergen''),
      (''diamond'', ''conditional''), (''hexagon'', ''wait.human''), (''component'', ''parallel''),
      (''tripleoctagon'', ''parallel.fan_in''), (''parallelogram'', ''tool''),
      (''house'', ''stack.manager_loop''), (''folder'', ''pipeline'')]"

definition handler_inferred_outputs :: "(string \<times> string list) list" where
  "handler_inferred_outputs = [(''tool'', [''tool.output'', ''tool.last_line''])]"

definition substitutable_attrs :: "string list" where
  "substitutable_attrs = [''tool_command'', ''prompt'', ''description'', ''tool_env'']"

definition resolve_handler_type :: "string \<Rightarrow> string \<Rightarrow> string" where
  "resolve_handler_type node_type node_shape =
     (if node_type \<noteq> [] then node_type
      else (case map_of shape_to_handler node_shape of None \<Rightarrow> ''codergen'' | Some h \<Rightarrow> h))"

definition branch_outcome_key :: "nat \<Rightarrow> string" where
  "branch_outcome_key idx = ''branch.'' @ nat_str idx @ ''.outcome''"

text \<open>The frozen sets are lists without repetition.\<close>

definition node_outputs_of :: "graph \<Rightarrow> string \<Rightarrow> node \<Rightarrow> string list" where
  "node_outputs_of g node_id n =
     (let handler_type = resolve_handler_type (n_type n) (n_shape n);
          inferred = (case map_of handler_inferred_outputs handler_type of None \<Rightarrow> [] | Some ks \<Rightarrow> ks)
      in if handler_type = ''parallel''
         then inferred @ map branch_outcome_key [0..<length (outgoing_edges g node_id)]
         else inferred)"

definition build_output_table :: "graph \<Rightarrow> (string \<times> string list) list" where
  "build_output_table g = map (\<lambda>(node_id, n). (node_id, node_outputs_of g node_id n)) (g_nodes g)"

section \<open>Lemmas\<close>

lemma sub_braced_Nil [simp]: "sub_braced f [] = []"
  by (subst sub_braced.simps) (simp add: braced_at_def)

lemma braced_at_dollar: "braced_at (c # cs) \<noteq> None \<Longrightarrow> c = dollar"
  by (auto simp: braced_at_def split: list.splits if_splits)

lemma sub_braced_plain: "dollar \<notin> set s \<Longrightarrow> sub_braced f s = s"
proof (induction s)
  case (Cons c cs)
  then have "braced_at (c # cs) = None" using braced_at_dollar by fastforce
  with Cons show ?case by (subst sub_braced.simps) simp
qed simp

lemma braced_keys_plain: "dollar \<notin> set s \<Longrightarrow> braced_keys s = []"
proof (induction s)
  case (Cons c cs)
  then have "braced_at (c # cs) = None" using braced_at_dollar by fastforce
  with Cons show ?case by (subst braced_keys.simps) simp
qed (simp add: braced_keys.simps [of "[]"] braced_at_def)

lemma sub_token_plain: "dollar \<notin> set s \<Longrightarrow> sub_token key b v s = s"
  by (induction s) (auto simp: token_at_def)

lemma bare_refs_plain: "dollar \<notin> set s \<Longrightarrow> bare_refs s = []"
  by (induction s) auto

lemma replace_str_absent: "x \<notin> set s \<Longrightarrow> replace_str (x # xs) new s = s"
  by (induction s) auto

text \<open>Phase 1 followed by phase 1: what no brace token matches is left alone.\<close>

lemma braced_at_SomeD:
  assumes "braced_at s = Some (k, r)"
  shows "s = dollar # ''{'' @ k @ ''}'' @ r"
proof -
  obtain rest where s: "s = dollar # CHR ''{'' # rest"
    "k = takeWhile (\<lambda>ch. ch \<noteq> CHR ''}'') rest" "dropWhile (\<lambda>ch. ch \<noteq> CHR ''}'') rest \<noteq> []"
    "r = tl (dropWhile (\<lambda>ch. ch \<noteq> CHR ''}'') rest)"
    using assms by (cases s; cases "tl s") (auto simp: braced_at_def Let_def split: if_splits)
  have "hd (dropWhile (\<lambda>ch. ch \<noteq> CHR ''}'') rest) = CHR ''}''"
    using hd_dropWhile [OF s(3)] by simp
  then have "dropWhile (\<lambda>ch. ch \<noteq> CHR ''}'') rest = CHR ''}'' # r"
    using s(3,4) by (cases "dropWhile (\<lambda>ch. ch \<noteq> CHR ''}'') rest") auto
  then have "rest = k @ CHR ''}'' # r"
    using s(2) takeWhile_dropWhile_id [of "\<lambda>ch. ch \<noteq> CHR ''}''" rest] by simp
  with s(1) show ?thesis by simp
qed

lemma sub_braced_None: "braced_at (c # cs) = None \<Longrightarrow> sub_braced f (c # cs) = c # sub_braced f cs"
  by (subst sub_braced.simps) simp

lemma sub_braced_Some: "braced_at s = Some (k, r) \<Longrightarrow> sub_braced f s = f k @ sub_braced f r"
  by (subst sub_braced.simps) simp

lemma sub_braced_id: "(\<And>k. f k = dollar # ''{'' @ k @ ''}'') \<Longrightarrow> sub_braced f s = s"
proof (induction "length s" arbitrary: s rule: less_induct)
  case less
  show ?case
  proof (cases "braced_at s")
    case None
    show ?thesis
    proof (cases s)
      case (Cons c cs)
      then show ?thesis using None less by (simp add: sub_braced_None)
    qed simp
  next
    case (Some p)
    obtain k r where p: "p = (k, r)" by force
    have "sub_braced f r = r" using less braced_at_shorter Some p by blast
    then show ?thesis
      using sub_braced_Some [of s k r f] braced_at_SomeD [of s k r] less.prems Some p by simp
  qed
qed

definition some_value :: "pyval dict \<Rightarrow> string \<Rightarrow> bool" where
  "some_value snapshot key = (case dict_get snapshot key of None \<Rightarrow> False | Some v \<Rightarrow> v \<noteq> PNone)"

lemma replace_braced_absent: "\<not> some_value snapshot k \<Longrightarrow> replace_braced snapshot k = dollar # ''{'' @ k @ ''}''"
  by (auto simp: replace_braced_def some_value_def split: option.splits)

lemma replace_bare_absent: "\<not> some_value snapshot k \<Longrightarrow> replace_bare snapshot k text = text"
  by (auto simp: replace_bare_def some_value_def split: option.splits)

lemma fold_id: "(\<And>x. x \<in> set xs \<Longrightarrow> f x = id) \<Longrightarrow> fold f xs = id"
  by (induction xs) auto

lemma substitute_without_values:
  assumes "\<And>k. \<not> some_value snapshot k"
  shows "substitute_context text snapshot =
    (if dollar \<notin> set text then text else replace_str [dollar, dollar] [dollar] text)"
proof -
  have "sub_braced (replace_braced snapshot) text = text"
    by (rule sub_braced_id) (rule replace_braced_absent [OF assms])
  moreover have "fold (replace_bare snapshot) (longest_first (dict_keys snapshot)) = id"
    by (rule fold_id) (rule ext, simp add: replace_bare_absent [OF assms])
  ultimately show ?thesis by (simp add: substitute_context_def)
qed

text \<open>A brace token in text without other tokens.\<close>

lemma braced_at_token:
  "k \<noteq> [] \<Longrightarrow> CHR ''}'' \<notin> set k \<Longrightarrow> braced_at (dollar # ''{'' @ k @ ''}'' @ post) = Some (k, post)"
proof -
  assume k: "k \<noteq> []" "CHR ''}'' \<notin> set k"
  then have all: "\<forall>ch \<in> set k. ch \<noteq> CHR ''}''" by auto
  then have "takeWhile (\<lambda>ch. ch \<noteq> CHR ''}'') (k @ CHR ''}'' # post) = k"
    "dropWhile (\<lambda>ch. ch \<noteq> CHR ''}'') (k @ CHR ''}'' # post) = CHR ''}'' # post"
    by (induction k) auto
  with k show ?thesis by (simp add: braced_at_def)
qed

lemma sub_braced_skip:
  "dollar \<notin> set pre \<Longrightarrow> sub_braced f (pre @ s) = pre @ sub_braced f s"
proof (induction pre)
  case (Cons c pre)
  then have "braced_at (c # pre @ s) = None" using braced_at_dollar by fastforce
  with Cons show ?case by (simp add: sub_braced.simps [of f "c # pre @ s"])
qed simp

lemma sub_braced_token:
  assumes "dollar \<notin> set pre" "k \<noteq> []" "CHR ''}'' \<notin> set k"
  shows "sub_braced f (pre @ dollar # ''{'' @ k @ ''}'' @ post) = pre @ f k @ sub_braced f post"
  using assms sub_braced_Some [OF braced_at_token [of k post], of f] by (simp add: sub_braced_skip)

lemma fold_plain:
  "dollar \<notin> set t \<Longrightarrow> fold (replace_bare snapshot) ks t = t"
proof (induction ks)
  case (Cons k ks)
  then have "\<not> occurs_in (dollar # k) t" by (auto simp: occurs_in_iff)
  then have "replace_bare snapshot k t = t" by (auto simp: replace_bare_def split: option.splits)
  with Cons show ?case by simp
qed simp

lemma substitute_braced:
  assumes "dollar \<notin> set pre" "dollar \<notin> set post" "k \<noteq> []" "CHR ''}'' \<notin> set k"
    and "dict_get snapshot k = Some v" "v \<noteq> PNone" "dollar \<notin> set (py_str v)"
  shows "substitute_context (pre @ dollar # ''{'' @ k @ ''}'' @ post) snapshot = pre @ py_str v @ post"
proof -
  have "sub_braced (replace_braced snapshot) (pre @ dollar # ''{'' @ k @ ''}'' @ post) = pre @ py_str v @ post"
    using sub_braced_token [OF assms(1,3,4), of "replace_braced snapshot" post] assms
    by (simp add: replace_braced_def sub_braced_plain)
  moreover have "dollar \<notin> set (pre @ py_str v @ post)" using assms by simp
  ultimately show ?thesis
    by (simp add: substitute_context_def fold_plain replace_str_absent del: append_assoc)
qed

text \<open>A bare token is read by the scan up to the last word character or dot.\<close>

lemma bare_refs_skip: "dollar \<notin> set pre \<Longrightarrow> bare_refs (pre @ s) = bare_refs s"
  by (induction pre) auto

lemma bare_refs_token:
  assumes "k \<noteq> []" "ref_start (hd k)" "list_all ref_char k" "post = [] \<or> \<not> ref_char (hd post)"
  shows "bare_refs (dollar # k @ post) = k # bare_refs post"
proof -
  have "takeWhile ref_char (k @ post) = k" "dropWhile ref_char (k @ post) = post"
    using assms(3,4) by (induction k) (cases post; auto)+
  with assms show ?thesis by simp
qed

end
