(* ===== verification/Handlers.thy ===== *)
theory Handlers
  imports Templates Contracts
begin

text \<open>
  The handlers whose whole behaviour is in the repository and needs no model call: the registry of
  \<open>handlers/__init__.py\<close>, the structural handlers of start, exit and conditional nodes, the fan-in
  handler of \<open>handlers/fan_in.py\<close> and the join policy of \<open>handlers/parallel.py\<close>.

  A branch result is the dictionary \<open>run_branch\<close> builds, as a record.
\<close>

section \<open>The registry\<close>

definition handlers_init :: "string list" where
  "handlers_init =
     [''start'', ''exit'', ''codergen'', ''conditional'', ''tool'', ''wait.human'',
      ''stack.manager_loop'', ''parallel'', ''parallel.fan_in'', ''pipeline'']"

text \<open>The resolved handler type of a node, for the registered types \<open>registered\<close>. The message of
  the two errors is cut at the node's name.\<close>

definition registry_get :: "string list \<Rightarrow> node \<Rightarrow> exc + string" where
  "registry_get registered n =
     (let unregistered = (\<lambda>h. if h \<in> set registered then Inr h
            else Inl (PyError ''ValueError'' False (''Handler '' @ quoted h @ '' for node '' @ quoted (n_id n) @ '' is not registered.'')))
      in if n_type n \<noteq> [] \<and> n_type n \<in> set registered then unregistered (n_type n)
         else
           (case node_attr_get n ''node_type'' of
              PStr s \<Rightarrow>
                (if s \<noteq> [] \<and> s \<in> set registered then unregistered s
                 else (case map_of shape_to_handler (n_shape n) of
                         None \<Rightarrow> Inl (PyError ''ValueError'' False (''Unknown node shape '' @ quoted (n_shape n) @ '' for node '' @ quoted (n_id n)))
                       | Some h \<Rightarrow> unregistered h))
            | _ \<Rightarrow>
                (case map_of shape_to_handler (n_shape n) of
                   None \<Rightarrow> Inl (PyError ''ValueError'' False (''Unknown node shape '' @ quoted (n_shape n) @ '' for node '' @ quoted (n_id n)))
                 | Some h \<Rightarrow> unregistered h)))"

definition register_handler :: "string \<Rightarrow> string list \<Rightarrow> string list" where
  "register_handler handler_type registered =
     (if handler_type \<in> set registered then registered else registered @ [handler_type])"

section \<open>Structural handlers\<close>

definition start_execute :: "node \<Rightarrow> outcome" where
  "start_execute n = (mk_outcome SUCCESS)
     \<lparr>o_notes := Some (''Start node: '' @ n_id n), o_is_explicit := True\<rparr>"

definition exit_execute :: "node \<Rightarrow> outcome" where
  "exit_execute n = (mk_outcome SUCCESS)
     \<lparr>o_notes := Some (''Exit node: '' @ n_id n), o_is_explicit := True\<rparr>"

definition conditional_execute :: "node \<Rightarrow> outcome" where
  "conditional_execute n = (mk_outcome SUCCESS)
     \<lparr>o_notes := Some (''Conditional node: '' @ n_id n), o_is_explicit := True\<rparr>"

section \<open>Branch results\<close>

record branch_result =
  br_node_id :: string
  br_status :: stage_status
  br_notes :: "string option"
  br_failure_reason :: "string option"
  br_context_updates :: "pyval dict option"

definition branch_succeeded :: "branch_result \<Rightarrow> bool" where
  "branch_succeeded r = (br_status r \<in> {SUCCESS, PARTIAL_SUCCESS})"

definition branch_result_val :: "branch_result \<Rightarrow> pyval" where
  "branch_result_val r =
     PDict [(''node_id'', PStr (br_node_id r)),
            (''status'', PStr (status_value (br_status r))),
            (''notes'', (case br_notes r of None \<Rightarrow> PNone | Some s \<Rightarrow> PStr s)),
            (''failure_reason'', (case br_failure_reason r of None \<Rightarrow> PNone | Some s \<Rightarrow> PStr s)),
            (''context_updates'', (case br_context_updates r of None \<Rightarrow> PNone | Some d \<Rightarrow> PDict d))]"

section \<open>The join policy\<close>

definition explicit_note :: "stage_status \<Rightarrow> string \<Rightarrow> outcome" where
  "explicit_note s note = (mk_outcome s)\<lparr>o_notes := Some note, o_is_explicit := True\<rparr>"

definition apply_join_policy :: "branch_result list \<Rightarrow> string \<Rightarrow> outcome" where
  "apply_join_policy results policy =
     (if results = [] then explicit_note SUCCESS ''No branches''
      else
        (let success_count = length (filter branch_succeeded results);
             fail_count = length (filter (\<lambda>r. br_status r = FAIL) results);
             total = length results
         in if policy = ''wait_all'' then
              (if fail_count = 0 then explicit_note SUCCESS (''All '' @ nat_str total @ '' branches succeeded'')
               else explicit_note PARTIAL_SUCCESS
                 (nat_str success_count @ ''/'' @ nat_str total @ '' branches succeeded, '' @ nat_str fail_count @ '' failed''))
            else if policy = ''first_success'' then
              (if success_count > 0 then explicit_note SUCCESS
                 (''At least one branch succeeded ('' @ nat_str success_count @ ''/'' @ nat_str total @ '')'')
               else (mk_outcome FAIL)
                 \<lparr>o_failure_reason := Some (''No branches succeeded out of '' @ nat_str total),
                  o_is_explicit := True\<rparr>)
            else if fail_count = 0 then explicit_note SUCCESS (''All '' @ nat_str total @ '' branches succeeded'')
            else explicit_note PARTIAL_SUCCESS (nat_str success_count @ ''/'' @ nat_str total @ '' branches succeeded'')))"

section \<open>Fan-in\<close>

definition status_rank :: "stage_status \<Rightarrow> nat" where
  "status_rank s =
     (case s of SUCCESS \<Rightarrow> 0 | PARTIAL_SUCCESS \<Rightarrow> 1 | RETRY \<Rightarrow> 2 | SKIPPED \<Rightarrow> 3 | FAIL \<Rightarrow> 4)"

text \<open>The head of the stable sort by rank and then node id.\<close>

definition candidate_key :: "branch_result \<Rightarrow> nat \<times> string" where
  "candidate_key r = (status_rank (br_status r), br_node_id r)"

definition heuristic_select :: "branch_result list \<Rightarrow> branch_result option" where
  "heuristic_select candidates =
     (case sort_key candidate_key candidates of [] \<Rightarrow> None | r # rs \<Rightarrow> Some r)"

text \<open>\<open>evaluate\<close> is the optional model-backed choice (M-17): the node id the backend names, or
  \<^const>\<open>None\<close> when there is no backend or it raised.\<close>

definition fan_in_choice ::
    "(string \<Rightarrow> branch_result list \<Rightarrow> string option) option \<Rightarrow> node \<Rightarrow> branch_result list
     \<Rightarrow> branch_result option" where
  "fan_in_choice evaluate n results =
     (case (case evaluate of
              None \<Rightarrow> None
            | Some ev \<Rightarrow> (if n_prompt n \<noteq> [] then ev (n_prompt n) results else None)) of
        None \<Rightarrow> heuristic_select results
      | Some best_id \<Rightarrow>
          (case find (\<lambda>r. br_node_id r = best_id) results of
             Some r \<Rightarrow> Some r
           | None \<Rightarrow> heuristic_select results))"

definition fan_in_keys :: "branch_result \<Rightarrow> pyval dict" where
  "fan_in_keys best =
     [(''parallel.fan_in.best_id'', PStr (br_node_id best)),
      (''parallel.fan_in.best_status'', PStr (status_value (br_status best))),
      (''parallel.fan_in.best_outcome'', PStr (status_value (br_status best)))]"

definition fan_in_execute ::
    "(string \<Rightarrow> branch_result list \<Rightarrow> string option) option \<Rightarrow> node \<Rightarrow> branch_result list \<Rightarrow> ctx
     \<Rightarrow> outcome \<times> ctx" where
  "fan_in_execute evaluate n results c =
     (case fan_in_choice evaluate n results of
        None \<Rightarrow> ((mk_outcome FAIL)\<lparr>o_failure_reason := Some ''No parallel results to evaluate''\<rparr>, c)
      | Some best \<Rightarrow>
          (let c' = foldl (\<lambda>acc (k, v). ctx_set k v acc) c (fan_in_keys best)
           in if br_status best = FAIL then
                ((mk_outcome FAIL)
                   \<lparr>o_is_explicit := True,
                    o_failure_reason := Some (''All candidates failed. Best: '' @ br_node_id best),
                    o_notes := br_notes best\<rparr>, c')
              else
                ((mk_outcome SUCCESS)
                   \<lparr>o_is_explicit := True,
                    o_notes := Some (''Selected best candidate: '' @ br_node_id best @ '' ('' @ status_value (br_status best) @ '')''),
                    o_context_updates := Some (fan_in_keys best)\<rparr>, c')))"

text \<open>\<open>execute\<close> reads the results from the context. What the parallel handler did not write there
  (an entry that is no such record) is left out.\<close>

definition branch_result_of :: "pyval \<Rightarrow> branch_result option" where
  "branch_result_of v =
     (case v of
        PDict d \<Rightarrow>
          (case (raw_get d ''node_id'' PNone, raw_get d ''status'' PNone) of
             (PStr i, PStr s) \<Rightarrow>
               map_option (\<lambda>st. \<lparr>br_node_id = i, br_status = st,
                   br_notes = opt_str_of (raw_get d ''notes'' PNone),
                   br_failure_reason = opt_str_of (raw_get d ''failure_reason'' PNone),
                   br_context_updates = opt_dict_of (raw_get d ''context_updates'' PNone)\<rparr>)
                 (status_of_value s)
           | _ \<Rightarrow> None)
      | _ \<Rightarrow> None)"

definition results_of :: "pyval \<Rightarrow> branch_result list" where
  "results_of v = (case v of PList vs \<Rightarrow> List.map_filter branch_result_of vs | _ \<Rightarrow> [])"

definition fan_in_handler ::
    "(string \<Rightarrow> branch_result list \<Rightarrow> string option) option \<Rightarrow> node \<Rightarrow> ctx \<Rightarrow> outcome \<times> ctx" where
  "fan_in_handler evaluate n c = fan_in_execute evaluate n (results_of (ctx_get c ''parallel.results'')) c"

section \<open>Lemmas\<close>

lemma branch_result_of_val: "branch_result_of (branch_result_val r) = Some r"
  by (cases r; cases "br_notes r"; cases "br_failure_reason r"; cases "br_context_updates r")
    (simp_all add: branch_result_of_def branch_result_val_def raw_get_def opt_str_of_def opt_dict_of_def)

lemma results_of_stored: "results_of (PList (map branch_result_val rs)) = rs"
  by (induction rs) (simp_all add: results_of_def List.map_filter_simps branch_result_of_val)

lemma heuristic_select_None: "heuristic_select rs = None \<longleftrightarrow> rs = []"
  by (auto simp: heuristic_select_def split: list.splits)
    (metis length_0_conv length_sort)

lemma heuristic_select_best:
  assumes "heuristic_select rs = Some r"
  shows "r \<in> set rs \<and> (\<forall>r' \<in> set rs. candidate_key r \<le> candidate_key r')"
proof -
  obtain rest where s: "sort_key candidate_key rs = r # rest"
    using assms by (auto simp: heuristic_select_def split: list.splits)
  then have sub: "set rs = set (r # rest)" by (metis set_sort)
  have "sorted (map candidate_key (r # rest))" by (metis s sorted_sort_key)
  then have "\<forall>x \<in> set rest. candidate_key r \<le> candidate_key x" by auto
  with sub show ?thesis by auto
qed

lemma join_explicit: "o_is_explicit (apply_join_policy rs p)"
  by (simp add: apply_join_policy_def explicit_note_def Let_def)

text \<open>Only \<open>first_success\<close> can fail.\<close>

lemma join_fails_iff:
  "o_status (apply_join_policy rs p) = FAIL \<longleftrightarrow>
   p = ''first_success'' \<and> rs \<noteq> [] \<and> (\<forall>r \<in> set rs. \<not> branch_succeeded r)"
proof -
  have "length (filter branch_succeeded rs) = 0 \<longleftrightarrow> (\<forall>r \<in> set rs. \<not> branch_succeeded r)"
    by (auto simp: filter_empty_conv)
  moreover have "''wait_all'' \<noteq> ''first_success''" by simp
  ultimately show ?thesis
    unfolding apply_join_policy_def explicit_note_def Let_def by (auto split: if_split)
qed

end
