(* ===== verification/Engine.thy ===== *)
theory Engine
  imports Routing Retry Fidelity Checkpoints Handlers
begin

text \<open>
  The state of \<open>PipelineEngine\<close> (\<open>engine.py\<close>) and the operations its loop is made of: the events,
  the context initialisation, goal gates, checkpoints, per-node records, skip propagation, fan-in
  discovery and the terminations. The loop itself is in \<open>Engine_Loop\<close>.

  \<open>eenv\<close> is the environment of an engine: the retry environment, and the clocks, the cancel event,
  the bounded await, the writes of the run directory, the provenance and the iteration order of
  Python sets. Writes of the run directory are taken to succeed, and durations are not recorded.
\<close>

section \<open>Environment and state\<close>

record 'w eenv =
  x_env :: "'w env"
  x_logs_root :: string
  x_sha :: "string \<Rightarrow> string"
  x_registered :: "string list"
  x_elapsed_ms :: "'w \<Rightarrow> rat \<times> 'w"
  x_cancelled :: "'w \<Rightarrow> bool \<times> 'w"
  x_bounded :: "rat \<Rightarrow> node \<Rightarrow> 'w rstate \<Rightarrow> 'w rstate option"
  x_now :: "'w \<Rightarrow> string \<times> 'w"
  x_write_json :: "string \<Rightarrow> pyval \<Rightarrow> 'w \<Rightarrow> 'w"
  x_write_text :: "string \<Rightarrow> string \<Rightarrow> 'w \<Rightarrow> 'w"
  x_makedirs :: "string \<Rightarrow> 'w \<Rightarrow> 'w"
  x_provenance :: "string \<times> string"
  x_set_order :: "string list \<Rightarrow> string list"
  x_branch_clone :: bool

text \<open>One line of \<open>trace.jsonl\<close>.\<close>

record trace_record =
  t_iteration :: int
  t_node_id :: string
  t_status :: stage_status
  t_preferred_label :: "string option"
  t_is_explicit :: bool

record 'w engine =
  s_run :: "'w rstate"
  s_outcomes :: "outcome dict"
  s_completed :: "string list"
  s_iteration :: int
  s_counts :: "int dict"
  s_failed :: "string dict"
  s_armed :: bool
  s_last :: "checkpoint option"
  s_trace :: "trace_record list"

text \<open>The three counters \<open>_run_loop\<close> keeps in local variables.\<close>

record counters =
  k_goal_gate_retries :: int
  k_failure_routing_retries :: int
  k_steps :: int

definition no_counters :: counters where
  "no_counters = \<lparr>k_goal_gate_retries = 0, k_failure_routing_retries = 0, k_steps = 0\<rparr>"

definition max_goal_gate_retries :: int where
  "max_goal_gate_retries = 50"

definition max_steps :: "graph \<Rightarrow> int" where
  "max_steps g = int (length (g_nodes g)) * max_goal_gate_retries"

definition engine_init :: "ctx \<Rightarrow> 'w \<Rightarrow> event list \<Rightarrow> 'w engine" where
  "engine_init c w evs =
     \<lparr>s_run = \<lparr>r_ctx = c, r_world = w, r_events = evs\<rparr>, s_outcomes = [], s_completed = [],
      s_iteration = 0, s_counts = [], s_failed = [], s_armed = False, s_last = None, s_trace = []\<rparr>"

abbreviation s_ctx :: "'w engine \<Rightarrow> ctx" where
  "s_ctx S \<equiv> r_ctx (s_run S)"

abbreviation s_world :: "'w engine \<Rightarrow> 'w" where
  "s_world S \<equiv> r_world (s_run S)"

abbreviation s_events :: "'w engine \<Rightarrow> event list" where
  "s_events S \<equiv> r_events (s_run S)"

definition on_ctx :: "(ctx \<Rightarrow> ctx) \<Rightarrow> 'w engine \<Rightarrow> 'w engine" where
  "on_ctx f S = S\<lparr>s_run := (s_run S)\<lparr>r_ctx := f (s_ctx S)\<rparr>\<rparr>"

definition on_world :: "('w \<Rightarrow> 'w) \<Rightarrow> 'w engine \<Rightarrow> 'w engine" where
  "on_world f S = S\<lparr>s_run := (s_run S)\<lparr>r_world := f (s_world S)\<rparr>\<rparr>"

text \<open>\<open>_emit\<close>, and reading a clock or the cancel event.\<close>

definition emit :: "'w eenv \<Rightarrow> event \<Rightarrow> 'w engine \<Rightarrow> 'w engine" where
  "emit X ev S = S\<lparr>s_run := r_emit (x_env X) ev (s_run S)\<rparr>"

definition read_world :: "('w \<Rightarrow> 'a \<times> 'w) \<Rightarrow> 'w engine \<Rightarrow> 'a \<times> 'w engine" where
  "read_world f S = (fst (f (s_world S)), on_world (\<lambda>w. snd (f w)) S)"

definition tick :: "('w \<Rightarrow> 'a \<times> 'w) \<Rightarrow> 'w engine \<Rightarrow> 'w engine" where
  "tick f S = snd (read_world f S)"

definition emit_complete :: "'w eenv \<Rightarrow> outcome \<Rightarrow> 'w engine \<Rightarrow> 'w engine" where
  "emit_complete X out S =
     emit X (PIPELINE_COMPLETE (status_value (o_status out)) (length (s_completed S)))
       (tick (x_elapsed_ms X) S)"

section \<open>Initialisation\<close>

definition initialize_context :: "graph \<Rightarrow> string option \<Rightarrow> int \<Rightarrow> ctx \<Rightarrow> ctx" where
  "initialize_context g goal iteration c =
     (let effective_goal = (if str_true goal then the goal else g_goal g);
          c1 = (if effective_goal \<noteq> [] then ctx_set ''graph.goal'' (PStr effective_goal) c else c);
          c2 = foldl (\<lambda>acc (k, v). ctx_set (''graph.'' @ k) v acc) c1 (g_raw g)
      in ctx_set ''loop_count'' (PStr (int_str iteration))
           (ctx_set ''iteration'' (PStr (int_str iteration)) c2))"

text \<open>\<^const>\<open>None\<close> is the \<open>ValueError\<close> of a graph without a start node.\<close>

definition find_start_node :: "graph \<Rightarrow> node option" where
  "find_start_node g =
     (let ns = map snd (g_nodes g) in
      case find (\<lambda>n. n_shape n = ''Mdiamond'') ns of
        Some n \<Rightarrow> Some n
      | None \<Rightarrow>
          (case find (\<lambda>n. n_type n = ''start'') ns of
             Some n \<Rightarrow> Some n
           | None \<Rightarrow> find (\<lambda>n. py_lower (n_id n) = ''start'') ns))"

definition manifest_goal :: "graph \<Rightarrow> string option \<Rightarrow> string" where
  "manifest_goal g goal =
     (if g_goal g \<noteq> [] then g_goal g else case goal of None \<Rightarrow> [] | Some s \<Rightarrow> s)"

definition write_manifest :: "'w eenv \<Rightarrow> graph \<Rightarrow> string option \<Rightarrow> 'w engine \<Rightarrow> 'w engine" where
  "write_manifest X g goal S =
     (let S0 = on_world (x_makedirs X (os_path_join (x_logs_root X) ''artifacts''))
            (on_world (x_makedirs X (x_logs_root X)) S);
          (now, S1) = read_world (x_now X) S0;
          S2 = on_world (x_write_json X (os_path_join (x_logs_root X) ''manifest.json'')
            (PDict [(''graph_name'', PStr (g_name g)),
                    (''goal'', PStr (manifest_goal g goal)),
                    (''start_time'', PStr now),
                    (''node_count'', PInt (int (length (g_nodes g)))),
                    (''edge_count'', PInt (int (length (g_edges g)))),
                    (''engine_version'', PStr (fst (x_provenance X))),
                    (''engine_commit'', PStr (snd (x_provenance X)))])) S1
      in if g_dot_source g \<noteq> []
         then on_world (x_write_text X (os_path_join (x_logs_root X) ''graph.dot'') (g_dot_source g)) S2
         else S2)"

section \<open>Goal gates\<close>

text \<open>\<open>a or b\<close> of Python.\<close>

definition py_or :: "pyval \<Rightarrow> pyval \<Rightarrow> pyval" where
  "py_or a b = (if py_true a then a else b)"

definition is_goal_gate :: "graph \<Rightarrow> string \<Rightarrow> bool" where
  "is_goal_gate g node_id =
     (case dict_get (g_nodes g) node_id of
        None \<Rightarrow> False
      | Some n \<Rightarrow> resolve_bool_attr (node_attr_get n ''goal_gate''))"

definition gate_satisfied :: "outcome \<Rightarrow> bool" where
  "gate_satisfied out = (is_success out \<and> o_is_explicit out)"

definition satisfied_gates :: "graph \<Rightarrow> 'w engine \<Rightarrow> string list" where
  "satisfied_gates g S =
     dict_keys (filter (\<lambda>(i, out). is_goal_gate g i \<and> gate_satisfied out) (s_outcomes S))"

definition unsatisfied_gates :: "graph \<Rightarrow> 'w engine \<Rightarrow> string list" where
  "unsatisfied_gates g S =
     dict_keys (filter (\<lambda>(i, out). is_goal_gate g i \<and> \<not> gate_satisfied out) (s_outcomes S))"

definition final_outcome :: "'w engine \<Rightarrow> outcome" where
  "final_outcome S =
     (let done = (mk_outcome SUCCESS)\<lparr>o_notes := Some ''Pipeline completed''\<rparr> in
      if s_completed S = [] then done
      else (case dict_get (s_outcomes S) (last (s_completed S)) of None \<Rightarrow> done | Some out \<Rightarrow> out))"

definition goal_gate_retry_target :: "graph \<Rightarrow> string \<Rightarrow> pyval" where
  "goal_gate_retry_target g gate_id =
     (let of_graph = py_or (graph_attr_get g ''retry_target'') (graph_attr_get g ''fallback_retry_target'') in
      case dict_get (g_nodes g) gate_id of
        None \<Rightarrow> of_graph
      | Some n \<Rightarrow> py_or (node_attr_get n ''retry_target'')
                    (py_or (node_attr_get n ''fallback_retry_target'') of_graph))"

text \<open>\<open>v and v in graph.nodes\<close>; an attribute value is never a list or a dictionary.\<close>

definition names_node :: "graph \<Rightarrow> pyval \<Rightarrow> bool" where
  "names_node g v = (case v of PStr s \<Rightarrow> s \<noteq> [] \<and> dict_has (g_nodes g) s | _ \<Rightarrow> False)"

definition gate_verdict :: "graph \<Rightarrow> 'w engine \<Rightarrow> outcome" where
  "gate_verdict g S =
     (case unsatisfied_gates g S of
        [] \<Rightarrow> final_outcome S
      | gate # rest \<Rightarrow>
          (let reason = ''Unsatisfied goal gates: '' @ repr_strs (gate # rest);
               target = goal_gate_retry_target g gate
           in if names_node g target
              then (mk_outcome FAIL)\<lparr>o_failure_reason := Some reason, o_suggested_next_ids := Some [target]\<rparr>
              else (mk_outcome FAIL)\<lparr>o_failure_reason := Some reason\<rparr>))"

definition check_goal_gates :: "'w eenv \<Rightarrow> graph \<Rightarrow> 'w engine \<Rightarrow> outcome \<times> 'w engine" where
  "check_goal_gates X g S =
     (gate_verdict g S, emit X (PIPELINE_GOAL_GATE_CHECK (satisfied_gates g S) (unsatisfied_gates g S)) S)"

section \<open>Checkpoints\<close>

definition graph_identity :: "(string \<Rightarrow> string) \<Rightarrow> graph \<Rightarrow> pyval dict" where
  "graph_identity sha g =
     [(''fingerprint'', PStr (fingerprint_dot_source sha (g_dot_source g))),
      (''dot_source'', PStr (g_dot_source g))]
     @ (if g_source_dir g \<noteq> [] then [(''source_dir'', PStr (g_source_dir g))] else [])"

definition serialize_node_outcomes :: "outcome dict \<Rightarrow> pyval dict" where
  "serialize_node_outcomes outs = map (\<lambda>(i, out). (i, outcome_record out)) outs"

definition serialize_node_retries :: "outcome dict \<Rightarrow> pyval dict" where
  "serialize_node_retries outs = map (\<lambda>(i, out). (i, PInt (retries_consumed out))) outs"

definition engine_state_block :: "counters \<Rightarrow> 'w engine \<Rightarrow> pyval dict" where
  "engine_state_block k S =
     [(''iteration_count'', PInt (s_iteration S)),
      (''node_execution_counts'', PDict (map (\<lambda>(i, c). (i, PInt c)) (s_counts S))),
      (''goal_gate_retries'', PInt (k_goal_gate_retries k)),
      (''failure_routing_retries'', PInt (k_failure_routing_retries k)),
      (''steps'', PInt (k_steps k))]"

definition checkpoint_of :: "'w eenv \<Rightarrow> graph \<Rightarrow> string \<Rightarrow> counters \<Rightarrow> string \<Rightarrow> 'w engine \<Rightarrow> checkpoint" where
  "checkpoint_of X g node_id k now S =
     \<lparr>cp_current_node = PStr node_id,
      cp_completed_nodes = map PStr (s_completed S),
      cp_context = PDict (ctx_snapshot (s_ctx S)),
      cp_timestamp = PStr now,
      cp_node_retries = PDict (serialize_node_retries (s_outcomes S)),
      cp_logs = PList (map PStr (ctx_get_logs (s_ctx S))),
      cp_schema_version = schema_version,
      cp_run_state = PStr run_state_in_flight,
      cp_node_outcomes = PDict (serialize_node_outcomes (s_outcomes S)),
      cp_engine_state = PDict (engine_state_block k S),
      cp_graph = graph_identity (x_sha X) g\<rparr>"

definition checkpoint_path :: "'w eenv \<Rightarrow> string" where
  "checkpoint_path X = os_path_join (x_logs_root X) ''checkpoint.json''"

text \<open>\<open>checkpoint.save_checkpoint\<close> and the copy retained in memory.\<close>

definition write_checkpoint :: "'w eenv \<Rightarrow> checkpoint \<Rightarrow> 'w engine \<Rightarrow> 'w engine" where
  "write_checkpoint X cp S =
     (on_world (x_write_json X (checkpoint_path X) (checkpoint_json cp)) S)\<lparr>s_last := Some cp\<rparr>"

definition save_checkpoint :: "'w eenv \<Rightarrow> graph \<Rightarrow> string \<Rightarrow> counters \<Rightarrow> 'w engine \<Rightarrow> 'w engine" where
  "save_checkpoint X g node_id k S =
     (if x_branch_clone X then S
      else (let (now, S1) = read_world (x_now X) (on_world (x_makedirs X (x_logs_root X)) S)
            in write_checkpoint X (checkpoint_of X g node_id k now S1) S1))"

definition checkpoint_and_emit :: "'w eenv \<Rightarrow> graph \<Rightarrow> string \<Rightarrow> counters \<Rightarrow> 'w engine \<Rightarrow> 'w engine" where
  "checkpoint_and_emit X g node_id k S =
     emit X (PIPELINE_CHECKPOINT node_id) (save_checkpoint X g node_id k S)"

definition mark_run_completed :: "'w eenv \<Rightarrow> 'w engine \<Rightarrow> 'w engine" where
  "mark_run_completed X S =
     (if x_branch_clone X then S
      else (case s_last S of
              None \<Rightarrow> S
            | Some cp \<Rightarrow> write_checkpoint X (cp\<lparr>cp_run_state := PStr run_state_completed\<rparr>) S))"

section \<open>Per-node records\<close>

definition opt_dict_val :: "pyval dict option \<Rightarrow> pyval" where
  "opt_dict_val x = (case x of None \<Rightarrow> PNone | Some d \<Rightarrow> PDict d)"

definition opt_val :: "pyval option \<Rightarrow> pyval" where
  "opt_val x = (case x of None \<Rightarrow> PNone | Some v \<Rightarrow> v)"

definition node_status_json :: "int \<Rightarrow> string \<Rightarrow> outcome \<Rightarrow> pyval" where
  "node_status_json iteration node_id out =
     PDict [(''node_id'', PStr node_id),
            (''iteration'', PInt iteration),
            (''outcome'', PStr (status_value (o_status out))),
            (''status'', PStr (status_value (o_status out))),
            (''preferred_next_label'', opt_str_val (o_preferred_label out)),
            (''preferred_label'', opt_str_val (o_preferred_label out)),
            (''suggested_next_ids'', opt_list_val (o_suggested_next_ids out)),
            (''context_updates'', opt_dict_val (o_context_updates out)),
            (''notes'', opt_str_val (o_notes out)),
            (''failure_reason'', opt_str_val (o_failure_reason out)),
            (''session_id'', opt_str_val (o_session_id out)),
            (''is_explicit'', PBool (o_is_explicit out)),
            (''failed_step'', opt_val (o_failed_step out))]"

definition write_node_status :: "'w eenv \<Rightarrow> string \<Rightarrow> outcome \<Rightarrow> 'w engine \<Rightarrow> 'w engine" where
  "write_node_status X node_id out S =
     (let status = node_status_json (s_iteration S) node_id out;
          node_dir = os_path_join (x_logs_root X) node_id;
          iteration_dir = os_path_join (os_path_join (x_logs_root X)
                     (''iteration_'' @ int_str (s_iteration S))) node_id;
          write = (\<lambda>dir w. x_write_json X (os_path_join dir ''status.json'') status (x_makedirs X dir w));
          S1 = on_world (write iteration_dir) (on_world (write node_dir) S)
      in (tick (x_now X) S1)
           \<lparr>s_trace := s_trace S @
              [\<lparr>t_iteration = s_iteration S, t_node_id = node_id, t_status = o_status out,
                t_preferred_label = o_preferred_label out, t_is_explicit = o_is_explicit out\<rparr>]\<rparr>)"

section \<open>Skip propagation and the output contract\<close>

text \<open>\<open>_extract_node_refs\<close>; the set is a list without repetition.\<close>

definition attr_text :: "node \<Rightarrow> string \<Rightarrow> string" where
  "attr_text n attr_name =
     (let v = py_or (if attr_name = ''prompt'' \<and> n_prompt n \<noteq> [] then PStr (n_prompt n)
                     else node_attr_get_d n attr_name (PStr [])) (PStr [])
      in if py_true v then py_str v else [])"

definition extract_node_refs :: "node \<Rightarrow> string list" where
  "extract_node_refs n = remdups (concat (map (\<lambda>a. extract_refs (attr_text n a)) substitutable_attrs))"

definition failed_refs :: "'w eenv \<Rightarrow> node \<Rightarrow> 'w engine \<Rightarrow> (string \<times> string) list" where
  "failed_refs X n S =
     concat (map (\<lambda>key. case dict_get (s_failed S) key of None \<Rightarrow> [] | Some producer \<Rightarrow> [(key, producer)])
       (x_set_order X (extract_node_refs n)))"

definition skip_outcome :: "node \<Rightarrow> string list \<Rightarrow> outcome" where
  "skip_outcome n missing_keys =
     (mk_outcome SKIPPED)
       \<lparr>o_notes := Some (''Node '' @ quoted (n_id n) @ '' skipped: predecessor(s) failed for keys ''
                        @ repr_strs missing_keys),
        o_failure_reason := Some ''predecessor_failed''\<rparr>"

definition check_node_skip :: "'w eenv \<Rightarrow> node \<Rightarrow> 'w engine \<Rightarrow> outcome option \<times> 'w engine" where
  "check_node_skip X n S =
     (case failed_refs X n S of
        [] \<Rightarrow> (None, S)
      | r # rs \<Rightarrow> (Some (skip_outcome n (map fst (r # rs))),
                    emit X (PIPELINE_NODE_SKIPPED (n_id n) (r # rs)) S))"

definition node_outputs :: "graph \<Rightarrow> string \<Rightarrow> string list" where
  "node_outputs g node_id = (case map_of (build_output_table g) node_id of None \<Rightarrow> [] | Some ks \<Rightarrow> ks)"

definition mark_failed :: "string \<Rightarrow> string list \<Rightarrow> string dict \<Rightarrow> string dict" where
  "mark_failed node_id keys failed =
     foldl (\<lambda>acc key. if dict_has acc key then acc else dict_set key node_id acc) failed keys"

definition populate_failed_outputs :: "graph \<Rightarrow> string \<Rightarrow> 'w engine \<Rightarrow> 'w engine" where
  "populate_failed_outputs g node_id S =
     S\<lparr>s_failed := mark_failed node_id (node_outputs g node_id) (s_failed S)\<rparr>"

definition check_contract_violation ::
    "'w eenv \<Rightarrow> graph \<Rightarrow> string \<Rightarrow> outcome \<Rightarrow> 'w engine \<Rightarrow> 'w engine" where
  "check_contract_violation X g node_id out S =
     (if (case dict_get (g_nodes g) node_id of None \<Rightarrow> False | Some n \<Rightarrow> n_shape n = ''component'') then S
      else
        (let declared = node_outputs g node_id;
             emitted = (case o_context_updates out of None \<Rightarrow> [] | Some d \<Rightarrow> dict_keys d);
             missing = filter (\<lambda>key. key \<notin> set emitted) declared
         in if declared = [] then S
            else if missing = [] then S
            else emit X (PIPELINE_NODE_CONTRACT_VIOLATION node_id (sort (remdups declared))
                   (sort (remdups emitted)) (sort (remdups missing))) S))"

text \<open>\<open>_resolve_missing_as_empty\<close>, kept by the source though nothing calls it.\<close>

definition resolve_missing_as_empty :: "'w eenv \<Rightarrow> node \<Rightarrow> ctx \<Rightarrow> ctx" where
  "resolve_missing_as_empty X n c =
     foldl (\<lambda>acc key. if ctx_get acc key = PNone then ctx_set key (PStr []) acc else acc) c
       (x_set_order X (extract_node_refs n))"

section \<open>Fan-in discovery\<close>

text \<open>
  One breadth-first search: the queue of pairs of node id and depth, and the visited dictionary.
  The search ends because a popped entry is dropped or marks a new node id, and the ids that can
  ever be marked are those of the queue and the targets of the edges.
\<close>

definition bfs_ids :: "graph \<Rightarrow> (string \<times> nat) list \<Rightarrow> nat dict \<Rightarrow> string set" where
  "bfs_ids g queue visited = (fst ` set queue \<union> to_node ` set (g_edges g)) - set (dict_keys visited)"

definition bfs_children :: "graph \<Rightarrow> string \<Rightarrow> nat \<Rightarrow> nat dict \<Rightarrow> (string \<times> nat) list" where
  "bfs_children g node_id depth visited =
     map (\<lambda>e. (to_node e, depth + 1))
       (filter (\<lambda>e. \<not> dict_has visited (to_node e)) (outgoing_edges g node_id))"

lemma bfs_ids_finite [simp]: "finite (bfs_ids g queue visited)"
  by (simp add: bfs_ids_def)

lemma bfs_children_ids: "fst ` set (bfs_children g i d v) \<subseteq> to_node ` set (g_edges g)"
  by (auto simp: bfs_children_def outgoing_edges_def)

function bfs :: "graph \<Rightarrow> (string \<times> nat) list \<Rightarrow> nat dict \<Rightarrow> nat dict" where
  "bfs g [] visited = visited"
| "bfs g ((node_id, depth) # queue) visited =
     (if dict_has visited node_id then bfs g queue visited
      else (let visited' = visited @ [(node_id, depth)]
            in bfs g (queue @ bfs_children g node_id depth visited') visited'))"
  by pat_completeness auto

termination
proof (relation "measures [\<lambda>(g, queue, visited). card (bfs_ids g queue visited), \<lambda>(g, queue, visited). length queue]")
  fix g :: graph and node_id :: string and depth :: nat and queue :: "(string \<times> nat) list"
    and visited :: "nat dict"
  assume "dict_has visited node_id"
  then have "bfs_ids g queue visited = bfs_ids g ((node_id, depth) # queue) visited"
    by (auto simp: bfs_ids_def dict_has_def)
  then show "((g, queue, visited), g, (node_id, depth) # queue, visited)
      \<in> measures [\<lambda>(g, queue, visited). card (bfs_ids g queue visited), \<lambda>(g, queue, visited). length queue]"
    by simp
next
  fix g :: graph and node_id :: string and depth :: nat and queue :: "(string \<times> nat) list"
    and visited visited' :: "nat dict"
  assume new: "\<not> dict_has visited node_id" and v': "visited' = visited @ [(node_id, depth)]"
  let ?q = "queue @ bfs_children g node_id depth visited'"
  have "bfs_ids g ?q visited' \<subseteq> bfs_ids g ((node_id, depth) # queue) visited - {node_id}"
    using bfs_children_ids [of g node_id depth visited'] by (auto simp: bfs_ids_def v')
  moreover have "node_id \<in> bfs_ids g ((node_id, depth) # queue) visited"
    using new by (simp add: bfs_ids_def dict_has_def)
  ultimately have "card (bfs_ids g ?q visited') < card (bfs_ids g ((node_id, depth) # queue) visited)"
    by (intro psubset_card_mono) auto
  then show "((g, ?q, visited'), g, (node_id, depth) # queue, visited)
      \<in> measures [\<lambda>(g, queue, visited). card (bfs_ids g queue visited), \<lambda>(g, queue, visited). length queue]"
    by simp
qed simp

text \<open>\<open>min(common, key=...)\<close> over the iteration order of the set: the first of the least depth.\<close>

definition max_depth :: "nat dict list \<Rightarrow> string \<Rightarrow> nat" where
  "max_depth reach i = Max (set (map (\<lambda>r. case dict_get r i of None \<Rightarrow> 0 | Some d \<Rightarrow> d) reach))"

fun first_min :: "('a \<Rightarrow> nat) \<Rightarrow> 'a list \<Rightarrow> 'a option" where
  "first_min f [] = None"
| "first_min f (x # xs) =
     (case first_min f xs of None \<Rightarrow> Some x | Some y \<Rightarrow> if f x \<le> f y then Some x else Some y)"

definition common_nodes :: "nat dict list \<Rightarrow> string list \<Rightarrow> string list" where
  "common_nodes reach roots =
     (case reach of
        [] \<Rightarrow> []
      | r # rs \<Rightarrow> filter (\<lambda>i. list_all (\<lambda>other. dict_has other i) rs \<and> i \<notin> set roots) (dict_keys r))"

definition find_fan_in_node :: "'w eenv \<Rightarrow> graph \<Rightarrow> string list \<Rightarrow> string option" where
  "find_fan_in_node X g roots =
     (if roots = [] then None
      else (let reach = map (\<lambda>root. bfs g [(root, 0)] []) roots;
                common = common_nodes reach roots
            in if common = [] then None else first_min (max_depth reach) (x_set_order X common)))"

section \<open>Terminations\<close>

definition resolve_failure_retry_target :: "graph \<Rightarrow> node \<Rightarrow> node option" where
  "resolve_failure_retry_target g n =
     (case py_or (node_attr_get n ''retry_target'') (node_attr_get n ''fallback_retry_target'') of
        PStr s \<Rightarrow> (if s \<noteq> [] then dict_get (g_nodes g) s else None)
      | _ \<Rightarrow> None)"

definition terminate_pipeline :: "outcome option \<Rightarrow> string \<Rightarrow> outcome" where
  "terminate_pipeline upstream reason =
     (let upstream_reason = (case upstream of None \<Rightarrow> None | Some x \<Rightarrow> o_failure_reason x)
      in (mk_outcome FAIL)
           \<lparr>o_failure_reason := (if str_true upstream_reason then upstream_reason else Some reason),
            o_notes := (if str_true upstream_reason then Some reason else None)\<rparr>)"

definition no_matching_edge_reason :: "graph \<Rightarrow> string \<Rightarrow> outcome \<Rightarrow> string" where
  "no_matching_edge_reason g node_id out =
     (let reason = ''No matching edge from node '' @ quoted node_id in
      case o_suggested_next_ids out of
        None \<Rightarrow> reason
      | Some ids \<Rightarrow>
          (if ids = [] then reason
           else reason @ '' (suggested_next_ids='' @ py_repr (PList ids)
             @ '' matched none of the outgoing edges; available targets=''
             @ repr_strs (map to_node (outgoing_edges g node_id)) @ '')''))"

definition duration_outcome :: "graph \<Rightarrow> outcome" where
  "duration_outcome g =
     (mk_outcome FAIL)
       \<lparr>o_notes := Some (''Pipeline exceeded max duration of '' @ py_str (g_max_pipeline_duration g) @ ''ms''),
        o_failure_reason := Some ''max_pipeline_duration_exceeded''\<rparr>"

definition terminate_child_dot_resolution ::
    "'w eenv \<Rightarrow> string \<Rightarrow> string \<Rightarrow> int \<Rightarrow> 'w engine \<Rightarrow> outcome \<times> 'w engine" where
  "terminate_child_dot_resolution X node_id msg execution_index S =
     (let out = (mk_outcome FAIL)\<lparr>o_notes := Some msg, o_failure_reason := Some msg\<rparr>;
          S1 = tick (x_elapsed_ms X) S;
          S2 = write_node_status X node_id out (S1\<lparr>s_outcomes := dict_set node_id out (s_outcomes S1)\<rparr>);
          S3 = emit X (PIPELINE_NODE_COMPLETE node_id (status_value FAIL) (Some msg) (Some msg)
                 (Some execution_index) None None None) S2;
          S4 = emit X (PIPELINE_ERROR node_id ''child_dot_resolution'' msg) S3
      in (out, emit_complete X out S4))"

definition terminate_fuse_mid_node ::
    "'w eenv \<Rightarrow> graph \<Rightarrow> string \<Rightarrow> int \<Rightarrow> 'w engine \<Rightarrow> outcome \<times> 'w engine" where
  "terminate_fuse_mid_node X g node_id execution_index S =
     (let note = ''Node '' @ quoted node_id @ '' interrupted: pipeline exceeded max duration of ''
                 @ py_str (g_max_pipeline_duration g) @ ''ms while this node was still executing'';
          interrupted = (mk_outcome FAIL)
            \<lparr>o_notes := Some note, o_failure_reason := Some ''max_pipeline_duration_exceeded''\<rparr>;
          S1 = write_node_status X node_id interrupted S;
          S2 = emit X (PIPELINE_NODE_COMPLETE node_id ''fuse_exceeded'' (Some note)
                 (Some ''max_pipeline_duration_exceeded'') (Some execution_index) None None None) S1
      in (duration_outcome g, emit_complete X (duration_outcome g) S2))"

end
