(* ===== verification/Engine_Loop.thy ===== *)
theory Engine_Loop
  imports Engine
begin

text \<open>
  \<open>PipelineEngine._run_loop\<close> and \<open>run\<close>. One iteration of the \<open>while True\<close> is \<open>turn\<close>, cut at the
  steps the source numbers: the guards (the fuse and the cancellation), the exit node, the resume
  hop, the skip path, the execution of the node, the record of its completion, and the routing.
  A turn returns from the run or goes on at a node with the loop's counters; \<open>run_loop\<close> iterates it
  under the step bound, which is what makes it terminate.
\<close>

datatype 'w turn = Return "exc + outcome" "'w engine" | Goto node counters "'w engine"

section \<open>Guards\<close>

definition exceeded_outcome :: "graph \<Rightarrow> outcome" where
  "exceeded_outcome g =
     (mk_outcome FAIL)\<lparr>o_failure_reason := Some (''Pipeline exceeded '' @ int_str (max_steps g)
        @ '' steps (safety bound): '' @ nat_str (length (g_nodes g)) @ '' nodes '' @ [CHR 0xD7] @ '' ''
        @ int_str max_goal_gate_retries)\<rparr>"

definition type_error :: "string \<Rightarrow> exc" where
  "type_error msg = PyError ''TypeError'' False msg"

text \<open>The graph's duration budget in milliseconds: none for a false value, and the \<open>TypeError\<close> of the
  comparison for a value that is no number.\<close>

definition fuse_ms :: "graph \<Rightarrow> exc + rat option" where
  "fuse_ms g =
     (let v = g_max_pipeline_duration g in
      if \<not> py_true v then Inr None
      else (case v of
              PInt i \<Rightarrow> Inr (Some (of_int i))
            | PFloat q \<Rightarrow> Inr (Some q)
            | PBool b \<Rightarrow> Inr (Some 1)
            | _ \<Rightarrow> Inl (type_error (quoted ''>'' @ '' not supported between instances of 'float' and ''
                     @ quoted (py_type_name v)))))"

definition fuse_check :: "'w eenv \<Rightarrow> graph \<Rightarrow> 'w engine \<Rightarrow> (exc + outcome) option \<times> 'w engine" where
  "fuse_check X g S =
     (case fuse_ms g of
        Inr None \<Rightarrow> (None, S)
      | Inl e \<Rightarrow> (Some (Inl e), tick (x_elapsed_ms X) S)
      | Inr (Some limit) \<Rightarrow>
          (let (elapsed, S1) = read_world (x_elapsed_ms X) S
           in if elapsed > limit
              then (Some (Inr (duration_outcome g)), emit_complete X (duration_outcome g) S1)
              else (None, S1)))"

definition cancelled_outcome :: "string \<Rightarrow> outcome" where
  "cancelled_outcome note =
     (mk_outcome FAIL)\<lparr>o_notes := Some note, o_failure_reason := Some ''cancelled''\<rparr>"

definition cancel_check :: "'w eenv \<Rightarrow> string \<Rightarrow> 'w engine \<Rightarrow> outcome option \<times> 'w engine" where
  "cancel_check X note S =
     (let (cancelled, S1) = read_world (x_cancelled X) S
      in if cancelled
         then (Some (cancelled_outcome note),
               emit X (PIPELINE_COMPLETE ''cancelled'' (length (s_completed S1))) (tick (x_elapsed_ms X) S1))
         else (None, S1))"

definition goto_node :: "graph \<Rightarrow> string \<Rightarrow> counters \<Rightarrow> 'w engine \<Rightarrow> 'w turn" where
  "goto_node g node_id k S =
     (case dict_get (g_nodes g) node_id of
        None \<Rightarrow> Return (Inl (PyError ''KeyError'' False (quoted node_id))) S
      | Some n \<Rightarrow> Goto n k S)"

text \<open>The per-run state a retry or a restart clears (CR-3).\<close>

definition clear_run :: "'w engine \<Rightarrow> 'w engine" where
  "clear_run S = S\<lparr>s_completed := [], s_outcomes := [], s_failed := []\<rparr>"

section \<open>Step 1: the exit node\<close>

definition gate_retry :: "graph \<Rightarrow> outcome \<Rightarrow> counters \<Rightarrow> node option" where
  "gate_retry g gate k =
     (case o_suggested_next_ids gate of
        Some (raw_id # rest) \<Rightarrow>
          (if k_goal_gate_retries k < max_goal_gate_retries
           then (case coerce_suggested_id raw_id of
                   None \<Rightarrow> None
                 | Some retry_id \<Rightarrow> dict_get (g_nodes g) retry_id)
           else None)
      | _ \<Rightarrow> None)"

definition at_exit :: "'w eenv \<Rightarrow> graph \<Rightarrow> node \<Rightarrow> counters \<Rightarrow> 'w engine \<Rightarrow> 'w turn" where
  "at_exit X g n k S =
     (let (gate, S1) = check_goal_gates X g (checkpoint_and_emit X g (n_id n) k S) in
      if o_status gate \<noteq> FAIL then Return (Inr gate) (emit_complete X gate S1)
      else (case gate_retry g gate k of
              Some m \<Rightarrow> Goto m (k\<lparr>k_goal_gate_retries := k_goal_gate_retries k + 1\<rparr>) (clear_run S1)
            | None \<Rightarrow> Return (Inr gate) (emit_complete X gate S1)))"

section \<open>The skip path\<close>

definition skip_routing :: "outcome \<Rightarrow> outcome" where
  "skip_routing skip =
     (mk_outcome FAIL)\<lparr>o_failure_reason := o_failure_reason skip, o_notes := o_notes skip\<rparr>"

definition record_outcome :: "string \<Rightarrow> outcome \<Rightarrow> 'w engine \<Rightarrow> 'w engine" where
  "record_outcome node_id out S =
     S\<lparr>s_completed := s_completed S @ [node_id], s_outcomes := dict_set node_id out (s_outcomes S)\<rparr>"

definition record_skip :: "'w eenv \<Rightarrow> graph \<Rightarrow> node \<Rightarrow> outcome \<Rightarrow> counters \<Rightarrow> 'w engine \<Rightarrow> 'w engine" where
  "record_skip X g n skip k S =
     (let S1 = populate_failed_outputs g (n_id n) (record_outcome (n_id n) skip S);
          S2 = write_node_status X (n_id n) skip S1;
          count = (case dict_get (s_counts S2) (n_id n) of None \<Rightarrow> 0 | Some c \<Rightarrow> c)
      in checkpoint_and_emit X g (n_id n) k
           (emit X (PIPELINE_NODE_COMPLETE (n_id n) (status_value (o_status skip)) (o_notes skip)
              (o_failure_reason skip) (Some count) None None None) S2))"

definition skip_edge :: "graph \<Rightarrow> node \<Rightarrow> outcome \<Rightarrow> ctx \<Rightarrow> edge option" where
  "skip_edge g n routing c =
     (case select_edge (n_id n) routing c g of
        Some e \<Rightarrow> Some e
      | None \<Rightarrow>
          (let skip_candidates = unconditional (outgoing_edges g (n_id n))
           in if skip_candidates \<noteq> [] then best_by_weight_then_lexical skip_candidates else None))"

definition skip_turn :: "'w eenv \<Rightarrow> graph \<Rightarrow> node \<Rightarrow> outcome \<Rightarrow> counters \<Rightarrow> 'w engine \<Rightarrow> 'w turn" where
  "skip_turn X g n skip k S =
     (let S1 = record_skip X g n skip k S;
          routing = skip_routing skip;
          failed = terminate_pipeline (Some routing) (''No matching edge from skipped node '' @ quoted (n_id n))
      in case skip_edge g n routing (s_ctx S1) of
           Some e \<Rightarrow> goto_node g (to_node e) k S1
         | None \<Rightarrow>
             (case resolve_failure_retry_target g n of
                None \<Rightarrow> Return (Inr failed) (emit_complete X failed S1)
              | Some m \<Rightarrow>
                  (if k_failure_routing_retries k < max_goal_gate_retries
                   then Goto m (k\<lparr>k_failure_routing_retries := k_failure_routing_retries k + 1\<rparr>) S1
                   else Return (Inr failed) (emit_complete X failed S1))))"

section \<open>Step 2: the execution of the node\<close>

definition count_execution :: "string \<Rightarrow> 'w engine \<Rightarrow> 'w engine" where
  "count_execution node_id S =
     S\<lparr>s_counts := dict_set node_id
         ((case dict_get (s_counts S) node_id of None \<Rightarrow> 0 | Some c \<Rightarrow> c) + 1) (s_counts S)\<rparr>"

definition apply_resume_fidelity_degrade :: "'w eenv \<Rightarrow> graph \<Rightarrow> node \<Rightarrow> 'w engine \<Rightarrow> 'w engine" where
  "apply_resume_fidelity_degrade X g n S =
     (if \<not> s_armed S then S
      else (let S1 = S\<lparr>s_armed := False\<rparr> in
            if resolve_fidelity n None g \<noteq> ''full'' then S1
            else emit X (PIPELINE_RESUME_FIDELITY_DEGRADE (n_id n))
                   (on_ctx (\<lambda>c. ctx_append_log
                      (''resume: fidelity degraded full->summary:high for node '' @ quoted (n_id n)
                       @ '' (spec '' @ [CHR 0xA7] @ ''5.3 rule 6 -- in-memory LLM sessions cannot be serialized)'')
                      (ctx_set resume_fidelity_cap_key (PStr ''summary:high'') c)) S1)))"

text \<open>\<open>float(s)\<close> of a text: sign, digits with an optional fraction, optional exponent. The other
  texts Python reads (underscores, \<open>inf\<close>, \<open>nan\<close>) are taken for errors.\<close>

definition float_digits :: "string \<Rightarrow> rat option" where
  "float_digits t =
     (let whole = takeWhile is_digit t; rest = dropWhile is_digit t;
          frac = (if startswith ''.'' rest then takeWhile is_digit (tl rest) else []);
          after = (if startswith ''.'' rest then dropWhile is_digit (tl rest) else rest);
          mantissa = of_nat (digits_val 0 (whole @ frac)) / 10 ^ length frac
      in if whole @ frac = [] then None
         else if after = [] then Some mantissa
         else if hd after = CHR ''e'' \<or> hd after = CHR ''E'' then
           (let ex = tl after; neg = startswith ''-'' ex;
                ds = (if neg \<or> startswith ''+'' ex then tl ex else ex)
            in if ds \<noteq> [] \<and> list_all is_digit ds
               then Some (if neg then mantissa / 10 ^ digits_val 0 ds else mantissa * 10 ^ digits_val 0 ds)
               else None)
         else None)"

definition py_float :: "string \<Rightarrow> exc + rat" where
  "py_float s =
     (let t = py_strip s; neg = startswith ''-'' t;
          ds = (if neg \<or> startswith ''+'' t then tl t else t)
      in case float_digits ds of
           None \<Rightarrow> Inl (value_error (''could not convert string to float: '' @ repr_str s))
         | Some q \<Rightarrow> Inr (if neg then - q else q))"

definition node_timeout_s :: "node \<Rightarrow> exc + rat option" where
  "node_timeout_s n =
     (let v = n_timeout n in
      if \<not> py_true v then Inr None
      else (case v of
              PInt i \<Rightarrow> Inr (Some (of_int i / 1000))
            | PFloat q \<Rightarrow> Inr (Some (q / 1000))
            | PBool b \<Rightarrow> Inr (Some (1 / 1000))
            | PStr s \<Rightarrow> (case py_float s of Inl e \<Rightarrow> Inl e | Inr q \<Rightarrow> Inr (Some (q / 1000)))
            | _ \<Rightarrow> Inl (type_error (''float() argument must be a string or a real number, not ''
                     @ quoted (py_type_name v)))))"

text \<open>The remaining fuse at the start of the node, and which of the two bounds governs the await:
  \<open>(effective_timeout_s, fuse_is_binding)\<close>.\<close>

definition fuse_remaining_s :: "rat option \<Rightarrow> rat \<Rightarrow> rat option" where
  "fuse_remaining_s fuse elapsed_ms = map_option (\<lambda>limit. max 0 ((limit - elapsed_ms) / 1000)) fuse"

definition effective_timeout :: "rat option \<Rightarrow> rat option \<Rightarrow> (rat \<times> bool) option" where
  "effective_timeout node_timeout fuse_remaining =
     (case fuse_remaining of
        None \<Rightarrow> map_option (\<lambda>t. (t, False)) node_timeout
      | Some f \<Rightarrow>
          (case node_timeout of
             None \<Rightarrow> Some (f, True)
           | Some t \<Rightarrow> Some (min t f, f \<le> t)))"

text \<open>\<open>repr\<close> of a float that is a number of whole milliseconds below \<open>10 ^ 16\<close>.\<close>

definition float_repr :: "rat \<Rightarrow> string" where
  "float_repr x =
     (let s = fmt3 x; drop0 = (\<lambda>t. if endswith ''0'' t then butlast t else t)
      in drop0 (drop0 s))"

definition timeout_outcome :: "node \<Rightarrow> rat \<Rightarrow> outcome" where
  "timeout_outcome n timeout_s =
     (mk_outcome (if resolve_bool_attr (node_attr_get n ''allow_partial'') then PARTIAL_SUCCESS else FAIL))
       \<lparr>o_notes := Some (''Node '' @ quoted (n_id n) @ '' timed out after '' @ float_repr timeout_s @ ''s''),
        o_failure_reason := Some ''timeout''\<rparr>"

text \<open>What the execution of a node leads to: the run ends, or there is an outcome to record.\<close>

datatype 'w ran = Ended "exc + outcome" "'w engine" | Ran outcome "'w engine"

definition timed_out ::
    "'w eenv \<Rightarrow> graph \<Rightarrow> node \<Rightarrow> rat \<Rightarrow> bool \<Rightarrow> int \<Rightarrow> 'w engine \<Rightarrow> 'w ran" where
  "timed_out X g n timeout_s fuse_is_binding idx S =
     (let S1 = tick (x_elapsed_ms X) S in
      if fuse_is_binding
      then (let (out, S2) = terminate_fuse_mid_node X g (n_id n) idx S1 in Ended (Inr out) S2)
      else (let out = timeout_outcome n timeout_s
            in Ran out (emit X (PIPELINE_NODE_COMPLETE (n_id n) ''timeout'' (o_notes out)
                 (o_failure_reason out) (Some idx) None None None) S1)))"

definition execute_node ::
    "'w eenv \<Rightarrow> graph \<Rightarrow> node \<Rightarrow> policy \<Rightarrow> (rat \<times> bool) option \<Rightarrow> int \<Rightarrow> 'w engine \<Rightarrow> 'w ran" where
  "execute_node X g n pol bound idx S =
     (case (case bound of None \<Rightarrow> None | Some (t, b) \<Rightarrow>
              map_option (\<lambda>st. (t, b, st)) (x_bounded X t n (s_run S))) of
        Some (t, b, st) \<Rightarrow> timed_out X g n t b idx (S\<lparr>s_run := st\<rparr>)
      | None \<Rightarrow>
          (case execute_with_retry (x_env X) (x_logs_root X) n pol (s_run S) of
             (Inr out, st) \<Rightarrow> Ran out (S\<lparr>s_run := st\<rparr>)
           | (Inl e, st) \<Rightarrow>
               (case e of
                  ChildDotResolutionError m \<Rightarrow>
                    (case terminate_child_dot_resolution X (n_id n) m idx (S\<lparr>s_run := st\<rparr>) of
                       (out, S2) \<Rightarrow> Ended (Inr out) S2)
                | PyError t tr m \<Rightarrow> Ended (Inl e) (S\<lparr>s_run := st\<rparr>))))"

section \<open>Steps 2.5 to 4b: recording the completion\<close>

text \<open>\<open>auto_status\<close>: a skipped outcome becomes a success that is not explicit.\<close>

definition promote_auto_status :: "node \<Rightarrow> outcome \<Rightarrow> outcome" where
  "promote_auto_status n out =
     (if resolve_bool_attr (n_auto_status n) \<and> o_status out = SKIPPED
      then out\<lparr>o_status := SUCCESS, o_notes := Some ''auto_status override (was skipped)'',
               o_is_explicit := False\<rparr>
      else out)"

definition settle_outcome :: "'w eenv \<Rightarrow> node \<Rightarrow> rat \<Rightarrow> outcome \<Rightarrow> 'w engine \<Rightarrow> outcome" where
  "settle_outcome X n start_wall out S =
     (let promoted = promote_auto_status n out in
      case check_must_write (e_host (x_env X)) (e_files (x_env X) (s_world S)) n promoted start_wall (s_ctx S) of
        None \<Rightarrow> promoted
      | Some must_write_failure \<Rightarrow> must_write_failure)"

definition attempt_field :: "outcome \<Rightarrow> int" where
  "attempt_field out =
     (case o_attempt_count out of None \<Rightarrow> 1 | Some a \<Rightarrow> if a = 0 then 1 else a)"

definition emit_node_complete :: "'w eenv \<Rightarrow> string \<Rightarrow> outcome \<Rightarrow> int \<Rightarrow> 'w engine \<Rightarrow> 'w engine" where
  "emit_node_complete X node_id out idx S =
     emit X (PIPELINE_NODE_COMPLETE node_id (status_value (o_status out)) (o_notes out)
       (o_failure_reason out) (Some idx) (Some (attempt_field out)) (o_failed_step out)
       (o_session_id out)) S"

text \<open>Step 4, shared with \<open>run_subgraph\<close>: the context after an outcome.\<close>

definition apply_outcome :: "outcome \<Rightarrow> ctx \<Rightarrow> ctx" where
  "apply_outcome out c =
     (let c1 = (case o_context_updates out of None \<Rightarrow> c | Some d \<Rightarrow> if d \<noteq> [] then ctx_update d c else c);
          c2 = ctx_set ''outcome'' (PStr (status_value (o_status out))) c1
      in if str_true (o_preferred_label out)
         then ctx_set ''preferred_label'' (PStr (the (o_preferred_label out))) c2 else c2)"

definition record_completion ::
    "'w eenv \<Rightarrow> graph \<Rightarrow> node \<Rightarrow> outcome \<Rightarrow> int \<Rightarrow> counters \<Rightarrow> 'w engine \<Rightarrow> 'w engine" where
  "record_completion X g n out idx k S =
     (let S1 = write_node_status X (n_id n) out (record_outcome (n_id n) out S);
          S2 = emit_node_complete X (n_id n) out idx S1;
          S3 = (if o_status out = FAIL then populate_failed_outputs g (n_id n) S2 else S2);
          S4 = on_ctx (apply_outcome out) S3;
          S5 = (if is_success out then check_contract_violation X g (n_id n) out S4 else S4)
      in checkpoint_and_emit X g (n_id n) k S5)"

section \<open>Steps 5 to 7: routing\<close>

definition restart_loop :: "'w eenv \<Rightarrow> 'w engine \<Rightarrow> 'w engine" where
  "restart_loop X S =
     (let S0 = S\<lparr>s_iteration := s_iteration S + 1\<rparr>;
          S1 = clear_run (on_world (x_makedirs X (os_path_join (x_logs_root X)
                 (''iteration_'' @ int_str (s_iteration S0)))) S0);
          count = PStr (int_str (s_iteration S1))
      in on_ctx (\<lambda>c. ctx_set ''loop_count'' count (ctx_set ''iteration'' count
           (ctx_set ''preferred_label'' PNone c))) S1)"

definition follow_edge :: "'w eenv \<Rightarrow> graph \<Rightarrow> edge \<Rightarrow> counters \<Rightarrow> 'w engine \<Rightarrow> 'w turn" where
  "follow_edge X g e k S =
     (let S1 = emit X (PIPELINE_EDGE_SELECTED (from_node e) (to_node e) (e_label e)) S in
      if resolve_bool_attr (e_loop_restart e)
      then goto_node g (to_node e) (k\<lparr>k_goal_gate_retries := 0, k_failure_routing_retries := 0\<rparr>)
             (restart_loop X S1)
      else goto_node g (to_node e) k S1)"

definition no_edge :: "'w eenv \<Rightarrow> graph \<Rightarrow> node \<Rightarrow> outcome \<Rightarrow> counters \<Rightarrow> 'w engine \<Rightarrow> 'w turn" where
  "no_edge X g n out k S =
     (let failed = terminate_pipeline (Some out) (no_matching_edge_reason g (n_id n) out);
          message = (case o_failure_reason failed of None \<Rightarrow> [] | Some s \<Rightarrow> s);
          stop = Return (Inr failed)
            (emit_complete X failed (emit X (PIPELINE_ERROR (n_id n) ''no_matching_edge'' message) S))
      in case resolve_failure_retry_target g n of
           None \<Rightarrow> stop
         | Some m \<Rightarrow>
             (if k_failure_routing_retries k < max_goal_gate_retries
              then Goto m (k\<lparr>k_failure_routing_retries := k_failure_routing_retries k + 1\<rparr>) (clear_run S)
              else stop))"

definition no_fan_in_outcome :: "node \<Rightarrow> outcome" where
  "no_fan_in_outcome n =
     (mk_outcome FAIL)\<lparr>o_failure_reason := Some (''Parallel fan-out from component node '' @ quoted (n_id n)
        @ '' has no convergence (fan-in) node -- add a shape=tripleoctagon node that all branches lead to'')\<rparr>"

definition route :: "'w eenv \<Rightarrow> graph \<Rightarrow> node \<Rightarrow> outcome \<Rightarrow> counters \<Rightarrow> 'w engine \<Rightarrow> 'w turn" where
  "route X g n out k S =
     (let branches = outgoing_edges g (n_id n) in
      if n_shape n = ''component'' \<and> length branches > 1 then
        (case find_fan_in_node X g (map to_node branches) of
           None \<Rightarrow> Return (Inr (no_fan_in_outcome n)) (emit_complete X (no_fan_in_outcome n) S)
         | Some fan_in_id \<Rightarrow> goto_node g fan_in_id k S)
      else
        (case select_edge (n_id n) out (s_ctx S) g of
           None \<Rightarrow> no_edge X g n out k S
         | Some e \<Rightarrow> follow_edge X g e k S))"

section \<open>One turn\<close>

definition after_node ::
    "'w eenv \<Rightarrow> graph \<Rightarrow> node \<Rightarrow> rat \<Rightarrow> int \<Rightarrow> outcome \<Rightarrow> counters \<Rightarrow> 'w engine \<Rightarrow> 'w turn" where
  "after_node X g n start_wall idx out0 k S =
     (let S1 = on_ctx (ctx_pop resume_fidelity_cap_key) (tick (x_elapsed_ms X) S) in
      case cancel_check X (''Pipeline cancelled after node '' @ quoted (n_id n) @ '' completed'') S1 of
        (Some out, S2) \<Rightarrow> Return (Inr out) S2
      | (None, S2) \<Rightarrow>
          (let out = settle_outcome X n start_wall out0 S2
           in route X g n out k (record_completion X g n out idx k S2)))"

definition start_node_execution :: "'w eenv \<Rightarrow> graph \<Rightarrow> node \<Rightarrow> 'w engine \<Rightarrow> int \<times> 'w engine" where
  "start_node_execution X g n S =
     (let S1 = count_execution (n_id n) S;
          idx = (case dict_get (s_counts S1) (n_id n) of None \<Rightarrow> 0 | Some c \<Rightarrow> c);
          S2 = emit X (PIPELINE_NODE_START (n_id n) (if n_type n \<noteq> [] then n_type n else n_shape n) (Some idx)) S1
      in (idx, apply_resume_fidelity_degrade X g n S2))"

definition run_turn :: "'w eenv \<Rightarrow> graph \<Rightarrow> node \<Rightarrow> counters \<Rightarrow> 'w engine \<Rightarrow> 'w turn" where
  "run_turn X g n k S =
     (case registry_get (x_registered X) n of
        Inl e \<Rightarrow> Return (Inl e) S
      | Inr handler \<Rightarrow>
          (case start_node_execution X g n S of
             (idx, S1) \<Rightarrow>
               (case read_world (x_elapsed_ms X) S1 of
                  (elapsed, S2) \<Rightarrow>
                    (case read_world (e_wall (x_env X)) S2 of
                       (start_wall, S3) \<Rightarrow>
                         (case policy_from_node n g of
                            Inl e \<Rightarrow> Return (Inl e) S3
                          | Inr pol \<Rightarrow>
                              (case node_timeout_s n of
                                 Inl e \<Rightarrow> Return (Inl e) S3
                               | Inr timeout \<Rightarrow>
                                   (case fuse_ms g of
                                      Inl e \<Rightarrow> Return (Inl e) S3
                                    | Inr fuse \<Rightarrow>
                                        (case execute_node X g n pol
                                            (effective_timeout timeout (fuse_remaining_s fuse elapsed)) idx S3 of
                                           Ended res S4 \<Rightarrow> Return res S4
                                         | Ran out S4 \<Rightarrow> after_node X g n start_wall idx out k S4))))))))"

definition turn :: "'w eenv \<Rightarrow> graph \<Rightarrow> node \<Rightarrow> counters \<Rightarrow> outcome option \<Rightarrow> 'w engine \<Rightarrow> 'w turn" where
  "turn X g n k resume_outcome S =
     (case fuse_check X g S of
        (Some res, S1) \<Rightarrow> Return res S1
      | (None, S1) \<Rightarrow>
          (case cancel_check X ''Pipeline cancelled by user request'' S1 of
             (Some out, S2) \<Rightarrow> Return (Inr out) S2
           | (None, S2) \<Rightarrow>
               (if is_exit_node n then at_exit X g n k S2
                else
                  (case resume_outcome of
                     Some out \<Rightarrow> route X g n out k S2
                   | None \<Rightarrow>
                       (case check_node_skip X n S2 of
                          (Some skip, S3) \<Rightarrow> skip_turn X g n skip k S3
                        | (None, S3) \<Rightarrow> run_turn X g n k S3)))))"

section \<open>The loop\<close>

text \<open>No turn touches the step counter.\<close>

lemma goto_node_Goto: "goto_node g i k S = Goto m k' S' \<longleftrightarrow> dict_get (g_nodes g) i = Some m \<and> k' = k \<and> S' = S"
  by (auto simp: goto_node_def split: option.splits)

lemma follow_edge_steps: "follow_edge X g e k S = Goto m k' S' \<Longrightarrow> k_steps k' = k_steps k"
  by (auto simp: follow_edge_def Let_def goto_node_Goto split: if_splits)

lemma no_edge_steps: "no_edge X g n out k S = Goto m k' S' \<Longrightarrow> k_steps k' = k_steps k"
  by (auto simp: no_edge_def Let_def split: option.splits if_splits)

lemma route_steps: "route X g n out k S = Goto m k' S' \<Longrightarrow> k_steps k' = k_steps k"
  by (auto simp: route_def Let_def goto_node_Goto follow_edge_steps no_edge_steps split: option.splits if_splits)

lemma at_exit_steps: "at_exit X g n k S = Goto m k' S' \<Longrightarrow> k_steps k' = k_steps k"
  by (auto simp: at_exit_def Let_def split: prod.splits option.splits if_splits)

lemma skip_turn_steps: "skip_turn X g n skip k S = Goto m k' S' \<Longrightarrow> k_steps k' = k_steps k"
  by (auto simp: skip_turn_def Let_def goto_node_Goto split: option.splits if_splits)

lemma after_node_steps: "after_node X g n sw idx out k S = Goto m k' S' \<Longrightarrow> k_steps k' = k_steps k"
  by (auto simp: after_node_def Let_def route_steps split: prod.splits option.splits)

lemma run_turn_steps: "run_turn X g n k S = Goto m k' S' \<Longrightarrow> k_steps k' = k_steps k"
  by (auto simp: run_turn_def Let_def after_node_steps split: prod.splits sum.splits ran.splits)

lemma turn_steps: "turn X g n k r S = Goto m k' S' \<Longrightarrow> k_steps k' = k_steps k"
  by (auto simp: turn_def at_exit_steps route_steps skip_turn_steps run_turn_steps
      split: prod.splits option.splits if_splits)

text \<open>A resume outcome that an exit node did not consume stays pending, as the local variable of the
  source does.\<close>

function run_loop ::
    "'w eenv \<Rightarrow> graph \<Rightarrow> node \<Rightarrow> counters \<Rightarrow> outcome option \<Rightarrow> 'w engine \<Rightarrow> (exc + outcome) \<times> 'w engine" where
  "run_loop X g n k resume_outcome S =
     (if k_steps k + 1 > max_steps g
      then (Inr (exceeded_outcome g), emit_complete X (exceeded_outcome g) S)
      else
        (case turn X g n (k\<lparr>k_steps := k_steps k + 1\<rparr>) resume_outcome S of
           Return res S' \<Rightarrow> (res, S')
         | Goto n' k' S' \<Rightarrow>
             run_loop X g n' k' (if is_exit_node n then resume_outcome else None) S'))"
  by pat_completeness auto

termination
  by (relation "measure (\<lambda>(X, g, n, k, r, S). nat (max_steps g - k_steps k))")
    (auto dest!: turn_steps)

declare run_loop.simps [simp del]

section \<open>run\<close>

definition runtime_error :: "string \<Rightarrow> exc" where
  "runtime_error msg = PyError ''RuntimeError'' False msg"

text \<open>The end of \<open>run\<close> and \<open>resume\<close>: a returned outcome closes the checkpoint.\<close>

definition close_run :: "'w eenv \<Rightarrow> (exc + outcome) \<times> 'w engine \<Rightarrow> (exc + outcome) \<times> 'w engine" where
  "close_run X res =
     (case res of
        (Inl e, S) \<Rightarrow> (Inl e, S)
      | (Inr out, S) \<Rightarrow> (Inr out, mark_run_completed X S))"

text \<open>What \<open>run\<close> does before the walk: the context, the manifest and the start event.\<close>

definition start_run :: "'w eenv \<Rightarrow> graph \<Rightarrow> string option \<Rightarrow> 'w engine \<Rightarrow> 'w engine" where
  "start_run X g goal S =
     emit X (PIPELINE_START (g_name g) (length (g_nodes g)) (length (g_edges g))
         (manifest_goal g goal) (g_dot_source g))
       (write_manifest X g goal
         (on_ctx (initialize_context g goal (s_iteration S)) (tick (x_elapsed_ms X) S)))"

definition run :: "'w eenv \<Rightarrow> graph \<Rightarrow> string option \<Rightarrow> 'w engine \<Rightarrow> (exc + outcome) \<times> 'w engine" where
  "run X g goal S =
     (if x_branch_clone X then (Inl (runtime_error ''run() must not be called on a branch-clone engine''), S)
      else
        (case find_start_node g of
           None \<Rightarrow> (Inl (value_error ''No start node found (no shape=Mdiamond, no type='start', and no id='start'/'Start')''),
                     start_run X g goal S)
         | Some n \<Rightarrow> close_run X (run_loop X g n no_counters None (start_run X g goal S))))"

end
