(* ===== verification/Engine_Facts.thy ===== *)
theory Engine_Facts
  imports Engine_Loop
begin

text \<open>
  What the engine loop preserves and what it returns. The frame lemmas say which part of the engine
  state each operation leaves alone; \<open>run_loop_rule\<close> is the invariant rule of the loop; the sections
  after it prove the invariants: the recorded state is about nodes of the graph, the counters stay
  within their budgets, only the exit node's gate check returns a success.
\<close>

section \<open>Frames\<close>

lemma emit_frame [simp]:
  "s_ctx (emit X ev S) = s_ctx S" "s_world (emit X ev S) = s_world S"
  "s_outcomes (emit X ev S) = s_outcomes S" "s_completed (emit X ev S) = s_completed S"
  "s_iteration (emit X ev S) = s_iteration S" "s_counts (emit X ev S) = s_counts S"
  "s_failed (emit X ev S) = s_failed S" "s_armed (emit X ev S) = s_armed S"
  "s_last (emit X ev S) = s_last S" "s_trace (emit X ev S) = s_trace S"
  by (simp_all add: emit_def)

lemma on_world_frame [simp]:
  "s_ctx (on_world f S) = s_ctx S" "s_world (on_world f S) = f (s_world S)"
  "s_events (on_world f S) = s_events S"
  "s_outcomes (on_world f S) = s_outcomes S" "s_completed (on_world f S) = s_completed S"
  "s_iteration (on_world f S) = s_iteration S" "s_counts (on_world f S) = s_counts S"
  "s_failed (on_world f S) = s_failed S" "s_armed (on_world f S) = s_armed S"
  "s_last (on_world f S) = s_last S" "s_trace (on_world f S) = s_trace S"
  by (simp_all add: on_world_def)

lemma on_ctx_frame [simp]:
  "s_ctx (on_ctx f S) = f (s_ctx S)" "s_world (on_ctx f S) = s_world S"
  "s_events (on_ctx f S) = s_events S"
  "s_outcomes (on_ctx f S) = s_outcomes S" "s_completed (on_ctx f S) = s_completed S"
  "s_iteration (on_ctx f S) = s_iteration S" "s_counts (on_ctx f S) = s_counts S"
  "s_failed (on_ctx f S) = s_failed S" "s_armed (on_ctx f S) = s_armed S"
  "s_last (on_ctx f S) = s_last S" "s_trace (on_ctx f S) = s_trace S"
  by (simp_all add: on_ctx_def)

lemma read_world_eq: "read_world f S = (v, S') \<longleftrightarrow> v = fst (f (s_world S)) \<and> S' = tick f S"
  by (auto simp: read_world_def tick_def)

lemma tick_frame [simp]:
  "s_ctx (tick f S) = s_ctx S" "s_events (tick f S) = s_events S"
  "s_outcomes (tick f S) = s_outcomes S" "s_completed (tick f S) = s_completed S"
  "s_iteration (tick f S) = s_iteration S" "s_counts (tick f S) = s_counts S"
  "s_failed (tick f S) = s_failed S" "s_armed (tick f S) = s_armed S"
  "s_last (tick f S) = s_last S" "s_trace (tick f S) = s_trace S"
  by (simp_all add: tick_def read_world_def)

lemma emit_complete_frame [simp]:
  "s_ctx (emit_complete X out S) = s_ctx S"
  "s_outcomes (emit_complete X out S) = s_outcomes S" "s_completed (emit_complete X out S) = s_completed S"
  "s_iteration (emit_complete X out S) = s_iteration S" "s_counts (emit_complete X out S) = s_counts S"
  "s_failed (emit_complete X out S) = s_failed S" "s_armed (emit_complete X out S) = s_armed S"
  "s_last (emit_complete X out S) = s_last S" "s_trace (emit_complete X out S) = s_trace S"
  by (simp_all add: emit_complete_def)

lemma write_checkpoint_frame [simp]:
  "s_ctx (write_checkpoint X cp S) = s_ctx S" "s_last (write_checkpoint X cp S) = Some cp"
  "s_events (write_checkpoint X cp S) = s_events S"
  "s_outcomes (write_checkpoint X cp S) = s_outcomes S" "s_completed (write_checkpoint X cp S) = s_completed S"
  "s_iteration (write_checkpoint X cp S) = s_iteration S" "s_counts (write_checkpoint X cp S) = s_counts S"
  "s_failed (write_checkpoint X cp S) = s_failed S" "s_armed (write_checkpoint X cp S) = s_armed S"
  "s_trace (write_checkpoint X cp S) = s_trace S"
  by (simp_all add: write_checkpoint_def on_world_def)

lemma checkpoint_frame [simp]:
  "s_ctx (checkpoint_and_emit X g i k S) = s_ctx S"
  "s_outcomes (checkpoint_and_emit X g i k S) = s_outcomes S"
  "s_completed (checkpoint_and_emit X g i k S) = s_completed S"
  "s_iteration (checkpoint_and_emit X g i k S) = s_iteration S"
  "s_counts (checkpoint_and_emit X g i k S) = s_counts S"
  "s_failed (checkpoint_and_emit X g i k S) = s_failed S"
  "s_armed (checkpoint_and_emit X g i k S) = s_armed S"
  "s_trace (checkpoint_and_emit X g i k S) = s_trace S"
  by (simp_all add: checkpoint_and_emit_def save_checkpoint_def Let_def split: prod.split)
    (simp_all add: read_world_eq)

lemma checkpoint_last:
  "s_last (checkpoint_and_emit X g i k S) =
     (if x_branch_clone X then s_last S
      else Some (checkpoint_of X g i k (fst (x_now X (x_makedirs X (x_logs_root X) (s_world S)))) S))"
  by (simp add: checkpoint_and_emit_def save_checkpoint_def read_world_def checkpoint_of_def
      ctx_snapshot_def engine_state_block_def)

lemma write_node_status_frame [simp]:
  "s_ctx (write_node_status X i out S) = s_ctx S" "s_events (write_node_status X i out S) = s_events S"
  "s_outcomes (write_node_status X i out S) = s_outcomes S"
  "s_completed (write_node_status X i out S) = s_completed S"
  "s_iteration (write_node_status X i out S) = s_iteration S"
  "s_counts (write_node_status X i out S) = s_counts S"
  "s_failed (write_node_status X i out S) = s_failed S"
  "s_armed (write_node_status X i out S) = s_armed S"
  "s_last (write_node_status X i out S) = s_last S"
  "s_trace (write_node_status X i out S) =
     s_trace S @ [\<lparr>t_iteration = s_iteration S, t_node_id = i, t_status = o_status out,
       t_preferred_label = o_preferred_label out, t_is_explicit = o_is_explicit out\<rparr>]"
  by (simp_all add: write_node_status_def Let_def tick_def read_world_def on_world_def)

lemma populate_frame [simp]:
  "s_run (populate_failed_outputs g i S) = s_run S"
  "s_outcomes (populate_failed_outputs g i S) = s_outcomes S"
  "s_completed (populate_failed_outputs g i S) = s_completed S"
  "s_iteration (populate_failed_outputs g i S) = s_iteration S"
  "s_counts (populate_failed_outputs g i S) = s_counts S"
  "s_armed (populate_failed_outputs g i S) = s_armed S"
  "s_last (populate_failed_outputs g i S) = s_last S" "s_trace (populate_failed_outputs g i S) = s_trace S"
  by (simp_all add: populate_failed_outputs_def)

lemma record_outcome_frame [simp]:
  "s_run (record_outcome i out S) = s_run S"
  "s_outcomes (record_outcome i out S) = dict_set i out (s_outcomes S)"
  "s_completed (record_outcome i out S) = s_completed S @ [i]"
  "s_iteration (record_outcome i out S) = s_iteration S" "s_counts (record_outcome i out S) = s_counts S"
  "s_failed (record_outcome i out S) = s_failed S" "s_armed (record_outcome i out S) = s_armed S"
  "s_last (record_outcome i out S) = s_last S" "s_trace (record_outcome i out S) = s_trace S"
  by (simp_all add: record_outcome_def)

lemma contract_violation_frame [simp]:
  "s_ctx (check_contract_violation X g i out S) = s_ctx S"
  "s_outcomes (check_contract_violation X g i out S) = s_outcomes S"
  "s_completed (check_contract_violation X g i out S) = s_completed S"
  "s_iteration (check_contract_violation X g i out S) = s_iteration S"
  "s_counts (check_contract_violation X g i out S) = s_counts S"
  "s_failed (check_contract_violation X g i out S) = s_failed S"
  "s_armed (check_contract_violation X g i out S) = s_armed S"
  "s_last (check_contract_violation X g i out S) = s_last S"
  "s_trace (check_contract_violation X g i out S) = s_trace S"
  by (simp_all add: check_contract_violation_def Let_def)

lemma emit_node_complete_frame [simp]:
  "s_run (emit_node_complete X i out idx S) = s_run (emit X (PIPELINE_NODE_COMPLETE i (status_value (o_status out)) (o_notes out)
       (o_failure_reason out) (Some idx) (Some (attempt_field out)) (o_failed_step out) (o_session_id out)) S)"
  "s_outcomes (emit_node_complete X i out idx S) = s_outcomes S"
  "s_completed (emit_node_complete X i out idx S) = s_completed S"
  "s_iteration (emit_node_complete X i out idx S) = s_iteration S"
  "s_counts (emit_node_complete X i out idx S) = s_counts S"
  "s_failed (emit_node_complete X i out idx S) = s_failed S"
  "s_armed (emit_node_complete X i out idx S) = s_armed S"
  "s_last (emit_node_complete X i out idx S) = s_last S"
  "s_trace (emit_node_complete X i out idx S) = s_trace S"
  by (simp_all add: emit_node_complete_def)

lemma clear_run_simps [simp]:
  "s_run (clear_run S) = s_run S" "s_outcomes (clear_run S) = []" "s_completed (clear_run S) = []"
  "s_failed (clear_run S) = []" "s_iteration (clear_run S) = s_iteration S"
  "s_counts (clear_run S) = s_counts S" "s_armed (clear_run S) = s_armed S"
  "s_last (clear_run S) = s_last S" "s_trace (clear_run S) = s_trace S"
  by (simp_all add: clear_run_def)

lemma restart_loop_simps [simp]:
  "s_outcomes (restart_loop X S) = []" "s_completed (restart_loop X S) = []" "s_failed (restart_loop X S) = []"
  "s_iteration (restart_loop X S) = s_iteration S + 1" "s_counts (restart_loop X S) = s_counts S"
  "s_armed (restart_loop X S) = s_armed S" "s_last (restart_loop X S) = s_last S"
  "s_trace (restart_loop X S) = s_trace S"
  by (simp_all add: restart_loop_def Let_def)

lemma degrade_frame [simp]:
  "s_world (apply_resume_fidelity_degrade X g n S) = s_world S"
  "s_outcomes (apply_resume_fidelity_degrade X g n S) = s_outcomes S"
  "s_completed (apply_resume_fidelity_degrade X g n S) = s_completed S"
  "s_iteration (apply_resume_fidelity_degrade X g n S) = s_iteration S"
  "s_counts (apply_resume_fidelity_degrade X g n S) = s_counts S"
  "s_failed (apply_resume_fidelity_degrade X g n S) = s_failed S"
  "s_armed (apply_resume_fidelity_degrade X g n S) = False"
  "s_last (apply_resume_fidelity_degrade X g n S) = s_last S"
  "s_trace (apply_resume_fidelity_degrade X g n S) = s_trace S"
  by (simp_all add: apply_resume_fidelity_degrade_def Let_def)

lemma start_node_frame:
  assumes "start_node_execution X g n S = (idx, S')"
  shows "s_outcomes S' = s_outcomes S" "s_completed S' = s_completed S" "s_iteration S' = s_iteration S"
    "s_counts S' = s_counts (count_execution (n_id n) S)" "s_failed S' = s_failed S"
    "s_armed S' = False" "s_last S' = s_last S" "s_trace S' = s_trace S"
    "dict_get (s_counts S') (n_id n) = Some idx"
  using assms by (auto simp: start_node_execution_def Let_def count_execution_def)

section \<open>The durable part of the state\<close>

text \<open>What an operation on clocks, files, events or the context cannot touch.\<close>

definition same_core :: "'w engine \<Rightarrow> 'w engine \<Rightarrow> bool" where
  "same_core S S' =
     (s_outcomes S' = s_outcomes S \<and> s_completed S' = s_completed S \<and> s_iteration S' = s_iteration S
      \<and> s_counts S' = s_counts S \<and> s_failed S' = s_failed S \<and> s_last S' = s_last S \<and> s_trace S' = s_trace S)"

lemma same_core_refl [simp]: "same_core S S"
  by (simp add: same_core_def)

lemma same_core_trans [trans]: "same_core A B \<Longrightarrow> same_core B C \<Longrightarrow> same_core A C"
  by (simp add: same_core_def)

lemma fuse_check_core: "fuse_check X g S = (res, S') \<Longrightarrow> same_core S S' \<and> s_ctx S' = s_ctx S \<and> s_armed S' = s_armed S"
  by (auto simp: fuse_check_def same_core_def read_world_def Let_def split: sum.splits option.splits if_splits)

lemma cancel_check_core: "cancel_check X note S = (res, S') \<Longrightarrow> same_core S S' \<and> s_ctx S' = s_ctx S \<and> s_armed S' = s_armed S"
  by (auto simp: cancel_check_def same_core_def read_world_def Let_def split: if_splits)

lemma node_skip_core: "check_node_skip X n S = (res, S') \<Longrightarrow> same_core S S' \<and> s_ctx S' = s_ctx S \<and> s_armed S' = s_armed S"
  by (auto simp: check_node_skip_def same_core_def split: list.splits)

lemma check_goal_gates_core:
  "check_goal_gates X g S = (res, S') \<Longrightarrow> res = gate_verdict g S \<and> same_core S S' \<and> s_ctx S' = s_ctx S"
  by (auto simp: check_goal_gates_def same_core_def)

text \<open>An end inside a node leaves at most a failure on record, which no completion follows.\<close>

definition ended_core :: "node \<Rightarrow> 'w engine \<Rightarrow> 'w engine \<Rightarrow> bool" where
  "ended_core n S S' =
     ((s_outcomes S' = s_outcomes S \<or> (\<exists>out. s_outcomes S' = dict_set (n_id n) out (s_outcomes S)
          \<and> o_status out = FAIL))
      \<and> s_completed S' = s_completed S \<and> s_iteration S' = s_iteration S \<and> s_counts S' = s_counts S
      \<and> s_failed S' = s_failed S \<and> s_last S' = s_last S)"

lemma timed_out_core:
  "timed_out X g n t b idx S = Ended res S' \<Longrightarrow> ended_core n' S S' \<and> res = Inr (duration_outcome g) \<and> b"
  "timed_out X g n t b idx S = Ran out S' \<Longrightarrow> same_core S S' \<and> out = timeout_outcome n t \<and> \<not> b"
  by (auto simp: timed_out_def terminate_fuse_mid_node_def same_core_def ended_core_def Let_def split: if_splits prod.splits)

section \<open>The invariant rule of the loop\<close>

text \<open>\<open>I\<close> holds of the arguments at the head of every iteration, \<open>P\<close> of what the run returns.\<close>

lemma run_loop_rule:
  assumes "run_loop X g n k r S = (res, S')" "I n k r S"
    and ret: "\<And>n k r S res S'. I n k r S \<Longrightarrow> k_steps k < max_steps g \<Longrightarrow>
          turn X g n (k\<lparr>k_steps := k_steps k + 1\<rparr>) r S = Return res S' \<Longrightarrow> P res S'"
    and goto: "\<And>n k r S n' k' S'. I n k r S \<Longrightarrow> k_steps k < max_steps g \<Longrightarrow>
          turn X g n (k\<lparr>k_steps := k_steps k + 1\<rparr>) r S = Goto n' k' S' \<Longrightarrow>
          I n' k' (if is_exit_node n then r else None) S'"
    and exceeded: "\<And>n k r S. I n k r S \<Longrightarrow>
          P (Inr (exceeded_outcome g)) (emit_complete X (exceeded_outcome g) S)"
  shows "P res S'"
  using assms(1,2)
proof (induction "nat (max_steps g - k_steps k)" arbitrary: n k r S rule: less_induct)
  case less
  show ?case
  proof (cases "k_steps k + 1 > max_steps g")
    case True
    then show ?thesis using less.prems exceeded [OF less.prems(2)] by (simp add: run_loop.simps)
  next
    case False
    then have m: "k_steps k < max_steps g" by simp
    show ?thesis
    proof (cases "turn X g n (k\<lparr>k_steps := k_steps k + 1\<rparr>) r S")
      case (Return res1 S1)
      then have "res1 = res" "S1 = S'" using less.prems(1) m by (simp_all add: run_loop.simps [of X g n])
      then show ?thesis using ret [OF less.prems(2) m Return] by simp
    next
      case (Goto n1 k1 S1)
      then have "k_steps k1 = k_steps k + 1" by (auto dest: turn_steps)
      then have "nat (max_steps g - k_steps k1) < nat (max_steps g - k_steps k)" using m by simp
      moreover have "run_loop X g n1 k1 (if is_exit_node n then r else None) S1 = (res, S')"
        using less.prems(1) m Goto by (simp add: run_loop.simps [of X g n])
      ultimately show ?thesis using less.hyps goto [OF less.prems(2) m Goto] by blast
    qed
  qed
qed

section \<open>What a turn is made of\<close>

text \<open>The two guards and the skip check either end the turn or leave the durable state alone.\<close>

lemma turn_cases:
  assumes "turn X g n k r S = t"
  obtains (fault) e S1 where "fuse_ms g = Inl e" "t = Return (Inl e) S1" "same_core S S1"
  | (stopped) out S1 where "t = Return (Inr out) S1" "o_status out = FAIL" "same_core S S1"
  | (exit) S1 where "is_exit_node n" "t = at_exit X g n k S1" "same_core S S1" "s_ctx S1 = s_ctx S"
  | (resume) out S1 where "\<not> is_exit_node n" "r = Some out" "t = route X g n out k S1"
      "same_core S S1" "s_ctx S1 = s_ctx S"
  | (skip) skip S1 S2 where "\<not> is_exit_node n" "r = None" "same_core S S1" "s_ctx S1 = s_ctx S"
      "check_node_skip X n S1 = (Some skip, S2)" "t = skip_turn X g n skip k S2"
  | (exec) S1 where "\<not> is_exit_node n" "r = None" "same_core S S1" "s_ctx S1 = s_ctx S"
      "s_armed S1 = s_armed S" "check_node_skip X n S1 = (None, S1)" "t = run_turn X g n k S1"
proof -
  obtain fr S1 where f: "fuse_check X g S = (fr, S1)" by force
  obtain cr S2 where c: "cancel_check X ''Pipeline cancelled by user request'' S1 = (cr, S2)" by force
  have core1: "same_core S S1" "s_ctx S1 = s_ctx S" "s_armed S1 = s_armed S"
    using fuse_check_core [OF f] by auto
  have core2: "same_core S S2" "s_ctx S2 = s_ctx S" "s_armed S2 = s_armed S"
    using cancel_check_core [OF c] core1 same_core_trans by (metis, simp_all)
  show ?thesis
  proof (cases fr)
    case (Some res)
    then have t: "t = Return res S1" using assms f by (simp add: turn_def)
    show ?thesis
    proof (cases res)
      case (Inl e)
      then have "fuse_ms g = Inl e" using f Some
        by (auto simp: fuse_check_def Let_def split: sum.splits option.splits if_splits prod.splits)
      then show ?thesis using fault t Inl core1 by blast
    next
      case (Inr out)
      then have "out = duration_outcome g" using f Some
        by (auto simp: fuse_check_def Let_def split: sum.splits option.splits if_splits prod.splits)
      then show ?thesis using stopped t Inr core1 by (simp add: duration_outcome_def)
    qed
  next
    case None
    note fn = f [unfolded None]
    show ?thesis
    proof (cases cr)
      case (Some out)
      then have "out = cancelled_outcome ''Pipeline cancelled by user request''"
        using c by (auto simp: cancel_check_def Let_def split: if_splits prod.splits)
      moreover have "t = Return (Inr out) S2" using assms fn c Some by (simp add: turn_def)
      ultimately show ?thesis using stopped core2 by (simp add: cancelled_outcome_def)
    next
      case None
      note cn = c [unfolded None]
      show ?thesis
      proof (cases "is_exit_node n")
        case True
        then show ?thesis using assms fn cn core2 by (intro exit [of S2]) (simp_all add: turn_def)
      next
        case False
        note ne = False
        show ?thesis
        proof (cases r)
          case (Some out)
          then show ?thesis using assms fn cn core2 ne by (intro resume [of out S2]) (simp_all add: turn_def)
        next
          case None
          obtain sk S3 where s: "check_node_skip X n S2 = (sk, S3)" by force
          show ?thesis
          proof (cases sk)
            case None
            then have "S3 = S2" using s by (auto simp: check_node_skip_def split: list.splits)
            then show ?thesis using assms fn cn core2 ne \<open>r = None\<close> s None
              by (intro exec [of S2]) (simp_all add: turn_def)
          next
            case (Some skip1)
            then show ?thesis using assms fn cn core2 ne \<open>r = None\<close> s
              by (intro skip [of S2 skip1 S3]) (simp_all add: turn_def)
          qed
        qed
      qed
    qed
  qed
qed

definition in_graph :: "graph \<Rightarrow> node \<Rightarrow> bool" where
  "in_graph g n = (n \<in> snd ` set (g_nodes g))"

lemma in_graph_get: "dict_get (g_nodes g) i = Some n \<Longrightarrow> in_graph g n"
  by (force simp: in_graph_def dest: map_of_SomeD)

definition cleared :: "'w engine \<Rightarrow> 'w engine \<Rightarrow> bool" where
  "cleared S S' =
     (s_outcomes S' = [] \<and> s_completed S' = [] \<and> s_failed S' = [] \<and> s_counts S' = s_counts S
      \<and> s_last S' = s_last S \<and> s_trace S' = s_trace S
      \<and> (s_iteration S' = s_iteration S \<or> s_iteration S' = s_iteration S + 1))"

text \<open>A graph that can clear the record of a run: a retry target on a node or on the graph, or a restart edge.\<close>

definition may_clear :: "graph \<Rightarrow> bool" where
  "may_clear g \<longleftrightarrow>
     py_true (graph_attr_get g ''retry_target'') \<or> py_true (graph_attr_get g ''fallback_retry_target'')
     \<or> list_ex (\<lambda>(i, n). py_true (node_attr_get n ''retry_target'') \<or> py_true (node_attr_get n ''fallback_retry_target'')) (g_nodes g)
     \<or> list_ex (\<lambda>e. resolve_bool_attr (e_loop_restart e)) (g_edges g)"

text \<open>Why the record of a run is cleared: such a graph, or a last outcome that failed.\<close>

definition clear_cause :: "graph \<Rightarrow> 'w engine \<Rightarrow> bool" where
  "clear_cause g S = (may_clear g \<or> o_status (final_outcome S) = FAIL)"

definition counters_ok :: "counters \<Rightarrow> bool" where
  "counters_ok k =
     (0 \<le> k_goal_gate_retries k \<and> k_goal_gate_retries k \<le> max_goal_gate_retries
      \<and> 0 \<le> k_failure_routing_retries k \<and> k_failure_routing_retries k \<le> max_goal_gate_retries)"

definition is_fail :: "exc + outcome \<Rightarrow> bool" where
  "is_fail res = (case res of Inl e \<Rightarrow> True | Inr out \<Rightarrow> o_status out = FAIL)"

lemma is_fail_simps [simp]: "is_fail (Inl e)" "is_fail (Inr out) \<longleftrightarrow> o_status out = FAIL"
  by (simp_all add: is_fail_def)

lemma terminate_fails [simp]: "o_status (terminate_pipeline u r) = FAIL"
  by (simp add: terminate_pipeline_def Let_def)

lemma fail_outcomes [simp]:
  "o_status (exceeded_outcome g) = FAIL" "o_status (duration_outcome g) = FAIL"
  "o_status (cancelled_outcome note) = FAIL" "o_status (no_fan_in_outcome n) = FAIL"
  "o_status (skip_routing out) = FAIL"
  by (simp_all add: exceeded_outcome_def duration_outcome_def cancelled_outcome_def
      no_fan_in_outcome_def skip_routing_def)

text \<open>How a turn goes on: at a node of the graph, with the durable state kept or cleared.\<close>

definition goes_on :: "graph \<Rightarrow> counters \<Rightarrow> 'w engine \<Rightarrow> node \<Rightarrow> counters \<Rightarrow> 'w engine \<Rightarrow> bool" where
  "goes_on g k S m k' S' =
     ((\<exists>i. dict_get (g_nodes g) i = Some m) \<and> (same_core S S' \<or> cleared S S' \<and> clear_cause g S)
      \<and> (counters_ok k \<longrightarrow> counters_ok k') \<and> k_steps k' = k_steps k)"

lemma goto_node_spec:
  "goto_node g i k S = Return res S' \<Longrightarrow> is_fail res \<and> S' = S"
  "goto_node g i k S = Goto m k' S' \<Longrightarrow> dict_get (g_nodes g) i = Some m \<and> k' = k \<and> S' = S"
  by (auto simp: goto_node_def split: option.splits)

lemma may_clear_edge: "e \<in> set (g_edges g) \<Longrightarrow> resolve_bool_attr (e_loop_restart e) \<Longrightarrow> may_clear g"
  by (auto simp: may_clear_def list_ex_iff)

lemma may_clear_node:
  assumes "in_graph g n"
    "py_true (node_attr_get n ''retry_target'') \<or> py_true (node_attr_get n ''fallback_retry_target'')"
  shows "may_clear g"
  using assms by (fastforce simp: may_clear_def list_ex_iff in_graph_def)

lemma select_edge_in:
  assumes "select_edge i out c g = Some e"
  shows "e \<in> set (g_edges g)"
proof -
  have f: "suggested_match es ids = Some e' \<Longrightarrow> e' \<in> set es" for es ids e'
    by (induction es ids rule: suggested_match.induct) (auto dest: find_in split: option.splits)
  have "e \<in> set (outgoing_edges g i)"
    using assms
    by (auto simp: select_edge_def Let_def condition_matched_def unconditional_def label_match_def
        dest!: best_in find_in f split: if_splits option.splits)
  then show ?thesis by (simp add: outgoing_edges_def)
qed

lemma failure_target_clears: "in_graph g n \<Longrightarrow> resolve_failure_retry_target g n = Some m \<Longrightarrow> may_clear g"
  by (rule may_clear_node [of g n])
    (auto simp: resolve_failure_retry_target_def py_or_def split: pyval.splits if_splits)

lemma gate_target_clears: "names_node g (goal_gate_retry_target g gate) \<Longrightarrow> may_clear g"
proof -
  assume n: "names_node g (goal_gate_retry_target g gate)"
  then have t: "py_true (goal_gate_retry_target g gate)" by (auto simp: names_node_def split: pyval.splits)
  show "may_clear g"
  proof (cases "dict_get (g_nodes g) gate")
    case None
    then show ?thesis using t by (auto simp: goal_gate_retry_target_def py_or_def may_clear_def split: if_splits)
  next
    case (Some a)
    show ?thesis
    proof (cases "py_true (node_attr_get a ''retry_target'') \<or> py_true (node_attr_get a ''fallback_retry_target'')")
      case True
      then show ?thesis by (rule may_clear_node [OF in_graph_get [OF Some]])
    next
      case False
      then show ?thesis using t Some by (auto simp: goal_gate_retry_target_def py_or_def may_clear_def split: if_splits)
    qed
  qed
qed

lemma retry_target_in: "resolve_failure_retry_target g n = Some m \<Longrightarrow> \<exists>i. dict_get (g_nodes g) i = Some m"
  by (auto simp: resolve_failure_retry_target_def split: pyval.splits if_splits)

lemma follow_edge_spec:
  "follow_edge X g e k S = Return res S' \<Longrightarrow> is_fail res \<and> (same_core S S' \<or> cleared S S')"
  "e \<in> set (g_edges g) \<Longrightarrow> follow_edge X g e k S = Goto m k' S' \<Longrightarrow> goes_on g k S m k' S'"
  using may_clear_edge [of e g]
  by (auto simp: clear_cause_def follow_edge_def Let_def goes_on_def same_core_def cleared_def counters_ok_def
      max_goal_gate_retries_def dest!: goto_node_spec split: if_splits)

lemma no_edge_spec:
  "no_edge X g n out k S = Return res S' \<Longrightarrow> is_fail res \<and> same_core S S'"
  "in_graph g n \<Longrightarrow> no_edge X g n out k S = Goto m k' S' \<Longrightarrow> goes_on g k S m k' S'"
  using failure_target_clears [of g n]
  by (auto simp: clear_cause_def no_edge_def Let_def goes_on_def same_core_def cleared_def counters_ok_def
      dest: retry_target_in split: option.splits if_splits)

lemma route_spec:
  "route X g n out k S = Return res S' \<Longrightarrow> is_fail res \<and> (same_core S S' \<or> cleared S S')"
  "in_graph g n \<Longrightarrow> route X g n out k S = Goto m k' S' \<Longrightarrow> goes_on g k S m k' S'"
proof -
  assume "route X g n out k S = Return res S'"
  then show "is_fail res \<and> (same_core S S' \<or> cleared S S')"
    by (auto simp: route_def Let_def same_core_def dest!: goto_node_spec(1) follow_edge_spec(1) no_edge_spec(1)
        split: option.splits if_splits)
next
  assume n: "in_graph g n"
  assume "route X g n out k S = Goto m k' S'"
  moreover have "goes_on g k S m k S" if "dict_get (g_nodes g) i = Some m" for i
    using that by (auto simp: goes_on_def)
  ultimately show "goes_on g k S m k' S'"
    by (auto simp: route_def Let_def dest!: goto_node_spec(2) dest: follow_edge_spec(2) [OF select_edge_in] no_edge_spec(2) [OF n]
        split: option.splits if_splits)
qed

lemma gate_retry_Some:
  "gate_retry g gate k = Some m \<Longrightarrow>
   (\<exists>i. dict_get (g_nodes g) i = Some m) \<and> k_goal_gate_retries k < max_goal_gate_retries"
  by (auto simp: gate_retry_def split: option.splits list.splits if_splits)

text \<open>The state in which the gates are read is the one the exit node was reached with.\<close>

lemma gate_verdict_cong:
  "s_outcomes S' = s_outcomes S \<Longrightarrow> s_completed S' = s_completed S \<Longrightarrow> gate_verdict g S' = gate_verdict g S"
proof -
  assume a: "s_outcomes S' = s_outcomes S" "s_completed S' = s_completed S"
  show "gate_verdict g S' = gate_verdict g S" unfolding gate_verdict_def unsatisfied_gates_def final_outcome_def a ..
qed

lemma gate_verdict_checkpointed [simp]: "gate_verdict g (checkpoint_and_emit X g i k S) = gate_verdict g S"
  by (rule gate_verdict_cong) simp_all

lemma at_exit_return:
  assumes "at_exit X g n k S = Return res S'"
  shows "res = Inr (gate_verdict g S) \<and> s_outcomes S' = s_outcomes S \<and> s_completed S' = s_completed S
    \<and> s_iteration S' = s_iteration S \<and> s_counts S' = s_counts S
    \<and> s_last S' = s_last (checkpoint_and_emit X g (n_id n) k S) \<and> s_trace S' = s_trace S"
  using assms
  by (auto simp: at_exit_def Let_def check_goal_gates_def split: option.splits if_splits)

lemma gate_retry_cause:
  assumes "gate_retry g (gate_verdict g S) k = Some m" "o_status (gate_verdict g S) = FAIL"
  shows "clear_cause g S"
proof (cases "unsatisfied_gates g S")
  case Nil
  then show ?thesis using assms(2) by (simp add: gate_verdict_def clear_cause_def)
next
  case (Cons gate rest)
  then have "names_node g (goal_gate_retry_target g gate)"
    using assms(1) by (auto simp: gate_verdict_def gate_retry_def mk_outcome_def Let_def split: if_splits)
  then show ?thesis using gate_target_clears by (simp add: clear_cause_def)
qed

lemma clear_cause_cong: "s_outcomes S' = s_outcomes S \<Longrightarrow> s_completed S' = s_completed S \<Longrightarrow> clear_cause g S' = clear_cause g S"
  by (simp add: clear_cause_def final_outcome_def cong: if_cong)

lemma at_exit_goto:
  assumes "at_exit X g n k S = Goto m k' S'"
  shows "goes_on g k (checkpoint_and_emit X g (n_id n) k S) m k' S' \<and> o_status (gate_verdict g S) = FAIL"
  using assms gate_retry_cause [of g S k] clear_cause_cong [of "checkpoint_and_emit X g (n_id n) k S" S g]
  by (auto simp: at_exit_def Let_def check_goal_gates_def goes_on_def cleared_def counters_ok_def
      dest: gate_retry_Some split: option.splits if_splits)

text \<open>The checkpoint on record describes the state it was written in, at the node \<open>n\<close>.\<close>

definition saved :: "'w eenv \<Rightarrow> graph \<Rightarrow> node \<Rightarrow> counters \<Rightarrow> checkpoint option \<Rightarrow> 'w engine \<Rightarrow> bool" where
  "saved X g n k old S =
     (if x_branch_clone X then s_last S = old
      else \<exists>now. s_last S = Some (checkpoint_of X g (n_id n) k now S))"

lemma checkpoint_of_cong:
  "s_outcomes S' = s_outcomes S \<Longrightarrow> s_completed S' = s_completed S \<Longrightarrow> s_ctx S' = s_ctx S \<Longrightarrow>
   s_iteration S' = s_iteration S \<Longrightarrow> s_counts S' = s_counts S \<Longrightarrow>
   checkpoint_of X g i k now S' = checkpoint_of X g i k now S"
  by (simp add: checkpoint_of_def engine_state_block_def)

lemma saved_checkpoint:
  "s_last S = old \<Longrightarrow> saved X g n k old (checkpoint_and_emit X g (n_id n) k S)"
proof -
  have "checkpoint_of X g i k now (checkpoint_and_emit X g j k S) = checkpoint_of X g i k now S" for i j now
    by (rule checkpoint_of_cong) simp_all
  then show "s_last S = old \<Longrightarrow> saved X g n k old (checkpoint_and_emit X g (n_id n) k S)"
    by (auto simp: saved_def checkpoint_last)
qed

text \<open>The line of the trace for an outcome.\<close>

definition trace_line :: "'w engine \<Rightarrow> string \<Rightarrow> outcome \<Rightarrow> trace_record" where
  "trace_line S i out =
     \<lparr>t_iteration = s_iteration S, t_node_id = i, t_status = o_status out,
      t_preferred_label = o_preferred_label out, t_is_explicit = o_is_explicit out\<rparr>"

lemma record_skip_core:
  assumes "record_skip X g n skip k S = S'"
  shows "s_outcomes S' = dict_set (n_id n) skip (s_outcomes S)" "s_completed S' = s_completed S @ [n_id n]"
    "s_iteration S' = s_iteration S" "s_counts S' = s_counts S"
    "s_failed S' = mark_failed (n_id n) (node_outputs g (n_id n)) (s_failed S)"
    "s_ctx S' = s_ctx S"
    "saved X g n k (s_last S) S'"
    "s_trace S' = s_trace S @ [trace_line S (n_id n) skip]"
  using assms by (auto simp: trace_line_def record_skip_def Let_def populate_failed_outputs_def intro!: saved_checkpoint)

lemma skip_turn_spec:
  "skip_turn X g n skip k S = Return res S' \<Longrightarrow> is_fail res \<and> same_core (record_skip X g n skip k S) S'"
  "skip_turn X g n skip k S = Goto m k' S' \<Longrightarrow> goes_on g k (record_skip X g n skip k S) m k' S'"
  by (auto simp: skip_turn_def Let_def goes_on_def same_core_def counters_ok_def
      dest!: goto_node_spec dest: retry_target_in split: option.splits if_splits)

lemma record_completion_core:
  assumes "record_completion X g n out idx k S = S'"
  shows "s_outcomes S' = dict_set (n_id n) out (s_outcomes S)" "s_completed S' = s_completed S @ [n_id n]"
    "s_iteration S' = s_iteration S" "s_counts S' = s_counts S"
    "s_failed S' = (if o_status out = FAIL then mark_failed (n_id n) (node_outputs g (n_id n)) (s_failed S)
                    else s_failed S)"
    "s_ctx S' = apply_outcome out (s_ctx S)" "saved X g n k (s_last S) S'"
    "s_trace S' = s_trace S @ [trace_line S (n_id n) out]"
  using assms by (auto simp: trace_line_def record_completion_def Let_def populate_failed_outputs_def intro!: saved_checkpoint)

text \<open>The execution of a node: an end is always a failure, and what it leaves of the durable state.\<close>

lemma same_core_ended: "same_core S S' \<Longrightarrow> ended_core n S S'"
  by (simp add: same_core_def ended_core_def)

lemma run_update_core: "same_core S (S\<lparr>s_run := r\<rparr>)"
  by (simp add: same_core_def)

lemma terminate_child_spec:
  "terminate_child_dot_resolution X (n_id n) m idx S = (out, S') \<Longrightarrow>
   o_status out = FAIL \<and> ended_core n S S'"
  by (auto simp: terminate_child_dot_resolution_def Let_def ended_core_def)

lemma execute_node_spec:
  "execute_node X g n pol bound idx S = Ended res S' \<Longrightarrow> is_fail res \<and> ended_core n S S'"
  "execute_node X g n pol bound idx S = Ran out S' \<Longrightarrow> same_core S S'"
proof -
  assume "execute_node X g n pol bound idx S = Ended res S'"
  moreover have "ended_core n (S\<lparr>s_run := r\<rparr>) S' \<Longrightarrow> ended_core n S S'" for r
    by (simp add: ended_core_def)
  ultimately show "is_fail res \<and> ended_core n S S'"
    using run_update_core [of S] same_core_trans
    by (auto simp: execute_node_def Let_def ended_core_def dest!: timed_out_core(1) [where n' = n] terminate_child_spec
        intro!: same_core_ended split: option.splits sum.splits exc.splits prod.splits)
next
  assume "execute_node X g n pol bound idx S = Ran out S'"
  then show "same_core S S'"
    by (auto simp: execute_node_def Let_def same_core_def dest!: timed_out_core(2)
        split: option.splits sum.splits exc.splits prod.splits)
qed

lemma after_node_cases:
  assumes "after_node X g n sw idx out0 k S = t"
  obtains (cancelled) out S' where "t = Return (Inr out) S'" "o_status out = FAIL" "same_core S S'"
  | (routed) out S' where "same_core S S'" "out = settle_outcome X n sw out0 S'"
      "s_ctx S' = ctx_pop resume_fidelity_cap_key (s_ctx S)"
      "t = route X g n out k (record_completion X g n out idx k S')"
proof -
  define S1 where "S1 = on_ctx (ctx_pop resume_fidelity_cap_key) (tick (x_elapsed_ms X) S)"
  obtain cr S2 where c: "cancel_check X (''Pipeline cancelled after node '' @ quoted (n_id n) @ '' completed'') S1 = (cr, S2)"
    by force
  have core: "same_core S S2" "s_ctx S2 = ctx_pop resume_fidelity_cap_key (s_ctx S)"
    using cancel_check_core [OF c] by (auto simp: S1_def same_core_def)
  show ?thesis
  proof (cases cr)
    case None
    then show ?thesis using assms c core unfolding after_node_def S1_def [symmetric] Let_def
      by (intro routed [of S2 "settle_outcome X n sw out0 S2"]) simp_all
  next
    case (Some out)
    then have "o_status out = FAIL" using c by (auto simp: cancel_check_def Let_def split: if_splits prod.splits)
    then show ?thesis using assms c core Some unfolding after_node_def S1_def [symmetric] Let_def
      by (intro cancelled [of out S2]) simp_all
  qed
qed

definition executed_core :: "node \<Rightarrow> 'w engine \<Rightarrow> 'w engine \<Rightarrow> bool" where
  "executed_core n S S' =
     (s_outcomes S' = s_outcomes S \<and> s_completed S' = s_completed S \<and> s_iteration S' = s_iteration S
      \<and> s_counts S' = s_counts (count_execution (n_id n) S) \<and> s_failed S' = s_failed S \<and> s_last S' = s_last S
      \<and> s_trace S' = s_trace S)"

lemma executed_same: "executed_core n S A \<Longrightarrow> same_core A B \<Longrightarrow> executed_core n S B"
  by (simp add: executed_core_def same_core_def)

text \<open>The execution path of a turn: an exception before anything happened, a failure that ends the
  run, or an outcome recorded and routed.\<close>

lemma run_turn_cases:
  assumes "run_turn X g n k S = t"
  obtains (unresolved) e where "registry_get (x_registered X) n = Inl e" "t = Return (Inl e) S"
  | (ended) res A S' where "t = Return res S'" "is_fail res" "executed_core n S A" "ended_core n A S'"
  | (routed) out out0 sw idx S' where "executed_core n S S'" "out = settle_outcome X n sw out0 S'"
      "t = route X g n out k (record_completion X g n out idx k S')"
proof (cases "registry_get (x_registered X) n")
  case (Inl e)
  then show ?thesis using assms unresolved by (simp add: run_turn_def)
next
  case (Inr h)
  obtain idx S1 where s1: "start_node_execution X g n S = (idx, S1)" by force
  obtain el S2 where s2: "read_world (x_elapsed_ms X) S1 = (el, S2)" by force
  obtain sw S3 where s3: "read_world (e_wall (x_env X)) S2 = (sw, S3)" by force
  have core: "executed_core n S S3"
    using start_node_frame [OF s1] s2 s3 by (auto simp: executed_core_def read_world_eq)
  have failed: ?thesis if "t = Return (Inl e) S3" for e
    using ended [OF that _ core same_core_ended [OF same_core_refl]] by simp
  show ?thesis
  proof (cases "policy_from_node n g")
    case (Inl e)
    then show ?thesis using assms Inr s1 s2 s3 by (intro failed [of e]) (simp add: run_turn_def)
  next
    case p: (Inr pol)
    show ?thesis
    proof (cases "node_timeout_s n")
      case (Inl e)
      then show ?thesis using assms Inr p s1 s2 s3 by (intro failed [of e]) (simp add: run_turn_def)
    next
      case to: (Inr timeout)
      show ?thesis
      proof (cases "fuse_ms g")
        case (Inl e)
        then show ?thesis using assms Inr p to s1 s2 s3 by (intro failed [of e]) (simp add: run_turn_def)
      next
        case fu: (Inr fuse)
        let ?b = "effective_timeout timeout (fuse_remaining_s fuse el)"
        show ?thesis
        proof (cases "execute_node X g n pol ?b idx S3")
          case (Ended res S4)
          then have "t = Return res S4" using assms Inr p to fu s1 s2 s3 by (simp add: run_turn_def)
          then show ?thesis using ended core execute_node_spec(1) [OF Ended] by blast
        next
          case (Ran out0 S4)
          have c4: "executed_core n S S4" using executed_same core execute_node_spec(2) [OF Ran] by blast
          have "after_node X g n sw idx out0 k S4 = t"
            using assms Inr p to fu s1 s2 s3 Ran by (simp add: run_turn_def)
          then show ?thesis
          proof (cases rule: after_node_cases)
            case (cancelled out S')
            then show ?thesis using ended [OF cancelled(1) _ c4 same_core_ended] by simp
          next
            case (routed out S')
            then show ?thesis using that(3) executed_same [OF c4] by blast
          qed
        qed
      qed
    qed
  qed
qed

section \<open>Invariants of the loop\<close>

definition node_ids :: "graph \<Rightarrow> string set" where
  "node_ids g = set (dict_keys (g_nodes g))"

definition node_in :: "graph \<Rightarrow> node \<Rightarrow> bool" where
  "node_in g n = (dict_get (g_nodes g) (n_id n) = Some n)"

lemma node_in_graph: "node_in g n \<Longrightarrow> in_graph g n"
  by (auto simp: node_in_def intro: in_graph_get)

lemma node_in_ids: "node_in g n \<Longrightarrow> n_id n \<in> node_ids g"
  by (force simp: node_in_def node_ids_def dest: map_of_SomeD)

lemma node_in_get: "graph_ok g \<Longrightarrow> dict_get (g_nodes g) i = Some n \<Longrightarrow> node_in g n"
  by (simp add: node_in_def graph_ok_id)

text \<open>
  The interface of an invariant of the loop: \<open>J\<close> holds at every step boundary of a turn, \<open>L\<close> of the
  state the run returns. The laws are one per way the durable state changes: not at all, cleared,
  the execution count of a node, the record of a skip or of a completion, the checkpoint at the
  exit, and the end of the run inside a node.
\<close>

locale loop_invariant =
  fixes X :: "'w eenv" and g :: graph
    and J :: "counters \<Rightarrow> 'w engine \<Rightarrow> bool" and L :: "'w engine \<Rightarrow> bool"
  assumes graph: "J k S \<Longrightarrow> graph_ok g"
    and J_step: "J k S \<Longrightarrow> k_steps k < max_steps g \<Longrightarrow> J (k\<lparr>k_steps := k_steps k + 1\<rparr>) S"
    and J_same: "J k S \<Longrightarrow> same_core S S' \<Longrightarrow> J k S'"
    and J_goes: "J k S \<Longrightarrow> goes_on g k S m k' S' \<Longrightarrow> J k' S'"
    and J_executed: "J k S \<Longrightarrow> executed_core n S S' \<Longrightarrow> J k S'"
    and J_exit: "J k S \<Longrightarrow> node_in g n \<Longrightarrow> J k (checkpoint_and_emit X g (n_id n) k S)"
    and J_skip: "J k S \<Longrightarrow> node_in g n \<Longrightarrow> J k (record_skip X g n skip k S)"
    and J_completion: "J k S \<Longrightarrow> node_in g n \<Longrightarrow> J k (record_completion X g n out idx k S)"
    and L_of: "J k S \<Longrightarrow> L S"
    and L_cleared: "J k S \<Longrightarrow> cleared S S' \<Longrightarrow> L S'"
    and L_ended: "J k S \<Longrightarrow> node_in g n \<Longrightarrow> ended_core n S S' \<Longrightarrow> L S'"
    and L_exit: "L S \<Longrightarrow> s_outcomes S' = s_outcomes S \<Longrightarrow> s_completed S' = s_completed S \<Longrightarrow>
        s_iteration S' = s_iteration S \<Longrightarrow> s_counts S' = s_counts S \<Longrightarrow> s_last S' = s_last S \<Longrightarrow> L S'"
begin

definition after :: "'w turn \<Rightarrow> bool" where
  "after t = (case t of Return res S' \<Rightarrow> L S' | Goto m k' S' \<Rightarrow> J k' S' \<and> node_in g m)"

lemma after_goes:
  assumes "J k S" "goes_on g k S m k' S'"
  shows "after (Goto m k' S')"
proof -
  obtain i where "dict_get (g_nodes g) i = Some m" using assms(2) by (auto simp: goes_on_def)
  then show ?thesis using J_goes [OF assms] node_in_get [OF graph [OF assms(1)]] by (simp add: after_def)
qed

lemma after_route:
  assumes J: "J k S" and n: "node_in g n"
  shows "after (route X g n out k S)"
proof (cases "route X g n out k S")
  case (Return res S')
  have "same_core S S' \<or> cleared S S'" using route_spec(1) [OF Return] by simp
  then have "L S'" using L_of [OF J_same [OF J]] L_cleared [OF J] by blast
  then show ?thesis by (simp add: Return after_def)
next
  case (Goto m k' S')
  then show ?thesis using after_goes [OF J route_spec(2) [OF node_in_graph [OF n] Goto]] by simp
qed

lemma after_skip_turn:
  assumes "J k S" "node_in g n"
  shows "after (skip_turn X g n skip k S)"
proof (cases "skip_turn X g n skip k S")
  case (Return res S')
  have "L S'" using L_of [OF J_same [OF J_skip [OF assms]]] skip_turn_spec(1) [OF Return] by blast
  then show ?thesis by (simp add: Return after_def)
next
  case (Goto m k' S')
  then show ?thesis using after_goes [OF J_skip [OF assms] skip_turn_spec(2) [OF Goto]] by simp
qed

lemma after_at_exit:
  assumes "J k S" "node_in g n"
  shows "after (at_exit X g n k S)"
proof (cases "at_exit X g n k S")
  case (Return res S')
  have "L S'"
    using L_exit [OF L_of [OF J_exit [OF assms]]] at_exit_return [OF Return] by simp
  then show ?thesis by (simp add: Return after_def)
next
  case (Goto m k' S')
  show ?thesis using after_goes [OF J_exit [OF assms]] at_exit_goto [OF Goto] by (simp add: Goto)
qed

lemma after_run_turn:
  assumes "J k S" "node_in g n"
  shows "after (run_turn X g n k S)"
  using refl [of "run_turn X g n k S"]
proof (cases rule: run_turn_cases)
  case (unresolved e)
  then show ?thesis using L_of assms(1) by (simp add: after_def)
next
  case (ended res A S')
  then show ?thesis using L_ended [OF J_executed [OF assms(1) ended(3)] assms(2) ended(4)] by (simp add: after_def)
next
  case (routed out out0 sw idx S')
  show ?thesis
    unfolding routed(3) by (rule after_route [OF J_completion [OF J_executed [OF assms(1) routed(1)] assms(2)] assms(2)])
qed

lemma after_turn:
  assumes "J k S" "node_in g n"
  shows "after (turn X g n k r S)"
  using refl [of "turn X g n k r S"]
proof (cases rule: turn_cases)
  case (fault e S1)
  then show ?thesis using L_of J_same [OF assms(1)] by (auto simp: after_def)
next
  case (stopped out S1)
  then show ?thesis using L_of J_same [OF assms(1)] by (auto simp: after_def)
next
  case (exit S1)
  then show ?thesis using after_at_exit [OF J_same [OF assms(1)] assms(2)] by simp
next
  case (resume out S1)
  then show ?thesis using after_route [OF J_same [OF assms(1)] assms(2)] by simp
next
  case (skip sk S1 S2)
  then have "same_core S S2" using node_skip_core [OF skip(5)] same_core_trans by blast
  then show ?thesis using skip(6) after_skip_turn [OF J_same [OF assms(1)] assms(2)] by simp
next
  case (exec S1)
  then show ?thesis using after_run_turn [OF J_same [OF assms(1)] assms(2)] by simp
qed

lemma run_loop_invariant:
  assumes "run_loop X g n k r S = (res, S')" "J k S" "node_in g n"
  shows "L S'"
proof (rule run_loop_rule [OF assms(1), where I = "\<lambda>n k r S. J k S \<and> node_in g n" and P = "\<lambda>res S'. L S'"])
  fix n k r S res S'
  assume "J k S \<and> node_in g n" "k_steps k < max_steps g"
    "turn X g n (k\<lparr>k_steps := k_steps k + 1\<rparr>) r S = Return res S'"
  then show "L S'" using after_turn [OF J_step, of k S n r] by (simp add: after_def)
next
  fix n k r S n' k' S'
  assume "J k S \<and> node_in g n" "k_steps k < max_steps g"
    "turn X g n (k\<lparr>k_steps := k_steps k + 1\<rparr>) r S = Goto n' k' S'"
  then show "J k' S' \<and> node_in g n'" using after_turn [OF J_step, of k S n r] by (simp add: after_def)
next
  fix n k r S
  assume "J k S \<and> node_in g n"
  moreover have "same_core S (emit_complete X (exceeded_outcome g) S)" by (simp add: same_core_def)
  ultimately show "L (emit_complete X (exceeded_outcome g) S)" using L_of J_same by blast
qed (use assms in auto)

end

section \<open>The recorded state is about nodes of the graph\<close>

definition state_ok :: "graph \<Rightarrow> 'w engine \<Rightarrow> bool" where
  "state_ok g S =
     (dict_ok (s_outcomes S) \<and> set (dict_keys (s_outcomes S)) = set (s_completed S)
      \<and> set (s_completed S) \<subseteq> node_ids g)"

lemma state_ok_cong:
  "s_outcomes S' = s_outcomes S \<Longrightarrow> s_completed S' = s_completed S \<Longrightarrow> state_ok g S' = state_ok g S"
  by (simp add: state_ok_def)

lemma state_ok_record:
  assumes "state_ok g S" "n_id n \<in> node_ids g" "s_outcomes S' = dict_set (n_id n) out (s_outcomes S)"
    "s_completed S' = s_completed S @ [n_id n]"
  shows "state_ok g S'"
  using assms by (auto simp: state_ok_def update_keys)

text \<open>The checkpoint on record, when there is one, was taken in such a state at a node of the graph.\<close>

definition checkpoint_good :: "'w eenv \<Rightarrow> graph \<Rightarrow> checkpoint \<Rightarrow> bool" where
  "checkpoint_good X g cp =
     (\<exists>i k now (S :: 'w engine). cp = checkpoint_of X g i k now S \<and> state_ok g S \<and> i \<in> node_ids g
        \<and> counters_ok k \<and> k_steps k \<le> max_steps g)"

definition last_ok :: "'w eenv \<Rightarrow> graph \<Rightarrow> 'w engine \<Rightarrow> bool" where
  "last_ok X g S = (case s_last S of None \<Rightarrow> True | Some cp \<Rightarrow> checkpoint_good X g cp)"

lemma last_ok_cong: "s_last S' = s_last S \<Longrightarrow> last_ok X g S' = last_ok X g S"
  by (simp add: last_ok_def)

lemma last_ok_saved:
  assumes "saved X g n k (s_last S) S'" "state_ok g S'" "n_id n \<in> node_ids g" "counters_ok k"
    "k_steps k \<le> max_steps g" "last_ok X g S"
  shows "last_ok X g S'"
proof (cases "x_branch_clone X")
  case True
  then show ?thesis using assms by (simp add: last_ok_def saved_def)
next
  case False
  then obtain now where "s_last S' = Some (checkpoint_of X g (n_id n) k now S')"
    using assms(1) by (auto simp: saved_def)
  then show ?thesis using assms(2-5) unfolding last_ok_def checkpoint_good_def by fastforce
qed

definition loop_ok :: "'w eenv \<Rightarrow> graph \<Rightarrow> counters \<Rightarrow> 'w engine \<Rightarrow> bool" where
  "loop_ok X g k S =
     (graph_ok g \<and> state_ok g S \<and> counters_ok k \<and> k_steps k \<le> max_steps g \<and> last_ok X g S)"

lemma loop_ok_saved:
  "loop_ok X g k S \<Longrightarrow> node_in g n \<Longrightarrow> state_ok g S' \<Longrightarrow> saved X g n k (s_last S) S' \<Longrightarrow> loop_ok X g k S'"
  unfolding loop_ok_def by (metis last_ok_saved node_in_ids)

lemma loop_ok_record:
  assumes "loop_ok X g k S" "node_in g n" "s_outcomes S' = dict_set (n_id n) out (s_outcomes S)"
    "s_completed S' = s_completed S @ [n_id n]" "saved X g n k (s_last S) S'"
  shows "loop_ok X g k S'"
  using assms(1) state_ok_record [OF _ node_in_ids [OF assms(2)] assms(3,4)]
    loop_ok_saved [OF assms(1,2) _ assms(5)] by (simp add: loop_ok_def)

lemma state_ok_same: "same_core S S' \<Longrightarrow> state_ok g S \<Longrightarrow> state_ok g S'"
  by (simp add: same_core_def state_ok_def)

lemma state_ok_cleared: "cleared S S' \<Longrightarrow> state_ok g S'"
  by (simp add: cleared_def state_ok_def)

lemma last_ok_kept:
  "same_core S S' \<Longrightarrow> last_ok X g S' = last_ok X g S" "cleared S S' \<Longrightarrow> last_ok X g S' = last_ok X g S"
  "executed_core n S S' \<Longrightarrow> last_ok X g S' = last_ok X g S" "ended_core n S S' \<Longrightarrow> last_ok X g S' = last_ok X g S"
  by (simp_all add: same_core_def cleared_def executed_core_def ended_core_def last_ok_def)

lemma loop_ok_same: "loop_ok X g k S \<Longrightarrow> same_core S S' \<Longrightarrow> loop_ok X g k S'"
  unfolding loop_ok_def using last_ok_kept(1) state_ok_same by blast

lemma loop_ok_executed: "loop_ok X g k S \<Longrightarrow> executed_core n S S' \<Longrightarrow> loop_ok X g k S'"
  unfolding loop_ok_def using last_ok_kept(3) state_ok_cong [of S' S g] executed_core_def [of n S S'] by blast

lemma loop_ok_goes:
  assumes "loop_ok X g k S" "goes_on g k S m k' S'"
  shows "loop_ok X g k' S'"
proof -
  have k: "counters_ok k'" "k_steps k' = k_steps k" using assms by (auto simp: loop_ok_def goes_on_def)
  consider "same_core S S'" | "cleared S S'" using assms(2) unfolding goes_on_def by blast
  then have "state_ok g S' \<and> last_ok X g S'"
  proof cases
    case 1
    then show ?thesis using loop_ok_same [OF assms(1)] by (simp add: loop_ok_def)
  next
    case 2
    then show ?thesis using state_ok_cleared last_ok_kept(2) assms(1) unfolding loop_ok_def by blast
  qed
  then show ?thesis using k assms(1) by (simp add: loop_ok_def)
qed

lemma loop_ok_at_exit:
  "loop_ok X g k S \<Longrightarrow> node_in g n \<Longrightarrow> loop_ok X g k (checkpoint_and_emit X g (n_id n) k S)"
  by (rule loop_ok_saved [OF _ _ _ saved_checkpoint [OF refl]]) (simp_all add: loop_ok_def state_ok_def)

lemma loop_ok_last: "loop_ok X g k S \<Longrightarrow> last_ok X g S" "loop_ok X g k S \<Longrightarrow> graph_ok g"
  by (simp_all add: loop_ok_def)

lemma loop_ok_step:
  "loop_ok X g k S \<Longrightarrow> k_steps k < max_steps g \<Longrightarrow> loop_ok X g (k\<lparr>k_steps := k_steps k + 1\<rparr>) S"
  by (simp add: loop_ok_def counters_ok_def)

lemma loop_ok_skip: "loop_ok X g k S \<Longrightarrow> node_in g n \<Longrightarrow> loop_ok X g k (record_skip X g n skip k S)"
  by (rule loop_ok_record [OF _ _ record_skip_core(1) [OF refl] record_skip_core(2) [OF refl] record_skip_core(7) [OF refl]])

lemma loop_ok_completion:
  "loop_ok X g k S \<Longrightarrow> node_in g n \<Longrightarrow> loop_ok X g k (record_completion X g n out idx k S)"
  by (rule loop_ok_record [OF _ _ record_completion_core(1) [OF refl] record_completion_core(2) [OF refl]
        record_completion_core(7) [OF refl]])

interpretation li: loop_invariant X g "loop_ok X g" "last_ok X g" for X :: "'w eenv" and g
proof
  fix k :: counters and S S' :: "'w engine" and n
  show "loop_ok X g k S \<Longrightarrow> cleared S S' \<Longrightarrow> last_ok X g S'"
    using loop_ok_last(1) last_ok_kept(2) by blast
  show "loop_ok X g k S \<Longrightarrow> ended_core n S S' \<Longrightarrow> last_ok X g S'"
    using loop_ok_last(1) last_ok_kept(4) by blast
  show "last_ok X g S \<Longrightarrow> s_last S' = s_last S \<Longrightarrow> last_ok X g S'"
    using last_ok_cong by blast
qed (fact loop_ok_last loop_ok_step loop_ok_same loop_ok_goes loop_ok_executed loop_ok_at_exit
    loop_ok_skip loop_ok_completion)+

end
