(* ===== verification/Fan_In.thy ===== *)
theory Fan_In
  imports Engine
begin

text \<open>
  \<open>_find_fan_in_node\<close>: the breadth-first search visits exactly the nodes reachable over edges, at the length
  of a shortest walk, and the node it picks is the one nearest that every branch reaches and that is not itself the head
  of a branch.
\<close>

definition edge_rel :: "graph \<Rightarrow> (string \<times> string) set" where
  "edge_rel g = (\<lambda>e. (from_node e, to_node e)) ` set (g_edges g)"

declare bfs.simps(2) [simp del]

lemma bfs_pop:
  "dict_has visited i \<Longrightarrow> bfs g ((i, d) # queue) visited = bfs g queue visited"
  "\<not> dict_has visited i \<Longrightarrow> bfs g ((i, d) # queue) visited =
     bfs g (queue @ bfs_children g i d (visited @ [(i, d)])) (visited @ [(i, d)])"
  by (simp_all add: bfs.simps(2) Let_def)

lemma children_rel: "e \<in> set (outgoing_edges g i) \<longleftrightarrow> e \<in> set (g_edges g) \<and> from_node e = i"
  by (auto simp: outgoing_edges_def)

lemma dict_has_snoc: "dict_has (d @ [(i, x)]) j \<longleftrightarrow> dict_has d j \<or> j = i"
  by (auto simp: dict_has_def)

text \<open>Soundness: what is visited was reachable from the root.\<close>

lemma bfs_sound:
  assumes "\<forall>i \<in> fst ` set queue. (br, i) \<in> (edge_rel g)\<^sup>*"
    "\<forall>i. dict_has visited i \<longrightarrow> (br, i) \<in> (edge_rel g)\<^sup>*" "dict_has (bfs g queue visited) i"
  shows "(br, i) \<in> (edge_rel g)\<^sup>*"
  using assms
proof (induction g queue visited rule: bfs.induct)
  case (1 g visited)
  then show ?case by simp
next
  case (2 g j d queue visited)
  show ?case
  proof (cases "dict_has visited j")
    case True
    then show ?thesis using 2 by (simp add: bfs_pop)
  next
    case False
    let ?v = "visited @ [(j, d)]"
    have j: "(br, j) \<in> (edge_rel g)\<^sup>*" using 2(3) by simp
    have "\<forall>m \<in> fst ` set (queue @ bfs_children g j d ?v). (br, m) \<in> (edge_rel g)\<^sup>*"
    proof
      fix m assume "m \<in> fst ` set (queue @ bfs_children g j d ?v)"
      then have "m \<in> fst ` set queue \<or> (j, m) \<in> edge_rel g"
        by (force simp: bfs_children_def children_rel edge_rel_def)
      then show "(br, m) \<in> (edge_rel g)\<^sup>*" using 2(3) j by (auto intro: rtrancl_into_rtrancl)
    qed
    moreover have "\<forall>m. dict_has ?v m \<longrightarrow> (br, m) \<in> (edge_rel g)\<^sup>*"
      using 2(4) j by (auto simp: dict_has_snoc)
    ultimately show ?thesis using 2(2) [OF False refl] 2(5) False by (simp add: bfs_pop)
  qed
qed

text \<open>Completeness: the visited set contains the queue and is closed under edges.\<close>

definition closed_up_to :: "graph \<Rightarrow> (string \<times> nat) list \<Rightarrow> nat dict \<Rightarrow> bool" where
  "closed_up_to g queue visited =
     (\<forall>e \<in> set (g_edges g). dict_has visited (from_node e) \<longrightarrow>
        dict_has visited (to_node e) \<or> to_node e \<in> fst ` set queue)"

lemma bfs_complete:
  assumes "closed_up_to g queue visited"
  shows "closed_up_to g [] (bfs g queue visited)
    \<and> (\<forall>i. dict_has visited i \<or> i \<in> fst ` set queue \<longrightarrow> dict_has (bfs g queue visited) i)"
  using assms
proof (induction g queue visited rule: bfs.induct)
  case (1 g visited)
  then show ?case by simp
next
  case (2 g j d queue visited)
  show ?case
  proof (cases "dict_has visited j")
    case True
    then have "closed_up_to g queue visited" using 2(3) by (auto simp: closed_up_to_def)
    then show ?thesis using 2(1) True by (auto simp: bfs_pop)
  next
    case False
    let ?v = "visited @ [(j, d)]" and ?q = "queue @ bfs_children g j d (visited @ [(j, d)])"
    have "closed_up_to g ?q ?v"
      using 2(3) by (force simp: closed_up_to_def dict_has_snoc bfs_children_def children_rel)
    from 2(2) [OF False refl this] show ?thesis using False by (auto simp: dict_has_snoc bfs_pop)
  qed
qed

lemma closed_reach:
  assumes "(a, b) \<in> (edge_rel g)\<^sup>*" "closed_up_to g [] visited" "dict_has visited a"
  shows "dict_has visited b"
  using assms by (induction rule: rtrancl_induct) (auto simp: closed_up_to_def edge_rel_def)

text \<open>The nodes a branch head reaches.\<close>

lemma bfs_reachable: "dict_has (bfs g [(br, 0)] []) i \<longleftrightarrow> (br, i) \<in> (edge_rel g)\<^sup>*"
proof
  assume "dict_has (bfs g [(br, 0)] []) i"
  then show "(br, i) \<in> (edge_rel g)\<^sup>*" by (rule bfs_sound [rotated 2]) (auto simp: dict_has_def)
next
  assume r: "(br, i) \<in> (edge_rel g)\<^sup>*"
  have "closed_up_to g [(br, 0)] []" by (simp add: closed_up_to_def dict_has_def)
  then have c: "closed_up_to g [] (bfs g [(br, 0)] [])" "dict_has (bfs g [(br, 0)] []) br"
    using bfs_complete [of g "[(br, 0)]" "[]"] by auto
  show "dict_has (bfs g [(br, 0)] []) i" by (rule closed_reach [OF r c])
qed

lemma first_min_None: "first_min f xs = None \<longleftrightarrow> xs = []"
  by (cases xs) (auto split: option.splits)

lemma first_min_in: "first_min f xs = Some x \<Longrightarrow> x \<in> set xs \<and> (\<forall>y \<in> set xs. f x \<le> f y)"
proof (induction xs arbitrary: x)
  case Nil
  then show ?case by simp
next
  case (Cons a xs)
  show ?case
  proof (cases "first_min f xs")
    case None
    then have "xs = []" by (simp add: first_min_None)
    then show ?thesis using Cons.prems by simp
  next
    case (Some y)
    from Cons.IH [OF this] show ?thesis using Cons.prems Some
      by (auto split: if_splits dest: order_trans)
  qed
qed

lemma common_nodes_iff:
  "reach \<noteq> [] \<Longrightarrow> i \<in> set (common_nodes reach roots) \<longleftrightarrow>
     (\<forall>r \<in> set reach. dict_has r i) \<and> i \<notin> set roots"
  by (cases reach) (auto simp: common_nodes_def list_all_iff dict_has_def)

definition shared_descendant :: "graph \<Rightarrow> string list \<Rightarrow> string \<Rightarrow> bool" where
  "shared_descendant g roots i =
     ((\<forall>br \<in> set roots. (br, i) \<in> (edge_rel g)\<^sup>*) \<and> i \<notin> set roots)"

lemma common_shared:
  "roots \<noteq> [] \<Longrightarrow>
   i \<in> set (common_nodes (map (\<lambda>br. bfs g [(br, 0)] []) roots) roots) \<longleftrightarrow> shared_descendant g roots i"
  by (simp add: common_nodes_iff shared_descendant_def bfs_reachable)

text \<open>The depth the search records is the length of a shortest walk. The queue is in the order of its depths, which span
  two levels, the visited nodes are no deeper than it, and a successor of a visited node is on record or waiting, at
  most one step deeper.\<close>

definition depth_at_most :: "(string \<times> nat) list \<Rightarrow> nat dict \<Rightarrow> string \<Rightarrow> nat \<Rightarrow> bool" where
  "depth_at_most queue visited i d \<longleftrightarrow> (\<exists>e \<le> d. dict_get visited i = Some e \<or> (i, e) \<in> set queue)"

lemma depth_at_most_pop:
  "depth_at_most ((j, d) # queue) visited i f \<longleftrightarrow> (i = j \<and> d \<le> f) \<or> depth_at_most queue visited i f"
  unfolding depth_at_most_def by auto

definition level_ok :: "graph \<Rightarrow> string \<Rightarrow> (string \<times> nat) list \<Rightarrow> nat dict \<Rightarrow> bool" where
  "level_ok g br queue visited \<longleftrightarrow>
     (\<forall>(i, d) \<in> set queue. (br, i) \<in> edge_rel g ^^ d) \<and> (\<forall>i d. dict_get visited i = Some d \<longrightarrow> (br, i) \<in> edge_rel g ^^ d)
     \<and> sorted (map snd queue) \<and> (\<forall>p \<in> set queue. snd p \<le> Suc (snd (hd queue)))
     \<and> (\<forall>i d. dict_get visited i = Some d \<longrightarrow> (\<forall>p \<in> set queue. d \<le> snd p))
     \<and> (\<forall>i d j. dict_get visited i = Some d \<and> (i, j) \<in> edge_rel g \<longrightarrow> depth_at_most queue visited j (Suc d))
     \<and> depth_at_most queue visited br 0"

lemma children_set:
  "p \<in> set (bfs_children g i d v) \<longleftrightarrow> (i, fst p) \<in> edge_rel g \<and> snd p = Suc d \<and> \<not> dict_has v (fst p)"
  by (cases p) (force simp: bfs_children_def children_rel edge_rel_def)

lemma level_ok_seen:
  assumes "level_ok g br ((j, d) # queue) visited" "dict_has visited j"
  shows "level_ok g br queue visited"
proof -
  obtain e where e: "dict_get visited j = Some e" "e \<le> d"
    using assms by (auto simp: level_ok_def dict_has_iff)
  have shrink: "depth_at_most queue visited i f" if "depth_at_most ((j, d) # queue) visited i f" for i f
    using that e unfolding depth_at_most_pop by (meson depth_at_most_def le_trans)
  have "\<forall>p \<in> set queue. snd p \<le> Suc (snd (hd queue))"
  proof
    fix p assume p: "p \<in> set queue"
    then have "d \<le> snd (hd queue)" using assms(1) by (cases queue) (auto simp: level_ok_def)
    moreover have "snd p \<le> Suc d" using assms(1) p by (auto simp: level_ok_def)
    ultimately show "snd p \<le> Suc (snd (hd queue))" by simp
  qed
  then show ?thesis using assms(1) shrink unfolding level_ok_def by simp
qed

lemma level_ok_new:
  assumes "level_ok g br ((j, d) # queue) visited" "\<not> dict_has visited j"
  shows "level_ok g br (queue @ bfs_children g j d (visited @ [(j, d)])) (visited @ [(j, d)])"
proof -
  define V where "V = visited @ [(j, d)]"
  let ?q = "queue @ bfs_children g j d V"
  have get: "dict_get V i = (if i = j then Some d else dict_get visited i)" for i
    unfolding V_def using assms(2) by (auto simp: dict_has_iff map_add_def split: option.splits)
  have new: "dict_get visited j = None" using assms(2) by (simp add: dict_has_iff)
  note ok = assms(1) [unfolded level_ok_def]
  have walk: "(br, j) \<in> edge_rel g ^^ d" using ok by auto
  have head: "d \<le> snd p \<and> snd p \<le> Suc d" if "p \<in> set ?q" for p
    using that ok by (auto simp: children_set)
  have low: "e \<le> d" if "dict_get visited i = Some e" for i e using that ok by auto
  have step: "depth_at_most ?q V i f" if "depth_at_most ((j, d) # queue) visited i f" for i f
    using that unfolding depth_at_most_pop
  proof (elim disjE conjE)
    assume "i = j" "d \<le> f"
    then have "d \<le> f" "dict_get V i = Some d" unfolding get by simp_all
    then show ?thesis unfolding depth_at_most_def by blast
  next
    assume "depth_at_most queue visited i f"
    then obtain h where "h \<le> f" "dict_get visited i = Some h \<or> (i, h) \<in> set queue" unfolding depth_at_most_def by blast
    then have "h \<le> f" "dict_get V i = Some h \<or> (i, h) \<in> set ?q" unfolding get using new by auto
    then show ?thesis unfolding depth_at_most_def by blast
  qed
  have "\<forall>(i, e) \<in> set ?q. (br, i) \<in> edge_rel g ^^ e"
    using ok walk by (auto simp: children_set intro!: relpow_Suc_I [of br j])
  moreover have "\<forall>i e. dict_get V i = Some e \<longrightarrow> (br, i) \<in> edge_rel g ^^ e"
    using ok walk by (simp add: get)
  moreover have "sorted (map snd ?q)"
  proof -
    have "map snd (bfs_children g j d V) = replicate (length (bfs_children g j d V)) (Suc d)"
      by (simp add: bfs_children_def comp_def map_replicate_const)
    then have "sorted (map snd (bfs_children g j d V))" by simp
    moreover have "x \<le> y" if "x \<in> set (map snd queue)" "y \<in> set (map snd (bfs_children g j d V))" for x y
    proof -
      from that obtain p q where p: "x = snd p" "p \<in> set queue" and q: "y = snd q" "q \<in> set (bfs_children g j d V)"
        by (auto simp del: split_paired_All split_paired_Ex)
      show ?thesis using p q(1) head [of p] children_set [THEN iffD1, OF q(2)] by simp
    qed
    ultimately show ?thesis using ok unfolding map_append sorted_append by simp
  qed
  moreover have "\<forall>p \<in> set ?q. snd p \<le> Suc (snd (hd ?q))"
  proof
    fix p assume p: "p \<in> set ?q"
    then have "hd ?q \<in> set ?q" by (intro hd_in_set) auto
    then have "d \<le> snd (hd ?q)" using head by blast
    then show "snd p \<le> Suc (snd (hd ?q))" using head [OF p] by linarith
  qed
  moreover have "\<forall>i e. dict_get V i = Some e \<longrightarrow> (\<forall>p \<in> set ?q. e \<le> snd p)"
    using head low by (fastforce simp: get split: if_splits)
  moreover have "\<forall>i e k. dict_get V i = Some e \<and> (i, k) \<in> edge_rel g \<longrightarrow> depth_at_most ?q V k (Suc e)"
  proof (intro allI impI)
    fix i e k
    assume a: "dict_get V i = Some e \<and> (i, k) \<in> edge_rel g"
    show "depth_at_most ?q V k (Suc e)"
    proof (cases "i = j")
      case True
      then have e: "e = d" and r: "(j, k) \<in> edge_rel g" using a by (auto simp: get)
      show ?thesis
      proof (cases "dict_get V k")
        case None
        then have "(k, Suc d) \<in> set ?q" using r by (simp add: children_set dict_has_iff)
        then show ?thesis unfolding depth_at_most_def e by blast
      next
        case (Some f)
        then have "f \<le> Suc d" using low by (auto simp: get split: if_splits intro: le_SucI)
        then show ?thesis using Some unfolding depth_at_most_def e by blast
      qed
    next
      case False
      then show ?thesis using a ok step by (simp add: get)
    qed
  qed
  moreover have "depth_at_most ?q V br 0" using ok step by blast
  ultimately show ?thesis unfolding level_ok_def V_def [symmetric] by blast
qed

lemma bfs_level: "level_ok g br queue visited \<Longrightarrow> level_ok g br [] (bfs g queue visited)"
proof (induction g queue visited rule: bfs.induct)
  case (2 g j d queue visited)
  then show ?case
    by (cases "dict_has visited j") (auto simp: bfs_pop dest: level_ok_seen level_ok_new)
qed simp

text \<open>A node is on record at the length of its shortest walk from the root.\<close>

lemma bfs_shortest:
  "dict_get (bfs g [(br, 0)] []) i = Some d \<longleftrightarrow> (br, i) \<in> edge_rel g ^^ d \<and> (\<forall>n. (br, i) \<in> edge_rel g ^^ n \<longrightarrow> d \<le> n)"
proof -
  let ?v = "bfs g [(br, 0)] []"
  have "level_ok g br [(br, 0)] []" by (simp add: level_ok_def depth_at_most_def)
  then have ok: "level_ok g br [] ?v" by (rule bfs_level)
  have near: "(br, k) \<in> edge_rel g ^^ n \<Longrightarrow> \<exists>e \<le> n. dict_get ?v k = Some e" for k n
  proof (induction n arbitrary: k)
    case 0
    then show ?case using ok by (simp add: level_ok_def depth_at_most_def)
  next
    case (Suc n)
    then obtain j where j: "(br, j) \<in> edge_rel g ^^ n" "(j, k) \<in> edge_rel g" by auto
    obtain e where "e \<le> n" "dict_get ?v j = Some e" using Suc.IH [OF j(1)] by blast
    then show ?case using ok j(2) by (force simp: level_ok_def depth_at_most_def)
  qed
  have walk: "dict_get ?v i = Some e \<Longrightarrow> (br, i) \<in> edge_rel g ^^ e" for e using ok by (simp add: level_ok_def)
  show ?thesis
    using near walk by (metis le_antisym option.inject)
qed

text \<open>The search depth of a node below the branch heads is the number of steps in which all of them reach it.\<close>

definition branch_depth :: "graph \<Rightarrow> string list \<Rightarrow> string \<Rightarrow> nat" where
  "branch_depth g roots i = max_depth (map (\<lambda>br. bfs g [(br, 0)] []) roots) i"

lemma branch_depth_le:
  assumes "roots \<noteq> []" "shared_descendant g roots i"
  shows "branch_depth g roots i \<le> n \<longleftrightarrow> (\<forall>br \<in> set roots. \<exists>m \<le> n. (br, i) \<in> edge_rel g ^^ m)"
proof -
  have "(case dict_get (bfs g [(br, 0)] []) i of None \<Rightarrow> 0 | Some d \<Rightarrow> d) \<le> n \<longleftrightarrow> (\<exists>m \<le> n. (br, i) \<in> edge_rel g ^^ m)"
    if "br \<in> set roots" for br
  proof -
    have "dict_has (bfs g [(br, 0)] []) i"
      using assms(2) that by (simp add: shared_descendant_def bfs_reachable)
    then obtain d where "dict_get (bfs g [(br, 0)] []) i = Some d" by (auto simp: dict_has_iff)
    then show ?thesis using bfs_shortest [of g br i d] le_trans by auto
  qed
  then show ?thesis using assms(1) by (auto simp: branch_depth_def max_depth_def)
qed

definition set_order_ok :: "'w eenv \<Rightarrow> bool" where
  "set_order_ok X = (\<forall>xs. set (x_set_order X xs) = set xs)"

lemma fan_in_Some:
  assumes "set_order_ok X" "find_fan_in_node X g roots = Some i"
  shows "shared_descendant g roots i
    \<and> (\<forall>j. shared_descendant g roots j \<longrightarrow> branch_depth g roots i \<le> branch_depth g roots j)"
proof -
  let ?reach = "map (\<lambda>br. bfs g [(br, 0)] []) roots"
  have ne: "roots \<noteq> []"
    and m: "first_min (max_depth ?reach) (x_set_order X (common_nodes ?reach roots)) = Some i"
    using assms(2) by (auto simp: find_fan_in_node_def Let_def split: if_splits)
  have "set (x_set_order X (common_nodes ?reach roots)) = {j. shared_descendant g roots j}"
    using assms(1) common_shared [OF ne] by (auto simp: set_order_ok_def)
  then show ?thesis using first_min_in [OF m] by (auto simp: branch_depth_def)
qed

text \<open>In steps: all heads reach the node in \<open>N\<close> steps, and no node outside the heads is reached by all in fewer.\<close>

lemma fan_in_nearest:
  assumes "set_order_ok X" "find_fan_in_node X g roots = Some i"
  shows "\<exists>N. (\<forall>h \<in> set roots. \<exists>n \<le> N. (h, i) \<in> edge_rel g ^^ n)
    \<and> (\<forall>j M. j \<notin> set roots \<and> (\<forall>h \<in> set roots. \<exists>n \<le> M. (h, j) \<in> edge_rel g ^^ n) \<longrightarrow> N \<le> M)"
proof -
  have ne: "roots \<noteq> []" using assms(2) by (auto simp: find_fan_in_node_def)
  note f = fan_in_Some [OF assms]
  have "branch_depth g roots i \<le> M"
    if j: "j \<notin> set roots" "\<forall>h \<in> set roots. \<exists>n \<le> M. (h, j) \<in> edge_rel g ^^ n" for j M
  proof -
    have s: "shared_descendant g roots j" using j relpow_imp_rtrancl by (fastforce simp: shared_descendant_def)
    then have "branch_depth g roots j \<le> M" using branch_depth_le [OF ne s] j(2) by simp
    then show ?thesis using f s le_trans by blast
  qed
  moreover have "\<forall>h \<in> set roots. \<exists>n \<le> branch_depth g roots i. (h, i) \<in> edge_rel g ^^ n"
    using branch_depth_le [OF ne conjunct1 [OF f]] by blast
  ultimately show ?thesis by blast
qed

lemma fan_in_None:
  assumes "set_order_ok X" "roots \<noteq> []"
  shows "find_fan_in_node X g roots = None \<longleftrightarrow> (\<nexists>i. shared_descendant g roots i)"
proof -
  let ?c = "common_nodes (map (\<lambda>br. bfs g [(br, 0)] []) roots) roots"
  have "set (x_set_order X ?c) = set ?c" using assms(1) by (simp add: set_order_ok_def)
  then have "x_set_order X ?c = [] \<longleftrightarrow> ?c = []" by (metis set_empty)
  then have "find_fan_in_node X g roots = None \<longleftrightarrow> ?c = []"
    using assms(2) by (auto simp: find_fan_in_node_def Let_def first_min_None)
  then show ?thesis using common_shared [OF assms(2), of _ g] by (metis empty_iff list.set(1) last_in_set)
qed

end
