(* ===== verification/Resume.thy ===== *)
theory Resume
  imports Engine_Loop
begin

text \<open>
  \<open>PipelineEngine.resume\<close>: the restoration of context, completed work, counters and the failed
  outputs from a checkpoint, the record of the resume in the manifest, and the walk entered at the
  checkpoint's node with its recorded outcome.

  The caller must have put the checkpoint through the validation ladder. What the restoration reads
  is dynamically typed all the same, so each conversion can raise.
\<close>

text \<open>\<open>dict(v)\<close>, \<open>v.items()\<close> and \<open>v.get\<close> of a value that has to be a dictionary.\<close>

definition as_dict :: "pyval \<Rightarrow> exc + pyval dict" where
  "as_dict v =
     (case v of
        PDict d \<Rightarrow> Inr d
      | _ \<Rightarrow> Inl (type_error (quoted (py_type_name v) @ '' object is not a mapping'')))"

text \<open>\<open>int(engine_state.get(key, 0) or 0)\<close>.\<close>

definition int_field :: "pyval dict \<Rightarrow> string \<Rightarrow> exc + int" where
  "int_field d key =
     (let v = raw_get d key (PInt 0) in
      case py_int (if py_true v then v else PInt 0) of
        None \<Rightarrow> Inl (value_error (''invalid literal for int(): '' @ py_repr v))
      | Some i \<Rightarrow> Inr i)"

fun restore_counts :: "pyval dict \<Rightarrow> exc + int dict" where
  "restore_counts [] = Inr []"
| "restore_counts ((i, v) # rest) =
     (case py_int v of
        None \<Rightarrow> Inl (value_error (''invalid literal for int(): '' @ py_repr v))
      | Some c \<Rightarrow>
          (case restore_counts rest of Inl e \<Rightarrow> Inl e | Inr d \<Rightarrow> Inr ((i, c) # d)))"

definition counts_block :: "pyval dict \<Rightarrow> exc + int dict" where
  "counts_block engine_state =
     (case as_dict (or_empty (raw_get engine_state ''node_execution_counts'' PNone)) of
        Inl e \<Rightarrow> Inl e
      | Inr d \<Rightarrow> restore_counts d)"

text \<open>The rehydrated outcomes, in the order of the record.\<close>

fun restore_outcomes :: "pyval dict \<Rightarrow> pyval dict \<Rightarrow> exc + outcome dict" where
  "restore_outcomes retries [] = Inr []"
| "restore_outcomes retries ((i, v) # rest) =
     (case as_dict v of
        Inl e \<Rightarrow> Inl e
      | Inr rec \<Rightarrow>
          (case py_int (raw_get retries i (PInt 0)) of
             None \<Rightarrow> Inl (value_error ''invalid literal for int()'')
           | Some r \<Rightarrow>
               (case outcome_of_record rec r of
                  None \<Rightarrow> Inl (value_error ''invalid outcome record'')
                | Some out \<Rightarrow>
                    (case restore_outcomes retries rest of
                       Inl e \<Rightarrow> Inl e
                     | Inr d \<Rightarrow> Inr ((i, out) # d)))))"

text \<open>A log entry or a completed id that is no text, which the writer never writes, is read as its
  \<open>str\<close>.\<close>

definition texts_of :: "pyval \<Rightarrow> exc + string list" where
  "texts_of v =
     (case v of
        PList xs \<Rightarrow> Inr (map py_str xs)
      | _ \<Rightarrow> Inl (type_error (quoted (py_type_name v) @ '' object is not a list'')))"

definition restore_context :: "checkpoint \<Rightarrow> pyval dict option \<Rightarrow> ctx \<Rightarrow> exc + ctx" where
  "restore_context cp overrides c =
     (case as_dict (cp_context cp) of
        Inl e \<Rightarrow> Inl e
      | Inr snapshot \<Rightarrow>
          (let c1 = ctx_update snapshot c;
               c2 = (case overrides of None \<Rightarrow> c1 | Some d \<Rightarrow> ctx_update d c1)
           in case texts_of (cp_logs cp) of
                Inl e \<Rightarrow> Inl e
              | Inr entries \<Rightarrow> Inr (foldl (\<lambda>acc entry. ctx_append_log entry acc) c2 entries)))"

definition restore_counters :: "pyval dict \<Rightarrow> exc + counters" where
  "restore_counters engine_state =
     (case int_field engine_state ''goal_gate_retries'' of
        Inl e \<Rightarrow> Inl e
      | Inr a \<Rightarrow>
          (case int_field engine_state ''failure_routing_retries'' of
             Inl e \<Rightarrow> Inl e
           | Inr b \<Rightarrow>
               (case int_field engine_state ''steps'' of
                  Inl e \<Rightarrow> Inl e
                | Inr c \<Rightarrow> Inr \<lparr>k_goal_gate_retries = a, k_failure_routing_retries = b, k_steps = c\<rparr>)))"

text \<open>\<open>failed_outputs\<close> is derived from the restored outcomes.\<close>

definition rederive_failed :: "graph \<Rightarrow> outcome dict \<Rightarrow> string dict" where
  "rederive_failed g outs =
     foldl (\<lambda>acc (i, out). if o_status out \<in> {FAIL, SKIPPED} then mark_failed i (node_outputs g i) acc else acc)
       [] outs"

definition restore_state ::
    "graph \<Rightarrow> checkpoint \<Rightarrow> pyval dict option \<Rightarrow> 'w engine \<Rightarrow> exc + counters \<times> 'w engine" where
  "restore_state g cp overrides S =
     (case restore_context cp overrides (s_ctx S) of
        Inl e \<Rightarrow> Inl e
      | Inr c \<Rightarrow>
          (case as_dict (cp_node_retries cp) of
             Inl e \<Rightarrow> Inl e
           | Inr retries \<Rightarrow>
               (case as_dict (cp_node_outcomes cp) of
                  Inl e \<Rightarrow> Inl e
                | Inr records \<Rightarrow>
                    (case restore_outcomes retries records of
                       Inl e \<Rightarrow> Inl e
                     | Inr outs \<Rightarrow>
                         (case as_dict (or_empty (cp_engine_state cp)) of
                            Inl e \<Rightarrow> Inl e
                          | Inr es \<Rightarrow>
                              (case int_field es ''iteration_count'' of
                                 Inl e \<Rightarrow> Inl e
                               | Inr it \<Rightarrow>
                                   (case counts_block es of
                                      Inl e \<Rightarrow> Inl e
                                    | Inr counts \<Rightarrow>
                                        (case restore_counters es of
                                           Inl e \<Rightarrow> Inl e
                                         | Inr k \<Rightarrow> Inr (k, (on_ctx (\<lambda>_. c) S)
                                             \<lparr>s_outcomes := outs,
                                              s_completed := map py_str (cp_completed_nodes cp),
                                              s_iteration := it, s_counts := counts,
                                              s_failed := rederive_failed g outs,
                                              s_armed := True\<rparr>)))))))))"

text \<open>The manifest update; a file that is missing, unreadable or no JSON object is left alone, one
  that is not UTF-8 raises.\<close>

definition manifest_resumes :: "pyval dict \<Rightarrow> pyval list" where
  "manifest_resumes m = (case raw_get m ''resumes'' PNone of PList xs \<Rightarrow> xs | _ \<Rightarrow> [])"

definition record_resume_in_manifest :: "'w eenv \<Rightarrow> checkpoint \<Rightarrow> 'w engine \<Rightarrow> exc option \<times> 'w engine" where
  "record_resume_in_manifest X cp S =
     (let path = os_path_join (x_logs_root X) ''manifest.json''; h = e_host (x_env X) in
      case e_files (x_env X) (s_world S) path of
        None \<Rightarrow> (None, S)
      | Some f \<Rightarrow>
          (case f_content f of
             Inl err \<Rightarrow> (None, S)
           | Inr bytes \<Rightarrow>
               (case h_decode_utf8 h bytes of
                  Inl err \<Rightarrow> (Some (PyError ''UnicodeDecodeError'' False err), S)
                | Inr text \<Rightarrow>
                    (case h_json_loads h text of
                       Inr (PDict m) \<Rightarrow>
                         (let (now, S1) = read_world (x_now X) S;
                              entry = PDict [(''resumed_at'', PStr now),
                                             (''from_node'', cp_current_node cp),
                                             (''completed_count'', PInt (int (length (cp_completed_nodes cp))))]
                          in (None, on_world (x_write_json X path
                                (PDict (dict_set ''resumes'' (PList (manifest_resumes m @ [entry])) m))) S1))
                     | _ \<Rightarrow> (None, S)))))"

definition resume_log :: "string \<Rightarrow> 'w engine \<Rightarrow> string" where
  "resume_log node_id S =
     ''resume: continuing from checkpoint after node '' @ quoted node_id @ '' (''
     @ nat_str (length (s_completed S)) @ '' node(s) already complete, iteration ''
     @ int_str (s_iteration S) @ '')''"

text \<open>The log entry and the event of a resume, and its walk once the state is restored.\<close>

definition start_resume :: "'w eenv \<Rightarrow> string \<Rightarrow> 'w engine \<Rightarrow> 'w engine" where
  "start_resume X node_id S =
     emit X (PIPELINE_RESUME node_id (length (s_completed S)) (s_iteration S))
       (on_ctx (ctx_append_log (resume_log node_id S)) S)"

definition resume_walk ::
    "'w eenv \<Rightarrow> graph \<Rightarrow> node \<Rightarrow> string \<Rightarrow> counters \<Rightarrow> 'w engine \<Rightarrow> (exc + outcome) \<times> 'w engine" where
  "resume_walk X g entry node_id k S =
     close_run X (run_loop X g entry k (dict_get (s_outcomes S) node_id) (start_resume X node_id S))"

definition resume ::
    "'w eenv \<Rightarrow> graph \<Rightarrow> checkpoint \<Rightarrow> pyval dict option \<Rightarrow> 'w engine \<Rightarrow> (exc + outcome) \<times> 'w engine" where
  "resume X g cp overrides S =
     (if x_branch_clone X then (Inl (runtime_error ''resume() must not be called on a branch-clone engine''), S)
      else
        (case cp_current_node cp of
           PStr node_id \<Rightarrow>
             (case dict_get (g_nodes g) node_id of
                None \<Rightarrow> (Inl (runtime_error ''resume() called with an unvalidated checkpoint''), S)
              | Some entry \<Rightarrow>
                  (case restore_state g cp overrides (tick (x_elapsed_ms X) S) of
                     Inl e \<Rightarrow> (Inl e, S)
                   | Inr (k, S1) \<Rightarrow>
                       (case record_resume_in_manifest X cp S1 of
                          (Some e, S2) \<Rightarrow> (Inl e, S2)
                        | (None, S2) \<Rightarrow> resume_walk X g entry node_id k S2)))
         | _ \<Rightarrow> (Inl (runtime_error ''resume() called with an unvalidated checkpoint''), S)))"

end
