(* ===== verification/Run_Facts.thy ===== *)
theory Run_Facts
  imports Engine_Facts Fan_In Resume
begin

text \<open>
  What holds of whole runs: the success of a run is the verdict of the goal gates, the checkpoint a
  run leaves behind passes the resume ladder, the number of executions is bounded, a resumed run
  routes and gates as the interrupted one would have, and the skip path.
\<close>

section \<open>A success is the gates' verdict\<close>

text \<open>What the exit node's gate check has seen when the run returns \<open>out\<close>.\<close>

definition gates_passed :: "graph \<Rightarrow> outcome \<Rightarrow> 'w engine \<Rightarrow> bool" where
  "gates_passed g out S = (unsatisfied_gates g S = [] \<and> out = final_outcome S)"

lemma gate_verdict_success:
  "o_status (gate_verdict g S) \<noteq> FAIL \<Longrightarrow> gates_passed g (gate_verdict g S) S"
  by (auto simp: gate_verdict_def gates_passed_def Let_def split: list.splits if_splits)

lemma gates_passed_cong:
  "s_outcomes S' = s_outcomes S \<Longrightarrow> s_completed S' = s_completed S \<Longrightarrow>
   gates_passed g out S' = gates_passed g out S"
  by (simp add: gates_passed_def unsatisfied_gates_def final_outcome_def cong: if_cong)

lemma turn_return:
  assumes "turn X g n k r S = Return res S'" "\<not> is_fail res"
  shows "\<exists>out. res = Inr out \<and> is_exit_node n \<and> gates_passed g out S'"
  using assms(1)
proof (cases rule: turn_cases)
  case (fault e S1)
  then show ?thesis using assms(2) by simp
next
  case (stopped out S1)
  then show ?thesis using assms(2) by simp
next
  case (exit S1)
  note r = at_exit_return [OF exit(2) [symmetric]]
  then have "o_status (gate_verdict g S1) \<noteq> FAIL" using assms(2) by auto
  then have "gates_passed g (gate_verdict g S1) S1" by (rule gate_verdict_success)
  then show ?thesis using r exit(1) gates_passed_cong by blast
next
  case (resume out S1)
  then show ?thesis using assms(2) route_spec(1) by metis
next
  case (skip sk S1 S2)
  then show ?thesis using assms(2) skip_turn_spec(1) by metis
next
  case (exec S1)
  from exec(7) [symmetric] show ?thesis
  proof (cases rule: run_turn_cases)
    case (routed out out0 sw idx S')
    then show ?thesis using assms(2) route_spec(1) by metis
  qed (use assms(2) in auto)
qed

lemma run_loop_success:
  assumes "run_loop X g n k r S = (res, S')" "\<not> is_fail res"
  shows "\<exists>out. res = Inr out \<and> gates_passed g out S'"
proof -
  have "\<not> is_fail res \<longrightarrow> (\<exists>out. res = Inr out \<and> gates_passed g out S')"
  proof (rule run_loop_rule [OF assms(1), where I = "\<lambda>n k r S. True"
          and P = "\<lambda>res S'. \<not> is_fail res \<longrightarrow> (\<exists>out. res = Inr out \<and> gates_passed g out S')"])
    fix n k r S res S'
    assume "turn X g n (k\<lparr>k_steps := k_steps k + 1\<rparr>) r S = Return res S'"
    from turn_return [OF this]
    show "\<not> is_fail res \<longrightarrow> (\<exists>out. res = Inr out \<and> gates_passed g out S')" by blast
  qed simp_all
  with assms(2) show ?thesis by blast
qed

section \<open>The checkpoint a run leaves\<close>

lemma node_ids_mem: "i \<in> node_ids g \<Longrightarrow> i \<in> set (dict_keys (g_nodes g))"
  by (simp add: node_ids_def)

lemma status_value_valid: "status_value s \<in> set valid_statuses"
  by (cases s) (simp_all add: status_value_def valid_statuses_def)

lemma checkpoint_good_structure:
  assumes "checkpoint_good X g cp"
  shows "verify_checkpoint_structure cp g = None"
proof -
  obtain i k now S where cp: "cp = checkpoint_of X g i k now S" and S: "state_ok g S" "i \<in> node_ids g"
    using assms by (auto simp: checkpoint_good_def)
  let ?ids = "dict_keys (g_nodes g)"
  have "check_current ?ids cp = None"
    using S(2) by (simp add: check_current_def cp checkpoint_of_def py_in_keys_def node_ids_def)
  moreover have "check_completed ?ids cp = None"
    using S(1) by (auto simp: check_completed_def cp checkpoint_of_def py_in_keys_def state_ok_def node_ids_def)
  moreover have "check_records ?ids (serialize_node_outcomes (s_outcomes S)) = None"
  proof -
    have "fst p \<in> set ?ids" if "p \<in> set (s_outcomes S)" for p
      using S(1) that by (force simp: state_ok_def node_ids_def)
    then show ?thesis
      using status_value_valid
      by (force simp: check_records_ok serialize_node_outcomes_def outcome_record_def raw_get_def)
  qed
  ultimately show ?thesis
    by (simp add: verify_checkpoint_structure_def Let_def cp checkpoint_of_def)
qed

definition completed_copy :: "checkpoint \<Rightarrow> checkpoint" where
  "completed_copy cp = cp\<lparr>cp_run_state := PStr run_state_completed\<rparr>"

lemma checkpoint_good_load:
  assumes "checkpoint_good X g cp" "cp' = cp \<or> cp' = completed_copy cp"
  shows "load_checkpoint (checkpoint_json cp') = Some cp'"
proof (rule load_save_checkpoint)
  show "checkpoint_writable cp'"
    using assms
    by (auto simp: checkpoint_writable_def checkpoint_good_def checkpoint_of_def completed_copy_def
        validated_graph_block_def graph_identity_def dict_has_def raw_get_def)
qed

lemma checkpoint_good_rungs:
  assumes "checkpoint_good X g cp" "g_dot_source g \<noteq> []"
  shows "rung_version cp = None" "rung_liveness cp = None"
    "rung_identity (x_sha X) cp (Some (g_dot_source g)) = None"
    "rung_liveness (completed_copy cp) = Some CheckpointAlreadyCompleted"
proof -
  obtain i k now S where cp: "cp = checkpoint_of X g i k now S"
    using assms(1) by (auto simp: checkpoint_good_def)
  show "rung_version cp = None" by (simp add: cp rung_version_def checkpoint_of_def)
  show "rung_liveness cp = None" by (simp add: cp rung_liveness_def checkpoint_of_def)
  have "graph_fingerprint cp = fingerprint_dot_source (x_sha X) (g_dot_source g)"
    "graph_dot_source cp = g_dot_source g"
    by (simp_all add: cp checkpoint_of_def graph_fingerprint_def graph_dot_source_def graph_identity_def
        raw_get_def)
  then show "rung_identity (x_sha X) cp (Some (g_dot_source g)) = None"
    using assms(2) by (simp add: rung_identity_def fingerprint_dot_source_def)
  show "rung_liveness (completed_copy cp) = Some CheckpointAlreadyCompleted"
    by (simp add: rung_liveness_def completed_copy_def cp checkpoint_of_def run_state_in_flight_def
        run_state_completed_def)
qed

lemma completed_copy_structure:
  "verify_checkpoint_structure (completed_copy cp) g = verify_checkpoint_structure cp g"
proof -
  have e: "check_current ids (completed_copy cp) = check_current ids cp"
    "check_completed ids (completed_copy cp) = check_completed ids cp"
    "cp_node_outcomes (completed_copy cp) = cp_node_outcomes cp" for ids
    by (simp_all add: check_current_def check_completed_def completed_copy_def)
  show ?thesis unfolding verify_checkpoint_structure_def e ..
qed

text \<open>A file that holds the JSON of \<open>cp\<close>.\<close>

definition file_holds :: "host \<Rightarrow> fsys \<Rightarrow> string \<Rightarrow> pyval \<Rightarrow> bool" where
  "file_holds h fs path v =
     (\<exists>f bytes text. fs path = Some f \<and> f_content f = Inr bytes \<and> h_decode_utf8 h bytes = Inr text
        \<and> h_json_loads h text = Inr v)"

lemma read_good_checkpoint:
  assumes "checkpoint_good X g cp" "cp' = cp \<or> cp' = completed_copy cp" "file_holds h fs path (checkpoint_json cp')"
  shows "read_checkpoint_file h fs path = Inr cp'"
  using assms(3) checkpoint_good_load [OF assms(1,2)] by (auto simp: read_checkpoint_file_def file_holds_def)

lemma ladder_of_good:
  assumes "checkpoint_good X g cp" "g_dot_source g \<noteq> []"
  shows "file_holds h fs path (checkpoint_json cp) \<Longrightarrow>
      load_checkpoint_for_resume h (x_sha X) fs path (Some (g_dot_source g)) = Inr cp"
    and "file_holds h fs path (checkpoint_json (completed_copy cp)) \<Longrightarrow>
      load_checkpoint_for_resume h (x_sha X) fs path (Some (g_dot_source g)) = Inl CheckpointAlreadyCompleted"
proof -
  note r = checkpoint_good_rungs [OF assms]
  have v: "rung_version (completed_copy cp) = None" using r(1)
    by (simp add: rung_version_def completed_copy_def split: if_splits)
  show "file_holds h fs path (checkpoint_json cp) \<Longrightarrow>
      load_checkpoint_for_resume h (x_sha X) fs path (Some (g_dot_source g)) = Inr cp"
    using read_good_checkpoint [OF assms(1), of cp] r by (simp add: load_checkpoint_for_resume_def)
  show "file_holds h fs path (checkpoint_json (completed_copy cp)) \<Longrightarrow>
      load_checkpoint_for_resume h (x_sha X) fs path (Some (g_dot_source g)) = Inl CheckpointAlreadyCompleted"
    using read_good_checkpoint [OF assms(1), of "completed_copy cp"] r v by (simp add: load_checkpoint_for_resume_def)
qed

section \<open>Runs from a fresh engine\<close>

definition fresh :: "'w engine \<Rightarrow> bool" where
  "fresh S =
     (s_outcomes S = [] \<and> s_completed S = [] \<and> s_iteration S = 0 \<and> s_counts S = [] \<and> s_failed S = []
      \<and> \<not> s_armed S \<and> s_last S = None)"

lemma fresh_init: "fresh (engine_init c w evs)"
  by (simp add: fresh_def engine_init_def)

lemma find_start_in: "graph_ok g \<Longrightarrow> find_start_node g = Some n \<Longrightarrow> node_in g n"
proof -
  assume g: "graph_ok g" and f: "find_start_node g = Some n"
  then have "n \<in> snd ` set (g_nodes g)"
    by (auto simp: find_start_node_def Let_def dest!: find_in split: option.splits)
  then obtain i where i: "(i, n) \<in> set (g_nodes g)" by auto
  then have "dict_get (g_nodes g) i = Some n" using g by (simp add: graph_ok_def dict_ok_def)
  then show ?thesis using g node_in_get by blast
qed

lemma loop_ok_fresh:
  assumes "fresh S" "same_core S S'" "graph_ok g"
  shows "loop_ok X g no_counters S'"
  using assms
  by (auto simp: loop_ok_def fresh_def same_core_def state_ok_def counters_ok_def no_counters_def last_ok_def
      max_steps_def max_goal_gate_retries_def)

lemma write_manifest_frame [simp]:
  "s_ctx (write_manifest X g goal S) = s_ctx S" "same_core S (write_manifest X g goal S)"
  by (simp_all add: write_manifest_def Let_def read_world_def same_core_def)

text \<open>A run is its prelude, which touches no durable state, and the loop.\<close>

lemma run_cases:
  assumes "run X g goal S = (res, S')"
  obtains (refused) e where "res = Inl e" "same_core S S'"
  | (looped) n S1 res1 S2 where "\<not> x_branch_clone X" "find_start_node g = Some n" "same_core S S1"
      "s_ctx S1 = initialize_context g goal (s_iteration S) (s_ctx S)"
      "run_loop X g n no_counters None S1 = (res1, S2)" "(res, S') = close_run X (res1, S2)"
proof (cases "x_branch_clone X")
  case True
  then show ?thesis using assms refused by (auto simp: run_def)
next
  case False
  define S4 where "S4 = start_run X g goal S"
  have core: "same_core S S4"
    using write_manifest_frame(2) [of "on_ctx (initialize_context g goal (s_iteration S)) (tick (x_elapsed_ms X) S)" X g goal]
    by (simp add: S4_def start_run_def same_core_def)
  have ctx: "s_ctx S4 = initialize_context g goal (s_iteration S) (s_ctx S)"
    by (simp add: S4_def start_run_def)
  have r: "(case find_start_node g of
       None \<Rightarrow> (Inl (value_error ''No start node found (no shape=Mdiamond, no type='start', and no id='start'/'Start')''), S4)
     | Some n \<Rightarrow> close_run X (run_loop X g n no_counters None S4)) = (res, S')"
    using assms False unfolding run_def S4_def by simp
  show ?thesis
  proof (cases "find_start_node g")
    case None
    then show ?thesis using r core refused by auto
  next
    case (Some n)
    obtain res1 S5 where l: "run_loop X g n no_counters None S4 = (res1, S5)" by force
    then show ?thesis using looped [OF False Some core ctx l] r Some by simp
  qed
qed

lemma close_run_core:
  assumes "(res, S') = close_run X (res1, S2)"
  shows "res = res1" "s_outcomes S' = s_outcomes S2" "s_completed S' = s_completed S2"
    "s_counts S' = s_counts S2" "s_trace S' = s_trace S2"
    "s_last S' = (case res of Inl e \<Rightarrow> s_last S2
       | Inr out \<Rightarrow> if x_branch_clone X then s_last S2 else map_option completed_copy (s_last S2))"
  using assms
  by (auto simp: close_run_def mark_run_completed_def completed_copy_def split: sum.splits option.splits if_splits)

text \<open>The trace of a run is never cleared. It is split into what came before the last retry or restart and the
  last pass, whose records are those the engine state holds. A pass is started anew only in a graph that can retry or
  restart, or after a failure.\<close>

definition last_record :: "trace_record list \<Rightarrow> string \<Rightarrow> trace_record option" where
  "last_record pass i = find (\<lambda>t. t_node_id t = i) (rev pass)"

definition traced :: "'w engine \<Rightarrow> trace_record list \<Rightarrow> bool" where
  "traced S pass \<longleftrightarrow> map t_node_id pass = s_completed S
     \<and> (\<forall>i. map_option (\<lambda>out. (o_status out, o_is_explicit out)) (dict_get (s_outcomes S) i)
           = map_option (\<lambda>t. (t_status t, t_is_explicit t)) (last_record pass i))"

definition cleared_before :: "graph \<Rightarrow> trace_record list \<Rightarrow> bool" where
  "cleared_before g past \<longleftrightarrow> past = [] \<or> may_clear g \<or> list_ex (\<lambda>t. t_status t = FAIL) past"

definition pass_ok :: "graph \<Rightarrow> 'w engine \<Rightarrow> bool" where
  "pass_ok g S \<longleftrightarrow> (\<exists>past pass. s_trace S = past @ pass \<and> traced S pass \<and> cleared_before g past)"

lemma pass_ok_cong:
  "s_outcomes S' = s_outcomes S \<Longrightarrow> s_completed S' = s_completed S \<Longrightarrow> s_trace S' = s_trace S \<Longrightarrow> pass_ok g S' = pass_ok g S"
  by (simp add: pass_ok_def traced_def)

lemma pass_ok_same: "same_core S S' \<Longrightarrow> pass_ok g S' = pass_ok g S"
  by (rule pass_ok_cong) (simp_all add: same_core_def)

lemma pass_ok_executed: "executed_core n S S' \<Longrightarrow> pass_ok g S' = pass_ok g S"
  by (rule pass_ok_cong) (simp_all add: executed_core_def)

lemma pass_ok_record:
  assumes "pass_ok g S" "s_outcomes S' = dict_set i out (s_outcomes S)" "s_completed S' = s_completed S @ [i]"
    "s_trace S' = s_trace S @ [trace_line S i out]"
  shows "pass_ok g S'"
proof -
  obtain past pass where p: "s_trace S = past @ pass" "traced S pass" "cleared_before g past"
    using assms(1) by (auto simp: pass_ok_def)
  have "traced S' (pass @ [trace_line S i out])"
    using p(2) assms(2,3) by (auto simp: traced_def last_record_def trace_line_def)
  moreover have "s_trace S' = past @ pass @ [trace_line S i out]" using p(1) assms(4) by simp
  ultimately show ?thesis using p(3) unfolding pass_ok_def by blast
qed

text \<open>The status a pass ends with.\<close>

lemma traced_last:
  assumes "traced S pass"
  shows "o_status (final_outcome S) = (if pass = [] then SUCCESS else t_status (last pass))"
proof (cases pass rule: rev_cases)
  case Nil
  then show ?thesis using assms by (simp add: traced_def final_outcome_def Let_def)
next
  case (snoc ts t)
  then have c: "s_completed S = map t_node_id ts @ [t_node_id t]" using assms by (auto simp: traced_def)
  have l: "s_completed S \<noteq> []" "last (s_completed S) = t_node_id t" "last_record pass (t_node_id t) = Some t"
    by (simp_all add: c snoc last_record_def)
  then obtain out where "dict_get (s_outcomes S) (t_node_id t) = Some out" "o_status out = t_status t"
    using assms by (auto simp: traced_def dest!: spec [of _ "t_node_id t"])
  then show ?thesis using l snoc by (simp add: final_outcome_def Let_def)
qed

lemma pass_ok_goes:
  assumes "pass_ok g S" "goes_on g k S m k' S'"
  shows "pass_ok g S'"
proof -
  obtain past pass where p: "s_trace S = past @ pass" "traced S pass" "cleared_before g past"
    using assms(1) by (auto simp: pass_ok_def)
  consider "same_core S S'" | "cleared S S'" "clear_cause g S" using assms(2) by (auto simp: goes_on_def)
  then show ?thesis
  proof cases
    case 1
    then show ?thesis using pass_ok_same assms(1) by blast
  next
    case 2
    have "cleared_before g (past @ pass)"
      using p(3) 2(2) traced_last [OF p(2)] by (auto simp: cleared_before_def clear_cause_def list_ex_iff split: if_splits)
    moreover have "traced S' []" using 2(1) by (simp add: traced_def cleared_def last_record_def)
    moreover have "s_trace S' = (past @ pass) @ []" using p(1) 2(1) by (simp add: cleared_def)
    ultimately show ?thesis unfolding pass_ok_def by blast
  qed
qed

lemma pass_ok_goto:
  assumes "turn X g n k r S = Goto m k' S'" "pass_ok g S" "in_graph g n"
  shows "pass_ok g S' \<and> in_graph g m"
proof -
  have goes: "pass_ok g S' \<and> in_graph g m" if "pass_ok g A" "goes_on g k A m k' S'" for A
    using pass_ok_goes [OF that] that(2) in_graph_get by (auto simp: goes_on_def)
  from assms(1) show ?thesis
  proof (cases rule: turn_cases)
    case (exit S1)
    have "pass_ok g (checkpoint_and_emit X g (n_id n) k S1)"
      using assms(2) pass_ok_same [OF exit(3), of g] pass_ok_cong [of "checkpoint_and_emit X g (n_id n) k S1" S1 g] by simp
    then show ?thesis using goes conjunct1 [OF at_exit_goto [OF exit(2) [symmetric]]] by blast
  next
    case (resume out S1)
    have "pass_ok g S1" using resume(4) pass_ok_same assms(2) by blast
    then show ?thesis using goes route_spec(2) [OF assms(3) resume(3) [symmetric]] by blast
  next
    case (skip sk S1 S2)
    have "same_core S S2" using skip(3) node_skip_core [OF skip(5)] same_core_trans by blast
    then have "pass_ok g S2" using assms(2) pass_ok_same by blast
    then have "pass_ok g (record_skip X g n sk k S2)"
      by (rule pass_ok_record [OF _ record_skip_core(1) [OF refl] record_skip_core(2) [OF refl] record_skip_core(8) [OF refl]])
    then show ?thesis using goes skip_turn_spec(2) [OF skip(6) [symmetric]] by blast
  next
    case (exec S1)
    from exec(7) [symmetric] show ?thesis
    proof (cases rule: run_turn_cases)
      case (routed out out0 sw idx S2)
      have "pass_ok g S2" using assms(2) pass_ok_same [OF exec(3), of g] pass_ok_executed [OF routed(1), of g] by simp
      then have "pass_ok g (record_completion X g n out idx k S2)"
        by (rule pass_ok_record [OF _ record_completion_core(1) [OF refl] record_completion_core(2) [OF refl]
              record_completion_core(8) [OF refl]])
      then show ?thesis using goes route_spec(2) [OF assms(3) routed(3) [symmetric]] by blast
    qed simp_all
  qed simp_all
qed

lemma pass_ok_return:
  assumes "turn X g n k r S = Return res S'" "\<not> is_fail res" "pass_ok g S"
  shows "pass_ok g S'"
  using assms(1)
proof (cases rule: turn_cases)
  case (exit S1)
  then show ?thesis
    using assms(3) pass_ok_same [OF exit(3), of g] at_exit_return [OF exit(2) [symmetric]] pass_ok_cong [of S' S1 g] by simp
next
  case (exec S1)
  from exec(7) [symmetric] show ?thesis
  proof (cases rule: run_turn_cases)
    case (routed out out0 sw idx S2)
    then show ?thesis using assms(2) route_spec(1) by metis
  qed (use assms(2) in auto)
next
  case (resume out S1)
  then show ?thesis using assms(2) route_spec(1) by metis
next
  case (skip sk S1 S2)
  then show ?thesis using assms(2) skip_turn_spec(1) by metis
qed (use assms(2) in auto)

text \<open>What a run earns: the outcome is that of its last pass, and every goal gate recorded there ends with an explicit
  success.\<close>

definition earned :: "graph \<Rightarrow> outcome \<Rightarrow> 'w engine \<Rightarrow> bool" where
  "earned g out S \<longleftrightarrow>
     (\<exists>past pass. s_trace S = past @ pass \<and> map t_node_id pass = s_completed S
        \<and> filter (\<lambda>i. is_goal_gate g i \<and> \<not> (case last_record pass i of None \<Rightarrow> False
              | Some t \<Rightarrow> t_status t \<in> {SUCCESS, PARTIAL_SUCCESS} \<and> t_is_explicit t)) (s_completed S) = []
        \<and> o_status out = (if pass = [] then SUCCESS else t_status (last pass))
        \<and> (past = [] \<or> may_clear g \<or> list_ex (\<lambda>t. t_status t = FAIL) past))"

lemma earned_of_passed:
  assumes "gates_passed g out S" "pass_ok g S"
  shows "earned g out S"
proof -
  obtain past pass where p: "s_trace S = past @ pass" "traced S pass" "cleared_before g past"
    using assms(2) by (auto simp: pass_ok_def)
  have "case last_record pass i of None \<Rightarrow> False | Some t \<Rightarrow> t_status t \<in> {SUCCESS, PARTIAL_SUCCESS} \<and> t_is_explicit t"
    if "i \<in> set (s_completed S)" "is_goal_gate g i" for i
  proof -
    have "last_record pass i \<noteq> None"
    proof -
      have "i \<in> t_node_id ` set pass" using that(1) p(2) by (simp add: traced_def flip: set_map)
      then show ?thesis by (auto simp: last_record_def find_None_iff)
    qed
    then obtain t where t: "last_record pass i = Some t" by auto
    then obtain out' where o: "dict_get (s_outcomes S) i = Some out'" "o_status out' = t_status t" "o_is_explicit out' = t_is_explicit t"
      using p(2) by (auto simp: traced_def dest!: spec [of _ i])
    then have "(i, out') \<in> set (s_outcomes S)" by (auto dest: map_of_SomeD)
    then have "gate_satisfied out'"
      using assms(1) that(2) by (auto simp: gates_passed_def unsatisfied_gates_def filter_empty_conv)
    then show ?thesis using o t by (simp add: gate_satisfied_def is_success_def)
  qed
  then have "filter (\<lambda>i. is_goal_gate g i \<and> \<not> (case last_record pass i of None \<Rightarrow> False
              | Some t \<Rightarrow> t_status t \<in> {SUCCESS, PARTIAL_SUCCESS} \<and> t_is_explicit t)) (s_completed S) = []"
    by (simp add: filter_empty_conv)
  moreover have "o_status out = (if pass = [] then SUCCESS else t_status (last pass))"
    using assms(1) traced_last [OF p(2)] by (simp add: gates_passed_def)
  ultimately show ?thesis
    using p unfolding earned_def traced_def cleared_before_def by blast
qed

lemma run_loop_pass:
  assumes "run_loop X g n k r S = (res, S')" "pass_ok g S" "in_graph g n" "\<not> is_fail res"
  shows "pass_ok g S'"
proof -
  have "\<not> is_fail res \<longrightarrow> pass_ok g S'"
  proof (rule run_loop_rule [OF assms(1), where I = "\<lambda>n k r S. pass_ok g S \<and> in_graph g n"
          and P = "\<lambda>res S'. \<not> is_fail res \<longrightarrow> pass_ok g S'"])
    fix n k r S res S'
    assume "pass_ok g S \<and> in_graph g n" "turn X g n (k\<lparr>k_steps := k_steps k + 1\<rparr>) r S = Return res S'"
    then show "\<not> is_fail res \<longrightarrow> pass_ok g S'" using pass_ok_return by blast
  next
    fix n k r S n' k' S'
    assume "pass_ok g S \<and> in_graph g n" "turn X g n (k\<lparr>k_steps := k_steps k + 1\<rparr>) r S = Goto n' k' S'"
    then show "pass_ok g S' \<and> in_graph g n'" using pass_ok_goto by blast
  qed (use assms(2,3) in simp_all)
  then show ?thesis using assms(4) by blast
qed

text \<open>A run that returns another outcome than FAIL returns it by the verdict of the goal gates.\<close>

lemma run_gated: "run X g goal S = (res, S') \<Longrightarrow> is_fail res \<or> (\<exists>out. res = Inr out \<and> gates_passed g out S')"
proof (erule run_cases)
  fix e assume "res = Inl e"
  then show ?thesis by simp
next
  fix n S1 res1 S2
  assume l: "run_loop X g n no_counters None S1 = (res1, S2)" and cl: "(res, S') = close_run X (res1, S2)"
  note c = close_run_core [OF cl]
  show ?thesis
    using run_loop_success [OF l] c(1) gates_passed_cong [OF c(2,3), of g] by auto
qed

lemma start_in_graph: "find_start_node g = Some n \<Longrightarrow> in_graph g n"
  by (auto simp: find_start_node_def in_graph_def Let_def dest!: find_in split: option.splits)

lemma run_earned:
  assumes "run X g goal S = (res, S')" "pass_ok g S"
  shows "is_fail res \<or> (\<exists>out. res = Inr out \<and> gates_passed g out S' \<and> earned g out S')"
  using assms(1)
proof (cases rule: run_cases)
  case (looped n S1 res1 S2)
  note c = close_run_core [OF looped(6)]
  have "pass_ok g S'" if "\<not> is_fail res"
    using run_loop_pass [OF looped(5) _ start_in_graph [OF looped(2)]] that c pass_ok_same [OF looped(3)] assms(2)
      pass_ok_cong [OF c(2,3,5)] by metis
  then show ?thesis using run_gated [OF assms(1)] earned_of_passed by blast
qed simp

lemma pass_ok_new: "pass_ok g (engine_init c w evs)"
  by (simp add: pass_ok_def engine_init_def traced_def last_record_def cleared_before_def)

lemma run_last:
  assumes "run X g goal S = (res, S')" "fresh S" "graph_ok g" "s_last S' = Some cp"
  obtains cp0 where "checkpoint_good X g cp0" "cp = (case res of Inl e \<Rightarrow> cp0 | Inr out \<Rightarrow> completed_copy cp0)"
  using assms(1)
proof (cases rule: run_cases)
  case (refused e)
  then show ?thesis using assms(2,4) by (simp add: same_core_def fresh_def)
next
  case (looped n S1 res1 S2)
  have "last_ok X g S2"
    using li.run_loop_invariant [OF looped(5) loop_ok_fresh [OF assms(2) looped(3) assms(3)]
        find_start_in [OF assms(3) looped(2)]] .
  then show ?thesis
    using that close_run_core [OF looped(6)] assms(4) looped(1)
    by (auto simp: last_ok_def split: sum.splits option.splits)
qed

section \<open>The number of executions\<close>

definition total_executions :: "'w engine \<Rightarrow> int" where
  "total_executions S = sum_list (map snd (s_counts S))"

lemma sum_update:
  fixes d :: "int dict"
  shows "sum_list (map snd (dict_set k v d)) =
     sum_list (map snd d) + (v - (case dict_get d k of None \<Rightarrow> 0 | Some c \<Rightarrow> c))"
  by (induction d) auto

lemma count_execution_total: "total_executions (count_execution i S) = total_executions S + 1"
  by (auto simp: total_executions_def count_execution_def sum_update split: option.splits)

lemma total_cong: "s_counts S' = s_counts S \<Longrightarrow> total_executions S' = total_executions S"
  by (simp add: total_executions_def)

lemma total_same: "same_core S S' \<Longrightarrow> total_executions S' = total_executions S"
  by (rule total_cong) (simp add: same_core_def)

lemma goes_on_total: "goes_on g k S m k' S' \<Longrightarrow> total_executions S' = total_executions S"
  by (rule total_cong) (auto simp: goes_on_def same_core_def cleared_def)

definition turn_state :: "'w turn \<Rightarrow> 'w engine" where
  "turn_state t = (case t of Return res S \<Rightarrow> S | Goto n k S \<Rightarrow> S)"

lemma route_total: "total_executions (turn_state (route X g n out k S)) = total_executions S"
proof (cases "route X g n out k S")
  case (Return res S')
  then have "s_counts S' = s_counts S"
    using route_spec(1) [OF Return] by (auto simp: same_core_def cleared_def)
  then show ?thesis using total_cong by (simp add: Return turn_state_def)
next
  case (Goto m k' S')
  have "s_counts S' = s_counts S" using Goto
    by (auto simp: route_def follow_edge_def no_edge_def goto_node_Goto Let_def split: option.splits if_splits)
  then show ?thesis using total_cong by (simp add: Goto turn_state_def)
qed

lemma skip_turn_total: "total_executions (turn_state (skip_turn X g n skip k S)) = total_executions S"
proof -
  have r: "total_executions (record_skip X g n skip k S) = total_executions S"
    by (rule total_cong) (simp add: record_skip_core [OF refl])
  show ?thesis
  proof (cases "skip_turn X g n skip k S")
    case (Return res S')
    show ?thesis using total_same [OF conjunct2 [OF skip_turn_spec(1) [OF Return]]] r
      by (simp add: Return turn_state_def)
  next
    case (Goto m k' S')
    show ?thesis using goes_on_total [OF skip_turn_spec(2) [OF Goto]] r by (simp add: Goto turn_state_def)
  qed
qed

lemma at_exit_total: "total_executions (turn_state (at_exit X g n k S)) = total_executions S"
proof (cases "at_exit X g n k S")
  case (Return res S')
  then have "s_counts S' = s_counts S" using at_exit_return by blast
  from total_cong [OF this] show ?thesis by (simp add: Return turn_state_def)
next
  case (Goto m k' S')
  have "total_executions (checkpoint_and_emit X g (n_id n) k S) = total_executions S"
    by (rule total_cong) simp
  then show ?thesis using goes_on_total at_exit_goto [OF Goto] by (metis Goto turn.simps(6) turn_state_def)
qed

lemma executed_total: "executed_core n S S' \<Longrightarrow> total_executions S' = total_executions S + 1"
  using total_cong [of S' "count_execution (n_id n) S"] count_execution_total [of "n_id n" S]
  by (simp add: executed_core_def)

lemma run_turn_total:
  "total_executions (turn_state (run_turn X g n k S)) \<in> {total_executions S, total_executions S + 1}"
  using refl [of "run_turn X g n k S"]
proof (cases rule: run_turn_cases)
  case (unresolved e)
  then show ?thesis by (simp add: turn_state_def)
next
  case (ended res A S')
  have "total_executions S' = total_executions A" by (rule total_cong) (use ended(4) in \<open>simp add: ended_core_def\<close>)
  then show ?thesis using ended(1) executed_total [OF ended(3)] by (simp add: turn_state_def)
next
  case (routed out out0 sw idx S')
  have "total_executions (record_completion X g n out idx k S') = total_executions S'"
    by (rule total_cong) (simp add: record_completion_core [OF refl])
  then show ?thesis
    using route_total [of X g n out k "record_completion X g n out idx k S'"] executed_total [OF routed(1)]
    by (simp add: routed(3))
qed

lemma turn_total: "total_executions (turn_state (turn X g n k r S)) \<le> total_executions S + 1"
  using refl [of "turn X g n k r S"]
proof (cases rule: turn_cases)
  case (fault e S1)
  then show ?thesis using total_same [OF fault(3)] by (simp add: turn_state_def)
next
  case (stopped out S1)
  then show ?thesis using total_same [OF stopped(3)] by (simp add: turn_state_def)
next
  case (exit S1)
  then show ?thesis using total_same [OF exit(3)] at_exit_total by (metis add_increasing2 dual_order.refl zero_le_one)
next
  case (resume out S1)
  then show ?thesis using total_same [OF resume(4)] route_total by (metis add_increasing2 dual_order.refl zero_le_one)
next
  case (skip sk S1 S2)
  then have "same_core S S2" using node_skip_core [OF skip(5)] same_core_trans by blast
  from total_same [OF this] show ?thesis using skip(6) skip_turn_total
    by (metis add_increasing2 dual_order.refl zero_le_one)
next
  case (exec S1)
  have "total_executions (turn_state (run_turn X g n k S1)) \<le> total_executions S1 + 1"
    using run_turn_total [of X g n k S1] by auto
  then show ?thesis using exec(7) total_same [OF exec(3)] by simp
qed

lemma run_loop_total:
  fixes X :: "'a eenv"
  assumes "run_loop X g n k r S = (res, S')" "k_steps k \<le> max_steps g"
  shows "total_executions S' \<le> total_executions S + (max_steps g - k_steps k)"
proof (rule run_loop_rule [OF assms(1), where
      I = "\<lambda>n1 k1 r1 S1. total_executions S1 - k_steps k1 \<le> total_executions S - k_steps k \<and> k_steps k1 \<le> max_steps g"
      and P = "\<lambda>res S'. total_executions S' \<le> total_executions S + (max_steps g - k_steps k)"])
  fix n1 k1 r1 S1 res1 S1'
  assume I: "total_executions S1 - k_steps k1 \<le> total_executions S - k_steps k \<and> k_steps k1 \<le> max_steps g"
    "k_steps k1 < max_steps g"
    and t: "turn X g n1 (k1\<lparr>k_steps := k_steps k1 + 1\<rparr>) r1 S1 = Return res1 S1'"
  have "total_executions S1' \<le> total_executions S1 + 1"
    using turn_total [of X g n1 "k1\<lparr>k_steps := k_steps k1 + 1\<rparr>" r1 S1] t by (simp add: turn_state_def)
  with I show "total_executions S1' \<le> total_executions S + (max_steps g - k_steps k)" by linarith
next
  fix n1 k1 r1 S1 n2 k2 S2
  assume I: "total_executions S1 - k_steps k1 \<le> total_executions S - k_steps k \<and> k_steps k1 \<le> max_steps g"
    "k_steps k1 < max_steps g"
    and t: "turn X g n1 (k1\<lparr>k_steps := k_steps k1 + 1\<rparr>) r1 S1 = Goto n2 k2 S2"
  have "total_executions S2 \<le> total_executions S1 + 1"
    using turn_total [of X g n1 "k1\<lparr>k_steps := k_steps k1 + 1\<rparr>" r1 S1] t by (simp add: turn_state_def)
  moreover have "k_steps k2 = k_steps k1 + 1" using turn_steps [OF t] by simp
  ultimately show "total_executions S2 - k_steps k2 \<le> total_executions S - k_steps k \<and> k_steps k2 \<le> max_steps g"
    using I by linarith
next
  fix n1 k1 r1 and S1 :: "'a engine"
  assume "total_executions S1 - k_steps k1 \<le> total_executions S - k_steps k \<and> k_steps k1 \<le> max_steps g"
  moreover have "total_executions (emit_complete X (exceeded_outcome g) S1) = total_executions S1"
    by (rule total_cong) simp
  ultimately show "total_executions (emit_complete X (exceeded_outcome g) S1)
      \<le> total_executions S + (max_steps g - k_steps k)" by linarith
qed (use assms(2) in simp)

section \<open>Skips\<close>

lemma failed_refs_iff:
  assumes "set_order_ok X"
  shows "failed_refs X n S = [] \<longleftrightarrow> (\<forall>key \<in> set (extract_node_refs n). dict_get (s_failed S) key = None)"
  using assms by (force simp: failed_refs_def set_order_ok_def split: option.splits)

lemma mark_failed_in: "key \<in> set keys \<or> dict_has d key \<Longrightarrow> dict_has (mark_failed i keys d) key"
proof (induction keys arbitrary: d)
  case Nil
  then show ?case by (simp add: mark_failed_def)
next
  case (Cons x keys)
  have "dict_has (if dict_has d x then d else dict_set x i d) key \<or> key \<in> set keys"
    using Cons.prems by (auto simp: dict_has_iff)
  then have "dict_has (mark_failed i keys (if dict_has d x then d else dict_set x i d)) key"
    using Cons.IH by blast
  then show ?case by (simp add: mark_failed_def)
qed

lemma mark_failed_kept: "dict_get d key = Some p \<Longrightarrow> dict_get (mark_failed i keys d) key = Some p"
proof (induction keys arbitrary: d)
  case Nil
  then show ?case by (simp add: mark_failed_def)
next
  case (Cons x keys)
  have "dict_get (if dict_has d x then d else dict_set x i d) key = Some p"
    using Cons.prems by (auto simp: dict_has_iff)
  from Cons.IH [OF this] show ?case by (simp add: mark_failed_def)
qed

text \<open>After a skip the walk keeps the state it recorded, on every way on and on the way out.\<close>

lemma skip_turn_kept:
  "skip_turn X g n skip k S = Goto m k' S' \<Longrightarrow> S' = record_skip X g n skip k S"
  "skip_turn X g n skip k S = Return res S' \<Longrightarrow> s_counts S' = s_counts (record_skip X g n skip k S)"
  by (auto simp: skip_turn_def Let_def dest!: goto_node_spec split: option.splits if_splits)

end
