(* ===== verification/Resume_Facts.thy ===== *)
theory Resume_Facts
  imports Run_Facts
begin

text \<open>
  Restoring what a checkpoint recorded. \<open>restored\<close> relates the engine state a checkpoint was taken
  in with the state \<open>restore_state\<close> builds from it; the lemmas read off it that the resumed run
  makes the same edge selection and finds the same gates unsatisfied.
\<close>

text \<open>What comes back of an outcome.\<close>

definition rehydrated :: "outcome \<Rightarrow> outcome" where
  "rehydrated out =
     (mk_outcome (o_status out))
       \<lparr>o_preferred_label := o_preferred_label out, o_suggested_next_ids := o_suggested_next_ids out,
        o_notes := o_notes out, o_failure_reason := o_failure_reason out,
        o_is_explicit := o_is_explicit out, o_attempt_count := Some (retries_consumed out + 1)\<rparr>"

lemma rehydrated_simps [simp]:
  "o_status (rehydrated out) = o_status out"
  "o_preferred_label (rehydrated out) = o_preferred_label out"
  "o_suggested_next_ids (rehydrated out) = o_suggested_next_ids out"
  "o_is_explicit (rehydrated out) = o_is_explicit out"
  "o_failure_reason (rehydrated out) = o_failure_reason out"
  "retries_consumed (rehydrated out) = retries_consumed out"
proof -
  define r where "r = retries_consumed out"
  have "0 \<le> r" by (simp add: r_def retries_consumed_def Let_def)
  moreover have "o_attempt_count (rehydrated out) = Some (r + 1)" by (simp add: rehydrated_def r_def)
  ultimately have "retries_consumed (rehydrated out) = r" by (simp add: retries_consumed_def Let_def)
  then show "retries_consumed (rehydrated out) = retries_consumed out" by (simp add: r_def)
qed (simp_all add: rehydrated_def)

definition rehydrate_all :: "outcome dict \<Rightarrow> outcome dict" where
  "rehydrate_all outs = map (\<lambda>(i, out). (i, rehydrated out)) outs"

lemma rehydrate_all_get: "dict_get (rehydrate_all outs) i = map_option rehydrated (dict_get outs i)"
  by (induction outs) (auto simp: rehydrate_all_def)

lemma restore_outcomes_serialized:
  assumes "\<forall>(i, out) \<in> set outs. raw_get retries i (PInt 0) = PInt (retries_consumed out)"
  shows "restore_outcomes retries (serialize_node_outcomes outs) = Inr (rehydrate_all outs)"
  using assms
proof (induction outs)
  case Nil
  then show ?case by (simp add: serialize_node_outcomes_def rehydrate_all_def)
next
  case (Cons p outs)
  obtain i out where p: "p = (i, out)" by force
  obtain d where d: "outcome_record out = PDict d"
    "outcome_of_record d (retries_consumed out) = Some (rehydrated out)"
    using outcome_record_roundtrip [of out "retries_consumed out"] by (auto simp: rehydrated_def)
  have "restore_outcomes retries (serialize_node_outcomes outs) = Inr (rehydrate_all outs)"
    using Cons by simp
  then show ?case
    using Cons.prems d by (simp add: p serialize_node_outcomes_def rehydrate_all_def as_dict_def py_int_def)
qed

lemma serialized_retries:
  "dict_ok outs \<Longrightarrow> (i, out) \<in> set outs \<Longrightarrow>
   raw_get (serialize_node_retries outs) i (PInt 0) = PInt (retries_consumed out)"
proof -
  assume "dict_ok outs" "(i, out) \<in> set outs"
  then have "dict_ok (serialize_node_retries outs)" "(i, PInt (retries_consumed out)) \<in> set (serialize_node_retries outs)"
    by (force simp: serialize_node_retries_def dict_ok_def comp_def case_prod_beta)+
  then show ?thesis by (simp add: raw_get_def dict_ok_def)
qed

lemma dict_update_fresh:
  "dict_ok d \<Longrightarrow> set (dict_keys acc) \<inter> set (dict_keys d) = {} \<Longrightarrow> dict_update acc d = acc @ d"
proof (induction d arbitrary: acc)
  case Nil
  then show ?case by simp
next
  case (Cons p d)
  obtain k v where p: "p = (k, v)" by force
  have "k \<notin> set (dict_keys acc)" using Cons.prems(2) p by auto
  then have "dict_set k v acc = acc @ [(k, v)]" by (induction acc) auto
  moreover have "dict_update (acc @ [(k, v)]) d = (acc @ [(k, v)]) @ d"
    using Cons.prems p by (intro Cons.IH) (auto simp: dict_ok_def)
  ultimately show ?case by (simp add: p)
qed

lemma append_logs: "foldl (\<lambda>acc entry. ctx_append_log entry acc) c es = c\<lparr>c_logs := c_logs c @ es\<rparr>"
  by (induction es arbitrary: c) (simp_all add: ctx_append_log_def)

lemma restore_counts_serialized: "restore_counts (map (\<lambda>(i, c). (i, PInt c)) d) = Inr d"
  by (induction d) (auto simp: py_int_def)

lemma int_field_PInt: "raw_get d key (PInt 0) = PInt i \<Longrightarrow> int_field d key = Inr i"
  by (cases "i = 0") (simp_all add: int_field_def py_int_def Let_def)

text \<open>The states before the crash and after the restoration.\<close>

definition restored :: "graph \<Rightarrow> 'w engine \<Rightarrow> 'w engine \<Rightarrow> bool" where
  "restored g S S1 =
     (s_outcomes S1 = rehydrate_all (s_outcomes S) \<and> s_completed S1 = s_completed S
      \<and> s_iteration S1 = s_iteration S \<and> s_counts S1 = s_counts S
      \<and> s_failed S1 = rederive_failed g (rehydrate_all (s_outcomes S)) \<and> s_armed S1
      \<and> c_values (s_ctx S1) = c_values (s_ctx S))"

lemma restore_context_of:
  assumes "ctx_ok c" "c_values c0 = []" "cp_context cp = PDict (ctx_snapshot c)"
    "cp_logs cp = PList (map PStr (ctx_get_logs c))"
  shows "restore_context cp None c0 = Inr \<lparr>c_values = c_values c, c_logs = c_logs c0 @ c_logs c\<rparr>"
proof -
  have "dict_update [] (c_values c) = c_values c"
    using assms(1) dict_update_fresh [of "c_values c" "[]"] by (simp add: ctx_ok_def)
  then have "ctx_update (ctx_snapshot c) c0 = c0\<lparr>c_values := c_values c\<rparr>"
    using assms(2) by (simp add: ctx_update_def ctx_snapshot_def)
  moreover have "map py_str (map PStr (ctx_get_logs c)) = c_logs c"
    by (simp add: ctx_get_logs_def comp_def)
  ultimately show ?thesis
    using assms(3,4) by (simp add: restore_context_def as_dict_def texts_of_def append_logs)
qed

lemma restore_counters_of:
  "restore_counters (engine_state_block k S) = Inr k"
  by (simp add: restore_counters_def int_field_PInt raw_get_def engine_state_block_def)

lemma restore_checkpoint:
  assumes "dict_ok (s_outcomes S)" "ctx_ok (s_ctx S)" "c_values (s_ctx S0) = []"
  shows "\<exists>S1. restore_state g (checkpoint_of X g i k now S) None S0 = Inr (k, S1) \<and> restored g S S1"
proof -
  let ?cp = "checkpoint_of X g i k now S"
  have c: "restore_context ?cp None (s_ctx S0) =
      Inr \<lparr>c_values = c_values (s_ctx S), c_logs = c_logs (s_ctx S0) @ c_logs (s_ctx S)\<rparr>"
    by (rule restore_context_of [OF assms(2,3)]) (simp_all add: checkpoint_of_def)
  have o: "restore_outcomes (serialize_node_retries (s_outcomes S)) (serialize_node_outcomes (s_outcomes S))
      = Inr (rehydrate_all (s_outcomes S))"
    using serialized_retries [OF assms(1)] by (intro restore_outcomes_serialized) auto
  have es: "as_dict (or_empty (cp_engine_state ?cp)) = Inr (engine_state_block k S)"
    by (simp add: checkpoint_of_def or_empty_def as_dict_def engine_state_block_def)
  have it: "int_field (engine_state_block k S) ''iteration_count'' = Inr (s_iteration S)"
    by (rule int_field_PInt) (simp add: engine_state_block_def raw_get_def)
  have cb: "counts_block (engine_state_block k S) = Inr (s_counts S)"
  proof (cases "s_counts S")
    case Nil
    then show ?thesis
      by (simp add: counts_block_def engine_state_block_def raw_get_def or_empty_def as_dict_def)
  next
    case (Cons p ps)
    then show ?thesis using restore_counts_serialized [of "s_counts S"]
      by (simp add: counts_block_def engine_state_block_def raw_get_def or_empty_def as_dict_def)
  qed
  have "as_dict (cp_node_retries ?cp) = Inr (serialize_node_retries (s_outcomes S))"
    "as_dict (cp_node_outcomes ?cp) = Inr (serialize_node_outcomes (s_outcomes S))"
    by (simp_all add: checkpoint_of_def as_dict_def)
  moreover have "map py_str (cp_completed_nodes ?cp) = s_completed S"
    by (simp add: checkpoint_of_def comp_def)
  ultimately show ?thesis
    using c o es it cb restore_counters_of [of k S] by (simp add: restore_state_def restored_def)
qed

section \<open>The resumed run decides as the interrupted one\<close>

lemma restored_ctx: "restored g S S1 \<Longrightarrow> ctx_get (s_ctx S1) key = ctx_get (s_ctx S) key"
  by (rule ctx_get_cong) (simp add: restored_def)

lemma restored_select_edge:
  "restored g S S1 \<Longrightarrow> select_edge i (rehydrated out) (s_ctx S1) g = select_edge i out (s_ctx S) g"
  by (rule select_edge_cong) (simp_all add: restored_ctx)

lemma filter_rehydrate:
  "dict_keys (filter (\<lambda>(i, out). P i (o_status out) (o_is_explicit out)) (rehydrate_all outs)) =
   dict_keys (filter (\<lambda>(i, out). P i (o_status out) (o_is_explicit out)) outs)"
  by (induction outs) (auto simp: rehydrate_all_def)

lemma restored_gates:
  assumes "restored g S S1"
  shows "unsatisfied_gates g S1 = unsatisfied_gates g S"
  using filter_rehydrate [of "\<lambda>i s e. is_goal_gate g i \<and> \<not> (s \<in> {SUCCESS, PARTIAL_SUCCESS} \<and> e)" "s_outcomes S"]
    assms by (simp add: unsatisfied_gates_def restored_def gate_satisfied_def is_success_def)

lemma restored_final:
  assumes "restored g S S1"
  shows "o_status (final_outcome S1) = o_status (final_outcome S)"
proof -
  have e: "s_completed S1 = s_completed S" "s_outcomes S1 = rehydrate_all (s_outcomes S)"
    using assms by (simp_all add: restored_def)
  show ?thesis
    unfolding final_outcome_def e Let_def rehydrate_all_get
    by (cases "dict_get (s_outcomes S) (last (s_completed S))") auto
qed

lemma restored_verdict:
  assumes "restored g S S1"
  shows "o_status (gate_verdict g S1) = o_status (gate_verdict g S)"
  unfolding gate_verdict_def restored_gates [OF assms]
  using restored_final [OF assms] by (simp add: Let_def split: list.split)

section \<open>The derived failed outputs\<close>

text \<open>The restoration marks the outputs of every failed or skipped node.\<close>

lemma rederive_step_kept:
  "dict_has d key \<Longrightarrow>
   dict_has (foldl (\<lambda>acc (i, out). if o_status out \<in> {FAIL, SKIPPED} then mark_failed i (node_outputs g i) acc else acc) d outs) key"
proof (induction outs arbitrary: d)
  case Nil
  then show ?case by simp
next
  case (Cons p outs)
  obtain i out where p: "p = (i, out)" by force
  have "dict_has (if o_status out \<in> {FAIL, SKIPPED} then mark_failed i (node_outputs g i) d else d) key"
    using Cons.prems mark_failed_in by auto
  from Cons.IH [OF this] show ?case by (simp add: p)
qed

lemma rederive_failed_has:
  assumes "(i, out) \<in> set outs" "o_status out \<in> {FAIL, SKIPPED}" "key \<in> set (node_outputs g i)"
  shows "dict_has (rederive_failed g outs) key"
proof -
  obtain xs ys where o: "outs = xs @ (i, out) # ys" using assms(1) by (meson split_list)
  let ?f = "\<lambda>acc (i, out). if o_status out \<in> {FAIL, SKIPPED} then mark_failed i (node_outputs g i) acc else acc"
  have "dict_has (?f (foldl ?f [] xs) (i, out)) key" using assms(2,3) mark_failed_in by simp
  then have "dict_has (foldl ?f (?f (foldl ?f [] xs) (i, out)) ys) key" by (rule rederive_step_kept)
  then show ?thesis by (simp only: rederive_failed_def o foldl_append foldl.simps)
qed

end
