(* ===== verification/Parallel.thy ===== *)
theory Parallel
  imports Engine_Facts
begin

text \<open>
  \<open>PipelineEngine.run_subgraph\<close>, the walk that branches and child subgraphs are run by, and
  \<open>ParallelHandler.execute\<close> of \<open>handlers/parallel.py\<close>, which runs the branches of a component node
  on clones of the engine and the context.

  The walk is \<open>sub_turn\<close> iterated \<open>max_steps\<close> times. Branches are run one after the other, the
  schedule of one permit; other schedules interleave the branches only in their effects on the
  world. The two policies that stop early read the completions as the event loop delivers them: a
  list of batches, and the results that the cancelled tasks had already produced.
\<close>

section \<open>The subgraph walk\<close>

text \<open>The node, the last outcome, the context of the walk and the engine.\<close>

type_synonym 'w walk = "node \<times> outcome option \<times> ctx \<times> 'w engine"

type_synonym 'w walked = "(exc + outcome) \<times> ctx \<times> 'w engine"

definition sub_emit :: "'w eenv \<Rightarrow> bool \<Rightarrow> event \<Rightarrow> 'w engine \<Rightarrow> 'w engine" where
  "sub_emit X emit_node_events ev S = (if emit_node_events then emit X ev S else S)"

definition sub_failure :: "node \<Rightarrow> exc \<Rightarrow> outcome" where
  "sub_failure n e =
     (case e of
        ChildDotResolutionError m \<Rightarrow> (mk_outcome FAIL)\<lparr>o_failure_reason := Some m, o_notes := Some m\<rparr>
      | PyError t tr m \<Rightarrow> (mk_outcome FAIL)
          \<lparr>o_failure_reason := Some (''Subgraph node '' @ quoted (n_id n) @ '' raised: '' @ m)\<rparr>)"

text \<open>The execution of one node: \<^const>\<open>Inl\<close> is the outcome the walk returns at once.\<close>

definition sub_execute ::
    "'w eenv \<Rightarrow> bool \<Rightarrow> node \<Rightarrow> ctx \<Rightarrow> 'w engine \<Rightarrow> (outcome + outcome) \<times> ctx \<times> 'w engine" where
  "sub_execute X ev n c S =
     (if is_start_node n then (Inr (mk_outcome SUCCESS), c, S)
      else
        (let S1 = sub_emit X ev (PIPELINE_NODE_START (n_id n)
                    (if n_type n \<noteq> [] then n_type n else n_shape n) None) (tick (x_elapsed_ms X) S);
             (res, c', w) = e_handler (x_env X) n c (s_world S1);
             S2 = on_world (\<lambda>_. w) S1
         in case res of
              Inl e \<Rightarrow>
                (let out = sub_failure n e
                 in (Inl out, c', sub_emit X ev (PIPELINE_NODE_COMPLETE (n_id n) (status_value FAIL)
                       (o_notes out) (o_failure_reason out) None (Some 1) None None) S2))
            | Inr out \<Rightarrow>
                (Inr out, c', sub_emit X ev (PIPELINE_NODE_COMPLETE (n_id n) (status_value (o_status out))
                   (o_notes out) (o_failure_reason out) None (Some (attempt_field out))
                   (o_failed_step out) (o_session_id out)) S2)))"

definition dead_end_outcome :: "graph \<Rightarrow> node \<Rightarrow> outcome \<Rightarrow> outcome" where
  "dead_end_outcome g n out =
     (mk_outcome FAIL)\<lparr>o_failure_reason := Some (''Subgraph dead end at node '' @ quoted (n_id n) @ '': ''
        @ nat_str (length (outgoing_edges g (n_id n)))
        @ '' outgoing edge(s) exist but none match the current outcome (status=''
        @ status_value (o_status out)
        @ ''). This is a conditional-mismatch dead end -- add a matching edge or a fallback route.'')\<rparr>"

text \<open>The context update and the edge selection after a node.\<close>

definition sub_route ::
    "graph \<Rightarrow> node \<Rightarrow> outcome \<Rightarrow> ctx \<Rightarrow> 'w engine \<Rightarrow> 'w walked + 'w walk" where
  "sub_route g n out c S =
     (let c' = apply_outcome out c in
      case select_edge (n_id n) out c' g of
        None \<Rightarrow>
          Inl (Inr (if outgoing_edges g (n_id n) \<noteq> [] then dead_end_outcome g n out else out), c', S)
      | Some e \<Rightarrow>
          (case dict_get (g_nodes g) (to_node e) of
             None \<Rightarrow> Inl (Inl (PyError ''KeyError'' False (quoted (to_node e))), c', S)
           | Some m \<Rightarrow> Inr (m, Some out, c', S)))"

definition sub_cancelled :: outcome where
  "sub_cancelled = cancelled_outcome ''Pipeline cancelled during subgraph execution''"

definition sub_terminal :: "outcome option \<Rightarrow> outcome" where
  "sub_terminal last_outcome =
     (case last_outcome of
        None \<Rightarrow> (mk_outcome SUCCESS)\<lparr>o_notes := Some ''Subgraph reached terminal node''\<rparr>
      | Some out \<Rightarrow> out)"

definition sub_turn :: "'w eenv \<Rightarrow> graph \<Rightarrow> bool \<Rightarrow> 'w walk \<Rightarrow> 'w walked + 'w walk" where
  "sub_turn X g ev st =
     (case st of (n, last_outcome, c, S0) \<Rightarrow>
        (let (cancelled, S) = read_world (x_cancelled X) S0 in
         if cancelled then Inl (Inr sub_cancelled, c, S)
         else if is_exit_node n \<or> n_shape n = ''tripleoctagon'' then Inl (Inr (sub_terminal last_outcome), c, S)
         else
           (case registry_get (x_registered X) n of
              Inl e \<Rightarrow> Inl (Inl e, c, S)
            | Inr h \<Rightarrow>
                (case sub_execute X ev n c S of
                   (Inl out, c', S') \<Rightarrow> Inl (Inr out, c', S')
                 | (Inr out, c', S') \<Rightarrow> sub_route g n out c' S'))))"

definition sub_exceeded :: "graph \<Rightarrow> outcome" where
  "sub_exceeded g =
     (mk_outcome FAIL)\<lparr>o_failure_reason := Some (''Subgraph exceeded '' @ int_str (max_steps g) @ '' steps (safety bound)'')\<rparr>"

fun sub_loop :: "'w eenv \<Rightarrow> graph \<Rightarrow> bool \<Rightarrow> nat \<Rightarrow> 'w walk \<Rightarrow> 'w walked" where
  "sub_loop X g ev 0 st = (case st of (n, last_outcome, c, S) \<Rightarrow> (Inr (sub_exceeded g), c, S))"
| "sub_loop X g ev (Suc k) st =
     (case sub_turn X g ev st of
        Inl res \<Rightarrow> res
      | Inr st' \<Rightarrow> sub_loop X g ev k st')"

definition run_subgraph ::
    "'w eenv \<Rightarrow> graph \<Rightarrow> string \<Rightarrow> ctx \<Rightarrow> bool \<Rightarrow> 'w engine \<Rightarrow> 'w walked" where
  "run_subgraph X g start_node_id c ev S =
     (case dict_get (g_nodes g) start_node_id of
        None \<Rightarrow> (Inr ((mk_outcome FAIL)\<lparr>o_failure_reason :=
                   Some (''Subgraph start node '' @ quoted start_node_id @ '' not found in graph'')\<rparr>), c, S)
      | Some n \<Rightarrow> sub_loop X g ev (nat (max_steps g)) (n, None, c, S))"

text \<open>With no context given, the walk uses the engine's own.\<close>

definition run_subgraph_shared ::
    "'w eenv \<Rightarrow> graph \<Rightarrow> string \<Rightarrow> bool \<Rightarrow> 'w engine \<Rightarrow> (exc + outcome) \<times> 'w engine" where
  "run_subgraph_shared X g start_node_id ev S =
     (case run_subgraph X g start_node_id (s_ctx S) ev S of (res, c, S') \<Rightarrow> (res, on_ctx (\<lambda>_. c) S'))"

section \<open>Branches\<close>

definition clone_for_branch :: "ctx \<Rightarrow> 'w engine \<Rightarrow> 'w engine" where
  "clone_for_branch c S = engine_init c (s_world S) (s_events S)"

definition branch_env :: "'w eenv \<Rightarrow> 'w eenv" where
  "branch_env X = X\<lparr>x_branch_clone := True\<rparr>"

definition branch_context :: "ctx \<Rightarrow> ctx" where
  "branch_context c = ctx_set ''preferred_label'' PNone (ctx_clone c)"

definition branch_handler_type :: "graph \<Rightarrow> string \<Rightarrow> string" where
  "branch_handler_type g node_id =
     (case dict_get (g_nodes g) node_id of
        None \<Rightarrow> ''unknown''
      | Some n \<Rightarrow> (if n_type n \<noteq> [] then n_type n else n_shape n))"

text \<open>The clone shares the world and the event stream with the parent, nothing else.\<close>

definition branch_outcome :: "'w eenv \<Rightarrow> graph \<Rightarrow> string \<Rightarrow> ctx \<Rightarrow> 'w engine \<Rightarrow> outcome \<times> 'w engine" where
  "branch_outcome X g target c S =
     (case run_subgraph (branch_env X) g target c False (clone_for_branch c S) of
        (res, c', B) \<Rightarrow>
          ((case res of Inr out \<Rightarrow> out
            | Inl e \<Rightarrow> (mk_outcome FAIL)\<lparr>o_failure_reason := Some (exc_str e)\<rparr>),
           S\<lparr>s_run := (s_run S)\<lparr>r_world := s_world B, r_events := s_events B\<rparr>\<rparr>))"

definition run_branch :: "'w eenv \<Rightarrow> graph \<Rightarrow> node \<Rightarrow> string \<Rightarrow> ctx \<Rightarrow> 'w engine \<Rightarrow> branch_result \<times> 'w engine" where
  "run_branch X g n target c S =
     (let S1 = emit X (PIPELINE_PARALLEL_BRANCH_STARTED (n_id n) target) S;
          S2 = emit X (PIPELINE_NODE_START target (branch_handler_type g target) (Some 1)) S1;
          (out, S3) = branch_outcome X g target (branch_context c) (tick (x_elapsed_ms X) S2);
          S4 = emit X (PIPELINE_NODE_COMPLETE target (status_value (o_status out)) (o_notes out)
                 (o_failure_reason out) None None None None) S3;
          S5 = emit X (PIPELINE_PARALLEL_BRANCH_COMPLETED (n_id n) target (status_value (o_status out))) S4
      in (\<lparr>br_node_id = target, br_status = o_status out, br_notes = o_notes out,
           br_failure_reason = o_failure_reason out, br_context_updates = o_context_updates out\<rparr>, S5))"

text \<open>The branches one after the other, until one satisfies \<open>stop\<close>; the later ones are cancelled
  before they start.\<close>

fun run_branches ::
    "'w eenv \<Rightarrow> graph \<Rightarrow> node \<Rightarrow> (branch_result \<Rightarrow> bool) \<Rightarrow> string list \<Rightarrow> ctx \<Rightarrow> 'w engine
     \<Rightarrow> branch_result list \<times> 'w engine" where
  "run_branches X g n stop [] c S = ([], S)"
| "run_branches X g n stop (target # rest) c S =
     (let (r, S1) = run_branch X g n target c S in
      if stop r then ([r], S1)
      else (let (rs, S2) = run_branches X g n stop rest c S1 in (r # rs, S2)))"

section \<open>Early stops\<close>

text \<open>
  The \<open>asyncio.wait\<close> loop of \<open>_run_fail_fast\<close> and \<open>_run_first_success\<close>. A batch is what one wait
  returns, in its iteration order, with \<^const>\<open>None\<close> for a branch that bailed out; \<open>late\<close> is what the
  cancelled tasks still deliver. The rest of the batch in which the loop stops is dropped.
\<close>

definition some_results :: "branch_result option list \<Rightarrow> branch_result list" where
  "some_results rs = map the (filter (\<lambda>r. r \<noteq> None) rs)"

fun scan_batch :: "(branch_result \<Rightarrow> bool) \<Rightarrow> branch_result option list \<Rightarrow> branch_result list \<times> bool" where
  "scan_batch stop [] = ([], False)"
| "scan_batch stop (None # rest) = scan_batch stop rest"
| "scan_batch stop (Some r # rest) =
     (if stop r then ([r], True)
      else (let (rs, stopped) = scan_batch stop rest in (r # rs, stopped)))"

fun collect ::
    "(branch_result \<Rightarrow> bool) \<Rightarrow> branch_result option list list \<Rightarrow> branch_result option list
     \<Rightarrow> branch_result list" where
  "collect stop [] late = []"
| "collect stop (batch # batches) late =
     (let (rs, stopped) = scan_batch stop batch
      in if stopped then rs @ some_results late else rs @ collect stop batches late)"

definition run_fail_fast :: "branch_result option list list \<Rightarrow> branch_result option list \<Rightarrow> branch_result list" where
  "run_fail_fast batches late = collect (\<lambda>r. br_status r = FAIL) batches late"

definition run_first_success :: "branch_result option list list \<Rightarrow> branch_result option list \<Rightarrow> branch_result list" where
  "run_first_success batches late = collect branch_succeeded batches late"

section \<open>The parallel handler\<close>

text \<open>The policies as the attributes give them; \<open>finish_parallel\<close> is what follows the branches.\<close>

definition error_policy :: "node \<Rightarrow> string" where
  "error_policy n = py_str (node_attr_get_d n ''error_policy'' (PStr ''continue''))"

definition join_policy :: "node \<Rightarrow> string" where
  "join_policy n = py_str (node_attr_get_d n ''join_policy'' (PStr ''wait_all''))"

definition stored_results :: "string \<Rightarrow> branch_result list \<Rightarrow> branch_result list" where
  "stored_results policy results = (if policy = ''ignore'' then filter branch_succeeded results else results)"

definition store_results :: "branch_result list \<Rightarrow> ctx \<Rightarrow> ctx" where
  "store_results results c =
     ctx_set ''parallel.count'' (PInt (int (length results)))
       (ctx_set ''parallel.results'' (PList (map branch_result_val results)) c)"

definition finish_parallel ::
    "'w eenv \<Rightarrow> graph \<Rightarrow> node \<Rightarrow> branch_result list \<Rightarrow> ctx \<Rightarrow> 'w engine \<Rightarrow> outcome \<times> ctx \<times> 'w engine" where
  "finish_parallel X g n results0 c S =
     (let results = stored_results (error_policy n) results0
      in (apply_join_policy results (join_policy n), store_results results c,
          emit X (PIPELINE_PARALLEL_COMPLETED (n_id n) (length (outgoing_edges g (n_id n))) (length results)) S))"

text \<open>
  \<open>execute\<close>. The attribute \<open>max_parallel\<close> sizes the semaphore: a text that is no number and a negative
  size raise, and no branch ever gets past a semaphore of size 0, which is the value \<^const>\<open>None\<close>.
\<close>

definition stop_policy :: "node \<Rightarrow> branch_result \<Rightarrow> bool" where
  "stop_policy n r =
     (if error_policy n = ''fail_fast'' then br_status r = FAIL
      else if join_policy n = ''first_success'' then branch_succeeded r
      else False)"

definition parallel_execute ::
    "'w eenv \<Rightarrow> graph \<Rightarrow> node \<Rightarrow> ctx \<Rightarrow> 'w engine \<Rightarrow> ((exc + outcome) \<times> ctx \<times> 'w engine) option" where
  "parallel_execute X g n c S =
     (let branches = outgoing_edges g (n_id n) in
      if branches = [] then Some (Inr (explicit_note SUCCESS ''Parallel node with no branches''), c, S)
      else
        (case py_int (node_attr_get_d n ''max_parallel'' (PInt 4)) of
           None \<Rightarrow> Some (Inl (value_error ''invalid literal for int()''), c, S)
         | Some max_parallel \<Rightarrow>
             (if max_parallel < 0 then Some (Inl (value_error ''Semaphore initial value must be >= 0''), c, S)
              else if max_parallel = 0 then None
              else
                (let S1 = emit X (PIPELINE_PARALLEL_STARTED (n_id n) (length branches)) S;
                     (results, S2) = run_branches X g n (stop_policy n) (map to_node branches) c S1;
                     (out, c', S3) = finish_parallel X g n results c S2
                 in Some (Inr out, c', S3)))))"

section \<open>Lemmas: the walk\<close>

text \<open>The walk as an attempt loop, for the invariant rule of that interface.\<close>

definition sub_final :: "graph \<Rightarrow> 'w walk \<Rightarrow> 'w walked" where
  "sub_final g st = (case st of (n, last_outcome, c, S) \<Rightarrow> (Inr (sub_exceeded g), c, S))"

interpretation sl: attempt_loop "\<lambda>a. sub_turn X g ev" "\<lambda>a. sub_final g" "\<lambda>k a. sub_loop X g ev k"
  for X :: "'w eenv" and g ev
  by unfold_locales (simp_all add: sub_final_def)

lemma sub_emit_frame [simp]:
  "same_core S (sub_emit X ev e S)" "s_ctx (sub_emit X ev e S) = s_ctx S"
  by (simp_all add: sub_emit_def same_core_def)

text \<open>The walk of a context leaves the engine's own context and durable state alone.\<close>

definition isolated :: "'w engine \<Rightarrow> 'w engine \<Rightarrow> bool" where
  "isolated S S' = (same_core S S' \<and> s_ctx S' = s_ctx S)"

lemma isolated_refl [simp]: "isolated S S"
  by (simp add: isolated_def)

lemma isolated_trans: "isolated A B \<Longrightarrow> isolated B C \<Longrightarrow> isolated A C"
  by (auto simp: isolated_def same_core_def)

lemma sub_execute_isolated: "sub_execute X ev n c S = (res, c', S') \<Longrightarrow> isolated S S'"
  by (auto simp: sub_execute_def sub_emit_def isolated_def same_core_def Let_def
      split: if_splits prod.splits sum.splits)

lemma sub_route_state:
  "sub_route g n out c S = Inl (res, c', S') \<Longrightarrow> S' = S"
  "sub_route g n out c S = Inr (m, l, c', S') \<Longrightarrow> S' = S"
  by (auto simp: sub_route_def Let_def split: option.splits)

lemma sub_turn_isolated:
  "sub_turn X g ev (n, l, c, S) = Inl (res, c', S') \<Longrightarrow> isolated S S'"
  "sub_turn X g ev (n, l, c, S) = Inr (m, l', c', S') \<Longrightarrow> isolated S S'"
proof -
  obtain b S1 where r: "read_world (x_cancelled X) S = (b, S1)" by force
  then have "isolated S S1" by (auto simp: read_world_eq isolated_def same_core_def)
  then have "isolated S S2" if "sub_execute X ev n c S1 = (q, c2, S2)" for q c2 S2
    using isolated_trans sub_execute_isolated [OF that] by blast
  then show "sub_turn X g ev (n, l, c, S) = Inl (res, c', S') \<Longrightarrow> isolated S S'"
    "sub_turn X g ev (n, l, c, S) = Inr (m, l', c', S') \<Longrightarrow> isolated S S'"
    using r \<open>isolated S S1\<close>
    by (auto simp: sub_turn_def Let_def dest!: sub_route_state split: if_splits sum.splits prod.splits)
qed

lemma sub_loop_isolated:
  assumes "sub_loop X g ev k (n, l, c, S) = (res, c', S')"
  shows "isolated S S'"
proof -
  have "(\<lambda>(res, c', S'). isolated S S') (sub_loop X g ev k (n, l, c, S))"
  proof (rule sl.run_rule [where I = "\<lambda>a (n, l, c, S1). isolated S S1" and a = 0 and m = k])
    fix a s r
    assume "(case s of (n, l, c, S1) \<Rightarrow> isolated S S1)" "sub_turn X g ev s = Inl r"
    then show "case r of (res, c', S') \<Rightarrow> isolated S S'"
      using sub_turn_isolated(1) isolated_trans by (cases s; cases r) blast
  next
    fix a s s'
    assume "(case s of (n, l, c, S1) \<Rightarrow> isolated S S1)" "sub_turn X g ev s = Inr s'"
    then show "case s' of (n, l, c, S1) \<Rightarrow> isolated S S1"
      using sub_turn_isolated(2) isolated_trans by (cases s; cases s') blast
  qed (auto simp: sub_final_def)
  with assms show ?thesis by simp
qed

lemma run_subgraph_isolated: "run_subgraph X g i c ev S = (res, c', S') \<Longrightarrow> isolated S S'"
  by (auto simp: run_subgraph_def dest: sub_loop_isolated split: option.splits)

lemma emit_isolated [simp]: "isolated S (emit X ev S)"
  by (simp add: isolated_def same_core_def)

lemma tick_isolated [simp]: "isolated S (tick f S)"
  by (simp add: isolated_def same_core_def)

lemma branch_outcome_isolated: "branch_outcome X g t c S = (out, S') \<Longrightarrow> isolated S S'"
  by (auto simp: branch_outcome_def isolated_def same_core_def split: prod.splits)

lemma run_branch_isolated: "run_branch X g n t c S = (r, S') \<Longrightarrow> isolated S S' \<and> br_node_id r = t"
proof -
  assume r: "run_branch X g n t c S = (r, S')"
  define S2 where "S2 = tick (x_elapsed_ms X) (emit X (PIPELINE_NODE_START t (branch_handler_type g t) (Some 1))
    (emit X (PIPELINE_PARALLEL_BRANCH_STARTED (n_id n) t) S))"
  obtain out S3 where o: "branch_outcome X g t (branch_context c) S2 = (out, S3)" by force
  have "isolated S S2" unfolding S2_def by (meson emit_isolated tick_isolated isolated_trans)
  then have "isolated S S3" using branch_outcome_isolated [OF o] isolated_trans by blast
  moreover have "\<exists>e1 e2. S' = emit X e1 (emit X e2 S3)" and "br_node_id r = t"
    using r o unfolding run_branch_def S2_def [symmetric] Let_def by auto
  ultimately show ?thesis by (metis emit_isolated isolated_trans)
qed

lemma run_branches_isolated:
  "run_branches X g n stop ts c S = (rs, S') \<Longrightarrow> isolated S S'"
proof (induction ts arbitrary: S rs S')
  case Nil
  then show ?case by simp
next
  case (Cons t ts)
  obtain r S1 where r: "run_branch X g n t c S = (r, S1)" by force
  obtain rs2 S2 where rs: "run_branches X g n stop ts c S1 = (rs2, S2)" by force
  have "isolated S S1" using run_branch_isolated [OF r] by simp
  then show ?case using Cons.prems r rs Cons.IH [OF rs] isolated_trans by (auto split: if_splits)
qed

text \<open>Without an early stop there is one result per branch, in the order of the edges.\<close>

lemma run_branches_ids:
  "run_branches X g n (\<lambda>_. False) ts c S = (rs, S') \<Longrightarrow> map br_node_id rs = ts"
proof (induction ts arbitrary: S rs S')
  case Nil
  then show ?case by simp
next
  case (Cons t ts)
  obtain r S1 where r: "run_branch X g n t c S = (r, S1)" by force
  obtain rs2 S2 where rs: "run_branches X g n (\<lambda>_. False) ts c S1 = (rs2, S2)" by force
  show ?case using Cons.prems r rs Cons.IH [OF rs] run_branch_isolated [OF r] by auto
qed

section \<open>Lemmas: early stops\<close>

lemma scan_cons:
  "scan_batch stop (x # rest) =
     (case x of
        None \<Rightarrow> scan_batch stop rest
      | Some r \<Rightarrow> if stop r then ([r], True)
                  else (r # fst (scan_batch stop rest), snd (scan_batch stop rest)))"
  by (cases x) (simp_all add: case_prod_beta)

lemma some_results_Cons [simp]:
  "some_results [] = []" "some_results (None # b) = some_results b" "some_results (Some r # b) = r # some_results b"
  by (simp_all add: some_results_def)

lemma scan_hit: "snd (scan_batch stop b) \<longleftrightarrow> (\<exists>r. Some r \<in> set b \<and> stop r)"
proof (induction b)
  case Nil
  then show ?case by simp
next
  case (Cons x b)
  then show ?case unfolding scan_cons by (cases x) auto
qed

lemma scan_stop_in: "snd (scan_batch stop b) \<Longrightarrow> \<exists>r \<in> set (fst (scan_batch stop b)). stop r"
proof (induction b)
  case Nil
  then show ?case by simp
next
  case (Cons x b)
  then show ?case unfolding scan_cons by (cases x) (auto split: if_splits)
qed

lemma scan_all: "\<not> snd (scan_batch stop b) \<Longrightarrow> fst (scan_batch stop b) = some_results b"
proof (induction b)
  case Nil
  then show ?case by simp
next
  case (Cons x b)
  then show ?case unfolding scan_cons by (cases x) (auto split: if_splits)
qed

lemma collect_cons:
  "collect stop (b # bs) late =
     (if snd (scan_batch stop b) then fst (scan_batch stop b) @ some_results late
      else fst (scan_batch stop b) @ collect stop bs late)"
  by (simp add: case_prod_beta)

text \<open>If some branch satisfied \<open>stop\<close>, the collected results show one; otherwise nothing that was
  delivered is missing.\<close>

lemma collect_stop:
  assumes "b \<in> set batches" "Some r \<in> set b" "stop r"
  shows "\<exists>r \<in> set (collect stop batches late). stop r"
  using assms(1)
proof (induction batches)
  case Nil
  then show ?case by simp
next
  case (Cons b1 bs)
  show ?case
  proof (cases "snd (scan_batch stop b1)")
    case True
    then show ?thesis using scan_stop_in [OF True] unfolding collect_cons by auto
  next
    case False
    then have "b \<noteq> b1" using assms(2,3) scan_hit by metis
    then show ?thesis using Cons False unfolding collect_cons by auto
  qed
qed

lemma collect_all:
  assumes "\<forall>b \<in> set batches. \<forall>r. Some r \<in> set b \<longrightarrow> \<not> stop r"
  shows "collect stop batches late = concat (map some_results batches)"
  using assms
proof (induction batches)
  case Nil
  then show ?case by simp
next
  case (Cons b bs)
  have ns: "\<not> snd (scan_batch stop b)" using Cons.prems by (simp add: scan_hit)
  have "collect stop bs late = concat (map some_results bs)" using Cons by simp
  then show ?case unfolding collect_cons using ns scan_all [OF ns] by simp
qed

lemma some_results_in: "r \<in> set (some_results b) \<longleftrightarrow> Some r \<in> set b"
  by (force simp: some_results_def)

end
