(* ===== verification/Stylesheet.thy ===== *)
theory Stylesheet
  imports Templates
begin

text \<open>
  \<open>stylesheet.py\<close>: the CSS-like language that assigns model properties to nodes, and
  \<open>apply_transforms\<close> of \<open>transforms.py\<close>, which runs it. The two regular expressions are scanners that
  try a match at every position from left to right and go on after a match, as \<open>re.finditer\<close> does;
  both patterns have one possible match at a position, so no backtracking is modelled.
\<close>

section \<open>Rules\<close>

record style_rule =
  sr_selector :: string
  sr_specificity :: nat
  sr_properties :: "string dict"

definition recognized_properties :: "string list" where
  "recognized_properties = [''llm_model'', ''llm_provider'', ''reasoning_effort'']"

definition ident_start :: "char \<Rightarrow> bool" where
  "ident_start c = (is_alpha c \<or> c = CHR ''_'')"

definition class_char :: "char \<Rightarrow> bool" where
  "class_char c = ((let n = (of_char c :: nat) in 97 \<le> n \<and> n \<le> 122) \<or> is_digit c \<or> c = CHR ''-'')"

section \<open>The scanners\<close>

text \<open>The selector at the start of the text, and what follows it.\<close>

definition selector_at :: "string \<Rightarrow> (string \<times> string) option" where
  "selector_at s =
     (case s of
        [] \<Rightarrow> None
      | c # cs \<Rightarrow>
          (if c = CHR ''*'' then Some (''*'', cs)
           else if c = CHR ''#'' then
             (if cs \<noteq> [] \<and> ident_start (hd cs)
              then Some (c # takeWhile is_word cs, dropWhile is_word cs) else None)
           else if c = CHR ''.'' then
             (if cs \<noteq> [] \<and> class_char (hd cs)
              then Some (c # takeWhile class_char cs, dropWhile class_char cs) else None)
           else if is_alpha c then Some (takeWhile is_word s, dropWhile is_word s)
           else None))"

text \<open>One rule: its selector, its declaration block, and what follows the closing brace.\<close>

definition rule_at :: "string \<Rightarrow> (string \<times> string \<times> string) option" where
  "rule_at s =
     (case selector_at s of
        None \<Rightarrow> None
      | Some (sel, r1) \<Rightarrow>
          (case py_lstrip r1 of
             [] \<Rightarrow> None
           | c # r2 \<Rightarrow>
               (let block = takeWhile (\<lambda>ch. ch \<noteq> CHR ''}'') r2;
                    after = dropWhile (\<lambda>ch. ch \<noteq> CHR ''}'') r2
                in if c = CHR ''{'' \<and> after \<noteq> [] then Some (sel, block, tl after) else None)))"

text \<open>One declaration: property, value (stripped), and what follows the semicolon or the end.\<close>

definition decl_at :: "string \<Rightarrow> (string \<times> string \<times> string) option" where
  "decl_at s =
     (let t = py_lstrip s in
      if t = [] \<or> \<not> ident_start (hd t) then None
      else
        (case py_lstrip (dropWhile is_word t) of
           [] \<Rightarrow> None
         | c # r \<Rightarrow>
             (let value = takeWhile (\<lambda>ch. ch \<noteq> CHR '';'') r;
                  after = dropWhile (\<lambda>ch. ch \<noteq> CHR '';'') r
              in if c = CHR '':'' \<and> value \<noteq> []
                 then Some (takeWhile is_word t, py_strip value, drop 1 after) else None)))"

lemma length_lstrip: "length (py_lstrip s) \<le> length s"
  by (simp add: py_lstrip_def length_dropWhile_le)

lemma selector_at_shorter: "selector_at s = Some (sel, r) \<Longrightarrow> length r < length s"
  by (auto simp: selector_at_def is_word_def le_imp_less_Suc length_dropWhile_le split: list.splits if_splits)

lemma rule_at_shorter:
  assumes "rule_at s = Some (sel, block, r)"
  shows "length r < length s"
proof -
  obtain r1 c r2 where r: "selector_at s = Some (sel, r1)" "py_lstrip r1 = c # r2"
    "r = tl (dropWhile (\<lambda>ch. ch \<noteq> CHR ''}'') r2)"
    using assms by (auto simp: rule_at_def Let_def split: option.splits list.splits if_splits)
  have "length r \<le> length r2"
    using length_dropWhile_le [of "\<lambda>ch. ch \<noteq> CHR ''}''" r2] r(3) by simp
  then show ?thesis using selector_at_shorter [OF r(1)] length_lstrip [of r1] r(2) by simp
qed

lemma decl_at_shorter:
  assumes "decl_at s = Some (k, v, r)"
  shows "length r < length s"
proof -
  obtain c q where q: "py_lstrip (dropWhile is_word (py_lstrip s)) = c # q"
    "r = drop 1 (dropWhile (\<lambda>ch. ch \<noteq> CHR '';'') q)"
    using assms by (auto simp: decl_at_def Let_def split: list.splits if_splits)
  have "length r \<le> length q" using length_dropWhile_le [of "\<lambda>ch. ch \<noteq> CHR '';''" q] q(2) by simp
  moreover have "length (c # q) \<le> length s"
    using length_lstrip [of "dropWhile is_word (py_lstrip s)"] length_lstrip [of s]
      length_dropWhile_le [of is_word "py_lstrip s"] q(1) by simp
  ultimately show ?thesis by simp
qed

function decls :: "string \<Rightarrow> (string \<times> string) list" where
  "decls s =
     (case decl_at s of
        Some (k, v, rest) \<Rightarrow> (k, v) # decls rest
      | None \<Rightarrow> (case s of [] \<Rightarrow> [] | c # cs \<Rightarrow> decls cs))"
  by pat_completeness auto
termination
  by (relation "measure length") (auto dest: decl_at_shorter)

function raw_rules :: "string \<Rightarrow> (string \<times> string) list" where
  "raw_rules s =
     (case rule_at s of
        Some (sel, block, rest) \<Rightarrow> (sel, block) # raw_rules rest
      | None \<Rightarrow> (case s of [] \<Rightarrow> [] | c # cs \<Rightarrow> raw_rules cs))"
  by pat_completeness auto
termination
  by (relation "measure length") (auto dest: rule_at_shorter)

declare decls.simps [simp del] raw_rules.simps [simp del]

section \<open>parse_stylesheet\<close>

definition specificity_of :: "string \<Rightarrow> nat" where
  "specificity_of sel =
     (if sel = ''*'' then 0 else if startswith ''.'' sel then 2 else if startswith ''#'' sel then 3 else 1)"

definition properties_of :: "string \<Rightarrow> string dict" where
  "properties_of block =
     dict_update [] (filter (\<lambda>(k, v). k \<in> set recognized_properties) (decls block))"

definition parse_stylesheet :: "string \<Rightarrow> style_rule list" where
  "parse_stylesheet css =
     (if py_strip css = [] then []
      else filter (\<lambda>r. sr_properties r \<noteq> [])
             (map (\<lambda>(sel, block). \<lparr>sr_selector = sel, sr_specificity = specificity_of sel,
                                   sr_properties = properties_of block\<rparr>) (raw_rules css)))"

section \<open>apply_stylesheet\<close>

text \<open>The value of \<open>class\<close> is split as text: another true value has no \<open>split\<close>, which is the value
  \<^const>\<open>None\<close> (\<open>AttributeError\<close>).\<close>

definition node_classes :: "pyval \<Rightarrow> string list option" where
  "node_classes v =
     (if \<not> py_true v then Some []
      else (case v of PStr s \<Rightarrow> Some (map py_strip (py_split '','' s)) | _ \<Rightarrow> None))"

definition selector_matches :: "style_rule \<Rightarrow> node \<Rightarrow> bool option" where
  "selector_matches rule n =
     (let sel = sr_selector rule in
      if sel = ''*'' then Some True
      else if startswith ''#'' sel then Some (tl sel = n_id n)
      else if startswith ''.'' sel then
        map_option (\<lambda>cs. tl sel \<in> set cs) (node_classes (node_attr_get_d n ''class'' (PStr [])))
      else Some (sel = n_shape n))"

type_synonym resolved = "(nat \<times> string) dict"

definition resolve_property :: "nat \<Rightarrow> string \<times> string \<Rightarrow> resolved \<Rightarrow> resolved" where
  "resolve_property specificity kv acc =
     (case kv of (k, v) \<Rightarrow>
        (case dict_get acc k of
           None \<Rightarrow> dict_set k (specificity, v) acc
         | Some (prev, old) \<Rightarrow> if specificity \<ge> prev then dict_set k (specificity, v) acc else acc))"

fun resolve_rules :: "style_rule list \<Rightarrow> node \<Rightarrow> resolved \<Rightarrow> resolved option" where
  "resolve_rules [] n acc = Some acc"
| "resolve_rules (rule # rules) n acc =
     (case selector_matches rule n of
        None \<Rightarrow> None
      | Some False \<Rightarrow> resolve_rules rules n acc
      | Some True \<Rightarrow>
          resolve_rules rules n (fold (resolve_property (sr_specificity rule)) (sr_properties rule) acc))"

definition style_property :: "string \<times> nat \<times> string \<Rightarrow> node \<Rightarrow> node" where
  "style_property kv n =
     (case kv of (k, specificity, v) \<Rightarrow> if node_attr_has n k then n else node_attr_set k (PStr v) n)"

definition style_node :: "style_rule list \<Rightarrow> node \<Rightarrow> node option" where
  "style_node rules n = map_option (\<lambda>res. fold style_property res n) (resolve_rules rules n [])"

fun style_nodes :: "style_rule list \<Rightarrow> node dict \<Rightarrow> node dict option" where
  "style_nodes rules [] = Some []"
| "style_nodes rules ((k, n) # rest) =
     (case style_node rules n of
        None \<Rightarrow> None
      | Some n' \<Rightarrow> map_option (\<lambda>ns. (k, n') # ns) (style_nodes rules rest))"

definition apply_stylesheet :: "graph \<Rightarrow> style_rule list \<Rightarrow> graph option" where
  "apply_stylesheet g rules =
     (if rules = [] then Some g
      else map_option (\<lambda>ns. g\<lparr>g_nodes := ns\<rparr>) (style_nodes rules (g_nodes g)))"

section \<open>apply_transforms\<close>

definition apply_transforms :: "graph \<Rightarrow> ctx \<Rightarrow> (graph \<Rightarrow> graph) list \<Rightarrow> graph option" where
  "apply_transforms g c extra_transforms =
     (let g1 = expand_variables g c;
          styled = (if g_model_stylesheet g1 \<noteq> []
                    then apply_stylesheet g1 (parse_stylesheet (g_model_stylesheet g1)) else Some g1)
      in map_option (fold (\<lambda>transform. transform) extra_transforms) styled)"


section \<open>The cascade\<close>

text \<open>What the rules that match a node say about one property, in the order of the stylesheet, and the
  value the cascade picks: the last among those of the greatest specificity.\<close>

definition candidates :: "style_rule list \<Rightarrow> node \<Rightarrow> string \<Rightarrow> (nat \<times> string) list" where
  "candidates rules n p =
     concat (map (\<lambda>r. if selector_matches r n = Some True
                      then map (\<lambda>(k, v). (sr_specificity r, v)) (filter (\<lambda>(k, v). k = p) (sr_properties r))
                      else []) rules)"

definition winner :: "(nat \<times> string) list \<Rightarrow> (nat \<times> string) option" where
  "winner cs =
     (let top = filter (\<lambda>c. fst c = Max (fst ` set cs)) cs in if top = [] then None else Some (last top))"

fun later :: "nat \<times> string \<Rightarrow> (nat \<times> string) option \<Rightarrow> (nat \<times> string) option" where
  "later c None = Some c"
| "later c (Some d) = (if fst d \<le> fst c then Some c else Some d)"

lemma resolve_property_get:
  "dict_get (resolve_property s kv acc) p = (if fst kv = p then later (s, snd kv) (dict_get acc p) else dict_get acc p)"
  by (cases kv) (auto simp: resolve_property_def split: option.splits)

lemma fold_resolve_get:
  "dict_get (fold (resolve_property s) ps acc) p =
   fold later (map (\<lambda>(k, v). (s, v)) (filter (\<lambda>(k, v). k = p) ps)) (dict_get acc p)"
  by (induction ps arbitrary: acc) (auto simp: resolve_property_get)

lemma resolve_rules_get:
  "resolve_rules rules n acc = Some res \<Longrightarrow> dict_get res p = fold later (candidates rules n p) (dict_get acc p)"
proof (induction rules arbitrary: acc)
  case Nil
  then show ?case by (simp add: candidates_def)
next
  case (Cons r rules)
  then obtain b where b: "selector_matches r n = Some b" by (auto split: option.splits)
  show ?case using Cons.IH Cons.prems b
    by (cases b) (simp_all add: candidates_def fold_resolve_get)
qed

lemma filter_max_snoc:
  "filter (\<lambda>d. fst d = Max (fst ` set (cs @ [c]))) (cs @ [c]) =
   (if \<forall>d \<in> set cs. fst d < fst c then [c]
    else if fst c = Max (fst ` set cs) then filter (\<lambda>d. fst d = Max (fst ` set cs)) cs @ [c]
    else filter (\<lambda>d. fst d = Max (fst ` set cs)) cs)" for c :: "nat \<times> string"
proof (cases "cs = []")
  case False
  let ?M = "Max (fst ` set cs)"
  have M: "Max (fst ` set (cs @ [c])) = max (fst c) ?M" using False by simp
  have less: "(\<forall>d \<in> set cs. fst d < fst c) \<longleftrightarrow> ?M < fst c" using False by simp
  show ?thesis
  proof (cases "?M < fst c")
    case True
    then have "filter (\<lambda>d. fst d = max (fst c) ?M) cs = []"
      using less by (auto simp: filter_empty_conv max_def)
    then show ?thesis using True less M by (simp add: max_def)
  next
    case *: False
    then have "max (fst c) ?M = ?M" by (simp add: max_def)
    then show ?thesis using * less M by (simp only: if_False) simp
  qed
qed simp

lemma winner_in: "cs \<noteq> [] \<Longrightarrow> \<exists>d. winner cs = Some d \<and> fst d = Max (fst ` set cs)"
proof -
  assume "cs \<noteq> []"
  then have "Max (fst ` set cs) \<in> fst ` set cs" by simp
  then have top: "filter (\<lambda>d. fst d = Max (fst ` set cs)) cs \<noteq> []" by (force simp: filter_empty_conv)
  then have "last (filter (\<lambda>d. fst d = Max (fst ` set cs)) cs) \<in> set (filter (\<lambda>d. fst d = Max (fst ` set cs)) cs)"
    by (rule last_in_set)
  then show ?thesis using top by (simp add: winner_def Let_def)
qed

lemma winner_snoc: "winner (cs @ [c]) = later c (winner cs)"
proof (cases "cs = []")
  case True
  then show ?thesis by (simp add: winner_def)
next
  case False
  then obtain d where d: "winner cs = Some d" "fst d = Max (fst ` set cs)" using winner_in by blast
  have less: "(\<forall>e \<in> set cs. fst e < fst c) \<longleftrightarrow> fst d < fst c" using False d(2) by simp
  have "winner (cs @ [c]) =
      (if fst d < fst c then Some c
       else if fst c = fst d then Some c else winner cs)"
    unfolding winner_def filter_max_snoc less d(2) [symmetric]
    by (auto simp: Let_def)
  then show ?thesis using d(1) by simp
qed

lemma fold_later: "fold later cs None = winner cs"
  by (induction cs rule: rev_induct) (simp add: winner_def, simp add: winner_snoc)

lemma style_property_has: "node_attr_has (style_property (k, s, v) n) p \<longleftrightarrow> p = k \<or> node_attr_has n p"
  by (auto simp: style_property_def na.has_assign)

lemma style_property_get:
  "node_attr_get (style_property (k, s, v) n) p =
   (if p = k \<and> \<not> node_attr_has n p then PStr v else node_attr_get n p)"
  by (auto simp: style_property_def na.get_assign)

lemma fold_style_get:
  "node_attr_get (fold style_property res n) p =
   (if node_attr_has n p then node_attr_get n p
    else (case dict_get res p of None \<Rightarrow> node_attr_get n p | Some (s, v) \<Rightarrow> PStr v))"
proof (induction res arbitrary: n)
  case (Cons e res)
  obtain k s v where "e = (k, s, v)" by (cases e) auto
  then show ?case by (simp add: Cons.IH style_property_get style_property_has split: option.split)
qed simp

lemma fold_style_frame [frames]:
  "n_id (fold style_property res n) = n_id n" "n_shape (fold style_property res n) = n_shape n"
proof (induction res arbitrary: n)
  case (Cons e res)
  obtain k s v where e: "e = (k, s, v)" by (cases e) auto
  {
    case 1
    show ?case using Cons(1) [of "style_property e n"] by (simp add: e style_property_def node_attr_set_frame)
  next
    case 2
    show ?case using Cons(2) [of "style_property e n"] by (simp add: e style_property_def node_attr_set_frame)
  }
qed simp_all

lemma style_node_get:
  assumes "style_node rules n = Some n'"
  shows "node_attr_get n' p =
    (if node_attr_has n p then node_attr_get n p
     else (case winner (candidates rules n p) of None \<Rightarrow> node_attr_get n p | Some (s, v) \<Rightarrow> PStr v))"
proof -
  obtain res where res: "resolve_rules rules n [] = Some res" "n' = fold style_property res n"
    using assms by (auto simp: style_node_def)
  have "dict_get res p = winner (candidates rules n p)"
    using resolve_rules_get [OF res(1), of p] by (simp add: fold_later)
  then show ?thesis by (simp add: res(2) fold_style_get)
qed

lemma style_nodes_get:
  "style_nodes rules ns = Some ns' \<Longrightarrow> dict_get ns k = Some n \<Longrightarrow>
   \<exists>n'. style_node rules n = Some n' \<and> dict_get ns' k = Some n'"
proof (induction ns arbitrary: ns')
  case (Cons e ns)
  obtain k0 n0 where "e = (k0, n0)" by (cases e) auto
  then show ?case using Cons by (auto split: option.splits if_splits)
qed simp

lemma style_nodes_keys: "style_nodes rules ns = Some ns' \<Longrightarrow> dict_keys ns' = dict_keys ns"
proof (induction ns arbitrary: ns')
  case (Cons e ns)
  obtain k0 n0 where "e = (k0, n0)" by (cases e) auto
  then show ?case using Cons by (auto split: option.splits)
qed simp

lemma no_rules_no_candidates: "candidates [] n p = []"
  by (simp add: candidates_def)

lemma apply_stylesheet_get:
  assumes "apply_stylesheet g rules = Some g'" and "dict_get (g_nodes g) k = Some n"
  shows "\<exists>n'. dict_get (g_nodes g') k = Some n'
    \<and> node_attr_get n' p =
        (if node_attr_has n p then node_attr_get n p
         else (case winner (candidates rules n p) of None \<Rightarrow> node_attr_get n p | Some (s, v) \<Rightarrow> PStr v))"
proof (cases "rules = []")
  case True
  then have "g' = g" using assms(1) by (simp add: apply_stylesheet_def)
  moreover have "winner (candidates rules n p) = None" using True by (simp add: candidates_def winner_def)
  ultimately show ?thesis using assms(2) by auto
next
  case False
  then obtain ns where ns: "style_nodes rules (g_nodes g) = Some ns" "g' = g\<lparr>g_nodes := ns\<rparr>"
    using assms(1) by (auto simp: apply_stylesheet_def)
  obtain n' where "style_node rules n = Some n'" "dict_get ns k = Some n'"
    using style_nodes_get [OF ns(1) assms(2)] by blast
  then show ?thesis using ns(2) style_node_get [of rules n n' p] by auto
qed

text \<open>A parsed rule sets recognised properties only, so the stylesheet cannot touch another attribute.\<close>

lemma dict_update_keys: "set (dict_keys (dict_update d e)) \<subseteq> set (dict_keys d) \<union> set (dict_keys e)"
proof (induction e arbitrary: d)
  case (Cons p e)
  obtain k v where p: "p = (k, v)" by (cases p) auto
  have "set (dict_keys (dict_set k v d)) \<subseteq> insert k (set (dict_keys d))" by (simp add: dom_update)
  then have "set (dict_keys (dict_update (dict_set k v d) e)) \<subseteq> insert k (set (dict_keys d)) \<union> set (dict_keys e)"
    using Cons.IH [of "dict_set k v d"] by blast
  then show ?case by (simp add: p insert_commute)
qed simp

lemma properties_recognized: "set (dict_keys (properties_of block)) \<subseteq> set recognized_properties"
proof -
  let ?ds = "filter (\<lambda>(k, v). k \<in> set recognized_properties) (decls block)"
  have "set (dict_keys ?ds) \<subseteq> set recognized_properties" by auto
  then show ?thesis using dict_update_keys [of "[]" ?ds] by (auto simp: properties_of_def)
qed

lemma parsed_rule_recognized:
  assumes "r \<in> set (parse_stylesheet css)" and "(k, v) \<in> set (sr_properties r)"
  shows "k \<in> set recognized_properties"
proof -
  obtain block where "sr_properties r = properties_of block"
    using assms(1) by (auto simp: parse_stylesheet_def split: if_splits)
  then show ?thesis using assms(2) properties_recognized [of block] by force
qed

lemma unrecognized_untouched:
  "p \<notin> set recognized_properties \<Longrightarrow> candidates (parse_stylesheet css) n p = []"
  by (auto simp: candidates_def filter_empty_conv dest: parsed_rule_recognized)

end
