(* ===== verification/Samples.thy ===== *)
theory Samples
  imports Resume_Facts Parallel Stylesheet
begin

text \<open>
  Concrete graphs, an environment and engine states, the inputs at which the properties with
  hypotheses are evaluated. The environment counts the handler runs; its handler succeeds with an
  explicit verdict and its clocks stand still.
\<close>

definition plain_node :: "string \<Rightarrow> string \<Rightarrow> node" where
  "plain_node i shape =
     \<lparr>n_id = i, n_label = i, n_shape = shape, n_type = [], n_prompt = [], n_raw = [],
      n_handler_type = [], n_max_retries = PNone, n_goal_gate = PNone, n_retry_target = PNone,
      n_fallback_retry_target = PNone, n_fidelity = PNone, n_thread_id = PNone, n_timeout = PNone,
      n_llm_model = PNone, n_llm_provider = PNone, n_reasoning_effort = PNone,
      n_auto_status = PNone, n_allow_partial = PNone\<rparr>"

definition plain_edge :: "string \<Rightarrow> string \<Rightarrow> edge" where
  "plain_edge a b =
     \<lparr>from_node = a, to_node = b, e_label = [], e_condition = [], e_weight = 0, e_raw = [],
      e_fidelity = PNone, e_thread_id = PNone, e_loop_restart = PNone\<rparr>"

definition plain_graph :: "node list \<Rightarrow> edge list \<Rightarrow> graph" where
  "plain_graph ns es =
     \<lparr>g_name = ''g'', g_nodes = map (\<lambda>n. (n_id n, n)) ns, g_edges = es, g_goal = [],
      g_dot_source = ''d'', g_default_max_retry = PInt 0, g_model_stylesheet = [], g_source_dir = [],
      g_raw = [], g_retry_target = PNone, g_fallback_retry_target = PNone,
      g_default_fidelity = PNone, g_label = PNone, g_max_pipeline_duration = PNone\<rparr>"

text \<open>A start node that is the exit as well; a chain of a tool node and the exit; a fan-out of two
  branches that meet.\<close>

definition single_graph :: graph where
  "single_graph = plain_graph [plain_node ''end'' ''Mdiamond''] []"

definition chain_graph :: graph where
  "chain_graph =
     plain_graph [plain_node ''t'' ''parallelogram'', plain_node ''x'' ''Msquare''] [plain_edge ''t'' ''x'']"

definition fan_graph :: graph where
  "fan_graph =
     plain_graph [plain_node ''c'' ''component'', plain_node ''a'' ''box'', plain_node ''b'' ''box'',
                  plain_node ''j'' ''tripleoctagon'']
       [plain_edge ''c'' ''a'', plain_edge ''c'' ''b'', plain_edge ''a'' ''j'', plain_edge ''b'' ''j'']"

definition plain_host :: "pyval \<Rightarrow> host" where
  "plain_host v = \<lparr>h_f64 = (\<lambda>q. q), h_cwd = ''/w'', h_json_loads = (\<lambda>s. Inr v), h_json_raises = (\<lambda>s. None), h_decode_utf8 = Inr\<rparr>"

definition written_file :: "fsys" where
  "written_file = (\<lambda>p. Some \<lparr>f_mtime_ns = 1, f_content = Inr ''x''\<rparr>)"

definition plain_env :: "nat env" where
  "plain_env =
     \<lparr>e_host = plain_host PNone, e_hooks = True, e_wall = (\<lambda>w. (0, w)), e_files = (\<lambda>w p. None),
      e_handler = (\<lambda>n c w. (Inr ((mk_outcome SUCCESS)\<lparr>o_is_explicit := True\<rparr>), c, Suc w)),
      e_random = (\<lambda>w. (1, w)), e_sleep = (\<lambda>d w. w)\<rparr>"

definition plain_eenv :: "nat eenv" where
  "plain_eenv =
     \<lparr>x_env = plain_env, x_logs_root = ''l'', x_sha = (\<lambda>s. s), x_registered = handlers_init,
      x_elapsed_ms = (\<lambda>w. (0, w)), x_cancelled = (\<lambda>w. (False, w)), x_bounded = (\<lambda>t n st. None),
      x_now = (\<lambda>w. ([], w)), x_write_json = (\<lambda>p v w. w), x_write_text = (\<lambda>p s w. w),
      x_makedirs = (\<lambda>p w. w),
      x_provenance = ([], []), x_set_order = (\<lambda>xs. xs), x_branch_clone = False\<rparr>"

definition start_state :: "nat engine" where
  "start_state = engine_init ctx_new 0 []"

lemma start_state_fresh: "fresh start_state"
  unfolding start_state_def by (rule fresh_init)

lemma plain_eenv_order: "set_order_ok plain_eenv"
  by (simp add: set_order_ok_def plain_eenv_def)

lemma single_graph_ok: "graph_ok single_graph" and chain_graph_ok: "graph_ok chain_graph"
  and fan_graph_ok: "graph_ok fan_graph"
  by (simp_all add: graph_ok_def single_graph_def chain_graph_def fan_graph_def plain_graph_def
      plain_node_def plain_edge_def dict_ok_def dict_has_def)

lemma single_run:
  "s_last (snd (run plain_eenv single_graph None start_state)) \<noteq> None
   \<and> is_fail (fst (run plain_eenv single_graph None start_state)) = False"
  by code_simp

end
