(* ===== verification/Component_Properties.thy ===== *)
theory Component_Properties
  imports Samples
begin

text \<open>
  The properties of the components the engine is made of, each with the concrete input at which its
  hypotheses hold: routing, the retry ladder, the file contracts, checkpoints, templates, the graph
  attributes, and parallel branches.
\<close>

section \<open>Routing\<close>

text \<open>C39: Edge selection follows the priority of the specification: the selected edge is an outgoing
  edge whose condition holds or is absent; if any outgoing condition holds, the selected edge is one
  of those, of the highest weight and then the least target id, whatever labels or suggestions the
  outcome carries.\<close>

theorem select_edge_priority:
  assumes "select_edge i out c g = Some e"
  shows "e \<in> set (outgoing_edges g i) \<and> (e_condition e = [] \<or> evaluate_condition (e_condition e) out c)
    \<and> (\<forall>e1 \<in> set (condition_matched (outgoing_edges g i) out c).
         e \<in> set (condition_matched (outgoing_edges g i) out c) \<and> edge_rank e \<le> edge_rank e1)"
  using assms
proof (cases rule: select_edge_cases)
  case matched
  then show ?thesis
    using best_in [OF matched] best_least [OF matched] select_edge_sound [OF assms] by (auto simp: edge_admissible_def)
next
  case plain
  then show ?thesis by simp
qed

theorem select_edge_priority_witness:
  "plain_edge ''t'' ''x'' \<in> set (outgoing_edges chain_graph ''t'')"
proof -
  have "select_edge ''t'' (mk_outcome SUCCESS) ctx_new chain_graph = Some (plain_edge ''t'' ''x'')" by code_simp
  from select_edge_priority [OF this] show ?thesis by simp
qed

text \<open>Edge selection fails only when it must: there is no selected edge exactly when every
  outgoing edge carries a condition that does not hold.\<close>

theorem select_edge_none_iff:
  "select_edge i out c g = None \<longleftrightarrow>
   list_all (\<lambda>e. \<not> (e_condition e = [] \<or> evaluate_condition (e_condition e) out c)) (outgoing_edges g i)"
  using select_edge_None_iff [of i out c g] by (simp add: list_all_iff edge_admissible_def)

text \<open>\<open>&&\<close> is conjunction: the condition \<open>a && b\<close> holds exactly when \<open>a\<close> and \<open>b\<close> both do, for
  every \<open>a\<close> that does not itself end in \<open>&\<close>.\<close>

theorem condition_conjunction:
  assumes "a = [] \<or> last a \<noteq> CHR ''&''"
  shows "evaluate_condition (a @ ''&&'' @ b) out c \<longleftrightarrow> evaluate_condition a out c \<and> evaluate_condition b out c"
  using evaluate_condition_conj [OF assms] .

theorem condition_conjunction_witness:
  "evaluate_condition (''outcome=success'' @ ''&&'' @ ''k'') (mk_outcome SUCCESS) ctx_new \<longleftrightarrow>
   evaluate_condition ''outcome=success'' (mk_outcome SUCCESS) ctx_new \<and> evaluate_condition ''k'' (mk_outcome SUCCESS) ctx_new"
  by (rule condition_conjunction) simp

text \<open>Parsing a printed condition gives back its clauses: key, operator and value of every
  clause survive, for keys and values free of the operator characters and of surrounding blanks.\<close>

theorem condition_roundtrip:
  assumes "list_all clause_ok cls"
  shows "parse_condition (py_join ''&&'' (map clause_str cls)) = cls"
  using parse_condition_print [OF assms] .

theorem condition_roundtrip_witness:
  "parse_condition (py_join ''&&'' (map clause_str [(''outcome'', ''='', ''fail''), (''k'', ''!='', ''v'')]))
   = [(''outcome'', ''='', ''fail''), (''k'', ''!='', ''v'')]"
  by (rule condition_roundtrip) code_simp

section \<open>The retry ladder\<close>

text \<open>The ladder runs the handler at most as often as the policy allows: any count of handler
  runs that the clock, the generator and the sleep leave alone grows by at most \<open>max_attempts\<close>.\<close>

theorem retry_attempts_bounded:
  assumes "counts_calls env calls"
  shows "calls (r_world (snd (execute_with_retry env logs n pol st))) \<le> calls (r_world st) + p_max_attempts pol"
proof -
  obtain t w where w: "e_wall env (r_world st) = (t, w)" by force
  obtain r st' where l: "ladder env logs n pol t (p_max_attempts pol) 1 None (st\<lparr>r_world := w\<rparr>) = (r, st')" by force
  have "calls w = calls (r_world st)" using counts_calls_simps(1) [OF assms w] .
  then show ?thesis using ladder_calls [OF assms l] w l by (simp add: execute_with_retry_def)
qed

theorem retry_attempts_bounded_witness:
  "r_world (snd (execute_with_retry plain_env ''l'' (plain_node ''n'' ''box'')
     \<lparr>p_max_attempts = 3, p_backoff = default_backoff\<rparr> (s_run start_state))) \<le> r_world (s_run start_state) + 3"
proof -
  have "counts_calls plain_env (\<lambda>w. w)" by (simp add: counts_calls_def plain_env_def)
  from retry_attempts_bounded [OF this, where pol = "\<lparr>p_max_attempts = 3, p_backoff = default_backoff\<rparr>"]
  show ?thesis by simp
qed

text \<open>C32: The retry ladder enforces the artifact contract on every way to a success, the exhausted
  retries accepted by \<open>allow_partial\<close> included, and it never hands RETRY to the engine.\<close>

theorem retry_success_honours_contract:
  assumes "execute_with_retry env logs n pol st = (Inr out, st')"
  shows "o_status out \<noteq> RETRY \<and> (is_success out \<longrightarrow>
    check_must_write (e_host env) (e_files env (r_world st')) n out (fst (e_wall env (r_world st))) (r_ctx st') = None)"
proof -
  obtain t w where w: "e_wall env (r_world st) = (t, w)" by force
  have l: "ladder env logs n pol t (p_max_attempts pol) 1 None (st\<lparr>r_world := w\<rparr>) = (Inr out, st')"
    using assms w by (simp add: execute_with_retry_def)
  show ?thesis using ladder_not_retry [OF l] ladder_must_write [OF l] w by simp
qed

theorem retry_success_honours_contract_witness:
  "\<exists>out st'. execute_with_retry plain_env ''l'' (plain_node ''n'' ''box'')
     \<lparr>p_max_attempts = 1, p_backoff = default_backoff\<rparr> (s_run start_state) = (Inr out, st') \<and> o_status out \<noteq> RETRY"
proof -
  let ?e = "execute_with_retry plain_env ''l'' (plain_node ''n'' ''box'')
     \<lparr>p_max_attempts = 1, p_backoff = default_backoff\<rparr> (s_run start_state)"
  have "\<not> is_fail (fst ?e)" by code_simp
  then obtain out where "?e = (Inr out, snd ?e)" by (cases "fst ?e") (auto simp: prod_eq_iff)
  with retry_success_honours_contract [OF this] show ?thesis by blast
qed

text \<open>The failure events tell the truth: a ladder that returns an outcome has appended only
  events whose failure report names the node and the returned status, and has reported every FAIL.\<close>

theorem retry_events_true:
  assumes "execute_with_retry env logs n pol st = (Inr out, st')" "e_hooks env"
  shows "\<exists>evs. r_events st' = r_events st @ evs
    \<and> list_all (\<lambda>ev. case ev of
         PIPELINE_STAGE_FAILED i a v \<Rightarrow> i = n_id n \<and> v = status_value (o_status out) | _ \<Rightarrow> True) evs
    \<and> (o_status out = FAIL \<longrightarrow> list_ex is_stage_failed evs)"
proof -
  obtain t w where w: "e_wall env (r_world st) = (t, w)" by force
  have l: "ladder env logs n pol t (p_max_attempts pol) 1 None (st\<lparr>r_world := w\<rparr>) = (Inr out, st')"
    using assms w by (simp add: execute_with_retry_def)
  from ladder_failure_events [OF l assms(2)] show ?thesis by (auto simp: failure_events_true_def)
qed

theorem retry_events_true_witness:
  "\<exists>evs. r_events (snd (execute_with_retry plain_env ''l'' (plain_node ''n'' ''box'')
     \<lparr>p_max_attempts = 1, p_backoff = default_backoff\<rparr> (s_run start_state))) = r_events (s_run start_state) @ evs"
proof -
  let ?e = "execute_with_retry plain_env ''l'' (plain_node ''n'' ''box'')
     \<lparr>p_max_attempts = 1, p_backoff = default_backoff\<rparr> (s_run start_state)"
  have "\<not> is_fail (fst ?e)" by code_simp
  then obtain out where "?e = (Inr out, snd ?e)" by (cases "fst ?e") (auto simp: prod_eq_iff)
  moreover have "e_hooks plain_env" by (simp add: plain_env_def)
  ultimately show ?thesis using retry_events_true by blast
qed

text \<open>The default backoff schedule is defined up to attempt 1024 and no further: from attempt
  1025 on the float power overflows and the exception leaves the retry ladder. Where it is defined,
  a delay with jitter between 1/2 and 3/2 stays within 90 seconds.\<close>

theorem default_backoff_range:
  assumes "1 / 2 \<le> u" "u \<le> 3 / 2"
  shows "case delay_for_attempt default_backoff u a of
      Inl e \<Rightarrow> 1025 \<le> a \<and> exc_type_name e = ''OverflowError''
    | Inr d \<Rightarrow> a \<le> 1024 \<and> 0 \<le> d \<and> d \<le> 90000"
proof (cases "a \<le> 1024")
  case True
  then obtain d where d: "delay_for_attempt default_backoff u a = Inr d" using default_delay_defined by blast
  have "0 \<le> d \<and> d \<le> 3 / 2 * b_max_delay_ms default_backoff"
    by (rule delay_bounds [OF _ assms d]) (simp add: backoff_ok_def default_backoff_def)
  then show ?thesis using d True by (simp add: default_backoff_def)
next
  case False
  then obtain e where e: "delay_for_attempt default_backoff u a = Inl e" using default_delay_overflow by fastforce
  then have "exc_type_name e = ''OverflowError''"
    by (auto simp: delay_for_attempt_def Let_def split: if_splits)
  then show ?thesis using e False by simp
qed

theorem default_backoff_range_witness:
  "case delay_for_attempt default_backoff 1 2000 of Inl e \<Rightarrow> True | Inr d \<Rightarrow> (2000::nat) \<le> 1024"
  using default_backoff_range [of 1 2000] by (auto split: sum.splits)

section \<open>File contracts\<close>

text \<open>The freshness floor tolerates at most one second: a file accepted as written during a node's
  execution carries an mtime after the recorded start, or one that exceeds the start less a second,
  and never the recorded start itself. \<open>f64\<close> is the rounding of a quotient to a double.\<close>

theorem freshness_tolerance:
  assumes "mono f64" "f64 0 = 0" "f64 1 = 1" "wrote_after_node_start f64 m start"
  shows "(f64 (start - 1) < f64 (of_int m / 1000000000) \<or> start < f64 (of_int m / 1000000000))
    \<and> f64 (of_int m / 1000000000) \<noteq> start"
  using fresh_bound [OF assms] fresh_not_equal [OF assms(4)] by simp

theorem freshness_tolerance_witness:
  "((9 / 2 - 1 :: rat) < 4000000000 / 1000000000 \<or> (9 / 2 :: rat) < 4000000000 / 1000000000)
   \<and> 4000000000 / 1000000000 \<noteq> (9 / 2 :: rat)"
proof -
  have "wrote_after_node_start (\<lambda>q. q) 4000000000 (9 / 2)" by code_simp
  from freshness_tolerance [OF _ _ _ this] show ?thesis by (simp add: mono_def)
qed

text \<open>The engine's own record never overrides a verdict: when the \<open>status.json\<close> of a node holds
  what the engine writes for an outcome, in any iteration, reading it back against that outcome
  changes nothing. The outcome's suggestions and context updates have to be values whose
  dictionaries have distinct keys.\<close>

theorem own_status_no_override:
  assumes "case o_suggested_next_ids out of None \<Rightarrow> True | Some ids \<Rightarrow> py_wf (PList ids)"
    "case o_context_updates out of None \<Rightarrow> True | Some d \<Rightarrow> py_wf (PDict d)"
    "file_holds h fs (status_path logs n) (node_status_json iteration (n_id n) out)"
  shows "read_status_override h fs n logs start out = Inr None"
proof -
  obtain cand where cand: "status_candidate out (node_status_json iteration (n_id n) out) = Inr cand"
    "o_status cand = o_status out" "o_preferred_label cand = o_preferred_label out"
    "o_suggested_next_ids cand = o_suggested_next_ids out" "o_context_updates cand = o_context_updates out"
    "o_notes cand = o_notes out"
    by (cases "o_suggested_next_ids out"; cases "o_context_updates out"; cases "o_preferred_label out";
        cases "o_notes out")
      (simp_all add: status_candidate_def node_status_json_def raw_get_def dict_has_def opt_list_val_def
        opt_dict_val_def opt_str_val_def opt_list_of_def opt_dict_of_def opt_str_of_def Let_def)
  have "status_matches cand out"
    using assms(1,2) cand
    by (cases "o_suggested_next_ids out"; cases "o_context_updates out")
      (simp_all add: status_matches_def py_eq_refl del: py_eq.simps py_wf.simps)
  then show ?thesis using assms(3) cand(1)
    by (auto simp: read_status_override_def file_holds_def Let_def)
qed

theorem own_status_no_override_witness:
  "read_status_override (plain_host (node_status_json 0 ''n'' (mk_outcome FAIL))) written_file
     (plain_node ''n'' ''box'') ''l'' 0 (mk_outcome FAIL) = Inr None"
proof -
  have "file_holds (plain_host (node_status_json 0 (n_id (plain_node ''n'' ''box'')) (mk_outcome FAIL))) written_file
      (status_path ''l'' (plain_node ''n'' ''box'')) (node_status_json 0 (n_id (plain_node ''n'' ''box'')) (mk_outcome FAIL))"
    by (simp add: file_holds_def written_file_def plain_host_def)
  from own_status_no_override [OF _ _ this] show ?thesis by (simp add: mk_outcome_def plain_node_def)
qed

section \<open>Checkpoints\<close>

text \<open>The resume ladder accepts only what may be resumed: the accepted checkpoint is what the file
  holds, has the current schema, is in flight, carries the graph's fingerprint and source, and its
  fingerprint is that of the source given to the resume.\<close>

theorem resume_ladder_sound:
  "case load_checkpoint_for_resume h sha fs path src of
     Inl e \<Rightarrow> True
   | Inr cp \<Rightarrow> read_checkpoint_file h fs path = Inr cp
       \<and> cp_schema_version cp = schema_version \<and> cp_run_state cp = PStr run_state_in_flight
       \<and> graph_fingerprint cp \<noteq> [] \<and> graph_dot_source cp \<noteq> []
       \<and> (case src of None \<Rightarrow> True | Some s \<Rightarrow> fingerprint_dot_source sha s = graph_fingerprint cp)"
  using resume_ladder_ok [of h sha fs path src] by (auto split: sum.split option.split)

text \<open>C40: A checkpoint survives its file: loading the JSON that saving writes gives back the same
  checkpoint, for every checkpoint whose outcomes and engine state are dictionaries and whose graph
  block is well-formed.\<close>

theorem checkpoint_roundtrip:
  assumes "checkpoint_writable cp"
  shows "load_checkpoint (checkpoint_json cp) = Some cp"
  using load_save_checkpoint [OF assms] .

theorem checkpoint_roundtrip_witness:
  "load_checkpoint (checkpoint_json (checkpoint_of plain_eenv chain_graph ''t'' no_counters [] start_state))
   = Some (checkpoint_of plain_eenv chain_graph ''t'' no_counters [] start_state)"
  by (rule checkpoint_roundtrip)
    (simp add: checkpoint_writable_def checkpoint_of_def validated_graph_block_def graph_identity_def
      chain_graph_def plain_graph_def raw_get_def dict_has_def Let_def)

text \<open>A node's outcome survives its record: status, labels, suggestions, notes, reason and
  explicitness come back, and the attempt count comes back as at least 1, since the file keeps the
  retries consumed.\<close>

theorem outcome_record_survives:
  "case outcome_record out of
     PDict d \<Rightarrow> outcome_of_record d (retries_consumed out) = Some ((mk_outcome (o_status out))
       \<lparr>o_preferred_label := o_preferred_label out, o_suggested_next_ids := o_suggested_next_ids out,
        o_notes := o_notes out, o_failure_reason := o_failure_reason out,
        o_is_explicit := o_is_explicit out,
        o_attempt_count := Some (max 1 (case o_attempt_count out of None \<Rightarrow> 1 | Some a \<Rightarrow> if a = 0 then 1 else a))\<rparr>)
   | _ \<Rightarrow> False"
proof -
  obtain d where d: "outcome_record out = PDict d" "outcome_of_record d (retries_consumed out) =
     Some ((mk_outcome (o_status out))
       \<lparr>o_preferred_label := o_preferred_label out, o_suggested_next_ids := o_suggested_next_ids out,
        o_notes := o_notes out, o_failure_reason := o_failure_reason out,
        o_is_explicit := o_is_explicit out, o_attempt_count := Some (retries_consumed out + 1)\<rparr>)"
    using outcome_record_roundtrip by blast
  have "retries_consumed out + 1 = max 1 (case o_attempt_count out of None \<Rightarrow> 1 | Some a \<Rightarrow> if a = 0 then 1 else a)"
    by (simp add: retries_consumed_def Let_def)
  with d show ?thesis by simp
qed

section \<open>Graph attributes and fidelity\<close>

text \<open>Promotion loses nothing: after a node's construction every attribute reads as the typed field
  given to the constructor if there was one, and otherwise as the raw attribute, whatever key is
  asked for.\<close>

theorem node_promotion_reads:
  "node_attr_get (node_post_init n) k =
     (if k \<in> set node_promoted_attrs \<and> node_field n k \<noteq> PNone then node_field n k else raw_get (n_raw n) k PNone)"
proof -
  let ?m = "if n_label n = [] then n\<lparr>n_label := n_id n\<rparr> else n"
  have "node_field ?m k = node_field n k" "n_raw ?m = n_raw n" by (simp_all add: node_field_def)
  then show ?thesis unfolding node_post_init_def na.get_after_promotion by simp
qed

text \<open>The fidelity a node runs with is a valid mode, and the first hop after a resume never runs
  at full fidelity: an armed engine disarms itself, and if the node resolves to \<open>full\<close> it caps the
  context at \<open>summary:high\<close>; an engine that is not armed is left alone.\<close>

theorem resume_degrades_one_hop:
  "resolve_fidelity n e g \<in> set valid_fidelity_modes
   \<and> \<not> s_armed (apply_resume_fidelity_degrade X g n S)
   \<and> (if s_armed S \<and> resolve_fidelity n None g = ''full''
      then ctx_get (s_ctx (apply_resume_fidelity_degrade X g n S)) resume_fidelity_cap_key = PStr ''summary:high''
      else s_run (apply_resume_fidelity_degrade X g n S) = s_run S)"
  using resolve_fidelity_valid [of n e g]
  by (simp add: apply_resume_fidelity_degrade_def Let_def emit_def cx.look_put ctx_get_append_log)

section \<open>Templates\<close>

text \<open>A braced reference to a key with a value is replaced by the value's text, and the text around
  it is kept, when neither holds another reference.\<close>

theorem braced_reference_substituted:
  assumes "dollar \<notin> set pre" "dollar \<notin> set post" "k \<noteq> []" "CHR ''}'' \<notin> set k"
    and "dict_get snapshot k = Some v" "v \<noteq> PNone" "dollar \<notin> set (py_str v)"
  shows "substitute_context (pre @ dollar # ''{'' @ k @ ''}'' @ post) snapshot = pre @ py_str v @ post"
  using substitute_braced [OF assms] .

theorem braced_reference_substituted_witness:
  "substitute_context (''run '' @ dollar # ''{'' @ ''a.b'' @ ''}'' @ '' now'') [(''a.b'', PInt 12)] = ''run 12 now''"
proof -
  have "py_str (PInt 12) = ''12''" by code_simp
  then show ?thesis
    using braced_reference_substituted [of "''run ''" "'' now''" "''a.b''" "[(''a.b'', PInt 12)]" "PInt 12"]
    by (simp add: dollar_def)
qed

text \<open>The reference scan and the substitution disagree on a full stop: in \<open>$k.\<close> the substitution
  replaces \<open>$k\<close>, while the scan, whose token pattern takes the full stop in, reports the reference
  \<open>k.\<close> and not \<open>k\<close>. So a command that ends a sentence with a failed node's output is not skipped.\<close>

theorem full_stop_hides_reference:
  assumes "k \<noteq> []" "ref_start (hd k)" "list_all is_word k" "v \<noteq> PNone" "dollar \<notin> set (py_str v)"
  shows "substitute_context (dollar # k @ ''.'') [(k, v)] = py_str v @ ''.''
    \<and> extract_refs (dollar # k @ ''.'') = [k @ ''.'']"
proof -
  have dk: "dollar \<notin> set (k @ ''.'')"
    using assms(3) by (auto simp: list_all_iff is_word_def is_alpha_def is_digit_def dollar_def)
  have nob: "braced_at (dollar # k @ ''.'') = None"
    using assms(1,2) by (cases k) (auto simp: braced_at_def ref_start_def is_alpha_def)
  then have b: "sub_braced f (dollar # k @ ''.'') = dollar # k @ ''.''" for f
    using sub_braced_plain [OF dk, of f] by (simp add: sub_braced_None)
  have keys: "braced_keys (dollar # k @ ''.'') = []"
    using nob braced_keys_plain [OF dk] by (simp add: braced_keys.simps [of "dollar # k @ ''.''"])
  have refs: "bare_refs (dollar # k @ ''.'') = [k @ ''.'']"
    using bare_refs_token [of "k @ ''.''" "[]"] assms(1-3) by (auto simp: list_all_iff ref_char_def)
  have "occurs_in (dollar # k) (dollar # k @ ''.'')" by (metis append_Cons append_Nil occurs_in_iff)
  moreover have "token_at k (boundary_chars [k] k) (dollar # k @ ''.'')"
    by (simp add: token_at_def boundary_chars_def dotted_sibling_def is_word_def is_alpha_def is_digit_def)
  then have "sub_token k (boundary_chars [k] k) w (dollar # k @ ''.'') = w @ ''.''" for w
    using assms(1) by (simp add: token_at_def startswith_iff)
  ultimately have "replace_bare [(k, v)] k (dollar # k @ ''.'') = py_str v @ ''.''"
    using assms(4) by (simp add: replace_bare_def del: sub_token.simps)
  then have "substitute_context (dollar # k @ ''.'') [(k, v)] = py_str v @ ''.''"
    using assms(5) b by (simp add: substitute_context_def longest_first_def replace_str_absent dollar_def)
  then show ?thesis using keys refs b by (simp add: extract_refs_def)
qed

theorem full_stop_hides_reference_witness:
  "substitute_context (dollar # ''out'' @ ''.'') [(''out'', PStr ''x'')] = ''x.'' \<and> extract_refs (dollar # ''out'' @ ''.'') = [''out.'']"
proof -
  have "ref_start (hd ''out'')" "list_all is_word ''out''" "dollar \<notin> set (py_str (PStr ''x''))" by code_simp+
  from full_stop_hides_reference [OF _ this(1,2) _ this(3)] show ?thesis by simp
qed

section \<open>Parallel branches and fan-in\<close>

text \<open>A join can only fail under \<open>first_success\<close>, and then exactly when no branch succeeded: every
  other policy turns a set of branches that all failed into \<open>PARTIAL_SUCCESS\<close>.\<close>

theorem join_failure_iff:
  "o_status (apply_join_policy rs p) = FAIL \<longleftrightarrow>
   p = ''first_success'' \<and> rs \<noteq> [] \<and> list_all (\<lambda>r. \<not> branch_succeeded r) rs"
  using join_fails_iff [of rs p] by (simp add: list_all_iff)

text \<open>The fan-in reads back exactly what the parallel node stored: without a model-backed choice it
  fails exactly when every branch failed, so a best candidate that was skipped or wants a retry
  counts as a success; and the branch it names has the best rank and, among those, the least id.\<close>

theorem fan_in_picks_best:
  "(o_status (fst (fan_in_handler None n (store_results rs c))) = FAIL \<longleftrightarrow> list_all (\<lambda>r. br_status r = FAIL) rs)
   \<and> (case heuristic_select rs of
        None \<Rightarrow> rs = []
      | Some best \<Rightarrow> best \<in> set rs \<and> list_all (\<lambda>r. candidate_key best \<le> candidate_key r) rs
          \<and> ctx_get (snd (fan_in_handler None n (store_results rs c))) ''parallel.fan_in.best_id''
            = PStr (br_node_id best))"
proof -
  have h: "fan_in_handler None n (store_results rs c) = fan_in_execute None n rs (store_results rs c)"
    by (simp add: fan_in_handler_def store_results_def cx.look_put results_of_stored)
  show ?thesis
  proof (cases "heuristic_select rs")
    case None
    then show ?thesis using heuristic_select_None [of rs] h by (simp add: fan_in_choice_def fan_in_execute_def)
  next
    case (Some best)
    note b = heuristic_select_best [OF Some]
    have "br_status r = FAIL" if "br_status best = FAIL" "r \<in> set rs" for r
    proof -
      have "status_rank FAIL \<le> status_rank (br_status r)" using b that by (force simp: candidate_key_def less_eq_prod_def)
      then show ?thesis by (cases "br_status r") (simp_all add: status_rank_def)
    qed
    then have "br_status best = FAIL \<longleftrightarrow> (\<forall>r \<in> set rs. br_status r = FAIL)" using b by blast
    then show ?thesis using Some b h
      by (auto simp: fan_in_choice_def fan_in_execute_def fan_in_keys_def Let_def list_all_iff cx.look_put)
  qed
qed

text \<open>A branch on its own: its result is that of the walk from its node on a new engine, with no record of any node, in a
  context with the parent's values but no routing label. Of the rest of the run it gets a world and an event stream.\<close>

definition branch_alone :: "'w eenv \<Rightarrow> graph \<Rightarrow> ctx \<Rightarrow> branch_result \<Rightarrow> bool" where
  "branch_alone X g c r \<longleftrightarrow>
     (\<exists>d w evs res d' B. (\<forall>k. ctx_get d k = (if k = ''preferred_label'' then PNone else ctx_get c k))
        \<and> run_subgraph (X\<lparr>x_branch_clone := True\<rparr>) g (br_node_id r) d False (engine_init d w evs) = (res, d', B)
        \<and> (case res of
             Inl e \<Rightarrow> br_status r = FAIL \<and> br_failure_reason r = Some (exc_str e) \<and> br_context_updates r = None
           | Inr out \<Rightarrow> br_status r = o_status out \<and> br_notes r = o_notes out
               \<and> br_failure_reason r = o_failure_reason out \<and> br_context_updates r = o_context_updates out))"

lemma branch_context_get: "ctx_get (branch_context c) k = (if k = ''preferred_label'' then PNone else ctx_get c k)"
  by (simp add: branch_context_def cx.look_put)

lemma run_branch_alone: "run_branch X g n t c S = (r, S') \<Longrightarrow> branch_alone X g c r"
proof -
  assume r: "run_branch X g n t c S = (r, S')"
  define S2 where "S2 = tick (x_elapsed_ms X) (emit X (PIPELINE_NODE_START t (branch_handler_type g t) (Some 1))
    (emit X (PIPELINE_PARALLEL_BRANCH_STARTED (n_id n) t) S))"
  let ?d = "branch_context c"
  obtain res d' B where w: "run_subgraph (branch_env X) g t ?d False (clone_for_branch ?d S2) = (res, d', B)"
    by (rule prod_cases3)
  let ?out = "case res of Inr out \<Rightarrow> out | Inl e \<Rightarrow> (mk_outcome FAIL)\<lparr>o_failure_reason := Some (exc_str e)\<rparr>"
  have "r = \<lparr>br_node_id = t, br_status = o_status ?out, br_notes = o_notes ?out,
      br_failure_reason = o_failure_reason ?out, br_context_updates = o_context_updates ?out\<rparr>"
    using r unfolding run_branch_def S2_def [symmetric] Let_def by (auto simp: branch_outcome_def w)
  then show ?thesis
    using w branch_context_get [of c] unfolding branch_alone_def clone_for_branch_def branch_env_def
    by (intro exI [of _ ?d] exI [of _ "s_world S2"] exI [of _ "s_events S2"] exI [of _ res] exI [of _ d'] exI [of _ B])
      (auto simp: mk_outcome_def split: sum.splits)
qed

lemma run_branches_alone: "run_branches X g n stop ts c S = (rs, S') \<Longrightarrow> list_all (branch_alone X g c) rs"
proof (induction ts arbitrary: S rs S')
  case (Cons t ts)
  obtain r S1 where r: "run_branch X g n t c S = (r, S1)" by force
  obtain rs2 S2 where rs: "run_branches X g n stop ts c S1 = (rs2, S2)" by force
  show ?case using Cons.prems r rs Cons.IH [OF rs] run_branch_alone [OF r] by (auto split: if_splits)
qed simp

text \<open>C38: The branches of a fan-out neither see nor disturb the run. Every stored result is that of a walk on a new
  engine, which holds no record of the run or of another branch, from the parent's context values without their routing
  label; so of the parent and of its siblings a branch sees the world only. Executing the parallel node leaves the
  engine's context, outcomes, completed nodes, counts, failed outputs, iteration and trace alone, and in the handler's
  context it writes \<open>parallel.results\<close> and \<open>parallel.count\<close> and no other key.\<close>

theorem parallel_isolates_branches:
  "case parallel_execute X g n c S of
     None \<Rightarrow> True
   | Some (res, c', S') \<Rightarrow>
       s_ctx S' = s_ctx S \<and> s_outcomes S' = s_outcomes S \<and> s_completed S' = s_completed S
       \<and> s_counts S' = s_counts S \<and> s_failed S' = s_failed S \<and> s_iteration S' = s_iteration S \<and> s_trace S' = s_trace S
       \<and> (ctx_get c' key = ctx_get c key \<or> key = ''parallel.results'' \<or> key = ''parallel.count'')
       \<and> (c' = c \<or> (\<exists>rs. ctx_get c' ''parallel.results'' = PList (map branch_result_val rs) \<and> list_all (branch_alone X g c) rs))"
proof -
  obtain rs S2 where rs: "run_branches X g n (stop_policy n) (map to_node (outgoing_edges g (n_id n))) c
      (emit X (PIPELINE_PARALLEL_STARTED (n_id n) (length (outgoing_edges g (n_id n)))) S) = (rs, S2)" by force
  have "isolated S S2" using run_branches_isolated [OF rs] isolated_trans emit_isolated by blast
  then have i: "isolated S (emit X ev S2)" for ev using isolated_trans emit_isolated by blast
  let ?rs = "stored_results (error_policy n) rs"
  have "list_all (branch_alone X g c) ?rs"
    using run_branches_alone [OF rs] by (auto simp: stored_results_def list_all_iff)
  moreover have "ctx_get (store_results ?rs c) ''parallel.results'' = PList (map branch_result_val ?rs)"
    by (simp add: store_results_def cx.look_put)
  ultimately have "\<exists>rs'. ctx_get (store_results ?rs c) ''parallel.results'' = PList (map branch_result_val rs')
      \<and> list_all (branch_alone X g c) rs'" by blast
  moreover have "ctx_get (store_results ?rs c) key = ctx_get c key \<or> key = ''parallel.results'' \<or> key = ''parallel.count''"
    by (simp add: store_results_def cx.look_put)
  ultimately show ?thesis using rs i
    by (auto simp: parallel_execute_def finish_parallel_def Let_def isolated_def same_core_def split: option.split)
qed

text \<open>Nothing is lost when all branches are awaited: with the default policies and room for at least
  one branch, the parallel node returns, and it stores one result per outgoing edge, in the order of
  the edges.\<close>

theorem parallel_awaits_all:
  assumes "error_policy n = ''continue''" "join_policy n = ''wait_all''" "outgoing_edges g (n_id n) \<noteq> []"
    "py_int (node_attr_get_d n ''max_parallel'' (PInt 4)) = Some k" "0 < k"
  shows "\<exists>rs out c' S'. parallel_execute X g n c S = Some (Inr out, c', S')
    \<and> map br_node_id rs = map to_node (outgoing_edges g (n_id n))
    \<and> out = apply_join_policy rs ''wait_all''
    \<and> ctx_get c' ''parallel.results'' = PList (map branch_result_val rs)
    \<and> ctx_get c' ''parallel.count'' = PInt (int (length (outgoing_edges g (n_id n))))"
proof -
  obtain rs S2 where rs: "run_branches X g n (stop_policy n) (map to_node (outgoing_edges g (n_id n))) c
      (emit X (PIPELINE_PARALLEL_STARTED (n_id n) (length (outgoing_edges g (n_id n)))) S) = (rs, S2)" by force
  have "stop_policy n = (\<lambda>_. False)" using assms(1,2) by (simp add: stop_policy_def fun_eq_iff)
  then have ids: "map br_node_id rs = map to_node (outgoing_edges g (n_id n))"
    using run_branches_ids rs by metis
  then have "length rs = length (outgoing_edges g (n_id n))" by (metis length_map)
  with ids rs assms show ?thesis
    by (auto simp: parallel_execute_def finish_parallel_def store_results_def stored_results_def Let_def cx.look_put)
qed

theorem parallel_awaits_all_witness:
  "\<exists>rs out c' S'. parallel_execute plain_eenv fan_graph (plain_node ''c'' ''component'') ctx_new start_state
      = Some (Inr out, c', S') \<and> map br_node_id rs = [''a'', ''b''] \<and> out = apply_join_policy rs ''wait_all''"
proof -
  let ?n = "plain_node ''c'' ''component''"
  have "error_policy ?n = ''continue''" "join_policy ?n = ''wait_all''" "outgoing_edges fan_graph (n_id ?n) \<noteq> []"
    "py_int (node_attr_get_d ?n ''max_parallel'' (PInt 4)) = Some 4" "(0::int) < 4"
    "map to_node (outgoing_edges fan_graph (n_id ?n)) = [''a'', ''b'']" by code_simp+
  then show ?thesis using parallel_awaits_all [of ?n fan_graph 4 plain_eenv ctx_new start_state] by auto
qed

text \<open>An early stop keeps its reason: if some completed branch succeeded, the results that
  \<open>first_success\<close> collects contain a success, so the join reports \<open>SUCCESS\<close>, however the branches
  are batched and whatever else the cancelled ones deliver.\<close>

theorem first_success_is_seen:
  assumes "batch \<in> set batches" "Some r \<in> set batch" "branch_succeeded r"
  shows "o_status (apply_join_policy (run_first_success batches late) ''first_success'') = SUCCESS"
proof -
  have ex: "\<exists>r \<in> set (run_first_success batches late). branch_succeeded r"
    unfolding run_first_success_def by (rule collect_stop [where stop = branch_succeeded, OF assms])
  then have "filter branch_succeeded (run_first_success batches late) \<noteq> []" by (auto simp: filter_empty_conv)
  then show ?thesis using ex by (auto simp: apply_join_policy_def explicit_note_def Let_def)
qed

theorem first_success_is_seen_witness:
  "o_status (apply_join_policy (run_first_success
      [[Some \<lparr>br_node_id = ''a'', br_status = FAIL, br_notes = None, br_failure_reason = None, br_context_updates = None\<rparr>],
       [None, Some \<lparr>br_node_id = ''b'', br_status = SUCCESS, br_notes = None, br_failure_reason = None, br_context_updates = None\<rparr>]]
      []) ''first_success'') = SUCCESS"
  by (rule first_success_is_seen [where r = "\<lparr>br_node_id = ''b'', br_status = SUCCESS, br_notes = None, br_failure_reason = None, br_context_updates = None\<rparr>"
        and batch = "[None, Some \<lparr>br_node_id = ''b'', br_status = SUCCESS, br_notes = None, br_failure_reason = None, br_context_updates = None\<rparr>]"])
    (auto simp: branch_succeeded_def)

end
