(* ===== verification/Validation.thy ===== *)
theory Validation
  imports Engine Stylesheet
begin

text \<open>
  The structural rules of \<open>validation.py\<close>: what \<open>validate\<close> reports on a graph and when
  \<open>validate_or_raise\<close> refuses it. Every rule appends to one list of diagnostics, so a rule is the list
  it appends. Attribute values are scalars, as the parser makes them. Two handlers of exceptions are
  dead code, since parsing a stylesheet and evaluating a condition are total, and have no branch here.
\<close>

section \<open>Diagnostics\<close>

datatype severity = ERROR | WARNING | INFO

record diagnostic =
  d_rule :: string
  d_severity :: severity
  d_message :: string
  d_node_id :: string
  d_edge :: "(string \<times> string) option"
  d_fix :: string

definition graph_diag :: "string \<Rightarrow> severity \<Rightarrow> string \<Rightarrow> string \<Rightarrow> diagnostic" where
  "graph_diag rule severity message fix =
     \<lparr>d_rule = rule, d_severity = severity, d_message = message, d_node_id = [], d_edge = None, d_fix = fix\<rparr>"

definition node_diag :: "string \<Rightarrow> severity \<Rightarrow> node \<Rightarrow> string \<Rightarrow> string \<Rightarrow> diagnostic" where
  "node_diag rule severity n message fix = (graph_diag rule severity message fix)\<lparr>d_node_id := n_id n\<rparr>"

definition edge_diag :: "string \<Rightarrow> severity \<Rightarrow> edge \<Rightarrow> string \<Rightarrow> string \<Rightarrow> diagnostic" where
  "edge_diag rule severity e message fix =
     (graph_diag rule severity message fix)\<lparr>d_edge := Some (from_node e, to_node e)\<rparr>"

definition graph_nodes :: "graph \<Rightarrow> node list" where
  "graph_nodes g = map snd (g_nodes g)"

definition start_nodes :: "graph \<Rightarrow> node list" where
  "start_nodes g = filter is_start_node (graph_nodes g)"

definition exit_nodes :: "graph \<Rightarrow> node list" where
  "exit_nodes g = filter is_exit_node (graph_nodes g)"

section \<open>Start, exit and edges\<close>

definition check_start_node :: "graph \<Rightarrow> diagnostic list" where
  "check_start_node g =
     (let ns = start_nodes g in
      if length ns = 0 then
        [graph_diag ''start_node'' ERROR
           ''Pipeline must have exactly one start node (shape=Mdiamond, type=\"start\", or id=\"start\")''
           ''Add a start node (shape=Mdiamond, type=\"start\" attr, or id=\"start\")'']
      else if length ns > 1 then
        [graph_diag ''start_node'' ERROR
           (''Pipeline has '' @ nat_str (length ns) @ '' start nodes ('' @ py_join '', '' (map n_id ns)
            @ ''); exactly one is required'')
           ''Remove extra start nodes so only one is detected as a start node'']
      else [])"

definition check_terminal_node :: "graph \<Rightarrow> diagnostic list" where
  "check_terminal_node g =
     (let ns = exit_nodes g in
      if length ns = 0 then
        [graph_diag ''terminal_node'' ERROR
           ''Pipeline must have exactly one exit node (shape=Msquare, type=\"exit\", or id=\"exit\"/\"end\")''
           ''Add an exit node (shape=Msquare, type=\"exit\" attr, or id=\"exit\")'']
      else if length ns > 1 then
        [graph_diag ''terminal_node'' ERROR
           (''Pipeline has '' @ nat_str (length ns) @ '' exit nodes ('' @ py_join '', '' (map n_id ns)
            @ ''); exactly one is required'')
           ''Remove extra exit nodes so only one is detected as an exit node'']
      else [])"

definition check_edge_targets :: "graph \<Rightarrow> diagnostic list" where
  "check_edge_targets g =
     concat (map (\<lambda>e.
       (if dict_has (g_nodes g) (from_node e) then []
        else [edge_diag ''edge_target_exists'' ERROR e
                (''Edge source '' @ quoted (from_node e) @ '' does not reference an existing node'')
                (''Add a node declaration for '' @ quoted (from_node e))])
       @ (if dict_has (g_nodes g) (to_node e) then []
          else [edge_diag ''edge_target_exists'' ERROR e
                  (''Edge target '' @ quoted (to_node e) @ '' does not reference an existing node'')
                  (''Add a node declaration for '' @ quoted (to_node e))])) (g_edges g))"

definition check_start_no_incoming :: "graph \<Rightarrow> diagnostic list" where
  "check_start_no_incoming g =
     concat (map (\<lambda>n.
       let incoming = incoming_edges g (n_id n) in
       if incoming = [] then []
       else [node_diag ''start_no_incoming'' ERROR n
               (''Start node '' @ quoted (n_id n) @ '' has incoming edges from: ''
                @ py_join '', '' (map from_node incoming))
               ''Remove edges targeting the start node'']) (start_nodes g))"

definition check_exit_no_outgoing :: "graph \<Rightarrow> diagnostic list" where
  "check_exit_no_outgoing g =
     concat (map (\<lambda>n.
       let outgoing = outgoing_edges g (n_id n) in
       if outgoing = [] then []
       else [node_diag ''exit_no_outgoing'' ERROR n
               (''Exit node '' @ quoted (n_id n) @ '' has outgoing edges to: ''
                @ py_join '', '' (map to_node outgoing))
               ''Remove edges originating from the exit node'']) (exit_nodes g))"

section \<open>Reachability\<close>

text \<open>The worklist of the rule: the queue and the visited ids. A popped id is dropped or visited for the
  first time, and only ids of the queue and targets of edges are ever visited.\<close>

definition reach_ids :: "graph \<Rightarrow> string list \<Rightarrow> string list \<Rightarrow> string set" where
  "reach_ids g queue visited = (set queue \<union> to_node ` set (g_edges g)) - set visited"

definition reach_next :: "graph \<Rightarrow> string \<Rightarrow> string list" where
  "reach_next g i = map to_node (filter (\<lambda>e. dict_has (g_nodes g) (to_node e)) (outgoing_edges g i))"

lemma reach_next_ids: "set (reach_next g i) \<subseteq> to_node ` set (g_edges g)"
  by (auto simp: reach_next_def outgoing_edges_def)

function reach :: "graph \<Rightarrow> string list \<Rightarrow> string list \<Rightarrow> string list" where
  "reach g [] visited = visited"
| "reach g (i # queue) visited =
     (if i \<in> set visited then reach g queue visited
      else reach g (queue @ reach_next g i) (i # visited))"
  by pat_completeness auto

termination
proof (relation "measures [\<lambda>(g, queue, visited). card (reach_ids g queue visited), \<lambda>(g, queue, visited). length queue]")
  fix g :: graph and i :: string and queue visited :: "string list"
  assume "i \<in> set visited"
  then have "reach_ids g queue visited = reach_ids g (i # queue) visited" by (auto simp: reach_ids_def)
  then show "((g, queue, visited), g, i # queue, visited)
      \<in> measures [\<lambda>(g, queue, visited). card (reach_ids g queue visited), \<lambda>(g, queue, visited). length queue]"
    by simp
next
  fix g :: graph and i :: string and queue visited :: "string list"
  assume new: "i \<notin> set visited"
  have "reach_ids g (queue @ reach_next g i) (i # visited) \<subseteq> reach_ids g (i # queue) visited - {i}"
    using reach_next_ids [of g i] by (auto simp: reach_ids_def)
  moreover have "i \<in> reach_ids g (i # queue) visited" using new by (simp add: reach_ids_def)
  moreover have "finite (reach_ids g (i # queue) visited)" by (simp add: reach_ids_def)
  ultimately have "card (reach_ids g (queue @ reach_next g i) (i # visited)) < card (reach_ids g (i # queue) visited)"
    by (intro psubset_card_mono) auto
  then show "((g, queue @ reach_next g i, i # visited), g, i # queue, visited)
      \<in> measures [\<lambda>(g, queue, visited). card (reach_ids g queue visited), \<lambda>(g, queue, visited). length queue]"
    by simp
qed simp

definition retry_attrs :: "string list" where
  "retry_attrs = [''retry_target'', ''fallback_retry_target'']"

definition named_target :: "graph \<Rightarrow> pyval \<Rightarrow> string list" where
  "named_target g v = (case v of PStr s \<Rightarrow> if names_node g v then [s] else [] | _ \<Rightarrow> [])"

text \<open>The ids the retry attributes of the nodes and of the graph name.\<close>

definition retry_names :: "graph \<Rightarrow> string list" where
  "retry_names g =
     concat (map (\<lambda>n. concat (map (\<lambda>a. named_target g (node_attr_get n a)) retry_attrs)) (graph_nodes g))
     @ concat (map (\<lambda>a. named_target g (graph_attr_get g a)) retry_attrs)"

definition unreachable :: "graph \<Rightarrow> string list" where
  "unreachable g =
     (case start_nodes g of
        [] \<Rightarrow> []
      | start # rest \<Rightarrow>
          (let visited = reach g [n_id start] [] @ retry_names g
           in sort (filter (\<lambda>i. i \<notin> set visited) (dict_keys (g_nodes g)))))"

definition check_reachability :: "graph \<Rightarrow> diagnostic list" where
  "check_reachability g =
     map (\<lambda>i. (graph_diag ''reachability'' ERROR
                 (''Node '' @ quoted i @ '' is not reachable from the start node'')
                 (''Add an edge path from start to '' @ quoted i))\<lparr>d_node_id := i\<rparr>) (unreachable g)"

section \<open>Goal gates and prompts\<close>

definition has_retry :: "graph \<Rightarrow> node \<Rightarrow> bool" where
  "has_retry g n =
     (py_true (node_attr_get n ''retry_target'') \<or> py_true (node_attr_get n ''fallback_retry_target'')
      \<or> py_true (graph_attr_get g ''retry_target'')
      \<or> list_ex (\<lambda>e. resolve_bool_attr (e_loop_restart e)) (outgoing_edges g (n_id n)))"

definition check_goal_gate_has_retry :: "graph \<Rightarrow> diagnostic list" where
  "check_goal_gate_has_retry g =
     map (\<lambda>n. node_diag ''goal_gate_has_retry'' WARNING n
                (''Node '' @ quoted (n_id n) @ '' has goal_gate=true but no retry_target'')
                ''Add retry_target or fallback_retry_target attribute, or add an outgoing edge with loop_restart=true'')
       (filter (\<lambda>n. resolve_bool_attr (node_attr_get n ''goal_gate'') \<and> \<not> has_retry g n) (graph_nodes g))"

definition bare_llm_node :: "node \<Rightarrow> bool" where
  "bare_llm_node n =
     (\<not> is_start_node n \<and> \<not> is_exit_node n \<and> resolve_handler_type (n_type n) (n_shape n) = ''codergen''
      \<and> n_prompt n = [] \<and> n_label n = n_id n)"

definition check_prompt_on_llm_nodes :: "graph \<Rightarrow> diagnostic list" where
  "check_prompt_on_llm_nodes g =
     map (\<lambda>n. node_diag ''prompt_on_llm_nodes'' WARNING n
                (''LLM node '' @ quoted (n_id n) @ '' has no prompt and no explicit label'')
                ''Add a prompt attribute or a descriptive label'')
       (filter bare_llm_node (graph_nodes g))"

section \<open>Handler types\<close>

definition known_handler_types :: "string list" where
  "known_handler_types = map snd shape_to_handler"

definition effective_handler_type :: "node \<Rightarrow> string option" where
  "effective_handler_type n =
     (if n_type n \<in> set known_handler_types then Some (n_type n)
      else (case node_attr_get n ''node_type'' of
              PStr s \<Rightarrow>
                (if s \<in> set known_handler_types then Some s
                 else if n_type n \<noteq> [] \<or> s \<noteq> [] then None else map_of shape_to_handler (n_shape n))
            | v \<Rightarrow> if n_type n \<noteq> [] \<or> py_true v then None else map_of shape_to_handler (n_shape n)))"

definition has_tool_command :: "node \<Rightarrow> bool" where
  "has_tool_command n =
     (node_attr_get n ''tool_command'' \<noteq> PNone \<and> py_strip (py_str (node_attr_get n ''tool_command'')) \<noteq> [])"

definition check_tool_command_handler :: "graph \<Rightarrow> diagnostic list" where
  "check_tool_command_handler g =
     concat (map (\<lambda>n.
       case effective_handler_type n of
         None \<Rightarrow> []
       | Some handler_type \<Rightarrow>
           (if has_tool_command n \<and> handler_type \<noteq> ''tool''
            then [node_diag ''tool_command_requires_tool_handler'' ERROR n
                    (''Node '' @ quoted (n_id n)
                     @ '' has tool_command but resolves to recognized built-in non-tool handler ''
                     @ quoted handler_type)
                    ''Use shape=parallelogram or type=tool, or remove tool_command'']
            else [])) (graph_nodes g))"

definition check_type_known :: "graph \<Rightarrow> diagnostic list" where
  "check_type_known g =
     map (\<lambda>n. node_diag ''type_known'' WARNING n
                (''Node '' @ quoted (n_id n) @ '' has unknown type '' @ quoted (n_type n) @ ''. Known types: ''
                 @ py_join '', '' (sort known_handler_types))
                (''Use a recognized type or register a custom handler for '' @ quoted (n_type n)))
       (filter (\<lambda>n. n_type n \<noteq> [] \<and> n_type n \<notin> set known_handler_types) (graph_nodes g))"

definition known_shapes :: string where
  "known_shapes = ''Known shapes: '' @ py_join '', '' (sort (map fst shape_to_handler)) @ ''.''"

definition shapeless :: "node \<Rightarrow> bool" where
  "shapeless n =
     (n_type n = [] \<and> \<not> is_start_node n \<and> \<not> is_exit_node n \<and> map_of shape_to_handler (n_shape n) = None)"

definition check_shape_resolvable :: "graph \<Rightarrow> diagnostic list" where
  "check_shape_resolvable g =
     map (\<lambda>n. node_diag ''shape_resolvable'' ERROR n
                (''Node '' @ quoted (n_id n) @ '' has no explicit type and its shape '' @ quoted (n_shape n)
                 @ '' is not in SHAPE_TO_HANDLER; shape-based dispatch will raise ValueError at runtime. ''
                 @ known_shapes)
                (''Correct the shape typo (e.g. '' @ quoted ''parallelogram'' @ '' not '' @ quoted ''parallelgram''
                 @ '') or add an explicit type= attribute. '' @ known_shapes))
       (filter shapeless (graph_nodes g))"

section \<open>tool_env names\<close>

text \<open>\<open>str.upper\<close>. The two characters of Latin-1 whose upper case lies outside it stay as they are.\<close>

definition py_upper_char :: "char \<Rightarrow> string" where
  "py_upper_char c =
     (let n = (of_char c :: nat) in
      if n = 223 then ''SS''
      else if (97 \<le> n \<and> n \<le> 122) \<or> (224 \<le> n \<and> n \<le> 254 \<and> n \<noteq> 247) then [char_of (n - 32)]
      else [c])"

definition py_upper :: "string \<Rightarrow> string" where
  "py_upper s = concat (map py_upper_char s)"

definition identifier_suggestion :: "string \<Rightarrow> string" where
  "identifier_suggestion name =
     (let suggested = map (\<lambda>c. if is_word c then c else CHR ''_'') name
      in if suggested = [] \<or> is_digit (hd suggested) then CHR ''_'' # suggested else suggested)"

definition check_tool_env_identifiers :: "graph \<Rightarrow> diagnostic list" where
  "check_tool_env_identifiers g =
     concat (map (\<lambda>n.
       map (\<lambda>name. node_diag ''tool_env_posix_identifier'' ERROR n
              (''Node '' @ quoted (n_id n) @ '' declares tool_env name '' @ quoted name
               @ '', which is not a POSIX environment-variable identifier ([A-Za-z_][A-Za-z0-9_]*). It would be exported as ''
               @ quoted (py_upper name)
               @ '', which /bin/sh (dash) drops before exec: the command would run with the value absent and the node would still report SUCCESS'')
              (''Rename the context key to a valid identifier (e.g. '' @ quoted (identifier_suggestion name)
               @ '' for '' @ quoted name @ ''), or drop the name from tool_env. See specs/EXTENSIONS.md section 20''))
         (non_identifier_tool_env_names (node_attr_get n ''tool_env''))) (graph_nodes g))"

section \<open>Retry budgets\<close>

definition retry_value :: "pyval \<Rightarrow> nat option" where
  "retry_value v = (case parse_non_negative_retry_count v of Inl e \<Rightarrow> None | Inr k \<Rightarrow> Some k)"

definition check_retry_budgets :: "graph \<Rightarrow> diagnostic list" where
  "check_retry_budgets g =
     map (\<lambda>n. node_diag ''retry_budget_non_negative'' ERROR n
                (''Node '' @ quoted (n_id n) @ '' has invalid max_retries='' @ py_repr (n_max_retries n)
                 @ ''; expected a non-negative integer'')
                ''Set max_retries to zero or a positive integer'')
       (filter (\<lambda>n. n_max_retries n \<noteq> PNone \<and> retry_value (n_max_retries n) = None) (graph_nodes g))
     @ (if retry_value (g_default_max_retry g) = None
        then [graph_diag ''retry_budget_non_negative'' ERROR
                (''Graph default_max_retry/default_max_retries must be zero or a positive integer, got ''
                 @ py_repr (g_default_max_retry g))
                ''Set the graph retry default to zero or a positive integer'']
        else [])"

section \<open>Conditions and the stylesheet\<close>

definition clause_error :: "string \<Rightarrow> string option" where
  "clause_error clause =
     (let empty_key = Some (''empty key in clause '' @ quoted clause) in
      case py_split1 ''!='' clause of
        Some (key, rest) \<Rightarrow> if py_strip key = [] then empty_key else None
      | None \<Rightarrow>
          (case py_split1 ''='' clause of
             Some (key, rest) \<Rightarrow> if py_strip key = [] then empty_key else None
           | None \<Rightarrow> None))"

definition validate_condition_structure :: "string \<Rightarrow> string option" where
  "validate_condition_structure condition =
     (case List.map_filter clause_error
             (filter (\<lambda>cl. cl \<noteq> []) (map py_strip (py_split ''&&'' condition))) of
        [] \<Rightarrow> None
      | msg # rest \<Rightarrow> Some msg)"

definition check_condition_syntax :: "graph \<Rightarrow> diagnostic list" where
  "check_condition_syntax g =
     concat (map (\<lambda>e.
       if e_condition e = [] \<or> py_strip (e_condition e) = [] then []
       else (case validate_condition_structure (e_condition e) of
               None \<Rightarrow> []
             | Some error_msg \<Rightarrow>
                 [edge_diag ''condition_syntax'' ERROR e
                    (''Edge '' @ from_node e @ '' -> '' @ to_node e @ '': invalid condition expression ''
                     @ quoted (e_condition e) @ '': '' @ error_msg)
                    ''Fix the condition expression syntax (supported: key=value, key!=value, &&)''])) (g_edges g))"

definition check_stylesheet_syntax :: "graph \<Rightarrow> diagnostic list" where
  "check_stylesheet_syntax g =
     (let css = g_model_stylesheet g in
      if py_strip css = [] then []
      else if parse_stylesheet css = [] \<and> length (py_strip css) > 5 then
        [graph_diag ''stylesheet_syntax'' ERROR
           ''model_stylesheet contains content but no valid rules were parsed''
           ''Fix the stylesheet syntax. Format: selector { property: value; }'']
      else [])"

section \<open>Fidelity modes and retry targets\<close>

definition bad_fidelity :: "pyval \<Rightarrow> bool" where
  "bad_fidelity v = (py_true v \<and> valid_mode v = None)"

definition fidelity_fix :: string where
  "fidelity_fix = ''Use one of: '' @ py_join '', '' (sort valid_fidelity_modes)"

definition valid_modes_text :: string where
  "valid_modes_text = ''. Valid modes: '' @ py_join '', '' (sort valid_fidelity_modes)"

definition check_fidelity_valid :: "graph \<Rightarrow> diagnostic list" where
  "check_fidelity_valid g =
     map (\<lambda>n. node_diag ''fidelity_valid'' WARNING n
                (''Node '' @ quoted (n_id n) @ '' has unrecognized fidelity mode ''
                 @ quoted (py_str (node_attr_get n ''fidelity'')) @ valid_modes_text) fidelity_fix)
       (filter (\<lambda>n. bad_fidelity (node_attr_get n ''fidelity'')) (graph_nodes g))
     @ (if bad_fidelity (graph_attr_get g ''default_fidelity'')
        then [graph_diag ''fidelity_valid'' WARNING
                (''Graph attribute default_fidelity has unrecognized value ''
                 @ quoted (py_str (graph_attr_get g ''default_fidelity'')) @ valid_modes_text) fidelity_fix]
        else [])
     @ map (\<lambda>e. edge_diag ''fidelity_valid'' WARNING e
                  (''Edge '' @ from_node e @ '' -> '' @ to_node e @ '' has unrecognized fidelity mode ''
                   @ quoted (py_str (edge_attr_get e ''fidelity'')) @ valid_modes_text) fidelity_fix)
         (filter (\<lambda>e. bad_fidelity (edge_attr_get e ''fidelity'')) (g_edges g))"

definition check_retry_target_exists :: "graph \<Rightarrow> diagnostic list" where
  "check_retry_target_exists g =
     concat (map (\<lambda>n. concat (map (\<lambda>a.
       let target = node_attr_get n a in
       if py_true target \<and> \<not> names_node g target
       then [node_diag ''retry_target_exists'' WARNING n
               (''Node '' @ quoted (n_id n) @ '' has '' @ a @ ''='' @ quoted (py_str target)
                @ '' but no node with ID '' @ quoted (py_str target) @ '' exists'')
               (''Set '' @ a @ '' to a valid node ID or remove it'')]
       else []) retry_attrs)) (graph_nodes g))
     @ concat (map (\<lambda>a.
       let target = graph_attr_get g a in
       if py_true target \<and> \<not> names_node g target
       then [graph_diag ''retry_target_exists'' WARNING
               (''Graph attribute '' @ a @ ''='' @ quoted (py_str target) @ '' references nonexistent node ''
                @ quoted (py_str target))
               (''Set graph '' @ a @ '' to a valid node ID or remove it'')]
       else []) retry_attrs)"

section \<open>validate and validate_or_raise\<close>

definition builtin_rules :: "(graph \<Rightarrow> diagnostic list) list" where
  "builtin_rules =
     [check_start_node, check_terminal_node, check_edge_targets, check_start_no_incoming,
      check_exit_no_outgoing, check_reachability, check_goal_gate_has_retry, check_prompt_on_llm_nodes,
      check_condition_syntax, check_stylesheet_syntax, check_type_known, check_shape_resolvable,
      check_fidelity_valid, check_retry_target_exists, check_tool_command_handler,
      check_tool_env_identifiers, check_retry_budgets]"

definition validate :: "graph \<Rightarrow> (graph \<Rightarrow> diagnostic list) list \<Rightarrow> diagnostic list" where
  "validate g extra_rules = concat (map (\<lambda>rule. rule g) (builtin_rules @ extra_rules))"

definition validation_message :: "diagnostic list \<Rightarrow> string" where
  "validation_message diags =
     ''Validation failed: '' @ py_join ''; '' (map d_message (filter (\<lambda>d. d_severity d = ERROR) diags))"

text \<open>The left part carries the errors of the \<open>ValidationError\<close>.\<close>

definition validate_or_raise :: "graph \<Rightarrow> diagnostic list + diagnostic list" where
  "validate_or_raise g =
     (let diags = validate g []; errors = filter (\<lambda>d. d_severity d = ERROR) diags
      in if errors \<noteq> [] then Inl errors else Inr diags)"

section \<open>The preflight of tool_env names\<close>

definition check_tool_env_names :: "graph \<Rightarrow> string option" where
  "check_tool_env_names g =
     (let failures = concat (map (\<lambda>n. map (\<lambda>name.
            ''  - node '' @ quoted (n_id n) @ '' declares tool_env name '' @ quoted name
            @ '', which would be exported as '' @ quoted (py_upper name)
            @ '' -- not a POSIX environment-variable identifier ([A-Za-z_][A-Za-z0-9_]*)'')
            (non_identifier_tool_env_names (node_attr_get n ''tool_env''))) (graph_nodes g))
      in if failures = [] then None
         else Some (''TOOL_ENV PREFLIGHT FAILED -- refusing to start the pipeline (issue #64, EXTENSIONS.md section 20). The following nodes declare a tool_env name that can never reach the command:''
           @ [CHR 0x0A] @ py_join [CHR 0x0A] failures @ [CHR 0x0A]
           @ ''/bin/sh (dash) drops an environment entry whose name is not an identifier before exec'' @ [CHR 0x27]
           @ ''ing the child, so the command would run with the value absent, exit 0, and the node would report SUCCESS -- the value silently lost on a green run. (bash keeps such an entry, which is why this depends on what /bin/sh points at.) ''
           @ ''Fix: rename the context key to a valid identifier and declare that name here, or drop the name from tool_env. The engine deliberately does NOT sanitize the name for you: exporting a name the graph never wrote would make the declared and the exported vocabularies disagree.''))"

end
