(* ===== verification/Validation_Facts.thy ===== *)
theory Validation_Facts
  imports Validation Run_Facts Fan_In
begin

text \<open>
  What a graph that \<open>validate_or_raise\<close> accepts guarantees: the reachability rule against the relation
  of the edges, the consequences of the other rules for the engine, and the exceptions that are left
  for a run of such a graph.
\<close>

section \<open>The reachability rule\<close>

definition step_rel :: "graph \<Rightarrow> (string \<times> string) set" where
  "step_rel g = {(from_node e, to_node e) | e. e \<in> set (g_edges g) \<and> dict_has (g_nodes g) (to_node e)}"

lemma step_rel_next: "(i, j) \<in> step_rel g \<longleftrightarrow> j \<in> set (reach_next g i)"
  by (auto simp: step_rel_def reach_next_def outgoing_edges_def)

declare reach.simps(2) [simp del]

lemma reach_pop:
  "i \<in> set visited \<Longrightarrow> reach g (i # queue) visited = reach g queue visited"
  "i \<notin> set visited \<Longrightarrow> reach g (i # queue) visited = reach g (queue @ reach_next g i) (i # visited)"
  by (simp_all add: reach.simps(2))

lemma reach_sound:
  assumes "\<forall>i \<in> set queue \<union> set visited. (s, i) \<in> (step_rel g)\<^sup>*" "i \<in> set (reach g queue visited)"
  shows "(s, i) \<in> (step_rel g)\<^sup>*"
  using assms
proof (induction g queue visited rule: reach.induct)
  case (1 g visited)
  then show ?case by simp
next
  case (2 g j queue visited)
  show ?case
  proof (cases "j \<in> set visited")
    case True
    then show ?thesis using 2 by (simp add: reach_pop)
  next
    case False
    have "(s, m) \<in> (step_rel g)\<^sup>*" if "m \<in> set (reach_next g j)" for m
      using 2(3) that by (auto simp: step_rel_next intro: rtrancl_into_rtrancl)
    then have "\<forall>m \<in> set (queue @ reach_next g j) \<union> set (j # visited). (s, m) \<in> (step_rel g)\<^sup>*"
      using 2(3) by auto
    then show ?thesis using 2(2) [OF False] 2(4) False by (simp add: reach_pop)
  qed
qed

definition reach_closed :: "graph \<Rightarrow> string list \<Rightarrow> string list \<Rightarrow> bool" where
  "reach_closed g queue visited =
     (\<forall>i \<in> set visited. set (reach_next g i) \<subseteq> set visited \<union> set queue)"

lemma reach_complete:
  "reach_closed g queue visited \<Longrightarrow>
   reach_closed g [] (reach g queue visited) \<and> set queue \<union> set visited \<subseteq> set (reach g queue visited)"
proof (induction g queue visited rule: reach.induct)
  case (1 g visited)
  then show ?case by simp
next
  case (2 g j queue visited)
  show ?case
  proof (cases "j \<in> set visited")
    case True
    then have "reach_closed g queue visited" using 2(3) by (auto simp: reach_closed_def)
    then show ?thesis using 2(1) True by (auto simp: reach_pop)
  next
    case False
    have "reach_closed g (queue @ reach_next g j) (j # visited)"
      using 2(3) by (force simp: reach_closed_def)
    from 2(2) [OF False this] show ?thesis using False by (auto simp: reach_pop)
  qed
qed

lemma reach_iff: "i \<in> set (reach g [s] []) \<longleftrightarrow> (s, i) \<in> (step_rel g)\<^sup>*"
proof
  assume "i \<in> set (reach g [s] [])"
  then show "(s, i) \<in> (step_rel g)\<^sup>*" by (rule reach_sound [rotated]) simp
next
  have c: "reach_closed g [] (reach g [s] [])" "s \<in> set (reach g [s] [])"
    using reach_complete [of g "[s]" "[]"] by (auto simp: reach_closed_def)
  assume "(s, i) \<in> (step_rel g)\<^sup>*"
  then show "i \<in> set (reach g [s] [])"
    by (induction rule: rtrancl_induct) (use c in \<open>auto simp: reach_closed_def step_rel_next\<close>)
qed

text \<open>A node or the graph has a retry attribute whose text is the id.\<close>

definition retry_named :: "graph \<Rightarrow> string \<Rightarrow> bool" where
  "retry_named g i =
     (i \<noteq> [] \<and> ((\<exists>n \<in> set (graph_nodes g). \<exists>a \<in> set retry_attrs. node_attr_get n a = PStr i)
                \<or> (\<exists>a \<in> set retry_attrs. graph_attr_get g a = PStr i)))"

lemma named_target_iff: "i \<in> set (named_target g v) \<longleftrightarrow> v = PStr i \<and> i \<noteq> [] \<and> dict_has (g_nodes g) i"
  by (auto simp: named_target_def names_node_def split: pyval.split)

lemma retry_names_iff: "i \<in> set (retry_names g) \<longleftrightarrow> dict_has (g_nodes g) i \<and> retry_named g i"
  unfolding retry_names_def retry_named_def by (auto simp: named_target_iff)

section \<open>Conditions and names\<close>

lemma parse_condition_clauses:
  "parse_condition c = map parse_clause (filter (\<lambda>cl. cl \<noteq> []) (map py_strip (py_split ''&&'' c)))"
  by (simp add: parse_condition_def py_split_def py_strip_def py_lstrip_def py_rstrip_def)

lemma map_filter_Nil: "List.map_filter f xs = [] \<longleftrightarrow> (\<forall>x \<in> set xs. f x = None)"
  by (induction xs) (auto simp: List.map_filter_simps split: option.splits)

lemma clause_error_iff: "cl \<noteq> [] \<Longrightarrow> clause_error cl = None \<longleftrightarrow> fst (parse_clause cl) \<noteq> []"
  by (auto simp: clause_error_def parse_clause_def Let_def split: option.splits)

lemma validate_condition_None:
  "validate_condition_structure c = None \<longleftrightarrow>
   (\<forall>cl \<in> set (filter (\<lambda>cl. cl \<noteq> []) (map py_strip (py_split ''&&'' c))). clause_error cl = None)"
  unfolding map_filter_Nil [symmetric] validate_condition_structure_def by (simp split: list.split)

lemma suggestion_shape:
  "\<exists>c cs. identifier_suggestion name = c # cs \<and> (is_alpha c \<or> c = CHR ''_'') \<and> list_all is_word (c # cs)"
proof -
  let ?m = "map (\<lambda>c. if is_word c then c else CHR ''_'') name"
  have u: "is_word (CHR ''_'')" by (simp add: is_word_def)
  then have w: "list_all is_word ?m" by (auto simp: list_all_iff)
  show ?thesis
  proof (cases "?m = [] \<or> is_digit (hd ?m)")
    case True
    then show ?thesis using w u by (simp add: identifier_suggestion_def Let_def)
  next
    case False
    then obtain c cs where m: "?m = c # cs" by (meson list.exhaust)
    then have "is_word c" "\<not> is_digit c" using w False by auto
    then show ?thesis using m w False by (simp add: identifier_suggestion_def Let_def is_word_def)
  qed
qed

lemma word_char: "is_word c \<Longrightarrow> \<not> py_isspace c \<and> c \<noteq> CHR '',''"
  by (auto simp: is_word_def is_alpha_def is_digit_def py_isspace_def Let_def)

lemma strip_words: "list_all is_word s \<Longrightarrow> py_strip s = s"
proof -
  assume w: "list_all is_word s"
  have l: "dropWhile py_isspace t = t" if "list_all is_word t" for t
    using that word_char by (cases t) auto
  then show ?thesis using w by (simp add: py_strip_def py_lstrip_def py_rstrip_def list_all_rev)
qed

lemma split_words: "list_all is_word s \<Longrightarrow> split_go '','' acc s = [rev acc @ s]"
  using word_char by (induction s arbitrary: acc) auto

text \<open>A name of word characters that starts with a letter or an underscore is its own list of names.\<close>

lemma plain_name_accepted:
  assumes "\<exists>c cs. s = c # cs \<and> (is_alpha c \<or> c = CHR ''_'') \<and> list_all is_word (c # cs)"
  shows "s \<noteq> [] \<and> non_identifier_tool_env_names (PStr s) = []"
proof -
  obtain c cs where s: "s = c # cs" "is_alpha c \<or> c = CHR ''_''" "list_all is_word (c # cs)" using assms by blast
  have "parse_tool_env_names (PStr s) = [s]"
    using s(1) split_words [OF s(3), of "[]"] strip_words [OF s(3)]
    by (simp add: parse_tool_env_names_def py_split_def del: split_go.simps)
  moreover have "posix_env_name s" using s by (simp add: posix_env_name_def)
  ultimately show ?thesis using s(1) by (simp add: non_identifier_tool_env_names_def)
qed

section \<open>What an accepted graph satisfies\<close>

lemma accepted_rule:
  assumes "validate_or_raise g = Inr ds" "rule \<in> set builtin_rules" "d \<in> set (rule g)"
  shows "d_severity d \<noteq> ERROR"
proof
  assume "d_severity d = ERROR"
  moreover have "d \<in> set (validate g [])" using assms(2,3) by (auto simp: validate_def)
  ultimately have "filter (\<lambda>d. d_severity d = ERROR) (validate g []) \<noteq> []" by (auto simp: filter_empty_conv)
  then show False using assms(1) by (simp add: validate_or_raise_def Let_def)
qed

lemma accepted_silent:
  assumes "validate_or_raise g = Inr ds" "rule \<in> set builtin_rules" "\<forall>d \<in> set (rule g). d_severity d = ERROR"
  shows "rule g = []"
  using accepted_rule [OF assms(1,2)] assms(3) by (metis last_in_set)

lemma diag_severity [simp]:
  "d_severity (graph_diag r s m f) = s" "d_severity (node_diag r s n m f) = s" "d_severity (edge_diag r s e m f) = s"
  by (simp_all add: graph_diag_def node_diag_def edge_diag_def)

lemma accepted_start:
  assumes "validate_or_raise g = Inr ds"
  shows "\<exists>n. start_nodes g = [n]"
proof -
  have "check_start_node g = []"
    by (rule accepted_silent [OF assms]) (auto simp: builtin_rules_def check_start_node_def Let_def)
  then have "length (start_nodes g) \<noteq> 0 \<and> \<not> 1 < length (start_nodes g)"
    by (simp add: check_start_node_def Let_def split: if_splits)
  then have "length (start_nodes g) = 1" by linarith
  then show ?thesis by (auto simp: length_Suc_conv)
qed

lemma accepted_edges:
  assumes "validate_or_raise g = Inr ds" "e \<in> set (g_edges g)"
  shows "dict_has (g_nodes g) (from_node e) \<and> dict_has (g_nodes g) (to_node e)"
proof -
  have "check_edge_targets g = []"
    by (rule accepted_silent [OF assms(1)]) (auto simp: builtin_rules_def check_edge_targets_def)
  then show ?thesis using assms(2) by (auto simp: check_edge_targets_def split: if_splits)
qed

lemma accepted_shapes:
  assumes "validate_or_raise g = Inr ds" "n \<in> set (graph_nodes g)"
  shows "\<not> shapeless n"
proof -
  have "check_shape_resolvable g = []"
    by (rule accepted_silent [OF assms(1)]) (auto simp: builtin_rules_def check_shape_resolvable_def)
  then show ?thesis using assms(2) by (auto simp: check_shape_resolvable_def filter_empty_conv)
qed

lemma accepted_budgets:
  assumes "validate_or_raise g = Inr ds" "n \<in> set (graph_nodes g)"
  shows "\<exists>pol. policy_from_node n g = Inr pol \<and> p_backoff pol = default_backoff"
proof -
  have "check_retry_budgets g = []"
    by (rule accepted_silent [OF assms(1)]) (auto simp: builtin_rules_def check_retry_budgets_def)
  then have b: "n_max_retries n = PNone \<or> retry_value (n_max_retries n) \<noteq> None" "retry_value (g_default_max_retry g) \<noteq> None"
    using assms(2) by (auto simp: check_retry_budgets_def filter_empty_conv split: if_splits)
  have zero: "parse_non_negative_retry_count (PInt 0) = Inr 0" by (simp add: parse_non_negative_retry_count_def)
  have "node_attr_get n ''max_retries'' = n_max_retries n"
    by (simp add: node_attr_get_eq node_promoted_attrs_def node_field_def)
  then show ?thesis using b zero
    by (auto simp: policy_from_node_def retry_value_def Let_def split: sum.splits)
qed

text \<open>The keys of the node dictionary are the ids of the nodes, as the parser builds it.\<close>

definition well_keyed :: "graph \<Rightarrow> bool" where
  "well_keyed g = (dict_ok (g_nodes g) \<and> (\<forall>(k, n) \<in> set (g_nodes g). n_id n = k))"

lemma accepted_graph_ok: "validate_or_raise g = Inr ds \<Longrightarrow> well_keyed g \<Longrightarrow> graph_ok g"
  using accepted_edges by (auto simp: graph_ok_def well_keyed_def)

lemma node_in_list: "node_in g n \<Longrightarrow> n \<in> set (graph_nodes g)"
  by (force simp: node_in_def graph_nodes_def dest: map_of_SomeD)

lemma accepted_find_start:
  assumes "validate_or_raise g = Inr ds"
  shows "\<exists>n. find_start_node g = Some n"
proof -
  obtain n where "start_nodes g = [n]" using accepted_start [OF assms] by blast
  then have "n \<in> set (start_nodes g)" by simp
  then have n: "n \<in> set (map snd (g_nodes g))" "is_start_node n"
    by (simp_all add: start_nodes_def graph_nodes_def)
  then have "find (\<lambda>n. n_shape n = ''Mdiamond'') (map snd (g_nodes g)) \<noteq> None
      \<or> find (\<lambda>n. n_type n = ''start'') (map snd (g_nodes g)) \<noteq> None
      \<or> find (\<lambda>n. py_lower (n_id n) = ''start'') (map snd (g_nodes g)) \<noteq> None"
    unfolding find_None_iff by (auto simp: is_start_node_def split: if_splits)
  then show ?thesis by (auto simp: find_start_node_def Let_def split: option.splits)
qed

section \<open>Dispatch\<close>

text \<open>What the validator leaves open: an explicit type must have a registered handler, and a start
  node without one a known shape.\<close>

definition dispatch_known :: "'w eenv \<Rightarrow> graph \<Rightarrow> bool" where
  "dispatch_known X g =
     (set handlers_init \<subseteq> set (x_registered X)
      \<and> list_all (\<lambda>n. if n_type n \<noteq> [] then n_type n \<in> set (x_registered X)
                      else is_start_node n \<longrightarrow> map_of shape_to_handler (n_shape n) \<noteq> None) (graph_nodes g))"

lemma shape_handlers: "map_of shape_to_handler s = Some h \<Longrightarrow> h \<in> set handlers_init"
  by (auto simp: shape_to_handler_def handlers_init_def split: if_splits)

lemma accepted_dispatch:
  assumes "validate_or_raise g = Inr ds" "dispatch_known X g" "node_in g n" "\<not> is_exit_node n"
  shows "\<exists>h. registry_get (x_registered X) n = Inr h"
proof (cases "n_type n \<noteq> []")
  case True
  then have "n_type n \<in> set (x_registered X)"
    using assms(2) node_in_list [OF assms(3)] by (auto simp: dispatch_known_def list_all_iff)
  then show ?thesis using True by (simp add: registry_get_def)
next
  case False
  have "map_of shape_to_handler (n_shape n) \<noteq> None"
    using False assms accepted_shapes [OF assms(1) node_in_list [OF assms(3)]] node_in_list [OF assms(3)]
    by (auto simp: shapeless_def dispatch_known_def list_all_iff)
  then obtain h where h: "map_of shape_to_handler (n_shape n) = Some h" by blast
  then have "h \<in> set (x_registered X)" using shape_handlers assms(2) by (auto simp: dispatch_known_def)
  then show ?thesis using False h by (auto simp: registry_get_def Let_def split: pyval.split)
qed

definition limits_numeric :: "graph \<Rightarrow> bool" where
  "limits_numeric g = (\<not> isl (fuse_ms g) \<and> list_all (\<lambda>n. \<not> isl (node_timeout_s n)) (graph_nodes g))"

section \<open>Exceptions of the retry ladder\<close>

definition ladder_fault :: "policy \<Rightarrow> exc \<Rightarrow> bool" where
  "ladder_fault pol e =
     (case e of
        ChildDotResolutionError m \<Rightarrow> True
      | PyError t tr m \<Rightarrow> t = ''UnicodeDecodeError'' \<or> (t = ''OverflowError'' \<and> 1025 < p_max_attempts pol))"

lemma delay_fault:
  assumes "delay_for_attempt default_backoff u a = Inl e" "a < m"
  shows "\<exists>msg. e = PyError ''OverflowError'' False msg \<and> 1025 < m"
proof -
  have "1025 \<le> a" using default_delay_defined [of a u] assms(1) by (cases "a \<le> 1024") auto
  moreover have "e = PyError ''OverflowError'' False ''(34, 'Numerical result out of range')''"
    using assms(1) by (auto simp: delay_for_attempt_def Let_def split: if_splits)
  ultimately show ?thesis using assms(2) by simp
qed

lemma pause_fault:
  assumes "retry_pause env n pol a reason st = (Some e, st')" "p_backoff pol = default_backoff" "a < p_max_attempts pol"
  shows "ladder_fault pol e"
proof -
  have "\<exists>u. delay_for_attempt default_backoff u a = Inl e"
    using assms(1,2)
    by (auto simp: retry_pause_def emit_retrying_def sleep_backoff_def Let_def
        split: option.splits prod.splits sum.splits if_splits)
  then show ?thesis using delay_fault [OF _ assms(3)] by (fastforce simp: ladder_fault_def)
qed

lemma pause_again_fault:
  assumes "pause_again env n pol a reason prev st = Finish (Inl e) st'" "p_backoff pol = default_backoff"
    "a < p_max_attempts pol"
  shows "ladder_fault pol e"
  using assms pause_fault by (fastforce simp: pause_again_def split: prod.splits option.splits)

lemma on_outcome_fault:
  assumes "on_outcome env n pol start a out st = Finish (Inl e) st'" "p_backoff pol = default_backoff"
  shows "ladder_fault pol e"
  using assms by (auto simp: on_outcome_def dest: pause_again_fault split: if_splits option.splits)

lemma override_fault: "read_status_override h fs n logs t out = Inl e \<Longrightarrow> ladder_fault pol e"
  by (auto simp: read_status_override_def ladder_fault_def Let_def split: option.splits if_splits sum.splits)

lemma attempt_fault:
  assumes "attempt_step env logs n pol start a prev st = Finish (Inl e) st'" "p_backoff pol = default_backoff"
  shows "ladder_fault pol e"
  using assms
  by (auto simp: attempt_step_def Let_def dest: pause_again_fault on_outcome_fault override_fault
      split: prod.splits sum.splits exc.splits if_splits) (simp add: ladder_fault_def)

lemma ladder_faults:
  "ladder env logs n pol start k a prev st = (Inl e, st') \<Longrightarrow> p_backoff pol = default_backoff \<Longrightarrow> ladder_fault pol e"
proof (induction k arbitrary: a prev st)
  case 0
  then show ?case by (simp add: Let_def)
next
  case (Suc k)
  then show ?case by (auto dest: attempt_fault split: move.splits)
qed

lemma execute_node_fault:
  assumes "execute_node X g n pol bound idx S = Ended (Inl e) S'" "p_backoff pol = default_backoff"
  shows "ladder_fault pol e \<and> (\<exists>t tr m. e = PyError t tr m)"
proof -
  have "\<exists>st st'. execute_with_retry (x_env X) (x_logs_root X) n pol st = (Inl e, st') \<and> (\<exists>t tr m. e = PyError t tr m)"
    using assms(1)
    by (auto simp: execute_node_def timed_out_def Let_def split: option.splits sum.splits exc.splits prod.splits if_splits)
  moreover have "ladder_fault pol e" if "execute_with_retry env logs n pol st = (Inl e, st')" for env logs st st'
    using that ladder_faults [OF _ assms(2)] by (auto simp: execute_with_retry_def Let_def split: prod.splits)
  ultimately show ?thesis by blast
qed

section \<open>Exceptions of a run\<close>

text \<open>The two exceptions that can end a run of an accepted graph.\<close>

definition run_fault :: "graph \<Rightarrow> exc \<Rightarrow> bool" where
  "run_fault g e =
     (exc_type_name e = ''UnicodeDecodeError''
      \<or> (exc_type_name e = ''OverflowError''
         \<and> (\<exists>n \<in> set (graph_nodes g). \<exists>pol. policy_from_node n g = Inr pol \<and> 1025 < p_max_attempts pol)))"

definition safe_turn :: "graph \<Rightarrow> 'w turn \<Rightarrow> bool" where
  "safe_turn g t = (case t of Return (Inl e) S \<Rightarrow> run_fault g e | Return (Inr out) S \<Rightarrow> True | Goto n k S \<Rightarrow> node_in g n)"

lemma safe_turn_simps [simp]:
  "safe_turn g (Return (Inr out) S)" "safe_turn g (Return (Inl e) S) \<longleftrightarrow> run_fault g e"
  "safe_turn g (Goto n k S) \<longleftrightarrow> node_in g n"
  by (simp_all add: safe_turn_def)

lemma safe_goto: "graph_ok g \<Longrightarrow> dict_has (g_nodes g) i \<Longrightarrow> safe_turn g (goto_node g i k S)"
  by (auto simp: goto_node_def dict_has_iff node_in_get)

lemma safe_target: "graph_ok g \<Longrightarrow> e \<in> set (outgoing_edges g i) \<Longrightarrow> safe_turn g (goto_node g (to_node e) k S)"
  by (rule safe_goto) (auto simp: graph_ok_def outgoing_edges_def)

lemma safe_follow: "graph_ok g \<Longrightarrow> e \<in> set (outgoing_edges g i) \<Longrightarrow> safe_turn g (follow_edge X g e k S)"
  by (simp add: follow_edge_def Let_def safe_target)

lemma safe_retry_target: "graph_ok g \<Longrightarrow> resolve_failure_retry_target g n = Some m \<Longrightarrow> node_in g m"
  using retry_target_in node_in_get by blast

lemma safe_no_edge: "graph_ok g \<Longrightarrow> safe_turn g (no_edge X g n out k S)"
  by (auto simp: no_edge_def Let_def safe_retry_target split: option.split)

lemma fan_in_node:
  assumes "graph_ok g" "set_order_ok X" "find_fan_in_node X g roots = Some i"
  shows "dict_has (g_nodes g) i"
proof -
  have sh: "shared_descendant g roots i" using fan_in_Some [OF assms(2,3)] by simp
  have "roots \<noteq> []" using assms(3) by (auto simp: find_fan_in_node_def)
  then obtain br where "br \<in> set roots" "(br, i) \<in> (edge_rel g)\<^sup>*" "br \<noteq> i"
    using sh by (cases roots) (auto simp: shared_descendant_def)
  then obtain j where "(j, i) \<in> edge_rel g" by (metis rtranclE)
  then show ?thesis using assms(1) by (auto simp: edge_rel_def graph_ok_def)
qed

lemma safe_route: "graph_ok g \<Longrightarrow> set_order_ok X \<Longrightarrow> safe_turn g (route X g n out k S)"
  by (auto simp: route_def Let_def intro: safe_no_edge safe_goto fan_in_node safe_follow
      dest: select_edge_sound split: option.split)

lemma skip_edge_in: "skip_edge g n out c = Some e \<Longrightarrow> e \<in> set (outgoing_edges g (n_id n))"
  by (auto simp: skip_edge_def Let_def unconditional_iff dest: select_edge_sound dest!: best_in
      split: option.splits if_splits)

lemma safe_skip: "graph_ok g \<Longrightarrow> safe_turn g (skip_turn X g n skip k S)"
  by (auto simp: skip_turn_def Let_def safe_retry_target intro: safe_target skip_edge_in split: option.split)

lemma safe_exit: "graph_ok g \<Longrightarrow> safe_turn g (at_exit X g n k S)"
  using at_exit_return [of X g n k S] at_exit_goto [of X g n k S] node_in_get
  by (cases "at_exit X g n k S") (fastforce simp: goes_on_def)+

lemma safe_after_node: "graph_ok g \<Longrightarrow> set_order_ok X \<Longrightarrow> safe_turn g (after_node X g n sw idx out k S)"
  by (auto simp: after_node_def Let_def intro: safe_route split: prod.split option.split)

lemma fault_of_ladder:
  assumes "ladder_fault pol e" "e = PyError t tr m" "policy_from_node n g = Inr pol" "node_in g n"
  shows "run_fault g e"
  using assms node_in_list [OF assms(4)] by (auto simp: ladder_fault_def run_fault_def)

lemma safe_run_turn:
  assumes "validate_or_raise g = Inr ds" "well_keyed g" "dispatch_known X g" "limits_numeric g"
    "set_order_ok X" "node_in g n" "\<not> is_exit_node n"
  shows "safe_turn g (run_turn X g n k S)"
proof -
  have g: "graph_ok g" using accepted_graph_ok assms(1,2) by blast
  obtain h where h: "registry_get (x_registered X) n = Inr h" using accepted_dispatch assms by blast
  obtain pol where pol: "policy_from_node n g = Inr pol" "p_backoff pol = default_backoff"
    using accepted_budgets [OF assms(1) node_in_list [OF assms(6)]] by blast
  obtain fuse where f: "fuse_ms g = Inr fuse" using assms(4) by (cases "fuse_ms g") (auto simp: limits_numeric_def)
  have "\<not> isl (node_timeout_s n)"
    using assms(4) node_in_list [OF assms(6)] by (simp add: limits_numeric_def list_all_iff)
  then obtain timeout where t: "node_timeout_s n = Inr timeout" by (cases "node_timeout_s n") auto
  have ended: "safe_turn g (Return res S')" if "execute_node X g n pol b idx S1 = Ended res S'" for b idx S1 res S'
    using execute_node_fault [of X g n pol b idx S1 _ S'] that pol fault_of_ladder [OF _ _ pol(1) assms(6)]
    by (cases res) auto
  show ?thesis
    using h pol f t g assms(5) ended
    by (auto simp: run_turn_def intro: safe_after_node split: prod.split ran.split)
qed

lemma safe_turn_of_run:
  assumes "validate_or_raise g = Inr ds" "well_keyed g" "dispatch_known X g" "limits_numeric g"
    "set_order_ok X" "node_in g n"
  shows "safe_turn g (turn X g n k r S)"
proof -
  have g: "graph_ok g" using accepted_graph_ok assms(1,2) by blast
  show ?thesis
    using refl [of "turn X g n k r S"]
  proof (cases rule: turn_cases)
    case (fault e S1)
    then show ?thesis using assms(4) by (simp add: limits_numeric_def)
  qed (use g assms safe_exit safe_route safe_skip safe_run_turn in \<open>auto simp: is_exit_node_def\<close>)
qed

text \<open>No run of an accepted graph ends in an exception but the two of the retry ladder.\<close>

lemma accepted_loop:
  assumes acc: "validate_or_raise g = Inr ds" "well_keyed g" "dispatch_known X g" "limits_numeric g" "set_order_ok X"
    and "node_in g n" and l: "run_loop X g n k r S = (Inl e, S')"
  shows "run_fault g e"
proof -
  have "case Inl e of Inl e' \<Rightarrow> run_fault g e' | Inr (out :: outcome) \<Rightarrow> True"
  proof (rule run_loop_rule [OF l, where I = "\<lambda>n k r S. node_in g n"
        and P = "\<lambda>res S'. case res of Inl e' \<Rightarrow> run_fault g e' | Inr out \<Rightarrow> True"])
    fix n1 k1 r1 S1 res S2
    assume "node_in g n1" "turn X g n1 (k1\<lparr>k_steps := k_steps k1 + 1\<rparr>) r1 S1 = Return res S2"
    then have "safe_turn g (Return res S2)" using safe_turn_of_run [OF acc] by metis
    then show "case res of Inl e' \<Rightarrow> run_fault g e' | Inr out \<Rightarrow> True" by (cases res) auto
  next
    fix n1 k1 r1 S1 n2 k2 S2
    assume "node_in g n1" "turn X g n1 (k1\<lparr>k_steps := k_steps k1 + 1\<rparr>) r1 S1 = Goto n2 k2 S2"
    then have "safe_turn g (Goto n2 k2 S2)" using safe_turn_of_run [OF acc] by metis
    then show "node_in g n2" by simp
  qed (use assms(6) in simp_all)
  then show ?thesis by simp
qed

lemma accepted_run:
  assumes acc: "validate_or_raise g = Inr ds" "well_keyed g" "dispatch_known X g" "limits_numeric g" "set_order_ok X"
    and "\<not> x_branch_clone X" "fst (run X g goal S) = Inl e"
  shows "run_fault g e"
proof -
  obtain n where n: "find_start_node g = Some n" using accepted_find_start [OF acc(1)] by blast
  have g: "graph_ok g" using accepted_graph_ok acc(1,2) by blast
  obtain res S2 where l: "run_loop X g n no_counters None (start_run X g goal S) = (res, S2)" by force
  have "fst (close_run X (res, S2)) = Inl e" using assms(6,7) n l by (simp add: run_def)
  then have "res = Inl e" by (cases res) (simp_all add: close_run_def)
  then show ?thesis using accepted_loop [OF acc find_start_in [OF g n]] l by blast
qed

end
