(* ===== verification/Validation_Properties.thy ===== *)
theory Validation_Properties
  imports Samples Validation_Facts
begin

text \<open>
  The properties of the validator and of the model stylesheet, each followed by the instance that shows
  its hypotheses can hold.
\<close>

section \<open>Sample graphs\<close>

text \<open>A graph the validator accepts; one whose start node has a misspelt shape; one whose retry target
  leads to a node of its own.\<close>

definition accepted_graph :: graph where
  "accepted_graph =
     plain_graph [plain_node ''s'' ''Mdiamond'', plain_node ''t'' ''parallelogram'', plain_node ''x'' ''Msquare'']
       [plain_edge ''s'' ''t'', plain_edge ''t'' ''x'']"

definition misspelt_start_graph :: graph where
  "misspelt_start_graph =
     plain_graph [plain_node ''start'' ''Mdiamnd'', plain_node ''x'' ''Msquare''] [plain_edge ''start'' ''x'']"

definition repair_graph :: graph where
  "repair_graph =
     plain_graph [plain_node ''s'' ''Mdiamond'',
                  (plain_node ''t'' ''parallelogram'')\<lparr>n_retry_target := PStr ''f''\<rparr>,
                  plain_node ''f'' ''parallelogram'', plain_node ''h'' ''parallelogram'',
                  plain_node ''x'' ''Msquare'']
       [plain_edge ''s'' ''t'', (plain_edge ''t'' ''x'')\<lparr>e_condition := ''outcome=success''\<rparr>,
        plain_edge ''f'' ''h'', plain_edge ''h'' ''t'']"

section \<open>The validator\<close>

text \<open>An accepted graph cannot fail for a structural reason: a run of it ends in an outcome, or in one
  of the two exceptions of the retry ladder that no graph check could foresee (a status file that is no
  UTF-8, or the overflow of the backoff when a node may be retried more than 1024 times). The graph has to
  be keyed by its node ids as the parser keys it, every explicit type and the start node's shape must have
  a handler, and the time limits must be numbers; the walk never meets a missing node, an unregistered
  handler or an unusable retry budget.\<close>

theorem accepted_run_raises_nothing:
  assumes "validate_or_raise g = Inr ds" "well_keyed g" "dispatch_known X g" "limits_numeric g"
    "set_order_ok X" "\<not> x_branch_clone X"
  shows "case fst (run X g goal S) of Inl e \<Rightarrow> run_fault g e | Inr out \<Rightarrow> True"
  using accepted_run [OF assms] by (auto split: sum.split)

theorem accepted_run_raises_nothing_witness:
  "validate_or_raise accepted_graph = Inr []
   \<and> (case fst (run plain_eenv accepted_graph None start_state) of
        Inl e \<Rightarrow> run_fault accepted_graph e | Inr out \<Rightarrow> True)"
proof -
  have v: "validate_or_raise accepted_graph = Inr []" by code_simp
  have k: "well_keyed accepted_graph" by code_simp
  have d: "dispatch_known plain_eenv accepted_graph" by code_simp
  have l: "limits_numeric accepted_graph" by code_simp
  have c: "\<not> x_branch_clone plain_eenv" by (simp add: plain_eenv_def)
  show ?thesis using accepted_run_raises_nothing [OF v k d l plain_eenv_order c] v by simp
qed

text \<open>The exemption of start nodes from the shape rule is not sound: a graph whose start node is found
  by its id and has a misspelt shape passes validation without a diagnostic, and its run dies of the
  \<open>ValueError\<close> the rule is there to prevent, before any node executes.\<close>

theorem misspelt_start_passes:
  "validate_or_raise misspelt_start_graph = Inr []
   \<and> fst (run plain_eenv misspelt_start_graph None start_state) =
       Inl (PyError ''ValueError'' False
         (''Unknown node shape '' @ quoted ''Mdiamnd'' @ '' for node '' @ quoted ''start''))"
  by (rule conjI; code_simp)

text \<open>The reachability rule reports exactly the nodes that no path of edges leads to from the start node
  and that no retry attribute names.\<close>

theorem reachability_rule_exact:
  "case start_nodes g of
     [] \<Rightarrow> check_reachability g = []
   | s # rest \<Rightarrow>
       set (map d_node_id (check_reachability g)) =
         {i. dict_has (g_nodes g) i \<and> (n_id s, i) \<notin> (step_rel g)\<^sup>* \<and> \<not> retry_named g i}"
  by (auto simp: check_reachability_def unreachable_def reach_iff retry_names_iff dict_has_def Let_def
      split: list.split)

text \<open>The rule counts a retry target as reached but not what lies behind it: in this graph the engine
  goes from the failed node to its retry target and on to the node behind, and the validator refuses the
  graph for that very node.\<close>

theorem behind_retry_target_refused:
  "map d_node_id (check_reachability repair_graph) = [''h'']
   \<and> isl (validate_or_raise repair_graph)
   \<and> select_edge ''t'' (mk_outcome FAIL) ctx_new repair_graph = None
   \<and> map_option n_id (resolve_failure_retry_target repair_graph (the (dict_get (g_nodes repair_graph) ''t''))) = Some ''f''
   \<and> map_option to_node (select_edge ''f'' (mk_outcome SUCCESS) ctx_new repair_graph) = Some ''h''"
  by (intro conjI; code_simp)

text \<open>The linter and the run-time parser of edge conditions agree on what a clause is: a condition is
  structurally valid exactly when no clause that the run will evaluate has an empty key.\<close>

theorem condition_lint_matches_parser:
  "validate_condition_structure c = None \<longleftrightarrow> list_all (\<lambda>(key, op, value). key \<noteq> []) (parse_condition c)"
  unfolding validate_condition_None parse_condition_clauses
  by (auto simp: list_all_iff clause_error_iff case_prod_beta)

text \<open>The two places that refuse a graph for an unusable \<open>tool_env\<close> name judge alike, so a graph the
  validator accepts also passes the start-up check that runs when validation is switched off.\<close>

theorem preflight_agrees:
  "check_tool_env_names g = None \<longleftrightarrow> check_tool_env_identifiers g = []"
  by (auto simp: check_tool_env_names_def check_tool_env_identifiers_def Let_def)

text \<open>The spelling the diagnostic suggests for a refused name would itself be accepted, whatever the
  name was.\<close>

theorem suggestion_accepted:
  "identifier_suggestion name \<noteq> [] \<and> non_identifier_tool_env_names (PStr (identifier_suggestion name)) = []"
  using suggestion_shape [of name] plain_name_accepted by blast

section \<open>The model stylesheet\<close>

text \<open>C37: The cascade: after the stylesheet has been applied, an attribute a node had keeps its value;
  otherwise it has the value of the last rule of the greatest specificity among those that match the node
  and set it, and stays absent when there is none.\<close>

theorem stylesheet_cascade:
  assumes "apply_stylesheet g (parse_stylesheet css) = Some g'" "dict_get (g_nodes g) k = Some n"
  shows "\<exists>n'. dict_get (g_nodes g') k = Some n'
    \<and> node_attr_get n' p =
        (if node_attr_has n p then node_attr_get n p
         else (case winner (candidates (parse_stylesheet css) n p) of
                 None \<Rightarrow> node_attr_get n p
               | Some (specificity, v) \<Rightarrow> PStr v))"
  using apply_stylesheet_get [OF assms] .

text \<open>Two rules of equal specificity, a universal one and one for another node.\<close>

definition sample_css :: string where
  "sample_css = ''* { llm_model: a; reasoning_effort: low } box { llm_model: b } #k { llm_model: d } box { llm_model : c ; color: red }''"

theorem stylesheet_cascade_witness:
  "\<exists>g' n'. apply_stylesheet (plain_graph [plain_node ''n'' ''box''] []) (parse_stylesheet sample_css) = Some g'
    \<and> dict_get (g_nodes g') ''n'' = Some n' \<and> node_attr_get n' ''llm_model'' = PStr ''c''"
proof -
  let ?g = "plain_graph [plain_node ''n'' ''box''] []" and ?n = "plain_node ''n'' ''box''"
  have "apply_stylesheet ?g (parse_stylesheet sample_css) \<noteq> None" by code_simp
  then obtain g' where g': "apply_stylesheet ?g (parse_stylesheet sample_css) = Some g'" by auto
  have n: "dict_get (g_nodes ?g) ''n'' = Some ?n" by code_simp
  have w: "\<not> node_attr_has ?n ''llm_model''"
    "winner (candidates (parse_stylesheet sample_css) ?n ''llm_model'') = Some (1, ''c'')" by code_simp+
  show ?thesis using stylesheet_cascade [OF g' n, of "''llm_model''"] g' w by auto
qed

end
