(* ===== verification/Dot_Lexer.thy ===== *)
theory Dot_Lexer
  imports Retry
begin

text \<open>
  The lexical half of \<open>dot_parser.py\<close>: comment stripping, the tests on the raw source, the header of a
  digraph, the tokenizer and the values of attributes. A token is the text it was read from, as in the
  source. The regular expressions are deterministic scanners: none of them has two ways to match at a
  position of which the later one could be taken.
\<close>

abbreviation dquote :: char where "dquote \<equiv> CHR 0x22"
abbreviation backslash :: char where "backslash \<equiv> CHR 0x5C"
abbreviation line_feed :: char where "line_feed \<equiv> CHR 0x0A"

section \<open>Comments\<close>

text \<open>The rest of a string literal after its opening quote, and what follows it.\<close>

fun literal_rest :: "string \<Rightarrow> string \<times> string" where
  "literal_rest [] = ([], [])"
| "literal_rest [c] = ([c], [])"
| "literal_rest (c # d # cs) =
     (if c = backslash then (case literal_rest cs of (a, r) \<Rightarrow> (c # d # a, r))
      else if c = dquote then ([c], d # cs)
      else (case literal_rest (d # cs) of (a, r) \<Rightarrow> (c # a, r)))"

lemma literal_rest_append: "literal_rest s = (a, r) \<Longrightarrow> s = a @ r"
  by (induction s arbitrary: a r rule: literal_rest.induct) (auto split: prod.splits if_splits)

lemma literal_rest_length: "(a, r) = literal_rest s \<Longrightarrow> length r < Suc (length s)"
  using literal_rest_append [of s a r] by (auto simp: le_imp_less_Suc)

lemma split1_go_length: "split1_go sep acc s = Some (a, r) \<Longrightarrow> length r \<le> length s"
  by (induction sep acc s rule: split1_go.induct) (auto split: if_splits)

lemma py_split1_length: "py_split1 sep s = Some (a, r) \<Longrightarrow> length r \<le> length s"
  by (simp add: py_split1_def split1_go_length)

function strip_comments :: "string \<Rightarrow> string" where
  "strip_comments [] = []"
| "strip_comments (c # cs) =
     (if c = dquote then
        (case literal_rest cs of (a, r) \<Rightarrow> (c # a) @ strip_comments r)
      else if startswith ''//'' (c # cs) then
        (if line_feed \<in> set cs then strip_comments (dropWhile (\<lambda>d. d \<noteq> line_feed) cs) else [])
      else if startswith ''/*'' (c # cs) then
        (case py_split1 ''*/'' (tl cs) of None \<Rightarrow> [] | Some (a, r) \<Rightarrow> strip_comments r)
      else c # strip_comments cs)"
  by pat_completeness auto
termination
  by (relation "measure length")
    (auto dest!: literal_rest_length py_split1_length simp: length_dropWhile_le le_imp_less_Suc
      intro: le_less_trans [OF _ lessI] le_trans [OF _ diff_le_self])

declare strip_comments.simps(2) [simp del]

text \<open>\<open>--\<close> outside quotes, unless it follows \<open><\<close>. \<open>prev\<close> is the character before the position.\<close>

fun undirected :: "bool \<Rightarrow> char option \<Rightarrow> string \<Rightarrow> bool" where
  "undirected in_string prev [] = False"
| "undirected in_string prev [c] = False"
| "undirected in_string prev (c # d # cs) =
     (if in_string then
        (if c = backslash then undirected True (Some d) cs
         else undirected (c \<noteq> dquote) (Some c) (d # cs))
      else if c = dquote then undirected True (Some c) (d # cs)
      else if c = CHR ''-'' \<and> d = CHR ''-'' then
        (if prev = Some (CHR ''<'') then undirected False (Some d) cs else True)
      else undirected False (Some c) (d # cs))"

definition has_undirected_edges :: "string \<Rightarrow> bool" where
  "has_undirected_edges source = undirected False None source"

section \<open>The header\<close>

text \<open>\<open>re.match(r"word\s+", s, re.IGNORECASE)\<close>.\<close>

definition keyword_start :: "string \<Rightarrow> string \<Rightarrow> bool" where
  "keyword_start word s =
     (py_lower (take (length word) s) = word
      \<and> (case drop (length word) s of [] \<Rightarrow> False | c # cs \<Rightarrow> py_isspace c))"

text \<open>The number of matches of \<open>\bdigraph\b\<close>, ignoring case. A match cannot begin inside another.\<close>

fun count_digraph :: "bool \<Rightarrow> string \<Rightarrow> nat" where
  "count_digraph after_word [] = 0"
| "count_digraph after_word (c # cs) =
     (if \<not> after_word \<and> py_lower (take 7 (c # cs)) = ''digraph''
         \<and> (case drop 7 (c # cs) of [] \<Rightarrow> True | d # ds \<Rightarrow> \<not> re_word d)
      then 1 else 0) + count_digraph (re_word c) cs"

text \<open>\<open>\{(.*)\}\s*$\<close>: the body between the brace at the start and the last closing brace.\<close>

definition braced_body :: "string \<Rightarrow> string option" where
  "braced_body s =
     (case s of
        [] \<Rightarrow> None
      | c # r \<Rightarrow>
          (let t = py_rstrip r
           in if c = CHR ''{'' \<and> t \<noteq> [] \<and> last t = CHR ''}'' then Some (butlast t) else None))"

text \<open>The name and the body of \<open>digraph name { ... }\<close> or \<open>digraph { ... }\<close>.\<close>

definition digraph_header :: "string \<Rightarrow> (string \<times> string) option" where
  "digraph_header cleaned =
     (let s = py_lstrip cleaned; r = drop 7 s; t = py_lstrip r in
      if \<not> startswith ''digraph'' s then None
      else
        (case (if t \<noteq> r \<and> takeWhile re_word t \<noteq> []
               then map_option (\<lambda>b. (takeWhile re_word t, b)) (braced_body (py_lstrip (dropWhile re_word t)))
               else None) of
           Some named \<Rightarrow> Some named
         | None \<Rightarrow> map_option (\<lambda>b. (''unnamed'', b)) (braced_body t)))"

section \<open>Tokens\<close>

text \<open>A quoted string after its opening quote: any character but a quote or a backslash, or a backslash
  and any character but a newline, up to the closing quote.\<close>

fun quoted_rest :: "string \<Rightarrow> (string \<times> string) option" where
  "quoted_rest [] = None"
| "quoted_rest [c] = (if c = dquote then Some ([c], []) else None)"
| "quoted_rest (c # d # cs) =
     (if c = dquote then Some ([c], d # cs)
      else if c = backslash then
        (if d = line_feed then None else map_option (\<lambda>(a, r). (c # d # a, r)) (quoted_rest cs))
      else map_option (\<lambda>(a, r). (c # a, r)) (quoted_rest (d # cs)))"

definition id_start :: "char \<Rightarrow> bool" where
  "id_start c = (is_alpha c \<or> c = CHR ''_'')"

text \<open>The qualified part of an identifier: dots, each followed by a name.\<close>

function qualified_rest :: "string \<Rightarrow> string" where
  "qualified_rest s =
     (if startswith ''.'' s \<and> tl s \<noteq> [] \<and> id_start (hd (tl s))
      then CHR ''.'' # takeWhile is_word (tl s) @ qualified_rest (dropWhile is_word (tl s))
      else [])"
  by pat_completeness auto
termination
proof (relation "measure length", simp)
  fix s :: string
  assume "startswith ''.'' s \<and> tl s \<noteq> [] \<and> id_start (hd (tl s))"
  then have "s \<noteq> []" by auto
  then have "length (tl s) < length s" by simp
  then show "(dropWhile is_word (tl s), s) \<in> measure length"
    using length_dropWhile_le [of is_word "tl s"] by simp
qed

declare qualified_rest.simps [simp del]

definition identifier_at :: "string \<Rightarrow> string option" where
  "identifier_at s =
     (if s \<noteq> [] \<and> id_start (hd s)
      then Some (takeWhile is_word s @ qualified_rest (dropWhile is_word s)) else None)"

definition number_at :: "string \<Rightarrow> string option" where
  "number_at s =
     (let sign = (if startswith ''-'' s then ''-'' else []);
          t = drop (length sign) s; ds = takeWhile is_digit t; r = dropWhile is_digit t
      in if ds \<noteq> [] then
           (if startswith ''.'' r then Some (sign @ ds @ ''.'' @ takeWhile is_digit (tl r)) else Some (sign @ ds))
         else if startswith ''.'' t \<and> takeWhile is_digit (tl t) \<noteq> []
           then Some (sign @ ''.'' @ takeWhile is_digit (tl t))
         else None)"

definition punctuation :: string where
  "punctuation = ''{}[]=,;''"

text \<open>The match of the token pattern at the start of a text, in the order of its alternatives.\<close>

definition lex_at :: "string \<Rightarrow> string option" where
  "lex_at s =
     (case s of
        [] \<Rightarrow> None
      | c # cs \<Rightarrow>
          (case (if c = dquote then quoted_rest cs else None) of
             Some (a, r) \<Rightarrow> Some (c # a)
           | None \<Rightarrow>
               (if startswith ''->'' s then Some ''->''
                else if c \<in> set punctuation then Some [c]
                else (case identifier_at s of
                        Some t \<Rightarrow> Some t
                      | None \<Rightarrow>
                          (case number_at s of
                             Some t \<Rightarrow> Some t
                           | None \<Rightarrow> (if py_isspace c then Some (takeWhile py_isspace s) else None))))))"

lemma lex_at_nonempty: "lex_at s = Some t \<Longrightarrow> t \<noteq> []"
  by (cases s) (auto simp: lex_at_def identifier_at_def number_at_def id_start_def is_word_def Let_def
      split: option.splits if_splits)

text \<open>The gap check: a backslash before a quote among the characters no token took.\<close>

definition gap_error :: "nat \<Rightarrow> string \<Rightarrow> string \<Rightarrow> exc option" where
  "gap_error pos gap s =
     (let k = length (takeWhile (\<lambda>c. c \<noteq> backslash) gap) in
      if k < length gap \<and> startswith [dquote] (drop (k + 1) (gap @ s))
      then Some (value_error (''DOT parse error near position '' @ nat_str (pos - length gap + k)
             @ '': backslash-quote ('' @ quoted [backslash, dquote]
             @ '') cannot be used as an attribute delimiter. Attribute values must use plain double-quotes. Write  condition=\"key=value\"  not  condition=''
             @ [backslash, dquote] @ ''key=value'' @ [backslash, dquote]
             @ ''. Backslash-escapes are only valid INSIDE a quoted string (e.g. tool_command=\"echo ''
             @ [backslash, dquote] @ ''hello'' @ [backslash, dquote, dquote] @ '').''))
      else None)"

function tokens_from :: "nat \<Rightarrow> string \<Rightarrow> string \<Rightarrow> exc + string list" where
  "tokens_from pos gap [] = Inr []"
| "tokens_from pos gap (c # cs) =
     (case lex_at (c # cs) of
        None \<Rightarrow> tokens_from (pos + 1) (gap @ [c]) cs
      | Some t \<Rightarrow>
          (case gap_error pos gap (c # cs) of
             Some e \<Rightarrow> Inl e
           | None \<Rightarrow>
               (case tokens_from (pos + length t) [] (drop (length t) (c # cs)) of
                  Inl e \<Rightarrow> Inl e
                | Inr ts \<Rightarrow> Inr (if py_isspace c then ts else t # ts))))"
  by pat_completeness auto
termination
  by (relation "measure (\<lambda>(pos, gap, s). length s)") (auto dest: lex_at_nonempty)

declare tokens_from.simps(2) [simp del]

definition tokenize :: "string \<Rightarrow> exc + string list" where
  "tokenize body = tokens_from 0 [] body"

section \<open>Values\<close>

definition duration_units :: "(string \<times> int) list" where
  "duration_units = [(''ms'', 1), (''s'', 1000), (''m'', 60000), (''h'', 3600000), (''d'', 86400000)]"

definition int_of_digits :: "string \<Rightarrow> int" where
  "int_of_digits s =
     (if startswith ''-'' s then - int (digits_val 0 (tl s)) else int (digits_val 0 s))"

text \<open>\<open>$\<close> also matches before a final newline.\<close>

definition chomp :: "string \<Rightarrow> string" where
  "chomp s = (if s \<noteq> [] \<and> last s = line_feed then butlast s else s)"

text \<open>The sign and digits at the start of a text, if any, and the rest: \<open>-?\d+\<close>.\<close>

definition signed_digits :: "string \<Rightarrow> (string \<times> string) option" where
  "signed_digits s =
     (let sign = (if startswith ''-'' s then ''-'' else []); t = drop (length sign) s
      in if takeWhile is_digit t = [] then None
         else Some (sign @ takeWhile is_digit t, dropWhile is_digit t))"

definition try_parse_duration :: "string \<Rightarrow> int option" where
  "try_parse_duration s =
     (case signed_digits s of
        None \<Rightarrow> None
      | Some (n, u) \<Rightarrow>
          (case map_of duration_units (chomp u) of
             None \<Rightarrow> None
           | Some f \<Rightarrow> Some (int_of_digits n * f)))"

definition is_quoted :: "string \<Rightarrow> bool" where
  "is_quoted raw = (length raw \<ge> 2 \<and> hd raw = dquote \<and> last raw = dquote)"

definition unquote_key :: "string \<Rightarrow> string" where
  "unquote_key raw = (if is_quoted raw then butlast (tl raw) else raw)"

definition is_bare_integer :: "string \<Rightarrow> bool" where
  "is_bare_integer raw =
     (let s = (if is_quoted raw then butlast (tl raw) else raw)
      in case signed_digits s of None \<Rightarrow> False | Some (n, u) \<Rightarrow> chomp u = [])"

text \<open>\<open>int(raw)\<close> and \<open>float(raw)\<close> of a token: the number it is, if it is one.\<close>

definition number_value :: "string \<Rightarrow> pyval option" where
  "number_value raw =
     (if number_at raw \<noteq> Some raw then None
      else if CHR ''.'' \<in> set raw then
        (let neg = startswith ''-'' raw; t = (if neg then tl raw else raw);
             whole = takeWhile is_digit t; frac = tl (dropWhile is_digit t);
             q = of_nat (digits_val 0 (whole @ frac)) / 10 ^ length frac
         in Some (PFloat (if neg then - q else q)))
      else Some (PInt (int_of_digits raw)))"

definition unescape :: "string \<Rightarrow> string" where
  "unescape inner =
     replace_str [backslash, CHR ''t''] [CHR 0x09]
       (replace_str [backslash, CHR ''n''] [line_feed]
         (replace_str [backslash, dquote] [dquote]
           (replace_str [backslash, backslash] [backslash] inner)))"

definition parse_value :: "string \<Rightarrow> pyval" where
  "parse_value raw =
     (if startswith [dquote] raw \<and> endswith [dquote] raw then
        (let inner = unescape (butlast (tl raw))
         in case try_parse_duration inner of Some d \<Rightarrow> PInt d | None \<Rightarrow> PStr inner)
      else if raw = ''true'' then PBool True
      else if raw = ''false'' then PBool False
      else (case try_parse_duration raw of
              Some d \<Rightarrow> PInt d
            | None \<Rightarrow> (case number_value raw of Some v \<Rightarrow> v | None \<Rightarrow> PStr raw)))"

end
