(* ===== verification/Dot_Parser.thy ===== *)
theory Dot_Parser
  imports Dot_Lexer Checkpoints
begin

text \<open>
  \<open>parse_dot\<close> of \<open>dot_parser.py\<close>: from the source text of a pipeline to its graph. The statements are
  parsed over the rest of the token list where the source keeps an index into it; the two copies of the
  statement loop (\<open>_parse_body\<close> and \<open>_parse_token_list\<close>) are one function. A default that is no text but is
  used as a label, shape, type or prompt is taken as its text, and warnings are left out.
\<close>

section \<open>The parse context\<close>

record pctx =
  pc_nodes :: "node dict"
  pc_edges :: "edge list"
  pc_attrs :: "string dict"
  pc_goal :: string
  pc_retry :: pyval
  pc_stylesheet :: string
  pc_duration :: pyval
  pc_node_defaults :: "pyval dict"
  pc_edge_defaults :: "pyval dict"
  pc_params :: "string dict"

definition pctx_new :: "string dict \<Rightarrow> pctx" where
  "pctx_new params =
     \<lparr>pc_nodes = [], pc_edges = [], pc_attrs = [], pc_goal = [], pc_retry = PInt 0, pc_stylesheet = [],
      pc_duration = PNone, pc_node_defaults = [], pc_edge_defaults = [], pc_params = params\<rparr>"

definition text_attr :: "pyval dict \<Rightarrow> string \<Rightarrow> string \<Rightarrow> string" where
  "text_attr d k dflt = (case dict_get d k of None \<Rightarrow> dflt | Some v \<Rightarrow> py_str v)"

definition node_field_keys :: "string list" where
  "node_field_keys = [''shape'', ''label'', ''type'', ''prompt'']"

definition other_attrs :: "string list \<Rightarrow> pyval dict \<Rightarrow> pyval dict" where
  "other_attrs ks d = fold dict_pop ks d"

text \<open>\<open>Node(...)\<close> with the attributes of a dictionary.\<close>

definition node_of_attrs :: "string \<Rightarrow> pyval dict \<Rightarrow> node" where
  "node_of_attrs i d =
     node_post_init
       \<lparr>n_id = i, n_label = text_attr d ''label'' [], n_shape = text_attr d ''shape'' ''box'',
        n_type = text_attr d ''type'' [], n_prompt = text_attr d ''prompt'' [],
        n_raw = other_attrs node_field_keys d, n_handler_type = [], n_max_retries = PNone,
        n_goal_gate = PNone, n_retry_target = PNone, n_fallback_retry_target = PNone, n_fidelity = PNone,
        n_thread_id = PNone, n_timeout = PNone, n_llm_model = PNone, n_llm_provider = PNone,
        n_reasoning_effort = PNone, n_auto_status = PNone, n_allow_partial = PNone\<rparr>"

definition ensure_node :: "string \<Rightarrow> pctx \<Rightarrow> pctx" where
  "ensure_node i c =
     (if dict_has (pc_nodes c) i then c
      else c\<lparr>pc_nodes := dict_set i (node_of_attrs i (pc_node_defaults c)) (pc_nodes c)\<rparr>)"

section \<open>Attribute blocks\<close>

text \<open>The tokens from an opening bracket to the one that closes it, both included, and the rest. Without
  a closing one the block is everything.\<close>

fun block_of :: "string \<Rightarrow> string \<Rightarrow> nat \<Rightarrow> string list \<Rightarrow> string list \<times> string list" where
  "block_of op cl depth [] = ([], [])"
| "block_of op cl depth (t # ts) =
     (if t = cl \<and> t \<noteq> op \<and> depth = 1 then ([t], ts)
      else (case block_of op cl (if t = op then depth + 1 else if t = cl then depth - 1 else depth) ts of
              (block, rest) \<Rightarrow> (t # block, rest)))"

lemma block_of_append: "block_of op cl d ts = (b, r) \<Longrightarrow> ts = b @ r"
  by (induction op cl d ts arbitrary: b r rule: block_of.induct) (auto split: prod.splits if_splits)

definition attr_value :: "string \<Rightarrow> string \<Rightarrow> pyval" where
  "attr_value key raw =
     (let value = parse_value raw in
      if key = ''timeout'' \<and> is_bare_integer raw
      then (case py_int value of Some i \<Rightarrow> PInt (i * 1000) | None \<Rightarrow> value)
      else value)"

text \<open>The loop over the tokens after the opening bracket, up to the last one of the block.\<close>

fun attr_items :: "string list \<Rightarrow> pyval dict \<Rightarrow> pyval dict" where
  "attr_items (t # u # ts) d =
     (if t = '','' \<or> t = '';'' then attr_items (u # ts) d
      else if u = ''='' then
        (case ts of
           [] \<Rightarrow> d
         | raw # rest \<Rightarrow> attr_items rest (dict_set (unquote_key t) (attr_value (unquote_key t) raw) d))
      else attr_items (u # ts) d)"
| "attr_items _ d = d"

section \<open>Nodes and edges\<close>

text \<open>A node that exists already takes over the merged attributes, then the defaults it has no value
  for.\<close>

definition update_node :: "pyval dict \<Rightarrow> pyval dict \<Rightarrow> pyval dict \<Rightarrow> node \<Rightarrow> node" where
  "update_node defaults explicit merged n =
     (let shape = text_attr merged ''shape'' ''box''; label = text_attr merged ''label'' [];
          ty = text_attr merged ''type'' []; prompt = text_attr merged ''prompt'' [];
          n1 = (if shape \<noteq> ''box'' \<or> dict_has explicit ''shape'' then n\<lparr>n_shape := shape\<rparr> else n);
          n2 = (if label \<noteq> [] then n1\<lparr>n_label := label\<rparr> else n1);
          n3 = (if ty \<noteq> [] then n2\<lparr>n_type := ty\<rparr> else n2);
          n4 = (if prompt \<noteq> [] then n3\<lparr>n_prompt := prompt\<rparr> else n3);
          n5 = foldl (\<lambda>acc (k, v). node_attr_set k v acc) n4 (other_attrs node_field_keys merged)
      in foldl (\<lambda>acc (k, v). if k \<notin> set node_field_keys \<and> \<not> node_attr_has acc k
                              then node_attr_set k v acc else acc) n5 defaults)"

definition apply_node :: "string \<Rightarrow> pyval dict \<Rightarrow> pctx \<Rightarrow> pctx" where
  "apply_node i explicit c =
     (let merged = dict_update (pc_node_defaults c) explicit in
      case dict_get (pc_nodes c) i of
        Some n \<Rightarrow> c\<lparr>pc_nodes := dict_set i (update_node (pc_node_defaults c) explicit merged n) (pc_nodes c)\<rparr>
      | None \<Rightarrow> c\<lparr>pc_nodes := dict_set i (node_of_attrs i merged) (pc_nodes c)\<rparr>)"

definition edge_weight :: "pyval dict \<Rightarrow> exc + rat" where
  "edge_weight d =
     (case raw_get d ''weight'' (PInt 0) of
        PInt i \<Rightarrow> Inr (of_int i)
      | PFloat q \<Rightarrow> Inr q
      | PBool b \<Rightarrow> Inr (if b then 1 else 0)
      | PStr s \<Rightarrow>
          (case py_int (PStr s) of
             Some i \<Rightarrow> Inr (of_int i)
           | None \<Rightarrow> Inl (value_error (''invalid literal for int() with base 10: '' @ repr_str s)))
      | _ \<Rightarrow> Inr 0)"

definition edge_of_attrs :: "string \<Rightarrow> string \<Rightarrow> pyval dict \<Rightarrow> rat \<Rightarrow> edge" where
  "edge_of_attrs a b d weight =
     edge_post_init
       \<lparr>from_node = a, to_node = b, e_label = text_attr d ''label'' [],
        e_condition = text_attr d ''condition'' [], e_weight = weight,
        e_raw = other_attrs [''label'', ''condition'', ''weight''] d,
        e_fidelity = PNone, e_thread_id = PNone, e_loop_restart = PNone\<rparr>"

definition add_edge :: "pyval dict \<Rightarrow> string \<Rightarrow> string \<Rightarrow> pctx \<Rightarrow> exc + pctx" where
  "add_edge attrs a b c =
     (let merged = dict_update (pc_edge_defaults c) attrs; c1 = ensure_node b (ensure_node a c) in
      case edge_weight merged of
        Inl e \<Rightarrow> Inl e
      | Inr w \<Rightarrow> Inr (c1\<lparr>pc_edges := pc_edges c1 @ [edge_of_attrs a b merged w]\<rparr>))"

fun add_chain :: "pyval dict \<Rightarrow> string list \<Rightarrow> pctx \<Rightarrow> exc + pctx" where
  "add_chain attrs (a # b # chain) c =
     (case add_edge attrs a b c of Inl e \<Rightarrow> Inl e | Inr c1 \<Rightarrow> add_chain attrs (b # chain) c1)"
| "add_chain attrs _ c = Inr c"

section \<open>Graph attributes\<close>

text \<open>\<open>^\$([A-Za-z_][A-Za-z0-9_]*)$\<close> on a stripped text.\<close>

definition graph_param_token :: "string \<Rightarrow> string option" where
  "graph_param_token s =
     (case s of
        d # c # cs \<Rightarrow> (if d = CHR 0x24 \<and> id_start c \<and> list_all is_word cs then Some (c # cs) else None)
      | _ \<Rightarrow> None)"

definition missing_param_message :: "string \<Rightarrow> string \<Rightarrow> string" where
  "missing_param_message attr_name name =
     ''Graph attribute '' @ quoted attr_name @ '' references parameter '' @ quoted (CHR 0x24 # name)
     @ '' but no value for '' @ quoted name
     @ '' was supplied. Graph-level parameters are declarative-only -- there is no shell-style default for a missing one and no built-in fallback. Supply ''
     @ quoted name @ '' by the mechanism for the path in use: `--param '' @ name
     @ ''=<value>` on the CLI (e.g. --param '' @ name @ ''=19800s); `config[\"params\"][\"'' @ name
     @ ''\"]` when the orchestrator is mounted; inherited from the parent graph'' @ [CHR 0x27]
     @ ''s params when this graph is composed as a child (shape=folder / dot_file=, or a manager-loop child) -- a child parses with its parent''
     @ [CHR 0x27] @ ''s mapping, so supply it at the PARENT'' @ [CHR 0x27] @ ''s entry point, not here.''"

definition duration_of_text :: "string \<Rightarrow> exc + pyval" where
  "duration_of_text s =
     (case try_parse_duration s of
        Some d \<Rightarrow> Inr (PInt d)
      | None \<Rightarrow>
          (case py_int (PStr s) of
             Some i \<Rightarrow> Inr (PInt i)
           | None \<Rightarrow> Inl (value_error (''invalid literal for int() with base 10: '' @ repr_str s))))"

definition resolve_graph_duration_attr :: "pyval \<Rightarrow> string dict \<Rightarrow> string \<Rightarrow> exc + pyval" where
  "resolve_graph_duration_attr val params attr_name =
     (case val of
        PInt i \<Rightarrow> Inr val
      | PBool b \<Rightarrow> Inr val
      | PStr s \<Rightarrow>
          (case graph_param_token (py_strip s) of
             None \<Rightarrow> duration_of_text s
           | Some name \<Rightarrow>
               (case dict_get params name of
                  None \<Rightarrow> Inl (value_error (missing_param_message attr_name name))
                | Some v \<Rightarrow> duration_of_text v))
      | _ \<Rightarrow> duration_of_text (py_str val))"

definition set_graph_attr :: "string \<Rightarrow> pyval \<Rightarrow> pctx \<Rightarrow> exc + pctx" where
  "set_graph_attr key val c =
     (if key = ''goal'' then Inr (c\<lparr>pc_goal := py_str val\<rparr>)
      else if key = ''default_max_retry'' \<or> key = ''default_max_retries'' then Inr (c\<lparr>pc_retry := val\<rparr>)
      else if key = ''model_stylesheet'' then Inr (c\<lparr>pc_stylesheet := py_str val\<rparr>)
      else if key = ''max_pipeline_duration'' then
        (case resolve_graph_duration_attr val (pc_params c) key of
           Inl e \<Rightarrow> Inl e
         | Inr d \<Rightarrow> Inr (c\<lparr>pc_duration := d\<rparr>))
      else Inr (c\<lparr>pc_attrs := dict_set key (py_str val) (pc_attrs c)\<rparr>))"

fun set_graph_attrs :: "pyval dict \<Rightarrow> pctx \<Rightarrow> exc + pctx" where
  "set_graph_attrs [] c = Inr c"
| "set_graph_attrs ((k, v) # d) c =
     (case set_graph_attr k v c of Inl e \<Rightarrow> Inl e | Inr c1 \<Rightarrow> set_graph_attrs d c1)"

section \<open>Statements\<close>

definition is_identifier :: "string \<Rightarrow> bool" where
  "is_identifier t =
     (case t of
        [] \<Rightarrow> False
      | c # cs \<Rightarrow> id_start c \<and> list_all (\<lambda>d. is_word d \<or> d = CHR ''.'') (chomp cs))"

fun chain_rest :: "string list \<Rightarrow> string list \<times> string list" where
  "chain_rest (t # b # ts) =
     (if t = ''->'' then (case chain_rest ts of (chain, rest) \<Rightarrow> (b # chain, rest)) else ([], t # b # ts))"
| "chain_rest ts = ([], ts)"

text \<open>The optional attribute block at the head of the tokens.\<close>

definition opt_block :: "string list \<Rightarrow> pyval dict \<times> string list" where
  "opt_block ts =
     (if ts \<noteq> [] \<and> hd ts = ''['' then
        (case block_of ''['' '']'' 0 ts of (block, rest) \<Rightarrow> (attr_items (tl block) [], rest))
      else ([], ts))"

definition parse_node_stmt :: "string \<Rightarrow> string list \<Rightarrow> pctx \<Rightarrow> pctx \<times> string list" where
  "parse_node_stmt i ts c = (case opt_block ts of (attrs, rest) \<Rightarrow> (apply_node i attrs c, rest))"

definition parse_edge_stmt :: "string \<Rightarrow> string list \<Rightarrow> pctx \<Rightarrow> exc + pctx \<times> string list" where
  "parse_edge_stmt i ts c =
     (case chain_rest ts of
        (chain, r) \<Rightarrow>
          (case opt_block r of
             (attrs, rest) \<Rightarrow>
               (case add_chain attrs (i # chain) c of Inl e \<Rightarrow> Inl e | Inr c1 \<Rightarrow> Inr (c1, rest))))"

definition index_error :: exc where
  "index_error = PyError ''IndexError'' False ''list index out of range''"

text \<open>A statement that begins with an identifier: an edge, a graph attribute, or a node.\<close>

definition parse_statement :: "string \<Rightarrow> string list \<Rightarrow> pctx \<Rightarrow> exc + pctx \<times> string list" where
  "parse_statement i ts c =
     (if ts \<noteq> [] \<and> hd ts = ''->'' then parse_edge_stmt i ts c
      else if ts \<noteq> [] \<and> hd ts = ''='' then
        (case tl ts of
           [] \<Rightarrow> Inl index_error
         | raw # rest \<Rightarrow>
             (case set_graph_attr i (parse_value raw) c of Inl e \<Rightarrow> Inl e | Inr c1 \<Rightarrow> Inr (c1, rest)))
      else Inr (parse_node_stmt i ts c))"

text \<open>\<open>graph [...]\<close>, \<open>node [...]\<close> and \<open>edge [...]\<close>.\<close>

definition apply_defaults :: "string \<Rightarrow> pyval dict \<Rightarrow> pctx \<Rightarrow> exc + pctx" where
  "apply_defaults kind attrs c =
     (if kind = ''graph'' then set_graph_attrs attrs c
      else if kind = ''node'' then Inr (c\<lparr>pc_node_defaults := dict_update (pc_node_defaults c) attrs\<rparr>)
      else Inr (c\<lparr>pc_edge_defaults := dict_update (pc_edge_defaults c) attrs\<rparr>))"

definition derive_class :: "string \<Rightarrow> string" where
  "derive_class label =
     (let kept = filter (\<lambda>c. is_digit c \<or> c = CHR ''-'' \<or> (is_alpha c \<and> py_lower_char c = c))
                   (map (\<lambda>c. if c = CHR '' '' then CHR ''-'' else c) (py_lower label))
      in rev (dropWhile (\<lambda>c. c = CHR ''-'') (rev (dropWhile (\<lambda>c. c = CHR ''-'') kept))))"

definition give_class :: "string \<Rightarrow> node \<Rightarrow> node" where
  "give_class cls n =
     (if py_true (node_attr_get n ''class'') then n else node_attr_set ''class'' (PStr cls) n)"

text \<open>The end of a subgraph: the label that is among the graph attributes now is taken out and becomes
  the class of the nodes that were not there before (\<open>c0\<close>); the node defaults are restored.\<close>

definition close_subgraph :: "pctx \<Rightarrow> pctx \<Rightarrow> pctx" where
  "close_subgraph c0 c =
     (let cls = (case dict_get (pc_attrs c) ''label'' of None \<Rightarrow> [] | Some l \<Rightarrow> derive_class l)
      in c\<lparr>pc_attrs := dict_pop ''label'' (pc_attrs c),
           pc_nodes := (if cls = [] then pc_nodes c
             else map (\<lambda>(i, n). (i, if dict_has (pc_nodes c0) i then n else give_class cls n)) (pc_nodes c)),
           pc_node_defaults := pc_node_defaults c0\<rparr>)"

section \<open>The statement loop\<close>

lemma opt_block_length: "opt_block ts = (attrs, rest) \<Longrightarrow> length rest \<le> length ts"
  by (auto simp: opt_block_def dest!: block_of_append split: prod.splits if_splits)

lemma chain_rest_length: "chain_rest ts = (chain, rest) \<Longrightarrow> length rest \<le> length ts"
proof (induction ts arbitrary: chain rest rule: chain_rest.induct)
  case (1 t b ts)
  then show ?case by (fastforce split: prod.splits if_splits)
qed simp_all

lemma statement_length: "parse_statement i ts c = Inr (c1, rest) \<Longrightarrow> length rest \<le> length ts"
  by (cases ts)
    (auto simp: parse_statement_def parse_edge_stmt_def parse_node_stmt_def
      dest!: opt_block_length chain_rest_length split: prod.splits sum.splits list.splits if_splits)

text \<open>The optional name after \<open>subgraph\<close>.\<close>

definition skip_name :: "string list \<Rightarrow> string list" where
  "skip_name ts = (if ts \<noteq> [] \<and> is_identifier (hd ts) then tl ts else ts)"

lemma skip_name_length: "length (skip_name ts) < Suc (length ts)"
  by (auto simp: skip_name_def)

lemma block_body_length:
  "(b, r) = block_of op cl d (skip_name ts) \<Longrightarrow> length b - Suc (Suc 0) < Suc (length ts)"
  using block_of_append [of op cl d "skip_name ts" b r] skip_name_length [of ts] by simp

lemma block_rest_length: "(b, r) = block_of op cl d (skip_name ts) \<Longrightarrow> length r < Suc (length ts)"
  using block_of_append [of op cl d "skip_name ts" b r] skip_name_length [of ts] by simp

lemma opt_block_less: "(attrs, rest) = opt_block ts \<Longrightarrow> length rest < Suc (length ts)"
  using opt_block_length [of ts attrs rest] by simp

lemma statement_less: "parse_statement i ts c = Inr z \<Longrightarrow> (c1, rest) = z \<Longrightarrow> length rest < Suc (length ts)"
  using statement_length [of i ts c c1 rest] by auto

function parse_tokens :: "string list \<Rightarrow> pctx \<Rightarrow> exc + pctx" where
  "parse_tokens [] c = Inr c"
| "parse_tokens (t # ts) c =
     (if t = '';'' then parse_tokens ts c
      else if t = ''subgraph'' then
        (if skip_name ts \<noteq> [] \<and> hd (skip_name ts) = ''{'' then
           (case block_of ''{'' ''}'' 0 (skip_name ts) of
              (block, rest) \<Rightarrow>
                (case parse_tokens (butlast (tl block)) c of
                   Inl e \<Rightarrow> Inl e
                 | Inr c1 \<Rightarrow> parse_tokens rest (close_subgraph c c1)))
         else parse_tokens (skip_name ts) c)
      else if t \<in> {''graph'', ''node'', ''edge''} \<and> ts \<noteq> [] \<and> hd ts = ''['' then
        (case opt_block ts of
           (attrs, rest) \<Rightarrow>
             (case apply_defaults t attrs c of Inl e \<Rightarrow> Inl e | Inr c1 \<Rightarrow> parse_tokens rest c1))
      else if is_identifier t then
        (case parse_statement t ts c of Inl e \<Rightarrow> Inl e | Inr (c1, rest) \<Rightarrow> parse_tokens rest c1)
      else parse_tokens ts c)"
  by pat_completeness auto
termination
  by (relation "measure (\<lambda>(ts, c). length ts)")
    (simp_all add: block_body_length block_rest_length opt_block_less statement_less skip_name_length)

section \<open>parse_dot\<close>

definition graph_of_pctx :: "string \<Rightarrow> string \<Rightarrow> pctx \<Rightarrow> graph" where
  "graph_of_pctx source name c =
     graph_post_init
       \<lparr>g_name = name, g_nodes = pc_nodes c, g_edges = pc_edges c, g_goal = pc_goal c,
        g_dot_source = source, g_default_max_retry = pc_retry c, g_model_stylesheet = pc_stylesheet c,
        g_source_dir = [], g_raw = map (\<lambda>(k, v). (k, PStr v)) (pc_attrs c), g_retry_target = PNone,
        g_fallback_retry_target = PNone, g_default_fidelity = PNone, g_label = PNone,
        g_max_pipeline_duration = pc_duration c\<rparr>"

text \<open>The refusals before the body is looked at.\<close>

definition source_error :: "string \<Rightarrow> exc option" where
  "source_error cleaned =
     (if keyword_start ''strict'' (py_strip cleaned)
      then Some (value_error (''strict modifier is not supported; use plain '' @ quoted ''digraph''))
      else if keyword_start ''graph'' (py_strip cleaned)
      then Some (value_error (''Only digraph is supported; undirected '' @ quoted ''graph'' @ '' is rejected''))
      else if has_undirected_edges cleaned
      then Some (value_error ''Undirected edges (--) are not supported; use directed edges (->)'')
      else if count_digraph False cleaned > 1
      then Some (value_error (''Multiple digraph definitions found ('' @ nat_str (count_digraph False cleaned)
             @ ''); only a single digraph per source is supported''))
      else None)"

definition parse_dot :: "string \<Rightarrow> string dict \<Rightarrow> exc + graph" where
  "parse_dot source params =
     (let cleaned = strip_comments source in
      case source_error cleaned of
        Some e \<Rightarrow> Inl e
      | None \<Rightarrow>
          (case digraph_header cleaned of
             None \<Rightarrow> Inl (value_error (''Could not parse DOT source; expected '' @ quoted ''digraph name { ... }''))
           | Some (name, body) \<Rightarrow>
               (case tokenize body of
                  Inl e \<Rightarrow> Inl e
                | Inr tokens \<Rightarrow>
                    (case parse_tokens tokens (pctx_new params) of
                       Inl e \<Rightarrow> Inl e
                     | Inr c \<Rightarrow> Inr (graph_of_pctx source name c)))))"

end
