(* ===== verification/Dot_Facts.thy ===== *)
theory Dot_Facts
  imports Dot_Parser Validation_Facts
begin

text \<open>
  Lemmas on the DOT parser: the tokenizer reads back its own tokens whatever the layout, and the statement
  loop keeps the invariant of the parse context, so that what \<open>parse_dot\<close> returns is a well-formed graph;
  the transforms keep it one.
\<close>

section \<open>Scanners before a blank\<close>

lemma takeWhile_sep: "\<not> P c \<Longrightarrow> takeWhile P (u @ c # r) = takeWhile P u"
  by (induction u) auto

lemma dropWhile_sep: "\<not> P c \<Longrightarrow> dropWhile P (u @ c # r) = dropWhile P u @ c # r"
  by (induction u) auto

lemma startswith_sep: "p \<noteq> [] \<Longrightarrow> c \<notin> set p \<Longrightarrow> startswith p (u @ c # r) \<longleftrightarrow> startswith p u"
proof (induction p u rule: startswith.induct)
  case (2 p ps)
  then show ?case by auto
next
  case (3 p ps d cs)
  then show ?case by (cases "ps = []") auto
qed simp

lemma blank_class [simp]: "\<not> is_word (CHR '' '')" "\<not> is_digit (CHR '' '')" "\<not> id_start (CHR '' '')"
  "py_isspace (CHR '' '')"
  by (simp_all add: is_word_def is_alpha_def is_digit_def id_start_def py_isspace_def)

lemma quoted_rest_prefix: "quoted_rest s = Some (a, r) \<Longrightarrow> s = a @ r \<and> a \<noteq> [] \<and> quoted_rest (a @ x) = Some (a, x)"
proof (induction s arbitrary: a r rule: quoted_rest.induct)
  case (2 c)
  then show ?case by (cases x) (auto split: if_splits)
next
  case (3 c d cs)
  consider (q) "c = dquote" | (e) "c \<noteq> dquote" "c = backslash" | (o) "c \<noteq> dquote" "c \<noteq> backslash" by blast
  then show ?case
  proof cases
    case q
    then show ?thesis using 3(3) by (cases x) auto
  next
    case e
    then obtain a1 where a1: "quoted_rest cs = Some (a1, r)" "a = c # d # a1" "d \<noteq> line_feed"
      using 3(3) by (auto split: if_splits)
    then show ?thesis using 3(1) [OF e a1(3), of a1 r] e by simp
  next
    case o
    then obtain a1 where a1: "quoted_rest (d # cs) = Some (a1, r)" "a = c # a1"
      using 3(3) by auto
    then have IH: "d # cs = a1 @ r \<and> a1 \<noteq> [] \<and> quoted_rest (a1 @ x) = Some (a1, x)"
      using 3(2) [OF o, of a1 r] by simp
    then obtain b bs where "a1 = b # bs" by (cases a1) auto
    then show ?thesis using IH a1 o by simp
  qed
qed simp

lemma qualified_rest_sep: "qualified_rest (u @ CHR '' '' # r) = qualified_rest u"
proof (induction u rule: qualified_rest.induct)
  case (1 u)
  show ?case
  proof (cases "startswith ''.'' u \<and> tl u \<noteq> [] \<and> id_start (hd (tl u))")
    case True
    then have "u \<noteq> []" by auto
    then show ?thesis using True 1 [OF True]
      by (subst (1 2) qualified_rest.simps) (auto simp: takeWhile_sep dropWhile_sep startswith_sep)
  next
    case False
    then have "\<not> (startswith ''.'' (u @ CHR '' '' # r) \<and> tl (u @ CHR '' '' # r) \<noteq> []
        \<and> id_start (hd (tl (u @ CHR '' '' # r))))"
      by (cases u; cases "tl u") auto
    then show ?thesis using False by (subst (1 2) qualified_rest.simps) simp
  qed
qed

lemma identifier_at_sep: "t \<noteq> [] \<Longrightarrow> identifier_at (t @ CHR '' '' # r) = identifier_at t"
  by (simp add: identifier_at_def takeWhile_sep dropWhile_sep qualified_rest_sep)

lemma number_at_sep: "t \<noteq> [] \<Longrightarrow> number_at (t @ CHR '' '' # r) = number_at t"
proof -
  assume t: "t \<noteq> []"
  have d: "startswith ''-'' (t @ CHR '' '' # r) = startswith ''-'' t" by (rule startswith_sep) simp_all
  have p: "startswith ''.'' (u @ CHR '' '' # r) = startswith ''.'' u" for u by (rule startswith_sep) simp_all
  have tl: "startswith ''.'' u \<Longrightarrow> tl (u @ CHR '' '' # r) = tl u @ CHR '' '' # r" for u by (cases u) auto
  show ?thesis
    using t by (cases t) (auto simp: number_at_def Let_def d p tl takeWhile_sep dropWhile_sep)
qed

text \<open>A token is a text the pattern takes whole and that is no blank.\<close>

definition is_token :: "string \<Rightarrow> bool" where
  "is_token t = (lex_at t = Some t \<and> \<not> py_isspace (hd t))"

lemma dquote_class: "\<not> is_word dquote" "\<not> id_start dquote" "\<not> is_digit dquote" "\<not> py_isspace dquote"
  "dquote \<notin> set punctuation"
  by (simp_all add: is_word_def is_alpha_def is_digit_def id_start_def py_isspace_def punctuation_def)

lemma lex_at_dquote: "lex_at (dquote # cs) = map_option (\<lambda>(a, r). dquote # a) (quoted_rest cs)"
  by (auto simp: lex_at_def identifier_at_def number_at_def dquote_class Let_def split: option.split)

lemma lex_at_other:
  "c \<noteq> dquote \<Longrightarrow> lex_at (c # cs) =
     (if startswith ''->'' (c # cs) then Some ''->''
      else if c \<in> set punctuation then Some [c]
      else (case identifier_at (c # cs) of
              Some t \<Rightarrow> Some t
            | None \<Rightarrow>
                (case number_at (c # cs) of
                   Some t \<Rightarrow> Some t
                 | None \<Rightarrow> if py_isspace c then Some (takeWhile py_isspace (c # cs)) else None)))"
  by (simp add: lex_at_def)

lemma lex_at_sep:
  assumes "is_token t"
  shows "lex_at (t @ CHR '' '' # r) = Some t"
proof -
  have lex: "lex_at t = Some t" and nb: "\<not> py_isspace (hd t)" using assms by (simp_all add: is_token_def)
  obtain c cs where t: "t = c # cs" using lex_at_nonempty [OF lex] by (cases t) auto
  show ?thesis
  proof (cases "c = dquote")
    case True
    then obtain r1 where "quoted_rest cs = Some (cs, r1)" using lex t by (auto simp: lex_at_dquote)
    from quoted_rest_prefix [OF this] show ?thesis using t True by (simp add: lex_at_dquote)
  next
    case False
    have s: "startswith ''->'' (c # cs @ CHR '' '' # r) = startswith ''->'' (c # cs)"
      using startswith_sep [of "''->''" "CHR '' ''" "c # cs" r] by simp
    have i: "identifier_at (c # cs @ CHR '' '' # r) = identifier_at (c # cs)"
      "number_at (c # cs @ CHR '' '' # r) = number_at (c # cs)"
      using identifier_at_sep [of "c # cs"] number_at_sep [of "c # cs"] by simp_all
    have "\<not> py_isspace c" using nb t by simp
    then have "lex_at (c # cs @ CHR '' '' # r) = lex_at (c # cs)"
      by (simp only: lex_at_other [OF False] s i if_False)
    then show ?thesis using lex t by simp
  qed
qed

section \<open>A match is a token\<close>

lemma takeWhile_all: "takeWhile P (takeWhile P u) = takeWhile P u" "dropWhile P (takeWhile P u) = []"
  by (induction u) auto

lemma takeWhile_idem_append:
  assumes "q = [] \<or> \<not> P (hd q)"
  shows "takeWhile P (takeWhile P u @ q) = takeWhile P u" "dropWhile P (takeWhile P u @ q) = q"
  using assms by (cases q; simp add: takeWhile_sep dropWhile_sep takeWhile_all)+

lemma not_word_dot: "\<not> is_word (CHR ''.'')" "\<not> is_digit (CHR ''.'')"
  by (simp_all add: is_word_def is_alpha_def is_digit_def)

lemma qualified_rest_dot: "qualified_rest u = [] \<or> hd (qualified_rest u) = CHR ''.''"
  by (subst (1 2) qualified_rest.simps) simp

lemma word_head:
  assumes "u \<noteq> []" "id_start (hd u)"
  shows "takeWhile is_word u \<noteq> []" "hd (takeWhile is_word u) = hd u"
proof -
  obtain c cs where u: "u = c # cs" using assms(1) by (cases u) auto
  then have "is_word c" using assms(2) by (auto simp: id_start_def is_word_def)
  then show "takeWhile is_word u \<noteq> []" "hd (takeWhile is_word u) = hd u" by (simp_all add: u)
qed

lemma qualified_rest_idem: "qualified_rest (qualified_rest u) = qualified_rest u"
proof (induction u rule: qualified_rest.induct)
  case (1 u)
  show ?case
  proof (cases "startswith ''.'' u \<and> tl u \<noteq> [] \<and> id_start (hd (tl u))")
    case True
    let ?w = "takeWhile is_word (tl u)" and ?q = "qualified_rest (dropWhile is_word (tl u))"
    have w: "?w \<noteq> []" "id_start (hd ?w)" using True word_head [of "tl u"] by metis+
    have q: "?q = [] \<or> \<not> is_word (hd ?q)"
      using qualified_rest_dot [of "dropWhile is_word (tl u)"] not_word_dot by metis
    note tw = takeWhile_idem_append [of _ is_word, OF q, of "tl u"]
    have "qualified_rest u = CHR ''.'' # ?w @ ?q" using True by (subst qualified_rest.simps) simp
    moreover have "qualified_rest (CHR ''.'' # ?w @ ?q) = CHR ''.'' # ?w @ ?q"
      using w tw 1 [OF True] by (subst qualified_rest.simps) (simp add: hd_append)
    ultimately show ?thesis by simp
  next
    case False
    then have "qualified_rest u = []" by (subst qualified_rest.simps) simp
    then show ?thesis by (simp add: qualified_rest.simps [of "[]"])
  qed
qed

lemma identifier_at_idem: "identifier_at s = Some t \<Longrightarrow> identifier_at t = Some t"
proof -
  assume "identifier_at s = Some t"
  then have s: "s \<noteq> []" "id_start (hd s)" and t: "t = takeWhile is_word s @ qualified_rest (dropWhile is_word s)"
    by (auto simp: identifier_at_def split: if_splits)
  let ?q = "qualified_rest (dropWhile is_word s)"
  have q: "?q = [] \<or> \<not> is_word (hd ?q)"
    using qualified_rest_dot [of "dropWhile is_word s"] not_word_dot by metis
  have "t \<noteq> []" "id_start (hd t)" using word_head [OF s] s(2) t by (simp_all add: hd_append)
  then show "identifier_at t = Some t"
    using takeWhile_idem_append [of _ is_word, OF q, of s] qualified_rest_idem t by (simp add: identifier_at_def)
qed

lemma number_at_idem: "number_at s = Some t \<Longrightarrow> number_at t = Some t"
proof -
  assume n: "number_at s = Some t"
  define sign where "sign = (if startswith ''-'' s then ''-'' else [])"
  define u where "u = drop (length sign) s"
  let ?ds = "takeWhile is_digit u" and ?r = "dropWhile is_digit u"
  have nodash: "\<not> is_digit (CHR ''-'')" by (simp add: is_digit_def)
  have dash: "startswith ''-'' (sign @ v) \<longleftrightarrow> sign \<noteq> []" "sign = [] \<or> sign = ''-''"
    if "v \<noteq> [] \<and> hd v \<noteq> CHR ''-''" for v
    using that by (cases v; auto simp: sign_def)+
  consider (whole) "?ds \<noteq> []" "\<not> startswith ''.'' ?r" "t = sign @ ?ds"
    | (frac) "?ds \<noteq> []" "startswith ''.'' ?r" "t = sign @ ?ds @ ''.'' @ takeWhile is_digit (tl ?r)"
    | (dot) "?ds = []" "takeWhile is_digit (tl u) \<noteq> []" "t = sign @ ''.'' @ takeWhile is_digit (tl u)"
    using n by (fastforce simp: number_at_def Let_def sign_def [symmetric] u_def [symmetric] split: if_splits)
  then show ?thesis
  proof cases
    case whole
    have "hd ?ds \<noteq> CHR ''-''" using whole(1) nodash hd_in_set set_takeWhileD by metis
    then have "startswith ''-'' t \<longleftrightarrow> sign \<noteq> []" using dash(1) [of ?ds] whole by simp
    then show ?thesis using whole dash(2) [of ?ds] \<open>hd ?ds \<noteq> CHR ''-''\<close>
      by (auto simp: number_at_def Let_def takeWhile_all)
  next
    case frac
    let ?v = "?ds @ CHR ''.'' # takeWhile is_digit (tl ?r)"
    have "hd ?v \<noteq> CHR ''-''" using frac(1) nodash hd_in_set set_takeWhileD hd_append by metis
    then have sg: "startswith ''-'' (sign @ ?v) \<longleftrightarrow> sign \<noteq> []" "sign = [] \<or> sign = ''-''"
      using dash [of ?v] by simp_all
    have tk: "takeWhile is_digit ?v = ?ds" "dropWhile is_digit ?v = CHR ''.'' # takeWhile is_digit (tl ?r)"
      using not_word_dot(2) by (simp_all add: takeWhile_sep dropWhile_sep takeWhile_all)
    show ?thesis using sg frac tk by (auto simp: number_at_def Let_def takeWhile_all)
  next
    case dot
    let ?v = "CHR ''.'' # takeWhile is_digit (tl u)"
    have sg: "startswith ''-'' (sign @ ?v) \<longleftrightarrow> sign \<noteq> []" "sign = [] \<or> sign = ''-''"
      using dash [of ?v] by simp_all
    show ?thesis using sg dot not_word_dot(2) by (auto simp: number_at_def Let_def takeWhile_all)
  qed
qed

text \<open>A match that is no blank is a token by itself.\<close>

lemma identifier_head: "identifier_at (c # cs) = Some t \<Longrightarrow> \<exists>ts. t = c # ts"
  by (auto simp: identifier_at_def id_start_def is_word_def split: if_splits)

lemma number_head: "number_at (c # cs) = Some t \<Longrightarrow> \<exists>ts. t = c # ts"
  by (auto simp: number_at_def Let_def split: if_splits)

lemma number_dash: "number_at (CHR ''-'' # cs) = Some (CHR ''-'' # ts) \<Longrightarrow> \<not> startswith ''>'' ts"
proof -
  assume n: "number_at (CHR ''-'' # cs) = Some (CHR ''-'' # ts)"
  have "startswith ''>'' ts \<Longrightarrow> False"
  proof (cases "takeWhile is_digit cs")
    case Nil
    then show "startswith ''>'' ts \<Longrightarrow> False"
      using n by (auto simp: number_at_def Let_def is_digit_def split: if_splits)
  next
    case (Cons d ds)
    then have "is_digit d" using set_takeWhileD [of d is_digit cs] by simp
    moreover have "ts \<noteq> [] \<and> hd ts = d"
      using n by (auto simp: number_at_def Let_def Cons split: if_splits)
    ultimately show "startswith ''>'' ts \<Longrightarrow> False"
      by (cases ts) (auto simp: is_digit_def)
  qed
  then show ?thesis by blast
qed

lemma not_arrow:
  assumes "identifier_at (c # cs) = Some (c # ts) \<or> number_at (c # cs) = Some (c # ts)"
  shows "startswith ''->'' (c # ts) = False"
proof (cases "c = CHR ''-''")
  case True
  have "identifier_at (CHR ''-'' # cs) = None"
    by (simp add: identifier_at_def id_start_def is_alpha_def)
  then have "\<not> startswith ''>'' ts" using number_dash assms True by auto
  then show ?thesis using True by simp
qed simp

lemma lex_at_token:
  assumes "lex_at s = Some t" "\<not> py_isspace (hd s)"
  shows "is_token t"
proof -
  obtain c cs where s: "s = c # cs" using assms(1) by (cases s) (auto simp: lex_at_def)
  show ?thesis
  proof (cases "c = dquote")
    case True
    then obtain a r where a: "quoted_rest cs = Some (a, r)" "t = dquote # a"
      using assms(1) s by (auto simp: lex_at_dquote)
    have "quoted_rest a = Some (a, [])" using quoted_rest_prefix [OF a(1), of "[]"] by simp
    then show ?thesis using a(2) dquote_class by (simp add: is_token_def lex_at_dquote)
  next
    case False
    have nb: "py_isspace c = False" using assms(2) s by simp
    consider (arrow) "t = ''->''" | (punct) "(c \<in> set punctuation) = True" "t = [c]"
      | (ident) "(c \<in> set punctuation) = False" "identifier_at s = Some t"
      | (number) "(c \<in> set punctuation) = False" "identifier_at s = None" "number_at s = Some t"
      using assms(1) nb unfolding s lex_at_other [OF False] by (fastforce split: option.splits if_splits)
    then show ?thesis
    proof cases
      case arrow
      show ?thesis unfolding arrow is_token_def by code_simp
    next
      case punct
      then show ?thesis using nb False by (simp add: is_token_def lex_at_other)
    next
      case ident
      then obtain ts where t: "t = c # ts" using identifier_head s by blast
      have "lex_at (c # ts) = Some (c # ts)"
        using identifier_at_idem [OF ident(2)] not_arrow [of c cs ts, OF disjI1] ident s t
        by (simp only: lex_at_other [OF False] if_False option.case)
      then show ?thesis using nb t by (simp add: is_token_def)
    next
      case number
      then obtain ts where t: "t = c # ts" using number_head s by blast
      have i: "identifier_at (c # ts) = None" using number(2) s by (auto simp: identifier_at_def split: if_splits)
      have "lex_at (c # ts) = Some (c # ts)"
        using number_at_idem [OF number(3)] not_arrow [of c cs ts, OF disjI2] number i s t
        by (simp only: lex_at_other [OF False] if_False option.case)
      then show ?thesis using nb t by (simp add: is_token_def)
    qed
  qed
qed

section \<open>Tokens written with blanks\<close>

lemma no_gap [simp]: "gap_error pos [] s = None"
  by (simp add: gap_error_def)

lemma token_head: "is_token t \<Longrightarrow> \<exists>c cs. t = c # cs \<and> \<not> py_isspace c"
  using lex_at_nonempty by (cases t) (auto simp: is_token_def)

lemma tokens_from_token:
  assumes "is_token t"
  shows "tokens_from pos [] (t @ CHR '' '' # r) =
      (case tokens_from (pos + length t) [] (CHR '' '' # r) of Inl e \<Rightarrow> Inl e | Inr ts \<Rightarrow> Inr (t # ts))"
    and "tokens_from pos [] t = Inr [t]"
proof -
  obtain c cs where t: "t = c # cs" "\<not> py_isspace c" using token_head [OF assms] by blast
  have drop: "drop (length t) (t @ CHR '' '' # r) = CHR '' '' # r" by simp
  have "tokens_from pos [] (t @ CHR '' '' # r) =
      (case tokens_from (pos + length t) [] (drop (length t) (t @ CHR '' '' # r)) of
         Inl e \<Rightarrow> Inl e | Inr ts \<Rightarrow> Inr (t # ts))"
    using lex_at_sep [OF assms, of r] t
    by (simp only: append_Cons tokens_from.simps(2) no_gap option.case if_False)
  then show "tokens_from pos [] (t @ CHR '' '' # r) =
      (case tokens_from (pos + length t) [] (CHR '' '' # r) of Inl e \<Rightarrow> Inl e | Inr ts \<Rightarrow> Inr (t # ts))"
    unfolding drop .
  show "tokens_from pos [] t = Inr [t]"
    using assms t by (simp add: tokens_from.simps(2) is_token_def)
qed

lemma tokens_from_blank:
  assumes "\<not> py_isspace c"
  shows "tokens_from pos [] (CHR '' '' # c # r) = tokens_from (pos + 1) [] (c # r)"
proof -
  have "lex_at (CHR '' '' # c # r) = Some '' ''"
    using assms by (simp add: lex_at_other punctuation_def identifier_at_def number_at_def)
  then show ?thesis
    by (simp add: tokens_from.simps(2) [of pos "[]" "CHR '' ''"] split: sum.split)
qed

lemma tokens_from_join: "list_all is_token ts \<Longrightarrow> tokens_from pos [] (py_join '' '' ts) = Inr ts"
proof (induction ts arbitrary: pos)
  case (Cons t ts)
  show ?case
  proof (cases ts)
    case Nil
    then show ?thesis using Cons tokens_from_token(2) by simp
  next
    case (Cons u us)
    then obtain c cs where j: "py_join '' '' ts = c # cs" "\<not> py_isspace c"
      using Cons.prems token_head [of u] by (cases us) auto
    have "tokens_from (pos + length t) [] (CHR '' '' # py_join '' '' ts) = Inr ts"
      using Cons.IH [of "pos + length t + 1"] Cons.prems j tokens_from_blank [of c] by simp
    then show ?thesis using Cons Cons.prems tokens_from_token(1) [of t] by simp
  qed
qed simp

lemma tokens_are_tokens: "tokens_from pos gap s = Inr ts \<Longrightarrow> list_all is_token ts"
proof (induction pos gap s arbitrary: ts rule: tokens_from.induct)
  case (2 pos gap c cs)
  show ?case
  proof (cases "lex_at (c # cs)")
    case None
    then show ?thesis using 2 by (simp add: tokens_from.simps(2) [of pos gap])
  next
    case (Some t)
    then obtain us where us: "tokens_from (pos + length t) [] (drop (length t) (c # cs)) = Inr us"
      "ts = (if py_isspace c then us else t # us)" "gap_error pos gap (c # cs) = None"
      using 2(3) by (auto simp: tokens_from.simps(2) [of pos gap] split: option.splits sum.splits if_splits)
    then show ?thesis using 2(2) [OF Some us(3,1)] lex_at_token [OF Some] by simp
  qed
qed simp

section \<open>The shape of the parse context\<close>

lemma dict_has_set [simp]: "dict_has (dict_set k v d) i \<longleftrightarrow> i = k \<or> dict_has d i"
  by (simp add: dict_has_iff)

lemma set_dict_set: "(i, n) \<in> set (dict_set k v d) \<Longrightarrow> (i = k \<and> n = v) \<or> (i, n) \<in> set d"
  by (induction d) (auto split: if_splits)

lemma dict_has_map [simp]: "dict_has (map (\<lambda>(k, v). (k, f k v)) d) i \<longleftrightarrow> dict_has d i"
  by (induction d) (auto simp: dict_has_def)

text \<open>A node dictionary is keyed by the ids of its nodes.\<close>

definition keyed :: "node dict \<Rightarrow> bool" where
  "keyed d = (dict_ok d \<and> (\<forall>(k, n) \<in> set d. n_id n = k))"

lemma keyed_Nil [intro, simp]: "keyed []"
  by (simp add: keyed_def)

lemma keyed_set [intro]: "keyed d \<Longrightarrow> n_id n = k \<Longrightarrow> keyed (dict_set k n d)"
  by (auto simp: keyed_def dest!: set_dict_set)

lemma keyed_map [intro]: "keyed d \<Longrightarrow> (\<And>i n. n_id (f i n) = n_id n) \<Longrightarrow> keyed (map (\<lambda>(k, n). (k, f k n)) d)"
  by (auto simp: keyed_def dict_ok_def comp_def split_def)

lemma keyed_get: "keyed d \<Longrightarrow> dict_get d k = Some n \<Longrightarrow> n_id n = k"
  by (auto simp: keyed_def dest!: map_of_SomeD)

lemma well_keyed_iff: "well_keyed g = keyed (g_nodes g)"
  by (simp add: well_keyed_def keyed_def)

lemma node_promote_id: "n_id (node_promote k n) = n_id n"
  by (simp add: node_promote_def node_set_field_def Let_def split: option.split)

lemma node_post_init_id: "n_id (node_post_init n) = n_id n"
proof -
  have "n_id (fold node_promote ks m) = n_id m" for ks m
    by (induction ks arbitrary: m) (simp_all add: node_promote_id)
  then show ?thesis by (simp add: node_post_init_def)
qed

lemma node_of_attrs_id [simp]: "n_id (node_of_attrs i d) = i"
  by (simp add: node_of_attrs_def node_post_init_id)

lemma foldl_keeps: "(\<And>x a. f (g a x) = f a) \<Longrightarrow> f (foldl g a xs) = f a"
  by (induction xs arbitrary: a) simp_all

lemma update_node_id [simp]: "n_id (update_node defaults explicit merged n) = n_id n"
  unfolding update_node_def Let_def
  by (subst foldl_keeps [where f = n_id], simp add: node_attr_set_frame split: prod.split)+
    (simp add: node_attr_set_frame)

lemma give_class_id [simp]: "n_id (give_class cls n) = n_id n"
  by (simp add: give_class_def node_attr_set_frame)

lemma edge_promote_ends: "from_node (edge_promote k e) = from_node e \<and> to_node (edge_promote k e) = to_node e"
  by (simp add: edge_promote_def edge_set_field_def Let_def split: option.split)

lemma edge_of_attrs_ends [simp]: "from_node (edge_of_attrs a b d w) = a" "to_node (edge_of_attrs a b d w) = b"
proof -
  have "from_node (fold edge_promote ks e) = from_node e \<and> to_node (fold edge_promote ks e) = to_node e" for ks e
    by (induction ks arbitrary: e) (simp_all add: edge_promote_ends)
  then show "from_node (edge_of_attrs a b d w) = a" "to_node (edge_of_attrs a b d w) = b"
    by (simp_all add: edge_of_attrs_def edge_post_init_def)
qed

section \<open>Invariants of the statement loop\<close>

text \<open>What every kind of statement keeps, the loop over the statements keeps, subgraphs included.\<close>

locale statement_invariant =
  fixes J :: "pctx \<Rightarrow> bool"
  assumes node: "J c \<Longrightarrow> J (apply_node i attrs c)"
    and edge: "J c \<Longrightarrow> add_edge attrs a b c = Inr c' \<Longrightarrow> J c'"
    and attribute: "J c \<Longrightarrow> set_graph_attr k v c = Inr c' \<Longrightarrow> J c'"
    and node_defaults: "J c \<Longrightarrow> J (c\<lparr>pc_node_defaults := d\<rparr>)"
    and edge_defaults: "J c \<Longrightarrow> J (c\<lparr>pc_edge_defaults := d\<rparr>)"
    and subgraph: "J c \<Longrightarrow> J c' \<Longrightarrow> J (close_subgraph c c')"
begin

lemma chain: "add_chain attrs ids c = Inr c' \<Longrightarrow> J c \<Longrightarrow> J c'"
  by (induction attrs ids c rule: add_chain.induct) (auto split: sum.splits dest: edge)

lemma attributes: "set_graph_attrs d c = Inr c' \<Longrightarrow> J c \<Longrightarrow> J c'"
  by (induction d c rule: set_graph_attrs.induct) (auto split: sum.splits dest: attribute)

lemma defaults: "apply_defaults kind attrs c = Inr c' \<Longrightarrow> J c \<Longrightarrow> J c'"
  by (auto simp: apply_defaults_def split: if_splits dest: attributes intro: node_defaults edge_defaults)

lemma statement: "parse_statement i ts c = Inr (c', rest) \<Longrightarrow> J c \<Longrightarrow> J c'"
  by (auto simp: parse_statement_def parse_edge_stmt_def parse_node_stmt_def
      split: prod.splits sum.splits list.splits if_splits dest: chain attribute intro: node)

theorem loop: "parse_tokens ts c = Inr c' \<Longrightarrow> J c \<Longrightarrow> J c'"
proof (induction ts c arbitrary: c' rule: parse_tokens.induct)
  case (2 t ts c)
  consider (semi) "t = '';''"
    | (sub) "t \<noteq> '';''" "t = ''subgraph''" "skip_name ts \<noteq> [] \<and> hd (skip_name ts) = ''{''"
    | (nosub) "t \<noteq> '';''" "t = ''subgraph''" "\<not> (skip_name ts \<noteq> [] \<and> hd (skip_name ts) = ''{'')"
    | (dflt) "t \<noteq> '';''" "t \<noteq> ''subgraph''" "t \<in> {''graph'', ''node'', ''edge''} \<and> ts \<noteq> [] \<and> hd ts = ''[''"
    | (stmt) "t \<noteq> '';''" "t \<noteq> ''subgraph''" "\<not> (t \<in> {''graph'', ''node'', ''edge''} \<and> ts \<noteq> [] \<and> hd ts = ''['')"
        "is_identifier t"
    | (skip) "t \<noteq> '';''" "t \<noteq> ''subgraph''" "\<not> (t \<in> {''graph'', ''node'', ''edge''} \<and> ts \<noteq> [] \<and> hd ts = ''['')"
        "\<not> is_identifier t"
    by atomize_elim satx
  then show ?case
  proof cases
    case semi
    then have "parse_tokens ts c = Inr c'" using 2(8) by simp
    then show ?thesis using 2(1) [OF semi] 2(9) by blast
  next
    case sub
    obtain block rest where b: "(block, rest) = block_of ''{'' ''}'' 0 (skip_name ts)"
        by (metis prod.exhaust)
    then obtain c1 where c1: "parse_tokens (butlast (tl block)) c = Inr c1"
      "parse_tokens rest (close_subgraph c c1) = Inr c'"
      using 2(8) sub unfolding parse_tokens.simps(2) [of t] b [symmetric] by (simp split: sum.splits)
    then show ?thesis using 2(2,3) [OF sub b] c1 2(9) subgraph by blast
  next
    case nosub
    then have "parse_tokens (skip_name ts) c = Inr c'" using 2(8) by auto
    then show ?thesis using 2(4) [OF nosub] 2(9) by blast
  next
    case dflt
    obtain attrs rest where b: "(attrs, rest) = opt_block ts" by (metis prod.exhaust)
    obtain c1 where c1: "apply_defaults t attrs c = Inr c1" "parse_tokens rest c1 = Inr c'"
      using 2(8) dflt unfolding parse_tokens.simps(2) [of t] b [symmetric] by (simp split: sum.splits)
    then show ?thesis using 2(5) [OF dflt b c1(1)] defaults 2(9) by blast
  next
    case stmt
    obtain c1 rest where c1: "parse_statement t ts c = Inr (c1, rest)" "parse_tokens rest c1 = Inr c'"
      using 2(8) stmt by (auto split: sum.splits)
    then show ?thesis using 2(6) [OF stmt c1(1) refl] statement 2(9) by blast
  next
    case skip
    then have "parse_tokens ts c = Inr c'" using 2(8) by auto
    then show ?thesis using 2(7) [OF skip] 2(9) by blast
  qed
qed simp

end

text \<open>The parse context of a well-formed graph: nodes under their ids, edges between nodes, a duration the
  engine can compare, and no duration among the plain attributes.\<close>

definition duration_ok :: "pyval \<Rightarrow> bool" where
  "duration_ok v = (case v of PNone \<Rightarrow> True | PInt i \<Rightarrow> True | PBool b \<Rightarrow> True | _ \<Rightarrow> False)"

definition pctx_ok :: "pctx \<Rightarrow> bool" where
  "pctx_ok c =
     (keyed (pc_nodes c) \<and> duration_ok (pc_duration c) \<and> \<not> dict_has (pc_attrs c) ''max_pipeline_duration''
      \<and> (\<forall>e \<in> set (pc_edges c). dict_has (pc_nodes c) (from_node e) \<and> dict_has (pc_nodes c) (to_node e)))"

lemma pctx_new_ok: "pctx_ok (pctx_new params)"
  by (simp add: pctx_ok_def pctx_new_def duration_ok_def dict_has_def)

lemma ensure_node_ok: "pctx_ok c \<Longrightarrow> pctx_ok (ensure_node i c) \<and> dict_has (pc_nodes (ensure_node i c)) i"
  by (auto simp: pctx_ok_def ensure_node_def)

lemma ensure_node_keeps: "dict_has (pc_nodes c) j \<Longrightarrow> dict_has (pc_nodes (ensure_node i c)) j"
  by (simp add: ensure_node_def)

lemma apply_node_ok: "pctx_ok c \<Longrightarrow> pctx_ok (apply_node i attrs c)"
  by (auto simp: pctx_ok_def apply_node_def Let_def keyed_get split: option.split)

lemma add_edge_ok: "pctx_ok c \<Longrightarrow> add_edge attrs a b c = Inr c' \<Longrightarrow> pctx_ok c'"
proof -
  assume c: "pctx_ok c" and e: "add_edge attrs a b c = Inr c'"
  have 1: "pctx_ok (ensure_node b (ensure_node a c))" "dict_has (pc_nodes (ensure_node b (ensure_node a c))) a"
    "dict_has (pc_nodes (ensure_node b (ensure_node a c))) b"
    using ensure_node_ok c ensure_node_keeps by blast+
  show "pctx_ok c'" using e 1 by (auto simp: add_edge_def Let_def pctx_ok_def split: sum.splits)
qed

lemma duration_of_text_ok: "duration_of_text s = Inr d \<Longrightarrow> duration_ok d"
  by (auto simp: duration_of_text_def duration_ok_def split: option.splits)

lemma resolved_duration_ok: "resolve_graph_duration_attr v params k = Inr d \<Longrightarrow> duration_ok d"
  by (cases v) (auto simp: resolve_graph_duration_attr_def duration_ok_def [of "PInt _"] duration_ok_def [of "PBool _"]
      split: option.splits intro: duration_of_text_ok)

lemma set_graph_attr_ok: "pctx_ok c \<Longrightarrow> set_graph_attr k v c = Inr c' \<Longrightarrow> pctx_ok c'"
  by (auto simp: set_graph_attr_def pctx_ok_def dest: resolved_duration_ok split: if_splits sum.splits)

lemma close_subgraph_ok:
  assumes "pctx_ok c'"
  shows "pctx_ok (close_subgraph c c')"
proof -
  let ?f = "\<lambda>cls i n. if dict_has (pc_nodes c) i then n else give_class cls n"
  have "keyed (map (\<lambda>(i, n). (i, ?f cls i n)) (pc_nodes c'))" for cls
    by (rule keyed_map) (use assms in \<open>simp_all add: pctx_ok_def\<close>)
  moreover have "\<not> dict_has (dict_pop ''label'' (pc_attrs c')) ''max_pipeline_duration''"
    using assms by (simp add: dict_has_iff pctx_ok_def)
  moreover have "dict_has (map (\<lambda>(i, n). (i, ?f cls i n)) (pc_nodes c')) j = dict_has (pc_nodes c') j" for cls j
    by (rule dict_has_map)
  ultimately show ?thesis
    using assms unfolding pctx_ok_def close_subgraph_def Let_def by (simp split: option.split)
qed

lemma pctx_ok_defaults: "pctx_ok (c\<lparr>pc_node_defaults := d\<rparr>) = pctx_ok c" "pctx_ok (c\<lparr>pc_edge_defaults := d\<rparr>) = pctx_ok c"
  by (simp_all add: pctx_ok_def)

interpretation pctx_ok: statement_invariant pctx_ok
  by unfold_locales
    (auto simp: pctx_ok_defaults intro: apply_node_ok close_subgraph_ok dest: add_edge_ok set_graph_attr_ok)

text \<open>No statement takes a node away.\<close>

interpretation node_stays: statement_invariant "\<lambda>c. dict_has (pc_nodes c) i" for i
  by unfold_locales
    (auto simp: apply_node_def add_edge_def set_graph_attr_def close_subgraph_def ensure_node_def Let_def
      split: option.splits sum.splits if_splits)

section \<open>The parsed graph\<close>

lemma graph_promote_frame [simp]: "g_nodes (graph_promote k g) = g_nodes g" "g_edges (graph_promote k g) = g_edges g"
  by (simp_all add: graph_promote_def graph_set_field_def Let_def split: option.split)

lemma graph_post_init_frame: "g_nodes (graph_post_init g) = g_nodes g" "g_edges (graph_post_init g) = g_edges g"
proof -
  have "g_nodes (fold graph_promote ks h) = g_nodes h \<and> g_edges (fold graph_promote ks h) = g_edges h" for ks h
    by (induction ks arbitrary: h) simp_all
  then show "g_nodes (graph_post_init g) = g_nodes g" "g_edges (graph_post_init g) = g_edges g"
    by (simp_all add: graph_post_init_def)
qed

lemma graph_of_pctx_frame [simp]:
  "g_nodes (graph_of_pctx src name c) = pc_nodes c" "g_edges (graph_of_pctx src name c) = pc_edges c"
  by (simp_all add: graph_of_pctx_def graph_post_init_frame)

lemma graph_of_pctx_duration:
  assumes "pctx_ok c"
  shows "g_max_pipeline_duration (graph_of_pctx src name c) = pc_duration c"
proof -
  have "dict_get (map (\<lambda>(k, v). (k, PStr v)) (pc_attrs c)) ''max_pipeline_duration'' = None"
    using assms dict_has_map [of "\<lambda>k. PStr" "pc_attrs c" "''max_pipeline_duration''"]
    by (simp add: pctx_ok_def dict_has_iff)
  moreover have "graph_field g ''max_pipeline_duration'' = g_max_pipeline_duration g" for g
    by (simp add: graph_field_def)
  ultimately show ?thesis
    using ga.fold_promote [OF ga.distinct_promoted subset_refl, of _ "''max_pipeline_duration''"]
    unfolding graph_of_pctx_def graph_post_init_def by (metis (no_types, lifting) graph.select_convs option.simps(4) raw_get_def)
qed

lemma parse_dot_context:
  "parse_dot src params = Inr g \<Longrightarrow>
   \<exists>name ts c. parse_tokens ts (pctx_new params) = Inr c \<and> pctx_ok c \<and> g = graph_of_pctx src name c"
proof -
  assume "parse_dot src params = Inr g"
  then obtain name ts c where c: "parse_tokens ts (pctx_new params) = Inr c" "g = graph_of_pctx src name c"
    by (auto simp: parse_dot_def Let_def split: option.splits prod.splits sum.splits)
  then show ?thesis using pctx_ok.loop [OF c(1) pctx_new_ok] by blast
qed

lemma duration_ok_fuse: "duration_ok (g_max_pipeline_duration g) \<Longrightarrow> \<not> isl (fuse_ms g)"
  by (simp add: duration_ok_def fuse_ms_def Let_def split: pyval.splits)

section \<open>The transforms\<close>

lemma style_node_id: "style_node rules n = Some n' \<Longrightarrow> n_id n' = n_id n"
  by (auto simp: style_node_def fold_style_frame)

lemma style_nodes_keyed: "style_nodes rules ns = Some ns' \<Longrightarrow> keyed ns \<Longrightarrow> keyed ns'"
proof -
  assume s: "style_nodes rules ns = Some ns'" and k: "keyed ns"
  have "list_all (\<lambda>(k, n). n_id n = k) ns \<Longrightarrow> list_all (\<lambda>(k, n). n_id n = k) ns'"
    using s by (induction ns arbitrary: ns') (auto simp: style_node_id split: option.splits)
  then show "keyed ns'" using style_nodes_keys [OF s] k by (simp add: keyed_def dict_ok_def list_all_iff)
qed

lemma expand_variables_keyed: "keyed (g_nodes g) \<Longrightarrow> keyed (g_nodes (expand_variables g c))"
  by (simp add: expand_variables_def Let_def keyed_map)

lemma expand_variables_frame [simp]:
  "g_max_pipeline_duration (expand_variables g c) = g_max_pipeline_duration g"
  "g_edges (expand_variables g c) = g_edges g"
  by (simp_all add: expand_variables_def Let_def)

lemma transforms_keep:
  assumes "apply_transforms g c [] = Some g'"
  shows "keyed (g_nodes g) \<Longrightarrow> keyed (g_nodes g')"
    and "g_max_pipeline_duration g' = g_max_pipeline_duration g" and "g_edges g' = g_edges g"
  using assms by (auto simp: apply_transforms_def apply_stylesheet_def Let_def
      intro: expand_variables_keyed style_nodes_keyed split: if_splits)

section \<open>Single statements\<close>

text \<open>The tokens \<open>-> b\<close> for every further node of a chain.\<close>

definition arrows :: "string list \<Rightarrow> string list" where
  "arrows ids = concat (map (\<lambda>b. [''->'', b]) ids)"

lemma chain_rest_arrows: "(rest = [] \<or> hd rest \<noteq> ''->'') \<Longrightarrow> chain_rest (arrows ids @ rest) = (ids, rest)"
proof (induction ids)
  case Nil
  then show ?case by (cases rest rule: chain_rest.cases) (auto simp: arrows_def)
qed (simp add: arrows_def)

lemma ensure_node_frame [simp]: "pc_edges (ensure_node i c) = pc_edges c" "pc_edge_defaults (ensure_node i c) = pc_edge_defaults c"
  by (simp_all add: ensure_node_def)

lemma add_edge_eq:
  "add_edge attrs a b c =
     (case edge_weight (dict_update (pc_edge_defaults c) attrs) of
        Inl e \<Rightarrow> Inl e
      | Inr w \<Rightarrow> Inr ((ensure_node b (ensure_node a c))\<lparr>pc_edges :=
                   pc_edges c @ [edge_of_attrs a b (dict_update (pc_edge_defaults c) attrs) w]\<rparr>))"
  by (simp add: add_edge_def Let_def split: sum.split)

lemma add_chain_edges:
  "edge_weight (dict_update (pc_edge_defaults c) attrs) = Inr w \<Longrightarrow>
   \<exists>c'. add_chain attrs ids c = Inr c' \<and> pc_edge_defaults c' = pc_edge_defaults c
     \<and> pc_edges c' = pc_edges c
         @ map (\<lambda>(a, b). edge_of_attrs a b (dict_update (pc_edge_defaults c) attrs) w) (zip ids (tl ids))"
proof (induction attrs ids c rule: add_chain.induct)
  case (1 attrs a b chain c)
  define c1 where "c1 = (ensure_node b (ensure_node a c))\<lparr>pc_edges :=
      pc_edges c @ [edge_of_attrs a b (dict_update (pc_edge_defaults c) attrs) w]\<rparr>"
  have "add_edge attrs a b c = Inr c1" using 1(2) by (simp add: add_edge_eq c1_def)
  moreover have "pc_edge_defaults c1 = pc_edge_defaults c"
    "pc_edges c1 = pc_edges c @ [edge_of_attrs a b (dict_update (pc_edge_defaults c) attrs) w]"
    by (simp_all add: c1_def)
  ultimately show ?case using 1(1) [of c1] 1(2) by auto
qed simp_all

lemma dict_get_other_attrs: "k \<notin> set ks \<Longrightarrow> dict_get (other_attrs ks d) k = dict_get d k"
  unfolding other_attrs_def by (induction ks arbitrary: d) simp_all

lemma node_of_attrs_get: "k \<notin> set node_field_keys \<Longrightarrow> node_attr_get (node_of_attrs i d) k = raw_get d k PNone"
proof -
  assume k: "k \<notin> set node_field_keys"
  have label: "node_field (if b then n\<lparr>n_label := l\<rparr> else n) j = node_field n j"
    "n_raw (if b then n\<lparr>n_label := l\<rparr> else n) = n_raw n" for b l n j
    by (simp_all add: node_field_def)
  have field: "node_field \<lparr>n_id = i, n_label = a, n_shape = b, n_type = c, n_prompt = e, n_raw = r, n_handler_type = [],
      n_max_retries = PNone, n_goal_gate = PNone, n_retry_target = PNone, n_fallback_retry_target = PNone,
      n_fidelity = PNone, n_thread_id = PNone, n_timeout = PNone, n_llm_model = PNone, n_llm_provider = PNone,
      n_reasoning_effort = PNone, n_auto_status = PNone, n_allow_partial = PNone\<rparr> j = PNone" for a b c e r j
    by (simp add: node_field_def)
  show ?thesis
    unfolding node_of_attrs_def node_post_init_def na.get_after_promotion label field
    using k by (simp add: raw_get_def dict_get_other_attrs)
qed

lemma apply_new_node:
  "\<not> dict_has (pc_nodes c) i \<Longrightarrow>
   dict_get (pc_nodes (apply_node i attrs c)) i = Some (node_of_attrs i (dict_update (pc_node_defaults c) attrs))"
  by (simp add: apply_node_def Let_def dict_has_iff)

text \<open>A body without braces is the block of its subgraph.\<close>

lemma block_of_body:
  "list_all (\<lambda>t. t \<notin> {op, cl}) body \<Longrightarrow> op \<noteq> cl \<Longrightarrow> block_of op cl 1 (body @ cl # rest) = (body @ [cl], rest)"
  by (induction body) auto

lemma parse_subgraph:
  assumes "list_all (\<lambda>t. t \<notin> {''{'', ''}''}) body"
  shows "parse_tokens (''subgraph'' # ''{'' # body @ ''}'' # rest) c =
    (case parse_tokens body c of Inl e \<Rightarrow> Inl e | Inr c1 \<Rightarrow> parse_tokens rest (close_subgraph c c1))"
proof -
  have "is_identifier ''{'' = False" by code_simp
  then have "skip_name (''{'' # ts) = ''{'' # ts" for ts by (simp add: skip_name_def)
  moreover have "block_of ''{'' ''}'' 0 (''{'' # body @ ''}'' # rest) = (''{'' # body @ [''}''], rest)"
    using block_of_body [OF assms] by simp
  ultimately show ?thesis by (simp split: sum.split)
qed

lemma give_class_get:
  "node_attr_get (give_class cls n) ''class'' = (if py_true (node_attr_get n ''class'') then node_attr_get n ''class'' else PStr cls)"
  by (simp add: give_class_def na.get_assign)

lemma dict_get_map [simp]: "dict_get (map (\<lambda>(k, v). (k, f k v)) d) i = map_option (f i) (dict_get d i)"
  by (induction d) auto

lemma close_subgraph_node:
  assumes "dict_get (pc_nodes c1) i = Some n"
  shows "\<exists>m. dict_get (pc_nodes (close_subgraph c c1)) i = Some m
    \<and> node_attr_get m ''class'' =
        (let cls = (case dict_get (pc_attrs c1) ''label'' of None \<Rightarrow> [] | Some l \<Rightarrow> derive_class l)
         in if cls = [] \<or> dict_has (pc_nodes c) i \<or> py_true (node_attr_get n ''class'')
            then node_attr_get n ''class'' else PStr cls)"
  using assms by (simp add: close_subgraph_def Let_def give_class_get)

end
