(* ===== verification/Dot_Properties.thy ===== *)
theory Dot_Properties
  imports Validation_Properties Dot_Facts
begin

text \<open>
  The properties of the DOT parser, alone and together with the transforms, the validator and the run.
\<close>

section \<open>Samples\<close>

text \<open>The text of a small pipeline: \<open>'\<close> stands for a double quote.\<close>

definition dot_text :: "string \<Rightarrow> string" where
  "dot_text s = map (\<lambda>c. if c = CHR 0x27 then dquote else c) s"

definition sample_source :: string where
  "sample_source = dot_text (''digraph D{goal='x' max_pipeline_duration='2h' ''
     @ ''s[shape=Mdiamond] w[prompt='$goal',timeout='30s'] e[shape=Msquare] s->w->e}'')"

definition sample_parsed :: graph where
  "sample_parsed = graph_of_pctx sample_source ''D''
     \<lparr>pc_nodes = [(''s'', node_of_attrs ''s'' [(''shape'', PStr ''Mdiamond'')]),
        (''w'', node_of_attrs ''w'' [(''prompt'', PStr ''$goal''), (''timeout'', PInt 30000)]),
        (''e'', node_of_attrs ''e'' [(''shape'', PStr ''Msquare'')])],
      pc_edges = [edge_of_attrs ''s'' ''w'' [] 0, edge_of_attrs ''w'' ''e'' [] 0],
      pc_attrs = [], pc_goal = ''x'', pc_retry = PInt 0, pc_stylesheet = [], pc_duration = PInt 7200000,
      pc_node_defaults = [], pc_edge_defaults = [], pc_params = []\<rparr>"

lemma sample_parses: "parse_dot sample_source [] = Inr sample_parsed"
  by code_simp

text \<open>C36: Layout does not matter to the tokenizer, and it reads back what it reads: the tokens of any body,
  written with single blanks between them, are read as the same tokens again.\<close>

theorem tokenize_roundtrip:
  assumes "tokenize body = Inr ts"
  shows "tokenize (py_join '' '' ts) = Inr ts"
  using tokens_from_join [OF tokens_are_tokens [of 0 "[]" body ts]] assms by (simp add: tokenize_def)

theorem tokenize_roundtrip_witness:
  "tokenize (py_join '' '' [''a'', ''->'', ''b'', ''['', ''w'', ''='', ''-1.5'', '']'']) =
     Inr [''a'', ''->'', ''b'', ''['', ''w'', ''='', ''-1.5'', '']'']"
proof -
  have "tokenize ''a->b[w=-1.5 ]'' = Inr [''a'', ''->'', ''b'', ''['', ''w'', ''='', ''-1.5'', '']'']" by code_simp
  from tokenize_roundtrip [OF this] show ?thesis .
qed

text \<open>C6: Whatever source \<open>parse_dot\<close> accepts, the graph it returns is well formed: every node stands
  under its own id and no id twice, both ends of every edge are nodes of the graph, and the pipeline's time
  limit is a number or absent, so that the engine can compare it.\<close>

theorem parsed_graph_ok:
  assumes "parse_dot src params = Inr g"
  shows "graph_ok g \<and> list_all (\<lambda>e. dict_has (g_nodes g) (from_node e)) (g_edges g) \<and> \<not> isl (fuse_ms g)"
proof -
  obtain name ts c where c: "pctx_ok c" "g = graph_of_pctx src name c" using parse_dot_context [OF assms] by blast
  then have "\<not> isl (fuse_ms g)" using duration_ok_fuse graph_of_pctx_duration by (simp add: pctx_ok_def)
  then show ?thesis using c by (auto simp: graph_ok_def pctx_ok_def keyed_def list_all_iff)
qed

theorem parsed_graph_ok_witness:
  "graph_ok sample_parsed
   \<and> list_all (\<lambda>e. dict_has (g_nodes sample_parsed) (from_node e)) (g_edges sample_parsed)
   \<and> \<not> isl (fuse_ms sample_parsed)"
  by (rule parsed_graph_ok [OF sample_parses])

text \<open>C5: From the source text to the end of the run: a pipeline that parses, is transformed and is accepted
  by the validator does not fail for a structural reason. Its run ends in an outcome or in one of the two
  exceptions of the retry ladder that no check of a graph could foresee. What is left to assume is that
  explicit types and the start node's shape have a handler, and that node time limits written as text are
  numbers; the form of the graph and the pipeline's own limit are the parser's work.\<close>

theorem source_to_run:
  assumes "parse_dot src params = Inr g" "apply_transforms g c [] = Some g'" "validate_or_raise g' = Inr ds"
    "dispatch_known X g'" "list_all (\<lambda>n. \<not> isl (node_timeout_s n)) (graph_nodes g')"
    "set_order_ok X" "\<not> x_branch_clone X"
  shows "case fst (run X g' goal S) of Inl e \<Rightarrow> run_fault g' e | Inr out \<Rightarrow> True"
proof -
  obtain name ts pc where pc: "pctx_ok pc" "g = graph_of_pctx src name pc" using parse_dot_context [OF assms(1)] by blast
  have "well_keyed g'" using transforms_keep(1) [OF assms(2)] pc by (simp add: well_keyed_iff pctx_ok_def)
  moreover have "\<not> isl (fuse_ms g')"
    using transforms_keep(2) [OF assms(2)] pc graph_of_pctx_duration by (simp add: pctx_ok_def duration_ok_fuse)
  ultimately show ?thesis
    using accepted_run [OF assms(3) _ assms(4) _ assms(6,7)] assms(5) by (auto simp: limits_numeric_def split: sum.split)
qed

definition sample_graph :: graph where
  "sample_graph = the (apply_transforms sample_parsed ctx_new [])"

theorem source_to_run_witness:
  "validate_or_raise sample_graph = Inr []
   \<and> (case fst (run plain_eenv sample_graph None start_state) of
        Inl e \<Rightarrow> run_fault sample_graph e | Inr out \<Rightarrow> True)"
proof -
  have t: "apply_transforms sample_parsed ctx_new [] = Some sample_graph" by code_simp
  have v: "validate_or_raise sample_graph = Inr []" by code_simp
  have d: "dispatch_known plain_eenv sample_graph" by code_simp
  have l: "list_all (\<lambda>n. \<not> isl (node_timeout_s n)) (graph_nodes sample_graph)" by code_simp
  have c: "\<not> x_branch_clone plain_eenv" by (simp add: plain_eenv_def)
  show ?thesis using source_to_run [OF sample_parses t v d l plain_eenv_order c] v by simp
qed

section \<open>Statements\<close>

text \<open>A chained edge statement is sugar: \<open>a -> b -> c\<close> adds exactly the edges between neighbours, in
  order, after the edges there were, each with the edge defaults in force; the only error is a weight
  default that is a text and no integer.\<close>

theorem chain_expands:
  "case parse_edge_stmt i (arrows ids) c of
     Inl e \<Rightarrow> isl (edge_weight (pc_edge_defaults c))
   | Inr (c1, rest) \<Rightarrow>
       rest = []
       \<and> map (\<lambda>e. (from_node e, to_node e)) (pc_edges c1) =
           map (\<lambda>e. (from_node e, to_node e)) (pc_edges c) @ zip (i # ids) ids"
proof (cases "edge_weight (pc_edge_defaults c)")
  case (Inl e)
  then show ?thesis
    using chain_rest_arrows [of "[]" ids]
    by (cases ids) (simp_all add: parse_edge_stmt_def opt_block_def add_edge_eq)
next
  case (Inr w)
  then show ?thesis
    using chain_rest_arrows [of "[]" ids] add_chain_edges [of c "[]" w "i # ids"]
    by (auto simp: parse_edge_stmt_def opt_block_def comp_def split_def)
qed

text \<open>A node declared for the first time has every attribute of its own block, and for the others the
  default in force: explicit attributes override the defaults.\<close>

theorem explicit_overrides_defaults:
  assumes "\<not> dict_has (pc_nodes c) i" "dict_ok attrs" "k \<notin> set node_field_keys"
  shows "map_option (\<lambda>n. node_attr_get n k) (dict_get (pc_nodes (apply_node i attrs c)) i) =
    Some (case dict_get attrs k of Some v \<Rightarrow> v | None \<Rightarrow> raw_get (pc_node_defaults c) k PNone)"
  using assms by (simp add: apply_new_node node_of_attrs_get raw_get_def dict_get_update split: option.split)

theorem explicit_overrides_defaults_witness:
  "map_option (\<lambda>n. node_attr_get n ''timeout'')
     (dict_get (pc_nodes (apply_node ''a'' [(''timeout'', PInt 5)]
        ((pctx_new [])\<lparr>pc_node_defaults := [(''timeout'', PInt 9)]\<rparr>))) ''a'') = Some (PInt 5)"
proof -
  have "\<not> dict_has (pc_nodes ((pctx_new [])\<lparr>pc_node_defaults := [(''timeout'', PInt 9)]\<rparr>)) ''a''" by code_simp
  moreover have "dict_ok [(''timeout'', PInt 5)]" "''timeout'' \<notin> set node_field_keys" by code_simp+
  ultimately show ?thesis using explicit_overrides_defaults by fastforce
qed

text \<open>A subgraph is a scope: its statements run in the context they stand in; afterwards the node
  defaults are again those from before it, no label is left among the graph attributes, and every node that
  is new carries the class of the label, if it has one and the node has no class of its own.\<close>

theorem subgraph_scope:
  assumes "list_all (\<lambda>t. t \<notin> {''{'', ''}''}) body" "parse_tokens body c = Inr c1"
    "dict_get (pc_nodes c1) i = Some n"
  shows "case parse_tokens (''subgraph'' # ''{'' # body @ [''}'']) c of
      Inl e \<Rightarrow> False
    | Inr c2 \<Rightarrow>
        pc_node_defaults c2 = pc_node_defaults c \<and> dict_get (pc_attrs c2) ''label'' = None
        \<and> map_option (\<lambda>m. node_attr_get m ''class'') (dict_get (pc_nodes c2) i) =
            Some (let cls = (case dict_get (pc_attrs c1) ''label'' of None \<Rightarrow> [] | Some l \<Rightarrow> derive_class l)
                  in if cls = [] \<or> dict_has (pc_nodes c) i \<or> py_true (node_attr_get n ''class'')
                     then node_attr_get n ''class'' else PStr cls)"
proof -
  have "parse_tokens (''subgraph'' # ''{'' # body @ [''}'']) c = Inr (close_subgraph c c1)"
    using parse_subgraph [OF assms(1), of "[]" c] assms(2) by simp
  moreover have "pc_node_defaults (close_subgraph c c1) = pc_node_defaults c"
    "dict_get (pc_attrs (close_subgraph c c1)) ''label'' = None"
    by (simp_all add: close_subgraph_def Let_def)
  ultimately show ?thesis using close_subgraph_node [OF assms(3), of c] by auto
qed

theorem subgraph_scope_witness:
  "case parse_tokens (''subgraph'' # ''{'' # [''label'', ''='', ''Loop'', '';'', ''a''] @ [''}'']) (pctx_new []) of
      Inl e \<Rightarrow> False
    | Inr c2 \<Rightarrow> map_option (\<lambda>m. node_attr_get m ''class'') (dict_get (pc_nodes c2) ''a'') = Some (PStr ''loop'')"
proof -
  let ?body = "[''label'', ''='', ''Loop'', '';'', ''a'']"
  let ?c1 = "(pctx_new [])\<lparr>pc_attrs := [(''label'', ''Loop'')], pc_nodes := [(''a'', node_of_attrs ''a'' [])]\<rparr>"
  define r where "r = parse_tokens (''subgraph'' # ''{'' # ?body @ [''}'']) (pctx_new [])"
  have b: "list_all (\<lambda>t. t \<notin> {''{'', ''}''}) ?body" by code_simp
  have p: "parse_tokens ?body (pctx_new []) = Inr ?c1" by code_simp
  have n: "dict_get (pc_nodes ?c1) ''a'' = Some (node_of_attrs ''a'' [])" by code_simp
  have "derive_class ''Loop'' = ''loop''" by code_simp
  moreover have "dict_has (pc_nodes (pctx_new [])) ''a'' = False"
    "py_true (node_attr_get (node_of_attrs ''a'' []) ''class'') = False" by code_simp+
  ultimately show ?thesis
    using subgraph_scope [OF b p n] unfolding r_def [symmetric] by (simp split: sum.splits)
qed

section \<open>Where the parser leaves its grammar\<close>

text \<open>Unquoted durations and bare values with a dash or a colon, which the grammar allows, are cut at the
  first character outside a number or an identifier, and the rest becomes a token of its own: a limit of two
  hours is a limit of two milliseconds beside a node \<open>h\<close>, a timeout of five minutes is one of five
  seconds, and a model name loses everything from its dash on. No error is raised.\<close>

theorem bare_values_truncated:
  "(case parse_dot ''digraph{max_pipeline_duration=2h}'' [] of
      Inl e \<Rightarrow> False
    | Inr g \<Rightarrow> g_max_pipeline_duration g = PInt 2 \<and> dict_keys (g_nodes g) = [''h''])
   \<and> (case parse_dot ''digraph{a[timeout=5m]}'' [] of
        Inl e \<Rightarrow> False
      | Inr g \<Rightarrow> map n_timeout (graph_nodes g) = [PInt 5000])
   \<and> (case parse_dot ''digraph{a[llm_model=gpt-4o]}'' [] of
        Inl e \<Rightarrow> False
      | Inr g \<Rightarrow> map n_llm_model (graph_nodes g) = [PStr ''gpt''])"
  by (intro conjI; code_simp)

text \<open>A subgraph without a label of its own takes the label of the graph: its nodes get the class of the
  pipeline's title, and the pipeline loses its label.\<close>

theorem subgraph_takes_graph_label:
  "case parse_dot ''digraph{label=Main subgraph{a}}'' [] of
     Inl e \<Rightarrow> False
   | Inr g \<Rightarrow>
       g_label g = PNone
       \<and> map (\<lambda>n. node_attr_get n ''class'') (graph_nodes g) = [PStr ''main'']"
  by code_simp

text \<open>A node named again below a default block loses its explicit attributes to the defaults, edge
  defaults leave the subgraph they are written in, a goal that reads like a duration becomes a number, the
  word \<open>digraph\<close> inside a quoted text is counted as a second graph, and an attribute without a value ends
  the parse in an \<open>IndexError\<close>.\<close>

lemma redeclared_node_takes_defaults:
  "case parse_dot ''digraph{a[timeout=5] node[timeout=9] a}'' [] of
     Inl e \<Rightarrow> False | Inr g \<Rightarrow> map n_timeout (graph_nodes g) = [PInt 9000]"
  by code_simp

lemma edge_defaults_leave_subgraph:
  "case parse_dot ''digraph{subgraph{edge[label=x]} a->b}'' [] of
     Inl e \<Rightarrow> False | Inr g \<Rightarrow> map e_label (g_edges g) = [''x'']"
  by code_simp

lemma goal_becomes_number:
  "case parse_dot (dot_text ''digraph{goal='10ms'}'') [] of Inl e \<Rightarrow> False | Inr g \<Rightarrow> g_goal g = ''10''"
  by code_simp

lemma quoted_digraph_refused: "isl (parse_dot (dot_text ''digraph{goal='a digraph'}'') [])"
  by code_simp

lemma missing_value_index_error: "parse_dot ''digraph{x=}'' [] = Inl index_error"
  by code_simp

end
