(* ===== verification/Lint_Graph.thy ===== *)
theory Lint_Graph
  imports Validation_Facts
begin

text \<open>
  The graph algorithms of the topological linter in \<open>validation.py\<close>: the depth-first search for back
  edges and Kosaraju's two passes for strongly connected components, as the stack machines the source
  writes them as. A set of ids is a list without repetition.
\<close>

section \<open>_find_back_edges\<close>

record dfs =
  df_visited :: "string list"
  df_on :: "string list"
  df_back :: "(string \<times> string) list"

text \<open>The inner loop over the neighbours that are left: the back edges it finds, and the first neighbour
  that is new with those behind it.\<close>

fun scan_neighbors :: "string \<Rightarrow> string list \<Rightarrow> dfs \<Rightarrow> (string \<times> string list) option \<times> dfs" where
  "scan_neighbors i [] D = (None, D)"
| "scan_neighbors i (j # js) D =
     (if j \<in> set (df_on D) then scan_neighbors i js (D\<lparr>df_back := List.insert (i, j) (df_back D)\<rparr>)
      else if j \<notin> set (df_visited D) then (Some (j, js), D)
      else scan_neighbors i js D)"

text \<open>The first visit of a node.\<close>

definition enter_node :: "graph \<Rightarrow> string \<Rightarrow> string list \<Rightarrow> dfs \<Rightarrow> string list \<times> dfs" where
  "enter_node g i js D =
     (if i \<notin> set (df_visited D)
      then (reach_next g i, D\<lparr>df_visited := i # df_visited D, df_on := List.insert i (df_on D)\<rparr>)
      else (js, D))"

lemma scan_visited [simp]: "df_visited (snd (scan_neighbors i js D)) = df_visited D"
  by (induction i js D rule: scan_neighbors.induct) auto

lemma scan_on [simp]: "df_on (snd (scan_neighbors i js D)) = df_on D"
  by (induction i js D rule: scan_neighbors.induct) auto

lemma scan_child: "(Some (j, ks), D') = scan_neighbors i js D \<Longrightarrow> \<exists>us. js = us @ j # ks"
  by (induction i js D rule: scan_neighbors.induct) (force simp: Cons_eq_append_conv split: if_splits)+

text \<open>The ids a search may still visit, and the work left on its stack.\<close>

definition dfs_ids :: "graph \<Rightarrow> (string \<times> string list) list \<Rightarrow> string list \<Rightarrow> string set" where
  "dfs_ids g stack visited =
     (set (dict_keys (g_nodes g)) \<union> fst ` set stack \<union> (\<Union>(i, js) \<in> set stack. set js)) - set visited"

definition dfs_work :: "(string \<times> string list) list \<Rightarrow> nat" where
  "dfs_work stack = sum_list (map (\<lambda>(i, js). Suc (2 * length js)) stack)"

lemma finite_dfs_ids: "finite (dfs_ids g stack visited)"
  by (auto simp: dfs_ids_def)

lemma reach_next_nodes: "set (reach_next g i) \<subseteq> set (dict_keys (g_nodes g))"
  by (auto simp: reach_next_def dict_has_def)

lemma dfs_decreases:
  assumes "dfs_ids g st (df_visited D') \<subset> dfs_ids g stack (df_visited D)
    \<or> dfs_ids g st (df_visited D') \<subseteq> dfs_ids g stack (df_visited D) \<and> dfs_work st < dfs_work stack"
  shows "((g, st, D'), g, stack, D)
    \<in> measures [\<lambda>(g, stack, D). card (dfs_ids g stack (df_visited D)), \<lambda>(g, stack, D). dfs_work stack]"
  using assms
proof
  assume "dfs_ids g st (df_visited D') \<subset> dfs_ids g stack (df_visited D)"
  then show ?thesis using psubset_card_mono [OF finite_dfs_ids] by simp
next
  assume a: "dfs_ids g st (df_visited D') \<subseteq> dfs_ids g stack (df_visited D) \<and> dfs_work st < dfs_work stack"
  then have "card (dfs_ids g st (df_visited D')) \<le> card (dfs_ids g stack (df_visited D))"
    using card_mono [OF finite_dfs_ids] by blast
  then show ?thesis using a by (simp add: le_less)
qed

function dfs_loop :: "graph \<Rightarrow> (string \<times> string list) list \<Rightarrow> dfs \<Rightarrow> dfs" where
  "dfs_loop g [] D = D"
| "dfs_loop g ((i, js) # stack) D =
     (case enter_node g i js D of
        (ks, D1) \<Rightarrow>
          (case scan_neighbors i ks D1 of
             (Some (j, rest), D2) \<Rightarrow> dfs_loop g ((j, []) # (i, rest) # stack) D2
           | (None, D2) \<Rightarrow> dfs_loop g stack (D2\<lparr>df_on := remove1 i (df_on D2)\<rparr>)))"
  by pat_completeness auto
termination
proof (relation "measures [\<lambda>(g, stack, D). card (dfs_ids g stack (df_visited D)), \<lambda>(g, stack, D). dfs_work stack]")
  fix g i js stack D ks D1 z D2 p j rest
  assume e: "(ks, D1) = enter_node g i js D" and z: "(z, D2) = scan_neighbors i ks D1" "z = Some p" "(j, rest) = p"
  have v: "df_visited D2 = df_visited D1" using z(1) scan_visited [of i ks D1] by (metis snd_conv)
  obtain us where us: "ks = us @ j # rest" using scan_child [of j rest D2 i ks D1] z by auto
  show "((g, (j, []) # (i, rest) # stack, D2), g, (i, js) # stack, D)
      \<in> measures [\<lambda>(g, stack, D). card (dfs_ids g stack (df_visited D)), \<lambda>(g, stack, D). dfs_work stack]"
  proof (rule dfs_decreases)
    show "dfs_ids g ((j, []) # (i, rest) # stack) (df_visited D2) \<subset> dfs_ids g ((i, js) # stack) (df_visited D)
        \<or> dfs_ids g ((j, []) # (i, rest) # stack) (df_visited D2) \<subseteq> dfs_ids g ((i, js) # stack) (df_visited D)
          \<and> dfs_work ((j, []) # (i, rest) # stack) < dfs_work ((i, js) # stack)"
    proof (cases "i \<in> set (df_visited D)")
      case True
      then have "ks = js" "df_visited D2 = df_visited D" using e v by (simp_all add: enter_node_def)
      then show ?thesis using us by (intro disjI2 conjI) (auto simp: dfs_ids_def dfs_work_def)
    next
      case False
      then have "ks = reach_next g i" "df_visited D2 = i # df_visited D" using e v by (simp_all add: enter_node_def)
      moreover have "insert j (set rest) \<subseteq> set (dict_keys (g_nodes g))"
        using reach_next_nodes [of g i] us calculation(1) by auto
      ultimately show ?thesis using False by (intro disjI1 psubsetI) (auto simp: dfs_ids_def)
    qed
  qed
next
  fix g i js stack D ks D1 z D2
  assume e: "(ks, D1) = enter_node g i js D" and z: "(z, D2) = scan_neighbors i ks D1" "z = None"
  have v: "df_visited D2 = df_visited D1" using z(1) scan_visited [of i ks D1] by (metis snd_conv)
  show "((g, stack, D2\<lparr>df_on := remove1 i (df_on D2)\<rparr>), g, (i, js) # stack, D)
      \<in> measures [\<lambda>(g, stack, D). card (dfs_ids g stack (df_visited D)), \<lambda>(g, stack, D). dfs_work stack]"
  proof (rule dfs_decreases)
    show "dfs_ids g stack (df_visited (D2\<lparr>df_on := remove1 i (df_on D2)\<rparr>)) \<subset> dfs_ids g ((i, js) # stack) (df_visited D)
        \<or> dfs_ids g stack (df_visited (D2\<lparr>df_on := remove1 i (df_on D2)\<rparr>)) \<subseteq> dfs_ids g ((i, js) # stack) (df_visited D)
          \<and> dfs_work stack < dfs_work ((i, js) # stack)"
    proof (cases "i \<in> set (df_visited D)")
      case True
      then have "df_visited D2 = df_visited D" using e v by (simp add: enter_node_def)
      then show ?thesis by (intro disjI2 conjI) (auto simp: dfs_ids_def dfs_work_def)
    next
      case False
      then have "df_visited D2 = i # df_visited D" using e v by (simp add: enter_node_def)
      then show ?thesis by (intro disjI2 conjI) (auto simp: dfs_ids_def dfs_work_def)
    qed
  qed
qed simp

declare dfs_loop.simps(2) [simp del]

definition find_back_edges :: "graph \<Rightarrow> (string \<times> string) list" where
  "find_back_edges g =
     df_back (foldl (\<lambda>D i. if i \<notin> set (df_visited D) then dfs_loop g [(i, [])] D else D)
       \<lparr>df_visited = [], df_on = [], df_back = []\<rparr> (dict_keys (g_nodes g)))"

definition has_cycle :: "graph \<Rightarrow> bool" where
  "has_cycle g = (find_back_edges g \<noteq> [])"

section \<open>_compute_sccs\<close>

text \<open>\<open>adj\<close> and \<open>radj\<close>, in the order of the edges.\<close>

definition adj :: "graph \<Rightarrow> string \<Rightarrow> string list" where
  "adj g i = map to_node (filter (\<lambda>e. from_node e = i \<and> dict_has (g_nodes g) i \<and> dict_has (g_nodes g) (to_node e)) (g_edges g))"

definition radj :: "graph \<Rightarrow> string \<Rightarrow> string list" where
  "radj g j = map from_node (filter (\<lambda>e. to_node e = j \<and> dict_has (g_nodes g) (from_node e) \<and> dict_has (g_nodes g) j) (g_edges g))"

definition self_loop :: "graph \<Rightarrow> string \<Rightarrow> bool" where
  "self_loop g i = list_ex (\<lambda>e. from_node e = to_node e \<and> from_node e = i \<and> dict_has (g_nodes g) i) (g_edges g)"

text \<open>The first pass: frames of a node and an index into its neighbours; the result is the order in which
  nodes are finished, the last one first.\<close>

definition pass1_ids :: "graph \<Rightarrow> (string \<times> nat) list \<Rightarrow> string list \<Rightarrow> string set" where
  "pass1_ids g stack visited = (set (dict_keys (g_nodes g)) \<union> fst ` set stack) - set visited"

definition pass1_work :: "graph \<Rightarrow> (string \<times> nat) list \<Rightarrow> string list \<Rightarrow> nat" where
  "pass1_work g stack visited =
     sum_list (map (\<lambda>(i, n). if i \<in> set visited then Suc (2 * (length (adj g i) - n)) else 1) stack)"

lemma adj_nodes: "j \<in> set (adj g i) \<Longrightarrow> dict_has (g_nodes g) j"
  by (auto simp: adj_def)

lemma pass1_decreases:
  assumes "pass1_ids g st visited' \<subset> pass1_ids g stack visited
    \<or> pass1_ids g st visited' \<subseteq> pass1_ids g stack visited \<and> pass1_work g st visited' < pass1_work g stack visited"
  shows "((g, st, visited', finished'), g, stack, visited, finished)
    \<in> measures [\<lambda>(g, stack, visited, _). card (pass1_ids g stack visited),
        \<lambda>(g, stack, visited, _). pass1_work g stack visited]"
proof -
  have f: "finite (pass1_ids g stack visited)" by (simp add: pass1_ids_def)
  from assms show ?thesis
  proof
    assume "pass1_ids g st visited' \<subset> pass1_ids g stack visited"
    then show ?thesis using psubset_card_mono [OF f] by simp
  next
    assume a: "pass1_ids g st visited' \<subseteq> pass1_ids g stack visited \<and> pass1_work g st visited' < pass1_work g stack visited"
    then have "card (pass1_ids g st visited') \<le> card (pass1_ids g stack visited)" using card_mono [OF f] by blast
    then show ?thesis using a by (simp add: le_less)
  qed
qed

function pass1 :: "graph \<Rightarrow> (string \<times> nat) list \<Rightarrow> string list \<Rightarrow> string list \<Rightarrow> string list \<times> string list" where
  "pass1 g [] visited finished = (visited, finished)"
| "pass1 g ((i, n) # stack) visited finished =
     (let visited1 = List.insert i visited in
      if n < length (adj g i) then
        (let j = adj g i ! n in
         if j \<notin> set visited1 then pass1 g ((j, 0) # (i, n + 1) # stack) visited1 finished
         else pass1 g ((i, n + 1) # stack) visited1 finished)
      else pass1 g stack visited1 (i # finished))"
  by pat_completeness auto
termination
proof (relation "measures [\<lambda>(g, stack, visited, _). card (pass1_ids g stack visited),
    \<lambda>(g, stack, visited, _). pass1_work g stack visited]")
  fix g :: graph and i :: string and n :: nat and stack and visited finished vs :: "string list" and j
  assume v: "vs = List.insert i visited" and n: "n < length (adj g i)" and j: "j = adj g i ! n"
  have jn: "j \<in> set (dict_keys (g_nodes g))" using j n adj_nodes [of j g i] by (simp add: dict_has_def)
  {
    assume "j \<notin> set vs"
    then show "((g, (j, 0) # (i, n + 1) # stack, vs, finished), g, (i, n) # stack, visited, finished)
        \<in> measures [\<lambda>(g, stack, visited, _). card (pass1_ids g stack visited),
            \<lambda>(g, stack, visited, _). pass1_work g stack visited]"
      using n v jn by (intro pass1_decreases) (cases "i \<in> set visited"; auto simp: pass1_ids_def pass1_work_def)
  next
    show "((g, (i, n + 1) # stack, vs, finished), g, (i, n) # stack, visited, finished)
        \<in> measures [\<lambda>(g, stack, visited, _). card (pass1_ids g stack visited),
            \<lambda>(g, stack, visited, _). pass1_work g stack visited]"
      using n v by (intro pass1_decreases) (cases "i \<in> set visited"; auto simp: pass1_ids_def pass1_work_def)
  }
next
  fix g :: graph and i :: string and n :: nat and stack and visited finished vs :: "string list"
  assume v: "vs = List.insert i visited"
  show "((g, stack, vs, i # finished), g, (i, n) # stack, visited, finished)
      \<in> measures [\<lambda>(g, stack, visited, _). card (pass1_ids g stack visited),
          \<lambda>(g, stack, visited, _). pass1_work g stack visited]"
    using v by (intro pass1_decreases) (cases "i \<in> set visited"; auto simp: pass1_ids_def pass1_work_def)
qed simp

declare pass1.simps(2) [simp del]

text \<open>The second pass: everything not yet taken that reaches the start.\<close>

definition pass2_ids :: "graph \<Rightarrow> string list \<Rightarrow> string list \<Rightarrow> string set" where
  "pass2_ids g stack visited = (set (dict_keys (g_nodes g)) \<union> set stack) - set visited"

lemma radj_nodes: "j \<in> set (radj g i) \<Longrightarrow> dict_has (g_nodes g) j"
  by (auto simp: radj_def)

text \<open>The stack grows and shrinks at its end in the source; here the end is the head, so what is pushed
  stands in front in reverse.\<close>

function pass2 :: "graph \<Rightarrow> string list \<Rightarrow> string list \<Rightarrow> string list \<Rightarrow> string list \<times> string list" where
  "pass2 g [] visited component = (visited, component)"
| "pass2 g (i # stack) visited component =
     (if i \<in> set visited then pass2 g stack visited component
      else pass2 g (rev (filter (\<lambda>j. j \<notin> set (i # visited)) (radj g i)) @ stack) (i # visited) (i # component))"
  by pat_completeness auto
termination
proof (relation "measures [\<lambda>(g, stack, visited, _). card (pass2_ids g stack visited), \<lambda>(g, stack, _). length stack]")
  fix g :: graph and i :: string and stack visited component :: "string list"
  assume "i \<in> set visited"
  then have "pass2_ids g stack visited = pass2_ids g (i # stack) visited" by (auto simp: pass2_ids_def)
  then show "((g, stack, visited, component), g, i # stack, visited, component)
      \<in> measures [\<lambda>(g, stack, visited, _). card (pass2_ids g stack visited), \<lambda>(g, stack, _). length stack]"
    by simp
next
  fix g :: graph and i :: string and stack visited component :: "string list"
  assume i: "i \<notin> set visited"
  let ?st = "rev (filter (\<lambda>j. j \<notin> set (i # visited)) (radj g i)) @ stack"
  have "pass2_ids g ?st (i # visited) \<subset> pass2_ids g (i # stack) visited"
    using i radj_nodes [of _ g i] by (intro psubsetI) (auto simp: pass2_ids_def dict_has_def)
  then have "card (pass2_ids g ?st (i # visited)) < card (pass2_ids g (i # stack) visited)"
    by (rule psubset_card_mono [rotated]) (simp add: pass2_ids_def)
  then show "((g, ?st, i # visited, i # component), g, i # stack, visited, component)
      \<in> measures [\<lambda>(g, stack, visited, _). card (pass2_ids g stack visited), \<lambda>(g, stack, _). length stack]"
    by simp
qed simp

declare pass2.simps(2) [simp del]

text \<open>\<open>reversed(finish_order)\<close>, the components taken from it, and those that hold a cycle.\<close>

definition finish_order :: "graph \<Rightarrow> string list" where
  "finish_order g =
     snd (foldl (\<lambda>(visited, finished) i. if i \<notin> set visited then pass1 g [(i, 0)] visited finished else (visited, finished))
       ([], []) (dict_keys (g_nodes g)))"

fun components :: "graph \<Rightarrow> string list \<Rightarrow> string list \<Rightarrow> string list list" where
  "components g [] visited = []"
| "components g (i # order) visited =
     (if i \<in> set visited then components g order visited
      else (case pass2 g [i] visited [] of
              (visited1, component) \<Rightarrow> component # components g order visited1))"

definition cyclic_component :: "graph \<Rightarrow> string list \<Rightarrow> bool" where
  "cyclic_component g c = (length c \<ge> 2 \<or> (length c = 1 \<and> self_loop g (hd c)))"

definition compute_sccs :: "graph \<Rightarrow> string list list" where
  "compute_sccs g = filter (cyclic_component g) (components g (finish_order g) [])"

definition nodes_on_cycles :: "graph \<Rightarrow> string list" where
  "nodes_on_cycles g = foldl (\<lambda>result scc. remdups (result @ scc)) [] (compute_sccs g)"

end
