(* ===== verification/Lint_Rules.thy ===== *)
theory Lint_Rules
  imports Lint_Graph
begin

text \<open>
  The topological rules of \<open>lint\<close> in \<open>validation.py\<close> (TOPO-001 to TOPO-010). As in \<open>Validation\<close>, a rule is
  the list of diagnostics it appends. A set that is only looked into is a list; where the source sorts, so
  does the model. The one look at the file system, \<open>os.path.exists\<close>, is a function parameter. Dashes, arrows
  and the multiplication sign of the messages are written in ASCII (\<open>--\<close>, \<open>->\<close>, \<open>x\<close>).
\<close>

section \<open>Readers\<close>

definition node_edge_diag :: "string \<Rightarrow> severity \<Rightarrow> node \<Rightarrow> edge \<Rightarrow> string \<Rightarrow> string \<Rightarrow> diagnostic" where
  "node_edge_diag rule severity n e message fix = (edge_diag rule severity e message fix)\<lparr>d_node_id := n_id n\<rparr>"

definition is_diamond :: "node \<Rightarrow> bool" where
  "is_diamond n = (n_shape n = ''diamond'' \<or> n_type n = ''conditional'')"

definition is_tool :: "node \<Rightarrow> bool" where
  "is_tool n = (n_shape n = ''parallelogram'' \<or> n_type n = ''tool'')"

definition is_human_gate :: "node \<Rightarrow> bool" where
  "is_human_gate n = (n_shape n = ''hexagon'' \<or> n_type n = ''wait.human'')"

text \<open>\<open>edge.condition.strip() if edge.condition else ""\<close>.\<close>

definition cond_of :: "edge \<Rightarrow> string" where
  "cond_of e = py_strip (e_condition e)"

definition outgoing_of :: "graph \<Rightarrow> node \<Rightarrow> edge list" where
  "outgoing_of g n = outgoing_edges g (n_id n)"

definition quiet_node :: "node \<Rightarrow> bool" where
  "quiet_node n = (is_start_node n \<or> is_exit_node n)"

section \<open>TOPO-001: dead conditional edges\<close>

definition dead_clause :: "clause \<Rightarrow> bool" where
  "dead_clause cl =
     (case cl of (key, op, val) \<Rightarrow>
        (op = ''!='' \<and> key = ''outcome'' \<and> val = ''success'')
        \<or> (op = ''='' \<and> key = ''outcome'' \<and> val \<in> {''fail'', ''error''}))"

definition check_dead_conditional_edge :: "graph \<Rightarrow> diagnostic list" where
  "check_dead_conditional_edge g =
     concat (map (\<lambda>n.
       if \<not> is_diamond n \<or> quiet_node n then []
       else concat (map (\<lambda>e.
         let cond = cond_of e in
         if cond \<noteq> [] \<and> list_ex dead_clause (parse_condition cond) then
           [node_edge_diag ''dead_conditional_edge'' ERROR n e
     (''Node '' @ quoted (n_id n) @ '' (diamond/ConditionalHandler) has a dead outgoing edge to '' @ quoted (to_node e) @ '' with condition ''
      @ quoted (cond)
      @ '': ConditionalHandler always returns SUCCESS unconditionally, so outcome!=success / outcome=fail edges from a diamond can never fire.'')
     (''Replace the outcome= condition on the edge from '' @ quoted (n_id n) @ '' to '' @ quoted (to_node e)
      @ '' with an evidence-based condition (e.g. context.tool.last_line=X or context.preferred_label=Y set by a preceding tool or LLM node). Diamond nodes are pure routing hubs -- they do not execute logic and cannot observe upstream outcomes. See DOT-AUTHORING-GUIDE.md for the evidence-routing pattern.'')]
         else []) (outgoing_of g n))) (graph_nodes g))"

section \<open>TOPO-002: stale labels\<close>

definition asserts_success :: "clause \<Rightarrow> bool" where
  "asserts_success cl = (cl = (''outcome'', ''='', ''success''))"

definition reads_last_line :: "clause \<Rightarrow> bool" where
  "reads_last_line cl = (fst cl \<in> {''context.tool.last_line'', ''tool.last_line''})"

definition catches_failure :: "clause \<Rightarrow> bool" where
  "catches_failure cl = (cl = (''outcome'', ''='', ''fail'') \<or> cl = (''outcome'', ''!='', ''success''))"

definition stale_edges :: "edge list \<Rightarrow> edge list" where
  "stale_edges es =
     filter (\<lambda>e. let cs = parse_condition (cond_of e) in
       cond_of e \<noteq> [] \<and> list_ex reads_last_line cs \<and> \<not> list_ex asserts_success cs) es"

definition has_fail_edge :: "edge list \<Rightarrow> bool" where
  "has_fail_edge es = list_ex (\<lambda>e. cond_of e \<noteq> [] \<and> list_ex catches_failure (parse_condition (cond_of e))) es"

definition check_stale_label_collision :: "graph \<Rightarrow> diagnostic list" where
  "check_stale_label_collision g =
     concat (map (\<lambda>n.
       if \<not> is_tool n \<or> quiet_node n \<or> \<not> has_fail_edge (outgoing_of g n) then []
       else map (\<lambda>e. node_edge_diag ''stale_label_collision'' WARNING n e
     (''Node '' @ quoted (n_id n) @ '' (tool/parallelogram) has a stale-label ambiguity: edge to '' @ quoted (to_node e) @ '' conditions on ''
      @ quoted (''context.tool.last_line=...'') @ '' without '' @ quoted (''&& outcome=success'') @ '', while another outgoing edge conditions on ''
      @ quoted (''outcome=fail'')
      @ ''. On the second visit after a failure, tool.last_line holds a stale value from the prior success, so both edges match simultaneously. The engine resolves this deterministically (weight desc, lexical tiebreak on target id) but the selected edge may not be the one intended.'')
     (''Add '' @ quoted (''&& outcome=success'') @ '' to the condition on the edge from '' @ quoted (n_id n) @ '' to '' @ quoted (to_node e)
      @ '' so it reads '' @ quoted (''context.tool.last_line=X && outcome=success'')
      @ ''. This ensures the label edge only fires when the tool succeeded and the label is fresh, making the intent explicit. The ''
      @ quoted (''outcome=fail'') @ '' edge handles the failure case exclusively. See DOT-AUTHORING-GUIDE.md for the evidence-routing pattern.''))
         (stale_edges (outgoing_of g n))) (graph_nodes g))"

section \<open>TOPO-003 to TOPO-005: cycles\<close>

definition check_acyclic_graph :: "graph \<Rightarrow> diagnostic list" where
  "check_acyclic_graph g =
     (if has_cycle g then []
      else [graph_diag ''acyclic_graph'' WARNING
     (''This graph has no cycle (no back-edge): it is a linear, one-pass pipeline.  An attractor should have at least one corrective loop that allows it to retry, self-correct, or converge.  If this is intentional (a deliberate single-pass analysis), this warning can be ignored -- but consider whether this pipeline should be a recipe instead.'')
     (''Add a corrective back-edge from a validation/gate node back to an earlier work node so the pipeline can retry on failure.  Use evidence-based conditions (context.tool.last_line or context.preferred_label) on the exit edge to gate convergence.  If this is a deliberate one-pass pipeline, no change is needed -- this is a WARNING, not an error.'')])"

definition gated_exit :: "graph \<Rightarrow> string list \<Rightarrow> edge \<Rightarrow> bool" where
  "gated_exit g scc e =
     (to_node e \<notin> set scc \<and> dict_has (g_nodes g) (to_node e)
      \<and> (cond_of e \<noteq> []
         \<or> (case dict_get (g_nodes g) (from_node e) of
              None \<Rightarrow> False
            | Some n \<Rightarrow> is_human_gate n \<and> py_strip (e_label e) \<noteq> [])))"

definition has_gated_exit :: "graph \<Rightarrow> string list \<Rightarrow> bool" where
  "has_gated_exit g scc = list_ex (\<lambda>i. list_ex (gated_exit g scc) (outgoing_edges g i)) scc"

definition cycle_text :: "string list \<Rightarrow> string" where
  "cycle_text scc = py_join '', '' (sort scc)"

definition check_cycle_no_conditional_exit :: "graph \<Rightarrow> diagnostic list" where
  "check_cycle_no_conditional_exit g =
     concat (map (\<lambda>scc.
       let cycle_list = cycle_text scc in
       if has_gated_exit g scc then []
       else [graph_diag ''cycle_no_conditional_exit'' WARNING
     (''The cycle involving nodes ['' @ cycle_list
      @ ''] has no explicitly-gated exit edge: no edge leaving the cycle carries a condition expression (or a labeled human-gate choice).  Termination rests on implicit routing mechanics (unconditional-edge tiebreaks, fail-fast halts) or budget caps (max_retries, max_pipeline_duration) -- the convergence criterion is invisible to a reader of the graph.'')
     (''Add a condition expression to the cycle'' @ [CHR 0x27]
      @ ''s exit edge(s) so the pipeline exits based on evidence (e.g. context.tool.last_line=done or context.preferred_label=converged). This makes convergence explicit and independent of budget caps.  See DOT-AUTHORING-GUIDE.md for the evidence-routing pattern.'')]) (compute_sccs g))"

text \<open>\<open>str(node.attrs.get("runs_on", "success") or "success").strip().lower()\<close>.\<close>

definition runs_on_text :: "node \<Rightarrow> string" where
  "runs_on_text n =
     (let v = node_attr_get_d n ''runs_on'' (PStr ''success'')
      in py_lower (py_strip (if py_true v then py_str v else ''success'')))"

definition names_tool_evidence :: "clause \<Rightarrow> bool" where
  "names_tool_evidence cl =
     (fst cl = ''outcome'' \<or> startswith ''tool.'' (fst cl) \<or> startswith ''context.tool.'' (fst cl))"

definition tool_evidence_gates_flow :: "graph \<Rightarrow> string \<Rightarrow> bool" where
  "tool_evidence_gates_flow g i =
     list_ex (\<lambda>e.
       if cond_of e = [] then
         (case dict_get (g_nodes g) (to_node e) of
            None \<Rightarrow> True
          | Some target \<Rightarrow> runs_on_text target \<notin> {''always'', ''failure''})
       else list_ex names_tool_evidence (parse_condition (cond_of e))) (outgoing_edges g i)"

definition node_is :: "(node \<Rightarrow> bool) \<Rightarrow> graph \<Rightarrow> string \<Rightarrow> bool" where
  "node_is P g i = (case dict_get (g_nodes g) i of None \<Rightarrow> False | Some n \<Rightarrow> P n)"

definition evidence_detail :: "string list \<Rightarrow> string" where
  "evidence_detail tools =
     (if tools = [] then
     ''no parallelogram (tool) node on the cycle provides mechanically-verifiable evidence for convergence''
      else
     ''parallelogram (tool) node(s) exist on the cycle but their evidence never gates routing: every outgoing edge is conditioned on non-tool context keys (e.g. LLM-set context.preferred_label), so the tool outcome/output is unused and the loop remains LLM-gated'')"

definition check_cycle_no_deterministic_exit :: "graph \<Rightarrow> diagnostic list" where
  "check_cycle_no_deterministic_exit g =
     concat (map (\<lambda>scc.
       let tools = filter (node_is is_tool g) scc; cycle_list = cycle_text scc; detail = evidence_detail tools in
       if list_ex (node_is is_human_gate g) scc \<or> list_ex (tool_evidence_gates_flow g) tools then []
       else [graph_diag ''cycle_no_deterministic_exit'' WARNING
     (''The cycle involving nodes ['' @ cycle_list @ ''] has no deterministic evidence gate: '' @ detail @ ''.  The loop'' @ [CHR 0x27]
      @ ''s continuation/exit relies solely on LLM judgment.'')
     (''Put a parallelogram (tool) node on the cycle whose evidence gates routing: either route on its outcome/output (condition=''
      @ quoted (''context.tool.last_line=done && outcome=success'') @ '' to exit, condition='' @ quoted (''outcome=fail'')
      @ '' back to the work node), or give it a plain edge so a failing check halts the loop via fail-fast instead of letting unverified work continue.  See DOT-AUTHORING-GUIDE.md (TOPO-005) and examples/patterns/convergence-factory.dot.'')]) (compute_sccs g))"

section \<open>TOPO-006: failures routed into the exit\<close>

definition node_runs_on :: "node option \<Rightarrow> string" where
  "node_runs_on n =
     (case n of
        None \<Rightarrow> ''success''
      | Some n \<Rightarrow> if runs_on_text n \<in> {''always'', ''failure''} then runs_on_text n else ''success'')"

definition condition_matches_fail :: "string \<Rightarrow> bool" where
  "condition_matches_fail cond =
     list_ex (\<lambda>(key, op, val). key = ''outcome'' \<and> ((op = ''='' \<and> val \<in> {''fail'', ''error''}) \<or> (op = ''!='' \<and> val = ''success'')))
       (parse_condition cond)"

definition is_plain :: "edge \<Rightarrow> bool" where
  "is_plain e = (cond_of e = [])"

definition node_regates :: "graph \<Rightarrow> string \<Rightarrow> bool" where
  "node_regates g i =
     (node_is is_human_gate g i
      \<or> (outgoing_edges g i \<noteq> [] \<and> \<not> list_ex is_plain (outgoing_edges g i)))"

type_synonym hop_state = "string \<times> bool"

definition unmarked :: "graph \<Rightarrow> string \<Rightarrow> bool" where
  "unmarked g i = (node_runs_on (dict_get (g_nodes g) i) = ''success'')"

text \<open>The edges of one node in the search: the path to an exit, or what is new for the queue.\<close>

fun plain_hops :: "graph \<Rightarrow> string list \<Rightarrow> bool \<Rightarrow> string list \<Rightarrow> edge list \<Rightarrow> hop_state list \<Rightarrow>
    string list + (string \<times> bool \<times> string list) list \<times> hop_state list" where
  "plain_hops g exits u path [] seen = Inr ([], seen)"
| "plain_hops g exits u path (e # es) seen =
     (let j = to_node e; v = (u \<or> unmarked g j) in
      if \<not> is_plain e then plain_hops g exits u path es seen
      else if j \<in> set exits then (if u then Inl (path @ [j]) else plain_hops g exits u path es seen)
      else if \<not> dict_has (g_nodes g) j then plain_hops g exits u path es seen
      else if (j, v) \<in> set seen then plain_hops g exits u path es seen
      else (case plain_hops g exits u path es ((j, v) # seen) of
              Inl found \<Rightarrow> Inl found
            | Inr (new, seen') \<Rightarrow> Inr ((j, v, path @ [j]) # new, seen')))"

definition hop_states :: "graph \<Rightarrow> hop_state list \<Rightarrow> hop_state set" where
  "hop_states g seen = set (dict_keys (g_nodes g)) \<times> UNIV - set seen"

lemma plain_hops_states:
  "plain_hops g exits u path es seen = Inr (new, seen') \<Longrightarrow>
   card (hop_states g seen') + length new \<le> card (hop_states g seen)"
proof (induction g exits u path es seen arbitrary: new seen' rule: plain_hops.induct)
  case (2 g exits u path e es seen)
  let ?j = "to_node e" let ?v = "u \<or> unmarked g ?j"
  show ?case
  proof (cases "is_plain e \<and> ?j \<notin> set exits \<and> dict_has (g_nodes g) ?j \<and> (?j, ?v) \<notin> set seen")
    case True
    then obtain new1 where n: "plain_hops g exits u path es ((?j, ?v) # seen) = Inr (new1, seen')" "new = (?j, ?v, path @ [?j]) # new1"
      using 2(6) by (auto simp: Let_def split: sum.splits)
    have "hop_states g ((?j, ?v) # seen) = hop_states g seen - {(?j, ?v)}" by (auto simp: hop_states_def)
    moreover have "(?j, ?v) \<in> hop_states g seen" using True by (auto simp: hop_states_def dict_has_def)
    moreover have "finite (hop_states g seen)" by (simp add: hop_states_def)
    ultimately have "Suc (card (hop_states g ((?j, ?v) # seen))) = card (hop_states g seen)"
      by (metis card_Suc_Diff1)
    moreover have "card (hop_states g seen') + length new1 \<le> card (hop_states g ((?j, ?v) # seen))"
      using 2(5) [OF refl refl] True n(1) by simp
    ultimately show ?thesis using n(2) by simp
  next
    case False
    then show ?thesis using 2 by (auto simp: Let_def split: if_splits)
  qed
qed simp

function passthrough_path :: "graph \<Rightarrow> string list \<Rightarrow> (string \<times> bool \<times> string list) list \<Rightarrow> hop_state list \<Rightarrow>
    string list option" where
  "passthrough_path g exits [] seen = None"
| "passthrough_path g exits ((i, u, path) # queue) seen =
     (if node_regates g i then passthrough_path g exits queue seen
      else (case plain_hops g exits u path (outgoing_edges g i) seen of
              Inl found \<Rightarrow> Some found
            | Inr (new, seen') \<Rightarrow> passthrough_path g exits (queue @ new) seen'))"
  by pat_completeness auto
termination
  by (relation "measure (\<lambda>(g, exits, queue, seen). card (hop_states g seen) + length queue)")
    (auto dest!: plain_hops_states)

declare passthrough_path.simps(2) [simp del]

definition unmarked_passthrough_path_to_exit :: "graph \<Rightarrow> string \<Rightarrow> string list \<Rightarrow> string list option" where
  "unmarked_passthrough_path_to_exit g start exits =
     (if \<not> dict_has (g_nodes g) start then None
      else passthrough_path g exits [(start, unmarked g start, [start])] [(start, unmarked g start)])"

definition exit_ids :: "graph \<Rightarrow> string list" where
  "exit_ids g = map n_id (exit_nodes g)"

definition fail_edge_diag :: "graph \<Rightarrow> node \<Rightarrow> edge \<Rightarrow> diagnostic list" where
  "fail_edge_diag g n e =
     (let cond = cond_of e in
      if cond = [] \<or> \<not> condition_matches_fail cond then []
      else if to_node e \<in> set (exit_ids g) then
        [node_edge_diag ''fail_routed_to_exit'' WARNING n e
     (''Node '' @ quoted (n_id n) @ '' routes a failure outcome directly into the terminal success node: edge to '' @ quoted (to_node e)
      @ '' with condition '' @ quoted (cond) @ ''. The failure leaves through the pipeline'' @ [CHR 0x27]
      @ ''s success door -- no corrective loop, no retry, no distinct failure terminal.'')
     (''Route the failure to a corrective target instead (e.g. '' @ quoted (n_id n)
      @ '' -> fix [condition=\"outcome=fail\"] with a back-edge to retry), or -- if finishing after a handled failure is deliberate -- route it through a recorder/cleanup node marked runs_on=\"always\" or runs_on=\"failure\" so the intent is declared. See DOT-AUTHORING-GUIDE.md (TOPO-006).'')]
      else (case unmarked_passthrough_path_to_exit g (to_node e) (exit_ids g) of
              None \<Rightarrow> []
            | Some path \<Rightarrow>
                (let path_str = py_join '' -> '' path in
                 [node_edge_diag ''fail_routed_to_exit'' WARNING n e
     (''Node '' @ quoted (n_id n) @ '' routes a failure outcome into the terminal success node via an unmarked pass-through path: edge to ''
      @ quoted (to_node e) @ '' with condition '' @ quoted (cond) @ '', then '' @ path_str
      @ '' -- every hop is unconditional, no node re-gates the flow, and at least one intermediary lacks runs_on=\"always\"/\"failure\". A failed gate followed by one succeeding step exits the pipeline green (status success, exit code 0) -- the silent-success exit incident class.'')
     (''Either route the failure to a corrective target with a back-edge to retry; make EVERY outgoing edge of an intermediary condition-bearing (remove or condition its plain escape) so the flow is re-gated -- a node with any plain outgoing edge does not re-gate; or -- if this handled-failure termination is deliberate -- mark every intermediary on the path (''
      @ path_str @ '') with runs_on=\"always\" or runs_on=\"failure\" (the engine'' @ [CHR 0x27]
      @ ''s failure-routing opt-in) so the intent is declared. See DOT-AUTHORING-GUIDE.md (TOPO-006).'')])))"

definition check_fail_routed_to_exit :: "graph \<Rightarrow> diagnostic list" where
  "check_fail_routed_to_exit g =
     (if exit_ids g = [] then []
      else concat (map (\<lambda>n. if is_exit_node n then [] else concat (map (fail_edge_diag g n) (outgoing_of g n))) (graph_nodes g)))"

section \<open>TOPO-007: a goal-gate retry budget that cannot bind\<close>

definition goal_gate_retry_budget :: nat where
  "goal_gate_retry_budget = 50"

definition effective_gate_retry_target :: "node \<Rightarrow> graph \<Rightarrow> string option" where
  "effective_gate_retry_target n g =
     (let target = py_or (node_attr_get n ''retry_target'')
            (py_or (node_attr_get n ''fallback_retry_target'')
              (py_or (graph_attr_get g ''retry_target'') (graph_attr_get g ''fallback_retry_target'')))
      in case target of PStr s \<Rightarrow> if names_node g target then Some s else None | _ \<Rightarrow> None)"

definition restarts :: "edge \<Rightarrow> bool" where
  "restarts e = resolve_bool_attr (e_loop_restart e)"

text \<open>The success projection: the targets of the edges that neither restart nor catch a failure.\<close>

definition projected :: "graph \<Rightarrow> string \<Rightarrow> string list" where
  "projected g i =
     map to_node (filter (\<lambda>e. from_node e = i \<and> \<not> restarts e
                    \<and> \<not> (cond_of e \<noteq> [] \<and> condition_matches_fail (cond_of e))) (g_edges g))"

text \<open>The inner loop over the successors of a popped id, and the walk.\<close>

fun walk_new :: "string list \<Rightarrow> string list \<Rightarrow> string list \<Rightarrow> string list \<times> string list" where
  "walk_new [] reachable stack = (reachable, stack)"
| "walk_new (j # js) reachable stack =
     (if j \<in> set reachable then walk_new js reachable stack else walk_new js (j # reachable) (j # stack))"

definition walk_ids :: "graph \<Rightarrow> string list \<Rightarrow> string set" where
  "walk_ids g reachable = to_node ` set (g_edges g) - set reachable"

lemma walk_new_ids:
  "set js \<subseteq> to_node ` set (g_edges g) \<Longrightarrow> walk_new js reachable stack = (reachable', stack') \<Longrightarrow>
   card (walk_ids g reachable') + length stack' \<le> card (walk_ids g reachable) + length stack"
proof (induction js reachable stack rule: walk_new.induct)
  case (2 j js reachable stack)
  show ?case
  proof (cases "j \<in> set reachable")
    case False
    have "walk_ids g (j # reachable) = walk_ids g reachable - {j}" "j \<in> walk_ids g reachable"
      using False 2(3) by (auto simp: walk_ids_def)
    moreover have "finite (walk_ids g reachable)" by (simp add: walk_ids_def)
    ultimately have "Suc (card (walk_ids g (j # reachable))) = card (walk_ids g reachable)" by (metis card_Suc_Diff1)
    then show ?thesis using 2(2) [OF False] 2(3,4) False by simp
  qed (use 2 in simp)
qed simp

lemma projected_targets: "set (projected g i) \<subseteq> to_node ` set (g_edges g)"
  by (auto simp: projected_def)

function walk :: "graph \<Rightarrow> string list \<Rightarrow> string list \<Rightarrow> string list" where
  "walk g [] reachable = reachable"
| "walk g (i # stack) reachable =
     (case walk_new (projected g i) reachable stack of (reachable', stack') \<Rightarrow> walk g stack' reachable')"
  by pat_completeness auto
termination
  by (relation "measure (\<lambda>(g, stack, reachable). card (walk_ids g reachable) + length stack)")
    (auto dest!: walk_new_ids [OF projected_targets] simp: less_Suc_eq_le dest: sym)

declare walk.simps(2) [simp del]

definition budget_diag :: "node \<Rightarrow> string \<Rightarrow> edge \<Rightarrow> diagnostic" where
  "budget_diag n retry_target e =
     node_edge_diag ''gate_retry_budget_dead'' WARNING n e
     (''Node '' @ quoted (n_id n) @ '' (goal_gate=true) retries from '' @ quoted (retry_target) @ '', but every success-path walk from ''
      @ quoted (retry_target) @ '' back to the exit crosses a loop_restart edge ('' @ from_node e @ '' -> '' @ to_node e
      @ ''), and loop_restart resets the goal-gate retry counter. The '' @ nat_str goal_gate_retry_budget
      @ ''-retry budget can never bind: the retry loop is bounded only by the global step cap (nodes x '' @ nat_str goal_gate_retry_budget
      @ '') (TOPO-007).'')
     (''Point retry_target at a node whose success path reaches the exit without crossing a loop_restart edge, bound the loop_restart cycle with an explicit budget wall, or drop the retry_target if the gate''
      @ [CHR 0x27] @ ''s failure cause survives retries (the PR #248 resolution)'')"

definition dead_budget :: "graph \<Rightarrow> node \<Rightarrow> string \<Rightarrow> diagnostic list" where
  "dead_budget g n retry_target =
     (let reachable = walk g [retry_target] [retry_target] in
      if list_ex (\<lambda>i. i \<in> set (exit_ids g)) reachable then []
      else (case filter (\<lambda>e. from_node e \<in> set reachable) (filter restarts (g_edges g)) of
              [] \<Rightarrow> []
            | e # _ \<Rightarrow> [budget_diag n retry_target e]))"

definition check_gate_retry_budget_dead :: "graph \<Rightarrow> diagnostic list" where
  "check_gate_retry_budget_dead g =
     (if filter restarts (g_edges g) = [] \<or> exit_ids g = [] then []
      else concat (map (\<lambda>n.
        if \<not> resolve_bool_attr (node_attr_get n ''goal_gate'') then []
        else (case effective_gate_retry_target n g of
                None \<Rightarrow> []
              | Some retry_target \<Rightarrow> dead_budget g n retry_target)) (graph_nodes g)))"

section \<open>TOPO-008: evidence gates that decide nothing\<close>

definition relay_shapes :: "string list" where
  "relay_shapes = [''diamond'', ''point'']"

definition constant_emitter_words :: "string list" where
  "constant_emitter_words =
     [''printf'', ''echo'', ''exit'', ''return'', ''true'', ''false'', '':'', ''cd'', ''mkdir'', ''touch'', ''sleep'',
      ''shift'', ''set'', ''umask'', ''export'', ''unset'', ''break'', ''continue'', ''rm'', ''cp'', ''mv'', ''chmod'']"

definition shell_keyword_words :: "string list" where
  "shell_keyword_words =
     [''if'', ''then'', ''else'', ''elif'', ''fi'', ''while'', ''until'', ''do'', ''done'', ''case'', ''esac'', ''for'',
      ''select'', ''function'', ''time'', ''!'', ''in'']"

text \<open>\<open>str.split()\<close> and \<open>str.strip(c)\<close> with one character.\<close>

function py_words :: "string \<Rightarrow> string list" where
  "py_words s =
     (let t = py_lstrip s
      in if t = [] then []
         else takeWhile (\<lambda>c. \<not> py_isspace c) t # py_words (dropWhile (\<lambda>c. \<not> py_isspace c) t))"
  by pat_completeness auto
termination
proof (relation "measure length", simp)
  fix s t
  assume t: "t = py_lstrip s" "t \<noteq> []"
  then obtain c cs where c1: "t = c # cs" using list.exhaust by blast
  then have c: "t = c # cs" "dropWhile py_isspace s = c # cs" using t(1) by (simp_all only: py_lstrip_def)
  then have "\<not> py_isspace c" by (simp add: dropWhile_eq_Cons_conv)
  moreover have "length t \<le> length s" using c length_dropWhile_le [of py_isspace s] by simp
  ultimately have "length (dropWhile (\<lambda>c. \<not> py_isspace c) t) < length s"
    using c(1) length_dropWhile_le [of "\<lambda>c. \<not> py_isspace c" cs] by simp
  then show "(dropWhile (\<lambda>c. \<not> py_isspace c) t, s) \<in> measure length" by simp
qed

declare py_words.simps [simp del]

definition strip_char :: "char \<Rightarrow> string \<Rightarrow> string" where
  "strip_char c s = rev (dropWhile (\<lambda>d. d = c) (rev (dropWhile (\<lambda>d. d = c) s)))"

definition separator_chars :: string where
  "separator_chars = '';|&(){}`'' @ [CHR 0x0A]"

text \<open>The command positions: the open quote, the current segment, and the rest of the command.\<close>

fun command_segments :: "char option \<Rightarrow> string \<Rightarrow> string \<Rightarrow> string list" where
  "command_segments q current [] = [current]"
| "command_segments (Some q) current (c # cs) =
     (if c = CHR 0x5C \<and> cs \<noteq> [] then command_segments (Some q) (current @ [c, hd cs]) (tl cs)
      else command_segments (if c = q then None else Some q) (current @ [c]) cs)"
| "command_segments None current (c # cs) =
     (if c = CHR 0x27 \<or> c = CHR 0x22 then command_segments (Some c) (current @ [c]) cs
      else if startswith ''&&'' (c # cs) \<or> startswith ''||'' (c # cs) then current # command_segments None [] (tl cs)
      else if c \<in> set separator_chars then current # command_segments None [] cs
      else command_segments None (current @ [c]) cs)"

definition gate_command_segments :: "string \<Rightarrow> string list" where
  "gate_command_segments command = command_segments None [] command"

text \<open>\<open>^[A-Za-z_][A-Za-z_0-9]*=\<close> and \<open>^\d*[<>]\<close>.\<close>

definition is_assignment :: "string \<Rightarrow> bool" where
  "is_assignment w =
     (w \<noteq> [] \<and> (is_alpha (hd w) \<or> hd w = CHR ''_'') \<and> startswith ''='' (dropWhile is_word w))"

definition is_redirect :: "string \<Rightarrow> bool" where
  "is_redirect w = (case dropWhile is_digit w of [] \<Rightarrow> False | c # cs \<Rightarrow> c \<in> set ''<>'')"

definition gate_head_word :: "string \<Rightarrow> string" where
  "gate_head_word segment =
     (case filter (\<lambda>w. w \<notin> set shell_keyword_words \<and> \<not> is_assignment w \<and> \<not> is_redirect w) (py_words segment) of
        [] \<Rightarrow> []
      | w # _ \<Rightarrow> strip_char (CHR 0x27) (strip_char (CHR 0x22) w))"

definition runs_a_substantive_command :: "string \<Rightarrow> bool" where
  "runs_a_substantive_command command =
     list_ex (\<lambda>seg. gate_head_word seg \<noteq> [] \<and> gate_head_word seg \<notin> set constant_emitter_words)
       (gate_command_segments command)"

text \<open>The worklist is the one of the reachability rule, from all start nodes.\<close>

definition reachable_node_ids :: "graph \<Rightarrow> string list" where
  "reachable_node_ids g = reach g (map n_id (start_nodes g)) []"

definition is_evidence_gate :: "graph \<Rightarrow> node \<Rightarrow> string list \<Rightarrow> bool" where
  "is_evidence_gate g n reachable =
     (let v = node_attr_get n ''tool_command''; command = py_strip (if py_true v then py_str v else []);
          out = outgoing_of g n
      in n_id n \<in> set reachable \<and> command \<noteq> [] \<and> runs_a_substantive_command command
         \<and> length out \<ge> 2 \<and> list_ex (\<lambda>e. cond_of e \<noteq> []) out)"

definition unquoted_value :: "string \<Rightarrow> string" where
  "unquoted_value v = strip_char (CHR 0x27) (strip_char (CHR 0x22) (py_strip v))"

definition routed_last_line_token :: "string \<Rightarrow> string option" where
  "routed_last_line_token condition =
     (case filter (\<lambda>(key, op, val). key = ''context.tool.last_line'' \<and> op = ''='') (parse_condition condition) of
        [] \<Rightarrow> None
      | (key, op, val) # _ \<Rightarrow> Some (unquoted_value val))"

definition relay_forward_edge :: "graph \<Rightarrow> string \<Rightarrow> edge option" where
  "relay_forward_edge g i =
     (case dict_get (g_nodes g) i of
        None \<Rightarrow> None
      | Some n \<Rightarrow>
          if quiet_node n \<or> n_shape n \<notin> set relay_shapes then None
          else (case outgoing_edges g i of
                  [e] \<Rightarrow> if cond_of e \<noteq> [] then None else Some e
                | _ \<Rightarrow> None))"

function landing_from :: "graph \<Rightarrow> string \<Rightarrow> string list \<Rightarrow> string" where
  "landing_from g i seen =
     (if i \<in> set seen then i
      else (case relay_forward_edge g i of None \<Rightarrow> i | Some e \<Rightarrow> landing_from g (to_node e) (i # seen)))"
  by pat_completeness auto
termination
proof (relation "measure (\<lambda>(g, i, seen). card (set (dict_keys (g_nodes g)) - set seen))", simp)
  fix g i seen e
  assume i: "i \<notin> set seen" and e: "relay_forward_edge g i = Some e"
  have "i \<in> set (dict_keys (g_nodes g)) - set seen"
    using i e by (force simp: relay_forward_edge_def split: option.splits dest: map_of_SomeD)
  moreover have "set (dict_keys (g_nodes g)) - set (i # seen) = set (dict_keys (g_nodes g)) - set seen - {i}" by auto
  ultimately have "card (set (dict_keys (g_nodes g)) - set (i # seen)) < card (set (dict_keys (g_nodes g)) - set seen)"
    by (metis List.finite_set card_Diff1_less finite_Diff)
  then show "((g, to_node e, i # seen), g, i, seen) \<in> measure (\<lambda>(g, i, seen). card (set (dict_keys (g_nodes g)) - set seen))"
    by simp
qed

declare landing_from.simps [simp del]

definition token_landing :: "graph \<Rightarrow> edge \<Rightarrow> string" where
  "token_landing g e = landing_from g (to_node e) [from_node e]"

definition written_condition :: "node \<Rightarrow> edge \<Rightarrow> string" where
  "written_condition n e = n_id n @ '' -> '' @ to_node e @ '' [condition=\"'' @ e_condition e @ ''\"]''"

definition land_token :: "graph \<Rightarrow> node \<Rightarrow> edge \<Rightarrow> string dict dict \<Rightarrow> string dict dict" where
  "land_token g n e landed =
     (case routed_last_line_token (e_condition e) of
        None \<Rightarrow> landed
      | Some token \<Rightarrow>
          (let i = token_landing g e; tokens = (case dict_get landed i of None \<Rightarrow> [] | Some d \<Rightarrow> d)
           in if node_is is_exit_node g i then dict_set i (dict_set token (written_condition n e) tokens) landed else landed))"

definition inert_gate_diag :: "node \<Rightarrow> string \<Rightarrow> string dict \<Rightarrow> diagnostic" where
  "inert_gate_diag n landing by_token =
     (let tokens = sort (dict_keys by_token);
          written = py_join ''; '' (map (\<lambda>t. the (dict_get by_token t)) tokens)
      in node_diag ''inert_evidence_gate'' WARNING n
     (''Evidence gate '' @ quoted (n_id n) @ '' routes '' @ nat_str (length tokens) @ '' different answers ('' @ py_join '', '' (map repr_str tokens)
      @ '') into the terminal success node '' @ quoted (landing) @ '': '' @ written @ ''. Every one of those answers ends the run green, so the gate''
      @ [CHR 0x27] @ ''s answer decided nothing -- it runs, it prints a verdict, and the graph reaches the exit either way (TOPO-008).'')
     (''Route the failing token somewhere that is not the success door -- back into the corrective loop, to a postmortem, or to a LOUD escalation. If ''
      @ quoted (n_id n)
      @ '' is genuinely not a decision point, drop the conditions and let it record instead of routing on it. Same rule as the authoring checker''
      @ [CHR 0x27] @ ''s A10 (examples/authoring/check_authored_pipeline.py).''))"

definition check_inert_evidence_gate :: "graph \<Rightarrow> diagnostic list" where
  "check_inert_evidence_gate g =
     (let reachable = reachable_node_ids g in
      concat (map (\<lambda>n.
        if \<not> is_evidence_gate g n reachable then []
        else concat (map (\<lambda>(landing, by_token). if length by_token < 2 then [] else [inert_gate_diag n landing by_token])
               (sort_key fst (fold (land_token g n) (outgoing_of g n) [])))) (sort_key n_id (graph_nodes g))))"

section \<open>TOPO-009: status words that are also labels\<close>

definition status_words :: "string list" where
  "status_words = map (\<lambda>s. normalize_label (status_value s)) [SUCCESS, PARTIAL_SUCCESS, RETRY, FAIL, SKIPPED]"

definition outcome_status_words :: "string \<Rightarrow> string list" where
  "outcome_status_words condition =
     filter (\<lambda>w. w \<in> set status_words)
       (map (\<lambda>(key, op, val). normalize_label (unquoted_value val))
         (filter (\<lambda>(key, op, val). key = ''outcome'' \<and> op \<in> {''='', ''!=''}) (parse_condition condition)))"

definition label_selectable_edges :: "graph \<Rightarrow> string \<Rightarrow> edge list" where
  "label_selectable_edges g i = filter (\<lambda>e. cond_of e = [] \<and> py_strip (e_label e) \<noteq> []) (outgoing_edges g i)"

definition written_label :: "node \<Rightarrow> edge \<Rightarrow> string" where
  "written_label n e = n_id n @ '' -> '' @ to_node e @ '' [label=\"'' @ e_label e @ ''\"]''"

definition shadow_overlap :: "node \<Rightarrow> string list \<Rightarrow> bool \<Rightarrow> string \<Rightarrow> edge \<Rightarrow> string" where
  "shadow_overlap n labels collide word primary =
     (if collide then
     quoted (word) @ '' is in both vocabularies at once, so '' @ quoted (n_id n) @ '' reporting status=success with preferred_label=\"'' @ word
      @ ''\" matches '' @ quoted (n_id n) @ '' -> '' @ quoted (to_node primary) @ '' anyway, while '' @ quoted (n_id n) @ '' reporting status='' @ word
      @ '' under any other label does not match it at all.''
      else
     ''The label vocabulary here ('' @ py_join '', '' (map repr_str labels) @ '') is drawn from the status vocabulary, so any label '' @ quoted (n_id n)
      @ '' emits is what these conditions compare against - '' @ quoted (n_id n) @ '' reporting status='' @ word
      @ '' under one of those labels does not match '' @ quoted (n_id n) @ '' -> '' @ quoted (to_node primary) @ '' at all.'')"

definition shadow_diag :: "node \<Rightarrow> edge list \<Rightarrow> edge list \<Rightarrow> diagnostic" where
  "shadow_diag n condition_edges label_edges =
     (let words = (\<lambda>e. outcome_status_words (e_condition e));
          labels = sort (remdups (map (\<lambda>e. normalize_label (e_label e)) label_edges));
          label_written = py_join ''; '' (map (written_label n) (sort_key (\<lambda>e. (to_node e, e_label e)) label_edges));
          by_target = sort_key to_node condition_edges;
          condition_written = py_join ''; '' (map (written_condition n) by_target);
          all_words = sort (remdups (concat (map words condition_edges)));
          collisions = filter (\<lambda>w. w \<in> set labels) all_words;
          primary = (case filter (\<lambda>e. list_ex (\<lambda>w. w \<in> set labels) (words e)) by_target of
                       [] \<Rightarrow> hd by_target | e # _ \<Rightarrow> e);
          word = hd (collisions @ all_words);
          overlap = shadow_overlap n labels (collisions \<noteq> []) word primary
      in node_edge_diag ''outcome_label_shadowing'' WARNING n primary
     (''Node '' @ quoted (n_id n) @ '' routes on the '' @ quoted (''outcome'') @ '' key against status words ('' @ condition_written
      @ '') while also steering itself by label ('' @ label_written @ ''). '' @ quoted (''outcome'')
      @ '' resolves preferred_label BEFORE status (EXTENSIONS.md '' @ [CHR 0xA7] @ ''22 / ATX-M-022 / ATX-5) - not status alone, as canonical ''
      @ [CHR 0xA7] @ ''10.4 defines it. '' @ overlap
      @ '' Neither case is logged: the condition is well-formed and the graph is otherwise clean (TOPO-009).'')
     (''Say which one you mean - both keys are exact and unambiguous. For the status, write condition=\"status='' @ word @ ''\" on '' @ quoted (n_id n)
      @ '' -> '' @ quoted (to_node primary) @ ''; for the label, write condition=\"preferred_label='' @ word @ ''\". If '' @ quoted (n_id n)
      @ '' is not meant to steer itself by label, take the status word off its labelled edge instead. See DOT-AUTHORING-GUIDE.md (TOPO-009) and docs/ROUTING-REFERENCE.md ''
      @ [CHR 0xA7] @ ''3.''))"

definition check_outcome_label_shadowing :: "graph \<Rightarrow> diagnostic list" where
  "check_outcome_label_shadowing g =
     concat (map (\<lambda>n.
       let condition_edges = filter (\<lambda>e. outcome_status_words (e_condition e) \<noteq> []) (outgoing_of g n);
           label_edges = filter (\<lambda>e. normalize_label (e_label e) \<in> set status_words) (label_selectable_edges g (n_id n))
       in if condition_edges = [] \<or> label_edges = [] then [] else [shadow_diag n condition_edges label_edges])
       (sort_key n_id (graph_nodes g)))"

section \<open>TOPO-010: child graphs that are not there\<close>

text \<open>\<open>os.path.join\<close> of a directory and a relative path.\<close>

definition path_join :: "string \<Rightarrow> string \<Rightarrow> string" where
  "path_join dir f = (if endswith ''/'' dir then dir @ f else dir @ ''/'' @ f)"

definition check_folder_dot_file_absent :: "(string \<Rightarrow> bool) \<Rightarrow> graph \<Rightarrow> diagnostic list" where
  "check_folder_dot_file_absent exists g =
     (if g_source_dir g = [] then []
      else concat (map (\<lambda>n.
        if \<not> (n_shape n = ''folder'' \<or> n_type n = ''pipeline'') then []
        else (case node_attr_get n ''dot_file'' of
                PStr dot_file \<Rightarrow>
                  (let resolved = path_join (g_source_dir g) dot_file in
                   if dot_file = [] \<or> dollar \<in> set dot_file \<or> startswith ''/'' dot_file \<or> exists resolved then []
                   else [node_diag ''folder_dot_file_absent'' WARNING n
     (''Node '' @ quoted (n_id n) @ '' (shape=folder) has dot_file=\"'' @ dot_file @ ''\", which resolves to '' @ repr_str resolved
      @ '' -- no such file at lint time.  If an upstream node writes this child graph during the run (write-then-run composition), this is expected and can be ignored: dot_file= resolution is lazy by design (EXTENSIONS.md ''
      @ [CHR 0xA7] @ ''10).  If not, this node will fail at execution with a child-DOT resolution error (TOPO-010).'')
     (''Ship the child graph at '' @ repr_str resolved @ '', or correct the dot_file= value -- a relative dot_file= resolves against the parent .dot file''
      @ [CHR 0x27] @ ''s own directory FIRST (EXTENSIONS.md '' @ [CHR 0xA7]
      @ ''10 precedence chain), not against --cwd.  If an upstream node generates this file at run time, no change is needed -- this is a WARNING, not an error, and it does not affect the exit code.'')])
              | _ \<Rightarrow> [])) (graph_nodes g)))"

section \<open>The topological rules together\<close>

definition topological_rules :: "(string \<Rightarrow> bool) \<Rightarrow> (graph \<Rightarrow> diagnostic list) list" where
  "topological_rules exists =
     [check_dead_conditional_edge, check_stale_label_collision, check_acyclic_graph, check_cycle_no_conditional_exit,
      check_cycle_no_deterministic_exit, check_fail_routed_to_exit, check_gate_retry_budget_dead,
      check_inert_evidence_gate, check_outcome_label_shadowing, check_folder_dot_file_absent exists]"

end
