(* ===== verification/Lint_Graph_Facts.thy ===== *)
theory Lint_Graph_Facts
  imports Lint_Graph
begin

text \<open>
  Correctness of the graph algorithms of the linter. Both depth-first searches refine one abstract step
  relation on a stack and the finished nodes; the facts about finishing that Kosaraju's algorithm needs
  are invariants of that relation.
\<close>

section \<open>Links and mutual reachability\<close>

definition links :: "graph \<Rightarrow> (string \<times> string) set" where
  "links g = {(from_node e, to_node e) | e. e \<in> set (g_edges g) \<and> dict_has (g_nodes g) (from_node e)
                \<and> dict_has (g_nodes g) (to_node e)}"

lemma links_adj: "(i, j) \<in> links g \<longleftrightarrow> j \<in> set (adj g i)"
  by (auto simp: links_def adj_def)

lemma links_radj: "(i, j) \<in> links g \<longleftrightarrow> i \<in> set (radj g j)"
  by (auto simp: links_def radj_def)

lemma links_next: "dict_has (g_nodes g) i \<Longrightarrow> (i, j) \<in> links g \<longleftrightarrow> j \<in> set (reach_next g i)"
  by (auto simp: links_def reach_next_def outgoing_edges_def)

lemma links_nodes: "(i, j) \<in> links g \<Longrightarrow> dict_has (g_nodes g) i \<and> dict_has (g_nodes g) j"
  by (auto simp: links_def)

lemma links_self_loop: "self_loop g i \<longleftrightarrow> (i, i) \<in> links g"
  by (auto simp: self_loop_def links_def list_ex_iff)

definition mutual :: "('a \<times> 'a) set \<Rightarrow> 'a \<Rightarrow> 'a \<Rightarrow> bool" where
  "mutual R i j = ((i, j) \<in> R\<^sup>* \<and> (j, i) \<in> R\<^sup>*)"

lemma mutual_refl [simp]: "mutual R i i"
  by (simp add: mutual_def)

lemma mutual_sym: "mutual R i j \<Longrightarrow> mutual R j i"
  by (simp add: mutual_def)

lemma mutual_trans: "mutual R i j \<Longrightarrow> mutual R j k \<Longrightarrow> mutual R i k"
  by (auto simp: mutual_def)

section \<open>The abstract search\<close>

text \<open>A state is the stack, top first, and the finished nodes, last first. A step starts a search at a new
  node, pushes a new successor of the top, or finishes a top all of whose successors have been seen.\<close>

type_synonym 'a search = "'a list \<times> 'a list"

definition seen :: "'a search \<Rightarrow> 'a set" where
  "seen s = set (fst s) \<union> set (snd s)"

inductive search_step :: "('a \<times> 'a) set \<Rightarrow> 'a search \<Rightarrow> 'a search \<Rightarrow> bool" for R where
  begin_at: "c \<notin> set fin \<Longrightarrow> search_step R ([], fin) ([c], fin)"
| push: "(i, c) \<in> R \<Longrightarrow> c \<notin> seen (i # st, fin) \<Longrightarrow> search_step R (i # st, fin) (c # i # st, fin)"
| finish: "R `` {i} \<subseteq> seen (i # st, fin) \<Longrightarrow> search_step R (i # st, fin) (st, i # fin)"

inductive_cases search_stepE: "search_step R s s'"

definition later :: "'a list \<Rightarrow> 'a \<Rightarrow> 'a \<Rightarrow> bool" where
  "later fin z y = (\<exists>us vs. fin = us @ z # vs \<and> y \<in> set (z # vs))"

definition search_ok :: "('a \<times> 'a) set \<Rightarrow> 'a search \<Rightarrow> bool" where
  "search_ok R s =
     (case s of (st, fin) \<Rightarrow>
        distinct st \<and> distinct fin \<and> set st \<inter> set fin = {}
        \<and> (\<forall>us i vs j. st = us @ i # vs \<longrightarrow> j \<in> set vs \<longrightarrow> (j, i) \<in> R\<^sup>*)
        \<and> (\<forall>x \<in> set fin. R `` {x} \<subseteq> seen s)
        \<and> (\<forall>x \<in> set fin. \<forall>t \<in> set st. (x, t) \<in> R\<^sup>* \<longrightarrow> (\<exists>z \<in> set st. mutual R x z))
        \<and> (\<forall>x \<in> set fin. \<forall>y \<in> set fin. (x, y) \<in> R\<^sup>* \<longrightarrow>
             (\<exists>z \<in> set st. mutual R x z) \<or> (\<exists>z. mutual R x z \<and> later fin z y)))"

lemma later_Cons: "later (i # fin) z y \<longleftrightarrow> (z = i \<and> y \<in> set (i # fin)) \<or> later fin z y"
  by (auto simp: later_def Cons_eq_append_conv) 

text \<open>A path from a finished node to one not yet finished passes the stack.\<close>

lemma leaves_through_stack:
  assumes "(x, u) \<in> R\<^sup>*" "x \<in> set fin" "u \<notin> set fin" "\<forall>x \<in> set fin. R `` {x} \<subseteq> seen (st, fin)"
  shows "\<exists>t \<in> set st. (x, t) \<in> R\<^sup>*"
  using assms(1,3)
proof (induction rule: rtrancl_induct)
  case base
  then show ?case using assms(2) by simp
next
  case (step v w)
  show ?case
  proof (cases "v \<in> set fin")
    case True
    then have "w \<in> set st" using assms(4) step by (auto simp: seen_def)
    then show ?thesis using step(1,2) by (meson rtrancl.rtrancl_into_rtrancl)
  next
    case False
    then show ?thesis using step.IH by blast
  qed
qed

lemma search_okD:
  assumes "search_ok R (st, fin)"
  shows "distinct st" "distinct fin" "set st \<inter> set fin = {}"
    "st = us @ i # vs \<Longrightarrow> j \<in> set vs \<Longrightarrow> (j, i) \<in> R\<^sup>*"
    "x \<in> set fin \<Longrightarrow> R `` {x} \<subseteq> seen (st, fin)"
    "x \<in> set fin \<Longrightarrow> t \<in> set st \<Longrightarrow> (x, t) \<in> R\<^sup>* \<Longrightarrow> \<exists>z \<in> set st. mutual R x z"
    "x \<in> set fin \<Longrightarrow> y \<in> set fin \<Longrightarrow> (x, y) \<in> R\<^sup>* \<Longrightarrow>
       (\<exists>z \<in> set st. mutual R x z) \<or> (\<exists>z. mutual R x z \<and> later fin z y)"
  using assms unfolding search_ok_def prod.case by blast+

lemma search_ok_push:
  assumes ok: "search_ok R (i # st, fin)" and c: "(i, c) \<in> R" "c \<notin> seen (i # st, fin)"
  shows "search_ok R (c # i # st, fin)"
proof -
  note D = search_okD [OF ok]
  have path: "(j, i) \<in> R\<^sup>*" if "j \<in> set (i # st)" for j
    using D(4) [of "[]" i st j] that by auto
  have below: "(j, k) \<in> R\<^sup>*" if "c # i # st = us @ k # vs" "j \<in> set vs" for us k vs j
  proof (cases us)
    case Nil
    then have "k = c" "j \<in> set (i # st)" using that by auto
    then show ?thesis using path c(1) by (meson rtrancl.rtrancl_into_rtrancl)
  next
    case (Cons a us')
    then show ?thesis using D(4) [of us' k vs j] that by simp
  qed
  have meet: "\<exists>z \<in> set (c # i # st). mutual R x z" if "x \<in> set fin" "t \<in> set (c # i # st)" "(x, t) \<in> R\<^sup>*" for x t
  proof -
    have "\<exists>t' \<in> set (i # st). (x, t') \<in> R\<^sup>*"
    proof (cases "t \<in> set (i # st)")
      case False
      then have "t \<notin> set fin" using that c(2) by (auto simp: seen_def)
      then show ?thesis using leaves_through_stack [OF that(3,1) _] D(5) by blast
    qed (use that in blast)
    then show ?thesis using D(6) that(1) by (meson list.set_intros(2))
  qed
  show ?thesis
    unfolding search_ok_def prod.case
  proof (intro conjI)
    show "distinct (c # i # st)" "distinct fin" "set (c # i # st) \<inter> set fin = {}"
      using D(1-3) c(2) by (auto simp: seen_def)
    show "\<forall>us k vs j. c # i # st = us @ k # vs \<longrightarrow> j \<in> set vs \<longrightarrow> (j, k) \<in> R\<^sup>*" using below by blast
    show "\<forall>x\<in>set fin. R `` {x} \<subseteq> seen (c # i # st, fin)" using D(5) by (fastforce simp: seen_def)
    show "\<forall>x\<in>set fin. \<forall>t\<in>set (c # i # st). (x, t) \<in> R\<^sup>* \<longrightarrow> (\<exists>z\<in>set (c # i # st). mutual R x z)" using meet by blast
    show "\<forall>x\<in>set fin. \<forall>y\<in>set fin. (x, y) \<in> R\<^sup>* \<longrightarrow>
        (\<exists>z\<in>set (c # i # st). mutual R x z) \<or> (\<exists>z. mutual R x z \<and> later fin z y)"
      using D(7) by (meson list.set_intros(2))
  qed
qed

lemma search_ok_finish:
  assumes ok: "search_ok R (i # st, fin)" and all: "R `` {i} \<subseteq> seen (i # st, fin)"
  shows "search_ok R (st, i # fin)"
proof -
  note D = search_okD [OF ok]
  have path: "(j, i) \<in> R\<^sup>*" if "j \<in> set st" for j
    using D(4) [of "[]" i st j] that by auto
  have meet: "\<exists>z \<in> set st. mutual R x z" if "x \<in> set (i # fin)" "t \<in> set st" "(x, t) \<in> R\<^sup>*" for x t
  proof (cases "x = i")
    case True
    then have "mutual R x t" using that path by (simp add: mutual_def)
    then show ?thesis using that by blast
  next
    case False
    then have "\<exists>z \<in> set (i # st). mutual R x z" using D(6) [of x t] that by simp
    then obtain z where z: "z \<in> set (i # st)" "mutual R x z" by blast
    have "(t, i) \<in> R\<^sup>*" using path that by blast
    then have "z = i \<Longrightarrow> mutual R x t" using z(2) that(3) by (meson mutual_def rtrancl_trans)
    then show ?thesis using z that by auto
  qed
  have last: "(\<exists>z \<in> set st. mutual R x z) \<or> (\<exists>z. mutual R x z \<and> later (i # fin) z y)"
    if xy: "x \<in> set (i # fin)" "y \<in> set (i # fin)" "(x, y) \<in> R\<^sup>*" for x y
  proof (cases "x = i")
    case True
    then show ?thesis using xy by (auto simp: later_Cons intro!: exI [of _ i])
  next
    case x: False
    then have xf: "x \<in> set fin" using xy by simp
    have top: "mutual R x i \<Longrightarrow> \<exists>z. mutual R x z \<and> later (i # fin) z y" using xy(2) by (auto simp: later_Cons)
    show ?thesis
    proof (cases "y = i")
      case True
      then obtain z where "z \<in> set (i # st)" "mutual R x z" using D(6) [OF xf, of i] xy by auto
      then show ?thesis using top by auto
    next
      case False
      then have "(\<exists>z \<in> set (i # st). mutual R x z) \<or> (\<exists>z. mutual R x z \<and> later fin z y)"
        using D(7) [OF xf] xy by simp
      then show ?thesis using top by (auto simp: later_Cons)
    qed
  qed
  have split: "\<forall>us k vs j. st = us @ k # vs \<longrightarrow> j \<in> set vs \<longrightarrow> (j, k) \<in> R\<^sup>*"
    using D(4) by (metis append_Cons)
  show ?thesis
    unfolding search_ok_def prod.case
  proof (intro conjI)
    show "distinct st" "distinct (i # fin)" "set st \<inter> set (i # fin) = {}" using D(1-3) by auto
    show "\<forall>x\<in>set (i # fin). R `` {x} \<subseteq> seen (st, i # fin)" using D(5) all by (fastforce simp: seen_def)
  qed (use split meet last in blast)+
qed

theorem search_ok_step: "search_step R s s' \<Longrightarrow> search_ok R s \<Longrightarrow> search_ok R s'"
proof (induction rule: search_step.induct)
  case (begin_at c fin)
  note D = search_okD [OF begin_at(2)]
  have "x \<in> set fin \<Longrightarrow> (x, c) \<notin> R\<^sup>*" for x
    using leaves_through_stack [of x c R fin "[]"] D(5) begin_at(1) by auto
  then show ?case using D begin_at(1) unfolding search_ok_def prod.case by (auto simp: seen_def Cons_eq_append_conv)
qed (simp_all add: search_ok_push search_ok_finish)

lemma search_ok_start: "search_ok R ([], [])"
  by (simp add: search_ok_def)

lemma search_ok_steps: "(search_step R)\<^sup>*\<^sup>* s s' \<Longrightarrow> search_ok R s \<Longrightarrow> search_ok R s'"
  by (induction rule: rtranclp_induct) (auto intro: search_ok_step)

section \<open>The first pass refines the search\<close>

definition frames_seen :: "graph \<Rightarrow> (string \<times> nat) list \<Rightarrow> string set \<Rightarrow> bool" where
  "frames_seen g stack S = list_all (\<lambda>(i, n). set (take n (adj g i)) \<subseteq> S) stack"

lemma frames_seen_mono: "frames_seen g stack S \<Longrightarrow> S \<subseteq> T \<Longrightarrow> frames_seen g stack T"
  by (fastforce simp: frames_seen_def list_all_iff)

definition pass1_rel :: "graph \<Rightarrow> (string \<times> nat) list \<Rightarrow> string list \<Rightarrow> string list \<Rightarrow> bool" where
  "pass1_rel g stack visited finished =
     (let S = seen (map fst stack, finished) in
      frames_seen g stack S \<and> S = set visited \<union> set (map fst (take 1 stack)))"

lemma pass1_rel_Cons:
  "pass1_rel g ((i, n) # stack) visited finished \<longleftrightarrow>
     seen (i # map fst stack, finished) = insert i (set visited)
     \<and> set (take n (adj g i)) \<subseteq> insert i (set visited) \<and> frames_seen g stack (insert i (set visited))"
  by (auto simp: pass1_rel_def Let_def frames_seen_def)

lemma seen_push: "seen (c # st, fin) = insert c (seen (st, fin))"
  by (auto simp: seen_def)

lemma pass1_turn:
  assumes r: "pass1_rel g ((i, n) # stack) visited finished"
    and n: "n < length (adj g i)" "adj g i ! n \<notin> set (List.insert i visited)"
  shows "search_step (links g) (map fst ((i, n) # stack), finished) (map fst ((adj g i ! n, 0) # (i, n + 1) # stack), finished)"
    and "pass1_rel g ((adj g i ! n, 0) # (i, n + 1) # stack) (List.insert i visited) finished"
proof -
  let ?j = "adj g i ! n" and ?S = "insert i (set visited)"
  have S: "seen (i # map fst stack, finished) = ?S" and t: "set (take n (adj g i)) \<subseteq> ?S" "frames_seen g stack ?S"
    using r unfolding pass1_rel_Cons by blast+
  have "(i, ?j) \<in> links g" "?j \<notin> seen (i # map fst stack, finished)" using n S by (auto simp: links_adj)
  then show "search_step (links g) (map fst ((i, n) # stack), finished) (map fst ((?j, 0) # (i, n + 1) # stack), finished)"
    by (simp add: search_step.push)
  have "set (take (n + 1) (adj g i)) \<subseteq> insert ?j ?S" using t(1) n(1) by (auto simp: take_Suc_conv_app_nth)
  moreover have "frames_seen g stack (insert ?j ?S)" by (rule frames_seen_mono [OF t(2)]) blast
  ultimately show "pass1_rel g ((?j, 0) # (i, n + 1) # stack) (List.insert i visited) finished"
    using S by (simp add: pass1_rel_Cons seen_push frames_seen_def insert_commute)
qed

lemma pass1_next:
  assumes r: "pass1_rel g ((i, n) # stack) visited finished"
    and n: "n < length (adj g i)" "adj g i ! n \<in> set (List.insert i visited)"
  shows "pass1_rel g ((i, n + 1) # stack) (List.insert i visited) finished"
  using r n unfolding pass1_rel_Cons by (simp add: take_Suc_conv_app_nth)

lemma pass1_pop:
  assumes r: "pass1_rel g ((i, n) # stack) visited finished" and n: "\<not> n < length (adj g i)"
  shows "search_step (links g) (map fst ((i, n) # stack), finished) (map fst stack, i # finished)"
    and "pass1_rel g stack (List.insert i visited) (i # finished)"
proof -
  have S: "seen (i # map fst stack, finished) = insert i (set visited)" and f: "set (adj g i) \<subseteq> insert i (set visited)"
    and t: "frames_seen g stack (insert i (set visited))"
    using r n unfolding pass1_rel_Cons by simp_all
  show "search_step (links g) (map fst ((i, n) # stack), finished) (map fst stack, i # finished)"
    using f S by (auto simp: links_adj intro!: search_step.finish)
  have s: "seen (map fst stack, i # finished) = insert i (set visited)" using S by (auto simp: seen_def)
  moreover have "set (map fst (take 1 stack)) \<subseteq> insert i (set visited)"
    using S by (cases stack) (auto simp: seen_def)
  ultimately show "pass1_rel g stack (List.insert i visited) (i # finished)"
    using t unfolding pass1_rel_def Let_def by (simp add: Un_absorb2 flip: Un_insert_left)
qed

lemma pass1_refines:
  "pass1 g stack visited finished = (visited', finished') \<Longrightarrow> pass1_rel g stack visited finished \<Longrightarrow>
   (search_step (links g))\<^sup>*\<^sup>* (map fst stack, finished) ([], finished') \<and> set visited' = set finished'"
proof (induction g stack visited finished rule: pass1.induct)
  case (1 g visited finished)
  then show ?case by (auto simp: pass1_rel_def Let_def seen_def)
next
  case (2 g i n stack visited finished)
  let ?vs = "List.insert i visited"
  consider (push) "n < length (adj g i)" "adj g i ! n \<notin> set ?vs" | (skip) "n < length (adj g i)" "adj g i ! n \<in> set ?vs"
    | (pop) "\<not> n < length (adj g i)" by blast
  then show ?case
  proof cases
    case push
    then have "pass1 g ((adj g i ! n, 0) # (i, n + 1) # stack) ?vs finished = (visited', finished')"
      using 2(4) by (simp add: pass1.simps(2) [of g i] Let_def)
    then show ?thesis
      using 2(1) [OF refl push(1) refl push(2)] pass1_turn [OF 2(5) push] by (meson converse_rtranclp_into_rtranclp)
  next
    case skip
    then have "pass1 g ((i, n + 1) # stack) ?vs finished = (visited', finished')"
      using 2(4) by (simp add: pass1.simps(2) [of g i n] Let_def)
    then show ?thesis using 2(2) [OF refl skip(1) refl] skip(2) pass1_next [OF 2(5) skip] by simp
  next
    case pop
    then have "pass1 g stack ?vs (i # finished) = (visited', finished')"
      using 2(4) by (simp add: pass1.simps(2) [of g i] Let_def)
    then show ?thesis
      using 2(3) [OF refl pop] pass1_pop [OF 2(5) pop] by (meson converse_rtranclp_into_rtranclp)
  qed
qed

lemma search_covers: "(search_step R)\<^sup>*\<^sup>* s s' \<Longrightarrow> seen s \<subseteq> seen s'"
proof (induction rule: rtranclp_induct)
  case (step t u)
  have "seen t \<subseteq> seen u" using step(2) by (cases rule: search_step.cases) (auto simp: seen_def)
  then show ?case using step.IH by blast
qed simp

lemma finish_fold:
  "foldl (\<lambda>(visited, finished) i. if i \<notin> set visited then pass1 g [(i, 0)] visited finished else (visited, finished))
     (visited, finished) ids = (visited', finished') \<Longrightarrow>
   set visited = set finished \<Longrightarrow> (search_step (links g))\<^sup>*\<^sup>* ([], []) ([], finished) \<Longrightarrow>
   (search_step (links g))\<^sup>*\<^sup>* ([], []) ([], finished') \<and> set ids \<union> set finished \<subseteq> set finished'"
proof (induction ids arbitrary: visited finished)
  case (Cons i ids)
  show ?case
  proof (cases "i \<in> set visited")
    case True
    then show ?thesis using Cons.IH [of visited finished] Cons.prems by auto
  next
    case False
    obtain v f where p: "pass1 g [(i, 0)] visited finished = (v, f)" by fastforce
    have "pass1_rel g [(i, 0)] visited finished"
      using Cons.prems(2) by (auto simp: pass1_rel_Cons seen_def frames_seen_def)
    from pass1_refines [OF p this] have r: "(search_step (links g))\<^sup>*\<^sup>* ([i], finished) ([], f)" "set v = set f" by simp_all
    have "search_step (links g) ([], finished) ([i], finished)" using False Cons.prems(2) by (simp add: begin_at)
    then have s: "(search_step (links g))\<^sup>*\<^sup>* ([], []) ([], f)" using r(1) Cons.prems(3) by (meson rtranclp.rtrancl_into_rtrancl rtranclp_trans)
    have "insert i (set finished) \<subseteq> set f" using search_covers [OF r(1)] by (simp add: seen_def)
    then show ?thesis using Cons.IH [of v f] Cons.prems(1) p False r(2) s by auto
  qed
qed simp

lemma finish_order_search:
  "(search_step (links g))\<^sup>*\<^sup>* ([], []) ([], finish_order g)" "set (dict_keys (g_nodes g)) \<subseteq> set (finish_order g)"
proof -
  obtain v f where f: "foldl (\<lambda>(visited, finished) i. if i \<notin> set visited then pass1 g [(i, 0)] visited finished
      else (visited, finished)) ([], []) (dict_keys (g_nodes g)) = (v, f)" by fastforce
  then have "finish_order g = f" by (simp add: finish_order_def)
  then show "(search_step (links g))\<^sup>*\<^sup>* ([], []) ([], finish_order g)" "set (dict_keys (g_nodes g)) \<subseteq> set (finish_order g)"
    using finish_fold [OF f] by simp_all
qed

text \<open>What Kosaraju's algorithm needs: when \<open>y\<close> is reachable from \<open>x\<close>, some node of the component of \<open>x\<close> is
  finished no earlier than \<open>y\<close>.\<close>

lemma finish_order_distinct: "distinct (finish_order g)"
  using search_okD(2) [OF search_ok_steps [OF finish_order_search(1) search_ok_start]] .

lemma finish_order_later:
  "x \<in> set (finish_order g) \<Longrightarrow> y \<in> set (finish_order g) \<Longrightarrow> (x, y) \<in> (links g)\<^sup>* \<Longrightarrow>
   \<exists>z. mutual (links g) x z \<and> later (finish_order g) z y"
  using search_okD(7) [OF search_ok_steps [OF finish_order_search(1) search_ok_start]] by fastforce

section \<open>The second pass collects a component\<close>

text \<open>\<open>new\<close> is what a pass from \<open>stack\<close> collects: it leads to the stack, and its predecessors are known.\<close>

definition collects :: "graph \<Rightarrow> string list \<Rightarrow> string list \<Rightarrow> string list \<Rightarrow> bool" where
  "collects g stack visited new =
     (distinct new \<and> set new \<inter> set visited = {} \<and> set stack \<subseteq> set new \<union> set visited
      \<and> (\<forall>x \<in> set new. set (radj g x) \<subseteq> set new \<union> set visited)
      \<and> (\<forall>x \<in> set new. \<exists>t \<in> set stack. (x, t) \<in> (links g)\<^sup>*))"

lemma collects_skip: "i \<in> set visited \<Longrightarrow> collects g stack visited new \<Longrightarrow> collects g (i # stack) visited new"
  by (auto simp: collects_def)

lemma collects_take:
  assumes "collects g (rev (filter (\<lambda>j. j \<notin> set (i # visited)) (radj g i)) @ stack) (i # visited) new" "i \<notin> set visited"
  shows "collects g (i # stack) visited (new @ [i])"
proof -
  let ?st = "rev (filter (\<lambda>j. j \<notin> set (i # visited)) (radj g i)) @ stack"
  have c: "distinct new" "set new \<inter> set (i # visited) = {}" "set ?st \<subseteq> set new \<union> set (i # visited)"
    "\<forall>x \<in> set new. set (radj g x) \<subseteq> set new \<union> set (i # visited)"
    "\<forall>x \<in> set new. \<exists>t \<in> set ?st. (x, t) \<in> (links g)\<^sup>*"
    using assms(1) unfolding collects_def by blast+
  have lead: "\<exists>t \<in> set (i # stack). (x, t) \<in> (links g)\<^sup>*" if x: "x \<in> set (new @ [i])" for x
  proof (cases "x = i")
    case False
    then obtain t where t: "t \<in> set ?st" "(x, t) \<in> (links g)\<^sup>*" using c(5) x by auto
    show ?thesis
    proof (cases "t \<in> set stack")
      case False
      then have "(t, i) \<in> links g" using t(1) by (auto simp: links_radj)
      then show ?thesis using t(2) by (meson list.set_intros(1) rtrancl.rtrancl_into_rtrancl)
    qed (use t in auto)
  qed simp
  have "set (radj g i) \<subseteq> set (new @ [i]) \<union> set visited" using c(3) by auto
  moreover have "set (i # stack) \<subseteq> set (new @ [i]) \<union> set visited" using c(3) by auto
  ultimately show ?thesis unfolding collects_def using c(1,2,4) lead assms(2) by auto
qed

lemma pass2_new:
  "pass2 g stack visited component = (visited', component') \<Longrightarrow>
   \<exists>new. visited' = new @ visited \<and> component' = new @ component \<and> collects g stack visited new"
proof (induction g stack visited component arbitrary: visited' component' rule: pass2.induct)
  case (1 g visited component)
  then show ?case by (simp add: collects_def)
next
  case (2 g i stack visited component)
  show ?case
  proof (cases "i \<in> set visited")
    case True
    then have "pass2 g stack visited component = (visited', component')" using 2(3) by (simp add: pass2.simps(2))
    then show ?thesis using 2(1) [OF True] collects_skip [OF True] by blast
  next
    case False
    let ?st = "rev (filter (\<lambda>j. j \<notin> set (i # visited)) (radj g i)) @ stack"
    have "pass2 g ?st (i # visited) (i # component) = (visited', component')"
      using 2(3) False by (simp add: pass2.simps(2) [of g i])
    then obtain new where n: "visited' = new @ i # visited" "component' = new @ i # component" "collects g ?st (i # visited) new"
      using 2(2) [OF False] by blast
    show ?thesis using n(1,2) collects_take [OF n(3) False] by (intro exI [of _ "new @ [i]"]) simp
  qed
qed

text \<open>\<open>visited\<close> is a union of components.\<close>

definition whole :: "graph \<Rightarrow> string set \<Rightarrow> bool" where
  "whole g V = (\<forall>i j. i \<in> V \<longrightarrow> mutual (links g) i j \<longrightarrow> j \<in> V)"

lemma wholeD: "whole g V \<Longrightarrow> mutual (links g) i j \<Longrightarrow> i \<in> V \<Longrightarrow> j \<in> V"
  unfolding whole_def by blast

lemma pass2_component:
  assumes p: "pass2 g [i] visited [] = (visited', c)" and i: "i \<notin> set visited" and V: "whole g (set visited)"
    and last: "\<And>m. (m, i) \<in> (links g)\<^sup>* \<Longrightarrow> m \<notin> set visited \<Longrightarrow> m \<in> set c \<Longrightarrow> mutual (links g) m i"
  shows "set c = {m. mutual (links g) i m}" "distinct c" "set visited' = set c \<union> set visited" "set c \<inter> set visited = {}"
    "whole g (set visited')"
proof -
  obtain new where n: "visited' = new @ visited" "c = new" and "collects g [i] visited new"
    using pass2_new [OF p] by auto
  then have d: "distinct new" "set new \<inter> set visited = {}" "i \<in> set new"
    "\<forall>x \<in> set new. set (radj g x) \<subseteq> set new \<union> set visited" "\<forall>x \<in> set new. (x, i) \<in> (links g)\<^sup>*"
    using i by (auto simp: collects_def)
  then have sound: "m \<in> set c \<Longrightarrow> mutual (links g) i m" for m
    using last n(2) by (blast intro: mutual_sym)
  have "m \<in> set c" if "(m, i) \<in> (links g)\<^sup>*" "(i, m) \<in> (links g)\<^sup>*" for m
    using that
  proof (induction rule: converse_rtrancl_induct)
    case base
    then show ?case using n(2) d(3) by simp
  next
    case (step m k)
    have "mutual (links g) i m" using step(1,2,4) by (auto simp: mutual_def intro: converse_rtrancl_into_rtrancl)
    then have "m \<notin> set visited" using wholeD [OF V mutual_sym [of "links g" i m]] i by blast
    moreover have "k \<in> set c" using step(1,3,4) by (meson rtrancl.rtrancl_into_rtrancl)
    then have "m \<in> set new \<union> set visited" using n(2) d(4) step(1) by (auto simp: links_radj)
    ultimately show ?case using n(2) by blast
  qed
  then show c: "set c = {m. mutual (links g) i m}" using sound by (auto simp: mutual_def)
  show "distinct c" "set visited' = set c \<union> set visited" "set c \<inter> set visited = {}" using n d by auto
  then show "whole g (set visited')"
    using V c unfolding whole_def by (auto intro: mutual_trans)
qed

lemma later_before: "later (us @ i # vs) z i \<Longrightarrow> distinct (us @ i # vs) \<Longrightarrow> z \<in> set us \<or> z = i"
proof (induction us)
  case Nil
  then show ?case by (auto simp: later_Cons) (auto simp: later_def)
next
  case (Cons a us)
  then show ?case by (auto simp: later_Cons)
qed

lemma components_exact:
  "finish_order g = done @ order \<Longrightarrow> set done \<subseteq> set visited \<Longrightarrow> whole g (set visited) \<Longrightarrow>
   (\<forall>c \<in> set (components g order visited). \<exists>i. set c = {m. mutual (links g) i m})
   \<and> (\<forall>i \<in> set order - set visited. \<exists>c \<in> set (components g order visited). i \<in> set c)
   \<and> distinct (concat (components g order visited))
   \<and> set (concat (components g order visited)) \<inter> set visited = {}"
proof (induction order arbitrary: "done" visited)
  case (Cons i order)
  show ?case
  proof (cases "i \<in> set visited")
    case True
    then show ?thesis using Cons.IH [of "done @ [i]" visited] Cons.prems by auto
  next
    case False
    obtain visited' c where p: "pass2 g [i] visited [] = (visited', c)" by fastforce
    have last: "mutual (links g) m i" if m: "(m, i) \<in> (links g)\<^sup>*" "m \<notin> set visited" for m
    proof (cases "m = i")
      case False
      then obtain k where "(m, k) \<in> links g" using m(1) by (metis converse_rtranclE)
      then have "m \<in> set (finish_order g)"
        using links_nodes [of m k g] finish_order_search(2) [of g] by (auto simp: dict_has_def)
      then obtain z where z: "mutual (links g) m z" "later (finish_order g) z i"
        using finish_order_later [OF _ _ m(1)] Cons.prems(1) by auto
      then have "z \<in> set done \<or> z = i"
        using later_before [of "done" i order z] Cons.prems(1) finish_order_distinct [of g] by simp
      moreover have "z \<notin> set done"
        using wholeD [OF Cons.prems(3) mutual_sym [OF z(1)]] m(2) Cons.prems(2) by blast
      ultimately show ?thesis using z by simp
    qed simp
    note C = pass2_component [OF p False Cons.prems(3) last]
    have "i \<in> set c" using C(1) by simp
    moreover have "set (done @ [i]) \<subseteq> set visited'" using C(3) \<open>i \<in> set c\<close> Cons.prems(2) by auto
    note IH = Cons.IH [of "done @ [i]" visited', OF _ this C(5)]
    moreover have "components g (i # order) visited = c # components g order visited'" using p False by simp
    ultimately show ?thesis using Cons.prems(1) C(1-4) by auto
  qed
qed simp

section \<open>Strongly connected components\<close>

lemma trancl_mutual: "(i, i) \<in> R\<^sup>+ \<longleftrightarrow> (\<exists>j. (i, j) \<in> R \<and> mutual R i j)"
proof
  assume "(i, i) \<in> R\<^sup>+"
  then obtain j where "(i, j) \<in> R" "(j, i) \<in> R\<^sup>*" by (meson tranclD)
  then show "\<exists>j. (i, j) \<in> R \<and> mutual R i j" unfolding mutual_def by blast
next
  assume "\<exists>j. (i, j) \<in> R \<and> mutual R i j"
  then show "(i, i) \<in> R\<^sup>+" unfolding mutual_def by (meson rtrancl_into_trancl2)
qed

lemma cyclic_component_iff:
  assumes c: "set c = {j. mutual (links g) k j}" "distinct c" and i: "i \<in> set c"
  shows "cyclic_component g c \<longleftrightarrow> (i, i) \<in> (links g)\<^sup>+"
proof (cases "length c \<ge> 2")
  case True
  have "card (set c) \<ge> 2" using True distinct_card [OF c(2)] by simp
  then have "set c \<noteq> {i}" by fastforce
  then obtain j where "j \<in> set c" "j \<noteq> i" using i by blast
  then have "mutual (links g) k i" "mutual (links g) k j" using c(1) i by simp_all
  then have "mutual (links g) i j" by (rule mutual_trans [OF mutual_sym])
  then have "(i, j) \<in> (links g)\<^sup>*" "(j, i) \<in> (links g)\<^sup>*" "i \<noteq> j" using \<open>j \<noteq> i\<close> by (simp_all add: mutual_def)
  then have "(i, i) \<in> (links g)\<^sup>+" by (meson rtranclD trancl_rtrancl_trancl)
  then show ?thesis using True by (simp add: cyclic_component_def)
next
  case False
  then have ci: "c = [i]" using i by (cases c; cases "tl c") auto
  then have "mutual (links g) i j \<Longrightarrow> j = i" for j
    using c(1) i by (metis list.set(1) list.simps(15) mem_Collect_eq mutual_trans singletonD)
  then have "(i, i) \<in> (links g)\<^sup>+ \<longleftrightarrow> (i, i) \<in> links g" unfolding trancl_mutual by auto
  then show ?thesis by (simp add: ci cyclic_component_def links_self_loop)
qed

lemma distinct_concat_filter: "distinct (concat xs) \<Longrightarrow> distinct (concat (filter P xs))"
  by (induction xs) auto

theorem compute_sccs_correct:
  "set (map set (compute_sccs g)) = {{j. mutual (links g) i j} | i. (i, i) \<in> (links g)\<^sup>+}
   \<and> distinct (concat (compute_sccs g))"
proof -
  let ?cs = "components g (finish_order g) []"
  have C: "\<forall>c \<in> set ?cs. \<exists>i. set c = {m. mutual (links g) i m}"
    "\<forall>i \<in> set (finish_order g). \<exists>c \<in> set ?cs. i \<in> set c" "distinct (concat ?cs)"
    using components_exact [of g "[]" "finish_order g" "[]"] by (auto simp: whole_def)
  have d: "c \<in> set ?cs \<Longrightarrow> distinct c" for c using C(3) by (simp add: distinct_concat_iff)
  show ?thesis
  proof (intro conjI set_eqI iffI)
    fix X assume "X \<in> set (map set (compute_sccs g))"
    then obtain c where c: "c \<in> set ?cs" "cyclic_component g c" "X = set c" by (auto simp: compute_sccs_def)
    then obtain i where i: "set c = {m. mutual (links g) i m}" using C(1) by blast
    then have "(i, i) \<in> (links g)\<^sup>+" using cyclic_component_iff [OF i d, of i] c by simp
    then show "X \<in> {{j. mutual (links g) i j} | i. (i, i) \<in> (links g)\<^sup>+}" using c(3) i by blast
  next
    fix X assume "X \<in> {{j. mutual (links g) i j} | i. (i, i) \<in> (links g)\<^sup>+}"
    then obtain i where i: "X = {j. mutual (links g) i j}" "(i, i) \<in> (links g)\<^sup>+" by blast
    then obtain j where "(i, j) \<in> links g" unfolding trancl_mutual by blast
    then have "i \<in> set (finish_order g)" using links_nodes [of i j g] finish_order_search(2) [of g] by (auto simp: dict_has_def)
    then obtain c where c: "c \<in> set ?cs" "i \<in> set c" using C(2) by blast
    then obtain k where k: "set c = {m. mutual (links g) k m}" using C(1) by blast
    then have "set c = X" using c(2) i(1) by (auto intro: mutual_trans mutual_sym)
    moreover have "cyclic_component g c" using cyclic_component_iff [OF k d c(2)] c(1) i(2) by simp
    ultimately show "X \<in> set (map set (compute_sccs g))" using c(1) by (auto simp: compute_sccs_def)
  next
    show "distinct (concat (compute_sccs g))"
      using C(3) unfolding compute_sccs_def by (rule distinct_concat_filter)
  qed
qed

end
