(* ===== verification/Lint_Cycle_Facts.thy ===== *)
theory Lint_Cycle_Facts
  imports Lint_Graph_Facts
begin

text \<open>
  The depth-first search for back edges: it reports an edge exactly when the graph has a cycle.
\<close>

section \<open>One scan\<close>

lemma scan_back:
  "(r, D') = scan_neighbors i js D \<Longrightarrow>
   set (df_back D) \<subseteq> set (df_back D') \<and> set (df_back D') \<subseteq> set (df_back D) \<union> {(i, k) | k. k \<in> set js \<inter> set (df_on D)}"
  by (induction i js D rule: scan_neighbors.induct) (auto split: if_splits)

lemma scan_none:
  "(None, D') = scan_neighbors i js D \<Longrightarrow> df_back D' = [] \<Longrightarrow> k \<in> set js \<Longrightarrow>
   k \<in> set (df_visited D) - set (df_on D)"
proof (induction i js D rule: scan_neighbors.induct)
  case (2 i j js D)
  then show ?case using scan_back by (fastforce split: if_splits)
qed simp

lemma scan_some:
  "(Some (j, rest), D') = scan_neighbors i js D \<Longrightarrow>
   j \<notin> set (df_visited D) \<and> (\<exists>us. js = us @ j # rest \<and> (df_back D' = [] \<longrightarrow> set us \<subseteq> set (df_visited D) - set (df_on D)))"
proof (induction i js D rule: scan_neighbors.induct)
  case (2 i k js D)
  show ?case
  proof (cases "k \<in> set (df_on D)")
    case True
    let ?D = "D\<lparr>df_back := List.insert (i, k) (df_back D)\<rparr>"
    have s: "(Some (j, rest), D') = scan_neighbors i js ?D" using 2(3) True by simp
    then have "df_back D' \<noteq> []" using scan_back [OF s] by auto
    moreover obtain us where "js = us @ j # rest" "j \<notin> set (df_visited D)" using 2(1) [OF True s] by auto
    ultimately show ?thesis by (intro conjI exI [of _ "k # us"]) simp_all
  next
    case False
    show ?thesis
    proof (cases "k \<in> set (df_visited D)")
      case v: True
      then have "(Some (j, rest), D') = scan_neighbors i js D" using 2(3) False by simp
      then obtain us where "js = us @ j # rest" "j \<notin> set (df_visited D)"
        "df_back D' = [] \<longrightarrow> set us \<subseteq> set (df_visited D) - set (df_on D)"
        using 2(2) [OF False] v by auto
      then show ?thesis using v False by (intro conjI exI [of _ "k # us"]) auto
    next
      case v: False
      then show ?thesis using 2(3) False by auto
    qed
  qed
qed simp

section \<open>The invariant\<close>

fun frames_done :: "graph \<Rightarrow> string set \<Rightarrow> string set \<Rightarrow> (string \<times> string list) list \<Rightarrow> bool" where
  "frames_done g F up [] = True"
| "frames_done g F up ((i, js) # stack) =
     (set (reach_next g i) \<subseteq> set js \<union> F \<union> up \<and> frames_done g F {i} stack)"

lemma frames_done_mono: "frames_done g F up stack \<Longrightarrow> F \<subseteq> G \<Longrightarrow> up \<subseteq> G \<union> up' \<Longrightarrow> frames_done g G up' stack"
  by (induction g F up stack arbitrary: up' rule: frames_done.induct) auto

definition dfs_base :: "graph \<Rightarrow> (string \<times> string list) list \<Rightarrow> dfs \<Rightarrow> bool" where
  "dfs_base g stack D =
     (distinct (map fst stack) \<and> list_all (\<lambda>(i, js). dict_has (g_nodes g) i \<and> set js \<subseteq> set (reach_next g i)) stack
      \<and> (\<forall>us i vs j. map fst stack = us @ i # vs \<longrightarrow> j \<in> set vs \<longrightarrow> (j, i) \<in> (links g)\<^sup>*)
      \<and> (\<forall>(a, b) \<in> set (df_back D). (a, a) \<in> (links g)\<^sup>+)
      \<and> distinct (df_on D) \<and> set (df_on D) = set (map fst stack) \<inter> set (df_visited D)
      \<and> set (tl (map fst stack)) \<subseteq> set (df_visited D))"

definition finished :: "(string \<times> string list) list \<Rightarrow> dfs \<Rightarrow> string set" where
  "finished stack D = set (df_visited D) - fst ` set stack"

definition closed_acyclic :: "graph \<Rightarrow> string set \<Rightarrow> bool" where
  "closed_acyclic g F = (links g `` F \<subseteq> F \<and> acyclic (links g \<inter> F \<times> F))"

definition dfs_clean :: "graph \<Rightarrow> (string \<times> string list) list \<Rightarrow> dfs \<Rightarrow> bool" where
  "dfs_clean g stack D =
     (df_back D = [] \<longrightarrow> closed_acyclic g (finished stack D)
        \<and> (case stack of
             [] \<Rightarrow> True
           | (i, js) # st \<Rightarrow>
               if i \<in> set (df_visited D) then frames_done g (finished stack D) {} stack
               else frames_done g (finished stack D) {i} st))"

text \<open>Adding a node whose successors are all in a closed acyclic set keeps it one.\<close>

lemma closed_acyclic_insert:
  assumes F: "closed_acyclic g F" and i: "i \<notin> F" "links g `` {i} \<subseteq> F"
  shows "closed_acyclic g (insert i F)"
proof -
  let ?R = "links g \<inter> F \<times> F" and ?S = "links g \<inter> insert i F \<times> insert i F"
  have c: "links g `` F \<subseteq> F" using F by (simp add: closed_acyclic_def)
  have S: "b \<in> F" if "(a, b) \<in> ?S" for a b using c i that by (cases "a = i") auto
  have step: "(a, b) \<in> ?R" if "(a, b) \<in> ?S" "a \<in> F" for a b using S [OF that(1)] that by simp
  have path: "(a, b) \<in> ?S\<^sup>+ \<Longrightarrow> b \<in> F \<and> (a \<in> F \<longrightarrow> (a, b) \<in> ?R\<^sup>+)" for a b
  proof (induction rule: trancl_induct)
    case (base b)
    then show ?case using S [OF base] step [OF base] by blast
  next
    case (step b d)
    then have "b \<in> F" "d \<in> F" "(b, d) \<in> ?R" using S [OF step(2)] \<open>(b, d) \<in> ?S\<close> by blast+
    then show ?case using step.IH by (meson trancl.trancl_into_trancl)
  qed
  have "acyclic ?S"
  proof (rule acyclicI, rule allI, rule notI)
    fix x assume "(x, x) \<in> ?S\<^sup>+"
    then have "(x, x) \<in> ?R\<^sup>+" using path by blast
    then show False using F by (auto simp: closed_acyclic_def acyclic_def)
  qed
  then show ?thesis using F i by (auto simp: closed_acyclic_def)
qed

section \<open>The steps keep the invariant\<close>

lemma dfs_baseD:
  assumes "dfs_base g ((i, js) # stack) D"
  shows "i \<notin> fst ` set stack" "distinct (map fst stack)" "dict_has (g_nodes g) i" "set js \<subseteq> set (reach_next g i)"
    "list_all (\<lambda>(i, js). dict_has (g_nodes g) i \<and> set js \<subseteq> set (reach_next g i)) stack"
    "j \<in> fst ` set stack \<Longrightarrow> (j, i) \<in> (links g)\<^sup>*"
    "\<forall>us i vs j. map fst stack = us @ i # vs \<longrightarrow> j \<in> set vs \<longrightarrow> (j, i) \<in> (links g)\<^sup>*"
    "\<forall>(a, b) \<in> set (df_back D). (a, a) \<in> (links g)\<^sup>+" "distinct (df_on D)"
    "set (df_on D) = insert i (fst ` set stack) \<inter> set (df_visited D)" "fst ` set stack \<subseteq> set (df_visited D)"
proof -
  have c: "\<forall>us k vs j. map fst ((i, js) # stack) = us @ k # vs \<longrightarrow> j \<in> set vs \<longrightarrow> (j, k) \<in> (links g)\<^sup>*"
    using assms unfolding dfs_base_def by blast
  then show "\<forall>us i vs j. map fst stack = us @ i # vs \<longrightarrow> j \<in> set vs \<longrightarrow> (j, i) \<in> (links g)\<^sup>*"
    by (metis append_Cons fst_conv list.simps(9))
  show "j \<in> fst ` set stack \<Longrightarrow> (j, i) \<in> (links g)\<^sup>*" using c [rule_format, of "[]" i "map fst stack" j] by simp
qed (use assms in \<open>simp_all add: dfs_base_def\<close>)

lemma dfs_base_Cons:
  assumes "i \<notin> fst ` set stack" "distinct (map fst stack)" "dict_has (g_nodes g) i" "set js \<subseteq> set (reach_next g i)"
    "list_all (\<lambda>(i, js). dict_has (g_nodes g) i \<and> set js \<subseteq> set (reach_next g i)) stack"
    "\<And>j. j \<in> fst ` set stack \<Longrightarrow> (j, i) \<in> (links g)\<^sup>*"
    "\<forall>us i vs j. map fst stack = us @ i # vs \<longrightarrow> j \<in> set vs \<longrightarrow> (j, i) \<in> (links g)\<^sup>*"
    "\<forall>(a, b) \<in> set (df_back D). (a, a) \<in> (links g)\<^sup>+" "distinct (df_on D)"
    "set (df_on D) = insert i (fst ` set stack) \<inter> set (df_visited D)" "fst ` set stack \<subseteq> set (df_visited D)"
  shows "dfs_base g ((i, js) # stack) D"
proof -
  have "(j, k) \<in> (links g)\<^sup>*" if "map fst ((i, js) # stack) = us @ k # vs" "j \<in> set vs" for us k vs j
    using that assms(6,7) by (cases us) auto
  then show ?thesis using assms unfolding dfs_base_def by simp
qed

lemma enter_ok:
  assumes b: "dfs_base g ((i, js) # stack) D" and c: "dfs_clean g ((i, js) # stack) D"
    and e: "(ks, D1) = enter_node g i js D"
  shows "dfs_base g ((i, ks) # stack) D1" "dfs_clean g ((i, ks) # stack) D1" "i \<in> set (df_visited D1)"
    "finished ((i, ks) # stack) D1 = finished ((i, js) # stack) D"
proof -
  note B = dfs_baseD [OF b]
  show "dfs_base g ((i, ks) # stack) D1"
  proof (cases "i \<in> set (df_visited D)")
    case True
    then show ?thesis using e b by (simp add: enter_node_def)
  next
    case False
    then have D1: "ks = reach_next g i" "df_visited D1 = i # df_visited D" "df_on D1 = List.insert i (df_on D)" "df_back D1 = df_back D"
      using e by (simp_all add: enter_node_def)
    have "set (df_on D) = fst ` set stack" unfolding B(10) using B(11) False by (simp add: Int_absorb2)
    then have "set (df_on D1) = insert i (fst ` set stack) \<inter> set (df_visited D1)" "fst ` set stack \<subseteq> set (df_visited D1)"
      using D1(2,3) B(11) by auto
    moreover have "distinct (df_on D1)" "\<forall>(a, b) \<in> set (df_back D1). (a, a) \<in> (links g)\<^sup>+" "set ks \<subseteq> set (reach_next g i)"
      using D1(1,3,4) B(8,9) by simp_all
    ultimately show ?thesis using B(1-3,5-7) by (intro dfs_base_Cons)
  qed
  show v: "i \<in> set (df_visited D1)" using e by (auto simp: enter_node_def split: if_splits)
  show f: "finished ((i, ks) # stack) D1 = finished ((i, js) # stack) D"
    using e by (auto simp: enter_node_def finished_def split: if_splits)
  have "df_back D1 = df_back D" using e by (auto simp: enter_node_def split: if_splits)
  then show "dfs_clean g ((i, ks) # stack) D1"
    using c v f e by (cases "i \<in> set (df_visited D)") (auto simp: dfs_clean_def enter_node_def)
qed

lemma scan_keeps:
  assumes b: "dfs_base g ((i, ks) # stack) D1" and v: "i \<in> set (df_visited D1)"
    and s: "(r, D2) = scan_neighbors i ks D1"
  shows "\<forall>(a, b) \<in> set (df_back D2). (a, a) \<in> (links g)\<^sup>+" "df_visited D2 = df_visited D1" "df_on D2 = df_on D1"
proof -
  note B = dfs_baseD [OF b]
  have "(i, i) \<in> (links g)\<^sup>+" if "k \<in> set ks" "k \<in> set (df_on D1)" for k
  proof -
    have "(i, k) \<in> links g" using that(1) B(3,4) links_next by blast
    moreover have "(k, i) \<in> (links g)\<^sup>*" using that(2) B(6,10) by auto
    ultimately show ?thesis by (meson rtrancl_into_trancl2)
  qed
  then show "\<forall>(a, b) \<in> set (df_back D2). (a, a) \<in> (links g)\<^sup>+" using scan_back [OF s] B(8) by fastforce
  show "df_visited D2 = df_visited D1" "df_on D2 = df_on D1"
    using s scan_visited [of i ks D1] scan_on [of i ks D1] by (metis snd_conv)+
qed

lemma push_ok:
  assumes b: "dfs_base g ((i, ks) # stack) D1" and c: "dfs_clean g ((i, ks) # stack) D1"
    and v: "i \<in> set (df_visited D1)" and s: "(Some (j, rest), D2) = scan_neighbors i ks D1"
  shows "dfs_base g ((j, []) # (i, rest) # stack) D2" "dfs_clean g ((j, []) # (i, rest) # stack) D2"
proof -
  note B = dfs_baseD [OF b] and K = scan_keeps [OF b v s]
  obtain us where us: "ks = us @ j # rest" "j \<notin> set (df_visited D1)"
    "df_back D2 = [] \<longrightarrow> set us \<subseteq> set (df_visited D1) - set (df_on D1)"
    using scan_some [OF s] by blast
  have ij: "(i, j) \<in> links g" using us(1) B(3,4) links_next by auto
  have "(k, j) \<in> (links g)\<^sup>*" if "k \<in> insert i (fst ` set stack)" for k
    using that B(6) ij by (cases "k = i") (auto intro: rtrancl_into_rtrancl)
  moreover have i: "dfs_base g ((i, rest) # stack) D2"
    using B K us(1) by (intro dfs_base_Cons) auto
  note I = dfs_baseD [OF i]
  ultimately show "dfs_base g ((j, []) # (i, rest) # stack) D2"
    using us(2) v B K ij links_nodes [OF ij] i by (intro dfs_base_Cons) (auto simp: dfs_base_def)
  show "dfs_clean g ((j, []) # (i, rest) # stack) D2"
    unfolding dfs_clean_def
  proof (rule impI)
    assume n: "df_back D2 = []"
    then have "df_back D1 = []" using scan_back [OF s] by auto
    then have F: "closed_acyclic g (finished ((i, ks) # stack) D1)" "frames_done g (finished ((i, ks) # stack) D1) {} ((i, ks) # stack)"
      using c v by (simp_all add: dfs_clean_def)
    have f: "finished ((j, []) # (i, rest) # stack) D2 = finished ((i, ks) # stack) D1"
      using us(2) K(2) by (auto simp: finished_def)
    have "set us \<subseteq> finished ((i, ks) # stack) D1" using us(3) n B(10,11) v by (auto simp: finished_def)
    then have "frames_done g (finished ((i, ks) # stack) D1) {j} ((i, rest) # stack)" using F(2) us(1) by auto
    then show "closed_acyclic g (finished ((j, []) # (i, rest) # stack) D2)
      \<and> (case (j, []) # (i, rest) # stack of [] \<Rightarrow> True
         | (i', js) # st \<Rightarrow>
             if i' \<in> set (df_visited D2) then frames_done g (finished ((j, []) # (i, rest) # stack) D2) {} ((j, []) # (i, rest) # stack)
             else frames_done g (finished ((j, []) # (i, rest) # stack) D2) {i'} st)"
      using F(1) f us(2) K(2) by simp
  qed
qed

lemma pop_ok:
  assumes b: "dfs_base g ((i, ks) # stack) D1" and c: "dfs_clean g ((i, ks) # stack) D1"
    and v: "i \<in> set (df_visited D1)" and s: "(None, D2) = scan_neighbors i ks D1"
  defines "D3 \<equiv> D2\<lparr>df_on := remove1 i (df_on D2)\<rparr>"
  shows "dfs_base g stack D3" "dfs_clean g stack D3"
proof -
  note B = dfs_baseD [OF b] and K = scan_keeps [OF b v s]
  have on: "set (df_on D3) = fst ` set stack" using K(3) B(1,9,10,11) v by (auto simp: D3_def set_remove1_eq)
  show "dfs_base g stack D3"
    unfolding dfs_base_def
  proof (intro conjI)
    show "distinct (df_on D3)" using K(3) B(9) by (simp add: D3_def)
    show "set (df_on D3) = set (map fst stack) \<inter> set (df_visited D3)" using on K(2) B(11) by (auto simp: D3_def)
    show "set (tl (map fst stack)) \<subseteq> set (df_visited D3)"
      using K(2) B(11) by (cases stack) (auto simp: D3_def)
    show "\<forall>(a, b)\<in>set (df_back D3). (a, a) \<in> (links g)\<^sup>+" using K(1) by (simp add: D3_def)
  qed (use B in blast)+
  show "dfs_clean g stack D3"
    unfolding dfs_clean_def
  proof (rule impI)
    assume "df_back D3 = []"
    then have n: "df_back D2 = []" by (simp add: D3_def)
    then have "df_back D1 = []" using scan_back [OF s] by auto
    then have F: "closed_acyclic g (finished ((i, ks) # stack) D1)" "frames_done g (finished ((i, ks) # stack) D1) {} ((i, ks) # stack)"
      using c v by (simp_all add: dfs_clean_def)
    have f: "finished stack D3 = insert i (finished ((i, ks) # stack) D1)"
      using v B(1) K(2) by (auto simp: finished_def D3_def)
    have "set ks \<subseteq> finished ((i, ks) # stack) D1"
      using scan_none [OF s n] B(10,11) v by (auto simp: finished_def)
    then have "links g `` {i} \<subseteq> finished ((i, ks) # stack) D1" using F(2) B(3) links_next by auto
    moreover have "i \<notin> finished ((i, ks) # stack) D1" by (simp add: finished_def)
    ultimately have 1: "closed_acyclic g (finished stack D3)" using closed_acyclic_insert [OF F(1)] f by simp
    have "frames_done g (finished ((i, ks) # stack) D1) {i} stack" using F(2) by simp
    then have 2: "frames_done g (finished stack D3) {} stack" by (rule frames_done_mono) (auto simp: f)
    have "fst ` set stack \<subseteq> set (df_visited D3)" using B(11) K(2) by (simp add: D3_def)
    then show "closed_acyclic g (finished stack D3)
        \<and> (case stack of [] \<Rightarrow> True
           | (i', js) # st \<Rightarrow>
               if i' \<in> set (df_visited D3) then frames_done g (finished stack D3) {} stack
               else frames_done g (finished stack D3) {i'} st)"
      using 1 2 by (auto split: list.split)
  qed
qed

section \<open>The search\<close>

lemma enter_grows: "(ks, D1) = enter_node g i js D \<Longrightarrow> set (df_visited D1) = insert i (set (df_visited D))"
  by (auto simp: enter_node_def split: if_splits)

lemma dfs_loop_ok:
  "dfs_base g stack D \<Longrightarrow> dfs_clean g stack D \<Longrightarrow>
   dfs_base g [] (dfs_loop g stack D) \<and> dfs_clean g [] (dfs_loop g stack D)
   \<and> fst ` set stack \<union> set (df_visited D) \<subseteq> set (df_visited (dfs_loop g stack D))"
proof (induction g stack D rule: dfs_loop.induct)
  case (2 g i js stack D)
  obtain ks D1 where e: "(ks, D1) = enter_node g i js D" by (metis prod.exhaust)
  obtain r D2 where s: "(r, D2) = scan_neighbors i ks D1" by (metis prod.exhaust)
  note E = enter_ok [OF 2(3,4) e]
  note K = scan_keeps [OF E(1,3) s]
  show ?case
  proof (cases r)
    case None
    have "dfs_loop g ((i, js) # stack) D = dfs_loop g stack (D2\<lparr>df_on := remove1 i (df_on D2)\<rparr>)"
      using None by (simp add: dfs_loop.simps(2) e [symmetric] s [symmetric])
    then show ?thesis
      using 2(1) [OF e s None] pop_ok [OF E(1-3) s [unfolded None]] K(2) enter_grows [OF e] by auto
  next
    case (Some p)
    then obtain j rest where p: "r = Some (j, rest)" by (cases p) auto
    have "dfs_loop g ((i, js) # stack) D = dfs_loop g ((j, []) # (i, rest) # stack) D2"
      using p by (simp add: dfs_loop.simps(2) e [symmetric] s [symmetric])
    then show ?thesis
      using 2(2) [OF e s p refl] push_ok [OF E(1-3) s [unfolded p]] K(2) enter_grows [OF e] by auto
  qed
qed simp

lemma dfs_fold_ok:
  assumes "list_all (\<lambda>i. dict_has (g_nodes g) i) ids" "dfs_base g [] D" "dfs_clean g [] D"
  shows "dfs_base g [] (foldl (\<lambda>D i. if i \<notin> set (df_visited D) then dfs_loop g [(i, [])] D else D) D ids)
    \<and> dfs_clean g [] (foldl (\<lambda>D i. if i \<notin> set (df_visited D) then dfs_loop g [(i, [])] D else D) D ids)
    \<and> set ids \<union> set (df_visited D)
        \<subseteq> set (df_visited (foldl (\<lambda>D i. if i \<notin> set (df_visited D) then dfs_loop g [(i, [])] D else D) D ids))"
  using assms
proof (induction ids arbitrary: D)
  case (Cons i ids)
  let ?D = "if i \<notin> set (df_visited D) then dfs_loop g [(i, [])] D else D"
  have "dfs_base g [] ?D \<and> dfs_clean g [] ?D \<and> insert i (set (df_visited D)) \<subseteq> set (df_visited ?D)"
  proof (cases "i \<in> set (df_visited D)")
    case False
    have "dfs_base g [(i, [])] D" using Cons.prems False by (intro dfs_base_Cons) (simp_all add: dfs_base_def)
    moreover have "finished [(i, [])] D = finished [] D" using False by (auto simp: finished_def)
    then have "dfs_clean g [(i, [])] D" using Cons.prems(3) False by (simp add: dfs_clean_def)
    ultimately show ?thesis using dfs_loop_ok [of g "[(i, [])]" D] False by simp
  qed (use Cons.prems in simp)
  then show ?case using Cons.IH [of ?D] Cons.prems(1) by auto
qed simp

text \<open>\<open>_has_cycle\<close> decides whether some node reaches itself.\<close>

theorem has_cycle_correct: "has_cycle g \<longleftrightarrow> (\<exists>i. (i, i) \<in> (links g)\<^sup>+)"
proof -
  let ?D0 = "\<lparr>df_visited = [], df_on = [], df_back = []\<rparr>"
  define D where "D = foldl (\<lambda>D i. if i \<notin> set (df_visited D) then dfs_loop g [(i, [])] D else D) ?D0 (dict_keys (g_nodes g))"
  have "dfs_base g [] ?D0" by (simp add: dfs_base_def)
  moreover have "dfs_clean g [] ?D0" by (simp add: dfs_clean_def closed_acyclic_def finished_def acyclic_def)
  ultimately have D: "dfs_base g [] D" "dfs_clean g [] D" "set (dict_keys (g_nodes g)) \<subseteq> set (df_visited D)"
    using dfs_fold_ok [of g "dict_keys (g_nodes g)" ?D0] unfolding D_def by (simp_all add: list_all_iff dict_has_def)
  have bk: "find_back_edges g = df_back D" by (simp add: find_back_edges_def D_def)
  show ?thesis
  proof
    assume "has_cycle g"
    then obtain a b where "(a, b) \<in> set (df_back D)" using bk by (cases "df_back D") (auto simp: has_cycle_def)
    then show "\<exists>i. (i, i) \<in> (links g)\<^sup>+" using D(1) by (auto simp: dfs_base_def)
  next
    assume c: "\<exists>i. (i, i) \<in> (links g)\<^sup>+"
    show "has_cycle g"
    proof (rule ccontr)
      assume "\<not> has_cycle g"
      then have "closed_acyclic g (set (df_visited D))"
        using D(2) bk by (simp add: has_cycle_def dfs_clean_def finished_def)
      moreover have "links g \<subseteq> set (df_visited D) \<times> set (df_visited D)"
        using D(3) links_nodes by (fastforce simp: dict_has_def)
      then have "links g \<inter> set (df_visited D) \<times> set (df_visited D) = links g" by blast
      ultimately show False using c by (simp add: closed_acyclic_def acyclic_def)
    qed
  qed
qed

end
