(* ===== verification/Lint_Rules_Facts.thy ===== *)
theory Lint_Rules_Facts
  imports Lint_Rules Lint_Cycle_Facts
begin

text \<open>
  Facts about the rules of \<open>Lint_Rules\<close>: blanks around a condition do not matter to its parser; the search
  behind TOPO-006 finds a plain path to an exit exactly when there is one; the walk behind TOPO-007 is
  reachability over the success projection.
\<close>

section \<open>Conditions and blanks\<close>

lemma split_go_acc: "split_go ''&&'' acc s = (rev acc @ hd (split_go ''&&'' [] s)) # tl (split_go ''&&'' [] s)"
proof (induction s arbitrary: acc)
  case (Cons c cs)
  show ?case
  proof (cases "startswith ''&&'' (c # cs)")
    case False
    then have "split_go ''&&'' acc' (c # cs) = split_go ''&&'' (c # acc') cs" for acc'
      by (simp only: split_go.simps if_False)
    then show ?thesis using Cons [of "c # acc"] Cons [of "[c]"] by (simp only:) simp
  next
    case True
    then have "\<exists>t. c # cs = CHR ''&'' # CHR ''&'' # t" unfolding startswith_double .
    then obtain t where "c = CHR ''&''" "cs = CHR ''&'' # t" by blast
    then show ?thesis by simp
  qed
qed simp

lemma split_go_ne: "split_go ''&&'' acc s \<noteq> []"
  by (subst split_go_acc) simp

lemma amp_not_space: "list_all py_isspace b \<Longrightarrow> CHR ''&'' \<notin> set b"
  by (auto simp: list_all_iff py_isspace_def)

lemma split_go_before:
  "CHR ''&'' \<notin> set a \<Longrightarrow> split_go ''&&'' acc (a @ s) = split_go ''&&'' (rev a @ acc) s"
  by (induction a arbitrary: acc) auto

lemma startswith_amp_append:
  "CHR ''&'' \<notin> set b \<Longrightarrow> startswith ''&&'' (s @ b) = startswith ''&&'' s"
  by (cases s; cases "tl s"; cases b) (auto simp: startswith_double)

lemma split_go_after:
  "CHR ''&'' \<notin> set b \<Longrightarrow>
   split_go ''&&'' acc (s @ b) = butlast (split_go ''&&'' acc s) @ [last (split_go ''&&'' acc s) @ b]"
proof (induction "length s" arbitrary: s acc rule: less_induct)
  case less
  show ?case
  proof (cases s)
    case Nil
    then show ?thesis using split_go_no_amp [OF less.prems, of acc] by simp
  next
    case (Cons c cs)
    show ?thesis
    proof (cases "startswith ''&&'' s")
      case True
      then obtain t where t: "s = CHR ''&'' # CHR ''&'' # t" by (auto simp: startswith_double)
      have "split_go ''&&'' [] (t @ b) = butlast (split_go ''&&'' [] t) @ [last (split_go ''&&'' [] t) @ b]"
        using less.hyps [of t "[]"] less.prems t by simp
      then show ?thesis using split_go_ne [of "[]" t] by (simp add: t)
    next
      case False
      then have "split_go ''&&'' acc (s @ b) = split_go ''&&'' (c # acc) (cs @ b)"
        using startswith_amp_append [OF less.prems, of s] Cons by (simp only: append_Cons split_go.simps if_False)
      moreover have "split_go ''&&'' acc s = split_go ''&&'' (c # acc) cs"
        using False Cons by (simp only: split_go.simps if_False)
      ultimately show ?thesis using less.hyps [of cs "c # acc"] less.prems Cons by simp
    qed
  qed
qed

lemma py_strip_front: "list_all py_isspace a \<Longrightarrow> py_strip (a @ s) = py_strip s"
  by (simp add: py_strip_def py_lstrip_def list_all_iff)

lemma py_strip_back:
  assumes "list_all py_isspace b"
  shows "py_strip (s @ b) = py_strip s"
proof -
  have l: "py_lstrip (s @ b) = (if list_all py_isspace s then [] else py_lstrip s @ b)"
    using assms unfolding py_lstrip_def by (auto simp: list_all_iff dropWhile_append)
  have "py_rstrip (py_lstrip s @ b) = py_rstrip (py_lstrip s)"
    unfolding py_rstrip_def rev_append using assms
    by (subst dropWhile_append2) (simp_all add: list_all_iff)
  moreover have "list_all py_isspace s \<Longrightarrow> py_lstrip s = []" by (simp add: py_lstrip_def list_all_iff)
  ultimately show ?thesis using l by (auto simp: py_strip_def py_rstrip_def)
qed

lemma strip_pad: "\<exists>a b. s = a @ py_strip s @ b \<and> list_all py_isspace a \<and> list_all py_isspace b"
proof -
  have a: "s = takeWhile py_isspace s @ py_lstrip s" "list_all py_isspace (takeWhile py_isspace s)"
    by (auto simp: py_lstrip_def list_all_iff dest: set_takeWhileD)
  let ?t = "py_lstrip s"
  have "rev ?t = takeWhile py_isspace (rev ?t) @ dropWhile py_isspace (rev ?t)" by simp
  then have b: "?t = py_strip s @ rev (takeWhile py_isspace (rev ?t))"
    unfolding py_strip_def py_rstrip_def by (metis rev_append rev_rev_ident)
  have "list_all py_isspace (rev (takeWhile py_isspace (rev ?t)))" by (auto simp: list_all_iff dest: set_takeWhileD)
  then show ?thesis using a b by (intro exI [of _ "takeWhile py_isspace s"] exI [of _ "rev (takeWhile py_isspace (rev ?t))"]) metis
qed

lemma map_strip_last:
  assumes "list_all py_isspace b" "xs \<noteq> []"
  shows "map py_strip (butlast xs @ [last xs @ b]) = map py_strip xs"
proof -
  have "map py_strip (butlast xs @ [last xs @ b]) = map py_strip (butlast xs @ [last xs])"
    using py_strip_back [OF assms(1)] by simp
  then show ?thesis using assms(2) by simp
qed

lemma parse_condition_strip: "parse_condition (py_strip s) = parse_condition s"
proof -
  obtain a b where s: "s = a @ py_strip s @ b" and a: "list_all py_isspace a" and b: "list_all py_isspace b"
    using strip_pad by blast
  let ?t = "py_strip s"
  have "split_go ''&&'' [] s = split_go ''&&'' (rev a) (?t @ b)"
    using split_go_before [OF amp_not_space [OF a], of "[]" "?t @ b"] s by simp
  also have "\<dots> = (a @ hd (split_go ''&&'' [] (?t @ b))) # tl (split_go ''&&'' [] (?t @ b))"
    using split_go_acc [of "rev a"] by simp
  finally have "map py_strip (split_go ''&&'' [] s) = map py_strip (split_go ''&&'' [] (?t @ b))"
    using py_strip_front [OF a] split_go_ne [of "[]" "?t @ b"] by (cases "split_go ''&&'' [] (?t @ b)") simp_all
  also have "\<dots> = map py_strip (split_go ''&&'' [] ?t)"
    using split_go_after [OF amp_not_space [OF b], of "[]" ?t] map_strip_last [OF b split_go_ne] by simp
  finally show ?thesis by (simp add: parse_condition_eq py_split_def)
qed

section \<open>TOPO-006: the plain paths to an exit\<close>

text \<open>A plain link, and what the search looks for: ids from \<open>start\<close> to an exit, each linked plainly to
  the next, none of them re-gating, no exit on the way, and one of them without a \<open>runs_on\<close> mark.\<close>

definition plain_link :: "graph \<Rightarrow> string \<Rightarrow> string \<Rightarrow> bool" where
  "plain_link g i j = list_ex (\<lambda>e. is_plain e \<and> to_node e = j) (outgoing_edges g i)"

fun linked :: "('a \<Rightarrow> 'a \<Rightarrow> bool) \<Rightarrow> 'a list \<Rightarrow> bool" where
  "linked R (i # j # is) = (R i j \<and> linked R (j # is))"
| "linked R is = True"

lemma linked_append: "linked R (is @ [i, j]) \<longleftrightarrow> linked R (is @ [i]) \<and> R i j"
  by (induction R "is" rule: linked.induct) (auto simp: neq_Nil_conv)

definition pass_prefix :: "graph \<Rightarrow> string list \<Rightarrow> string \<Rightarrow> string list \<Rightarrow> bool" where
  "pass_prefix g exits start p =
     (p \<noteq> [] \<and> hd p = start \<and> linked (plain_link g) p \<and> list_all (dict_has (g_nodes g)) p
      \<and> list_all (\<lambda>i. i \<notin> set exits) (tl p) \<and> \<not> list_ex (node_regates g) (butlast p))"

definition pass_path :: "graph \<Rightarrow> string list \<Rightarrow> string \<Rightarrow> string list \<Rightarrow> bool" where
  "pass_path g exits start p =
     (length p \<ge> 2 \<and> pass_prefix g exits start (butlast p) \<and> \<not> node_regates g (last (butlast p))
      \<and> plain_link g (last (butlast p)) (last p) \<and> last p \<in> set exits \<and> list_ex (unmarked g) (butlast p))"

lemma pass_prefix_start: "dict_has (g_nodes g) start \<Longrightarrow> pass_prefix g exits start [start]"
  by (simp add: pass_prefix_def)

lemma pass_prefix_snoc:
  assumes "p \<noteq> []"
  shows "pass_prefix g exits start (p @ [j]) \<longleftrightarrow>
    pass_prefix g exits start p \<and> \<not> node_regates g (last p) \<and> plain_link g (last p) j \<and> dict_has (g_nodes g) j \<and> j \<notin> set exits"
proof -
  obtain q i where p: "p = q @ [i]" using assms by (cases p rule: rev_cases) auto
  show ?thesis
    using linked_append [of "plain_link g" q i j] by (cases q) (auto simp: p pass_prefix_def butlast_append)
qed

text \<open>The edges of one node.\<close>

definition hop_targets :: "graph \<Rightarrow> string list \<Rightarrow> edge list \<Rightarrow> string set" where
  "hop_targets g exits es = {to_node e | e. e \<in> set es \<and> is_plain e \<and> to_node e \<notin> set exits \<and> dict_has (g_nodes g) (to_node e)}"

lemma plain_hops_found:
  "plain_hops g exits u path es sn = Inl found \<Longrightarrow>
   u \<and> (\<exists>e \<in> set es. is_plain e \<and> to_node e \<in> set exits \<and> found = path @ [to_node e])"
  by (induction g exits u path es sn rule: plain_hops.induct) (auto simp: Let_def split: if_splits sum.splits prod.splits)

lemma plain_hops_new:
  "plain_hops g exits u path es sn = Inr (new, sn') \<Longrightarrow>
   set sn' = set sn \<union> (\<lambda>j. (j, u \<or> unmarked g j)) ` hop_targets g exits es
   \<and> set sn' \<subseteq> set sn \<union> (\<lambda>(j, v, p). (j, v)) ` set new
   \<and> (\<forall>(j, v, p) \<in> set new. j \<in> hop_targets g exits es \<and> v = (u \<or> unmarked g j) \<and> p = path @ [j])
   \<and> (u \<longrightarrow> (\<forall>e \<in> set es. is_plain e \<longrightarrow> to_node e \<notin> set exits))"
proof (induction g exits u path es sn arbitrary: new sn' rule: plain_hops.induct)
  case (1 g exits u path sn)
  then show ?case by (auto simp: hop_targets_def)
next
  case (2 g exits u path e es sn)
  let ?j = "to_node e" let ?v = "u \<or> unmarked g ?j"
  show ?case
  proof (cases "is_plain e \<and> ?j \<notin> set exits \<and> dict_has (g_nodes g) ?j")
    case True
    then have T: "hop_targets g exits (e # es) = insert ?j (hop_targets g exits es)" by (auto simp: hop_targets_def)
    show ?thesis
    proof (cases "(?j, ?v) \<in> set sn")
      case sn: True
      then have "plain_hops g exits u path es sn = Inr (new, sn')" using 2(6) True by (simp add: Let_def)
      from 2(4) [OF refl refl _ _ _ sn this] True T sn show ?thesis by auto
    next
      case False
      then obtain new1 where n: "plain_hops g exits u path es ((?j, ?v) # sn) = Inr (new1, sn')"
          "new = (?j, ?v, path @ [?j]) # new1"
        using 2(6) True by (auto simp: Let_def split: sum.splits)
      have ih: "set sn' = set ((?j, ?v) # sn) \<union> (\<lambda>j. (j, u \<or> unmarked g j)) ` hop_targets g exits es"
          "set sn' \<subseteq> set ((?j, ?v) # sn) \<union> (\<lambda>(j, v, p). (j, v)) ` set new1"
          "\<forall>(j, v, p) \<in> set new1. j \<in> hop_targets g exits es \<and> v = (u \<or> unmarked g j) \<and> p = path @ [j]"
          "u \<longrightarrow> (\<forall>e \<in> set es. is_plain e \<longrightarrow> to_node e \<notin> set exits)"
        using 2(5) [OF refl refl _ _ _ False n(1)] True by (simp, blast)+
      show ?thesis
      proof (intro conjI)
        show "set sn' = set sn \<union> (\<lambda>j. (j, u \<or> unmarked g j)) ` hop_targets g exits (e # es)"
          unfolding ih(1) T by auto
        show "set sn' \<subseteq> set sn \<union> (\<lambda>(j, v, p). (j, v)) ` set new" using ih(2) unfolding n(2) by auto
        show "\<forall>(j, v, p) \<in> set new. j \<in> hop_targets g exits (e # es) \<and> v = (u \<or> unmarked g j) \<and> p = path @ [j]"
          using ih(3) unfolding n(2) T by auto
        show "u \<longrightarrow> (\<forall>e' \<in> set (e # es). is_plain e' \<longrightarrow> to_node e' \<notin> set exits)" using ih(4) True by auto
      qed
    qed
  next
    case False
    then have T: "hop_targets g exits (e # es) = hop_targets g exits es" by (auto simp: hop_targets_def)
    consider "\<not> is_plain e" | "is_plain e" "?j \<in> set exits" | "is_plain e" "?j \<notin> set exits" "\<not> dict_has (g_nodes g) ?j"
      using False by blast
    then show ?thesis
    proof cases
      case 1
      then have h: "plain_hops g exits u path es sn = Inr (new, sn')" using 2(6) by (simp add: Let_def)
      show ?thesis using 2(1) [OF refl refl 1 h] 1 unfolding T by - (elim conjE, simp)
    next
      case c: 2
      then have nn: "\<not> \<not> is_plain e" by simp
      from c have u: "\<not> u" and h: "plain_hops g exits u path es sn = Inr (new, sn')"
        using 2(6) by (simp_all add: Let_def split: if_splits)
      show ?thesis using 2(2) [OF refl refl nn c(2) u h] c u unfolding T by - (elim conjE, simp)
    next
      case c: 3
      then have nn: "\<not> \<not> is_plain e" by simp
      from c have h: "plain_hops g exits u path es sn = Inr (new, sn')" using 2(6) by (simp add: Let_def)
      show ?thesis using 2(3) [OF refl refl nn c(2,3) h] c unfolding T by - (elim conjE, simp)
    qed
  qed
qed

text \<open>A state that is dealt with: its node re-gates, or all its hops are seen and none ends the search.\<close>

definition dealt :: "graph \<Rightarrow> string list \<Rightarrow> hop_state set \<Rightarrow> hop_state \<Rightarrow> bool" where
  "dealt g exits S s =
     (node_regates g (fst s)
      \<or> (\<forall>j \<in> hop_targets g exits (outgoing_edges g (fst s)). (j, snd s \<or> unmarked g j) \<in> S)
        \<and> (snd s \<longrightarrow> (\<forall>e \<in> set (outgoing_edges g (fst s)). is_plain e \<longrightarrow> to_node e \<notin> set exits)))"

lemma dealt_mono: "dealt g exits S s \<Longrightarrow> S \<subseteq> T \<Longrightarrow> dealt g exits T s"
  unfolding dealt_def by (elim disjE conjE) (blast intro: disjI2)+

definition queued :: "graph \<Rightarrow> string list \<Rightarrow> string \<Rightarrow> string \<times> bool \<times> string list \<Rightarrow> bool" where
  "queued g exits start q =
     (case q of (i, u, p) \<Rightarrow> pass_prefix g exits start p \<and> last p = i \<and> u = list_ex (unmarked g) p)"

definition hop_inv :: "graph \<Rightarrow> string list \<Rightarrow> string \<Rightarrow> (string \<times> bool \<times> string list) list \<Rightarrow> hop_state list \<Rightarrow> bool" where
  "hop_inv g exits start queue sn =
     (list_all (queued g exits start) queue
      \<and> (\<forall>s \<in> set sn. s \<in> (\<lambda>(j, v, p). (j, v)) ` set queue \<or> dealt g exits (set sn) s))"

lemma queued_hop:
  assumes "queued g exits start (i, u, path)" "\<not> node_regates g i" "j \<in> hop_targets g exits (outgoing_edges g i)"
  shows "queued g exits start (j, u \<or> unmarked g j, path @ [j])"
proof -
  have "path \<noteq> []" using assms(1) by (auto simp: queued_def pass_prefix_def)
  moreover have "plain_link g i j" using assms(3) by (auto simp: hop_targets_def plain_link_def list_ex_iff)
  ultimately show ?thesis
    using assms pass_prefix_snoc [of path g exits start j] by (auto simp: queued_def hop_targets_def)
qed

lemma hop_found:
  assumes "queued g exits start (i, True, path)" "\<not> node_regates g i" "e \<in> set (outgoing_edges g i)" "is_plain e"
    "to_node e \<in> set exits"
  shows "pass_path g exits start (path @ [to_node e])"
proof -
  have "path \<noteq> []" using assms(1) by (auto simp: queued_def pass_prefix_def)
  moreover have "plain_link g i (to_node e)" using assms(3,4) by (auto simp: plain_link_def list_ex_iff)
  ultimately show ?thesis using assms by (cases path) (auto simp: queued_def pass_path_def)
qed

lemma hop_inv_regates:
  "hop_inv g exits start ((i, u, path) # queue) sn \<Longrightarrow> node_regates g i \<Longrightarrow> hop_inv g exits start queue sn"
  by (auto simp: hop_inv_def dealt_def)

lemma hop_inv_step:
  assumes I: "hop_inv g exits start ((i, u, path) # queue) sn" and i: "\<not> node_regates g i"
    and h: "plain_hops g exits u path (outgoing_edges g i) sn = Inr (new, sn')"
  shows "hop_inv g exits start (queue @ new) sn'" and "set sn \<subseteq> set sn'"
proof -
  let ?st = "\<lambda>(j, v, p). (j, v)" let ?T = "hop_targets g exits (outgoing_edges g i)"
  note n = plain_hops_new [OF h]
  have q: "queued g exits start (i, u, path)" "list_all (queued g exits start) queue"
    using I by (simp_all add: hop_inv_def)
  show sub: "set sn \<subseteq> set sn'" using n by blast
  have "queued g exits start s" if s: "s \<in> set new" for s
  proof -
    obtain j v p where s2: "s = (j, v, p)" by (cases s) auto
    then have "j \<in> ?T" "v = (u \<or> unmarked g j)" "p = path @ [j]" using n s by auto
    then show ?thesis using queued_hop [OF q(1) i] s2 by simp
  qed
  moreover have "s \<in> ?st ` set (queue @ new) \<or> dealt g exits (set sn') s" if s: "s \<in> set sn'" for s
  proof -
    have here: "dealt g exits (set sn') (i, u)" using n unfolding dealt_def by auto
    consider "s \<in> set sn" | "s \<in> ?st ` set new" using n s by blast
    then show ?thesis
    proof cases
      case 1
      then consider "s = (i, u)" | "s \<in> ?st ` set queue" | "dealt g exits (set sn) s"
        using I by (auto simp: hop_inv_def)
      then show ?thesis using here dealt_mono [OF _ sub] by cases (simp_all add: image_Un)
    next
      case 2
      then show ?thesis by (simp add: image_Un)
    qed
  qed
  ultimately show "hop_inv g exits start (queue @ new) sn'"
    using q(2) unfolding hop_inv_def list_all_iff set_append by blast
qed

lemma passthrough_search:
  "hop_inv g exits start queue sn \<Longrightarrow>
   (case passthrough_path g exits queue sn of
      Some p \<Rightarrow> pass_path g exits start p
    | None \<Rightarrow> \<exists>S. set sn \<subseteq> S \<and> (\<forall>s \<in> S. dealt g exits S s))"
proof (induction g exits queue sn rule: passthrough_path.induct)
  case (1 g exits sn)
  then show ?case by (auto simp: hop_inv_def intro: exI [of _ "set sn"])
next
  case (2 g exits i u path queue sn)
  show ?case
  proof (cases "node_regates g i")
    case True
    then show ?thesis using 2(1) [OF True hop_inv_regates [OF 2(3) True]] by (simp add: passthrough_path.simps(2))
  next
    case False
    show ?thesis
    proof (cases "plain_hops g exits u path (outgoing_edges g i) sn")
      case (Inl f)
      have "queued g exits start (i, u, path)" using 2(3) by (simp add: hop_inv_def)
      then show ?thesis using plain_hops_found [OF Inl] hop_found [OF _ False] False Inl
        by (auto simp: passthrough_path.simps(2))
    next
      case (Inr r)
      obtain new sn' where r: "r = (new, sn')" by (cases r) auto
      note st = hop_inv_step [OF 2(3) False Inr [unfolded r]]
      have "passthrough_path g exits ((i, u, path) # queue) sn = passthrough_path g exits (queue @ new) sn'"
        using False Inr r by (simp add: passthrough_path.simps(2))
      then show ?thesis using 2(2) [OF False Inr r [symmetric] st(1)] st(2)
        by (auto split: option.splits)
    qed
  qed
qed

text \<open>Every path is followed by a set of states that are all dealt with.\<close>

lemma prefix_followed:
  assumes S: "\<forall>s \<in> S. dealt g exits S s" and start: "(start, unmarked g start) \<in> S"
  shows "pass_prefix g exits start p \<Longrightarrow> (last p, list_ex (unmarked g) p) \<in> S"
proof (induction p rule: rev_induct)
  case (snoc j p)
  show ?case
  proof (cases "p = []")
    case True
    then show ?thesis using snoc(2) start by (simp add: pass_prefix_def)
  next
    case False
    then have p: "pass_prefix g exits start p" "\<not> node_regates g (last p)" "plain_link g (last p) j"
        "dict_has (g_nodes g) j" "j \<notin> set exits"
      using snoc(2) pass_prefix_snoc by simp_all
    then have "j \<in> hop_targets g exits (outgoing_edges g (last p))"
      by (auto simp: hop_targets_def plain_link_def list_ex_iff)
    then show ?thesis using S snoc(1) [OF p(1)] p(2) unfolding dealt_def by fastforce
  qed
qed (simp add: pass_prefix_def)

theorem passthrough_correct:
  "case unmarked_passthrough_path_to_exit g start exits of
     Some p \<Rightarrow> pass_path g exits start p
   | None \<Rightarrow> \<not> pass_path g exits start p"
proof (cases "dict_has (g_nodes g) start")
  case False
  then show ?thesis
    by (cases "butlast p") (auto simp: unmarked_passthrough_path_to_exit_def pass_path_def pass_prefix_def)
next
  case True
  let ?q = "[(start, unmarked g start, [start])]" let ?sn = "[(start, unmarked g start)]"
  have "hop_inv g exits start ?q ?sn" using pass_prefix_start [OF True] by (simp add: hop_inv_def queued_def)
  note c = passthrough_search [OF this]
  show ?thesis
  proof (cases "passthrough_path g exits ?q ?sn")
    case (Some r)
    then show ?thesis using c True by (simp add: unmarked_passthrough_path_to_exit_def)
  next
    case None
    then obtain S where S: "(start, unmarked g start) \<in> S" "\<forall>s \<in> S. dealt g exits S s" using c by auto
    have "\<not> pass_path g exits start p"
    proof
      assume p: "pass_path g exits start p"
      let ?b = "butlast p"
      have "(last ?b, True) \<in> S" using prefix_followed [OF S(2,1), of ?b] p by (simp add: pass_path_def)
      then show False using S(2) p by (fastforce simp: dealt_def pass_path_def plain_link_def list_ex_iff)
    qed
    then show ?thesis using None True by (simp add: unmarked_passthrough_path_to_exit_def)
  qed
qed

section \<open>TOPO-007: the walk\<close>

definition projection :: "graph \<Rightarrow> (string \<times> string) set" where
  "projection g = {(i, j). j \<in> set (projected g i)}"

lemma walk_new_eq:
  "walk_new js reachable stack = (reachable', stack') \<Longrightarrow>
   set reachable' = set reachable \<union> set js \<and> set stack' = set stack \<union> (set js - set reachable)"
  by (induction js reachable stack rule: walk_new.induct) (auto split: if_splits)

lemma walk_correct:
  "set stack \<subseteq> set reachable \<Longrightarrow> (\<forall>i \<in> set reachable - set stack. set (projected g i) \<subseteq> set reachable) \<Longrightarrow>
   set reachable \<subseteq> (projection g)\<^sup>* `` {t} \<Longrightarrow> t \<in> set reachable \<Longrightarrow>
   set (walk g stack reachable) = (projection g)\<^sup>* `` {t}"
proof (induction g stack reachable rule: walk.induct)
  case (1 g reachable)
  have "j \<in> set reachable" if "(t, j) \<in> (projection g)\<^sup>*" for j
    using that by (induction rule: rtrancl_induct) (use 1 in \<open>auto simp: projection_def\<close>)
  then show ?case using 1(3) by auto
next
  case (2 g i stack reachable)
  obtain r' s' where n: "walk_new (projected g i) reachable stack = (r', s')" by fastforce
  note w = walk_new_eq [OF n]
  have "(t, j) \<in> (projection g)\<^sup>*" if "j \<in> set (projected g i)" for j
    using that 2(2,4) by (auto simp: projection_def intro: rtrancl_into_rtrancl)
  then have "set (walk g s' r') = (projection g)\<^sup>* `` {t}"
    using 2(2-5) w by (intro 2(1) [OF n [symmetric]]) auto
  then show ?case using n by (simp add: walk.simps(2))
qed

lemma walk_from: "set (walk g [t] [t]) = {j. (t, j) \<in> (projection g)\<^sup>*}"
  using walk_correct [of "[t]" "[t]" g t] by auto

end
