(* ===== verification/Lint_Properties.thy ===== *)
theory Lint_Properties
  imports Dot_Properties Lint_Rules_Facts
begin

text \<open>
  The properties of the topological linter: its two cycle searches are exact, the path search of TOPO-006
  and the walk of TOPO-007 decide what the rules say, and what TOPO-001 and TOPO-005 take for granted
  about the engine is compared with the engine.
\<close>

lemma concat_map_Nil: "concat (map f xs) = [] \<longleftrightarrow> (\<forall>x \<in> set xs. f x = [])"
  by auto

section \<open>Cycles\<close>

lemma set_nodes_on_cycles: "set (nodes_on_cycles g) = \<Union> (set (map set (compute_sccs g)))"
proof -
  have "set (foldl (\<lambda>r c. remdups (r @ c)) acc cs) = set acc \<union> \<Union> (set (map set cs))" for acc :: "string list" and cs
    by (induction cs arbitrary: acc) auto
  then show ?thesis by (simp add: nodes_on_cycles_def)
qed

lemma mutual_cyclic: "(i, i) \<in> R\<^sup>+ \<Longrightarrow> mutual R i j \<Longrightarrow> (j, j) \<in> R\<^sup>+"
  unfolding mutual_def by (meson rtrancl_trancl_trancl trancl_rtrancl_trancl)

text \<open>C33: Kosaraju's passes return exactly the classes of mutually reachable nodes that lie on a cycle, no node
  in two of them; the depth-first search for back edges agrees that there is one; and TOPO-003 stays
  silent exactly on the graphs with a cycle of declared nodes.\<close>

theorem cycle_searches_exact:
  "set (map set (compute_sccs g)) = {{j. mutual (links g) i j} | i. (i, i) \<in> (links g)\<^sup>+}
   \<and> distinct (concat (compute_sccs g))
   \<and> set (nodes_on_cycles g) = {i. (i, i) \<in> (links g)\<^sup>+}
   \<and> (has_cycle g \<longleftrightarrow> compute_sccs g \<noteq> [])
   \<and> (check_acyclic_graph g = [] \<longleftrightarrow> (\<exists>i. (i, i) \<in> (links g)\<^sup>+))"
proof (intro conjI)
  note S = compute_sccs_correct [of g, THEN conjunct1]
  show "set (map set (compute_sccs g)) = {{j. mutual (links g) i j} | i. (i, i) \<in> (links g)\<^sup>+}" by (rule S)
  show "distinct (concat (compute_sccs g))" by (rule compute_sccs_correct [THEN conjunct2])
  show "set (nodes_on_cycles g) = {i. (i, i) \<in> (links g)\<^sup>+}"
    unfolding set_nodes_on_cycles S
  proof (intro set_eqI iffI)
    fix j assume "j \<in> {i. (i, i) \<in> (links g)\<^sup>+}"
    then show "j \<in> \<Union> {{j. mutual (links g) i j} | i. (i, i) \<in> (links g)\<^sup>+}"
      by (intro UnionI [of "{k. mutual (links g) j k}"]) auto
  next
    fix j assume "j \<in> \<Union> {{j. mutual (links g) i j} | i. (i, i) \<in> (links g)\<^sup>+}"
    then obtain i where "(i, i) \<in> (links g)\<^sup>+" "mutual (links g) i j" by blast
    then show "j \<in> {i. (i, i) \<in> (links g)\<^sup>+}" using mutual_cyclic by simp
  qed
  have "compute_sccs g \<noteq> [] \<longleftrightarrow> set (map set (compute_sccs g)) \<noteq> {}" by simp
  also have "\<dots> \<longleftrightarrow> (\<exists>i. (i, i) \<in> (links g)\<^sup>+)" unfolding S by blast
  finally show "has_cycle g \<longleftrightarrow> compute_sccs g \<noteq> []" by (simp add: has_cycle_correct)
  show "check_acyclic_graph g = [] \<longleftrightarrow> (\<exists>i. (i, i) \<in> (links g)\<^sup>+)"
    by (simp add: check_acyclic_graph_def has_cycle_correct)
qed

section \<open>TOPO-001\<close>

lemma dead_clause_false:
  assumes "dead_clause cl"
  shows "\<not> evaluate_clause cl (conditional_execute n) c"
proof -
  obtain key op val where cl: "cl = (key, op, val)" by (cases cl) auto
  have r: "resolve_key ''outcome'' (conditional_execute n) c = ''success''"
    by (simp add: resolve_key_def conditional_execute_def mk_outcome_def status_value_def)
  consider "key = ''outcome''" "op = ''!=''" "val = ''success''" | "key = ''outcome''" "op = ''=''" "val \<in> {''fail'', ''error''}"
    using assms unfolding dead_clause_def cl prod.case by (elim disjE conjE) (rule that; assumption)+
  then show ?thesis
  proof cases
    case 1
    then show ?thesis by (simp add: cl evaluate_clause_def r)
  next
    case 2
    then have "val \<noteq> ''success''" by auto
    then show ?thesis using 2(1,2) by (simp add: cl evaluate_clause_def r)
  qed
qed

lemma dead_condition_false:
  "list_ex dead_clause (parse_condition (cond_of e)) \<Longrightarrow> \<not> evaluate_condition (e_condition e) (conditional_execute n) c"
  unfolding cond_of_def parse_condition_strip evaluate_condition_eq
  by (auto simp: list_all_iff list_ex_iff dest: dead_clause_false)

text \<open>Every edge TOPO-001 reports leaves a conditional node and its condition is false on the outcome of
  that node's handler, whatever the context holds.\<close>

theorem dead_edges_never_fire:
  "list_all (\<lambda>d. \<exists>n e. n \<in> set (graph_nodes g) \<and> is_diamond n \<and> e \<in> set (outgoing_edges g (n_id n))
       \<and> d_node_id d = n_id n \<and> d_edge d = Some (from_node e, to_node e)
       \<and> \<not> evaluate_condition (e_condition e) (conditional_execute n) c) (check_dead_conditional_edge g)"
  unfolding check_dead_conditional_edge_def outgoing_of_def list_all_iff
  by (auto simp: Let_def node_edge_diag_def edge_diag_def graph_diag_def split: if_splits dest!: dead_condition_false)

text \<open>The outcome the engine routes by need not be the handler's: a skipped node routes with FAIL, so an
  edge on \<open>outcome=fail\<close> out of a conditional node is followed.\<close>

lemma skipped_diamond_takes_dead_edge:
  assumes "e \<in> set (outgoing_edges g (n_id n))" "parse_condition (e_condition e) = [(''outcome'', ''='', ''fail'')]"
  shows "\<exists>e'. skip_edge g n (skip_routing out) c = Some e' \<and> e_condition e' \<noteq> []
    \<and> evaluate_condition (e_condition e') (skip_routing out) c"
proof -
  let ?es = "outgoing_edges g (n_id n)" let ?out = "skip_routing out"
  have "e_condition e \<noteq> []" using assms(2) by (auto simp: parse_condition_def)
  moreover have "evaluate_condition (e_condition e) ?out c"
    by (simp add: evaluate_condition_eq assms(2) evaluate_clause_def resolve_key_def skip_routing_def mk_outcome_def status_value_def)
  ultimately have m: "e \<in> set (condition_matched ?es ?out c)" using assms(1) by (simp add: condition_matched_def)
  then obtain e' es where s: "sort_key edge_rank (condition_matched ?es ?out c) = e' # es"
    by (metis empty_iff list.exhaust list.set(1) set_sort)
  then have "e' \<in> set (condition_matched ?es ?out c)" by (metis list.set_intros(1) set_sort)
  moreover have "select_edge (n_id n) ?out c g = Some e'"
  proof -
    have ne: "?es \<noteq> []" "condition_matched ?es ?out c \<noteq> []" using m assms(1) by auto
    show ?thesis unfolding select_edge_def Let_def using ne s by (simp add: best_by_weight_then_lexical_def)
  qed
  ultimately show ?thesis by (auto simp: skip_edge_def condition_matched_def)
qed

section \<open>TOPO-005\<close>

text \<open>A tool whose only edge is plain satisfies TOPO-005 as an implicit gate on success, but the engine
  follows that edge on every outcome, failures included.\<close>

theorem plain_tool_edge_gates_nothing:
  assumes "outgoing_edges g i = [e]" "e_condition e = []" "dict_get (g_nodes g) (to_node e) = None \<or> unmarked g (to_node e)"
  shows "tool_evidence_gates_flow g i \<and> select_edge i out c g = Some e"
proof
  have "runs_on_text m \<notin> {''always'', ''failure''}" if "dict_get (g_nodes g) (to_node e) = Some m" for m
    using assms(3) that by (auto simp: unmarked_def node_runs_on_def split: if_splits)
  then show "tool_evidence_gates_flow g i"
    using assms(1,2) by (auto simp: tool_evidence_gates_flow_def cond_of_def py_strip_def py_lstrip_def py_rstrip_def split: option.splits)
  have m: "condition_matched [e] out c = []" "unconditional [e] = [e]"
    using assms(2) by (auto simp: condition_matched_def unconditional_def)
  have l: "label_match [e] p = Some d \<Longrightarrow> d = e" for p d
    by (auto simp: label_match_def split: if_splits)
  have s: "suggested_match [e] ids = Some d \<Longrightarrow> d = e" for ids d
    by (induction ids) (auto split: option.splits if_splits)
  show "select_edge i out c g = Some e"
    using m unfolding select_edge_def assms(1)
    by (auto simp: Let_def best_by_weight_then_lexical_def split: option.splits dest: l s)
qed

theorem plain_tool_edge_gates_nothing_witness:
  "tool_evidence_gates_flow chain_graph ''t'' \<and> select_edge ''t'' (mk_outcome FAIL) (ctx_new) chain_graph = Some (plain_edge ''t'' ''x'')"
proof (rule plain_tool_edge_gates_nothing)
  show "outgoing_edges chain_graph ''t'' = [plain_edge ''t'' ''x'']" by code_simp
  show "e_condition (plain_edge ''t'' ''x'') = []" by code_simp
  show "dict_get (g_nodes chain_graph) (to_node (plain_edge ''t'' ''x'')) = None \<or> unmarked chain_graph (to_node (plain_edge ''t'' ''x''))"
    by code_simp
qed

section \<open>TOPO-006\<close>

lemma cond_fail_not_blank: "condition_matches_fail cond \<Longrightarrow> cond \<noteq> []"
  by (auto simp: condition_matches_fail_def parse_condition_def)

lemma fail_edge_diag_empty:
  "fail_edge_diag g n e = [] \<longleftrightarrow>
   \<not> (condition_matches_fail (cond_of e)
      \<and> (to_node e \<in> set (exit_ids g) \<or> (\<exists>p. pass_path g (exit_ids g) (to_node e) p)))"
proof (cases "unmarked_passthrough_path_to_exit g (to_node e) (exit_ids g)")
  case None
  then have "\<not> pass_path g (exit_ids g) (to_node e) p" for p
    using passthrough_correct [of g "exit_ids g" "to_node e" p] by simp
  then show ?thesis using None cond_fail_not_blank [of "cond_of e"] by (auto simp: fail_edge_diag_def Let_def)
next
  case (Some q)
  then have "pass_path g (exit_ids g) (to_node e) q" using passthrough_correct [of g "exit_ids g" "to_node e"] by simp
  then show ?thesis using Some cond_fail_not_blank [of "cond_of e"] by (auto simp: fail_edge_diag_def Let_def)
qed

lemma pass_path_exit: "pass_path g exits start p \<Longrightarrow> exits \<noteq> []"
  by (auto simp: pass_path_def)

text \<open>C34: TOPO-006 reports nothing exactly when no edge that catches a failure enters an exit or starts a path
  of plain edges into one on which no node re-gates the flow and some node is unmarked.\<close>

theorem fail_route_rule_exact:
  "check_fail_routed_to_exit g = [] \<longleftrightarrow>
   \<not> (\<exists>n e. n \<in> set (graph_nodes g) \<and> \<not> is_exit_node n \<and> e \<in> set (outgoing_edges g (n_id n))
        \<and> condition_matches_fail (cond_of e)
        \<and> (to_node e \<in> set (exit_ids g) \<or> (\<exists>p. pass_path g (exit_ids g) (to_node e) p)))"
proof (cases "exit_ids g = []")
  case True
  then show ?thesis using pass_path_exit by (auto simp: check_fail_routed_to_exit_def)
next
  case False
  then show ?thesis
    unfolding check_fail_routed_to_exit_def outgoing_of_def
    by (simp add: concat_map_Nil fail_edge_diag_empty del: concat_eq_Nil_conv cong: if_cong) blast
qed

section \<open>TOPO-007\<close>

lemma effective_target_is_engine_target:
  "dict_get (g_nodes g) i = Some n \<Longrightarrow>
   effective_gate_retry_target n g =
     (if names_node g (goal_gate_retry_target g i)
      then (case goal_gate_retry_target g i of PStr s \<Rightarrow> Some s | _ \<Rightarrow> None) else None)"
  by (simp add: effective_gate_retry_target_def goal_gate_retry_target_def Let_def names_node_def split: pyval.splits)

text \<open>C35: TOPO-007 reports nothing exactly when no goal gate has a retry target from which the walk along edges
  that neither restart the loop nor catch a failure meets a restarting edge and no exit.\<close>

theorem budget_rule_exact:
  "check_gate_retry_budget_dead g = [] \<longleftrightarrow>
   \<not> (\<exists>n t e. exit_ids g \<noteq> [] \<and> n \<in> set (graph_nodes g) \<and> resolve_bool_attr (node_attr_get n ''goal_gate'')
        \<and> effective_gate_retry_target n g = Some t
        \<and> (projection g)\<^sup>* `` {t} \<inter> set (exit_ids g) = {}
        \<and> e \<in> set (g_edges g) \<and> restarts e \<and> (t, from_node e) \<in> (projection g)\<^sup>*)"
proof -
  let ?R = "(projection g)\<^sup>*" and ?loops = "filter restarts (g_edges g)"
  have one: "dead_budget g n t = [] \<longleftrightarrow>
      \<not> (?R `` {t} \<inter> set (exit_ids g) = {} \<and> (\<exists>e. e \<in> set (g_edges g) \<and> restarts e \<and> (t, from_node e) \<in> ?R))" for n t
  proof (cases "list_ex (\<lambda>i. i \<in> set (exit_ids g)) (walk g [t] [t])")
    case True
    then show ?thesis using walk_from [of g t] by (auto simp: list_ex_iff dead_budget_def)
  next
    case False
    have "filter (\<lambda>e. from_node e \<in> set (walk g [t] [t])) ?loops = []
        \<longleftrightarrow> \<not> (\<exists>e. e \<in> set (g_edges g) \<and> restarts e \<and> (t, from_node e) \<in> ?R)"
      using walk_from [of g t] by (auto simp: filter_empty_conv)
    moreover have "?R `` {t} \<inter> set (exit_ids g) = {}"
      using False walk_from [of g t] by (auto simp: list_ex_iff)
    ultimately show ?thesis using False by (cases "filter (\<lambda>e. from_node e \<in> set (walk g [t] [t])) ?loops") (simp_all add: dead_budget_def Let_def)
  qed
  have node: "(if \<not> resolve_bool_attr (node_attr_get n ''goal_gate'') then []
        else case effective_gate_retry_target n g of None \<Rightarrow> [] | Some t \<Rightarrow> dead_budget g n t) = []
      \<longleftrightarrow> \<not> (\<exists>t e. resolve_bool_attr (node_attr_get n ''goal_gate'') \<and> effective_gate_retry_target n g = Some t
        \<and> ?R `` {t} \<inter> set (exit_ids g) = {} \<and> e \<in> set (g_edges g) \<and> restarts e \<and> (t, from_node e) \<in> ?R)" for n
  proof (cases "effective_gate_retry_target n g")
    case (Some t)
    then show ?thesis using one [of n t] by auto
  qed simp
  show ?thesis
  proof (cases "exit_ids g = [] \<or> ?loops = []")
    case True
    then show ?thesis by (auto simp: check_gate_retry_budget_dead_def Let_def filter_empty_conv)
  next
    case False
    then have "check_gate_retry_budget_dead g = [] \<longleftrightarrow>
        (\<forall>n \<in> set (graph_nodes g).
          (if \<not> resolve_bool_attr (node_attr_get n ''goal_gate'') then []
           else case effective_gate_retry_target n g of None \<Rightarrow> [] | Some t \<Rightarrow> dead_budget g n t) = [])"
      unfolding check_gate_retry_budget_dead_def by (auto simp: concat_map_Nil simp del: concat_eq_Nil_conv)
    then show ?thesis using False unfolding node by (simp only: simp_thms) blast
  qed
qed

end
