(* ===== verification/Lint_Commands.thy ===== *)
theory Lint_Commands
  imports Lint_Rules
begin

text \<open>
  The rules of \<open>lint\<close> that read texts and names: the shell commands of tool nodes (CMD-001, CMD-002), the
  invented attribute spellings (VOCAB-001) and the removed attributes (ATTR-LINT-001). The scanners keep
  the state of the source's loops: the quote they are in, the depth of parentheses, the text collected.
  Every regular expression here has at most one way to match at a position.
\<close>

section \<open>Reading a command\<close>

text \<open>\<open>\$\([^()]*\)\<close> replaced from left to right; the loop stops early only where a pass changes nothing.\<close>

definition is_paren :: "char \<Rightarrow> bool" where
  "is_paren c = (c = CHR ''('' \<or> c = CHR '')'')"

function subst_pass :: "string \<Rightarrow> string" where
  "subst_pass [] = []"
| "subst_pass (c # cs) =
     (if startswith ''$('' (c # cs) \<and> startswith '')'' (dropWhile (\<lambda>d. \<not> is_paren d) (tl cs))
      then ''__SUBST__'' @ subst_pass (tl (dropWhile (\<lambda>d. \<not> is_paren d) (tl cs)))
      else c # subst_pass cs)"
  by pat_completeness auto
termination
proof (relation "measure length")
  fix c :: char and cs :: string
  have "length (tl (dropWhile (\<lambda>d. \<not> is_paren d) (tl cs))) \<le> length cs"
    using length_dropWhile_le [of "\<lambda>d. \<not> is_paren d" "tl cs"] by simp
  then show "(tl (dropWhile (\<lambda>d. \<not> is_paren d) (tl cs)), c # cs) \<in> measure length" by simp
qed simp_all

declare subst_pass.simps(2) [simp del]

definition strip_command_substitutions :: "string \<Rightarrow> string" where
  "strip_command_substitutions cmd = (subst_pass ^^ 20) cmd"

text \<open>The state of the quote-aware scanners: the open quote, if any.\<close>

definition single_quote :: char where
  "single_quote = CHR 0x27"

definition double_quote :: char where
  "double_quote = CHR 0x22"

definition back_slash :: char where
  "back_slash = CHR 0x5C"

definition opens_quote :: "char \<Rightarrow> bool" where
  "opens_quote c = (c = single_quote \<or> c = double_quote)"

fun strip_quoted :: "char option \<Rightarrow> string \<Rightarrow> string" where
  "strip_quoted q [] = []"
| "strip_quoted (Some q) (c # cs) =
     (if q = double_quote \<and> c = back_slash then strip_quoted (Some q) (tl cs)
      else if c = q then ''__QUOTED__'' @ strip_quoted None cs
      else strip_quoted (Some q) cs)"
| "strip_quoted None (c # cs) =
     (if opens_quote c then strip_quoted (Some c) cs else c # strip_quoted None cs)"

definition strip_quoted_strings :: "string \<Rightarrow> string" where
  "strip_quoted_strings cmd = strip_quoted None cmd"

text \<open>\<open>^set\s+-(?:[A-Za-z]*o\s+pipefail|o\s+pipefail)\b\<close>: the letters of the option end at a blank.\<close>

definition sets_pipefail :: "string \<Rightarrow> bool" where
  "sets_pipefail s =
     (let a = drop 3 s; b = py_lstrip a; letters = takeWhile is_alpha (tl b);
          c = dropWhile is_alpha (tl b); d = py_lstrip c
      in startswith ''set'' s \<and> a \<noteq> b \<and> startswith ''-'' b \<and> letters \<noteq> [] \<and> last letters = CHR ''o''
         \<and> c \<noteq> d \<and> startswith ''pipefail'' d
         \<and> (case drop 8 d of [] \<Rightarrow> True | e # _ \<Rightarrow> \<not> re_word e))"

fun statements :: "string \<Rightarrow> string \<Rightarrow> string list" where
  "statements current [] = [current]"
| "statements current (c # cs) =
     (if c = CHR '';'' \<or> c = CHR 0x0A then current # statements [] cs else statements (current @ [c]) cs)"

definition has_executable_pipefail :: "string \<Rightarrow> bool" where
  "has_executable_pipefail cmd =
     list_ex (\<lambda>st. let s = py_strip st in s \<noteq> [] \<and> \<not> startswith ''#'' s \<and> sets_pipefail s)
       (statements [] (strip_quoted_strings cmd))"

text \<open>The segments between semicolons outside quotes and parentheses, blank ones left out.\<close>

definition add_segment :: "string \<Rightarrow> string list \<Rightarrow> string list" where
  "add_segment current segs = (if py_strip current \<noteq> [] then py_strip current # segs else segs)"

fun semicolon_segments :: "char option \<Rightarrow> nat \<Rightarrow> string \<Rightarrow> string \<Rightarrow> string list" where
  "semicolon_segments q depth current [] = add_segment current []"
| "semicolon_segments (Some q) depth current (c # cs) =
     (if q = double_quote \<and> c = back_slash
      then semicolon_segments (Some q) depth (current @ [c] @ take 1 cs) (tl cs)
      else semicolon_segments (if c = q then None else Some q) depth (current @ [c]) cs)"
| "semicolon_segments None depth current (c # cs) =
     (if opens_quote c then semicolon_segments (Some c) depth (current @ [c]) cs
      else if c = CHR ''('' then semicolon_segments None (depth + 1) (current @ [c]) cs
      else if c = CHR '')'' then semicolon_segments None (depth - 1) (current @ [c]) cs
      else if depth = 0 \<and> c = CHR '';'' then add_segment current (semicolon_segments None depth [] cs)
      else semicolon_segments None depth (current @ [c]) cs)"

definition final_semicolon_segment :: "string \<Rightarrow> string" where
  "final_semicolon_segment cmd =
     (let segs = semicolon_segments None 0 [] cmd in if segs \<noteq> [] then last segs else py_strip cmd)"

definition nul :: char where
  "nul = CHR 0x00"

definition last_pipe_stage_program :: "string \<Rightarrow> string option" where
  "last_pipe_stage_program segment =
     (let safe = replace_str ''||'' [nul, nul] segment; last_stage = py_strip (last (py_split ''|'' safe)) in
      if CHR ''|'' \<notin> set safe \<or> last_stage = [] then None
      else (case filter (\<lambda>w. \<not> (is_redirect w \<or> is_assignment w)) (py_words last_stage) of
              [] \<Rightarrow> None
            | w # _ \<Rightarrow> Some (last (py_split ''/'' w))))"

text \<open>The two scans for a bar that is no part of \<open>||\<close>: the quote, the position, the character before it.\<close>

definition bare_bar :: "char option \<Rightarrow> char \<Rightarrow> string \<Rightarrow> bool" where
  "bare_bar prev c cs = (c = CHR ''|'' \<and> prev \<noteq> Some (CHR ''|'') \<and> \<not> startswith ''|'' cs)"

fun last_bar :: "char option \<Rightarrow> nat \<Rightarrow> char option \<Rightarrow> nat option \<Rightarrow> string \<Rightarrow> nat option" where
  "last_bar q i prev found [] = found"
| "last_bar (Some q) i prev found (c # cs) =
     (if q = double_quote \<and> c = back_slash
      then last_bar (Some q) (i + 2) (if cs = [] then Some c else Some (hd cs)) found (tl cs)
      else last_bar (if c = q then None else Some q) (i + 1) (Some c) found cs)"
| "last_bar None i prev found (c # cs) =
     (if opens_quote c then last_bar (Some c) (i + 1) (Some c) found cs
      else last_bar None (i + 1) (Some c) (if bare_bar prev c cs then Some i else found) cs)"

definition find_last_bare_pipe :: "string \<Rightarrow> nat option" where
  "find_last_bare_pipe cmd = last_bar None 0 None None cmd"

fun all_bars :: "char option \<Rightarrow> nat \<Rightarrow> char option \<Rightarrow> string \<Rightarrow> nat list" where
  "all_bars q i prev [] = []"
| "all_bars (Some q) i prev (c # cs) =
     (if q = double_quote \<and> c = back_slash
      then all_bars (Some q) (i + 2) (if cs = [] then Some c else Some (hd cs)) (tl cs)
      else all_bars (if c = q then None else Some q) (i + 1) (Some c) cs)"
| "all_bars None i prev (c # cs) =
     (if opens_quote c then all_bars (Some c) (i + 1) (Some c) cs
      else (if bare_bar prev c cs then [i] else []) @ all_bars None (i + 1) (Some c) cs)"

definition find_all_bare_pipes :: "string \<Rightarrow> nat list" where
  "find_all_bare_pipes cmd = all_bars None 0 None cmd"

section \<open>CMD-001 and CMD-002\<close>

definition pipe_filter_programs :: "string list" where
  "pipe_filter_programs =
     [''tail'', ''head'', ''grep'', ''sed'', ''awk'', ''cut'', ''sort'', ''uniq'', ''wc'', ''xargs'']"

definition raw_command :: "node \<Rightarrow> string" where
  "raw_command n = (let v = node_attr_get n ''tool_command'' in py_strip (if py_true v then py_str v else []))"

text \<open>The segment both rules read, unless the node has no command or sets \<open>pipefail\<close>.\<close>

definition gate_segment :: "node \<Rightarrow> string option" where
  "gate_segment n =
     (if \<not> is_tool n \<or> raw_command n = [] \<or> has_executable_pipefail (raw_command n) then None
      else Some (final_semicolon_segment (strip_command_substitutions (raw_command n))))"

definition filter_behind :: "string \<Rightarrow> nat \<Rightarrow> string option" where
  "filter_behind seg i =
     (case last_pipe_stage_program (''|'' @ drop (i + 1) seg) of
        None \<Rightarrow> None
      | Some program \<Rightarrow> if program \<in> set pipe_filter_programs then Some program else None)"

definition masked_diag :: "node \<Rightarrow> string \<Rightarrow> diagnostic" where
  "masked_diag n program =
     node_diag ''CMD-001'' WARNING n
     (''Tool node '' @ quoted (n_id n) @ '' tool_command ends in a pipe to '' @ quoted (program) @ '' without pipefail: the gate'' @ [CHR 0x27]
      @ ''s exit code is '' @ quoted (program) @ ''s (always 0 on success), not the real command'' @ [CHR 0x27] @ ''s.  In /bin/sh a pipeline'' @ [CHR 0x27]
      @ ''s exit status is the last stage'' @ [CHR 0x27] @ ''s -- so '' @ quoted (''false | tail -1'')
      @ '' exits 0.  The gate may record SUCCESS even when the wrapped command failed.  Fix: redirect output to a file ('' @ quoted (''cmd > out.log 2>&1'')
      @ '') to preserve exit code, or capture exit code explicitly ('' @ quoted (''cmd; rc=$?; ... && printf ok || printf fail'')
      @ '').  See DOT-AUTHORING-GUIDE.md (CMD-001).'')
     (''Replace '' @ quoted (''cmd 2>&1 | tail -N'') @ '' with '' @ quoted (''cmd > out.log 2>&1'')
      @ '' to preserve the real exit code.  Alternatively, capture the exit code: ''
      @ quoted (''cmd; rc=$?; [ $rc -eq 0 ] && printf ok || { printf fail; exit 1; }'')
      @ ''.  If you need to see the last N lines, write to a file and read it separately.'')"

definition check_pipe_masked_exit_code :: "graph \<Rightarrow> diagnostic list" where
  "check_pipe_masked_exit_code g =
     concat (map (\<lambda>n.
       case gate_segment n of
         None \<Rightarrow> []
       | Some seg \<Rightarrow>
           (case find_last_bare_pipe seg of
              None \<Rightarrow> []
            | Some i \<Rightarrow> (case filter_behind seg i of None \<Rightarrow> [] | Some program \<Rightarrow> [masked_diag n program])))
       (graph_nodes g))"

text \<open>\<open>&&\s*(?:echo|printf)\s+\S+\s*$\<close>, at a position and anywhere.\<close>

definition sentinel_at :: "string \<Rightarrow> bool" where
  "sentinel_at s =
     (let a = py_lstrip (drop 2 s);
          b = (if startswith ''echo'' a then Some (drop 4 a) else if startswith ''printf'' a then Some (drop 6 a) else None)
      in startswith ''&&'' s
         \<and> (case b of
              None \<Rightarrow> False
            | Some c \<Rightarrow> (let d = py_lstrip c in
                c \<noteq> d \<and> d \<noteq> [] \<and> py_strip (dropWhile (\<lambda>x. \<not> py_isspace x) d) = [])))"

fun sentinel_in :: "string \<Rightarrow> bool" where
  "sentinel_in [] = False"
| "sentinel_in (c # cs) = (sentinel_at (c # cs) \<or> sentinel_in cs)"

definition sentinel_diag :: "node \<Rightarrow> string \<Rightarrow> diagnostic" where
  "sentinel_diag n program =
     node_diag ''CMD-002'' WARNING n
     (''Tool node '' @ quoted (n_id n) @ '' tool_command has a trailing '' @ quoted (''&& echo/printf TOKEN'')
      @ '' sentinel after a pipe-masked command (pipe to '' @ quoted (program) @ '').  The sentinel fires unconditionally because '' @ quoted (program)
      @ '' always exits 0 when it can read its input -- so tool.last_line becomes the sentinel string regardless of whether the wrapped command succeeded.  The gate always says yes.  Fix: use the honest token-gate idiom ''
      @ quoted (''cmd && printf ok || printf fail'')
      @ '' (no pipe), or redirect output to a file and test the exit code explicitly.  See DOT-AUTHORING-GUIDE.md (CMD-002).'')
     (''Replace '' @ quoted (''... | tail -N && echo TOKEN'') @ '' with the honest token-gate idiom: '' @ quoted (''cmd && printf ok || printf fail'')
      @ '' (no pipe; exit code gates the token).  Or redirect to a file: '' @ quoted (''cmd > out.log 2>&1 && printf ok || printf fail'')
      @ ''.  The || branch is what makes the gate honest.'')"

text \<open>The first bar with a filter behind it and a sentinel in what follows.\<close>

fun first_sentinel :: "string \<Rightarrow> nat list \<Rightarrow> string option" where
  "first_sentinel seg [] = None"
| "first_sentinel seg (i # is) =
     (case filter_behind seg i of
        None \<Rightarrow> first_sentinel seg is
      | Some program \<Rightarrow> if sentinel_in (drop i seg) then Some program else first_sentinel seg is)"

definition check_always_true_sentinel :: "graph \<Rightarrow> diagnostic list" where
  "check_always_true_sentinel g =
     concat (map (\<lambda>n.
       case gate_segment n of
         None \<Rightarrow> []
       | Some seg \<Rightarrow>
           (case first_sentinel seg (find_all_bare_pipes seg) of
              None \<Rightarrow> []
            | Some program \<Rightarrow> [sentinel_diag n program])) (graph_nodes g))"

section \<open>VOCAB-001\<close>

definition inert_prompt_spellings :: "string list" where
  "inert_prompt_spellings = [''instruction'', ''goal'', ''attractor_goal'']"

definition inert_handler_spellings :: "string list" where
  "inert_handler_spellings = [''agent'', ''handler'', ''attractor_handler'']"

definition is_codergen_node :: "node \<Rightarrow> bool" where
  "is_codergen_node n =
     (if quiet_node n then False
      else if n_type n \<noteq> [] then n_type n = ''codergen''
      else map_of shape_to_handler (n_shape n) = Some ''codergen'')"

definition spelled :: "string list \<Rightarrow> string" where
  "spelled as = py_join '', '' (map (\<lambda>a. ''`'' @ a @ ''=`'') as)"

definition inert_diag :: "node \<Rightarrow> string list \<Rightarrow> string list \<Rightarrow> diagnostic" where
  "inert_diag n found_prompt found_handler =
     (let carried = spelled (found_prompt @ found_handler);
          reads = (if found_prompt \<noteq> [] then ''`prompt=`''
                   else ''`prompt=`, and picks the handler from `shape=` alone'');
          fix = (if found_prompt \<noteq> [] then
            ''Rename '' @ spelled found_prompt @ '' to `prompt=` on node '' @ quoted (n_id n) @ ''.''
           else
            ''Add a `prompt=` attribute to node '' @ quoted (n_id n) @ ''; '' @ spelled found_handler
      @ '' does not select a handler (use `shape=box` for an LLM node).'')
      in node_diag ''VOCAB-001'' WARNING n
     (''LLM node '' @ quoted (n_id n) @ '' will run with no prompt: it carries '' @ carried @ '' but the engine reads '' @ reads
      @ ''.  The parser keeps unknown attributes on the node and no handler ever looks at them, so this node is inert while reading as configured.  See context/dot-reference.md for the full attribute vocabulary and DOT-AUTHORING-GUIDE.md (VOCAB-001).'')
     fix)"

definition check_inert_prompt_vocabulary :: "graph \<Rightarrow> diagnostic list" where
  "check_inert_prompt_vocabulary g =
     concat (map (\<lambda>n.
       let found_prompt = filter (node_attr_has n) inert_prompt_spellings;
           found_handler = filter (node_attr_has n) inert_handler_spellings
       in if \<not> is_codergen_node n \<or> n_prompt n \<noteq> [] \<or> found_prompt @ found_handler = [] then []
          else [inert_diag n found_prompt found_handler]) (graph_nodes g))"

section \<open>ATTR-LINT-001\<close>

definition removed_extension_attrs :: "(string \<times> string) list" where
  "removed_extension_attrs =
     [(''runs_on'', ''add an explicit condition=\"outcome=fail\" edge from the failing node to the intended successor (canonical Sec3.7)''),
      (''continue_on_fail'', ''add an explicit condition=\"outcome=fail\" edge instead of masking the failure (canonical Sec3.7)''),
      (''requires'', ''route with condition=context.<key> and/or a shape=tool file-existence probe instead of requires=''),
      (''outputs'', ''route with condition=context.<key> and/or a shape=tool file-existence probe instead of outputs=''),
      (''feedback_from'', ''have the critique node write .ai/feedback/<name>.md and have the generator'' @ [CHR 0x27] @ ''s own prompt read it back (file-mediated feedback)'')]"

definition removed_diag :: "node \<Rightarrow> string \<Rightarrow> string \<Rightarrow> diagnostic" where
  "removed_diag n attr_name pattern =
     node_diag ''ATTR-LINT-001'' ERROR n
     (''Node '' @ quoted (n_id n) @ '' declares removed extension attribute '' @ attr_name
      @ ''= -- this attribute is DELETED (EXTENSIONS.md, 2026-08-30) and is no longer read by the engine at all. Migrate: '' @ pattern
      @ ''. See MIGRATION.md.'')
     pattern"

definition check_removed_extension_attrs :: "graph \<Rightarrow> diagnostic list" where
  "check_removed_extension_attrs g =
     concat (map (\<lambda>n.
       let is_folder_export = (n_shape n = ''folder'' \<or> n_type n = ''pipeline'') in
       map (\<lambda>(attr_name, pattern). removed_diag n attr_name pattern)
         (filter (\<lambda>(attr_name, pattern). \<not> (attr_name = ''outputs'' \<and> is_folder_export) \<and> node_attr_has n attr_name)
           removed_extension_attrs)) (graph_nodes g))"

end
