(* ===== verification/Lint_Render.thy ===== *)
theory Lint_Render
  imports Lint_Commands Dot_Lexer
begin

text \<open>
  The render-compliance rules RENDER-001 and RENDER-002, which read the source of the graph with the
  parser's own token pattern, and \<open>lint\<close>, all rules in order.
\<close>

section \<open>Comments and positions\<close>

function blank_comments :: "string \<Rightarrow> string" where
  "blank_comments [] = []"
| "blank_comments (c # cs) =
     (if c = dquote then
        (case literal_rest cs of (a, r) \<Rightarrow> (c # a) @ blank_comments r)
      else if startswith ''//'' (c # cs) then
        map (\<lambda>_. CHR '' '') (takeWhile (\<lambda>d. d \<noteq> line_feed) (c # cs)) @ blank_comments (dropWhile (\<lambda>d. d \<noteq> line_feed) cs)
      else if startswith ''/*'' (c # cs) then
        (case py_split1 ''*/'' (tl cs) of
           None \<Rightarrow> map (\<lambda>d. if d = line_feed then d else CHR '' '') (c # cs)
         | Some (a, r) \<Rightarrow> map (\<lambda>d. if d = line_feed then d else CHR '' '') (''/*'' @ a @ ''*/'') @ blank_comments r)
      else c # blank_comments cs)"
  by pat_completeness auto
termination
  by (relation "measure length")
    (auto dest!: literal_rest_length py_split1_length simp: length_dropWhile_le le_imp_less_Suc
      intro: le_less_trans [OF _ lessI] le_trans [OF _ diff_le_self])

declare blank_comments.simps(2) [simp del]

definition line_of :: "string \<Rightarrow> nat \<Rightarrow> nat" where
  "line_of source offset = length (filter (\<lambda>c. c = line_feed) (take offset source)) + 1"

definition render_separator_chars :: string where
  "render_separator_chars = ''=,;[]{}:+''"

definition abuts_separator :: "string \<Rightarrow> nat \<Rightarrow> nat \<Rightarrow> bool \<times> bool" where
  "abuts_separator source before after =
     ((case rev (take before source) of
         [] \<Rightarrow> True
       | c # r \<Rightarrow> py_isspace c \<or> c \<in> set render_separator_chars \<or> (c = CHR ''>'' \<and> startswith ''-'' r)),
      (case drop after source of
         [] \<Rightarrow> True
       | c # r \<Rightarrow> py_isspace c \<or> c \<in> set render_separator_chars \<or> startswith ''->'' (c # r)))"

text \<open>\<open>_TOKEN_RE.finditer\<close>: the tokens with their offsets; what no alternative matches is passed over.\<close>

function raw_tokens :: "nat \<Rightarrow> string \<Rightarrow> (nat \<times> string) list" where
  "raw_tokens pos [] = []"
| "raw_tokens pos (c # cs) =
     (case lex_at (c # cs) of
        None \<Rightarrow> raw_tokens (pos + 1) cs
      | Some t \<Rightarrow> (pos, t) # raw_tokens (pos + length t) (drop (length t) (c # cs)))"
  by pat_completeness auto
termination
  by (relation "measure (\<lambda>(pos, s). length s)") (auto dest: lex_at_nonempty)

declare raw_tokens.simps(2) [simp del]

definition is_string_token :: "string \<Rightarrow> bool" where
  "is_string_token t = startswith [dquote] t"

definition is_name_or_number :: "string \<Rightarrow> bool" where
  "is_name_or_number t =
     (case t of
        [] \<Rightarrow> False
      | c # _ \<Rightarrow> id_start c \<or> is_digit c \<or> c = CHR ''.'' \<or> (c = CHR ''-'' \<and> t \<noteq> ''->''))"

section \<open>RENDER-001\<close>

definition quote_diag :: "nat \<Rightarrow> diagnostic" where
  "quote_diag line =
     graph_diag ''RENDER-001'' WARNING
     (''Line '' @ nat_str line
      @ '': a quoted attribute string is closed early by an unescaped inner double-quote, so the text immediately after it is read as a bare identifier.  The engine''
      @ [CHR 0x27]
      @ ''s tokenizer tolerates this, but `dot -Tsvg` rejects the file, so this graph runs and cannot be drawn.  See DOT-AUTHORING-GUIDE.md (RENDER-001).'')
     (''Escape every interior double-quote inside the attribute value as backslash-quote.  A raw inner quote ends the string; an escaped one is part of it.  Escaping does not change the value the engine parses -- it repairs it, since the engine currently stores the truncated prefix.'')"

definition cut_short :: "string \<Rightarrow> nat \<times> string \<Rightarrow> bool" where
  "cut_short scan m =
     (case m of (pos, t) \<Rightarrow> is_string_token t \<and> abuts_separator scan pos (pos + length t) \<noteq> (True, True))"

text \<open>One report for each line.\<close>

definition check_unescaped_inner_quote :: "graph \<Rightarrow> diagnostic list" where
  "check_unescaped_inner_quote g =
     (let scan = blank_comments (g_dot_source g) in
      if g_dot_source g = [] then []
      else map quote_diag (rev (fold (\<lambda>m lines. if line_of scan (fst m) \<in> set lines then lines else line_of scan (fst m) # lines)
             (filter (cut_short scan) (raw_tokens 0 scan)) [])))"

section \<open>RENDER-002\<close>

definition name_char :: "char \<Rightarrow> bool" where
  "name_char c = (id_start c \<or> (of_char c :: nat) \<ge> 128)"

definition is_graphviz_name :: "string \<Rightarrow> bool" where
  "is_graphviz_name t =
     (t \<noteq> [] \<and> name_char (hd t) \<and> list_all (\<lambda>c. name_char c \<or> is_digit c) (tl (chomp t)))"

definition is_graphviz_numeral :: "string \<Rightarrow> bool" where
  "is_graphviz_numeral t =
     (let u = (if startswith ''-'' t then tl t else t); u = chomp u;
          ds = takeWhile is_digit u; r = dropWhile is_digit u
      in if ds \<noteq> [] then r = [] \<or> (hd r = CHR ''.'' \<and> list_all is_digit (tl r))
         else startswith ''.'' u \<and> tl u \<noteq> [] \<and> list_all is_digit (tl u))"

definition dotted_role :: "string \<Rightarrow> nat \<Rightarrow> nat \<Rightarrow> string" where
  "dotted_role scan start stop =
     (if startswith ''='' (py_lstrip (drop stop scan)) then ''attribute key''
      else if endswith ''='' (py_rstrip (take start scan)) then ''attribute value''
      else ''identifier'')"

definition dotted_diag :: "nat \<Rightarrow> string \<Rightarrow> string \<Rightarrow> diagnostic" where
  "dotted_diag line text role =
     graph_diag ''RENDER-002'' WARNING
     (''Line '' @ nat_str line @ '': bare '' @ role @ '' `'' @ text @ ''` contains a `.`, which GraphViz'' @ [CHR 0x27]
      @ ''s NAME production does not allow (it is neither a legal NAME nor a NUMERAL).  This engine'' @ [CHR 0x27]
      @ ''s tokenizer accepts the qualified form, so the graph runs -- but `dot -Tsvg` rejects the file, so it cannot be drawn.  See DOT-AUTHORING-GUIDE.md (RENDER-002).'')
     (''Quote it: write \"'' @ text @ ''\"=... instead of '' @ text
      @ ''=... .  Quoting an attribute key is semantically inert -- `_unquote_key` strips the quotes without coercing types, so the parsed attribute dict is identical.'')"

definition dotted :: "nat \<times> string \<Rightarrow> bool" where
  "dotted m =
     (case m of (pos, t) \<Rightarrow>
        is_name_or_number t \<and> CHR ''.'' \<in> set t \<and> \<not> (is_graphviz_name t \<or> is_graphviz_numeral t))"

text \<open>One report for each line and text, at its first place.\<close>

fun dotted_reports :: "string \<Rightarrow> (nat \<times> string) list \<Rightarrow> (nat \<times> string) list \<Rightarrow> diagnostic list" where
  "dotted_reports scan sn [] = []"
| "dotted_reports scan sn ((pos, t) # ms) =
     (let line = line_of scan pos in
      if (line, t) \<in> set sn then dotted_reports scan sn ms
      else dotted_diag line t (dotted_role scan pos (pos + length t)) # dotted_reports scan ((line, t) # sn) ms)"

definition check_dotted_bare_identifier :: "graph \<Rightarrow> diagnostic list" where
  "check_dotted_bare_identifier g =
     (let scan = blank_comments (g_dot_source g) in
      if g_dot_source g = [] then [] else dotted_reports scan [] (filter dotted (raw_tokens 0 scan)))"

section \<open>lint\<close>

definition lint :: "(string \<Rightarrow> bool) \<Rightarrow> graph \<Rightarrow> diagnostic list" where
  "lint exists g =
     validate g []
     @ concat (map (\<lambda>rule. rule g) (topological_rules exists))
     @ check_pipe_masked_exit_code g @ check_always_true_sentinel g @ check_inert_prompt_vocabulary g
     @ check_removed_extension_attrs g @ check_unescaped_inner_quote g @ check_dotted_bare_identifier g"

end
