(* ===== verification/Lint_Text_Properties.thy ===== *)
theory Lint_Text_Properties
  imports Lint_Properties Lint_Render
begin

text \<open>
  Facts and properties of the rules that read texts: how the two scans for bars and the two command rules
  relate, that blanking comments keeps every position, which rules can make \<open>lint\<close> fail, and that the mark
  TOPO-006 asks for is the one ATTR-LINT-001 forbids.
\<close>

section \<open>The scans for bars\<close>

abbreviation bar :: char where "bar \<equiv> CHR ''|''"

lemma last_bar_all:
  "last_bar q i prev fd s = (case all_bars q i prev s of [] \<Rightarrow> fd | _ \<Rightarrow> Some (last (all_bars q i prev s)))"
  by (induction q i prev fd s rule: last_bar.induct) (auto split: list.splits)

lemma find_last_is_last:
  "find_last_bare_pipe cmd = (case find_all_bare_pipes cmd of [] \<Rightarrow> None | _ \<Rightarrow> Some (last (find_all_bare_pipes cmd)))"
  unfolding find_last_bare_pipe_def find_all_bare_pipes_def by (rule last_bar_all)

definition bar_between :: "string \<Rightarrow> nat \<Rightarrow> bool" where
  "bar_between s k = (\<exists>x y. s = x @ bar # y \<and> length x = k \<and> (x = [] \<or> last x \<noteq> bar) \<and> \<not> startswith [bar] y)"

lemma all_bars_between:
  "prev = (if p = [] then None else Some (last p)) \<Longrightarrow> k \<in> set (all_bars q (length p) prev s) \<Longrightarrow> bar_between (p @ s) k"
proof (induction q "length p" prev s arbitrary: p rule: all_bars.induct)
  case (2 q prev c cs)
  show ?case
  proof (cases "q = double_quote \<and> c = back_slash")
    case True
    then show ?thesis using 2(1) [of "p @ [c, hd cs]"] 2(3,4) by (cases cs) simp_all
  next
    case False
    have "k \<in> set (all_bars (if c = q then None else Some q) (length (p @ [c])) (Some c) cs)"
      using 2(4) by (simp only: all_bars.simps if_not_P [OF False] length_append_singleton Suc_eq_plus1)
    then show ?thesis using 2(2) [OF False, of "p @ [c]"] by simp
  qed
next
  case (3 prev c cs)
  show ?case
  proof (cases "opens_quote c")
    case True
    then show ?thesis using 3(1) [of "p @ [c]"] 3(3,4) by simp
  next
    case False
    then consider "bare_bar prev c cs" "k = length p" | "k \<in> set (all_bars None (length p + 1) (Some c) cs)"
      using 3(4) by (auto split: if_splits)
    then show ?thesis
    proof cases
      case 1
      then have "p @ c # cs = p @ bar # cs" "p = [] \<or> last p \<noteq> bar" "\<not> startswith [bar] cs"
        using 3(3) by (auto simp: bare_bar_def split: if_splits)
      then show ?thesis unfolding bar_between_def using 1(2) by blast
    next
      case 2
      then show ?thesis using 3(2) [of "p @ [c]"] False by simp
    qed
  qed
qed simp

lemma replace_at_bar:
  assumes "\<not> startswith [bar] y"
  shows "a = [] \<or> last a \<noteq> bar \<Longrightarrow> replace_str ''||'' new (a @ bar # y) = replace_str ''||'' new a @ bar # replace_str ''||'' new y"
proof (induction "length a" arbitrary: a rule: less_induct)
  case less
  show ?case
  proof (cases a)
    case Nil
    then show ?thesis using assms by simp
  next
    case (Cons c cs)
    show ?thesis
    proof (cases "startswith ''||'' a")
      case True
      then obtain t where t: "a = bar # bar # t" by (auto simp: startswith_double)
      then have "t = [] \<or> last t \<noteq> bar" using less.prems by (cases t) auto
      then show ?thesis using less.hyps [of t] t by simp
    next
      case False
      have "\<not> startswith ''||'' (c # cs @ bar # y)"
        using False less.prems Cons by (cases cs) (auto simp: startswith_double)
      moreover have "cs = [] \<or> last cs \<noteq> bar" using less.prems Cons by (cases cs) auto
      ultimately show ?thesis using less.hyps [of cs] False Cons by (simp only: append_Cons replace_str.simps if_False length_Cons)
    qed
  qed
qed

lemma split_go_nonempty: "split_go sep acc s \<noteq> []"
  by (induction sep acc s rule: split_go.induct) auto

lemma last_split_bar: "last (split_go [x] acc (u @ x # v)) = last (split_go [x] [] v)"
proof (induction u arbitrary: acc)
  case Nil
  then show ?case using split_go_nonempty by simp
next
  case (Cons c u)
  then show ?case using split_go_nonempty [of "[x]" "[]" "u @ x # v"] by (cases "x = c") simp_all
qed

text \<open>The program of the last stage is the same behind every bare bar.\<close>

lemma last_stage_behind:
  assumes "\<not> startswith [bar] y" "z = [] \<or> last z \<noteq> bar" "z \<noteq> []"
  shows "last_pipe_stage_program (''|'' @ z @ bar # y) = last_pipe_stage_program (''|'' @ y)"
proof -
  let ?R = "replace_str ''||'' [nul, nul]"
  have r: "?R (''|'' @ z @ bar # y) = ?R (''|'' @ z) @ bar # ?R y" "?R (''|'' @ y) = bar # ?R y"
    using replace_at_bar [OF assms(1), of "''|'' @ z"] replace_at_bar [OF assms(1), of "[]"] assms(2,3) by simp_all
  have "last (py_split ''|'' (?R (''|'' @ z) @ bar # ?R y)) = last (py_split ''|'' (bar # ?R y))"
    using last_split_bar [of bar "[]" "?R (''|'' @ z)" "?R y"] last_split_bar [of bar "[]" "[]" "?R y"]
    by (simp add: py_split_def)
  then show ?thesis unfolding last_pipe_stage_program_def r Let_def by simp
qed

lemma filter_behind_same:
  assumes "bar_between s i" "bar_between s j" "i \<le> j"
  shows "filter_behind s i = filter_behind s j"
proof (cases "i = j")
  case False
  obtain x y where x: "s = x @ bar # y" "length x = i" "\<not> startswith [bar] y" using assms(1) by (auto simp: bar_between_def)
  obtain x' y' where x': "s = x' @ bar # y'" "length x' = j" "x' = [] \<or> last x' \<noteq> bar" "\<not> startswith [bar] y'"
    using assms(2) by (auto simp: bar_between_def)
  have y: "y = drop (i + 1) s" unfolding x(1) using x(2) by simp
  have y': "y' = drop (j + 1) s" unfolding x'(1) using x'(2) by simp
  define z where "z = take (j - i - 1) y"
  have "y = z @ drop (j - i - 1) y" by (simp add: z_def)
  moreover have "drop (j - i - 1) y = drop j s" using False assms(3) by (simp add: y)
  moreover have "drop j s = bar # y'" unfolding x'(1) using x'(2) by simp
  ultimately have yz: "y = z @ bar # y'" by simp
  have x'z: "x' = x @ bar # z"
    using x x' yz by (metis append.assoc append_Cons append_same_eq)
  have "z \<noteq> []" using x(3) yz x'(3) x'z by auto
  moreover have "last z \<noteq> bar" using x'(3) x'z calculation by auto
  ultimately have "last_pipe_stage_program (''|'' @ z @ bar # y') = last_pipe_stage_program (''|'' @ y')"
    using last_stage_behind [OF x'(4)] by blast
  then have "last_pipe_stage_program (''|'' @ y) = last_pipe_stage_program (''|'' @ y')" by (simp only: yz)
  then show ?thesis unfolding filter_behind_def y [symmetric] y' [symmetric] by (simp only:)
qed simp

lemma first_sentinel_bar:
  "first_sentinel seg is = Some program \<Longrightarrow> \<exists>i \<in> set is. filter_behind seg i = Some program"
  by (induction seg "is" rule: first_sentinel.induct) (auto split: option.splits if_splits)

lemma sentinel_masked:
  assumes "first_sentinel seg (find_all_bare_pipes seg) = Some program"
  shows "\<exists>j. find_last_bare_pipe seg = Some j \<and> filter_behind seg j = Some program"
proof -
  let ?is = "find_all_bare_pipes seg"
  obtain i where i: "i \<in> set ?is" "filter_behind seg i = Some program" using first_sentinel_bar [OF assms] by blast
  have b: "k \<in> set ?is \<Longrightarrow> bar_between seg k" for k
    using all_bars_between [of None "[]" k None seg] by (simp add: find_all_bare_pipes_def)
  have ne: "?is \<noteq> []" using i(1) by auto
  then have l: "last ?is \<in> set ?is" "find_last_bare_pipe seg = Some (last ?is)"
    by (simp_all add: find_last_is_last split: list.splits)
  have "filter_behind seg (last ?is) = Some program"
    using i filter_behind_same [OF b b] l(1) by (metis le_cases)
  then show ?thesis using l(2) by blast
qed

text \<open>Every node CMD-002 reports is reported by CMD-001 as well, whatever stage the sentinel follows.\<close>

theorem sentinel_rule_within_mask_rule:
  "list_all (\<lambda>d. list_ex (\<lambda>d'. d_node_id d' = d_node_id d) (check_pipe_masked_exit_code g)) (check_always_true_sentinel g)"
proof -
  have "\<exists>d' \<in> set (check_pipe_masked_exit_code g). d_node_id d' = d_node_id d" if d: "d \<in> set (check_always_true_sentinel g)" for d
  proof -
    obtain n where n1: "n \<in> set (graph_nodes g)"
        "d \<in> set (case gate_segment n of None \<Rightarrow> [] | Some seg \<Rightarrow>
           (case first_sentinel seg (find_all_bare_pipes seg) of None \<Rightarrow> [] | Some program \<Rightarrow> [sentinel_diag n program]))"
      using d by (auto simp: check_always_true_sentinel_def)
    then obtain seg p where n: "n \<in> set (graph_nodes g)" "gate_segment n = Some seg"
        "first_sentinel seg (find_all_bare_pipes seg) = Some p" "d = sentinel_diag n p"
      by (cases "gate_segment n"; cases "first_sentinel (the (gate_segment n)) (find_all_bare_pipes (the (gate_segment n)))") auto
    then obtain j where "find_last_bare_pipe seg = Some j" "filter_behind seg j = Some p" using sentinel_masked by blast
    then have "masked_diag n p \<in> set (check_pipe_masked_exit_code g)"
      using n(1,2) by (force simp: check_pipe_masked_exit_code_def)
    moreover have "d_node_id (masked_diag n p) = d_node_id d"
      by (simp add: n(4) masked_diag_def sentinel_diag_def node_diag_def)
    ultimately show ?thesis by blast
  qed
  then show ?thesis by (simp add: list_all_iff list_ex_iff)
qed

text \<open>The last stage is found by splitting at every bar, quoted ones included: an alternation in the
  pattern of a filter hides the filter from both rules.\<close>

lemma quoted_bar_hides_filter:
  "(let hidden = ''make 2>&1 | grep -E '' @ quoted ''error|warning''; plain = ''make 2>&1 | grep -E '' @ quoted ''error''
    in find_last_bare_pipe hidden = Some 10 \<and> filter_behind hidden 10 = None
       \<and> find_last_bare_pipe plain = Some 10 \<and> filter_behind plain 10 = Some ''grep'')"
  by code_simp

section \<open>Blanked comments\<close>

definition breaks :: "string \<Rightarrow> bool list" where
  "breaks s = map (\<lambda>c. c = line_feed) s"

lemma breaks_append: "breaks (a @ b) = breaks a @ breaks b"
  by (simp add: breaks_def)

lemma breaks_blanked: "breaks (map (\<lambda>d. if d = line_feed then d else CHR '' '') s) = breaks s"
  by (auto simp: breaks_def)

lemma breaks_blank_line:
  "list_all (\<lambda>d. d \<noteq> line_feed) s \<Longrightarrow> breaks (map (\<lambda>_. CHR '' '') s) = breaks s"
  by (auto simp: breaks_def list_all_iff)

lemma split1_append: "split1_go sep acc s = Some (a, r) \<Longrightarrow> rev acc @ s = a @ sep @ r"
  by (induction sep acc s rule: split1_go.induct) (auto dest: startswith_drop split: if_splits)

text \<open>Blanking comments moves nothing: every character of the result stands where it stood, and the line
  breaks are those of the source, so the line of an offset is the same in both.\<close>

theorem blank_comments_aligned:
  "length (blank_comments s) = length s \<and> line_of (blank_comments s) k = line_of s k"
proof -
  have b: "breaks (blank_comments s) = breaks s" for s
  proof (induction s rule: blank_comments.induct)
    case (2 c cs)
    consider "c = dquote" | "c \<noteq> dquote" "startswith ''//'' (c # cs)"
      | "c \<noteq> dquote" "\<not> startswith ''//'' (c # cs)" "startswith ''/*'' (c # cs)"
      | "c \<noteq> dquote" "\<not> startswith ''//'' (c # cs)" "\<not> startswith ''/*'' (c # cs)" by blast
    then show ?case
    proof cases
      case 1
      obtain a r where a: "literal_rest cs = (a, r)" by fastforce
      then show ?thesis using 1 2(1) [OF 1 a [symmetric]] literal_rest_append [OF a]
        by (simp add: blank_comments.simps(2) breaks_append) (simp add: breaks_def)
    next
      case c: 2
      have "breaks (takeWhile (\<lambda>d. d \<noteq> line_feed) (c # cs) @ dropWhile (\<lambda>d. d \<noteq> line_feed) cs) = breaks (c # cs)"
      proof -
        have "c \<noteq> line_feed" using c(2) by auto
        then have "takeWhile (\<lambda>d. d \<noteq> line_feed) (c # cs) @ dropWhile (\<lambda>d. d \<noteq> line_feed) cs = c # cs"
          using takeWhile_dropWhile_id [of "\<lambda>d. d \<noteq> line_feed" "c # cs"] by simp
        then show ?thesis by simp
      qed
      moreover have "breaks (map (\<lambda>_. CHR '' '') (takeWhile (\<lambda>d. d \<noteq> line_feed) (c # cs))) = breaks (takeWhile (\<lambda>d. d \<noteq> line_feed) (c # cs))"
        by (rule breaks_blank_line) (auto simp: list_all_iff dest: set_takeWhileD)
      moreover have "blank_comments (c # cs) = map (\<lambda>_. CHR '' '') (takeWhile (\<lambda>d. d \<noteq> line_feed) (c # cs))
          @ blank_comments (dropWhile (\<lambda>d. d \<noteq> line_feed) cs)"
        using c by (simp only: blank_comments.simps(2) if_True if_False)
      ultimately show ?thesis using 2(2) [OF c] by (simp only: breaks_append)
    next
      case c: 3
      show ?thesis
      proof (cases "py_split1 ''*/'' (tl cs)")
        case None
        then show ?thesis using c breaks_blanked [of "c # cs"] by (simp add: blank_comments.simps(2))
      next
        case (Some p)
        obtain a r where p: "p = (a, r)" by fastforce
        have "c # cs = ''/*'' @ a @ ''*/'' @ r"
          using split1_append [of "''*/''" "[]" "tl cs" a r] Some p c(3) by (cases cs) (auto simp: py_split1_def)
        then show ?thesis using c Some p 2(3) [OF c Some p [symmetric]] breaks_blanked [of "''/*'' @ a @ ''*/''"]
          by (simp add: blank_comments.simps(2) breaks_def)
      qed
    next
      case c: 4
      then have "blank_comments (c # cs) = c # blank_comments cs" by (simp only: blank_comments.simps(2) if_False)
      then show ?thesis using 2(4) [OF c] by (simp add: breaks_def)
    qed
  qed simp
  have l: "length (breaks s) = length s" for s by (simp add: breaks_def)
  have f: "length (filter (\<lambda>c. c = line_feed) (take k s)) = length (filter id (take k (breaks s)))" for s
    by (simp add: breaks_def take_map filter_map comp_def)
  show ?thesis using b [of s] l [of s] l [of "blank_comments s"] by (simp add: line_of_def f)
qed

section \<open>What makes lint fail\<close>

definition errors :: "diagnostic list \<Rightarrow> diagnostic list" where
  "errors ds = filter (\<lambda>d. d_severity d = ERROR) ds"

lemma errors_simps [simp]:
  "errors [] = []" "errors (a @ b) = errors a @ errors b" "errors (concat ds) = concat (map errors ds)"
  by (induction ds) (simp_all add: errors_def filter_concat)

lemma no_errors: "(\<And>d. d \<in> set ds \<Longrightarrow> d_severity d = WARNING) \<Longrightarrow> errors ds = []"
  by (auto simp: errors_def filter_empty_conv)

lemma all_errors: "(\<And>d. d \<in> set ds \<Longrightarrow> d_severity d = ERROR) \<Longrightarrow> errors ds = ds"
  by (simp add: errors_def)

lemmas diag_defs = node_edge_diag_def edge_diag_def node_diag_def graph_diag_def

lemma warning_rules:
  "errors (check_stale_label_collision g) = []" "errors (check_acyclic_graph g) = []"
  "errors (check_cycle_no_conditional_exit g) = []" "errors (check_cycle_no_deterministic_exit g) = []"
  "errors (check_inert_evidence_gate g) = []" "errors (check_outcome_label_shadowing g) = []"
  "errors (check_folder_dot_file_absent exists g) = []" "errors (check_inert_prompt_vocabulary g) = []"
  by (rule no_errors; force simp: check_stale_label_collision_def check_acyclic_graph_def check_cycle_no_conditional_exit_def
      check_cycle_no_deterministic_exit_def check_inert_evidence_gate_def inert_gate_diag_def
      check_outcome_label_shadowing_def shadow_diag_def check_folder_dot_file_absent_def
      check_inert_prompt_vocabulary_def inert_diag_def diag_defs Let_def
      split: if_splits prod.splits pyval.splits)+

lemma fail_edge_warns: "d \<in> set (fail_edge_diag g n e) \<Longrightarrow> d_severity d = WARNING"
  by (auto simp: fail_edge_diag_def diag_defs Let_def split: if_splits option.splits)

lemma dead_budget_warns: "d \<in> set (dead_budget g n t) \<Longrightarrow> d_severity d = WARNING"
  by (auto simp: dead_budget_def budget_diag_def diag_defs Let_def split: if_splits list.splits)

lemma dotted_reports_warn: "d \<in> set (dotted_reports scan sn ms) \<Longrightarrow> d_severity d = WARNING"
  by (induction scan sn ms rule: dotted_reports.induct) (auto simp: dotted_diag_def diag_defs Let_def split: if_splits)

lemma warning_rules2:
  "errors (check_fail_routed_to_exit g) = []" "errors (check_gate_retry_budget_dead g) = []"
  "errors (check_pipe_masked_exit_code g) = []" "errors (check_always_true_sentinel g) = []"
  "errors (check_unescaped_inner_quote g) = []" "errors (check_dotted_bare_identifier g) = []"
  by (rule no_errors; auto simp: check_fail_routed_to_exit_def check_gate_retry_budget_dead_def
      check_pipe_masked_exit_code_def check_always_true_sentinel_def check_unescaped_inner_quote_def
      check_dotted_bare_identifier_def masked_diag_def sentinel_diag_def quote_diag_def diag_defs Let_def
      dest: fail_edge_warns dead_budget_warns dotted_reports_warn split: if_splits option.splits)+

lemma error_rules:
  "errors (check_dead_conditional_edge g) = check_dead_conditional_edge g"
  "errors (check_removed_extension_attrs g) = check_removed_extension_attrs g"
  by (rule all_errors; auto simp: check_dead_conditional_edge_def check_removed_extension_attrs_def removed_diag_def
      diag_defs Let_def split: if_splits)+

lemma errors_of_lint:
  "errors (lint exists g) = errors (validate g []) @ check_dead_conditional_edge g @ check_removed_extension_attrs g"
  by (simp add: lint_def topological_rules_def warning_rules warning_rules2 error_rules)

text \<open>Beyond \<open>validate\<close> only TOPO-001 and ATTR-LINT-001 can make \<open>lint\<close> report an error.\<close>

theorem lint_errors:
  "errors (lint exists g) = errors (validate g []) @ check_dead_conditional_edge g @ check_removed_extension_attrs g"
  by (rule errors_of_lint)

text \<open>A node is excused by TOPO-006 only through its \<open>runs_on\<close> attribute, and whoever writes it gets an
  error from ATTR-LINT-001: following the fix TOPO-006 suggests makes \<open>lint\<close> fail.\<close>

theorem excusing_mark_is_error:
  "case dict_get (g_nodes g) i of
     None \<Rightarrow> unmarked g i
   | Some n \<Rightarrow> unmarked g i \<or> (\<exists>d \<in> set (errors (lint exists g)). d_rule d = ''ATTR-LINT-001'' \<and> d_node_id d = n_id n)"
proof (cases "dict_get (g_nodes g) i")
  case None
  then show ?thesis by (simp add: unmarked_def node_runs_on_def)
next
  case (Some n)
  have "\<exists>d \<in> set (errors (lint exists g)). d_rule d = ''ATTR-LINT-001'' \<and> d_node_id d = n_id n" if m: "\<not> unmarked g i"
  proof -
  have r: "''runs_on'' \<notin> set node_promoted_attrs" by code_simp
  have "node_attr_has n ''runs_on''"
  proof (rule ccontr)
    assume "\<not> node_attr_has n ''runs_on''"
    then have "node_attr_get_d n ''runs_on'' (PStr ''success'') = PStr ''success''"
      using r by (auto simp: node_attr_has_def node_attr_get_d_def dict_has_iff raw_get_def)
    then have "runs_on_text n = ''success''" by (simp add: runs_on_text_def) code_simp
    then show False using Some m by (simp add: unmarked_def node_runs_on_def)
  qed
  moreover obtain pattern where "(''runs_on'', pattern) \<in> set removed_extension_attrs"
    by (simp add: removed_extension_attrs_def)
  moreover have "n \<in> set (graph_nodes g)" using map_of_SomeD [OF Some] by (force simp: graph_nodes_def)
  ultimately have "removed_diag n ''runs_on'' pattern \<in> set (check_removed_extension_attrs g)"
    unfolding check_removed_extension_attrs_def Let_def
    by (auto intro!: bexI [of _ n] image_eqI [of _ _ "(''runs_on'', pattern)"])
  then show ?thesis by (force simp: errors_of_lint removed_diag_def diag_defs)
  qed
  then show ?thesis using Some by auto
qed

end
