(* ===== verification/Tool_Handler.thy ===== *)
theory Tool_Handler
  imports Engine_Loop Validation
begin

text \<open>
  The handler of tool nodes, \<open>handlers/tool.py\<close>: it runs the shell command of the node, and turns the
  exit code, the output and the ways a process can end into an outcome.

  The operating system is the record \<open>shell\<close> over the world: the process environment, the directory
  and file operations, the spawn of a process (a handle), \<open>communicate\<close> under \<open>asyncio.wait_for\<close>
  (\<^const>\<open>None\<close> is its \<open>TimeoutError\<close>), the return code, \<open>kill\<close>, the bounded \<open>wait\<close>, the clock and the
  decoding of bytes. Every operation that can raise returns the exception.
\<close>

record 'w shell =
  sh_environ :: "string dict"
  sh_makedirs :: "string \<Rightarrow> 'w \<Rightarrow> exc option \<times> 'w"
  sh_write :: "string \<Rightarrow> string \<Rightarrow> 'w \<Rightarrow> exc option \<times> 'w"
  sh_spawn :: "string \<Rightarrow> string dict option \<Rightarrow> pyval \<Rightarrow> 'w \<Rightarrow> (exc + nat) \<times> 'w"
  sh_communicate :: "nat \<Rightarrow> rat option \<Rightarrow> 'w \<Rightarrow> (exc + (string \<times> string) option) \<times> 'w"
  sh_returncode :: "nat \<Rightarrow> 'w \<Rightarrow> int option"
  sh_kill :: "nat \<Rightarrow> 'w \<Rightarrow> 'w"
  sh_reap :: "nat \<Rightarrow> rat \<Rightarrow> 'w \<Rightarrow> 'w"
  sh_monotonic :: "'w \<Rightarrow> rat \<times> 'w"
  sh_decode :: "string \<Rightarrow> string"

section \<open>The text of a JSON value\<close>

text \<open>\<open>json.dumps\<close> with its defaults: \<open>, \<close> and \<open>: \<close> as separators, and everything but printable ASCII
  escaped.\<close>

definition json_char :: "char \<Rightarrow> string" where
  "json_char c =
     (let n = (of_char c :: nat) in
      if n = 34 \<or> n = 92 then [CHR 0x5C, c]
      else if n = 10 then [CHR 0x5C, CHR ''n'']
      else if n = 13 then [CHR 0x5C, CHR ''r'']
      else if n = 9 then [CHR 0x5C, CHR ''t'']
      else if n = 12 then [CHR 0x5C, CHR ''f'']
      else if n = 8 then [CHR 0x5C, CHR ''b'']
      else if 32 \<le> n \<and> n \<le> 126 then [c]
      else [CHR 0x5C, CHR ''u'', CHR ''0'', CHR ''0'', hex_digit (n div 16), hex_digit (n mod 16)])"

definition json_str :: "string \<Rightarrow> string" where
  "json_str s = CHR 0x22 # concat (map json_char s) @ [CHR 0x22]"

fun json_dumps :: "pyval \<Rightarrow> string" where
  "json_dumps PNone = ''null''"
| "json_dumps (PBool b) = (if b then ''true'' else ''false'')"
| "json_dumps (PInt i) = int_str i"
| "json_dumps (PFloat q) = float_text q"
| "json_dumps (PStr s) = json_str s"
| "json_dumps (PList xs) = ''['' @ py_join '', '' (map json_dumps xs) @ '']''"
| "json_dumps (PDict d) =
     ''{'' @ py_join '', '' (map (\<lambda>(k, v). json_str k @ '': '' @ json_dumps v) d) @ ''}''"

section \<open>What a failing command leaves behind\<close>

definition total_cap_bytes :: nat where
  "total_cap_bytes = 8192"

definition stderr_tail_bytes :: nat where
  "stderr_tail_bytes = 2048"

definition cmd_initial_cap :: nat where
  "cmd_initial_cap = 500"

definition cmd_truncate_cap :: nat where
  "cmd_truncate_cap = 200"

definition tail_of :: "nat \<Rightarrow> string \<Rightarrow> string" where
  "tail_of k s = drop (length s - k) s"

definition over_cap :: "pyval dict \<Rightarrow> bool" where
  "over_cap d = (length (json_dumps (PDict d)) > total_cap_bytes)"

definition str_item :: "pyval dict \<Rightarrow> string \<Rightarrow> string" where
  "str_item d k = (case dict_get d k of Some (PStr s) \<Rightarrow> s | _ \<Rightarrow> [])"

definition verification_gap :: pyval where
  "verification_gap =
     PDict [(''log_filtered'', PBool True), (''where'', PStr ''tool_handler:8KiB-cap'')]"

definition whole_step :: "string \<Rightarrow> int \<Rightarrow> rat \<Rightarrow> string \<Rightarrow> string \<Rightarrow> pyval dict" where
  "whole_step command exit_code duration_s stdout_text stderr_text =
     [(''command'', PStr (take cmd_initial_cap command)), (''exit_code'', PInt exit_code),
      (''duration_s'', PFloat duration_s), (''stdout_tail'', PStr stdout_text),
      (''stderr_tail'', PStr stderr_text)]"

definition build_failed_step :: "string \<Rightarrow> int \<Rightarrow> rat \<Rightarrow> string \<Rightarrow> string \<Rightarrow> pyval dict" where
  "build_failed_step command exit_code duration_s stdout_text stderr_text =
     (let d0 = whole_step command exit_code duration_s stdout_text stderr_text;
          truncated = over_cap d0;
          d1 = (if over_cap d0 then dict_pop ''stdout_tail'' d0 else d0);
          d2 = (if over_cap d1
                then dict_set ''stderr_tail'' (PStr (tail_of stderr_tail_bytes (str_item d1 ''stderr_tail''))) d1
                else d1);
          d3 = (if over_cap d2
                then dict_set ''command'' (PStr (take cmd_truncate_cap (str_item d2 ''command''))) d2
                else d2)
      in if truncated then dict_set ''verification_gap'' verification_gap d3 else d3)"

section \<open>The arguments of the command\<close>

text \<open>The node's command with its tokens replaced: \<^const>\<open>None\<close> for a false value, and the \<open>TypeError\<close> of
  the search for a dollar sign in a value that is no text.\<close>

definition tool_command :: "node \<Rightarrow> ctx \<Rightarrow> exc + string option" where
  "tool_command n c =
     (let v = node_attr_get_d n ''tool_command'' (PStr []) in
      if \<not> py_true v then Inr None
      else (case v of
              PStr s \<Rightarrow> Inr (Some (substitute_context s (ctx_snapshot c)))
            | _ \<Rightarrow> Inl (type_error (''argument of type '' @ quoted (py_type_name v) @ '' is not iterable''))))"

definition tool_timeout_s :: "node \<Rightarrow> exc + rat option" where
  "tool_timeout_s n =
     (case n_timeout n of
        PNone \<Rightarrow> Inr None
      | PInt i \<Rightarrow> Inr (Some (of_int i / 1000))
      | PFloat q \<Rightarrow> Inr (Some (q / 1000))
      | PBool b \<Rightarrow> Inr (Some ((if b then 1 else 0) / 1000))
      | PStr s \<Rightarrow> (case py_float s of Inl e \<Rightarrow> Inl e | Inr q \<Rightarrow> Inr (Some (q / 1000)))
      | v \<Rightarrow> Inl (type_error (''float() argument must be a string or a real number, not ''
               @ quoted (py_type_name v))))"

definition export_var :: "ctx \<Rightarrow> string \<Rightarrow> string dict \<Rightarrow> string dict" where
  "export_var c var_name env =
     (if ctx_get c var_name \<noteq> PNone
      then dict_set (py_upper var_name) (py_str (ctx_get c var_name)) env else env)"

definition tool_env :: "string dict \<Rightarrow> node \<Rightarrow> ctx \<Rightarrow> string dict option" where
  "tool_env environ n c =
     (let attr = node_attr_get_d n ''tool_env'' (PStr []) in
      if py_true attr then Some (fold (export_var c) (parse_tool_env_names attr) environ) else None)"

definition tool_cwd :: "graph \<Rightarrow> ctx \<Rightarrow> pyval" where
  "tool_cwd g c =
     (if py_true (ctx_get c ''context.target_dir'') then ctx_get c ''context.target_dir''
      else if g_source_dir g \<noteq> [] then PStr (g_source_dir g) else PNone)"

section \<open>The outcome of a finished command\<close>

text \<open>\<open>str.splitlines\<close>: a carriage return followed by a newline is one line end, and no empty line
  follows the last one.\<close>

definition is_line_end :: "char \<Rightarrow> bool" where
  "is_line_end c = (let n = (of_char c :: nat) in (10 \<le> n \<and> n \<le> 13) \<or> (28 \<le> n \<and> n \<le> 30) \<or> n = 133)"

fun splitlines_go :: "string \<Rightarrow> string \<Rightarrow> string list" where
  "splitlines_go acc [] = (if acc = [] then [] else [rev acc])"
| "splitlines_go acc (c # cs) =
     (if c = CHR 0x0D \<and> cs \<noteq> [] \<and> hd cs = CHR 0x0A then splitlines_go acc cs
      else if is_line_end c then rev acc # splitlines_go [] cs
      else splitlines_go (c # acc) cs)"

definition py_splitlines :: "string \<Rightarrow> string list" where
  "py_splitlines s = splitlines_go [] s"

definition last_line :: "string \<Rightarrow> string" where
  "last_line stdout_text =
     (case find (\<lambda>line. py_strip line \<noteq> []) (rev (py_splitlines stdout_text)) of
        None \<Rightarrow> [] | Some line \<Rightarrow> py_strip line)"

text \<open>The pairs a successful command writes, to the context and to the updates alike, in the order of
  the writes.\<close>

definition tool_writes :: "host \<Rightarrow> node \<Rightarrow> string \<Rightarrow> pyval dict" where
  "tool_writes h n stdout_text =
     (''tool.output'', PStr stdout_text)
     # (if resolve_bool_attr (node_attr_get n ''parse_json'')
        then (case h_json_loads h stdout_text of Inr (PDict d) \<Rightarrow> d | _ \<Rightarrow> []) else [])
     @ [(''tool.last_line'', PStr (last_line stdout_text))]"

text \<open>\<open>parse_json\<close> passes over a \<open>JSONDecodeError\<close> only. Another exception of \<open>json.loads\<close> (an integer of
  too many digits, a nesting too deep) comes after the output has been written to the context.\<close>

definition json_trouble :: "host \<Rightarrow> node \<Rightarrow> string \<Rightarrow> exc option" where
  "json_trouble h n stdout_text =
     (if resolve_bool_attr (node_attr_get n ''parse_json'') then h_json_raises h stdout_text else None)"

definition tool_success :: "host \<Rightarrow> node \<Rightarrow> string \<Rightarrow> string \<Rightarrow> ctx \<Rightarrow> outcome \<times> ctx" where
  "tool_success h n command stdout_text c =
     (let writes = tool_writes h n stdout_text in
      ((mk_outcome SUCCESS)
         \<lparr>o_is_explicit := True, o_context_updates := Some (dict_update [] writes),
          o_notes := Some (''Tool completed: '' @ command)\<rparr>,
       foldl (\<lambda>acc (k, v). ctx_set k v acc) c writes))"

definition tool_failed :: "string \<Rightarrow> int \<Rightarrow> rat \<Rightarrow> string \<Rightarrow> string \<Rightarrow> outcome" where
  "tool_failed command exit_code duration_s stdout_text stderr_text =
     (mk_outcome FAIL)
       \<lparr>o_is_explicit := True,
        o_failure_reason := Some (''Command exited with code '' @ int_str exit_code @ '': ''
          @ (if py_strip stderr_text \<noteq> [] then py_strip stderr_text else py_strip stdout_text)),
        o_failed_step := Some (PDict (build_failed_step command exit_code duration_s stdout_text stderr_text))\<rparr>"

definition fail_reason :: "string \<Rightarrow> outcome" where
  "fail_reason reason = (mk_outcome FAIL)\<lparr>o_failure_reason := Some reason\<rparr>"

text \<open>What follows \<open>communicate\<close>: the log of the output, then the exit code decides.\<close>

definition tool_collect ::
    "host \<Rightarrow> 'w shell \<Rightarrow> string \<Rightarrow> node \<Rightarrow> string \<Rightarrow> rat \<Rightarrow> nat \<Rightarrow> string \<times> string \<Rightarrow> ctx \<Rightarrow> 'w
     \<Rightarrow> (exc + outcome) \<times> ctx \<times> 'w" where
  "tool_collect h sh stage_dir n command t0 pid output c w =
     (let (t1, w1) = sh_monotonic sh w;
          duration_s = of_int (round_half_even ((t1 - t0) * 1000)) / 1000;
          stdout_text = (if fst output \<noteq> [] then sh_decode sh (fst output) else []);
          stderr_text = (if snd output \<noteq> [] then sh_decode sh (snd output) else []);
          (written, w2) = sh_write sh (os_path_join stage_dir ''output.txt'') (stdout_text @ stderr_text) w1
      in case written of
           Some e \<Rightarrow> (Inl e, c, w2)
         | None \<Rightarrow>
             (if sh_returncode sh pid w2 = Some 0
              then (case json_trouble h n stdout_text of
                      Some e \<Rightarrow> (Inl e, ctx_set ''tool.output'' (PStr stdout_text) c, w2)
                    | None \<Rightarrow> (let (out, c') = tool_success h n command stdout_text c in (Inr out, c', w2)))
              else (let exit_code = (case sh_returncode sh pid w2 of None \<Rightarrow> -1 | Some r \<Rightarrow> r)
                    in (Inr (tool_failed command exit_code duration_s stdout_text stderr_text), c, w2))))"

section \<open>The life of the process\<close>

definition reap_timeout_s :: rat where
  "reap_timeout_s = 3"

definition kill_and_reap :: "'w shell \<Rightarrow> nat \<Rightarrow> 'w \<Rightarrow> 'w" where
  "kill_and_reap sh pid w =
     (if sh_returncode sh pid w \<noteq> None then w
      else sh_reap sh pid reap_timeout_s (sh_kill sh pid w))"

text \<open>The inner \<open>try\<close> with its \<open>finally\<close>.\<close>

definition tool_attend ::
    "host \<Rightarrow> 'w shell \<Rightarrow> string \<Rightarrow> node \<Rightarrow> string \<Rightarrow> rat option \<Rightarrow> rat \<Rightarrow> nat \<Rightarrow> ctx \<Rightarrow> 'w
     \<Rightarrow> (exc + outcome) \<times> ctx \<times> 'w" where
  "tool_attend h sh stage_dir n command timeout t0 pid c w =
     (let (res, c', w') =
        (case sh_communicate sh pid timeout w of
           (Inl e, w1) \<Rightarrow> (Inl e, c, w1)
         | (Inr None, w1) \<Rightarrow>
             (Inr (fail_reason (''Timeout after '' @ (case timeout of None \<Rightarrow> ''None'' | Some t \<Rightarrow> float_text t)
                @ ''s: '' @ command)), c, w1)
         | (Inr (Some output), w1) \<Rightarrow> tool_collect h sh stage_dir n command t0 pid output c w1)
      in (res, c', kill_and_reap sh pid w'))"

text \<open>\<open>except Exception\<close> turns every exception but a cancellation into a failure.\<close>

definition caught :: "(exc + outcome) \<times> ctx \<times> 'w \<Rightarrow> (exc + outcome) \<times> ctx \<times> 'w" where
  "caught res =
     (case res of
        (Inl e, c, w) \<Rightarrow> (if is_cancellation e then (Inl e, c, w) else (Inr (fail_reason (exc_str e)), c, w))
      | (Inr out, c, w) \<Rightarrow> (Inr out, c, w))"

definition tool_process ::
    "host \<Rightarrow> 'w shell \<Rightarrow> string \<Rightarrow> node \<Rightarrow> graph \<Rightarrow> string \<Rightarrow> rat option \<Rightarrow> ctx \<Rightarrow> 'w
     \<Rightarrow> (exc + outcome) \<times> ctx \<times> 'w" where
  "tool_process h sh stage_dir n g command timeout c w =
     (let (t0, w1) = sh_monotonic sh w in
      caught
        (case sh_spawn sh command (tool_env (sh_environ sh) n c) (tool_cwd g c) w1 of
           (Inl e, w2) \<Rightarrow> (Inl e, c, w2)
         | (Inr pid, w2) \<Rightarrow> tool_attend h sh stage_dir n command timeout t0 pid c w2))"

section \<open>The handler\<close>

definition tool_execute ::
    "host \<Rightarrow> 'w shell \<Rightarrow> string \<Rightarrow> graph \<Rightarrow> node \<Rightarrow> ctx \<Rightarrow> 'w \<Rightarrow> (exc + outcome) \<times> ctx \<times> 'w" where
  "tool_execute h sh logs_root g n c w =
     (case tool_command n c of
        Inl e \<Rightarrow> (Inl e, c, w)
      | Inr None \<Rightarrow> (Inr (fail_reason ''No tool_command specified on node''), c, w)
      | Inr (Some command) \<Rightarrow>
          (let stage_dir = os_path_join logs_root (n_id n) in
           case sh_makedirs sh stage_dir w of
             (Some e, w1) \<Rightarrow> (Inl e, c, w1)
           | (None, w1) \<Rightarrow>
               (case sh_write sh (os_path_join stage_dir ''command.txt'') command w1 of
                  (Some e, w2) \<Rightarrow> (Inl e, c, w2)
                | (None, w2) \<Rightarrow>
                    (case tool_timeout_s n of
                       Inl e \<Rightarrow> (Inl e, c, w2)
                     | Inr timeout \<Rightarrow> tool_process h sh stage_dir n g command timeout c w2))))"

section \<open>Lemmas: the writes\<close>

lemma dict_set_commute:
  "k \<noteq> j \<Longrightarrow> k \<in> set (dict_keys d) \<Longrightarrow> dict_set k v (dict_set j u d) = dict_set j u (dict_set k v d)"
  by (induction d) auto

lemma dict_set_twice [simp]: "dict_set k v (dict_set k u d) = dict_set k v d"
  by (induction d) auto

lemma keys_dict_set: "fst ` set (dict_set k v d) = insert k (fst ` set d)"
  by (induction d) auto

lemma keys_dict_update: "fst ` set (dict_update d e) = fst ` set d \<union> fst ` set e"
proof (induction e arbitrary: d)
  case (Cons p e)
  then show ?case by (cases p) (simp add: keys_dict_set)
qed simp

lemma dict_set_update_past:
  "k \<notin> set (dict_keys e) \<Longrightarrow> k \<in> set (dict_keys d) \<Longrightarrow>
   dict_set k v (dict_update d e) = dict_update (dict_set k v d) e"
proof (induction e arbitrary: d)
  case (Cons p e)
  obtain j u where p: "p = (j, u)" by force
  have "k \<in> set (dict_keys (dict_set j u d))" using Cons.prems by (simp add: keys_dict_set)
  then show ?case using Cons.IH [of "dict_set j u d"] Cons.prems dict_set_commute [of k j d v u]
    by (simp add: p)
qed simp

lemma dict_update_set:
  "dict_ok e \<Longrightarrow> dict_update d (dict_set k v e) = dict_set k v (dict_update d e)"
proof (induction e arbitrary: d)
  case (Cons p e)
  obtain j u where p: "p = (j, u)" by force
  have ok: "dict_ok e" "j \<notin> set (dict_keys e)" using Cons.prems by (auto simp: p dict_ok_def)
  show ?case
  proof (cases "j = k")
    case True
    have "k \<in> set (dict_keys (dict_set k u d))" by (simp add: keys_dict_set)
    then show ?thesis using dict_set_update_past [of k e "dict_set k u d" v] ok True
      by (simp add: p)
  next
    case False
    then show ?thesis using Cons.IH ok by (simp add: p)
  qed
qed simp

text \<open>Collecting writes in an empty dictionary and updating with it is making the writes.\<close>

lemma dict_update_collected: "dict_update d (dict_update [] ps) = dict_update d ps"
proof (induction ps rule: rev_induct)
  case (snoc p ps)
  obtain k v where p: "p = (k, v)" by force
  have app: "dict_update e (ps @ [p]) = dict_set k v (dict_update e ps)" for e :: "'a dict"
    by (simp add: dict_update_def p)
  have "dict_ok (dict_update ([] :: 'a dict) ps)" by simp
  then show ?case by (simp add: app dict_update_set snoc)
qed simp

lemma ctx_update_collected: "ctx_update (dict_update [] ps) c = foldl (\<lambda>acc (k, v). ctx_set k v acc) c ps"
  by (simp add: ctx_update_fold [symmetric]) (simp add: ctx_update_def dict_update_collected)

section \<open>Lemmas: the outcome of the handler\<close>

text \<open>Either a success of the form \<^const>\<open>tool_success\<close>, or a failure or exception that wrote nothing, or the output
  before its JSON could not be read.\<close>

definition tool_result :: "host \<Rightarrow> node \<Rightarrow> ctx \<Rightarrow> (exc + outcome) \<times> ctx \<times> 'w \<Rightarrow> bool" where
  "tool_result h n c res =
     (case res of (r, c', w) \<Rightarrow>
        (\<exists>out command stdout_text. r = Inr out \<and> tool_success h n command stdout_text c = (out, c'))
        \<or> ((c' = c \<or> (\<exists>s. json_trouble h n s \<noteq> None \<and> c' = ctx_set ''tool.output'' (PStr s) c))
           \<and> (\<forall>out. r = Inr out \<longrightarrow> o_status out = FAIL \<and> o_context_updates out = None)))"

lemma fail_reason_status [simp]:
  "o_status (fail_reason s) = FAIL" "o_context_updates (fail_reason s) = None"
  "o_status (tool_failed cmd ec d out err) = FAIL" "o_context_updates (tool_failed cmd ec d out err) = None"
  by (simp_all add: fail_reason_def tool_failed_def)

lemma tool_result_world: "tool_result h n c (r, c', w') \<longleftrightarrow> tool_result h n c (r, c', w'')"
  by (simp add: tool_result_def)

lemma tool_result_stays: "tool_result h n c (Inl e, c, w)" "tool_result h n c (Inr (fail_reason s), c, w)"
  by (simp_all add: tool_result_def)

lemma tool_result_failed: "tool_result h n c (Inr (tool_failed cmd ec d out err), c, w)"
  by (simp add: tool_result_def)

lemma tool_result_trouble:
  "json_trouble h n s = Some e \<Longrightarrow> tool_result h n c (Inl e, ctx_set ''tool.output'' (PStr s) c, w)"
  by (auto simp: tool_result_def)

lemma tool_result_success:
  "tool_result h n c (let (out, c') = tool_success h n command s c in (Inr out, c', w))"
  by (cases "tool_success h n command s c") (auto simp: tool_result_def)

lemma tool_collect_result: "tool_result h n c (tool_collect h sh dir n command t0 pid outs c w)"
  by (simp add: tool_collect_def Let_def tool_result_success [unfolded Let_def] tool_result_failed
      tool_result_stays tool_result_trouble split: prod.split option.split)

lemma tool_attend_result: "tool_result h n c (tool_attend h sh dir n command tm t0 pid c w)"
proof (cases "sh_communicate sh pid tm w")
  case (Pair r w1)
  show ?thesis
  proof (cases "\<exists>outs. r = Inr (Some outs)")
    case True
    then obtain outs where r: "r = Inr (Some outs)" by auto
    obtain x c' w' where k: "tool_collect h sh dir n command t0 pid outs c w1 = (x, c', w')"
      using prod_cases3 by blast
    have "tool_result h n c (x, c', w')" using tool_collect_result k by metis
    then show ?thesis
      by (simp add: tool_attend_def Pair r k) (rule iffD1 [OF tool_result_world])
  next
    case False
    then show ?thesis
      by (cases r) (auto simp: tool_attend_def Pair tool_result_stays split: option.splits)
  qed
qed

lemma caught_result: "tool_result h n c res \<Longrightarrow> tool_result h n c (caught res)"
  by (auto simp: caught_def tool_result_def split: prod.splits sum.splits)

lemma tool_process_result: "tool_result h n c (tool_process h sh dir n g command tm c w)"
proof -
  have "tool_result h n c
      (case sh_spawn sh command (tool_env (sh_environ sh) n c) (tool_cwd g c) w1 of
         (Inl e, w2) \<Rightarrow> (Inl e, c, w2)
       | (Inr pid, w2) \<Rightarrow> tool_attend h sh dir n command tm t0 pid c w2)" for w1 t0
    by (simp add: tool_attend_result tool_result_stays split: prod.split sum.split)
  then show ?thesis
    by (simp add: tool_process_def Let_def case_prod_beta caught_result)
qed

lemma tool_execute_result: "tool_result h n c (tool_execute h sh logs g n c w)"
  by (simp add: tool_execute_def Let_def tool_process_result tool_result_stays
      split: prod.split sum.split option.split)

lemma tool_success_simps:
  assumes "tool_success h n command s c = (out, c')"
  shows "o_status out = SUCCESS" "o_preferred_label out = None" "o_is_explicit out"
    "o_context_updates out = Some (dict_update [] (tool_writes h n s))"
    "c' = ctx_update (dict_update [] (tool_writes h n s)) c"
    "ctx_get c' ''tool.last_line'' = PStr (last_line s)"
proof -
  show "o_status out = SUCCESS" "o_preferred_label out = None" "o_is_explicit out"
    "o_context_updates out = Some (dict_update [] (tool_writes h n s))"
    using assms by (auto simp: tool_success_def Let_def)
  have c': "c' = foldl (\<lambda>acc (k, v). ctx_set k v acc) c (tool_writes h n s)"
    using assms by (auto simp: tool_success_def Let_def)
  then show "c' = ctx_update (dict_update [] (tool_writes h n s)) c" by (simp add: ctx_update_collected)
  have "tool_writes h n s = butlast (tool_writes h n s) @ [(''tool.last_line'', PStr (last_line s))]"
    by (simp add: tool_writes_def butlast_append)
  then obtain ws where ws: "tool_writes h n s = ws @ [(''tool.last_line'', PStr (last_line s))]"
    by blast
  then show "ctx_get c' ''tool.last_line'' = PStr (last_line s)"
    unfolding c' ws foldl_append by (simp add: cx.look_put_same)
qed

lemma tool_writes_keys:
  "''tool.output'' \<in> fst ` set (tool_writes h n s)" "''tool.last_line'' \<in> fst ` set (tool_writes h n s)"
  by (simp_all only: tool_writes_def set_append list.set image_Un image_insert fst_conv) blast+

lemma tool_writes_plain:
  "\<not> resolve_bool_attr (node_attr_get n ''parse_json'') \<Longrightarrow>
   tool_writes h n s = [(''tool.output'', PStr s), (''tool.last_line'', PStr (last_line s))]"
  by (simp add: tool_writes_def)

section \<open>Lemmas: what becomes of the process\<close>

text \<open>The shell with a log of what the handler does to processes.\<close>

datatype process_event = Spawned nat | Killed nat | Waited nat rat

definition logged :: "'w shell \<Rightarrow> (process_event list \<times> 'w) shell" where
  "logged sh =
     \<lparr>sh_environ = sh_environ sh,
      sh_makedirs = (\<lambda>p (es, w). case sh_makedirs sh p w of (r, w1) \<Rightarrow> (r, es, w1)),
      sh_write = (\<lambda>p s (es, w). case sh_write sh p s w of (r, w1) \<Rightarrow> (r, es, w1)),
      sh_spawn = (\<lambda>cmd env cwd (es, w). case sh_spawn sh cmd env cwd w of
                    (Inl e, w1) \<Rightarrow> (Inl e, es, w1) | (Inr pid, w1) \<Rightarrow> (Inr pid, es @ [Spawned pid], w1)),
      sh_communicate = (\<lambda>pid t (es, w). case sh_communicate sh pid t w of (r, w1) \<Rightarrow> (r, es, w1)),
      sh_returncode = (\<lambda>pid (es, w). sh_returncode sh pid w),
      sh_kill = (\<lambda>pid (es, w). (es @ [Killed pid], sh_kill sh pid w)),
      sh_reap = (\<lambda>pid t (es, w). (es @ [Waited pid t], sh_reap sh pid t w)),
      sh_monotonic = (\<lambda>(es, w). case sh_monotonic sh w of (r, w1) \<Rightarrow> (r, es, w1)), sh_decode = sh_decode sh\<rparr>"

lemma tool_collect_logged:
  "tool_collect h (logged sh) dir n command t0 pid outs c (es, w) =
     (case tool_collect h sh dir n command t0 pid outs c w of (r, c', w') \<Rightarrow> (r, c', es, w'))"
proof -
  obtain t1 w1 where m: "sh_monotonic sh w = (t1, w1)" by force
  obtain x w2 where x: "sh_write sh (os_path_join dir ''output.txt'')
      ((if fst outs \<noteq> [] then sh_decode sh (fst outs) else []) @ (if snd outs \<noteq> [] then sh_decode sh (snd outs) else [])) w1 = (x, w2)"
    by force
  have ops: "sh_monotonic (logged sh) (es, w) = (t1, es, w1)" "sh_decode (logged sh) = sh_decode sh"
    "sh_write (logged sh) p s (es, w1) = (case sh_write sh p s w1 of (r, v) \<Rightarrow> (r, es, v))"
    "sh_returncode (logged sh) pid (es, w2) = sh_returncode sh pid w2" for p s
    by (simp_all add: logged_def m)
  show ?thesis
    unfolding tool_collect_def Let_def m ops prod.case x
    by (simp add: case_prod_beta split: option.split)
qed

lemma kill_and_reap_logged:
  "kill_and_reap (logged sh) pid (es, w) =
     (es @ (if sh_returncode sh pid w \<noteq> None then [] else [Killed pid, Waited pid reap_timeout_s]), kill_and_reap sh pid w)"
  by (simp add: kill_and_reap_def logged_def)

lemma tool_attend_logged:
  obtains r c' v where "tool_attend h sh dir n command tm t0 pid c w = (r, c', kill_and_reap sh pid v)"
    "tool_attend h (logged sh) dir n command tm t0 pid c (es, w) = (r, c', kill_and_reap (logged sh) pid (es, v))"
proof -
  have com: "sh_communicate (logged sh) pid tm (es, w) = (case sh_communicate sh pid tm w of (r, w1) \<Rightarrow> (r, es, w1))"
    by (simp add: logged_def)
  obtain r w1 where k: "sh_communicate sh pid tm w = (r, w1)" by force
  show ?thesis
  proof (cases r)
    case (Inl e)
    then show ?thesis using that [of "Inl e" c w1] by (simp add: tool_attend_def com k)
  next
    case (Inr x)
    show ?thesis
    proof (cases x)
      case None
      then show ?thesis using that [of "Inr (fail_reason (''Timeout after '' @ (case tm of None \<Rightarrow> ''None'' | Some t \<Rightarrow> float_text t)
                @ ''s: '' @ command))" c w1] by (simp add: tool_attend_def com k Inr)
    next
      case (Some outs)
      obtain q c' v where q: "tool_collect h sh dir n command t0 pid outs c w1 = (q, c', v)" by (rule prod_cases3)
      show ?thesis using that [of q c' v] by (simp add: tool_attend_def com k Inr Some tool_collect_logged q)
    qed
  qed
qed

text \<open>The log of a run with a process: it is reaped, or killed and waited for, last of all.\<close>

definition cleaned_up :: "'w shell \<Rightarrow> process_event list \<Rightarrow> 'w \<Rightarrow> bool" where
  "cleaned_up sh es w \<longleftrightarrow> es = [] \<or> (\<exists>pid. es = [Spawned pid] \<and> sh_returncode sh pid w \<noteq> None)
     \<or> (\<exists>pid v. es = [Spawned pid, Killed pid, Waited pid reap_timeout_s] \<and> sh_returncode sh pid v = None
          \<and> w = sh_reap sh pid reap_timeout_s (sh_kill sh pid v))"

lemma caught_logged:
  "caught (r, c, es, w) = (case caught (r, c, w) of (r', c', w') \<Rightarrow> (r', c', es, w'))"
  by (auto simp: caught_def split: sum.splits)

lemma tool_process_logged:
  "\<exists>r c' es' w'. tool_process h (logged sh) dir n g command tm c ([], w) = (r, c', es', w')
     \<and> tool_process h sh dir n g command tm c w = (r, c', w') \<and> cleaned_up sh es' w'"
proof -
  obtain t0 w1 where m: "sh_monotonic sh w = (t0, w1)" by force
  have ml: "sh_monotonic (logged sh) ([], w) = (t0, [], w1)" by (simp add: logged_def m)
  obtain r w2 where sp: "sh_spawn sh command (tool_env (sh_environ sh) n c) (tool_cwd g c) w1 = (r, w2)" by force
  have env: "sh_environ (logged sh) = sh_environ sh" by (simp add: logged_def)
  show ?thesis
  proof (cases r)
    case (Inl e)
    then have "sh_spawn (logged sh) command (tool_env (sh_environ sh) n c) (tool_cwd g c) ([], w1) = (Inl e, [], w2)"
      by (simp add: logged_def sp)
    then show ?thesis
      by (auto simp: tool_process_def m ml sp Inl env caught_logged cleaned_up_def caught_def split: if_splits)
  next
    case (Inr pid)
    then have spl: "sh_spawn (logged sh) command (tool_env (sh_environ sh) n c) (tool_cwd g c) ([], w1) = (Inr pid, [Spawned pid], w2)"
      by (simp add: logged_def sp)
    obtain q c' v where q: "tool_attend h sh dir n command tm t0 pid c w2 = (q, c', kill_and_reap sh pid v)"
      "tool_attend h (logged sh) dir n command tm t0 pid c ([Spawned pid], w2) = (q, c', kill_and_reap (logged sh) pid ([Spawned pid], v))"
      by (rule tool_attend_logged)
    have "cleaned_up sh ([Spawned pid] @ (if sh_returncode sh pid v \<noteq> None then [] else [Killed pid, Waited pid reap_timeout_s]))
        (kill_and_reap sh pid v)"
      by (auto simp: cleaned_up_def kill_and_reap_def)
    then show ?thesis
      by (auto simp: tool_process_def m ml sp Inr env spl q kill_and_reap_logged caught_def split: sum.splits)
  qed
qed

lemma tool_execute_logged:
  "\<exists>r c' es w'. tool_execute h (logged sh) logs g n c ([], w) = (r, c', es, w')
     \<and> tool_execute h sh logs g n c w = (r, c', w') \<and> cleaned_up sh es w'"
proof -
  have ops: "sh_makedirs (logged sh) p ([], v) = (case sh_makedirs sh p v of (r, w1) \<Rightarrow> (r, [], w1))"
    "sh_write (logged sh) p s ([], v) = (case sh_write sh p s v of (r, w1) \<Rightarrow> (r, [], w1))" for p s v
    by (simp_all add: logged_def)
  have c: "cleaned_up sh [] v" for v by (simp add: cleaned_up_def)
  show ?thesis
    using tool_process_logged [of h sh _ n g _ _ c] c
    by (auto simp: tool_execute_def Let_def ops split: prod.splits sum.splits option.splits)
qed

section \<open>Lemmas: the size of a failed step\<close>

definition kept_step :: "string \<Rightarrow> int \<Rightarrow> rat \<Rightarrow> string \<Rightarrow> pyval dict" where
  "kept_step command exit_code duration_s err =
     [(''command'', PStr command), (''exit_code'', PInt exit_code), (''duration_s'', PFloat duration_s),
      (''stderr_tail'', PStr err)]"

lemma length_json_char: "length (json_char c) \<le> 6"
  by (simp add: json_char_def Let_def)

lemma length_json_str: "length (json_str s) \<le> 6 * length s + 2"
proof -
  have "length (concat (map json_char s)) \<le> 6 * length s"
  proof (induction s)
    case (Cons c s)
    then show ?case using length_json_char [of c] by simp
  qed simp
  then show ?thesis by (simp add: json_str_def)
qed

lemma json_str_plain: "list_all (\<lambda>c. json_char c = [c]) s \<Longrightarrow> length (json_str s) = length s + 2"
proof -
  assume "list_all (\<lambda>c. json_char c = [c]) s"
  then have "length (concat (map json_char s)) = length s" by (induction s) auto
  then show ?thesis by (simp add: json_str_def)
qed

lemma length_json_keys:
  "length (json_str ''command'') = 9" "length (json_str ''exit_code'') = 11"
  "length (json_str ''duration_s'') = 12" "length (json_str ''stderr_tail'') = 13"
  "length (json_str ''verification_gap'') = 18" "length (json_dumps verification_gap) = 56"
  by code_simp+

lemma length_kept_step:
  "length (json_dumps (PDict (kept_step cmd ec d err))) =
     length (json_str cmd) + length (json_str err) + length (int_str ec) + length (float_text d) + 61"
  "length (json_dumps (PDict (kept_step cmd ec d err @ [(''verification_gap'', verification_gap)]))) =
     length (json_str cmd) + length (json_str err) + length (int_str ec) + length (float_text d) + 139"
  by (simp_all add: kept_step_def length_json_keys)

lemma length_whole_step:
  "length (json_dumps (PDict (whole_step cmd ec d out err))) \<ge> length (json_str out) + length (json_str err)"
  by (simp add: whole_step_def)

text \<open>Accented characters cost six each, and no cap looks at that.\<close>

lemma length_json_accents: "length (json_str (replicate m (CHR 0xE9))) = 6 * m + 2"
proof -
  have "json_char (CHR 0xE9) = [CHR 0x5C, CHR ''u'', CHR ''0'', CHR ''0'', CHR ''e'', CHR ''9'']" by code_simp
  then show ?thesis by (simp add: json_str_def length_concat sum_list_replicate o_def)
qed

lemma kept_step_ops:
  "dict_pop ''stdout_tail'' (whole_step cmd ec d out err) = kept_step (take cmd_initial_cap cmd) ec d err"
  "str_item (kept_step cmd ec d err) ''stderr_tail'' = err"
  "str_item (kept_step cmd ec d err) ''command'' = cmd"
  "dict_set ''stderr_tail'' (PStr t) (kept_step cmd ec d err) = kept_step cmd ec d t"
  "dict_set ''command'' (PStr t) (kept_step cmd ec d err) = kept_step t ec d err"
  "dict_set ''verification_gap'' v (kept_step cmd ec d err) = kept_step cmd ec d err @ [(''verification_gap'', v)]"
  by (simp_all add: whole_step_def kept_step_def str_item_def AList.delete_eq)

lemma tail_of_suffix: "\<exists>b. tail_of k s = drop b s"
  by (auto simp: tail_of_def)

lemma build_failed_step_accents:
  "build_failed_step ''make'' 2 0 [] (replicate 2048 (CHR 0xE9)) =
     kept_step ''make'' 2 0 (replicate 2048 (CHR 0xE9)) @ [(''verification_gap'', verification_gap)]"
proof -
  let ?e = "replicate 2048 (CHR 0xE9)"
  have w: "over_cap (whole_step ''make'' 2 0 [] ?e)"
    using length_whole_step [of "[]" ?e "''make''" 2 0] length_json_accents [of 2048]
    by (simp add: over_cap_def total_cap_bytes_def)
  have k: "over_cap (kept_step ''make'' 2 0 ?e)"
    by (simp only: over_cap_def total_cap_bytes_def length_kept_step length_json_accents)
  have t: "take cmd_initial_cap ''make'' = ''make''" "take cmd_truncate_cap ''make'' = ''make''"
    "tail_of stderr_tail_bytes ?e = ?e"
    by (simp_all add: cmd_initial_cap_def cmd_truncate_cap_def tail_of_def stderr_tail_bytes_def)
  show ?thesis by (simp only: build_failed_step_def Let_def w if_True kept_step_ops t k)
qed

text \<open>A whole record that fits is kept; otherwise the standard output goes, and what is left fits or
  has been cut to the last caps.\<close>

lemma build_failed_step_cases:
  obtains (whole) "\<not> over_cap (whole_step cmd ec d out err)"
      "build_failed_step cmd ec d out err = whole_step cmd ec d out err"
  | (cut) a b where "over_cap (whole_step cmd ec d out err)" "a \<le> cmd_initial_cap"
      "build_failed_step cmd ec d out err =
         kept_step (take a cmd) ec d (drop b err) @ [(''verification_gap'', verification_gap)]"
      "\<not> over_cap (kept_step (take a cmd) ec d (drop b err))
       \<or> (a \<le> cmd_truncate_cap \<and> length (drop b err) \<le> stderr_tail_bytes)"
proof (cases "over_cap (whole_step cmd ec d out err)")
  case False
  then show ?thesis by (intro whole) (auto simp: build_failed_step_def Let_def)
next
  case over: True
  let ?c = "take cmd_initial_cap cmd" and ?b = "length err - stderr_tail_bytes"
  show ?thesis
  proof (cases "over_cap (kept_step ?c ec d err)")
    case False
    with over show ?thesis
      by (intro cut [of cmd_initial_cap 0]) (simp_all add: build_failed_step_def Let_def kept_step_ops)
  next
    case over1: True
    show ?thesis
    proof (cases "over_cap (kept_step ?c ec d (drop ?b err))")
      case False
      with over over1 show ?thesis
        by (intro cut [of cmd_initial_cap ?b])
          (simp_all add: build_failed_step_def Let_def kept_step_ops tail_of_def)
    next
      case True
      with over over1 show ?thesis
        by (intro cut [of cmd_truncate_cap ?b])
          (simp_all add: build_failed_step_def Let_def kept_step_ops tail_of_def cmd_truncate_cap_def
            cmd_initial_cap_def min_def, linarith)
    qed
  qed
qed

end
