(* ===== verification/Interviewer.thy ===== *)
theory Interviewer
  imports Retry
begin

text \<open>
  The questions the pipeline asks a human and the interviewers that answer them (\<open>interviewer.py\<close>):
  the automatic one, the pre-filled queue, the callback, the console and the recorder. An interviewer
  is a function on its state, \<open>question \<Rightarrow> 's \<Rightarrow> answer \<times> 's\<close>.
\<close>

section \<open>Questions and answers\<close>

datatype question_type = YES_NO | MULTIPLE_CHOICE | FREEFORM | CONFIRMATION

datatype answer_value = AV_YES | AV_NO | AV_SKIPPED | AV_TIMEOUT

text \<open>The \<open>value\<close> of an answer: a text or one of the predefined values.\<close>

datatype answer_content = Said string | Value answer_value

record opt =
  opt_key :: string
  opt_label :: string

record answer =
  a_value :: answer_content
  a_selected :: "opt option"
  a_text :: string

record question =
  q_text :: string
  q_type :: question_type
  q_options :: "opt list"
  q_default :: "answer option"
  q_timeout :: "rat option"
  q_stage :: string
  q_metadata :: "pyval dict"

text \<open>\<open>Answer(value=v)\<close>, \<open>Question(text=t, type=k)\<close> and \<open>str(answer.value)\<close>.\<close>

definition mk_answer :: "answer_content \<Rightarrow> answer" where
  "mk_answer v = \<lparr>a_value = v, a_selected = None, a_text = []\<rparr>"

definition mk_question :: "string \<Rightarrow> question_type \<Rightarrow> question" where
  "mk_question t k = \<lparr>q_text = t, q_type = k, q_options = [], q_default = None, q_timeout = None,
     q_stage = [], q_metadata = []\<rparr>"

definition value_text :: "answer_content \<Rightarrow> string" where
  "value_text v =
     (case v of
        Said s \<Rightarrow> s
      | Value AV_YES \<Rightarrow> ''AnswerValue.YES''
      | Value AV_NO \<Rightarrow> ''AnswerValue.NO''
      | Value AV_SKIPPED \<Rightarrow> ''AnswerValue.SKIPPED''
      | Value AV_TIMEOUT \<Rightarrow> ''AnswerValue.TIMEOUT'')"

text \<open>\<open>Answer(value=opt.key, selected_option=opt)\<close>.\<close>

definition pick :: "opt \<Rightarrow> answer" where
  "pick x = (mk_answer (Said (opt_key x)))\<lparr>a_selected := Some x\<rparr>"

section \<open>The interviewers\<close>

definition auto_approve_ask :: "question \<Rightarrow> 's \<Rightarrow> answer \<times> 's" where
  "auto_approve_ask q s =
     (if q_type q = YES_NO \<or> q_type q = CONFIRMATION then (mk_answer (Value AV_YES), s)
      else
        (case (q_type q, q_options q) of
           (MULTIPLE_CHOICE, first # rest) \<Rightarrow> (pick first, s)
         | _ \<Rightarrow> ((mk_answer (Said ''auto-approved''))\<lparr>a_text := ''auto-approved''\<rparr>, s)))"

definition queue_ask :: "question \<Rightarrow> answer list \<Rightarrow> answer \<times> answer list" where
  "queue_ask q answers =
     (case answers of [] \<Rightarrow> (mk_answer (Value AV_SKIPPED), []) | a # rest \<Rightarrow> (a, rest))"

definition callback_ask :: "(question \<Rightarrow> 's \<Rightarrow> answer \<times> 's) \<Rightarrow> question \<Rightarrow> 's \<Rightarrow> answer \<times> 's" where
  "callback_ask callback q s = callback q s"

text \<open>The recorder: the answers still to give and the log.\<close>

record recorder =
  rec_answers :: "answer list"
  rec_log :: "(question \<times> answer) list"

definition recording_ask :: "question \<Rightarrow> recorder \<Rightarrow> answer \<times> recorder" where
  "recording_ask q s =
     (let (a, rest) = queue_ask q (rec_answers s)
      in (a, s\<lparr>rec_answers := rest, rec_log := rec_log s @ [(q, a)]\<rparr>))"

definition recording_inform :: "string \<Rightarrow> recorder \<Rightarrow> recorder" where
  "recording_inform message s =
     s\<lparr>rec_log := rec_log s @ [(mk_question message CONFIRMATION, mk_answer (Said ''informed''))]\<rparr>"

definition get_recordings :: "recorder \<Rightarrow> (question \<times> answer) list" where
  "get_recordings s = rec_log s"

text \<open>The console: the lines still to be read, an empty line at the end of the input, and the text
  printed so far.\<close>

record console =
  con_lines :: "string list"
  con_out :: string

definition print_text :: "string \<Rightarrow> console \<Rightarrow> console" where
  "print_text s t = t\<lparr>con_out := con_out t @ s\<rparr>"

definition read_line :: "console \<Rightarrow> string \<times> console" where
  "read_line t =
     (case con_lines t of [] \<Rightarrow> ([], t) | l # ls \<Rightarrow> (l, t\<lparr>con_lines := ls\<rparr>))"

definition nl :: string where
  "nl = [CHR 0x0A]"

definition console_yes_no :: "question \<Rightarrow> console \<Rightarrow> answer \<times> console" where
  "console_yes_no q t =
     (let prompt = ''  (yes/no)'' @ (case q_default q of None \<Rightarrow> []
            | Some d \<Rightarrow> '' [default: '' @ value_text (a_value d) @ '']'') @ '': '';
          (line, t') = read_line (print_text prompt t);
          raw = py_lower (py_strip line)
      in (if raw = [] \<and> q_default q \<noteq> None then the (q_default q)
          else if raw \<in> {''y'', ''yes''} then mk_answer (Value AV_YES)
          else if raw \<in> {''n'', ''no''} then mk_answer (Value AV_NO)
          else mk_answer (Value AV_SKIPPED), t'))"

definition console_confirm :: "console \<Rightarrow> answer \<times> console" where
  "console_confirm t =
     (let (line, t') = read_line (print_text ''  (confirm/cancel): '' t)
      in (mk_answer (Value (if py_lower (py_strip line) \<in> {''c'', ''confirm'', ''y'', ''yes''}
                            then AV_YES else AV_NO)), t'))"

definition console_choice :: "question \<Rightarrow> console \<Rightarrow> answer \<times> console" where
  "console_choice q t =
     (let listing = concat (map (\<lambda>x. ''  ['' @ opt_key x @ ''] '' @ opt_label x @ nl) (q_options q));
          (line, t') = read_line (print_text (listing @ ''Choose: '') t)
      in (case find (\<lambda>x. py_strip line = opt_key x) (q_options q) of
            Some x \<Rightarrow> pick x
          | None \<Rightarrow> mk_answer (Value AV_SKIPPED), t'))"

definition console_freeform :: "console \<Rightarrow> answer \<times> console" where
  "console_freeform t =
     (let (line, t') = read_line (print_text ''  Answer: '' t)
      in ((mk_answer (Said (py_strip line)))\<lparr>a_text := py_strip line\<rparr>, t'))"

definition console_ask :: "question \<Rightarrow> console \<Rightarrow> answer \<times> console" where
  "console_ask q t0 =
     (let t = print_text (nl @ ''[Pipeline Question] '' @ q_text q @ nl) t0 in
      case q_type q of
        YES_NO \<Rightarrow> console_yes_no q t
      | CONFIRMATION \<Rightarrow> console_confirm t
      | MULTIPLE_CHOICE \<Rightarrow> console_choice q t
      | FREEFORM \<Rightarrow> console_freeform t)"

definition console_inform :: "string \<Rightarrow> console \<Rightarrow> console" where
  "console_inform message t = print_text (nl @ ''[Pipeline Info] '' @ message @ nl) t"

text \<open>\<open>ask_multiple\<close> of every interviewer: one \<open>ask\<close> after the other.\<close>

fun ask_multiple :: "(question \<Rightarrow> 's \<Rightarrow> answer \<times> 's) \<Rightarrow> question list \<Rightarrow> 's \<Rightarrow> answer list \<times> 's" where
  "ask_multiple ask [] s = ([], s)"
| "ask_multiple ask (q # qs) s =
     (let (a, s1) = ask q s; (rest, s2) = ask_multiple ask qs s1 in (a # rest, s2))"

section \<open>The interface\<close>

text \<open>
  What the gate relies on when it asks a multiple-choice question: the answer is one of the options
  offered, or says that there was none. The queue and the recorder answer from a list prepared in
  advance and promise nothing of the kind.
\<close>

definition answers_offer :: "question \<Rightarrow> answer \<Rightarrow> bool" where
  "answers_offer q a = (a_value a = Value AV_SKIPPED \<or> (\<exists>x \<in> set (q_options q). a = pick x))"

locale choosing_interviewer =
  fixes ask :: "question \<Rightarrow> 's \<Rightarrow> answer \<times> 's"
  assumes ask_offer: "q_type q = MULTIPLE_CHOICE \<Longrightarrow> q_options q \<noteq> [] \<Longrightarrow> answers_offer q (fst (ask q s))"
begin

text \<open>A batch of multiple-choice questions is answered question by question.\<close>

lemma ask_multiple_offer:
  "list_all (\<lambda>q. q_type q = MULTIPLE_CHOICE \<and> q_options q \<noteq> []) qs \<Longrightarrow>
   list_all2 answers_offer qs (fst (ask_multiple ask qs s))"
proof (induction qs arbitrary: s)
  case (Cons q qs)
  obtain a s1 where a: "ask q s = (a, s1)" by force
  obtain rest s2 where r: "ask_multiple ask qs s1 = (rest, s2)" by force
  have "answers_offer q a" using ask_offer [of q s] Cons.prems a by simp
  moreover have "list_all2 answers_offer qs rest" using Cons.IH [of s1] Cons.prems r by simp
  ultimately show ?case by (simp add: a r)
qed simp

end

lemma find_option: "find P xs = Some x \<Longrightarrow> x \<in> set xs"
  by (induction xs) (auto split: if_splits)

interpretation auto: choosing_interviewer auto_approve_ask
proof unfold_locales
  fix q :: question and s :: 's
  assume "q_type q = MULTIPLE_CHOICE" "q_options q \<noteq> []"
  then show "answers_offer q (fst (auto_approve_ask q s))"
    by (cases "q_options q") (simp_all add: auto_approve_ask_def answers_offer_def)
qed

interpretation con: choosing_interviewer console_ask
proof unfold_locales
  fix q :: question and s :: console
  assume "q_type q = MULTIPLE_CHOICE" "q_options q \<noteq> []"
  then show "answers_offer q (fst (console_ask q s))"
    by (auto simp: console_ask_def console_choice_def answers_offer_def mk_answer_def Let_def
        split: prod.split option.split dest: find_option)
qed

text \<open>The recorder logs exactly the questions it was asked with the answers it gave, in order.\<close>

lemma recording_complete:
  "ask_multiple recording_ask qs s = (as, s') \<Longrightarrow> get_recordings s' = get_recordings s @ zip qs as"
proof (induction qs arbitrary: s as s')
  case (Cons q qs)
  obtain a s1 where a: "recording_ask q s = (a, s1)" by force
  obtain rest s2 where r: "ask_multiple recording_ask qs s1 = (rest, s2)" by force
  have "rec_log s1 = rec_log s @ [(q, a)]"
    using a by (auto simp: recording_ask_def Let_def split: prod.splits)
  then show ?case
    using Cons.prems Cons.IH [OF r] by (simp add: a r get_recordings_def) auto
qed (simp add: get_recordings_def)

end
