(* ===== verification/Human_Gate.thy ===== *)
theory Human_Gate
  imports Interviewer Engine_Loop
begin

text \<open>
  The wait-for-human gate, \<open>handlers/human.py\<close>: choices from the labels of the outgoing edges, the
  question, the answer and its resolution to target nodes; the free-text mode with attachments; and
  the escalation a CI run records when there is no interviewer.

  What the gate needs from outside is the record \<open>human\<close>: the interviewer's \<open>ask\<close> and \<open>async_ask\<close>,
  the event hooks, and the file operations of \<open>pathlib\<close>, each with the exception it may raise. A text
  file is read as \<^const>\<open>None\<close> when that raises an \<open>OSError\<close>.
\<close>

datatype interview_event =
    INTERVIEW_STARTED string string
  | INTERVIEW_COMPLETED string string
  | INTERVIEW_TIMEOUT string string

type_synonym 'w asker = "question \<Rightarrow> 'w \<Rightarrow> (exc + answer) \<times> 'w"

record 'w interviewer =
  i_ask :: "'w asker"
  i_async_ask :: "'w asker option"

record 'w human =
  hu_interviewer :: "'w interviewer option"
  hu_emit :: "(interview_event \<Rightarrow> 'w \<Rightarrow> 'w) option"
  hu_cwd :: string
  hu_read_text :: "string \<Rightarrow> 'w \<Rightarrow> exc + string option"
  hu_write_text :: "string \<Rightarrow> string \<Rightarrow> 'w \<Rightarrow> exc option \<times> 'w"
  hu_mkdir :: "string \<Rightarrow> 'w \<Rightarrow> exc option \<times> 'w"
  hu_unlink :: "string \<Rightarrow> 'w \<Rightarrow> exc option \<times> 'w"
  hu_glob :: "string \<Rightarrow> string \<Rightarrow> 'w \<Rightarrow> exc + string list"
  hu_is_file :: "string \<Rightarrow> 'w \<Rightarrow> bool"
  hu_read_bytes :: "string \<Rightarrow> 'w \<Rightarrow> exc + string"
  hu_size :: "string \<Rightarrow> 'w \<Rightarrow> exc + int"
  hu_decode :: "string \<Rightarrow> string"

section \<open>Texts of the node\<close>

text \<open>The error of \<open>_expand_description\<close> on a value that is no text: \<open>replace\<close> is looked up when there is
  a goal, and the search for the token is the first operation otherwise.\<close>

definition expand_description :: "string \<Rightarrow> graph \<Rightarrow> ctx \<Rightarrow> string" where
  "expand_description description g c =
     (let context_goal = (if py_true (ctx_get c ''graph.goal'') then py_str (ctx_get c ''graph.goal'') else []);
          r1 = expand_goal_variable description (g_goal g) context_goal;
          last_response = (let v = ctx_get_d c ''last_response'' (PStr []) in if py_true v then py_str v else []);
          r2 = (if occurs_in (dollar # ''context'') r1 then replace_str (dollar # ''context'') last_response r1 else r1)
      in if dollar \<in> set r2 then substitute_context r2 (ctx_snapshot c) else r2)"

definition not_text :: "graph \<Rightarrow> ctx \<Rightarrow> pyval \<Rightarrow> exc" where
  "not_text g c v =
     (if py_true (ctx_get c ''graph.goal'') \<or> g_goal g \<noteq> []
      then PyError ''AttributeError'' False (quoted (py_type_name v) @ '' object has no attribute '' @ quoted ''replace'')
      else type_error (''argument of type '' @ quoted (py_type_name v) @ '' is not iterable''))"

definition raw_prompt :: "node \<Rightarrow> pyval" where
  "raw_prompt n =
     (if n_prompt n \<noteq> [] then PStr (n_prompt n)
      else if py_true (node_attr_get n ''prompt'') then node_attr_get n ''prompt''
      else if n_label n \<noteq> [] then PStr (n_label n)
      else PStr (''Human gate: '' @ n_id n))"

definition gate_prompt :: "graph \<Rightarrow> node \<Rightarrow> ctx \<Rightarrow> exc + string" where
  "gate_prompt g n c =
     (case raw_prompt n of
        PStr s \<Rightarrow> Inr (if dollar \<in> set s then expand_description s g c else s)
      | v \<Rightarrow> Inl (type_error (''argument of type '' @ quoted (py_type_name v) @ '' is not iterable'')))"

text \<open>The \<open>description\<close>, expanded when there is one: \<^const>\<open>None\<close> when it is false.\<close>

definition gate_description :: "graph \<Rightarrow> node \<Rightarrow> ctx \<Rightarrow> exc + string option" where
  "gate_description g n c =
     (let v = node_attr_get_d n ''description'' (PStr []) in
      if \<not> py_true v then Inr None
      else (case v of PStr s \<Rightarrow> Inr (Some (expand_description s g c)) | _ \<Rightarrow> Inl (not_text g c v)))"

definition described :: "string option \<Rightarrow> pyval dict" where
  "described d = (case d of None \<Rightarrow> [] | Some s \<Rightarrow> if s \<noteq> [] then [(''description'', PStr s)] else [])"

section \<open>Attachments\<close>

definition max_attachment_bytes :: nat where
  "max_attachment_bytes = 100000"

definition attachment_content :: "'w human \<Rightarrow> string \<Rightarrow> string" where
  "attachment_content H raw =
     (if length raw > max_attachment_bytes
      then hu_decode H (take max_attachment_bytes raw) @ nl @ nl @ ''[truncated]''
      else hu_decode H raw)"

text \<open>\<open>relative_to\<close>, \<open>parent\<close> and \<open>name\<close> of \<open>pathlib\<close> on the text of a path.\<close>

definition relative_to :: "string \<Rightarrow> string \<Rightarrow> string option" where
  "relative_to path base =
     (if path = base then Some ''.''
      else if base = ''.'' then (if startswith ''/'' path then None else Some path)
      else if endswith ''/'' base then (if startswith base path then Some (drop (length base) path) else None)
      else if startswith (base @ ''/'') path then Some (drop (length base + 1) path)
      else None)"

definition path_name :: "string \<Rightarrow> string" where
  "path_name p = (if p = ''.'' then [] else last (py_split ''/'' p))"

definition path_parent :: "string \<Rightarrow> string" where
  "path_parent p =
     (case butlast (py_split ''/'' p) of
        [] \<Rightarrow> ''.'' | [[]] \<Rightarrow> ''/'' | ps \<Rightarrow> py_join ''/'' ps)"

definition envelope :: "'w human \<Rightarrow> string \<Rightarrow> string \<Rightarrow> 'w \<Rightarrow> pyval option" where
  "envelope H workspace match w =
     (if \<not> hu_is_file H match w then None
      else
        (case hu_read_bytes H match w of
           Inl e \<Rightarrow> None
         | Inr raw \<Rightarrow>
             (let (path, dir) = (case relative_to match workspace of
                      Some rel \<Rightarrow> (rel, path_parent rel)
                    | None \<Rightarrow> (match, path_parent match))
              in case hu_size H match w of
                   Inl e \<Rightarrow> None
                 | Inr bytes \<Rightarrow>
                     Some (PDict [(''path'', PStr path), (''filename'', PStr (path_name match)),
                                  (''directory'', PStr dir), (''size'', PInt bytes),
                                  (''content'', PStr (attachment_content H raw))]))))"

definition resolve_attachments :: "'w human \<Rightarrow> string \<Rightarrow> string \<Rightarrow> 'w \<Rightarrow> pyval list" where
  "resolve_attachments H patterns workspace_dir w =
     (if py_strip patterns = [] then []
      else
        (let workspace = (if workspace_dir \<noteq> [] then path_str workspace_dir else ''.'') in
         concat (map (\<lambda>part. let pattern = py_strip part in
             if pattern = [] then []
             else (case hu_glob H workspace pattern w of
                     Inl e \<Rightarrow> []
                   | Inr matches \<Rightarrow> List.map_filter (\<lambda>m. envelope H workspace m w) matches))
           (py_split '','' patterns))))"

definition attachments :: "'w human \<Rightarrow> node \<Rightarrow> string \<Rightarrow> string \<Rightarrow> 'w \<Rightarrow> exc + pyval list" where
  "attachments H n attr workspace_dir w =
     (case node_attr_get_d n attr (PStr []) of
        PStr s \<Rightarrow> Inr (resolve_attachments H s workspace_dir w)
      | v \<Rightarrow> Inl (PyError ''AttributeError'' False (quoted (py_type_name v) @ '' object has no attribute '' @ quoted ''strip'')))"

section \<open>Choices\<close>

text \<open>\<open>^\[([^\]]+)\]\s+\<close>: the key and what follows the match.\<close>

definition bracket_key :: "string \<Rightarrow> (string \<times> string) option" where
  "bracket_key label =
     (case label of
        [] \<Rightarrow> None
      | b # rest \<Rightarrow>
          (let key = takeWhile (\<lambda>ch. ch \<noteq> CHR '']'') rest; after = dropWhile (\<lambda>ch. ch \<noteq> CHR '']'') rest in
           if b = CHR ''['' \<and> key \<noteq> [] \<and> after \<noteq> [] \<and> tl after \<noteq> [] \<and> py_isspace (hd (tl after))
           then Some (key, dropWhile py_isspace (tl after)) else None))"

text \<open>\<open>^(\d+)[.)]\s+\<close>.\<close>

definition number_key :: "string \<Rightarrow> string option" where
  "number_key label =
     (let key = takeWhile is_digit label; after = dropWhile is_digit label in
      if key \<noteq> [] \<and> after \<noteq> [] \<and> (hd after = CHR ''.'' \<or> hd after = CHR '')'')
         \<and> tl after \<noteq> [] \<and> py_isspace (hd (tl after))
      then Some key else None)"

definition parse_accelerator_key :: "string \<Rightarrow> string" where
  "parse_accelerator_key label =
     (case bracket_key label of
        Some (key, rest) \<Rightarrow> key
      | None \<Rightarrow> (case number_key label of Some key \<Rightarrow> key | None \<Rightarrow> label))"

definition choice_label :: "edge \<Rightarrow> string" where
  "choice_label e = (if e_label e \<noteq> [] then e_label e else to_node e)"

definition add_choice :: "string list \<Rightarrow> string \<Rightarrow> string list" where
  "add_choice choices label = (if label \<in> set choices then choices else choices @ [label])"

definition gate_choices :: "graph \<Rightarrow> node \<Rightarrow> string list" where
  "gate_choices g n = foldl add_choice [] (map choice_label (outgoing_edges g (n_id n)))"

definition add_target :: "string list dict \<Rightarrow> edge \<Rightarrow> string list dict" where
  "add_target d e =
     (let label = choice_label e; ts = (case dict_get d label of None \<Rightarrow> [] | Some ts \<Rightarrow> ts)
      in dict_set label (ts @ [to_node e]) d)"

definition label_to_targets :: "graph \<Rightarrow> node \<Rightarrow> string list dict" where
  "label_to_targets g n = foldl add_target [] (outgoing_edges g (n_id n))"

definition choice_option :: "string \<Rightarrow> opt" where
  "choice_option label = \<lparr>opt_key = parse_accelerator_key label, opt_label = label\<rparr>"

definition key_to_label :: "string list \<Rightarrow> string dict" where
  "key_to_label choices = foldl (\<lambda>d label. dict_set (parse_accelerator_key label) label d) [] choices"

definition gate_question :: "string list \<Rightarrow> string \<Rightarrow> string \<Rightarrow> pyval dict \<Rightarrow> question" where
  "gate_question choices prompt stage_id metadata =
     (mk_question prompt (if choices \<noteq> [] then MULTIPLE_CHOICE else CONFIRMATION))
       \<lparr>q_options := map choice_option choices, q_stage := stage_id, q_metadata := metadata\<rparr>"

section \<open>Steps shared by the two modes\<close>

definition iter_key :: "node \<Rightarrow> string" where
  "iter_key n = ''_gate_iter.'' @ n_id n"

definition get_stage_id :: "node \<Rightarrow> ctx \<Rightarrow> (exc + string) \<times> ctx" where
  "get_stage_id n c =
     (let v = ctx_get c (iter_key n) in
      case py_int (if py_true v then v else PInt 0) of
        None \<Rightarrow>
          (Inl (case v of
                  PStr s \<Rightarrow> value_error (''invalid literal for int() with base 10: '' @ repr_str s)
                | _ \<Rightarrow> type_error (''int() argument must be a string, a bytes-like object or a real number, not ''
                         @ quoted (py_type_name v))), c)
      | Some i \<Rightarrow>
          (Inr (if i + 1 = 1 then n_id n else n_id n @ ''-'' @ int_str (i + 1)),
           ctx_set (iter_key n) (PInt (i + 1)) c))"

definition hook :: "'w human \<Rightarrow> interview_event \<Rightarrow> 'w \<Rightarrow> 'w" where
  "hook H ev w = (case hu_emit H of None \<Rightarrow> w | Some f \<Rightarrow> f ev w)"

definition dispatch_ask :: "'w interviewer \<Rightarrow> 'w asker" where
  "dispatch_ask iv = (case i_async_ask iv of Some ask \<Rightarrow> ask | None \<Rightarrow> i_ask iv)"

definition skipped_gate :: "node \<Rightarrow> string \<Rightarrow> outcome" where
  "skipped_gate n text_key =
     (mk_outcome FAIL)
       \<lparr>o_is_explicit := True,
        o_context_updates := Some [(text_key, PNone), (''human.gate.label'', PStr (n_label n))],
        o_notes := Some (''Human gate '' @ quoted (n_id n) @ '': interaction was skipped'')\<rparr>"

definition check_special_answer ::
    "'w human \<Rightarrow> answer \<Rightarrow> node \<Rightarrow> string \<Rightarrow> string \<Rightarrow> 'w \<Rightarrow> outcome option \<times> 'w" where
  "check_special_answer H a n text_key prompt w =
     (if a_value a = Value AV_TIMEOUT then (None, hook H (INTERVIEW_TIMEOUT (n_id n) prompt) w)
      else if a_value a = Value AV_SKIPPED then (Some (skipped_gate n text_key), w)
      else (None, w))"

definition resolve_selection :: "answer \<Rightarrow> string list \<Rightarrow> string dict \<Rightarrow> string option" where
  "resolve_selection a choices key_map =
     (let dflt = (case choices of [] \<Rightarrow> None | ch # chs \<Rightarrow> Some ch) in
      case a_value a of
        Value AV_NO \<Rightarrow> (if length choices > 1 then Some (choices ! 1) else dflt)
      | Value v \<Rightarrow> dflt
      | Said s \<Rightarrow>
          (case (case a_selected a of
                   None \<Rightarrow> None
                 | Some x \<Rightarrow>
                     (case dict_get key_map (opt_key x) of
                        Some label \<Rightarrow> Some label
                      | None \<Rightarrow> (if opt_key x \<in> set choices then Some (opt_key x) else None))) of
             Some label \<Rightarrow> Some label
           | None \<Rightarrow>
               (case dict_get key_map s of
                  Some label \<Rightarrow> Some label
                | None \<Rightarrow> (if s \<in> set choices then Some s else dflt))))"

section \<open>The two modes\<close>

definition selected_outcome :: "graph \<Rightarrow> node \<Rightarrow> string option \<Rightarrow> outcome" where
  "selected_outcome g n selected =
     (let text = (case selected of None \<Rightarrow> [] | Some s \<Rightarrow> s);
          targets = (if text = [] then []
                     else (case dict_get (label_to_targets g n) text of None \<Rightarrow> [] | Some ts \<Rightarrow> ts));
          chosen = (if text \<in> set (gate_choices g n) then Some (choice_option text) else None)
      in (mk_outcome SUCCESS)
           \<lparr>o_is_explicit := True,
            o_suggested_next_ids := (if targets \<noteq> [] then Some (map PStr targets) else None),
            o_context_updates := Some
              [(''human.gate.selected'', (case chosen of Some x \<Rightarrow> PStr (opt_key x)
                  | None \<Rightarrow> (case selected of None \<Rightarrow> PNone | Some s \<Rightarrow> PStr s))),
               (''human.gate.label'', PStr (case chosen of Some x \<Rightarrow> opt_label x | None \<Rightarrow> n_label n)),
               (''last_response'', PStr (take 200 text)), (''last_stage'', PStr (n_id n))],
            o_notes := Some (''Human gate '' @ quoted (n_id n) @ '': selected ''
              @ quoted (case selected of None \<Rightarrow> ''None'' | Some s \<Rightarrow> s))\<rparr>)"

definition execute_choice ::
    "'w human \<Rightarrow> 'w interviewer \<Rightarrow> graph \<Rightarrow> node \<Rightarrow> ctx \<Rightarrow> 'w \<Rightarrow> (exc + outcome) \<times> ctx \<times> 'w" where
  "execute_choice H iv g n c w =
     (let choices = gate_choices g n in
      case get_stage_id n c of
        (Inl e, c1) \<Rightarrow> (Inl e, c1, w)
      | (Inr stage_id, c1) \<Rightarrow>
          (case gate_prompt g n c1 of
             Inl e \<Rightarrow> (Inl e, c1, w)
           | Inr prompt \<Rightarrow>
               (case gate_description g n c1 of
                  Inl e \<Rightarrow> (Inl e, c1, w)
                | Inr description \<Rightarrow>
                    (let q = gate_question choices prompt stage_id (described description) in
                     case dispatch_ask iv q (hook H (INTERVIEW_STARTED (n_id n) (q_text q)) w) of
                       (Inl e, w1) \<Rightarrow> (Inl e, c1, w1)
                     | (Inr a, w1) \<Rightarrow>
                         (case check_special_answer H a n ''human.gate.selected'' prompt
                                 (hook H (INTERVIEW_COMPLETED (n_id n) (value_text (a_value a))) w1) of
                            (Some out, w2) \<Rightarrow> (Inr out, c1, w2)
                          | (None, w2) \<Rightarrow>
                              (Inr (selected_outcome g n
                                 (resolve_selection a choices (key_to_label choices))), c1, w2))))))"

definition freeform_outcome :: "graph \<Rightarrow> node \<Rightarrow> answer \<Rightarrow> outcome" where
  "freeform_outcome g n a =
     (let targets = map (\<lambda>e. PStr (to_node e)) (outgoing_edges g (n_id n)) in
      (mk_outcome SUCCESS)
        \<lparr>o_is_explicit := True,
         o_suggested_next_ids := (if targets \<noteq> [] then Some targets else None),
         o_context_updates := Some
           [(''human.gate.text'', PStr (a_text a)), (''human.gate.label'', PStr (n_label n)),
            (''last_response'', PStr (take 200 (a_text a))), (''last_stage'', PStr (n_id n))],
         o_notes := Some (''Human gate '' @ quoted (n_id n) @ '': freeform response received'')\<rparr>)"

definition workspace_of :: "graph \<Rightarrow> ctx \<Rightarrow> string" where
  "workspace_of g c =
     (if py_true (ctx_get c ''context.target_dir'') then py_str (ctx_get c ''context.target_dir'')
      else g_source_dir g)"

definition freeform_question ::
    "'w human \<Rightarrow> graph \<Rightarrow> node \<Rightarrow> ctx \<Rightarrow> string \<Rightarrow> 'w \<Rightarrow> exc + question" where
  "freeform_question H g n c stage_id w =
     (case gate_prompt g n c of
        Inl e \<Rightarrow> Inl e
      | Inr prompt \<Rightarrow>
          (case gate_description g n c of
             Inl e \<Rightarrow> Inl e
           | Inr description \<Rightarrow>
               (case attachments H n ''attachments_inline'' (workspace_of g c) w of
                  Inl e \<Rightarrow> Inl e
                | Inr inl_envelopes \<Rightarrow>
                    (case attachments H n ''attachments_ref'' (workspace_of g c) w of
                       Inl e \<Rightarrow> Inl e
                     | Inr ref_envelopes \<Rightarrow>
                         Inr ((mk_question prompt FREEFORM)
                           \<lparr>q_stage := stage_id,
                            q_metadata := described description
                              @ (if inl_envelopes \<noteq> [] then [(''attachments_inline'', PList inl_envelopes)] else [])
                              @ (if ref_envelopes \<noteq> [] then [(''attachments_ref'', PList ref_envelopes)] else [])\<rparr>)))))"

definition execute_freeform ::
    "'w human \<Rightarrow> 'w interviewer \<Rightarrow> graph \<Rightarrow> node \<Rightarrow> ctx \<Rightarrow> 'w \<Rightarrow> (exc + outcome) \<times> ctx \<times> 'w" where
  "execute_freeform H iv g n c w =
     (case get_stage_id n c of
        (Inl e, c1) \<Rightarrow> (Inl e, c1, w)
      | (Inr stage_id, c1) \<Rightarrow>
          (case freeform_question H g n c1 stage_id w of
             Inl e \<Rightarrow> (Inl e, c1, w)
           | Inr q \<Rightarrow>
               (case dispatch_ask iv q (hook H (INTERVIEW_STARTED (n_id n) (q_text q)) w) of
                  (Inl e, w1) \<Rightarrow> (Inl e, c1, w1)
                | (Inr a, w1) \<Rightarrow>
                    (case check_special_answer H a n ''human.gate.text'' (q_text q)
                            (hook H (INTERVIEW_COMPLETED (n_id n)
                               (if a_text a \<noteq> [] then a_text a else value_text (a_value a))) w1) of
                       (Some out, w2) \<Rightarrow> (Inr out, c1, w2)
                     | (None, w2) \<Rightarrow> (Inr (freeform_outcome g n a), c1, w2)))))"

section \<open>The escalation of a CI run\<close>

text \<open>\<open>^(AC-\d+)(?: \[guard\])?: UNMET$\<close> per line, the guards left out.\<close>

definition unmet_criterion :: "string \<Rightarrow> string option" where
  "unmet_criterion line =
     (if startswith ''AC-'' line
      then (let ds = takeWhile is_digit (drop 3 line) in
            if ds \<noteq> [] \<and> line = ''AC-'' @ ds @ '': UNMET'' then Some (''AC-'' @ ds) else None)
      else None)"

definition partial_unmet_criteria :: "'w human \<Rightarrow> string \<Rightarrow> 'w \<Rightarrow> exc + string list" where
  "partial_unmet_criteria H ai_dir w =
     (case hu_read_text H (path_div ai_dir ''findings/partial-met.md'') w of
        Inl e \<Rightarrow> Inl e
      | Inr None \<Rightarrow> Inr []
      | Inr (Some text) \<Rightarrow> Inr (List.map_filter unmet_criterion (py_split nl text)))"

definition stripped_text :: "pyval \<Rightarrow> string" where
  "stripped_text v = (case v of PStr s \<Rightarrow> py_strip s | _ \<Rightarrow> [])"

definition proposal_reference :: "'w human \<Rightarrow> ctx \<Rightarrow> string \<Rightarrow> 'w \<Rightarrow> exc + string" where
  "proposal_reference H c ai_dir w =
     (if stripped_text (ctx_get c ''proposal_url'') \<noteq> [] then Inr (stripped_text (ctx_get c ''proposal_url''))
      else if stripped_text (ctx_get c ''proposal_pr'') \<noteq> [] then Inr (stripped_text (ctx_get c ''proposal_pr''))
      else (case hu_read_text H (path_div ai_dir ''proposal-url'') w of
              Inl e \<Rightarrow> Inl e
            | Inr None \<Rightarrow> Inr []
            | Inr (Some text) \<Rightarrow> Inr (py_strip text)))"

text \<open>\<open>\bAC-\d+\b|\bconflict(?:ing)?\b\<close>, ignoring case. \<open>prev\<close> tells whether the character
  before is a word character.\<close>

definition criterion_at :: "string \<Rightarrow> bool" where
  "criterion_at s =
     (py_lower (take 3 s) = ''ac-''
      \<and> takeWhile is_digit (drop 3 s) \<noteq> [] \<and> word_ends (dropWhile is_digit (drop 3 s)))"

definition conflict_at :: "string \<Rightarrow> bool" where
  "conflict_at s =
     ((py_lower (take 11 s) = ''conflicting'' \<and> word_ends (drop 11 s))
      \<or> (py_lower (take 8 s) = ''conflict'' \<and> word_ends (drop 8 s)))"

fun names_evidence :: "bool \<Rightarrow> string \<Rightarrow> bool" where
  "names_evidence prev [] = False"
| "names_evidence prev (c # cs) =
     ((\<not> prev \<and> (criterion_at (c # cs) \<or> conflict_at (c # cs))) \<or> names_evidence (re_word c) cs)"

definition option_meaning :: "edge \<Rightarrow> string" where
  "option_meaning e =
     py_strip (case bracket_key (choice_label e) of Some (key, rest) \<Rightarrow> rest | None \<Rightarrow> choice_label e)"

definition ci_evidence_payload :: "ctx \<Rightarrow> graph \<Rightarrow> node \<Rightarrow> (string \<times> string \<times> string) option" where
  "ci_evidence_payload c g n =
     (let question = stripped_text (ctx_get c ''escalation.question'');
          evidence = stripped_text (ctx_get c ''escalation.evidence'');
          next_action = stripped_text (ctx_get c ''escalation.next_action'')
      in if question = [] \<or> evidence = [] \<or> next_action = [] then None
         else if length (remdups (map option_meaning (outgoing_edges g (n_id n)))) < 2 then None
         else if \<not> names_evidence False evidence then None
         else Some (question, evidence, next_action))"

definition refused_text :: "node \<Rightarrow> string" where
  "refused_text n =
     py_join nl
       [''# Finding: CI escalation refused'', [],
        ''The `'' @ n_id n @ ''` human gate reached CI without a proposal or a concrete evidence-backed choice. CI will not ask an owner to approve, abandon, or continue an unevidenced decision.'',
        [], ''## Required next action'',
        ''Change the preceding route to terminalize its finding, or provide `escalation.question`, `escalation.evidence` (naming an unmet AC or conflicting evidence), and `escalation.next_action`. Re-run only after that payload exists.'']
     @ nl"

definition option_lines :: "graph \<Rightarrow> node \<Rightarrow> string list" where
  "option_lines g n = map (\<lambda>e. ''- '' @ choice_label e) (outgoing_edges g (n_id n))"

definition partial_lines :: "string list \<Rightarrow> string list" where
  "partial_lines unmet =
     (let criteria = py_join '', '' unmet in
      [''## Decision context'', ''- Remaining unmet acceptance criterion: '' @ criteria @ ''.'',
       ''- No proposal PR or diff exists to approve or reject.'', [], ''## Required next action'',
       ''Produce a scoped proposal for '' @ criteria @ '', with a RED proof and ordinary CI. Do not ask for approval until that proposal exists.''])"

definition proposal_lines :: "graph \<Rightarrow> node \<Rightarrow> string \<Rightarrow> string \<Rightarrow> string list" where
  "proposal_lines g n prompt proposal =
     [''## Question'', prompt, [], ''## Decision context'', ''- Proposal for review: '' @ proposal,
      ''- Decide whether that scoped diff is the right response to the recorded finding before selecting an outcome.'',
      [], ''## Options''] @ option_lines g n
     @ [[], ''## Required next action'',
        ''Review the proposal's scoped diff, record the decision in an authenticated issue comment, then re-apply the triggering label.'']"

definition evidence_lines :: "graph \<Rightarrow> node \<Rightarrow> string \<times> string \<times> string \<Rightarrow> string list" where
  "evidence_lines g n payload =
     (case payload of (question, evidence, next_action) \<Rightarrow>
        [''## Question'', question, [], ''## Decision context'', ''- Evidence: '' @ evidence, [], ''## Options'']
        @ option_lines g n @ [[], ''## Required next action'', next_action])"

text \<open>The body of the artifact; \<^const>\<open>None\<close> is the refusal.\<close>

definition escalation_lines ::
    "graph \<Rightarrow> node \<Rightarrow> string \<Rightarrow> string list \<Rightarrow> string \<Rightarrow> (string \<times> string \<times> string) option \<Rightarrow> string list option" where
  "escalation_lines g n prompt unmet proposal payload =
     (if unmet \<noteq> [] \<and> proposal = [] then Some (partial_lines unmet)
      else if proposal \<noteq> [] then Some (proposal_lines g n prompt proposal)
      else map_option (evidence_lines g n) payload)"

definition ci_outcome :: "node \<Rightarrow> string \<Rightarrow> string \<Rightarrow> string \<Rightarrow> outcome" where
  "ci_outcome n key path note =
     (mk_outcome FAIL)
       \<lparr>o_is_explicit := True,
        o_context_updates := Some [(''human.gate.label'', PStr (n_label n)), (key, PStr path)],
        o_notes := Some (''Human gate '' @ quoted (n_id n) @ note @ path)\<rparr>"

text \<open>A file operation that may raise, and what follows it.\<close>

definition attempt :: "exc option \<times> 'w \<Rightarrow> ('w \<Rightarrow> (exc + 'a) \<times> 'w) \<Rightarrow> (exc + 'a) \<times> 'w" where
  "attempt r k = (case r of (Some e, w) \<Rightarrow> (Inl e, w) | (None, w) \<Rightarrow> k w)"

definition write_refused_ci_escalation :: "'w human \<Rightarrow> string \<Rightarrow> node \<Rightarrow> 'w \<Rightarrow> (exc + string) \<times> 'w" where
  "write_refused_ci_escalation H ai_dir n w =
     (let finding = path_div ai_dir ''findings/invalid-escalation.md'' in
      attempt (hu_unlink H (path_div ai_dir ''escalation.md'') w) (\<lambda>w1.
      attempt (hu_mkdir H (path_div ai_dir ''findings'') w1) (\<lambda>w2.
      attempt (hu_write_text H finding (refused_text n) w2) (\<lambda>w3. (Inr finding, w3)))))"

definition write_ci_escalation :: "'w human \<Rightarrow> node \<Rightarrow> ctx \<Rightarrow> graph \<Rightarrow> 'w \<Rightarrow> (exc + outcome) \<times> 'w" where
  "write_ci_escalation H n c g w =
     (let ai_dir = path_div (hu_cwd H) ''.ai''; artifact = path_div ai_dir ''escalation.md'' in
      attempt (hu_mkdir H ai_dir w) (\<lambda>w1.
        case gate_prompt g n c of
          Inl e \<Rightarrow> (Inl e, w1)
        | Inr prompt \<Rightarrow>
            (case partial_unmet_criteria H ai_dir w1 of
               Inl e \<Rightarrow> (Inl e, w1)
             | Inr unmet \<Rightarrow>
                 (case proposal_reference H c ai_dir w1 of
                    Inl e \<Rightarrow> (Inl e, w1)
                  | Inr proposal \<Rightarrow>
                      (case escalation_lines g n prompt unmet proposal (ci_evidence_payload c g n) of
                         None \<Rightarrow>
                           (case write_refused_ci_escalation H ai_dir n w1 of
                              (Inl e, w2) \<Rightarrow> (Inl e, w2)
                            | (Inr finding, w2) \<Rightarrow>
                                (Inr (ci_outcome n ''escalation.finding'' finding '': CI escalation refused at ''), w2))
                       | Some body \<Rightarrow>
                           attempt (hu_write_text H artifact
                               (py_join nl ([''# Escalation: '' @ n_id n, []] @ body) @ nl) w1)
                             (\<lambda>w2. (Inr (ci_outcome n ''escalation.artifact'' artifact '': CI escalation recorded at ''), w2)))))))"

section \<open>The handler\<close>

definition human_execute ::
    "'w human \<Rightarrow> graph \<Rightarrow> node \<Rightarrow> ctx \<Rightarrow> 'w \<Rightarrow> (exc + outcome) \<times> ctx \<times> 'w" where
  "human_execute H g n c w =
     (case hu_interviewer H of
        None \<Rightarrow>
          (if n_id n = ''escalate''
           then (let (res, w') = write_ci_escalation H n c g w in (res, c, w'))
           else (Inl (value_error ''HumanGateHandler requires an Interviewer but none was provided. Pass interviewer=AutoApproveInterviewer() explicitly if you want auto-approve behavior for CI/testing.''), c, w))
      | Some iv \<Rightarrow>
          (if node_attr_get n ''mode'' = PStr ''freeform'' then execute_freeform H iv g n c w
           else execute_choice H iv g n c w))"

section \<open>Lemmas: choices and targets\<close>

lemma foldl_add_choice: "set (foldl add_choice acc ls) = set acc \<union> set ls"
  by (induction ls arbitrary: acc) (auto simp: add_choice_def)

lemma distinct_add_choice: "distinct acc \<Longrightarrow> distinct (foldl add_choice acc ls)"
  by (induction ls arbitrary: acc) (auto simp: add_choice_def)

lemma gate_choices_set: "set (gate_choices g n) = choice_label ` set (outgoing_edges g (n_id n))"
  by (simp add: gate_choices_def foldl_add_choice)

lemma distinct_gate_choices: "distinct (gate_choices g n)"
  by (simp add: gate_choices_def distinct_add_choice)

lemma gate_choices_Nil: "gate_choices g n = [] \<longleftrightarrow> outgoing_edges g (n_id n) = []"
  using gate_choices_set [of g n] by (metis image_is_empty set_empty)

lemma dict_get_add_target:
  "dict_get (add_target d e) l =
     (if l = choice_label e then Some ((case dict_get d l of None \<Rightarrow> [] | Some ts \<Rightarrow> ts) @ [to_node e])
      else dict_get d l)"
  by (simp add: add_target_def Let_def)

text \<open>The targets of a label are the targets of its edges, in order.\<close>

lemma label_to_targets_exact:
  "l \<in> choice_label ` set es \<Longrightarrow>
   dict_get (foldl add_target [] es) l = Some (map to_node (filter (\<lambda>e. choice_label e = l) es))"
proof (induction es rule: rev_induct)
  case (snoc e es)
  show ?case
  proof (cases "l \<in> choice_label ` set es")
    case True
    then show ?thesis using snoc.IH by (auto simp: dict_get_add_target)
  next
    case False
    then have l: "l = choice_label e" using snoc.prems by auto
    have "dict_get (foldl add_target [] es) l = None"
      using False by (induction es rule: rev_induct) (auto simp: dict_get_add_target)
    moreover have "filter (\<lambda>e. choice_label e = l) es = []" using False by (auto simp: filter_empty_conv)
    ultimately show ?thesis by (simp add: dict_get_add_target l)
  qed
qed simp

text \<open>A key belongs to the last label that has it.\<close>

lemma key_to_label_last:
  "dict_get (key_to_label choices) k =
     (let ls = filter (\<lambda>l. parse_accelerator_key l = k) choices in if ls = [] then None else Some (last ls))"
proof (induction choices rule: rev_induct)
  case (snoc l ls)
  then show ?case by (auto simp: key_to_label_def Let_def)
qed (simp add: key_to_label_def Let_def)

lemma key_to_label_in: "dict_get (key_to_label choices) k = Some l \<Longrightarrow> l \<in> set choices"
proof -
  assume "dict_get (key_to_label choices) k = Some l"
  then have "filter (\<lambda>l. parse_accelerator_key l = k) choices \<noteq> []"
    and "l = last (filter (\<lambda>l. parse_accelerator_key l = k) choices)"
    by (auto simp: key_to_label_last Let_def split: if_splits)
  then have "l \<in> set (filter (\<lambda>l. parse_accelerator_key l = k) choices)" by (metis last_in_set)
  then show ?thesis by simp
qed

lemma resolve_selection_in:
  assumes "choices \<noteq> []"
  shows "\<exists>l \<in> set choices. resolve_selection a choices (key_to_label choices) = Some l"
proof -
  obtain ch chs where c: "choices = ch # chs" using assms by (cases choices) auto
  show ?thesis
  proof (cases "a_value a")
    case (Said s)
    then show ?thesis
      using key_to_label_in [of choices] by (auto simp: resolve_selection_def Let_def c split: option.split)
  next
    case (Value v)
    then show ?thesis by (cases v) (auto simp: resolve_selection_def Let_def c)
  qed
qed

lemma picked_option:
  assumes "l \<in> set choices"
  shows "resolve_selection (pick (choice_option l)) choices (key_to_label choices)
    = Some (last (filter (\<lambda>l'. parse_accelerator_key l' = parse_accelerator_key l) choices))"
proof -
  have "filter (\<lambda>l'. parse_accelerator_key l' = parse_accelerator_key l) choices \<noteq> []"
    using assms by (auto simp: filter_empty_conv)
  then show ?thesis
    by (simp add: resolve_selection_def pick_def mk_answer_def choice_option_def key_to_label_last Let_def)
qed

section \<open>Lemmas: what the gate returns\<close>

lemma selected_outcome_simps:
  assumes "label \<in> set (gate_choices g n)" "label \<noteq> []"
  shows "o_status (selected_outcome g n (Some label)) = SUCCESS" "o_is_explicit (selected_outcome g n (Some label))"
    "o_preferred_label (selected_outcome g n (Some label)) = None"
    "o_suggested_next_ids (selected_outcome g n (Some label)) =
       Some (map (\<lambda>e. PStr (to_node e)) (filter (\<lambda>e. choice_label e = label) (outgoing_edges g (n_id n))))"
    "dict_get (the (o_context_updates (selected_outcome g n (Some label)))) ''human.gate.label'' = Some (PStr label)"
proof -
  have "label \<in> choice_label ` set (outgoing_edges g (n_id n))" using assms(1) by (simp add: gate_choices_set)
  moreover from this have "filter (\<lambda>e. choice_label e = label) (outgoing_edges g (n_id n)) \<noteq> []"
    by (auto simp: filter_empty_conv)
  ultimately show "o_suggested_next_ids (selected_outcome g n (Some label)) =
       Some (map (\<lambda>e. PStr (to_node e)) (filter (\<lambda>e. choice_label e = label) (outgoing_edges g (n_id n))))"
    using assms(2) by (simp add: selected_outcome_def Let_def label_to_targets_def label_to_targets_exact o_def)
qed (use assms in \<open>simp_all add: selected_outcome_def Let_def choice_option_def\<close>)

lemma execute_choice_success:
  assumes "execute_choice H iv g n c w = (Inr out, c', w')" "o_status out = SUCCESS"
  shows "\<exists>a. out = selected_outcome g n (resolve_selection a (gate_choices g n) (key_to_label (gate_choices g n)))"
  using assms
  by (auto simp: execute_choice_def check_special_answer_def skipped_gate_def Let_def
      split: prod.splits sum.splits option.splits if_splits)

end
