(* ===== verification/Handler_Properties.thy ===== *)
theory Handler_Properties
  imports Samples Tool_Handler Human_Gate
begin

text \<open>
  Properties of the handlers of tool nodes and human gates, and of these handlers together with the
  output contract, the conditions and the edge selection of the engine.
\<close>

section \<open>Sample shells\<close>

text \<open>The world is the list of the processes alive. A command writes \<open>out\<close> and ends with \<open>code\<close>, or,
  when \<open>hangs\<close>, runs until it is killed.\<close>

definition sample_shell :: "bool \<Rightarrow> string \<Rightarrow> int \<Rightarrow> nat list shell" where
  "sample_shell hangs out code =
     \<lparr>sh_environ = [], sh_makedirs = (\<lambda>p w. (None, w)), sh_write = (\<lambda>p s w. (None, w)),
      sh_spawn = (\<lambda>cmd env cwd w. (Inr (length w), length w # w)),
      sh_communicate = (\<lambda>pid t w. if hangs then (Inr None, w)
                          else (Inr (Some (out, [])), filter (\<lambda>p. p \<noteq> pid) w)),
      sh_returncode = (\<lambda>pid w. if pid \<in> set w then None else Some code),
      sh_kill = (\<lambda>pid w. filter (\<lambda>p. p \<noteq> pid) w), sh_reap = (\<lambda>pid t w. w),
      sh_monotonic = (\<lambda>w. (0, w)), sh_decode = (\<lambda>s. s)\<rparr>"

definition tool_node :: "string \<Rightarrow> node" where
  "tool_node i = (plain_node i ''parallelogram'')\<lparr>n_raw := [(''tool_command'', PStr ''run'')]\<rparr>"

definition tool_graph :: graph where
  "tool_graph = plain_graph [tool_node ''t'', plain_node ''x'' ''Msquare''] [plain_edge ''t'' ''x'']"

section \<open>Tool nodes\<close>

text \<open>C29: A tool node keeps the output contract. A success carries context updates with both declared
  outputs, the context it leaves is the context with exactly these updates, and the engine's check of the contract finds
  nothing missing. Every other way out, a timeout, a non-zero exit, a process that did not start, an
  exception, is a failure without updates and leaves the context as it was, with one exception: a node with
  \<open>parse_json\<close> whose output \<open>json.loads\<close> refuses otherwise than by a \<open>JSONDecodeError\<close> leaves \<open>tool.output\<close> in it.\<close>

theorem tool_keeps_output_contract:
  assumes "dict_get (g_nodes g) (n_id n) = Some n" "resolve_handler_type (n_type n) (n_shape n) = ''tool''"
  shows "case tool_execute h sh logs g n c w of
      (res, c', w') \<Rightarrow>
        (case res of
           Inr out \<Rightarrow> if o_status out = SUCCESS
             then (\<exists>u. o_context_updates out = Some u \<and> c' = ctx_update u c
                     \<and> ''tool.output'' \<in> fst ` set u \<and> ''tool.last_line'' \<in> fst ` set u)
                  \<and> check_contract_violation X g (n_id n) out S = S
             else o_status out = FAIL \<and> o_context_updates out = None
         | Inl e \<Rightarrow> True)
        \<and> (c' = c \<or> (\<exists>out. res = Inr out \<and> o_status out = SUCCESS)
           \<or> (\<exists>s. resolve_bool_attr (node_attr_get n ''parse_json'') \<and> h_json_raises h s \<noteq> None
                \<and> c' = ctx_set ''tool.output'' (PStr s) c))"
proof -
  have "map_of (map (\<lambda>(i, m). (i, node_outputs_of g i m)) ns) j = map_option (node_outputs_of g j) (map_of ns j)"
    for ns j by (induction ns) auto
  then have outs: "node_outputs g (n_id n) = [''tool.output'', ''tool.last_line'']"
    using assms by (simp add: node_outputs_def build_output_table_def node_outputs_of_def handler_inferred_outputs_def)
  obtain r c' w' where res: "tool_execute h sh logs g n c w = (r, c', w')" by (rule prod_cases3)
  consider out command s where "r = Inr out" "tool_success h n command s c = (out, c')"
    | "c' = c \<or> (\<exists>s. json_trouble h n s \<noteq> None \<and> c' = ctx_set ''tool.output'' (PStr s) c)"
        "\<forall>out. r = Inr out \<longrightarrow> o_status out = FAIL \<and> o_context_updates out = None"
    using tool_execute_result [of h n c sh logs g w] unfolding tool_result_def res by auto
  then show ?thesis
  proof cases
    case (1 out command s)
    note k = tool_success_simps [OF 1(2)]
    have keys: "''tool.output'' \<in> fst ` set (dict_update [] (tool_writes h n s))"
      "''tool.last_line'' \<in> fst ` set (dict_update [] (tool_writes h n s))"
      using tool_writes_keys [of h n s] by (simp_all add: keys_dict_update)
    then have "check_contract_violation X g (n_id n) out S = S"
      by (simp add: check_contract_violation_def outs k(4) Let_def)
    then show ?thesis using 1(1) k keys by (auto simp: res)
  next
    case 2
    have "c' = c \<or> (\<exists>s. resolve_bool_attr (node_attr_get n ''parse_json'') \<and> h_json_raises h s \<noteq> None
        \<and> c' = ctx_set ''tool.output'' (PStr s) c)"
      using 2(1) by (auto simp: json_trouble_def split: if_splits)
    then show ?thesis using 2(2) by (cases r) (auto simp: res)
  qed
qed

lemma tool_keeps_output_contract_witness:
  "\<exists>res c' w'. tool_execute (plain_host PNone) (sample_shell False ''ok'' 0) ''l'' tool_graph (tool_node ''t'') ctx_new [] = (res, c', w')
     \<and> (c' = ctx_new \<or> (\<exists>out. res = Inr out \<and> o_status out = SUCCESS))"
proof -
  obtain res c' w' where r: "tool_execute (plain_host PNone) (sample_shell False ''ok'' 0) ''l'' tool_graph (tool_node ''t'') ctx_new []
      = (res, c', w')" by (rule prod_cases3)
  have "dict_get (g_nodes tool_graph) (n_id (tool_node ''t'')) = Some (tool_node ''t'')"
    "resolve_handler_type (n_type (tool_node ''t'')) (n_shape (tool_node ''t'')) = ''tool''"
    by (simp_all add: tool_graph_def tool_node_def plain_graph_def plain_node_def resolve_handler_type_def shape_to_handler_def)
  from tool_keeps_output_contract [OF this, where h = "plain_host PNone" and sh = "sample_shell False ''ok'' 0"
      and logs = "''l''" and c = ctx_new and w = "[]" and X = plain_eenv and S = start_state] r
  show ?thesis by (simp add: plain_host_def)
qed

text \<open>The exception: a command that succeeded is reported as a failure, and its output stays in the context.\<close>

lemma unreadable_json_fails_late:
  "case tool_execute ((plain_host PNone)\<lparr>h_json_raises := (\<lambda>s. Some (PyError ''RecursionError'' False s))\<rparr>)
      (sample_shell False ''ok'' 0) ''l'' tool_graph ((tool_node ''t'')\<lparr>n_raw := [(''tool_command'', PStr ''run''), (''parse_json'', PBool True)]\<rparr>)
      ctx_new [] of
     (Inr out, c', w') \<Rightarrow> o_status out = FAIL \<and> ctx_get c' ''tool.output'' = PStr ''ok''
   | _ \<Rightarrow> False"
  by code_simp

text \<open>A tool routes by its last line. When a tool without \<open>parse_json\<close> succeeds and no context key
  is named \<open>context.tool.last_line\<close>, the documented condition \<open>context.tool.last_line=LABEL\<close> of an
  outgoing edge holds, in the context the engine routes in, exactly for the label that is the last
  line of the standard output that is not blank, stripped.\<close>

theorem tool_label_routes:
  assumes "tool_execute h sh logs g n c w = (Inr out, c', w')" "o_status out = SUCCESS"
    "\<not> resolve_bool_attr (node_attr_get n ''parse_json'')"
    "ctx_get c ''context.tool.last_line'' = PNone" "clause_ok (''context.tool.last_line'', ''='', label)"
  shows "\<exists>s. ctx_get c' ''tool.output'' = PStr s
    \<and> (evaluate_condition (''context.tool.last_line='' @ label) out (apply_outcome out c') \<longleftrightarrow> last_line s = label)"
proof -
  obtain command s where ok: "tool_success h n command s c = (out, c')"
    using tool_execute_result [of h n c sh logs g w] assms(1,2) unfolding tool_result_def by auto
  note k = tool_success_simps [OF ok]
  let ?u = "dict_update [] [(''tool.output'', PStr s), (''tool.last_line'', PStr (last_line s))]"
  have u: "?u = [(''tool.output'', PStr s), (''tool.last_line'', PStr (last_line s))]" by simp
  have c': "c' = ctx_update ?u c" and upd: "o_context_updates out = Some ?u"
    using k(4,5) tool_writes_plain [OF assms(3), of h s] by simp_all
  let ?c = "apply_outcome out c'"
  have get: "ctx_get ?c ''tool.last_line'' = PStr (last_line s)"
    "ctx_get ?c ''context.tool.last_line'' = PNone" "ctx_get c' ''tool.output'' = PStr s"
    using assms(4) by (simp_all add: apply_outcome_def upd c' u k(2) ctx_update_fold cx.look_put)
  have "resolve_key ''context.tool.last_line'' out ?c = last_line s"
    by (simp add: resolve_key_def context_prefix_def get)
  moreover have "parse_condition (''context.tool.last_line='' @ label) = [(''context.tool.last_line'', ''='', label)]"
    using parse_condition_print [of "[(''context.tool.last_line'', ''='', label)]"] assms(5) by simp
  ultimately have "evaluate_condition (''context.tool.last_line='' @ label) out ?c \<longleftrightarrow> last_line s = label"
    by (simp add: evaluate_condition_eq evaluate_clause_def)
  with get(3) show ?thesis by blast
qed

lemma tool_label_routes_witness:
  "\<exists>s. ctx_get (ctx_update [(''tool.output'', PStr ''ok''), (''tool.last_line'', PStr ''ok'')] ctx_new) ''tool.output'' = PStr s
    \<and> (evaluate_condition (''context.tool.last_line='' @ ''ok'')
         (fst (tool_success (plain_host PNone) (tool_node ''t'') ''run'' ''ok'' ctx_new))
         (apply_outcome (fst (tool_success (plain_host PNone) (tool_node ''t'') ''run'' ''ok'' ctx_new))
            (ctx_update [(''tool.output'', PStr ''ok''), (''tool.last_line'', PStr ''ok'')] ctx_new))
       \<longleftrightarrow> last_line s = ''ok'')"
proof -
  have run: "tool_execute (plain_host PNone) (sample_shell False ''ok'' 0) ''l'' tool_graph (tool_node ''t'') ctx_new [] =
      (Inr (fst (tool_success (plain_host PNone) (tool_node ''t'') ''run'' ''ok'' ctx_new)),
       ctx_update [(''tool.output'', PStr ''ok''), (''tool.last_line'', PStr ''ok'')] ctx_new, [])"
    by code_simp
  show ?thesis
    by (rule tool_label_routes [OF run]) code_simp+
qed

text \<open>C30: The handler of a tool node leaves no spawned process unattended. Read from a log of what it does to processes,
  which changes nothing else: at most one process is spawned; and whatever way the handler ends, a success, a
  failing command, a timeout, a cancellation, an exception in between, the process has its return code at the end,
  or else, having none, it is killed and then waited for, for at most three seconds, and nothing is done after that.
  The process is the shell; what the command started in turn is not looked for.\<close>

theorem tool_cleans_up:
  "case tool_execute h (logged sh) logs g n c ([], w) of
     (res, c', es, w') \<Rightarrow> tool_execute h sh logs g n c w = (res, c', w')
       \<and> (es = [] \<or> (\<exists>pid. es = [Spawned pid] \<and> sh_returncode sh pid w' \<noteq> None)
          \<or> (\<exists>pid v. es = [Spawned pid, Killed pid, Waited pid 3] \<and> sh_returncode sh pid v = None
               \<and> w' = sh_reap sh pid 3 (sh_kill sh pid v)))"
proof -
  from tool_execute_logged [of h sh logs g n c w]
  obtain r c' es w' where k: "tool_execute h (logged sh) logs g n c ([], w) = (r, c', es, w')"
    "tool_execute h sh logs g n c w = (r, c', w')" "cleaned_up sh es w'"
    by (elim exE conjE)
  show ?thesis unfolding k(1) prod.case using k(2) k(3) [unfolded cleaned_up_def reap_timeout_s_def] by blast
qed

text \<open>What a failing command leaves in \<open>failed_step\<close>. The standard output is there exactly when the whole
  record fits in 8 KiB of JSON, and otherwise the gap is marked; the command is cut at the end and the error
  output at the front, the latter only when the record did not fit. The JSON text stays below 13640 characters plus
  those of the two numbers, and no better: with 2048 accented characters it is over 12000,
  so the cap of 8 KiB is not kept.\<close>

theorem failed_step_bounds:
  "dict_get (build_failed_step cmd ec d out err) ''stdout_tail'' =
     (if over_cap (whole_step cmd ec d out err) then None else Some (PStr out))
   \<and> dict_get (build_failed_step cmd ec d out err) ''verification_gap'' =
     (if over_cap (whole_step cmd ec d out err) then Some verification_gap else None)
   \<and> (\<exists>a b. dict_get (build_failed_step cmd ec d out err) ''command'' = Some (PStr (take a cmd))
        \<and> dict_get (build_failed_step cmd ec d out err) ''stderr_tail'' = Some (PStr (drop b err))
        \<and> a \<le> 500 \<and> (over_cap (whole_step cmd ec d out err) \<or> b = 0))
   \<and> length (json_dumps (PDict (build_failed_step cmd ec d out err)))
       \<le> 13640 + length (int_str ec) + length (float_text d)
   \<and> length (json_dumps (PDict (build_failed_step ''make'' 2 0 [] (replicate 2048 (CHR 0xE9))))) > 12000"
proof -
  let ?f = "build_failed_step cmd ec d out err"
  have big: "length (json_dumps (PDict (build_failed_step ''make'' 2 0 [] (replicate 2048 (CHR 0xE9))))) > 12000"
    by (simp only: build_failed_step_accents length_kept_step length_json_accents)
  show ?thesis
  proof (cases rule: build_failed_step_cases [of cmd ec d out err])
    case whole
    then have "length (json_dumps (PDict ?f)) \<le> 8192" by (simp add: over_cap_def total_cap_bytes_def)
    moreover have "dict_get ?f ''command'' = Some (PStr (take 500 cmd))" "dict_get ?f ''stderr_tail'' = Some (PStr (drop 0 err))"
      "dict_get ?f ''stdout_tail'' = Some (PStr out)" "dict_get ?f ''verification_gap'' = None"
      using whole(2) by (simp_all add: whole_step_def cmd_initial_cap_def)
    ultimately show ?thesis using big whole(1) by auto
  next
    case (cut a b)
    have "length (json_dumps (PDict ?f)) \<le> 13640 + length (int_str ec) + length (float_text d)"
    proof (cases "over_cap (kept_step (take a cmd) ec d (drop b err))")
      case True
      then have "length (take a cmd) \<le> 200" "length (drop b err) \<le> 2048"
        using cut(4) by (auto simp: cmd_truncate_cap_def stderr_tail_bytes_def)
      then show ?thesis
        using length_json_str [of "take a cmd"] length_json_str [of "drop b err"]
        by (simp only: cut(3) length_kept_step)
    next
      case False
      then show ?thesis
        by (simp only: cut(3) over_cap_def total_cap_bytes_def length_kept_step)
    qed
    moreover have "dict_get ?f ''command'' = Some (PStr (take a cmd))" "dict_get ?f ''stderr_tail'' = Some (PStr (drop b err))"
      "dict_get ?f ''stdout_tail'' = None" "dict_get ?f ''verification_gap'' = Some verification_gap"
      by (simp_all add: cut(3) kept_step_def)
    moreover have "a \<le> 500" using cut(2) by (simp add: cmd_initial_cap_def)
    ultimately show ?thesis using big cut(1) by auto
  qed
qed

text \<open>A timeout of zero: the engine takes it for no bound, the handler for one that has already passed.\<close>

lemma zero_timeout_differs:
  "n_timeout n = PInt 0 \<Longrightarrow> tool_timeout_s n = Inr (Some 0) \<and> node_timeout_s n = Inr None"
  by (simp add: tool_timeout_s_def node_timeout_s_def)

section \<open>Human gates\<close>

lemma find_first: "filter P xs = x # rest \<Longrightarrow> find P xs = Some x"
  by (induction xs) (auto split: if_splits)

text \<open>C31: The human's choice is the way the run goes. When no outgoing edge of the gate has a condition, a
  selecting gate records the label of one of the choices, and edge selection follows the first
  outgoing edge that leads to the target of that label, whatever the context. So two
  edges with different labels to one node are not told apart: the first is taken for both.\<close>

theorem human_choice_routes:
  assumes "execute_choice H iv g n c w = (Inr out, c', w')" "o_status out = SUCCESS"
    "outgoing_edges g (n_id n) \<noteq> []"
    "list_all (\<lambda>e. e_condition e = [] \<and> to_node e \<noteq> []) (outgoing_edges g (n_id n))"
  shows "\<exists>label \<in> set (gate_choices g n).
    dict_get (the (o_context_updates out)) ''human.gate.label'' = Some (PStr label)
    \<and> (\<exists>e. find (\<lambda>e. choice_label e = label) (outgoing_edges g (n_id n)) = Some e
         \<and> select_edge (n_id n) out d g = find (\<lambda>e'. to_node e' = to_node e) (outgoing_edges g (n_id n)))"
proof -
  let ?es = "outgoing_edges g (n_id n)" and ?ch = "gate_choices g n"
  obtain a where out: "out = selected_outcome g n (resolve_selection a ?ch (key_to_label ?ch))"
    using execute_choice_success [OF assms(1,2)] by blast
  obtain label where l: "label \<in> set ?ch" and sel: "resolve_selection a ?ch (key_to_label ?ch) = Some label"
    using resolve_selection_in [of ?ch a] assms(3) by (auto simp: gate_choices_Nil)
  have ne: "label \<noteq> []" using l assms(4) by (auto simp: gate_choices_set choice_label_def list_all_iff)
  note k = selected_outcome_simps [OF l ne]
  obtain e rest where f: "filter (\<lambda>e. choice_label e = label) ?es = e # rest"
    using l by (cases "filter (\<lambda>e. choice_label e = label) ?es") (auto simp: gate_choices_set filter_empty_conv)
  then have first: "find (\<lambda>e. choice_label e = label) ?es = Some e" by (rule find_first)
  have cond: "(e_condition x = [] \<and> P) = P" if "x \<in> set ?es" for x P
    using assms(4) that by (simp add: list_all_iff)
  have same: "find (\<lambda>x. e_condition x = [] \<and> to_node x = to_node e) ?es = find (\<lambda>x. to_node x = to_node e) ?es"
    by (rule find_cong [OF refl]) (simp add: cond)
  have "e \<in> set ?es" using f by (metis filter_is_subset list.set_intros(1) subsetD)
  then obtain e' where e': "find (\<lambda>x. to_node x = to_node e) ?es = Some e'"
    by (cases "find (\<lambda>x. to_node x = to_node e) ?es") (auto simp: find_None_iff)
  have "condition_matched ?es out d = []"
    using assms(4) by (auto simp: condition_matched_def filter_empty_conv list_all_iff)
  then have "select_edge (n_id n) out d g = Some e'"
    by (simp add: select_edge_def assms(3) out sel k f coerce_suggested_id_def same e')
  then show ?thesis using l k(5) first e' by (auto simp: out sel)
qed

definition gate_node :: node where
  "gate_node = plain_node ''gate'' ''hexagon''"

definition gate_graph :: graph where
  "gate_graph =
     plain_graph [gate_node, plain_node ''a'' ''box'', plain_node ''b'' ''box'']
       [(plain_edge ''gate'' ''a'')\<lparr>e_label := ''[Y] Yes''\<rparr>, (plain_edge ''gate'' ''b'')\<lparr>e_label := ''[N] No''\<rparr>]"

definition sample_human :: "'w asker \<Rightarrow> 'w human" where
  "sample_human ask =
     \<lparr>hu_interviewer = Some \<lparr>i_ask = ask, i_async_ask = None\<rparr>, hu_emit = None, hu_cwd = ''/w'',
      hu_read_text = (\<lambda>p w. Inr None), hu_write_text = (\<lambda>p s w. (None, w)), hu_mkdir = (\<lambda>p w. (None, w)),
      hu_unlink = (\<lambda>p w. (None, w)), hu_glob = (\<lambda>d p w. Inr []), hu_is_file = (\<lambda>p w. False),
      hu_read_bytes = (\<lambda>p w. Inr []), hu_size = (\<lambda>p w. Inr 0), hu_decode = (\<lambda>s. s)\<rparr>"

definition always :: "answer \<Rightarrow> nat asker" where
  "always a q w = (Inr a, w)"

definition sample_iv :: "answer \<Rightarrow> nat interviewer" where
  "sample_iv a = \<lparr>i_ask = always a, i_async_ask = None\<rparr>"

lemma human_choice_routes_witness:
  "\<exists>label \<in> set (gate_choices gate_graph gate_node).
    dict_get (the (o_context_updates (selected_outcome gate_graph gate_node (Some ''[N] No'')))) ''human.gate.label'' = Some (PStr label)
    \<and> (\<exists>e. find (\<lambda>e. choice_label e = label) (outgoing_edges gate_graph (n_id gate_node)) = Some e
         \<and> select_edge (n_id gate_node) (selected_outcome gate_graph gate_node (Some ''[N] No'')) ctx_new gate_graph
           = find (\<lambda>e'. to_node e' = to_node e) (outgoing_edges gate_graph (n_id gate_node)))"
proof -
  have run: "execute_choice (sample_human (always (pick (choice_option ''[N] No''))))
      (sample_iv (pick (choice_option ''[N] No''))) gate_graph gate_node ctx_new 0 =
    (Inr (selected_outcome gate_graph gate_node (Some ''[N] No'')), ctx_set ''_gate_iter.gate'' (PInt 1) ctx_new, 0)"
    by code_simp
  show ?thesis by (rule human_choice_routes [OF run]) code_simp+
qed

text \<open>How a picked option becomes a choice. The automatic and the console interviewer answer a gate's question with
  one of its options or not at all, and the gate resolves an option to the last label that has its
  key: to the label of the option itself when the keys differ, but with two labels of one key the earlier one
  cannot be chosen, and the automatic approval of the first option selects the later.\<close>

theorem interviewer_choice_resolves:
  assumes "choices \<noteq> []" "q = gate_question choices prompt stage_id metadata"
  shows "(case a_value (fst (console_ask q t)) of
      Value v \<Rightarrow> v = AV_SKIPPED
    | Said k \<Rightarrow> k \<in> parse_accelerator_key ` set choices
        \<and> resolve_selection (fst (console_ask q t)) choices (key_to_label choices)
          = Some (last (filter (\<lambda>l. parse_accelerator_key l = k) choices)))
    \<and> resolve_selection (fst (auto_approve_ask q s)) choices (key_to_label choices)
      = Some (last (filter (\<lambda>l. parse_accelerator_key l = parse_accelerator_key (hd choices)) choices))"
proof
  have q: "q_type q = MULTIPLE_CHOICE" "q_options q = map choice_option choices" "q_options q \<noteq> []"
    using assms by (simp_all add: gate_question_def mk_question_def)
  have key: "a_value (pick (choice_option l)) = Said (parse_accelerator_key l)" for l
    by (simp add: pick_def mk_answer_def choice_option_def)
  consider "a_value (fst (console_ask q t)) = Value AV_SKIPPED"
    | l where "l \<in> set choices" "fst (console_ask q t) = pick (choice_option l)"
    using con.ask_offer [OF q(1,3), of t] by (auto simp: answers_offer_def q(2))
  then show "case a_value (fst (console_ask q t)) of
      Value v \<Rightarrow> v = AV_SKIPPED
    | Said k \<Rightarrow> k \<in> parse_accelerator_key ` set choices
        \<and> resolve_selection (fst (console_ask q t)) choices (key_to_label choices)
          = Some (last (filter (\<lambda>l. parse_accelerator_key l = k) choices))"
    by cases (auto simp: key picked_option)
  obtain c cs where c: "choices = c # cs" using assms by (cases choices) auto
  then have "fst (auto_approve_ask q s) = pick (choice_option c)"
    using q(1,2) by (simp add: auto_approve_ask_def)
  then show "resolve_selection (fst (auto_approve_ask q s)) choices (key_to_label choices)
      = Some (last (filter (\<lambda>l. parse_accelerator_key l = parse_accelerator_key (hd choices)) choices))"
    using picked_option [of c choices] by (simp add: c)
qed

lemma interviewer_choice_resolves_witness:
  "(case a_value (fst (console_ask (gate_question [''[Y] Yes'', ''[Y] Yeah''] ''ok?'' ''g'' []) \<lparr>con_lines = [''Y''], con_out = []\<rparr>)) of
      Value v \<Rightarrow> v = AV_SKIPPED
    | Said k \<Rightarrow> k \<in> parse_accelerator_key ` set [''[Y] Yes'', ''[Y] Yeah'']
        \<and> resolve_selection (fst (console_ask (gate_question [''[Y] Yes'', ''[Y] Yeah''] ''ok?'' ''g'' []) \<lparr>con_lines = [''Y''], con_out = []\<rparr>))
            [''[Y] Yes'', ''[Y] Yeah''] (key_to_label [''[Y] Yes'', ''[Y] Yeah''])
          = Some (last (filter (\<lambda>l. parse_accelerator_key l = k) [''[Y] Yes'', ''[Y] Yeah''])))
    \<and> resolve_selection (fst (auto_approve_ask (gate_question [''[Y] Yes'', ''[Y] Yeah''] ''ok?'' ''g'' []) ()))
        [''[Y] Yes'', ''[Y] Yeah''] (key_to_label [''[Y] Yes'', ''[Y] Yeah''])
      = Some (last (filter (\<lambda>l. parse_accelerator_key l = parse_accelerator_key (hd [''[Y] Yes'', ''[Y] Yeah''])) [''[Y] Yes'', ''[Y] Yeah'']))"
  by (rule interviewer_choice_resolves) simp_all

lemma equal_keys_select_the_later:
  "resolve_selection (fst (auto_approve_ask (gate_question [''[Y] Yes'', ''[Y] Yeah''] ''ok?'' ''g'' []) ()))
     [''[Y] Yes'', ''[Y] Yeah''] (key_to_label [''[Y] Yes'', ''[Y] Yeah'']) = Some ''[Y] Yeah''"
  by code_simp

text \<open>An answer nobody gave. When the interviewer reports a timeout, the gate succeeds with its first
  choice as an explicit verdict, which satisfies a goal gate; when it reports a skip, the gate fails.\<close>

theorem unanswered_gate:
  assumes "hu_interviewer H = Some iv" "node_attr_get n ''mode'' \<noteq> PStr ''freeform''"
    "fst (human_execute H g n c w) = Inr out" "gate_choices g n = label # rest" "label \<noteq> []"
    "\<And>q w. \<exists>a w'. dispatch_ask iv q w = (Inr a, w') \<and> a_value a = Value v" "v = AV_TIMEOUT \<or> v = AV_SKIPPED"
  shows "if v = AV_TIMEOUT then gate_satisfied out
      \<and> dict_get (the (o_context_updates out)) ''human.gate.label'' = Some (PStr label)
    else o_status out = FAIL \<and> \<not> gate_satisfied out"
proof -
  let ?ch = "gate_choices g n"
  have "fst (execute_choice H iv g n c w) = Inr out"
    using assms(1-3) by (simp add: human_execute_def)
  then obtain st c1 pr ds where k: "get_stage_id n c = (Inr st, c1)" "gate_prompt g n c1 = Inr pr"
      "gate_description g n c1 = Inr ds"
    by (auto simp: execute_choice_def Let_def split: prod.splits sum.splits)
  let ?q = "gate_question ?ch pr st (described ds)"
  obtain a w1 where d: "dispatch_ask iv ?q (hook H (INTERVIEW_STARTED (n_id n) (q_text ?q)) w) = (Inr a, w1)"
      and v: "a_value a = Value v"
    using assms(6) by blast
  have sel: "resolve_selection a ?ch (key_to_label ?ch) = Some label" if "v = AV_TIMEOUT"
    using assms(4) v that by (simp add: resolve_selection_def Let_def)
  have out: "Inr out = (case check_special_answer H a n ''human.gate.selected'' pr
        (hook H (INTERVIEW_COMPLETED (n_id n) (value_text (a_value a))) w1) of
      (Some out, w2) \<Rightarrow> Inr out
    | (None, w2) \<Rightarrow> (Inr (selected_outcome g n (resolve_selection a ?ch (key_to_label ?ch))) :: exc + outcome))"
    using \<open>fst (execute_choice H iv g n c w) = Inr out\<close>
    by (simp add: execute_choice_def k d Let_def split: prod.splits option.splits)
  note l = selected_outcome_simps [of label g n, OF _ assms(5)]
  show ?thesis
  proof (cases "v = AV_TIMEOUT")
    case True
    then have "out = selected_outcome g n (Some label)"
      using out v sel by (simp add: check_special_answer_def)
    then show ?thesis using True l assms(4) by (simp add: gate_satisfied_def is_success_def)
  next
    case False
    then have "out = skipped_gate n ''human.gate.selected''"
      using out v assms(7) by (simp add: check_special_answer_def)
    then show ?thesis using False by (simp add: skipped_gate_def gate_satisfied_def is_success_def)
  qed
qed

lemma unanswered_gate_witness:
  "if AV_TIMEOUT = AV_TIMEOUT then gate_satisfied (selected_outcome gate_graph gate_node (Some ''[Y] Yes''))
      \<and> dict_get (the (o_context_updates (selected_outcome gate_graph gate_node (Some ''[Y] Yes'')))) ''human.gate.label''
        = Some (PStr ''[Y] Yes'')
    else o_status (selected_outcome gate_graph gate_node (Some ''[Y] Yes'')) = FAIL
      \<and> \<not> gate_satisfied (selected_outcome gate_graph gate_node (Some ''[Y] Yes''))"
proof (rule unanswered_gate [where H = "sample_human (always (mk_answer (Value AV_TIMEOUT)))"
      and iv = "sample_iv (mk_answer (Value AV_TIMEOUT))" and w = 0 and c = ctx_new])
  show "gate_choices gate_graph gate_node = ''[Y] Yes'' # [''[N] No'']" by code_simp
  show "\<exists>a w'. dispatch_ask (sample_iv (mk_answer (Value AV_TIMEOUT))) q w = (Inr a, w') \<and> a_value a = Value AV_TIMEOUT" for q w
    by (simp add: dispatch_ask_def sample_iv_def always_def mk_answer_def)
  show "hu_interviewer (sample_human (always (mk_answer (Value AV_TIMEOUT)))) = Some (sample_iv (mk_answer (Value AV_TIMEOUT)))"
    by (simp add: sample_human_def sample_iv_def)
qed code_simp+

text \<open>Re-entering a gate never repeats a stage id. The visits of a gate, counted in the context under the
  gate's own key, ask under pairwise different ids, the first under the node's id.\<close>

theorem gate_stage_ids_distinct:
  assumes "ctx_get c (iter_key n) = PNone"
  shows "distinct (map (\<lambda>k. fst (get_stage_id n (((\<lambda>c. snd (get_stage_id n c)) ^^ k) c))) [0..<m])
    \<and> fst (get_stage_id n c) = Inr (n_id n)"
proof
  let ?step = "\<lambda>c. snd (get_stage_id n c)"
  have cnt: "ctx_get ((?step ^^ Suc k) c) (iter_key n) = PInt (int k + 1)" for k
  proof (induction k)
    case 0
    then show ?case by (simp add: get_stage_id_def assms py_int_def cx.look_put)
  next
    case (Suc k)
    then show ?case by (simp add: get_stage_id_def py_int_def cx.look_put)
  qed
  have id: "fst (get_stage_id n ((?step ^^ k) c)) =
      Inr (if k = 0 then n_id n else n_id n @ ''-'' @ int_str (int k + 1))" for k
  proof (cases k)
    case 0
    then show ?thesis by (simp add: get_stage_id_def assms py_int_def)
  next
    case (Suc j)
    then show ?thesis using cnt [of j] by (simp add: get_stage_id_def py_int_def del: funpow.simps)
  qed
  show "distinct (map (\<lambda>k. fst (get_stage_id n ((?step ^^ k) c))) [0..<m])"
    unfolding id by (auto simp: distinct_map inj_on_def)
  show "fst (get_stage_id n c) = Inr (n_id n)" using id [of 0] by simp
qed

lemma gate_stage_ids_distinct_witness:
  "distinct (map (\<lambda>k. fst (get_stage_id gate_node (((\<lambda>c. snd (get_stage_id gate_node c)) ^^ k) ctx_new))) [0..<3])
    \<and> fst (get_stage_id gate_node ctx_new) = Inr (n_id gate_node)"
  by (rule gate_stage_ids_distinct) code_simp

text \<open>Without an interviewer nothing is chosen. A gate in a run without an interviewer either raises or fails
  with an explicit verdict that suggests no node and satisfies no goal gate, and the context stays as it was;
  what it names is the escalation artifact or the refusal.\<close>

theorem no_interviewer_no_choice:
  assumes "hu_interviewer H = None"
  shows "case human_execute H g n c w of
      (Inl e, c', w') \<Rightarrow> c' = c
    | (Inr out, c', w') \<Rightarrow> c' = c \<and> o_status out = FAIL \<and> o_is_explicit out \<and> \<not> gate_satisfied out
        \<and> o_suggested_next_ids out = None \<and> o_preferred_label out = None
        \<and> (\<exists>key path. o_context_updates out = Some [(''human.gate.label'', PStr (n_label n)), (key, PStr path)]
            \<and> key \<in> {''escalation.finding'', ''escalation.artifact''})"
proof -
  let ?good = "\<lambda>out. o_status out = FAIL \<and> o_is_explicit out \<and> \<not> gate_satisfied out
        \<and> o_suggested_next_ids out = None \<and> o_preferred_label out = None
        \<and> (\<exists>key path. o_context_updates out = Some [(''human.gate.label'', PStr (n_label n)), (key, PStr path)]
            \<and> key \<in> {''escalation.finding'', ''escalation.artifact''})"
  have ci: "?good (ci_outcome n key path msg)" if "key \<in> {''escalation.finding'', ''escalation.artifact''}" for key path msg
    using that by (auto simp: ci_outcome_def gate_satisfied_def is_success_def)
  have "fst (write_ci_escalation H n c g w) = Inr out \<Longrightarrow> ?good out" for out
    using ci by (auto simp: write_ci_escalation_def attempt_def Let_def split: prod.splits sum.splits option.splits)
  then show ?thesis
    using assms by (cases "write_ci_escalation H n c g w") (auto simp: human_execute_def split: sum.splits)
qed

lemma no_interviewer_no_choice_witness:
  "case human_execute ((sample_human (always (mk_answer (Value AV_YES))))\<lparr>hu_interviewer := None\<rparr>) gate_graph
      (gate_node\<lparr>n_id := ''escalate''\<rparr>) ctx_new 0 of
      (Inl e, c', w') \<Rightarrow> c' = ctx_new
    | (Inr out, c', w') \<Rightarrow> c' = ctx_new \<and> o_status out = FAIL \<and> o_is_explicit out \<and> \<not> gate_satisfied out
        \<and> o_suggested_next_ids out = None \<and> o_preferred_label out = None
        \<and> (\<exists>key path. o_context_updates out = Some [(''human.gate.label'', PStr (n_label (gate_node\<lparr>n_id := ''escalate''\<rparr>))), (key, PStr path)]
            \<and> key \<in> {''escalation.finding'', ''escalation.artifact''})"
  by (rule no_interviewer_no_choice) simp

end
