(* ===== verification/Folder_Handler.thy ===== *)
theory Folder_Handler
  imports Parallel Dot_Parser
begin

text \<open>
  The handler of folder nodes, \<open>handlers/pipeline.py\<close>: the precedence chain that resolves \<open>dot_file=\<close>,
  the diagnostic of a child graph that is not there, and the run of the child pipeline on an engine
  of its own, with a clone of the context and a run directory per invocation.

  What the handler needs beyond the engine's environment is the record \<open>subenv\<close>: the file system
  (\<open>su_open\<close> gives \<^const>\<open>None\<close> for a \<open>FileNotFoundError\<close>), the clock, the sleep, the event hooks, and
  the environment of a child engine for a graph and a run directory, which stands for the registry
  built from the parent's backend. Characters outside Latin-1 in messages are written with a
  hyphen.
\<close>

record 'w subenv =
  su_cwd :: string
  su_exists :: "string \<Rightarrow> 'w \<Rightarrow> bool"
  su_isfile :: "string \<Rightarrow> 'w \<Rightarrow> bool"
  su_open :: "string \<Rightarrow> 'w \<Rightarrow> exc + string option"
  su_monotonic :: "'w \<Rightarrow> rat \<times> 'w"
  su_sleep :: "rat \<Rightarrow> 'w \<Rightarrow> 'w"
  su_emit :: "(string \<Rightarrow> pyval \<Rightarrow> 'w \<Rightarrow> 'w) option"
  su_child :: "graph \<Rightarrow> string \<Rightarrow> 'w eenv"

section \<open>Path resolution\<close>

text \<open>\<open>re.sub(r"\$(\w+)", ...)\<close> with the value of the context key, the token where there is none.\<close>

definition path_variable :: "ctx \<Rightarrow> string \<Rightarrow> string" where
  "path_variable c key =
     (if ctx_get c key = PNone then dollar # key else py_str (ctx_get c key))"

function expand_path_variables :: "ctx \<Rightarrow> string \<Rightarrow> string" where
  "expand_path_variables c [] = []"
| "expand_path_variables c (ch # cs) =
     (if ch = dollar \<and> cs \<noteq> [] \<and> re_word (hd cs)
      then path_variable c (takeWhile re_word cs) @ expand_path_variables c (dropWhile re_word cs)
      else ch # expand_path_variables c cs)"
  by pat_completeness auto
termination
  by (relation "measure (\<lambda>(c, s). length s)") (auto simp: le_imp_less_Suc length_dropWhile_le)

record dot_path_candidate =
  dc_tier :: string
  dc_path :: "string option"
  dc_chosen :: bool
  dc_unavailable :: string

definition abs_reason :: string where
  "abs_reason = ''dot_file= is absolute; the precedence chain stops at tier 1''"

text \<open>The four tiers with the path each would give, and why it gives none.\<close>

definition raw_candidates :: "string \<Rightarrow> string \<Rightarrow> string \<Rightarrow> ctx \<Rightarrow> (string \<times> string option \<times> string) list" where
  "raw_candidates cwd dot_file source_dir c =
     (let expanded = expand_path_variables c dot_file;
          is_abs = startswith ''/'' expanded;
          target_dir = ctx_get c ''context.target_dir''
      in [(''absolute path'', if is_abs then Some expanded else None,
           ''dot_file= is relative after $variable expansion''),
          (''graph.source_dir'',
           if source_dir \<noteq> [] \<and> \<not> is_abs then Some (os_path_join source_dir expanded) else None,
           if is_abs then abs_reason
           else ''graph.source_dir is empty (an inline DOT source has no backing file)''),
          (''context.target_dir'',
           if py_true target_dir \<and> \<not> is_abs then Some (os_path_join (py_str target_dir) expanded) else None,
           if is_abs then abs_reason
           else ''context.target_dir is unset (no --cwd; the mounted orchestrator skips this tier)''),
          (''os.getcwd()'', if is_abs then None else Some (os_path_join cwd expanded), abs_reason)])"

definition chosen_index :: "(string \<times> string option \<times> string) list \<Rightarrow> nat option" where
  "chosen_index raw = find (\<lambda>i. str_true (fst (snd (raw ! i)))) [0..<length raw]"

definition resolve_dot_path_candidates :: "string \<Rightarrow> string \<Rightarrow> string \<Rightarrow> ctx \<Rightarrow> dot_path_candidate list" where
  "resolve_dot_path_candidates cwd dot_file source_dir c =
     (let raw = raw_candidates cwd dot_file source_dir c in
      map (\<lambda>i. case raw ! i of (tier, path, reason) \<Rightarrow>
             \<lparr>dc_tier = tier, dc_path = path, dc_chosen = (chosen_index raw = Some i),
              dc_unavailable = (if str_true path then [] else reason)\<rparr>)
        [0..<length raw])"

definition resolve_dot_path :: "string \<Rightarrow> string \<Rightarrow> string \<Rightarrow> ctx \<Rightarrow> string" where
  "resolve_dot_path cwd dot_file source_dir c =
     (case find (\<lambda>d. dc_chosen d \<and> str_true (dc_path d)) (resolve_dot_path_candidates cwd dot_file source_dir c) of
        Some d \<Rightarrow> the (dc_path d)
      | None \<Rightarrow> expand_path_variables c dot_file)"

section \<open>The resolution diagnostic\<close>

definition candidate_exists :: "(string \<Rightarrow> bool) \<Rightarrow> dot_path_candidate \<Rightarrow> bool" where
  "candidate_exists present d = (str_true (dc_path d) \<and> present (the (dc_path d)))"

definition candidate_line :: "(string \<Rightarrow> bool) \<Rightarrow> nat \<Rightarrow> dot_path_candidate \<Rightarrow> string" where
  "candidate_line present k d =
     ''  '' @ nat_str k @ ''. '' @ dc_tier d @ '': ''
     @ (case dc_path d of
          None \<Rightarrow> ''n/a - '' @ dc_unavailable d
        | Some p \<Rightarrow> p @ ''  ['' @ (if dc_chosen d then ''CHOSEN'' else ''not consulted'') @ '', ''
            @ (if candidate_exists present d then ''EXISTS'' else ''missing'') @ '']'')"

definition resolution_message ::
    "(string \<Rightarrow> bool) \<Rightarrow> string \<Rightarrow> string \<Rightarrow> string \<Rightarrow> string \<Rightarrow> dot_path_candidate list \<Rightarrow> string" where
  "resolution_message present node_id dot_file expanded resolved_path candidates =
     (let expansion_note = (if expanded = dot_file then []
            else '' (expanded to '' @ [CHR 0x22] @ expanded @ [CHR 0x22] @ '')'');
          elsewhere = filter (\<lambda>d. candidate_exists present d \<and> \<not> dc_chosen d) candidates
      in py_join [CHR 0x0A]
           ([''Child DOT file not found for node '' @ quoted node_id @ '': dot_file='' @ [CHR 0x22] @ dot_file
               @ [CHR 0x22] @ expansion_note @ '' resolved to '' @ repr_str resolved_path @ '', which does not exist.'',
             ''This is a child-graph RESOLUTION failure, not an edge-routing failure.'',
             ''Candidate paths tried (specs/EXTENSIONS.md '' @ [CHR 0xA7]
               @ ''10 precedence chain - the first applicable tier wins):'']
            @ map (\<lambda>(k, d). candidate_line present k d) (zip [1..<length candidates + 1] candidates)
            @ (if elsewhere \<noteq> []
               then [''NOTE: the child DOT DOES exist under a lower-precedence tier (''
                       @ py_join ''; '' (map (\<lambda>d. dc_tier d @ '' -> '' @ the (dc_path d)) elsewhere)
                       @ '') - dot_file= resolved against the wrong base directory.'']
               else [])
            @ [''Fix: create the child DOT at the CHOSEN path, correct the dot_file= value, or have an upstream node write it before this node runs (write-then-run composition - resolution is intentionally lazy, so a runtime-generated child is supported).'']))"

section \<open>The child pipeline\<close>

text \<open>\<open>os.path.dirname\<close>.\<close>

definition dirname :: "string \<Rightarrow> string" where
  "dirname p =
     (let head = rev (dropWhile (\<lambda>ch. ch \<noteq> CHR ''/'') (rev p)) in
      if list_all (\<lambda>ch. ch = CHR ''/'') head then head
      else rev (dropWhile (\<lambda>ch. ch = CHR ''/'') (rev head)))"

text \<open>The clone of the parent's context, without an inherited verdict and with the \<open>context.*\<close> attributes of
  the node.\<close>

definition child_context :: "node \<Rightarrow> ctx \<Rightarrow> ctx" where
  "child_context n c =
     foldl (\<lambda>acc (k, v). ctx_set (drop (length context_prefix) k) (PStr (py_str v)) acc)
       (ctx_set ''preferred_label'' PNone (ctx_clone c))
       (filter (\<lambda>(k, v). startswith context_prefix k) (n_raw n))"

record folder_state =
  fo_counts :: "int dict"
  fo_runs :: "pyval dict"

definition folder_logs :: "string \<Rightarrow> string \<Rightarrow> int \<Rightarrow> string" where
  "folder_logs logs_root node_id visit =
     os_path_join logs_root
       (''subgraph_'' @ node_id @ (if visit = 0 then [] else ''__iter'' @ int_str visit))"

definition invocation :: "string \<Rightarrow> folder_state \<Rightarrow> int" where
  "invocation node_id R = (case dict_get (fo_counts R) node_id of None \<Rightarrow> 0 | Some i \<Rightarrow> i)"

definition count_invocation :: "string \<Rightarrow> folder_state \<Rightarrow> folder_state" where
  "count_invocation node_id R = R\<lparr>fo_counts := dict_set node_id (invocation node_id R + 1) (fo_counts R)\<rparr>"

text \<open>The child engine starts with the parent's world and event stream, and these are all the parent
  sees of it.\<close>

definition start_child :: "ctx \<Rightarrow> 'w engine \<Rightarrow> 'w engine" where
  "start_child c S = engine_init c (s_world S) (s_events S)"

definition adopt :: "'w engine \<Rightarrow> 'w engine \<Rightarrow> 'w engine" where
  "adopt B S = S\<lparr>s_run := (s_run S)\<lparr>r_world := s_world B, r_events := s_events B\<rparr>\<rparr>"

definition opt_text :: "string option \<Rightarrow> pyval" where
  "opt_text x = (case x of None \<Rightarrow> PNone | Some s \<Rightarrow> PStr s)"

definition outcomes_summary :: "outcome dict \<Rightarrow> pyval" where
  "outcomes_summary outs =
     PDict (map (\<lambda>(i, out). (i, PDict [(''status'', PStr (status_value (o_status out))),
        (''notes'', opt_text (o_notes out)), (''failure_reason'', opt_text (o_failure_reason out))])) outs)"

definition str_list :: "string list \<Rightarrow> pyval" where
  "str_list xs = PList (map PStr xs)"

definition folder_run_entry ::
    "pyval \<Rightarrow> string \<Rightarrow> graph \<Rightarrow> pyval \<Rightarrow> outcome \<Rightarrow> 'w engine \<Rightarrow> rat \<Rightarrow> int \<Rightarrow> pyval" where
  "folder_run_entry dot_file dot_source child_graph child_goal out B elapsed_ms visit =
     PDict [(''dot_file'', dot_file), (''dot_source'', PStr dot_source), (''pipeline_id'', PStr (g_name child_graph)),
       (''goal'', if py_true child_goal then child_goal else PStr []), (''status'', PStr (status_value (o_status out))),
       (''execution_path'', str_list (s_completed B)), (''node_outcomes'', outcomes_summary (s_outcomes B)),
       (''total_elapsed_ms'', PFloat elapsed_ms), (''nodes_completed'', PInt (int (length (s_completed B)))),
       (''nodes_total'', PInt (int (length (g_nodes child_graph)))), (''cycle_index'', PInt visit)]"

text \<open>The declared outputs of a successful child, as texts, in the parent's context.\<close>

definition output_keys :: "string \<Rightarrow> string list" where
  "output_keys outputs_str = filter (\<lambda>k. k \<noteq> []) (map py_strip (py_split '','' outputs_str))"

definition merge_output :: "pyval dict \<Rightarrow> string \<Rightarrow> ctx \<Rightarrow> ctx" where
  "merge_output child_snapshot key c =
     (let v = raw_get child_snapshot key PNone in if v \<noteq> PNone then ctx_set key (PStr (py_str v)) c else c)"

definition merge_outputs :: "node \<Rightarrow> outcome \<Rightarrow> ctx \<Rightarrow> ctx \<Rightarrow> exc + ctx" where
  "merge_outputs n out child c =
     (if is_success out
      then (case node_attr_get_d n ''outputs'' (PStr []) of
              PStr outputs_str \<Rightarrow> Inr (fold (merge_output (ctx_snapshot child)) (output_keys outputs_str) c)
            | v \<Rightarrow> Inl (PyError ''AttributeError'' False (quoted (py_type_name v) @ '' object has no attribute '' @ quoted ''split'')))
      else Inr c)"

definition sub_event :: "'w subenv \<Rightarrow> string \<Rightarrow> pyval dict \<Rightarrow> 'w engine \<Rightarrow> 'w engine" where
  "sub_event E name payload S =
     (case su_emit E of None \<Rightarrow> S | Some f \<Rightarrow> on_world (f name (PDict payload)) S)"

definition child_failed :: "string \<Rightarrow> outcome" where
  "child_failed reason = (mk_outcome FAIL)\<lparr>o_failure_reason := Some reason\<rparr>"

section \<open>The handler\<close>

definition goal_arg :: "pyval \<Rightarrow> string option" where
  "goal_arg v = (if v = PNone then None else Some (py_str v))"

definition child_goal :: "graph \<Rightarrow> ctx \<Rightarrow> pyval" where
  "child_goal child_graph c = (if g_goal child_graph \<noteq> [] then PStr (g_goal child_graph) else ctx_get c ''graph.goal'')"

text \<open>Steps 6 to 12, for the child graph of the source.\<close>

definition folder_run ::
    "'w subenv \<Rightarrow> 'w eenv \<Rightarrow> node \<Rightarrow> string \<Rightarrow> string \<Rightarrow> graph \<Rightarrow> folder_state \<Rightarrow> ctx \<Rightarrow> 'w engine
     \<Rightarrow> (exc + outcome) \<times> folder_state \<times> ctx \<times> 'w engine" where
  "folder_run E X n dot_file dot_source child_graph R c S =
     (let visit = invocation (n_id n) R;
          R1 = count_invocation (n_id n) R;
          child_logs = folder_logs (x_logs_root X) (n_id n) visit;
          goal = child_goal child_graph c;
          S1 = sub_event E ''pipeline:subgraph_start''
                 [(''node_id'', PStr (n_id n)), (''dot_file'', PStr dot_file), (''pipeline_id'', PStr (g_name child_graph)),
                  (''goal'', if py_true goal then goal else PStr [])]
                 (on_world (x_makedirs X child_logs) S);
          (t0, S2) = read_world (su_monotonic E) S1;
          (res, B) = run (su_child E child_graph child_logs) child_graph (goal_arg goal)
                       (start_child (child_context n c) S2)
      in case res of
           Inl e \<Rightarrow>
             (if is_cancellation e then (Inl e, R1, c, adopt B S2)
              else (Inr (child_failed (''Child pipeline exception: '' @ exc_str e)), R1, c, adopt B S2))
         | Inr out \<Rightarrow>
             (let (t1, S3) = read_world (su_monotonic E) (adopt B S2);
                  elapsed_ms = (t1 - t0) * 1000;
                  R2 = R1\<lparr>fo_runs := dict_set (n_id n)
                         (folder_run_entry (PStr dot_file) dot_source child_graph goal out B elapsed_ms visit) (fo_runs R1)\<rparr>
              in case merge_outputs n out (s_ctx B) c of
                   Inl e \<Rightarrow> (Inl e, R2, c, S3)
                 | Inr c' \<Rightarrow>
                     (Inr out, R2, c',
                      sub_event E ''pipeline:subgraph_complete''
                        [(''node_id'', PStr (n_id n)), (''pipeline_id'', PStr (g_name child_graph)),
                         (''status'', PStr (status_value (o_status out))), (''duration_ms'', PFloat elapsed_ms),
                         (''nodes_completed'', PInt (int (length (s_completed B)))),
                         (''nodes_total'', PInt (int (length (g_nodes child_graph))))] S3)))"

definition resolution_error :: "'w subenv \<Rightarrow> graph \<Rightarrow> node \<Rightarrow> string \<Rightarrow> ctx \<Rightarrow> 'w engine \<Rightarrow> exc" where
  "resolution_error E g n dot_file c S =
     ChildDotResolutionError
       (resolution_message (\<lambda>p. su_exists E p (s_world S)) (n_id n) dot_file (expand_path_variables c dot_file)
          (resolve_dot_path (su_cwd E) dot_file (g_source_dir g) c)
          (resolve_dot_path_candidates (su_cwd E) dot_file (g_source_dir g) c))"

text \<open>\<open>except ValueError\<close>.\<close>

definition is_value_error :: "exc \<Rightarrow> bool" where
  "is_value_error e = (case e of PyError t tr m \<Rightarrow> t = ''ValueError'' | _ \<Rightarrow> False)"

definition folder_execute ::
    "'w subenv \<Rightarrow> 'w eenv \<Rightarrow> graph \<Rightarrow> node \<Rightarrow> folder_state \<Rightarrow> ctx \<Rightarrow> 'w engine
     \<Rightarrow> (exc + outcome) \<times> folder_state \<times> ctx \<times> 'w engine" where
  "folder_execute E X g n R c S =
     (let v = node_attr_get n ''dot_file'' in
      if \<not> py_true v then (Inr (child_failed ''Missing dot_file attribute on pipeline node''), R, c, S)
      else
        (case v of
           PStr dot_file \<Rightarrow>
             (let resolved_path = resolve_dot_path (su_cwd E) dot_file (g_source_dir g) c in
              if \<not> su_isfile E resolved_path (s_world S) then (Inl (resolution_error E g n dot_file c S), R, c, S)
              else
                (case su_open E resolved_path (s_world S) of
                   Inl e \<Rightarrow> (Inl e, R, c, S)
                 | Inr None \<Rightarrow> (Inl (resolution_error E g n dot_file c S), R, c, S)
                 | Inr (Some dot_source) \<Rightarrow>
                     (case parse_dot dot_source (params_of (ctx_get c ''graph.params_values'')) of
                        Inl e \<Rightarrow>
                          (if is_value_error e
                           then (Inr (child_failed (''Failed to parse child DOT: '' @ exc_str e)), R, c, S)
                           else (Inl e, R, c, S))
                      | Inr parsed \<Rightarrow>
                          folder_run E X n dot_file dot_source (parsed\<lparr>g_source_dir := dirname resolved_path\<rparr>) R c S)))
         | _ \<Rightarrow> (Inl (type_error (''expected string or bytes-like object, got '' @ quoted (py_type_name v))), R, c, S)))"

end
