(* ===== verification/Manager_Loop.thy ===== *)
theory Manager_Loop
  imports Folder_Handler
begin

text \<open>
  The supervisor node, \<open>handlers/manager_loop.py\<close>: it runs a child, a subgraph of the same graph or the
  pipeline of another DOT file, again and again, until the stop condition holds, the child succeeds,
  or the cycles are used up, and tells the next cycle how the last one went.

  The handler is given the engine it runs on, as the engine does; the answer to a missing engine is
  left out.
\<close>

section \<open>Durations and steering\<close>

text \<open>\<open>^\s*(\d+(\.\d+)?)\s*(ms|s|m)?\s*$\<close>, ignoring case: seconds, and 0 for any other text.\<close>

definition duration_unit :: "string \<Rightarrow> rat option" where
  "duration_unit u =
     (if u = ''ms'' then Some (1 / 1000) else if u = ''s'' \<or> u = [] then Some 1
      else if u = ''m'' then Some 60 else None)"

definition parse_duration :: "string \<Rightarrow> rat" where
  "parse_duration raw =
     (let t = py_lstrip raw; whole = takeWhile is_digit t; r1 = dropWhile is_digit t;
          has_frac = (startswith ''.'' r1 \<and> tl r1 \<noteq> [] \<and> is_digit (hd (tl r1)));
          frac = (if has_frac then takeWhile is_digit (tl r1) else []);
          r2 = (if has_frac then dropWhile is_digit (tl r1) else r1);
          value = of_nat (digits_val 0 (whole @ frac)) / 10 ^ length frac
      in if whole = [] then 0
         else (case duration_unit (py_lower (py_strip r2)) of None \<Rightarrow> 0 | Some k \<Rightarrow> value * k))"

definition build_steering_message :: "int \<Rightarrow> int \<Rightarrow> outcome \<Rightarrow> string" where
  "build_steering_message prev_cycle max_cycles out =
     py_join [CHR 0x0A]
       ([''[Manager Steering - Cycle '' @ int_str prev_cycle @ '' of '' @ int_str max_cycles @ '']'',
         ''Status: '' @ status_value (o_status out)]
        @ (if str_true (o_failure_reason out) then [''Failure reason: '' @ the (o_failure_reason out)] else [])
        @ (if str_true (o_notes out) then [''Notes: '' @ the (o_notes out)] else [])
        @ [''Cycles remaining: '' @ int_str (max_cycles - prev_cycle),
           ''Adjust your approach based on the failure details above.''])"

section \<open>Configuration\<close>

record manager =
  m_max_cycles :: int
  m_poll_interval_s :: rat
  m_stop_condition :: string
  m_actions :: "string list"
  m_child_dotfile :: pyval
  m_child_start :: string

definition child_dotfile :: "graph \<Rightarrow> node \<Rightarrow> pyval" where
  "child_dotfile g n =
     (if py_true (node_attr_get n ''stack.child_dotfile'') then node_attr_get n ''stack.child_dotfile''
      else if py_true (graph_attr_get g ''stack.child_dotfile'') then graph_attr_get g ''stack.child_dotfile''
      else PStr [])"

definition manager_config :: "graph \<Rightarrow> node \<Rightarrow> exc + manager" where
  "manager_config g n =
     (let v = node_attr_get_d n ''manager.max_cycles'' (PInt 1000) in
      case py_int v of
        None \<Rightarrow>
          Inl (case v of
                 PStr s \<Rightarrow> value_error (''invalid literal for int() with base 10: '' @ repr_str s)
               | _ \<Rightarrow> type_error (''int() argument must be a string, a bytes-like object or a real number, not ''
                        @ quoted (py_type_name v)))
      | Some max_cycles \<Rightarrow>
          Inr \<lparr>m_max_cycles = max_cycles,
               m_poll_interval_s = parse_duration (py_str (node_attr_get_d n ''manager.poll_interval'' (PStr ''0s''))),
               m_stop_condition = py_str (node_attr_get_d n ''manager.stop_condition'' (PStr [])),
               m_actions = map py_strip (py_split '','' (py_str (node_attr_get_d n ''manager.actions'' (PStr ''observe,wait'')))),
               m_child_dotfile = child_dotfile g n,
               m_child_start = (case outgoing_edges g (n_id n) of [] \<Rightarrow> [] | e # es \<Rightarrow> to_node e)\<rparr>)"

section \<open>One cycle\<close>

definition cycle_context :: "manager \<Rightarrow> node \<Rightarrow> int \<Rightarrow> outcome option \<Rightarrow> ctx \<Rightarrow> ctx" where
  "cycle_context m n cycle last_outcome c =
     (let child = child_context n c in
      case last_outcome of
        None \<Rightarrow> child
      | Some out \<Rightarrow>
          (if ''steer'' \<in> set (m_actions m)
           then ctx_set ''manager.steering'' (PStr (build_steering_message (cycle - 1) (m_max_cycles m) out)) child
           else child))"

definition cycle_logs :: "string \<Rightarrow> string \<Rightarrow> int \<Rightarrow> string" where
  "cycle_logs logs_root node_id cycle =
     os_path_join logs_root (''subgraph_'' @ node_id @ ''_cycle_'' @ int_str cycle)"

definition cycle_entry :: "string \<Rightarrow> graph \<Rightarrow> outcome \<Rightarrow> 'w engine \<Rightarrow> rat \<Rightarrow> int \<Rightarrow> pyval" where
  "cycle_entry resolved_path child_graph out B elapsed_ms cycle =
     PDict [(''dot_file'', PStr resolved_path), (''pipeline_id'', PStr (g_name child_graph)),
       (''goal'', PStr (g_goal child_graph)), (''status'', PStr (status_value (o_status out))),
       (''execution_path'', str_list (s_completed B)), (''node_outcomes'', outcomes_summary (s_outcomes B)),
       (''cycle_index'', PInt (cycle - 1)), (''total_elapsed_ms'', PFloat elapsed_ms),
       (''nodes_completed'', PInt (int (length (s_completed B)))),
       (''nodes_total'', PInt (int (length (g_nodes child_graph))))]"

text \<open>\<open>_run_child_dotfile\<close>; the dictionary is \<open>_subgraph_runs\<close>.\<close>

definition run_child_dotfile ::
    "'w subenv \<Rightarrow> 'w eenv \<Rightarrow> graph \<Rightarrow> node \<Rightarrow> string \<Rightarrow> int \<Rightarrow> ctx \<Rightarrow> pyval dict \<Rightarrow> 'w engine
     \<Rightarrow> (exc + outcome) \<times> pyval dict \<times> 'w engine" where
  "run_child_dotfile E X g n dotfile cycle child_c R S =
     (let resolved_path = resolve_dot_path (su_cwd E) dotfile (g_source_dir g) child_c in
      case su_open E resolved_path (s_world S) of
        Inl e \<Rightarrow> (Inl e, R, S)
      | Inr None \<Rightarrow> (Inr (child_failed (''Child DOT file not found: '' @ resolved_path)), R, S)
      | Inr (Some dot_source) \<Rightarrow>
          (case parse_dot dot_source (params_of (ctx_get child_c ''graph.params_values'')) of
             Inl e \<Rightarrow>
               (if is_value_error e
                then (Inr (child_failed (''Failed to parse child DOT: '' @ exc_str e)), R, S) else (Inl e, R, S))
           | Inr parsed \<Rightarrow>
               (let child_graph = parsed\<lparr>g_source_dir := dirname resolved_path\<rparr>;
                    child_logs = cycle_logs (x_logs_root X) (n_id n) cycle;
                    (t0, S1) = read_world (su_monotonic E) (on_world (x_makedirs X child_logs) S);
                    (res, B) = run (su_child E child_graph child_logs) child_graph None (start_child child_c S1)
                in case res of
                     Inl e \<Rightarrow>
                       (if is_cancellation e then (Inl e, R, adopt B S1)
                        else (Inr (child_failed (''Child pipeline exception: '' @ exc_str e)), R, adopt B S1))
                   | Inr out \<Rightarrow>
                       (let (t1, S2) = read_world (su_monotonic E) (adopt B S1)
                        in (Inr out,
                            dict_set (n_id n @ ''_cycle_'' @ int_str cycle)
                              (cycle_entry resolved_path child_graph out B ((t1 - t0) * 1000) cycle) R, S2)))))"

text \<open>The child of a cycle, and \<open>except Exception\<close> around it.\<close>

definition run_child ::
    "'w subenv \<Rightarrow> 'w eenv \<Rightarrow> graph \<Rightarrow> node \<Rightarrow> manager \<Rightarrow> int \<Rightarrow> ctx \<Rightarrow> pyval dict \<Rightarrow> 'w engine
     \<Rightarrow> (exc + outcome) \<times> pyval dict \<times> 'w engine" where
  "run_child E X g n m cycle child_c R S =
     (if py_true (m_child_dotfile m)
      then (case m_child_dotfile m of
              PStr dotfile \<Rightarrow> run_child_dotfile E X g n dotfile cycle child_c R S
            | v \<Rightarrow> (Inl (type_error (''expected string or bytes-like object, got '' @ quoted (py_type_name v))), R, S))
      else (let (res, c', S') = run_subgraph X g (m_child_start m) child_c True S in (res, R, S')))"

definition child_outcome ::
    "'w subenv \<Rightarrow> 'w eenv \<Rightarrow> graph \<Rightarrow> node \<Rightarrow> manager \<Rightarrow> int \<Rightarrow> ctx \<Rightarrow> pyval dict \<Rightarrow> 'w engine
     \<Rightarrow> (exc + outcome) \<times> pyval dict \<times> 'w engine" where
  "child_outcome E X g n m cycle child_c R S =
     (case run_child E X g n m cycle child_c R S of
        (Inl e, R', S') \<Rightarrow> (if is_cancellation e then Inl e else Inr (child_failed (exc_str e)), R', S')
      | (Inr out, R', S') \<Rightarrow> (Inr out, R', S'))"

definition record_cycle :: "int \<Rightarrow> outcome \<Rightarrow> ctx \<Rightarrow> ctx" where
  "record_cycle cycle out c =
     (let status = PStr (status_value (o_status out)) in
      ctx_set ''manager.cycles_completed'' (PInt cycle)
        (ctx_set ''manager.last_child_status'' status
          (ctx_set (''manager.cycle_'' @ int_str cycle @ ''.status'') status c)))"

definition manager_stops :: "manager \<Rightarrow> outcome \<Rightarrow> ctx \<Rightarrow> bool" where
  "manager_stops m out c =
     (if m_stop_condition m \<noteq> [] then evaluate_condition (m_stop_condition m) out c else is_success out)"

definition manager_updates :: "node \<Rightarrow> int \<Rightarrow> pyval dict" where
  "manager_updates n cycles = [(''last_stage'', PStr (n_id n)), (''manager.cycles'', PInt cycles)]"

definition completed_outcome :: "manager \<Rightarrow> node \<Rightarrow> int \<Rightarrow> outcome \<Rightarrow> outcome" where
  "completed_outcome m n cycle out =
     (mk_outcome (o_status out))
       \<lparr>o_is_explicit := o_is_explicit out, o_failure_reason := o_failure_reason out,
        o_notes := Some (''Manager completed in '' @ int_str cycle @ '' cycle(s)''
          @ (if m_stop_condition m \<noteq> [] then '' - stop condition satisfied'' else [])),
        o_context_updates := Some (manager_updates n cycle)\<rparr>"

definition exhausted_manager :: "manager \<Rightarrow> node \<Rightarrow> outcome option \<Rightarrow> outcome" where
  "exhausted_manager m n last_outcome =
     (let reason = (case last_outcome of None \<Rightarrow> None | Some out \<Rightarrow> o_failure_reason out);
          text = ''Manager exhausted '' @ int_str (m_max_cycles m) @ '' cycle(s)''
      in (mk_outcome FAIL)
           \<lparr>o_failure_reason := Some (if str_true reason then text @ '': '' @ the reason else text),
            o_notes := Some (''Last child status: ''
              @ (case last_outcome of None \<Rightarrow> ''none'' | Some out \<Rightarrow> status_value (o_status out))),
            o_context_updates := Some (manager_updates n (m_max_cycles m))\<rparr>)"

definition pause_cycle :: "'w subenv \<Rightarrow> manager \<Rightarrow> int \<Rightarrow> 'w engine \<Rightarrow> 'w engine" where
  "pause_cycle E m cycle S =
     (if ''wait'' \<in> set (m_actions m) \<and> cycle < m_max_cycles m \<and> m_poll_interval_s m > 0
      then on_world (su_sleep E (m_poll_interval_s m)) S else S)"

section \<open>The loop\<close>

text \<open>Over the cycles still to come.\<close>

fun manager_loop ::
    "'w subenv \<Rightarrow> 'w eenv \<Rightarrow> graph \<Rightarrow> node \<Rightarrow> manager \<Rightarrow> int list \<Rightarrow> outcome option \<Rightarrow> ctx \<Rightarrow> pyval dict \<Rightarrow> 'w engine
     \<Rightarrow> (exc + outcome) \<times> ctx \<times> pyval dict \<times> 'w engine" where
  "manager_loop E X g n m [] last_outcome c R S = (Inr (exhausted_manager m n last_outcome), c, R, S)"
| "manager_loop E X g n m (cycle # rest) last_outcome c R S =
     (case child_outcome E X g n m cycle (cycle_context m n cycle last_outcome c) R S of
        (Inl e, R1, S1) \<Rightarrow> (Inl e, c, R1, S1)
      | (Inr out, R1, S1) \<Rightarrow>
          (let c1 = record_cycle cycle out c in
           if manager_stops m out c1 then (Inr (completed_outcome m n cycle out), c1, R1, S1)
           else manager_loop E X g n m rest (Some out) c1 R1 (pause_cycle E m cycle S1)))"

definition manager_execute ::
    "'w subenv \<Rightarrow> 'w eenv \<Rightarrow> graph \<Rightarrow> node \<Rightarrow> ctx \<Rightarrow> pyval dict \<Rightarrow> 'w engine
     \<Rightarrow> (exc + outcome) \<times> ctx \<times> pyval dict \<times> 'w engine" where
  "manager_execute E X g n c R S =
     (case manager_config g n of
        Inl e \<Rightarrow> (Inl e, c, R, S)
      | Inr m \<Rightarrow>
          (if \<not> py_true (m_child_dotfile m) \<and> outgoing_edges g (n_id n) = []
           then (Inr (child_failed ''Manager loop has no child to supervise''), c, R, S)
           else manager_loop E X g n m [1..m_max_cycles m] None c R S))"

end
