(* ===== verification/Subgraph_Properties.thy ===== *)
theory Subgraph_Properties
  imports Samples Manager_Loop
begin

text \<open>
  Properties of the handlers that run other pipelines: the folder node with its path resolution and
  the child engine, and the manager loop over it.
\<close>

section \<open>Path resolution\<close>

lemma find_single:
  "find P xs = Some x \<Longrightarrow> \<exists>k < length xs. xs ! k = x \<and> P x \<and> (\<forall>j < k. \<not> P (xs ! j))"
  by (auto simp: find_Some_iff)

lemma chosen_index_is:
  "chosen_index raw = Some i \<longleftrightarrow>
   i < length raw \<and> str_true (fst (snd (raw ! i))) \<and> (\<forall>j < i. \<not> str_true (fst (snd (raw ! j))))"
proof
  assume "chosen_index raw = Some i"
  then show "i < length raw \<and> str_true (fst (snd (raw ! i))) \<and> (\<forall>j < i. \<not> str_true (fst (snd (raw ! j))))"
    unfolding chosen_index_def find_Some_iff by auto
next
  assume "i < length raw \<and> str_true (fst (snd (raw ! i))) \<and> (\<forall>j < i. \<not> str_true (fst (snd (raw ! j))))"
  then show "chosen_index raw = Some i"
    unfolding chosen_index_def find_Some_iff by (intro exI [of _ i]) auto
qed

lemma raw_candidates_length [simp]: "length (raw_candidates cwd f d c) = 4"
  by (simp add: raw_candidates_def Let_def)

lemma candidate_nth:
  "i < 4 \<Longrightarrow> resolve_dot_path_candidates cwd f d c ! i =
     (let r = raw_candidates cwd f d c ! i in
      \<lparr>dc_tier = fst r, dc_path = fst (snd r), dc_chosen = (chosen_index (raw_candidates cwd f d c) = Some i),
       dc_unavailable = (if str_true (fst (snd r)) then [] else snd (snd r))\<rparr>)"
  by (simp add: resolve_dot_path_candidates_def Let_def case_prod_beta)

lemma candidates_length [simp]: "length (resolve_dot_path_candidates cwd f d c) = 4"
  by (simp add: resolve_dot_path_candidates_def Let_def)

lemma os_path_join_nonempty: "b \<noteq> [] \<Longrightarrow> os_path_join a b \<noteq> []"
  by (simp add: os_path_join_def Let_def)

text \<open>An expanded path always gives an applicable tier.\<close>

lemma some_tier:
  "expand_path_variables c f \<noteq> [] \<Longrightarrow> \<exists>i. chosen_index (raw_candidates cwd f d c) = Some i"
proof -
  assume e: "expand_path_variables c f \<noteq> []"
  let ?raw = "raw_candidates cwd f d c"
  have "\<exists>i < 4. str_true (fst (snd (?raw ! i)))"
  proof (cases "startswith ''/'' (expand_path_variables c f)")
    case True
    then show ?thesis by (intro exI [of _ 0]) (simp add: raw_candidates_def Let_def e)
  next
    case False
    then show ?thesis
      by (intro exI [of _ 3]) (simp add: raw_candidates_def Let_def e os_path_join_nonempty eval_nat_numeral)
  qed
  then have "chosen_index ?raw \<noteq> None" unfolding chosen_index_def by (auto simp: find_None_iff)
  then show ?thesis by auto
qed

text \<open>The precedence chain picks one tier. When the expanded \<open>dot_file=\<close> is not empty, exactly one of the four
  candidates is chosen, it is the first that has a path, its path is what the handler opens, and an absolute
  path wins over every base directory.\<close>

theorem one_tier_chosen:
  assumes "expand_path_variables c dot_file \<noteq> []"
  shows "\<exists>i < 4. (\<forall>j < 4. dc_chosen (resolve_dot_path_candidates cwd dot_file source_dir c ! j) = (j = i))
    \<and> (\<forall>j < i. \<not> str_true (dc_path (resolve_dot_path_candidates cwd dot_file source_dir c ! j)))
    \<and> dc_path (resolve_dot_path_candidates cwd dot_file source_dir c ! i)
        = Some (resolve_dot_path cwd dot_file source_dir c)
    \<and> (startswith ''/'' (expand_path_variables c dot_file) \<longrightarrow>
        resolve_dot_path cwd dot_file source_dir c = expand_path_variables c dot_file)"
proof -
  let ?raw = "raw_candidates cwd dot_file source_dir c"
  let ?cs = "resolve_dot_path_candidates cwd dot_file source_dir c"
  obtain i where ci: "chosen_index ?raw = Some i" using some_tier [OF assms] by blast
  then have i: "i < 4" "str_true (fst (snd (?raw ! i)))" "\<forall>j < i. \<not> str_true (fst (snd (?raw ! j)))"
    by (simp_all add: chosen_index_is)
  have nth: "dc_chosen (?cs ! j) = (j = i)" "dc_path (?cs ! j) = fst (snd (?raw ! j))" if "j < 4" for j
    using that ci by (auto simp: candidate_nth Let_def)
  have "find (\<lambda>d. dc_chosen d \<and> str_true (dc_path d)) ?cs = Some (?cs ! i)"
    unfolding find_Some_iff using i nth by (intro exI [of _ i]) auto
  then have r: "dc_path (?cs ! i) = Some (resolve_dot_path cwd dot_file source_dir c)"
    using i nth(2) [OF i(1)] by (cases "fst (snd (?raw ! i))") (simp_all add: resolve_dot_path_def)
  have "i = 0 \<and> fst (snd (?raw ! 0)) = Some (expand_path_variables c dot_file)"
    if "startswith ''/'' (expand_path_variables c dot_file)"
  proof -
    have z: "fst (snd (?raw ! 0)) = Some (expand_path_variables c dot_file)"
      using that by (simp add: raw_candidates_def Let_def)
    then have "str_true (fst (snd (?raw ! 0)))" using assms by simp
    then show ?thesis using i(3) z by (cases i) auto
  qed
  then have "startswith ''/'' (expand_path_variables c dot_file) \<longrightarrow>
      resolve_dot_path cwd dot_file source_dir c = expand_path_variables c dot_file"
    using r nth(2) [OF i(1)] by auto
  then show ?thesis using i nth r by (intro exI [of _ i]) auto
qed

theorem one_tier_chosen_witness:
  "\<exists>i < 4. dc_path (resolve_dot_path_candidates ''/w'' ''sub.dot'' ''/src'' ctx_new ! i)
     = Some (resolve_dot_path ''/w'' ''sub.dot'' ''/src'' ctx_new)"
proof -
  have "expand_path_variables ctx_new ''sub.dot'' \<noteq> []" by code_simp
  from one_tier_chosen [OF this, of "''/w''" "''/src''"] show ?thesis by blast
qed

section \<open>The child engine\<close>

lemma on_world_isolated [simp]: "isolated S (on_world f S)"
  by (simp add: isolated_def same_core_def on_world_def)

lemma read_world_isolated: "read_world f S = (x, S') \<Longrightarrow> isolated S S'"
  by (auto simp: read_world_eq isolated_def same_core_def)

lemma adopt_isolated: "isolated S S' \<Longrightarrow> isolated S (adopt B S')"
  by (auto simp: isolated_def same_core_def adopt_def)

lemma sub_event_isolated: "isolated S (sub_event E name p S)"
  by (simp add: sub_event_def split: option.splits)

lemma fold_merge_frame:
  "k \<notin> set ks \<Longrightarrow> ctx_get (fold (merge_output snap) ks c) k = ctx_get c k"
  by (induction ks arbitrary: c) (auto simp: merge_output_def Let_def cx.look_put)

lemma merge_outputs_frame:
  assumes "merge_outputs n out child c = Inr c'"
  shows "(\<not> is_success out \<longrightarrow> c' = c)
    \<and> (\<forall>k. k \<notin> set (output_keys (py_str (node_attr_get_d n ''outputs'' (PStr [])))) \<longrightarrow> ctx_get c' k = ctx_get c k)"
  using assms by (auto simp: merge_outputs_def fold_merge_frame split: if_splits pyval.splits)

text \<open>What a run of a folder node gives: the ways the child ends and what they leave.\<close>

lemma folder_run_cases:
  assumes "folder_run E X n f src G R c S = (res, R', c', S')"
  shows "isolated S S'"
    "is_fail res \<or> (\<exists>out logs S2 B. res = Inr out
       \<and> run (su_child E G logs) G (goal_arg (child_goal G c)) (start_child (child_context n c) S2) = (Inr out, B)
       \<and> gates_passed G out B \<and> earned G out B)"
    "is_fail res \<longrightarrow> c' = c"
    "\<forall>k. k \<notin> set (output_keys (py_str (node_attr_get_d n ''outputs'' (PStr [])))) \<longrightarrow> ctx_get c' k = ctx_get c k"
proof -
  define logs where "logs = folder_logs (x_logs_root X) (n_id n) (invocation (n_id n) R)"
  define S1 where "S1 = sub_event E ''pipeline:subgraph_start''
      [(''node_id'', PStr (n_id n)), (''dot_file'', PStr f), (''pipeline_id'', PStr (g_name G)),
       (''goal'', if py_true (child_goal G c) then child_goal G c else PStr [])]
      (on_world (x_makedirs X logs) S)"
  obtain t0 S2 where t0: "read_world (su_monotonic E) S1 = (t0, S2)" by force
  obtain r B where run: "run (su_child E G logs) G (goal_arg (child_goal G c)) (start_child (child_context n c) S2) = (r, B)"
    by force
  obtain t1 S3 where t1: "read_world (su_monotonic E) (adopt B S2) = (t1, S3)" by force
  have i2: "isolated S S2"
    using isolated_trans [OF on_world_isolated isolated_trans [OF sub_event_isolated read_world_isolated [OF t0 [unfolded S1_def]]]] .
  then have ia: "isolated S (adopt B S2)" by (rule adopt_isolated)
  then have i3: "isolated S S3" using isolated_trans read_world_isolated [OF t1] by blast
  have i4: "isolated S (sub_event E name p S3)" for name p using isolated_trans [OF i3 sub_event_isolated] .
  note defs = assms [unfolded folder_run_def Let_def, folded logs_def, folded S1_def, unfolded t0 prod.case run]
  consider (exc) e where "r = Inl e" "is_fail res" "c' = c" "S' = adopt B S2"
    | (bad) e where "is_fail res" "c' = c" "S' = S3"
    | (ok) out name p where "r = Inr out" "res = Inr out" "merge_outputs n out (s_ctx B) c = Inr c'"
        "S' = sub_event E name p S3"
    using defs t1 by (auto simp: child_failed_def split: sum.splits if_splits)
  note ways = this
  show "isolated S S'"
    using ways ia i3 i4 by cases auto
  show "is_fail res \<or> (\<exists>out logs S2 B. res = Inr out
     \<and> run (su_child E G logs) G (goal_arg (child_goal G c)) (start_child (child_context n c) S2) = (Inr out, B)
     \<and> gates_passed G out B \<and> earned G out B)"
    using ways
  proof cases
    case ok
    have "pass_ok G (start_child (child_context n c) S2)" by (simp add: start_child_def pass_ok_new)
    from run_earned [OF run this] show ?thesis using ok(1,2) run by auto
  qed auto
  show "is_fail res \<longrightarrow> c' = c"
    using ways merge_outputs_frame by cases (auto simp: is_success_def)
  show "\<forall>k. k \<notin> set (output_keys (py_str (node_attr_get_d n ''outputs'' (PStr [])))) \<longrightarrow> ctx_get c' k = ctx_get c k"
    using ways merge_outputs_frame by cases auto
qed

lemma folder_execute_cases:
  assumes "folder_execute E X g n R c S = (res, R', c', S')"
  shows "(is_fail res \<and> R' = R \<and> c' = c \<and> S' = S)
    \<or> (\<exists>f src parsed. node_attr_get n ''dot_file'' = PStr f
         \<and> su_open E (resolve_dot_path (su_cwd E) f (g_source_dir g) c) (s_world S) = Inr (Some src)
         \<and> parse_dot src (params_of (ctx_get c ''graph.params_values'')) = Inr parsed
         \<and> folder_run E X n f src (parsed\<lparr>g_source_dir := dirname (resolve_dot_path (su_cwd E) f (g_source_dir g) c)\<rparr>) R c S
             = (res, R', c', S'))"
  using assms
  by (auto simp: folder_execute_def Let_def child_failed_def split: pyval.splits sum.splits option.splits if_splits)

text \<open>C13: A folder node shields its parent. Whatever the child pipeline does, the parent engine changes in the
  world and the events only, the parent's context only in the keys the node declares as \<open>outputs\<close>, and not at
  all when the node fails or raises.\<close>

theorem folder_isolates_parent:
  "case folder_execute E X g n R c S of
     (res, R', c', S') \<Rightarrow> isolated S S'
       \<and> (if is_fail res then c' = c
          else {k. ctx_get c' k \<noteq> ctx_get c k} \<subseteq> set (output_keys (py_str (node_attr_get_d n ''outputs'' (PStr [])))))"
proof -
  obtain res R' c' S' where x: "folder_execute E X g n R c S = (res, R', c', S')" by (rule prod_cases4)
  show ?thesis
    using folder_execute_cases [OF x] folder_run_cases(1,3,4) by (fastforce simp: x)
qed

text \<open>C12: A folder node reports what its child earned. An outcome other than FAIL is the final outcome of the child
  run of the resolved, readable and parsable file, and the child's trace ends in a pass (the nodes it completed since its
  last retry or restart) in which the last record of every goal gate of the child graph is an explicit success.
  Records before that pass exist only where the child graph can retry or restart, or after a failure.\<close>

theorem folder_success_gated:
  "case folder_execute E X g n R c S of
     (Inl e, R', c', S') \<Rightarrow> True
   | (Inr out, R', c', S') \<Rightarrow> o_status out = FAIL
       \<or> (\<exists>f src parsed logs S2 B.
            let path = resolve_dot_path (su_cwd E) f (g_source_dir g) c; G = parsed\<lparr>g_source_dir := dirname path\<rparr> in
            node_attr_get n ''dot_file'' = PStr f
            \<and> su_open E path (s_world S) = Inr (Some src)
            \<and> parse_dot src (params_of (ctx_get c ''graph.params_values'')) = Inr parsed
            \<and> run (su_child E G logs) G (goal_arg (child_goal G c)) (start_child (child_context n c) S2) = (Inr out, B)
            \<and> out = final_outcome B
            \<and> (\<exists>past pass. s_trace B = past @ pass \<and> map t_node_id pass = s_completed B
                 \<and> filter (\<lambda>i. is_goal_gate G i \<and> \<not> (case last_record pass i of None \<Rightarrow> False
                       | Some t \<Rightarrow> t_status t \<in> {SUCCESS, PARTIAL_SUCCESS} \<and> t_is_explicit t)) (s_completed B) = []
                 \<and> (past = [] \<or> may_clear G \<or> list_ex (\<lambda>t. t_status t = FAIL) past)))"
proof -
  obtain res R' c' S' where x: "folder_execute E X g n R c S = (res, R', c', S')" by (rule prod_cases4)
  show ?thesis
  proof (cases "is_fail res")
    case True
    then show ?thesis by (auto simp: x split: sum.splits)
  next
    case False
    then obtain f src parsed where k: "node_attr_get n ''dot_file'' = PStr f"
        "su_open E (resolve_dot_path (su_cwd E) f (g_source_dir g) c) (s_world S) = Inr (Some src)"
        "parse_dot src (params_of (ctx_get c ''graph.params_values'')) = Inr parsed"
      and r: "folder_run E X n f src (parsed\<lparr>g_source_dir := dirname (resolve_dot_path (su_cwd E) f (g_source_dir g) c)\<rparr>) R c S
          = (res, R', c', S')"
      using folder_execute_cases [OF x] by blast
    let ?G = "parsed\<lparr>g_source_dir := dirname (resolve_dot_path (su_cwd E) f (g_source_dir g) c)\<rparr>"
    obtain out logs S2 B where o: "res = Inr out"
        "run (su_child E ?G logs) ?G (goal_arg (child_goal ?G c)) (start_child (child_context n c) S2) = (Inr out, B)"
        "out = final_outcome B" "earned ?G out B"
      using folder_run_cases(2) [OF r] False by (auto simp: gates_passed_def)
    note e = o(4) [unfolded earned_def]
    show ?thesis
      unfolding x o(1) prod.case sum.case Let_def
      using k o(2,3) e
      by (intro disjI2 exI [of _ f] exI [of _ src] exI [of _ parsed] exI [of _ logs] exI [of _ S2] exI [of _ B] conjI)
        (assumption | blast)+
  qed
qed

section \<open>The manager loop\<close>

lemma run_child_dotfile_isolated:
  assumes "run_child_dotfile E X g n f cycle cc R S = (res, R', S')"
  shows "isolated S S'"
proof -
  let ?S0 = "on_world (x_makedirs X (cycle_logs (x_logs_root X) (n_id n) cycle)) S"
  obtain t0 S1 where t0: "read_world (su_monotonic E) ?S0 = (t0, S1)" by force
  have i1: "isolated S S1" using isolated_trans [OF on_world_isolated read_world_isolated [OF t0]] .
  then have ia: "isolated S (adopt B S1)" for B using isolated_trans adopt_isolated by blast
  then have "isolated S S2" if "read_world (su_monotonic E) (adopt B S1) = (t1, S2)" for B t1 S2
    using isolated_trans read_world_isolated [OF that] by blast
  then show ?thesis
    using assms ia
    by (auto simp: run_child_dotfile_def Let_def t0 split: sum.splits option.splits prod.splits if_splits)
qed

lemma child_outcome_isolated: "child_outcome E X g n m cycle cc R S = (res, R', S') \<Longrightarrow> isolated S S'"
proof -
  have "run_child E X g n m cycle cc R S = (r, R', S') \<Longrightarrow> isolated S S'" for r R' S'
    using run_child_dotfile_isolated run_subgraph_isolated
    by (auto simp: run_child_def split: if_splits pyval.splits prod.splits)
  then show "child_outcome E X g n m cycle cc R S = (res, R', S') \<Longrightarrow> isolated S S'"
    by (auto simp: child_outcome_def split: prod.splits sum.splits)
qed

lemma pause_cycle_isolated: "isolated S (pause_cycle E m cycle S)"
  by (simp add: pause_cycle_def)

text \<open>Two contexts that differ in the manager's keys only.\<close>

definition same_but_manager :: "ctx \<Rightarrow> ctx \<Rightarrow> bool" where
  "same_but_manager c d = (\<forall>k. startswith ''manager.'' k \<or> ctx_get d k = ctx_get c k)"

lemma same_but_manager_refl: "same_but_manager c c"
  by (simp add: same_but_manager_def)

lemma same_but_manager_trans: "same_but_manager c d \<Longrightarrow> same_but_manager d e \<Longrightarrow> same_but_manager c e"
  unfolding same_but_manager_def by metis

lemma record_cycle_frame: "same_but_manager c (record_cycle cycle out c)"
  by (auto simp: same_but_manager_def record_cycle_def Let_def cx.look_put)

lemma record_cycle_count: "ctx_get (record_cycle cycle out c) ''manager.cycles_completed'' = PInt cycle"
  by (simp add: record_cycle_def Let_def cx.look_put)


lemma manager_loop_result:
  "manager_loop E X g n m cs l c R S = (Inr out, c', R', S') \<Longrightarrow>
   (\<exists>cycle \<in> set cs. \<exists>ch d l' Rx Sx Ry Sy. same_but_manager c d \<and> isolated S Sx
      \<and> child_outcome E X g n m cycle (cycle_context m n cycle l' d) Rx Sx = (Inr ch, Ry, Sy)
      \<and> manager_stops m ch c' \<and> out = completed_outcome m n cycle ch
      \<and> ctx_get c' ''manager.cycles_completed'' = PInt cycle)
   \<or> o_status out = FAIL"
proof (induction cs arbitrary: l c R S)
  case Nil
  then show ?case by (auto simp: exhausted_manager_def Let_def)
next
  case (Cons cycle cs)
  obtain r R1 S1 where ch: "child_outcome E X g n m cycle (cycle_context m n cycle l c) R S = (r, R1, S1)"
    by (rule prod_cases3)
  note i = child_outcome_isolated [OF ch]
  obtain out1 where r: "r = Inr out1" using Cons.prems by (cases r) (auto simp: ch)
  let ?c = "record_cycle cycle out1 c"
  show ?case
  proof (cases "manager_stops m out1 ?c")
    case True
    then have "out = completed_outcome m n cycle out1" "c' = ?c" using Cons.prems by (simp_all add: ch r Let_def)
    then have "same_but_manager c c \<and> isolated S S
        \<and> child_outcome E X g n m cycle (cycle_context m n cycle l c) R S = (Inr out1, R1, S1)
        \<and> manager_stops m out1 c' \<and> out = completed_outcome m n cycle out1
        \<and> ctx_get c' ''manager.cycles_completed'' = PInt cycle"
      using True ch r by (simp add: record_cycle_count same_but_manager_refl)
    then show ?thesis by (intro disjI1 bexI [of _ cycle] exI) auto
  next
    case False
    then have "manager_loop E X g n m cs (Some out1) ?c R1 (pause_cycle E m cycle S1) = (Inr out, c', R', S')"
      using Cons.prems by (simp add: ch r Let_def)
    from Cons.IH [OF this] show ?thesis
    proof
      assume "o_status out = FAIL" then show ?thesis ..
    next
      assume "\<exists>cycle' \<in> set cs. \<exists>ch d l' Rx Sx Ry Sy. same_but_manager ?c d \<and> isolated (pause_cycle E m cycle S1) Sx
        \<and> child_outcome E X g n m cycle' (cycle_context m n cycle' l' d) Rx Sx = (Inr ch, Ry, Sy)
        \<and> manager_stops m ch c' \<and> out = completed_outcome m n cycle' ch
        \<and> ctx_get c' ''manager.cycles_completed'' = PInt cycle'"
      then obtain cycle' ch d l' Rx Sx Ry Sy where k: "cycle' \<in> set cs" "same_but_manager ?c d"
          "isolated (pause_cycle E m cycle S1) Sx"
          "child_outcome E X g n m cycle' (cycle_context m n cycle' l' d) Rx Sx = (Inr ch, Ry, Sy)
           \<and> manager_stops m ch c' \<and> out = completed_outcome m n cycle' ch
           \<and> ctx_get c' ''manager.cycles_completed'' = PInt cycle'" by blast
      have "same_but_manager c d" using record_cycle_frame k(2) by (rule same_but_manager_trans)
      moreover have "isolated S Sx"
        using isolated_trans [OF i isolated_trans [OF pause_cycle_isolated k(3)]] .
      ultimately have "same_but_manager c d \<and> isolated S Sx
          \<and> child_outcome E X g n m cycle' (cycle_context m n cycle' l' d) Rx Sx = (Inr ch, Ry, Sy)
          \<and> manager_stops m ch c' \<and> out = completed_outcome m n cycle' ch
          \<and> ctx_get c' ''manager.cycles_completed'' = PInt cycle'"
        using k(4) by blast
      then show ?thesis using k(1) by (intro disjI1 bexI [of _ cycle'] exI) auto
    qed
  qed
qed

text \<open>C14: A supervisor never succeeds on its own. A manager node that returns another outcome than FAIL returns
  status and explicitness of a child that ran in one of the cycles 1 to \<open>max_cycles\<close>, started from the parent's
  context up to the manager's own keys; that child satisfied the stop condition, or succeeded when there is
  none, and the context says in which cycle.\<close>

theorem manager_verdict_from_child:
  "case manager_execute E X g n c R S of
     (Inl e, c', R', S') \<Rightarrow> True
   | (Inr out, c', R', S') \<Rightarrow> o_status out = FAIL
       \<or> (\<exists>m cycle ch d l Rx Sx Ry Sy. manager_config g n = Inr m \<and> 1 \<le> cycle \<and> cycle \<le> m_max_cycles m
            \<and> same_but_manager c d \<and> isolated S Sx
            \<and> child_outcome E X g n m cycle (cycle_context m n cycle l d) Rx Sx = (Inr ch, Ry, Sy)
            \<and> (if m_stop_condition m = [] then is_success ch else evaluate_condition (m_stop_condition m) ch c')
            \<and> o_status out = o_status ch \<and> o_is_explicit out = o_is_explicit ch
            \<and> ctx_get c' ''manager.cycles_completed'' = PInt cycle)"
proof -
  obtain res c' R' S' where x: "manager_execute E X g n c R S = (res, c', R', S')" by (rule prod_cases4)
  show ?thesis
  proof (cases "is_fail res")
    case True
    then show ?thesis by (auto simp: x split: sum.splits)
  next
    case False
    then obtain out where out: "res = Inr out" "o_status out \<noteq> FAIL" by (cases res) (auto simp: is_fail_def)
    then obtain m where m: "manager_config g n = Inr m"
      and l: "manager_loop E X g n m [1..m_max_cycles m] None c R S = (Inr out, c', R', S')"
      using x by (auto simp: manager_execute_def child_failed_def split: sum.splits if_splits)
    obtain cycle ch d l' Rx Sx Ry Sy where k: "cycle \<in> set [1..m_max_cycles m]" "same_but_manager c d" "isolated S Sx"
        "child_outcome E X g n m cycle (cycle_context m n cycle l' d) Rx Sx = (Inr ch, Ry, Sy)"
        "manager_stops m ch c'" "out = completed_outcome m n cycle ch"
        "ctx_get c' ''manager.cycles_completed'' = PInt cycle"
      using manager_loop_result [OF l] out(2) by blast
    have "o_status out = o_status ch" "o_is_explicit out = o_is_explicit ch"
      by (simp_all add: k(6) completed_outcome_def)
    moreover have "1 \<le> cycle" "cycle \<le> m_max_cycles m" using k(1) by auto
    moreover have "if m_stop_condition m = [] then is_success ch else evaluate_condition (m_stop_condition m) ch c'"
      using k(5) by (simp add: manager_stops_def)
    ultimately have "manager_config g n = Inr m \<and> 1 \<le> cycle \<and> cycle \<le> m_max_cycles m
        \<and> same_but_manager c d \<and> isolated S Sx
        \<and> child_outcome E X g n m cycle (cycle_context m n cycle l' d) Rx Sx = (Inr ch, Ry, Sy)
        \<and> (if m_stop_condition m = [] then is_success ch else evaluate_condition (m_stop_condition m) ch c')
        \<and> o_status out = o_status ch \<and> o_is_explicit out = o_is_explicit ch
        \<and> ctx_get c' ''manager.cycles_completed'' = PInt cycle"
      using m k(2,3,4,7) by argo
    then show ?thesis unfolding x out(1) sum.case prod.case by (intro disjI2 exI)
  qed
qed






text \<open>A text of digits and a unit is that many units.\<close>

lemma parse_duration_plain:
  assumes "py_lstrip t = t" "takeWhile is_digit t = w" "dropWhile is_digit t = u" "w \<noteq> []"
    "\<not> startswith ''.'' u" "digits_val 0 w = v" "py_lower (py_strip u) = u'" "duration_unit u' = Some k"
  shows "parse_duration t = of_nat v * k"
  using assms by (simp add: parse_duration_def Let_def)

text \<open>The delay between cycles is a thousand times too long. The DOT parser turns the documented \<open>"45s"\<close> into
  milliseconds, and the handler reads the number as seconds: a manager whose \<open>manager.poll_interval\<close> was written so
  waits 45000 seconds, where its own reading of the text \<open>45s\<close> would be 45.\<close>

definition manager_source :: string where
  "manager_source = ''digraph g { m [shape=house, manager.poll_interval='' @ [CHR 0x22] @ ''45s'' @ [CHR 0x22] @ '']; }''"

definition poll_of :: "string \<Rightarrow> (exc + rat) option" where
  "poll_of src =
     (case parse_dot src [] of
        Inl e \<Rightarrow> None
      | Inr g \<Rightarrow> (case dict_get (g_nodes g) ''m'' of
           None \<Rightarrow> None
         | Some n \<Rightarrow> Some (case manager_config g n of Inl e \<Rightarrow> Inl e | Inr m \<Rightarrow> Inr (m_poll_interval_s m))))"

lemma poll_config:
  "py_int (node_attr_get_d n ''manager.max_cycles'' (PInt 1000)) = Some k \<Longrightarrow>
   map_sum id m_poll_interval_s (manager_config g n)
     = Inr (parse_duration (py_str (node_attr_get_d n ''manager.poll_interval'' (PStr ''0s''))))"
  by (simp add: manager_config_def Let_def)

theorem poll_interval_misread: "poll_of manager_source = Some (Inr 45000) \<and> parse_duration ''45s'' = 45"
proof -
  obtain g n where g: "parse_dot manager_source [] = Inr g" "dict_get (g_nodes g) ''m'' = Some n"
      "py_int (node_attr_get_d n ''manager.max_cycles'' (PInt 1000)) = Some 1000"
      "node_attr_get_d n ''manager.poll_interval'' (PStr ''0s'') = PInt 45000"
  proof -
    have "(case parse_dot manager_source [] of Inl e \<Rightarrow> False | Inr g \<Rightarrow>
        (case dict_get (g_nodes g) ''m'' of None \<Rightarrow> False | Some n \<Rightarrow>
          py_int (node_attr_get_d n ''manager.max_cycles'' (PInt 1000)) = Some 1000
          \<and> node_attr_get_d n ''manager.poll_interval'' (PStr ''0s'') = PInt 45000))"
      by code_simp
    then show ?thesis using that by (auto split: sum.splits option.splits)
  qed
  have "parse_duration ''45000'' = of_nat 45000 * 1"
    by (rule parse_duration_plain [where w = "''45000''" and u = "[]" and u' = "[]"])
      (code_simp, code_simp, code_simp, simp, code_simp, simp, code_simp, simp add: duration_unit_def)
  moreover have "parse_duration ''45s'' = of_nat 45 * 1"
    by (rule parse_duration_plain [where w = "''45''" and u = "''s''" and u' = "''s''"])
      (code_simp, code_simp, code_simp, simp, code_simp, simp, code_simp, simp add: duration_unit_def)
  moreover have "py_str (PInt 45000) = ''45000''"
    by (simp add: int_str_def nat_str.simps digit_char_def) code_simp
  moreover have "map_sum id m_poll_interval_s (manager_config g n) = Inr (parse_duration (py_str (PInt 45000)))"
    using poll_config [OF g(3)] g(4) by simp
  ultimately show ?thesis
    by (cases "manager_config g n") (simp_all add: poll_of_def g(1,2))
qed

end
