(* ===== verification/Agent_Parts.thy ===== *)
theory Agent_Parts
  imports Tool_Handler
begin

text \<open>
  The parts of the coding-agent session, the package \<open>modules/loop-agent\<close>: the state machine
  (\<open>state.py\<close>), the loop detector (\<open>loop_detection.py\<close>), the two queues (\<open>steering.py\<close>), the typed history
  (\<open>turns.py\<close>) and its conversion to the messages of a request (\<open>messages.py\<close>), the tool registry
  (\<open>tool_registry.py\<close>), the configuration (\<open>config.py\<close>) and the filter of environment variables
  (\<open>env_filter.py\<close>).

  The names of the events are those of \<open>events.py\<close>. Timestamps are left out; nothing reads them.
\<close>

section \<open>The state machine\<close>

datatype session_state = IDLE | PROCESSING | AWAITING_INPUT | CLOSED

definition state_value :: "session_state \<Rightarrow> string" where
  "state_value s =
     (case s of IDLE \<Rightarrow> ''idle'' | PROCESSING \<Rightarrow> ''processing'' | AWAITING_INPUT \<Rightarrow> ''awaiting_input''
      | CLOSED \<Rightarrow> ''closed'')"

definition transitions :: "session_state \<Rightarrow> (string \<times> session_state) list" where
  "transitions s =
     (case s of
        IDLE \<Rightarrow> [(''submit'', PROCESSING), (''close'', CLOSED), (''abort'', CLOSED)]
      | PROCESSING \<Rightarrow>
          [(''complete'', IDLE), (''await_input'', AWAITING_INPUT), (''fatal_error'', CLOSED), (''abort'', CLOSED)]
      | AWAITING_INPUT \<Rightarrow> [(''resume_input'', PROCESSING), (''abort'', CLOSED)]
      | CLOSED \<Rightarrow> [])"

definition invalid_transition :: "string \<Rightarrow> session_state \<Rightarrow> exc" where
  "invalid_transition trigger s =
     PyError ''InvalidTransitionError'' False
       (''Invalid transition: '' @ repr_str trigger @ '' from '' @ state_value s)"

definition transition :: "string \<Rightarrow> session_state \<Rightarrow> exc + session_state" where
  "transition trigger s =
     (case map_of (transitions s) trigger of
        None \<Rightarrow> Inl (invalid_transition trigger s) | Some t \<Rightarrow> Inr t)"

section \<open>The loop detector\<close>

text \<open>\<open>json.dumps(..., sort_keys=True)\<close>: the keys of every dictionary in order.\<close>

fun sort_keys :: "pyval \<Rightarrow> pyval" where
  "sort_keys (PList xs) = PList (map sort_keys xs)"
| "sort_keys (PDict d) = PDict (sort_key fst (map (\<lambda>(k, v). (k, sort_keys v)) d))"
| "sort_keys v = v"

text \<open>The hash is a parameter. The window is a \<open>deque\<close> of bounded length.\<close>

definition signature_of :: "(string \<Rightarrow> string) \<Rightarrow> string \<Rightarrow> pyval \<Rightarrow> string" where
  "signature_of md5 tool_name arguments =
     tool_name @ '':'' @ take 8 (md5 (json_dumps (sort_keys arguments)))"

definition push_bounded :: "nat \<Rightarrow> 'a \<Rightarrow> 'a list \<Rightarrow> 'a list" where
  "push_bounded k x xs = (let ys = xs @ [x] in drop (length ys - k) ys)"

definition record_call :: "(string \<Rightarrow> string) \<Rightarrow> nat \<Rightarrow> string \<Rightarrow> pyval \<Rightarrow> string list \<Rightarrow> string list" where
  "record_call md5 window tool_name arguments sigs =
     push_bounded window (signature_of md5 tool_name arguments) sigs"

definition repeats :: "nat \<Rightarrow> 'a list \<Rightarrow> bool" where
  "repeats p xs =
     list_all (\<lambda>i. take p (drop i xs) = take p xs) (filter (\<lambda>i. i mod p = 0) [p..<length xs])"

definition loop_warning :: "nat \<Rightarrow> string" where
  "loop_warning window =
     ''Loop detected: the last '' @ nat_str window
     @ '' tool calls follow a repeating pattern. Try a different approach.''"

definition check_loop :: "nat \<Rightarrow> string list \<Rightarrow> string option" where
  "check_loop window sigs =
     (if length sigs < window then None
      else if list_ex (\<lambda>p. window mod p = 0 \<and> repeats p sigs) [1, 2, 3] then Some (loop_warning window)
      else None)"

section \<open>The queues\<close>

definition steer :: "string \<Rightarrow> string list \<Rightarrow> string list" where
  "steer message queue = queue @ [message]"

text \<open>All pending steering messages, and the empty queue.\<close>

definition drain_all :: "string list \<Rightarrow> string list \<times> string list" where
  "drain_all queue = (queue, [])"

text \<open>The next follow-up, if any.\<close>

definition drain_one :: "string list \<Rightarrow> string option \<times> string list" where
  "drain_one queue = (case queue of [] \<Rightarrow> (None, []) | m # ms \<Rightarrow> (Some m, ms))"

section \<open>The history\<close>

record call =
  tc_id :: string
  tc_name :: string
  tc_arguments :: pyval

text \<open>\<open>ToolResult\<close> is the kernel's. The session writes its two fields and asks for its serialised text,
  which is a parameter below.\<close>

record tool_result =
  tr_success :: bool
  tr_output :: pyval

record assistant =
  as_content :: string
  as_calls :: "call list"
  as_reasoning :: "string option"
  as_signature :: "string option"
  as_usage :: pyval
  as_response_id :: "string option"

datatype turn =
    UserTurn string
  | AssistantTurn assistant
  | ToolResultsTurn "tool_result list"
  | SteeringTurn string
  | SystemTurn string

definition plain_assistant :: "string \<Rightarrow> assistant" where
  "plain_assistant content =
     \<lparr>as_content = content, as_calls = [], as_reasoning = None, as_signature = None, as_usage = PNone,
      as_response_id = None\<rparr>"

definition last_turn :: "turn list \<Rightarrow> turn option" where
  "last_turn turns = (if turns = [] then None else Some (last turns))"

definition last_assistant_turn :: "turn list \<Rightarrow> assistant option" where
  "last_assistant_turn turns =
     (case find (\<lambda>t. case t of AssistantTurn a \<Rightarrow> True | _ \<Rightarrow> False) (rev turns) of
        Some (AssistantTurn a) \<Rightarrow> Some a | _ \<Rightarrow> None)"

section \<open>Messages\<close>

datatype block = ThinkingBlock string "string option" | TextBlock string

datatype content = Text string | Blocks "block list"

record message =
  ms_role :: string
  ms_content :: content
  ms_call_id :: "string option"
  ms_calls :: "call list"

definition mk_message :: "string \<Rightarrow> content \<Rightarrow> message" where
  "mk_message role c = \<lparr>ms_role = role, ms_content = c, ms_call_id = None, ms_calls = []\<rparr>"

definition elision_stub :: "string \<Rightarrow> nat \<Rightarrow> string" where
  "elision_stub tool_name char_count =
     ''[tool result elided: '' @ tool_name @ '' '' @ nat_str char_count @ '' chars; re-run to see]''"

definition build_assistant_message :: "assistant \<Rightarrow> message" where
  "build_assistant_message a =
     (let has_text = (as_content a \<noteq> [] \<and> py_strip (as_content a) \<noteq> []);
          c = (if str_true (as_reasoning a)
               then Blocks (ThinkingBlock (the (as_reasoning a))
                       (if str_true (as_signature a) then as_signature a else None)
                     # (if has_text then [TextBlock (as_content a)] else []))
               else if has_text then Text (as_content a)
               else if as_calls a \<noteq> [] then Blocks []
               else Text [])
      in (mk_message ''assistant'' c)\<lparr>ms_calls := as_calls a\<rparr>)"

text \<open>One message per result, with the id of the call at its position in the assistant turn before. The
  content is the stub when the turn is outside the retention window.\<close>

definition tool_message :: "(tool_result \<Rightarrow> string) \<Rightarrow> bool \<Rightarrow> call list \<Rightarrow> nat \<Rightarrow> tool_result \<Rightarrow> message" where
  "tool_message ser elide pending i res =
     (let serialized = ser res;
          name = (if i < length pending then tc_name (pending ! i) else []);
          text = (if elide then elision_stub (if name \<noteq> [] then name else ''tool'') (length serialized)
                  else serialized)
      in (mk_message ''tool'' (Text text))
           \<lparr>ms_call_id := (if i < length pending then Some (tc_id (pending ! i)) else None)\<rparr>)"

definition tool_messages :: "(tool_result \<Rightarrow> string) \<Rightarrow> bool \<Rightarrow> call list \<Rightarrow> tool_result list \<Rightarrow> message list" where
  "tool_messages ser elide pending results =
     map (\<lambda>i. tool_message ser elide pending i (results ! i)) [0..<length results]"

definition is_tool_turn :: "turn \<Rightarrow> bool" where
  "is_tool_turn t = (case t of ToolResultsTurn rs \<Rightarrow> True | _ \<Rightarrow> False)"

definition keep_from :: "int \<Rightarrow> turn list \<Rightarrow> int" where
  "keep_from retention turns =
     (if retention > 0 then int (length (filter is_tool_turn turns)) - retention else -1)"

text \<open>The pass over the turns, with the pending calls and the ordinal of the next tool turn: the system
  messages and the others.\<close>

fun convert_turns ::
    "(tool_result \<Rightarrow> string) \<Rightarrow> int \<Rightarrow> call list \<Rightarrow> int \<Rightarrow> turn list \<Rightarrow> message list \<times> message list" where
  "convert_turns ser keep pending ordinal [] = ([], [])"
| "convert_turns ser keep pending ordinal (t # ts) =
     (case t of
        SystemTurn s \<Rightarrow>
          (let (sys, oth) = convert_turns ser keep pending ordinal ts
           in (mk_message ''system'' (Text s) # sys, oth))
      | UserTurn s \<Rightarrow>
          (let (sys, oth) = convert_turns ser keep pending ordinal ts
           in (sys, mk_message ''user'' (Text s) # oth))
      | SteeringTurn s \<Rightarrow>
          (let (sys, oth) = convert_turns ser keep pending ordinal ts
           in (sys, mk_message ''user'' (Text s) # oth))
      | AssistantTurn a \<Rightarrow>
          (let (sys, oth) = convert_turns ser keep (if as_calls a \<noteq> [] then as_calls a else pending) ordinal ts
           in (sys, build_assistant_message a # oth))
      | ToolResultsTurn rs \<Rightarrow>
          (let (sys, oth) = convert_turns ser keep [] (ordinal + 1) ts
           in (sys, tool_messages ser (ordinal < keep) pending rs @ oth)))"

definition convert_history_to_messages :: "(tool_result \<Rightarrow> string) \<Rightarrow> int \<Rightarrow> turn list \<Rightarrow> message list" where
  "convert_history_to_messages ser retention turns =
     (let (sys, oth) = convert_turns ser (keep_from retention turns) [] 0 turns in sys @ oth)"

section \<open>Tools and configuration\<close>

text \<open>A tool as the session uses it. Its schema is absent, or an object with the required names and the
  schemas of the properties.\<close>

record schema =
  sc_required :: "string list"
  sc_properties :: "pyval dict dict"

record tool =
  to_name :: string
  to_description :: string
  to_schema :: "schema option"

type_synonym registry = "tool dict"

definition register_tool :: "tool \<Rightarrow> registry \<Rightarrow> registry" where
  "register_tool t reg = dict_set (to_name t) t reg"

definition register_bulk :: "tool list \<Rightarrow> registry \<Rightarrow> registry" where
  "register_bulk ts reg = foldl (\<lambda>r t. register_tool t r) reg ts"

definition registry_get_tool :: "registry \<Rightarrow> string \<Rightarrow> tool option" where
  "registry_get_tool reg name = dict_get reg name"

definition registry_tools :: "registry \<Rightarrow> tool list" where
  "registry_tools reg = map snd reg"

record session_config =
  cf_max_turns :: int
  cf_max_tool_rounds :: int
  cf_reasoning_effort :: "string option"
  cf_loop_detection :: bool
  cf_window :: nat
  cf_context_window :: int
  cf_system_prompt :: string
  cf_user_instructions :: string
  cf_parallel :: bool
  cf_retention :: int

definition default_config :: session_config where
  "default_config =
     \<lparr>cf_max_turns = 0, cf_max_tool_rounds = 0, cf_reasoning_effort = None, cf_loop_detection = True, cf_window = 10,
      cf_context_window = 0, cf_system_prompt = [], cf_user_instructions = [], cf_parallel = True, cf_retention = 20\<rparr>"

section \<open>The environment filter\<close>

definition sensitive_suffixes :: "string list" where
  "sensitive_suffixes = [''_API_KEY'', ''_TOKEN'', ''_SECRET'', ''_PASSWORD'', ''_SECRET_KEY'']"

definition is_sensitive :: "string \<Rightarrow> bool" where
  "is_sensitive name = list_ex (\<lambda>suffix. endswith suffix (py_upper name)) sensitive_suffixes"

text \<open>The environment kept and the names removed.\<close>

definition sanitize_env :: "string dict \<Rightarrow> string dict \<times> string list" where
  "sanitize_env env =
     (filter (\<lambda>(k, v). \<not> is_sensitive k) env, map fst (filter (\<lambda>(k, v). is_sensitive k) env))"

end
