(* ===== verification/Agent_Session.thy ===== *)
theory Agent_Session
  imports Agent_Parts
begin

text \<open>
  The coding-agent session, \<open>modules/loop-agent/.../agent_session.py\<close>: the loop that asks a provider,
  runs the tools it calls, and repeats, with its limits, its cancellation checkpoints, its steering and
  follow-up queues, and its error paths.

  The provider, the tools, the \<open>tool:post\<close> hook, the clock of processes and the cancellation token are
  functions on the world, in the record \<open>aenv\<close>. While the session waits for one of them the host may
  post messages to the two queues; they come back as the \<open>posted\<close> part of the answer. The events are
  logged in order; durations are left out. Tools that run in parallel run here one after the
  other, in the order of the calls, which is the order of their results.

  \<open>turn_round\<close> is one pass of the loop and says how it goes on; the recursion around it (\<open>process_input\<close>,
  its loop and the follow-ups, which call each other) takes fuel, because a provider may call tools
  for ever. \<^const>\<open>None\<close> is fuel run out.
\<close>

section \<open>Provider names\<close>

definition known_providers :: "string list" where
  "known_providers = [''anthropic'', ''openai'', ''gemini'']"

definition distinct_compound_providers :: "string list" where
  "distinct_compound_providers =
     [''azure-openai'', ''azure_openai'', ''azureopenai'', ''openai-chatgpt'', ''openai_chatgpt'']"

definition canonical_provider :: "string option \<Rightarrow> string option" where
  "canonical_provider raw =
     (if \<not> str_true raw then None
      else let low = py_lower (the raw) in
           if list_ex (\<lambda>compound. occurs_in compound low) distinct_compound_providers then None
           else find (\<lambda>canonical. occurs_in canonical low) known_providers)"

definition provider_instance_id :: "string option \<Rightarrow> string option \<Rightarrow> string option" where
  "provider_instance_id mount_key module_name =
     (if \<not> str_true mount_key \<or> \<not> str_true module_name then None
      else if mount_key = module_name then None
      else if canonical_provider mount_key = module_name then None
      else mount_key)"

section \<open>The environment\<close>

record posted =
  po_steering :: "string list"
  po_follow_ups :: "string list"

definition nothing_posted :: posted where
  "nothing_posted = \<lparr>po_steering = [], po_follow_ups = []\<rparr>"

record llm_error =
  le_message :: string
  le_retryable :: bool
  le_status_code :: pyval
  le_provider :: pyval

datatype call_error = Context_Length llm_error | Llm_Error llm_error | Other_Error exc

datatype response_block = RText string | RThinking string "string option" | ROther

record response =
  rs_content :: "response_block list"
  rs_calls :: "call list"
  rs_usage :: pyval
  rs_response_id :: pyval
  rs_metadata :: pyval

record chunk =
  ch_content :: string
  ch_thinking :: string
  ch_signature :: string
  ch_calls :: "call list"
  ch_usage :: pyval

record call_result =
  cr_text :: string
  cr_reasoning :: "string option"
  cr_signature :: "string option"
  cr_calls :: "call list"
  cr_usage :: pyval
  cr_usage_data :: pyval
  cr_response_id :: "string option"

record request =
  rq_messages :: "message list"
  rq_tools :: "tool list option"
  rq_reasoning_effort :: "string option"

record 'w aenv =
  ae_config :: session_config
  ae_session_id :: string
  ae_provider_name :: string
  ae_model :: string
  ae_module_name :: "string option"
  ae_streaming :: bool
  ae_tools :: registry
  ae_md5 :: "string \<Rightarrow> string"
  ae_serialize :: "tool_result \<Rightarrow> string"
  ae_environment :: "'w \<Rightarrow> string"
  ae_project_docs :: "'w \<Rightarrow> string"
  ae_get_messages :: "('w \<Rightarrow> (exc + pyval) \<times> 'w) option"
  ae_complete :: "request \<Rightarrow> 'w \<Rightarrow> (call_error + response) \<times> posted \<times> 'w"
  ae_stream :: "request \<Rightarrow> 'w \<Rightarrow> (chunk list \<times> call_error option) \<times> posted \<times> 'w"
  ae_run_tool :: "call \<Rightarrow> 'w \<Rightarrow> (exc + tool_result) \<times> posted \<times> 'w"
  ae_tool_post :: "call \<Rightarrow> string \<Rightarrow> 'w \<Rightarrow> (exc + pyval) \<times> 'w"
  ae_cancelled :: "'w \<Rightarrow> bool"
  ae_immediate :: "'w \<Rightarrow> bool"
  ae_returncode :: "nat \<Rightarrow> 'w \<Rightarrow> int option"
  ae_terminate :: "nat \<Rightarrow> 'w \<Rightarrow> bool \<times> 'w"
  ae_wait :: "nat \<Rightarrow> rat \<Rightarrow> 'w \<Rightarrow> bool \<times> 'w"
  ae_kill :: "nat \<Rightarrow> 'w \<Rightarrow> 'w"

section \<open>The session\<close>

text \<open>\<open>se_events\<close> and \<open>se_requests\<close> are what the hooks and the provider have been given so far.\<close>

record 'w session =
  se_state :: session_state
  se_history :: "turn list"
  se_started :: bool
  se_steering :: "string list"
  se_follow_ups :: "string list"
  se_signatures :: "string list"
  se_follow_up_depth :: nat
  se_processes :: "nat list"
  se_call_count :: nat
  se_cancel_count :: nat
  se_reason :: string
  se_hydrated :: bool
  se_events :: "(string \<times> pyval dict) list"
  se_requests :: "message list list"
  se_world :: 'w

definition session_init :: "'w \<Rightarrow> 'w session" where
  "session_init w =
     \<lparr>se_state = IDLE, se_history = [], se_started = False, se_steering = [], se_follow_ups = [], se_signatures = [],
      se_follow_up_depth = 0, se_processes = [], se_call_count = 0, se_cancel_count = 0, se_reason = ''natural'',
      se_hydrated = False, se_events = [], se_requests = [], se_world = w\<rparr>"

definition tell :: "string \<Rightarrow> pyval dict \<Rightarrow> 'w session \<Rightarrow> 'w session" where
  "tell name payload S = S\<lparr>se_events := se_events S @ [(name, payload)]\<rparr>"

definition add_turn :: "turn \<Rightarrow> 'w session \<Rightarrow> 'w session" where
  "add_turn t S = S\<lparr>se_history := se_history S @ [t]\<rparr>"

definition receive :: "posted \<Rightarrow> 'w \<Rightarrow> 'w session \<Rightarrow> 'w session" where
  "receive p w S =
     S\<lparr>se_steering := foldl (\<lambda>q m. steer m q) (se_steering S) (po_steering p),
       se_follow_ups := se_follow_ups S @ po_follow_ups p, se_world := w\<rparr>"

definition text_or_none :: "string \<Rightarrow> pyval" where
  "text_or_none s = (if s = [] then PNone else PStr s)"

definition provider_identity :: "'w aenv \<Rightarrow> pyval dict" where
  "provider_identity E =
     (let key = (if ae_provider_name E = [] then None else Some (ae_provider_name E));
          opt = (\<lambda>x. case x of None \<Rightarrow> PNone | Some s \<Rightarrow> text_or_none s)
      in [(''provider'', opt key), (''provider_module'', opt (ae_module_name E)),
          (''provider_instance'', opt (provider_instance_id key (ae_module_name E))),
          (''model'', text_or_none (ae_model E)), (''reasoning_effort'', opt (cf_reasoning_effort (ae_config E)))])"

definition end_session :: "'w session \<Rightarrow> 'w session" where
  "end_session S = tell ''agent:session_end'' [(''state'', PStr (state_value (se_state S)))] S"

definition drain_steering :: "'w session \<Rightarrow> 'w session" where
  "drain_steering S =
     (let (messages, rest) = drain_all (se_steering S) in
      foldl (\<lambda>T m. tell ''agent:steering_injected'' [(''content'', PStr m)] (add_turn (SteeringTurn m) T))
        (S\<lparr>se_steering := rest\<rparr>) messages)"

section \<open>The request\<close>

text \<open>The five layers of the system prompt.\<close>

definition build_system_prompt :: "string \<Rightarrow> string \<Rightarrow> string \<Rightarrow> string \<Rightarrow> string option \<Rightarrow> string" where
  "build_system_prompt base_prompt environment tool_descriptions project_docs user_override =
     py_join [CHR 0x0A, CHR 0x0A]
       ([base_prompt, environment]
        @ (if tool_descriptions \<noteq> [] then [''## Tool Descriptions'' @ [CHR 0x0A, CHR 0x0A] @ tool_descriptions] else [])
        @ (if project_docs \<noteq> [] then [''## Project Instructions'' @ [CHR 0x0A, CHR 0x0A] @ project_docs] else [])
        @ (case user_override of None \<Rightarrow> []
           | Some u \<Rightarrow> [''## User Instructions'' @ [CHR 0x0A, CHR 0x0A] @ u]))"

definition missing_prompt :: exc where
  "missing_prompt =
     PyError ''RuntimeError'' False ''Layer-1 base prompt is empty: session was created with no system_prompt in orchestrator config and no system_prompt_file that resolved to content. Add system_prompt_file: context/system-<provider>.md to the agent's session.orchestrator.config. See docs/designs/layer-1-profile-owned-system-prompt.md.''"

definition tool_line :: "tool \<Rightarrow> string" where
  "tool_line t = ''- **'' @ to_name t @ ''**: '' @ to_description t"

definition build_system_prompt_text :: "'w aenv \<Rightarrow> 'w session \<Rightarrow> exc + string" where
  "build_system_prompt_text E S =
     (if cf_system_prompt (ae_config E) = [] then Inl missing_prompt
      else Inr (build_system_prompt (cf_system_prompt (ae_config E)) (ae_environment E (se_world S))
             (py_join [CHR 0x0A] (map tool_line (registry_tools (ae_tools E)))) (ae_project_docs E (se_world S))
             (if cf_user_instructions (ae_config E) = [] then None else Some (cf_user_instructions (ae_config E)))))"

definition conversation :: "'w aenv \<Rightarrow> 'w session \<Rightarrow> exc + message list" where
  "conversation E S =
     (let messages = convert_history_to_messages (ae_serialize E) (cf_retention (ae_config E)) (se_history S) in
      case build_system_prompt_text E S of
        Inl e \<Rightarrow> Inl e
      | Inr text \<Rightarrow>
          Inr (mk_message ''system'' (Text text) # filter (\<lambda>m. ms_role m \<noteq> ''system'') messages))"

definition get_tool_definitions :: "'w aenv \<Rightarrow> tool list option" where
  "get_tool_definitions E = (if ae_tools E = [] then None else Some (registry_tools (ae_tools E)))"

section \<open>Calling the provider\<close>

definition join_parts :: "string list \<Rightarrow> string" where
  "join_parts parts = py_join [CHR 0x0A, CHR 0x0A] parts"

definition extract_text :: "response \<Rightarrow> string" where
  "extract_text r = join_parts (concat (map (\<lambda>b. case b of RText s \<Rightarrow> [s] | _ \<Rightarrow> []) (rs_content r)))"

definition extract_reasoning :: "response \<Rightarrow> string option" where
  "extract_reasoning r =
     (let parts = concat (map (\<lambda>b. case b of RThinking s sig \<Rightarrow> [s] | _ \<Rightarrow> []) (rs_content r))
      in if parts = [] then None else Some (join_parts parts))"

definition extract_reasoning_signature :: "response \<Rightarrow> string option" where
  "extract_reasoning_signature r =
     (case find (\<lambda>b. case b of RThinking s sig \<Rightarrow> str_true sig | _ \<Rightarrow> False) (rs_content r) of
        Some (RThinking s sig) \<Rightarrow> sig | _ \<Rightarrow> None)"

definition extract_response_id :: "response \<Rightarrow> string option" where
  "extract_response_id r =
     (if rs_response_id r \<noteq> PNone then Some (py_str (rs_response_id r))
      else case rs_metadata r of
             PDict d \<Rightarrow>
               (case dict_get d ''response_id'' of
                  Some v \<Rightarrow> (if v = PNone then None else Some (py_str v)) | None \<Rightarrow> None)
           | _ \<Rightarrow> None)"

definition call_provider_complete :: "'w aenv \<Rightarrow> request \<Rightarrow> 'w session \<Rightarrow> (call_error + call_result) \<times> 'w session" where
  "call_provider_complete E rq S =
     (let (res, p, w) = ae_complete E rq (se_world S); S1 = receive p w S in
      case res of
        Inl err \<Rightarrow> (Inl err, S1)
      | Inr r \<Rightarrow>
          (Inr \<lparr>cr_text = extract_text r, cr_reasoning = extract_reasoning r, cr_signature = extract_reasoning_signature r,
                cr_calls = rs_calls r, cr_usage = rs_usage r,
                cr_usage_data = (if rs_usage r = PNone then PDict [] else rs_usage r),
                cr_response_id = extract_response_id r\<rparr>, S1))"

definition tell_delta :: "'w session \<Rightarrow> chunk \<Rightarrow> 'w session" where
  "tell_delta S c =
     (if ch_content c = [] then S else tell ''agent:assistant_text_delta'' [(''delta'', PStr (ch_content c))] S)"

definition last_true :: "('a \<Rightarrow> bool) \<Rightarrow> 'a list \<Rightarrow> 'a option" where
  "last_true P xs = find P (rev xs)"

definition text_end :: "string \<Rightarrow> string option \<Rightarrow> pyval dict" where
  "text_end text reasoning =
     [(''text'', PStr text)] @ (if str_true reasoning then [(''reasoning'', PStr (the reasoning))] else [])"

definition call_provider_streaming :: "'w aenv \<Rightarrow> request \<Rightarrow> 'w session \<Rightarrow> (call_error + call_result) \<times> 'w session" where
  "call_provider_streaming E rq S =
     (let S0 = tell ''agent:assistant_text_start'' [] S;
          ((chunks, failure), p, w) = ae_stream E rq (se_world S0);
          S1 = foldl tell_delta (receive p w S0) chunks;
          full_text = concat (map ch_content chunks);
          full_reasoning = concat (map ch_thinking chunks);
          reasoning = (if full_reasoning = [] then None else Some full_reasoning)
      in case failure of
           Some err \<Rightarrow> (Inl err, S1)
         | None \<Rightarrow>
             (Inr \<lparr>cr_text = full_text, cr_reasoning = reasoning,
                   cr_signature = map_option ch_signature (last_true (\<lambda>c. ch_signature c \<noteq> []) chunks),
                   cr_calls = concat (map ch_calls chunks), cr_usage = PNone,
                   cr_usage_data = (case last_true (\<lambda>c. py_true (ch_usage c)) chunks of
                      None \<Rightarrow> PDict [] | Some c \<Rightarrow> ch_usage c),
                   cr_response_id = None\<rparr>,
              tell ''agent:assistant_text_end'' (text_end full_text reasoning) S1))"

definition call_provider :: "'w aenv \<Rightarrow> request \<Rightarrow> 'w session \<Rightarrow> (call_error + call_result) \<times> 'w session" where
  "call_provider E rq S =
     (if ae_streaming E then call_provider_streaming E rq S else call_provider_complete E rq S)"

section \<open>Context usage\<close>

fun block_chars :: "block \<Rightarrow> nat" where
  "block_chars (TextBlock s) = length s"
| "block_chars (ThinkingBlock s sig) = length s"

fun content_chars :: "content \<Rightarrow> nat" where
  "content_chars (Text s) = length s"
| "content_chars (Blocks bs) = sum_list (map block_chars bs)"

definition usage_warning :: "int \<Rightarrow> rat \<Rightarrow> pyval dict" where
  "usage_warning window approx =
     (let percent = round_half_even (approx / of_int window * 100); tokens = \<lfloor>approx\<rfloor> in
      [(''approx_tokens'', PInt tokens), (''context_window_size'', PInt window), (''usage_percent'', PInt percent),
       (''message'', PStr (''Context usage at ~'' @ int_str percent @ ''% of context window ('' @ int_str tokens @ ''/''
          @ int_str window @ '' tokens)''))])"

definition check_context_usage :: "'w aenv \<Rightarrow> 'w session \<Rightarrow> exc option \<times> 'w session" where
  "check_context_usage E S =
     (let window = cf_context_window (ae_config E) in
      if window \<le> 0 then (None, S)
      else case conversation E S of
             Inl e \<Rightarrow> (Some e, S)
           | Inr messages \<Rightarrow>
               (let approx = of_nat (sum_list (map (\<lambda>m. content_chars (ms_content m)) messages)) / 4 in
                (None, if approx > of_int window * 4 / 5 then tell ''agent:context_warning'' (usage_warning window approx) S
                       else S)))"

section \<open>Tools\<close>

definition schema_types :: "(string \<times> (pyval \<Rightarrow> bool)) list" where
  "schema_types =
     [(''string'', \<lambda>v. case v of PStr s \<Rightarrow> True | _ \<Rightarrow> False),
      (''integer'', \<lambda>v. case v of PInt i \<Rightarrow> True | PBool b \<Rightarrow> True | _ \<Rightarrow> False),
      (''number'', \<lambda>v. case v of PInt i \<Rightarrow> True | PBool b \<Rightarrow> True | PFloat q \<Rightarrow> True | _ \<Rightarrow> False),
      (''boolean'', \<lambda>v. case v of PBool b \<Rightarrow> True | _ \<Rightarrow> False),
      (''array'', \<lambda>v. case v of PList xs \<Rightarrow> True | _ \<Rightarrow> False),
      (''object'', \<lambda>v. case v of PDict d \<Rightarrow> True | _ \<Rightarrow> False)]"

definition missing_field :: "schema \<Rightarrow> string \<Rightarrow> string" where
  "missing_field sc name =
     (let fs = (case dict_get (sc_properties sc) name of None \<Rightarrow> [] | Some d \<Rightarrow> d);
          ty = (case dict_get fs ''type'' of None \<Rightarrow> PStr ''any'' | Some v \<Rightarrow> v);
          desc = (case dict_get fs ''description'' of None \<Rightarrow> PStr [] | Some v \<Rightarrow> v)
      in ''Missing required field '' @ quoted name @ '' (type: '' @ py_str ty @ '')''
         @ (if py_true desc then '' ('' @ py_str desc @ '')'' else []))"

text \<open>The type error of one argument, if any; a type that is a list or an object cannot be looked up.\<close>

definition field_error :: "schema \<Rightarrow> string \<times> pyval \<Rightarrow> exc + string list" where
  "field_error sc arg =
     (case dict_get (sc_properties sc) (fst arg) of
        None \<Rightarrow> Inr []
      | Some fs \<Rightarrow>
          (let ty = (case dict_get fs ''type'' of None \<Rightarrow> PNone | Some v \<Rightarrow> v) in
           if \<not> py_true ty then Inr []
           else case ty of
                  PStr t \<Rightarrow>
                    (case map_of schema_types t of
                       None \<Rightarrow> Inr []
                     | Some ok \<Rightarrow>
                         Inr (if ok (snd arg) then []
                              else [''Field '' @ quoted (fst arg) @ '' expected type '' @ quoted t @ '', got ''
                                    @ quoted (py_type_name (snd arg))]))
                | PList xs \<Rightarrow> Inl (type_error (''unhashable type: '' @ quoted ''list''))
                | PDict d \<Rightarrow> Inl (type_error (''unhashable type: '' @ quoted ''dict''))
                | _ \<Rightarrow> Inr []))"

fun field_errors :: "schema \<Rightarrow> pyval dict \<Rightarrow> exc + string list" where
  "field_errors sc [] = Inr []"
| "field_errors sc (a # as) =
     (case field_error sc a of
        Inl e \<Rightarrow> Inl e
      | Inr xs \<Rightarrow> (case field_errors sc as of Inl e \<Rightarrow> Inl e | Inr ys \<Rightarrow> Inr (xs @ ys)))"

text \<open>The arguments as an object; what is no object raises.\<close>

definition arguments_dict :: "schema \<Rightarrow> pyval \<Rightarrow> exc + pyval dict" where
  "arguments_dict sc v =
     (case v of
        PDict d \<Rightarrow> Inr d
      | _ \<Rightarrow>
          (if \<not> py_true v then Inr []
           else if sc_required sc \<noteq> [] \<and> (case v of PList xs \<Rightarrow> False | PStr s \<Rightarrow> False | _ \<Rightarrow> True)
             then Inl (type_error (''argument of type '' @ quoted (py_type_name v) @ '' is not iterable''))
           else Inl (PyError ''AttributeError'' False
             (quoted (py_type_name v) @ '' object has no attribute '' @ quoted ''items''))))"

definition validate_tool_arguments :: "tool \<Rightarrow> pyval \<Rightarrow> exc + string option" where
  "validate_tool_arguments t v =
     (case to_schema t of
        None \<Rightarrow> Inr None
      | Some sc \<Rightarrow>
          (case arguments_dict sc v of
             Inl e \<Rightarrow> Inl e
           | Inr args \<Rightarrow>
               (case field_errors sc args of
                  Inl e \<Rightarrow> Inl e
                | Inr types \<Rightarrow>
                    (let errors = map (missing_field sc) (filter (\<lambda>f. \<not> dict_has args f) (sc_required sc)) @ types in
                     Inr (if errors = [] then None
                          else Some (''Validation error for tool '' @ quoted (to_name t) @ '': '' @ py_join ''; '' errors
                            @ ''. Please fix the arguments and try again.''))))))"

definition failed_result :: "string \<Rightarrow> tool_result" where
  "failed_result msg = \<lparr>tr_success = False, tr_output = PStr msg\<rparr>"

definition tell_call_end :: "call \<Rightarrow> string \<Rightarrow> string \<Rightarrow> 'w session \<Rightarrow> 'w session" where
  "tell_call_end c key text S = tell ''agent:tool_call_end'' [(''call_id'', PStr (tc_id c)), (key, PStr text)] S"

definition tell_output :: "call \<Rightarrow> string \<Rightarrow> 'w session \<Rightarrow> 'w session" where
  "tell_output c text S =
     tell ''agent:tool_call_output_delta''
       [(''tool_name'', PStr (tc_name c)), (''tool_call_id'', PStr (tc_id c)), (''delta'', PStr text), (''is_final'', PBool True)] S"

definition tool_failed_result :: "call \<Rightarrow> exc \<Rightarrow> 'w session \<Rightarrow> (exc + tool_result) \<times> 'w session" where
  "tool_failed_result c e S =
     (if is_cancellation e then (Inl e, S)
      else let msg = ''Tool error ('' @ tc_name c @ ''): '' @ exc_str e in
           (Inr (failed_result msg), tell_call_end c ''error'' msg (tell_output c msg S)))"

text \<open>The \<open>try\<close> of a tool's run: the tool, the hook that may change what the model sees, and the events with
  the full output.\<close>

definition run_known_tool :: "'w aenv \<Rightarrow> call \<Rightarrow> 'w session \<Rightarrow> (exc + tool_result) \<times> 'w session" where
  "run_known_tool E c S =
     (let (res, p, w) = ae_run_tool E c (se_world S); S1 = receive p w S in
      case res of
        Inl e \<Rightarrow> tool_failed_result c e S1
      | Inr r \<Rightarrow>
          (let raw = ae_serialize E r; (post, w2) = ae_tool_post E c raw (se_world S1);
               S2 = (tell ''tool:post'' [(''tool_name'', PStr (tc_name c)), (''tool_input'', tc_arguments c),
                       (''result'', PStr raw), (''call_id'', PStr (tc_id c))] S1)\<lparr>se_world := w2\<rparr>
           in case post of
                Inl e \<Rightarrow> tool_failed_result c e S2
              | Inr modified \<Rightarrow>
                  (Inr \<lparr>tr_success = tr_success r,
                        tr_output = PStr (case modified of PStr s \<Rightarrow> s | _ \<Rightarrow> raw)\<rparr>,
                   tell_call_end c ''output'' raw (tell_output c raw S2))))"

definition execute_single_tool :: "'w aenv \<Rightarrow> call \<Rightarrow> 'w session \<Rightarrow> (exc + tool_result) \<times> 'w session" where
  "execute_single_tool E c S =
     (let S1 = tell ''agent:tool_call_start'' [(''tool_name'', PStr (tc_name c)), (''call_id'', PStr (tc_id c))]
            (tell ''tool:pre'' [(''tool_name'', PStr (tc_name c)), (''tool_input'', tc_arguments c)] S) in
      case registry_get_tool (ae_tools E) (tc_name c) of
        None \<Rightarrow>
          (let msg = ''Unknown tool: '' @ tc_name c in (Inr (failed_result msg), tell_call_end c ''error'' msg S1))
      | Some t \<Rightarrow>
          (case validate_tool_arguments t (tc_arguments c) of
             Inl e \<Rightarrow> (Inl e, S1)
           | Inr (Some msg) \<Rightarrow> (Inr (failed_result msg), tell_call_end c ''error'' msg S1)
           | Inr None \<Rightarrow> run_known_tool E c S1))"

text \<open>All calls, in parallel: the results, and the first exception. One after the other: the first exception
  stops the batch.\<close>

fun run_all :: "'w aenv \<Rightarrow> call list \<Rightarrow> 'w session \<Rightarrow> (exc + tool_result list) \<times> 'w session" where
  "run_all E [] S = (Inr [], S)"
| "run_all E (c # cs) S =
     (let (res, S1) = execute_single_tool E c S; (rest, S2) = run_all E cs S1
      in (case res of
            Inl e \<Rightarrow> Inl e
          | Inr r \<Rightarrow> (case rest of Inl e \<Rightarrow> Inl e | Inr rs \<Rightarrow> Inr (r # rs)), S2))"

fun run_in_turn :: "'w aenv \<Rightarrow> call list \<Rightarrow> 'w session \<Rightarrow> (exc + tool_result list) \<times> 'w session" where
  "run_in_turn E [] S = (Inr [], S)"
| "run_in_turn E (c # cs) S =
     (case execute_single_tool E c S of
        (Inl e, S1) \<Rightarrow> (Inl e, S1)
      | (Inr r, S1) \<Rightarrow>
          (case run_in_turn E cs S1 of
             (Inl e, S2) \<Rightarrow> (Inl e, S2)
           | (Inr rs, S2) \<Rightarrow> (Inr (r # rs), S2)))"

definition execute_tool_calls :: "'w aenv \<Rightarrow> call list \<Rightarrow> 'w session \<Rightarrow> (exc + tool_result list) \<times> 'w session" where
  "execute_tool_calls E calls S =
     (if cf_parallel (ae_config E) \<and> length calls > 1
      then (case run_all E calls S of
              (Inl e, S1) \<Rightarrow>
                (if is_cancellation e
                 then (Inr (map (\<lambda>_. failed_result ''Tool execution was cancelled by user'') calls), S1)
                 else (Inl e, S1))
            | (Inr rs, S1) \<Rightarrow> (Inr rs, S1))
      else run_in_turn E calls S)"

end
