(* ===== verification/Agent_Loop.thy ===== *)
theory Agent_Loop
  imports Agent_Session
begin

text \<open>
  The loop of \<open>AgentSession.process_input\<close>, its follow-ups, \<open>resume_with_input\<close> and \<open>shutdown\<close>
  (\<open>agent_session.py\<close>), on the operations of \<open>Agent_Session\<close>.
\<close>

section \<open>Cross-node history\<close>

definition seeded_content :: "pyval dict \<Rightarrow> string" where
  "seeded_content m = (case dict_get m ''content'' of None \<Rightarrow> [] | Some v \<Rightarrow> py_str v)"

definition seeded_turn :: "pyval \<Rightarrow> turn option" where
  "seeded_turn v =
     (case v of
        PDict m \<Rightarrow>
          (if dict_get m ''role'' = Some (PStr ''user'') then Some (UserTurn (seeded_content m))
           else if dict_get m ''role'' = Some (PStr ''assistant'')
             then Some (AssistantTurn (plain_assistant (seeded_content m)))
           else None)
      | _ \<Rightarrow> None)"

definition hydrate_history_from_context :: "'w aenv \<Rightarrow> 'w session \<Rightarrow> exc option \<times> 'w session" where
  "hydrate_history_from_context E S =
     (if se_hydrated S then (None, S)
      else let S1 = S\<lparr>se_hydrated := True\<rparr> in
           case ae_get_messages E of
             None \<Rightarrow> (None, S1)
           | Some get \<Rightarrow>
               (let (res, w) = get (se_world S1); S2 = S1\<lparr>se_world := w\<rparr> in
                case res of
                  Inl e \<Rightarrow> (if is_cancellation e then Some e else None, S2)
                | Inr (PList ms) \<Rightarrow>
                    (None, foldl (\<lambda>T v. case seeded_turn v of None \<Rightarrow> T | Some t \<Rightarrow> add_turn t T) S2 ms)
                | Inr v \<Rightarrow> (None, S2)))"

section \<open>One round\<close>

text \<open>How a round goes on: an exception, an end whose text goes to the follow-ups, an end that waits for the
  user, the turn limit, or another round with the last text so far.\<close>

datatype 'w step =
    Raised exc "'w session"
  | Finished string "'w session"
  | Waits string "'w session"
  | Stops "'w session"
  | Continues string "'w session"

definition fire :: "string \<Rightarrow> 'w session \<Rightarrow> ('w session \<Rightarrow> 'w step) \<Rightarrow> 'w step" where
  "fire trigger S k =
     (case transition trigger (se_state S) of Inl e \<Rightarrow> Raised e S | Inr s \<Rightarrow> k (S\<lparr>se_state := s\<rparr>))"

definition cancel_round :: "string \<Rightarrow> 'w session \<Rightarrow> 'w step" where
  "cancel_round last_text S =
     fire ''complete'' (S\<lparr>se_reason := ''cancelled'', se_cancel_count := se_cancel_count S + 1\<rparr>)
       (\<lambda>T. Finished last_text (end_session T))"

definition at_turn_limit :: "'w aenv \<Rightarrow> 'w session \<Rightarrow> bool" where
  "at_turn_limit E S =
     (cf_max_turns (ae_config E) > 0 \<and> int (length (se_history S)) \<ge> cf_max_turns (ae_config E))"

definition stop_at_turn_limit :: "'w session \<Rightarrow> 'w step" where
  "stop_at_turn_limit S =
     Stops (tell ''agent:turn_limit'' [(''total_turns'', PInt (int (length (se_history S))))]
       (S\<lparr>se_reason := ''max_turns''\<rparr>))"

definition tell_provider_error :: "llm_error \<Rightarrow> 'w session \<Rightarrow> 'w session" where
  "tell_provider_error l S =
     tell ''provider:error''
       [(''error'', PStr (le_message l)), (''retryable'', PBool (le_retryable l)), (''status_code'', le_status_code l),
        (''provider'', le_provider l)] S"

definition tell_error :: "string \<Rightarrow> 'w session \<Rightarrow> 'w session" where
  "tell_error msg S = tell ''agent:error'' [(''error'', PStr msg)] S"

definition llm_exc :: "llm_error \<Rightarrow> exc" where
  "llm_exc l = PyError ''LLMError'' False (le_message l)"

definition close_failed :: "exc \<Rightarrow> 'w session \<Rightarrow> 'w step" where
  "close_failed e S = fire ''fatal_error'' S (\<lambda>T. Raised e (end_session T))"

text \<open>The three \<open>except\<close> clauses around the provider.\<close>

fun provider_failed :: "string \<Rightarrow> call_error \<Rightarrow> 'w session \<Rightarrow> 'w step" where
  "provider_failed last_text (Context_Length l) S =
     fire ''complete''
       (tell ''agent:context_warning'' [(''message'', PStr (le_message l)), (''context_length_exceeded'', PBool True)]
         (tell_error (le_message l) (tell_provider_error l (S\<lparr>se_reason := ''context_limit''\<rparr>))))
       (\<lambda>T. Finished last_text T)"
| "provider_failed last_text (Llm_Error l) S =
     (let S1 = tell_error (le_message l) (tell_provider_error l S) in
      if le_retryable l then Raised (llm_exc l) S1 else close_failed (llm_exc l) S1)"
| "provider_failed last_text (Other_Error e) S =
     (if is_cancellation e then Raised e S else close_failed e (tell_error (exc_str e) S))"

definition looks_like_question :: "string \<Rightarrow> bool" where
  "looks_like_question text =
     (if py_strip text = [] then False
      else case find (\<lambda>line. py_strip line \<noteq> [] \<and> \<not> startswith ''```'' (py_strip line))
                  (rev (py_split [CHR 0x0A] (py_rstrip text))) of
             None \<Rightarrow> False | Some line \<Rightarrow> endswith ''?'' (py_strip line))"

definition check_loop_detection :: "'w aenv \<Rightarrow> 'w session \<Rightarrow> 'w session" where
  "check_loop_detection E S =
     (if \<not> cf_loop_detection (ae_config E) then S
      else case check_loop (cf_window (ae_config E)) (se_signatures S) of
             None \<Rightarrow> S
           | Some warning \<Rightarrow>
               (tell ''agent:loop_detection'' [(''warning'', PStr warning)] (add_turn (SteeringTurn warning) S))
                 \<lparr>se_signatures := []\<rparr>)"

definition record_calls :: "'w aenv \<Rightarrow> call list \<Rightarrow> 'w session \<Rightarrow> 'w session" where
  "record_calls E calls S =
     (if \<not> cf_loop_detection (ae_config E) then S
      else S\<lparr>se_signatures := foldl (\<lambda>q c. record_call (ae_md5 E) (cf_window (ae_config E)) (tc_name c) (tc_arguments c) q)
               (se_signatures S) calls\<rparr>)"

text \<open>The tool batch of a round, its results, the steering messages and the loop check.\<close>

definition tool_round :: "'w aenv \<Rightarrow> string \<Rightarrow> call list \<Rightarrow> 'w session \<Rightarrow> 'w step" where
  "tool_round E last_text calls S =
     (case execute_tool_calls E calls S of
        (Inl e, S1) \<Rightarrow> Raised e S1
      | (Inr results, S1) \<Rightarrow>
          Continues last_text
            (check_loop_detection E (drain_steering (record_calls E calls (add_turn (ToolResultsTurn results) S1)))))"

definition tell_thinking :: "call_result \<Rightarrow> 'w session \<Rightarrow> 'w session" where
  "tell_thinking r S =
     (if \<not> str_true (cr_reasoning r) then S
      else tell ''content_block:end''
             [(''block_index'', PInt 0), (''total_blocks'', PInt 1),
              (''block'', PDict [(''type'', PStr ''thinking''), (''thinking'', PStr (the (cr_reasoning r)))]),
              (''usage'', cr_usage_data r)]
             (tell ''content_block:start'' [(''block_type'', PStr ''thinking''), (''block_index'', PInt 0)] S))"

definition assistant_of :: "call_result \<Rightarrow> assistant" where
  "assistant_of r =
     \<lparr>as_content = cr_text r, as_calls = cr_calls r, as_reasoning = cr_reasoning r, as_signature = cr_signature r,
      as_usage = cr_usage r, as_response_id = cr_response_id r\<rparr>"

text \<open>A turn without tool calls ends the invocation, or waits when it looks like a question.\<close>

definition natural_end :: "'w aenv \<Rightarrow> string \<Rightarrow> 'w session \<Rightarrow> 'w step" where
  "natural_end E text S =
     (if looks_like_question text
      then fire ''await_input'' (S\<lparr>se_reason := ''awaiting_input''\<rparr>)
             (\<lambda>T. Waits text (tell ''agent:awaiting_input''
                [(''text'', PStr text), (''session_id'', PStr (ae_session_id E))] T))
      else fire ''complete'' S (\<lambda>T. Finished text T))"

definition respond :: "'w aenv \<Rightarrow> string \<Rightarrow> call_result \<Rightarrow> 'w session \<Rightarrow> 'w step" where
  "respond E last_text r S =
     (case check_context_usage E
             (tell_thinking r (tell ''provider:response'' ((''usage'', cr_usage_data r) # provider_identity E) S)) of
        (Some e, S1) \<Rightarrow> Raised e S1
      | (None, S1) \<Rightarrow>
          (let S2 = add_turn (AssistantTurn (assistant_of r)) S1;
               S3 = (if ae_streaming E then S2
                     else tell ''agent:assistant_text_end'' (text_end (cr_text r) (cr_reasoning r)) S2)
           in if cr_calls r = [] then natural_end E (cr_text r) S3
              else tool_round E (if cr_text r \<noteq> [] then cr_text r else last_text) (cr_calls r) S3))"

definition ask_provider :: "'w aenv \<Rightarrow> string \<Rightarrow> message list \<Rightarrow> 'w session \<Rightarrow> 'w step" where
  "ask_provider E last_text messages S =
     (let rq = \<lparr>rq_messages = messages, rq_tools = get_tool_definitions E,
                rq_reasoning_effort = cf_reasoning_effort (ae_config E)\<rparr>;
          S1 = tell ''provider:request'' (provider_identity E) S;
          S2 = S1\<lparr>se_call_count := se_call_count S1 + 1, se_requests := se_requests S1 @ [messages]\<rparr>
      in case call_provider E rq S2 of
           (Inl err, S3) \<Rightarrow> provider_failed last_text err S3
         | (Inr r, S3) \<Rightarrow>
             (if ae_immediate E (se_world S3) then cancel_round last_text S3 else respond E last_text r S3))"

definition turn_round :: "'w aenv \<Rightarrow> string \<Rightarrow> 'w session \<Rightarrow> 'w step" where
  "turn_round E last_text S =
     (if ae_cancelled E (se_world S) then cancel_round last_text S
      else if at_turn_limit E S then stop_at_turn_limit S
      else case conversation E S of
             Inl e \<Rightarrow> Raised e S | Inr messages \<Rightarrow> ask_provider E last_text messages S)"

section \<open>Processing input\<close>

text \<open>From the call to the first round.\<close>

definition begin_input :: "'w aenv \<Rightarrow> string \<Rightarrow> 'w session \<Rightarrow> exc option \<times> 'w session" where
  "begin_input E prompt S =
     (case hydrate_history_from_context E S of
        (Some e, S1) \<Rightarrow> (Some e, S1)
      | (None, S1) \<Rightarrow>
          (let S2 = S1\<lparr>se_reason := ''natural''\<rparr>;
               S3 = (if se_started S2 then S2
                     else tell ''agent:session_start'' [(''session_id'', PStr (ae_session_id E))]
                            (S2\<lparr>se_started := True\<rparr>))
           in case transition ''submit'' (se_state S3) of
                Inl e \<Rightarrow> (Some e, S3)
              | Inr s \<Rightarrow>
                  (None, drain_steering (tell ''agent:user_input'' [(''content'', PStr prompt)]
                     (add_turn (UserTurn prompt) (S3\<lparr>se_state := s\<rparr>))))))"

definition rounds_left :: "'w aenv \<Rightarrow> nat \<Rightarrow> bool" where
  "rounds_left E n = (cf_max_tool_rounds (ae_config E) \<le> 0 \<or> int n < cf_max_tool_rounds (ae_config E))"

text \<open>The code after the loop, reached by the round limit and by the turn limit alike.\<close>

definition after_loop :: "nat \<Rightarrow> 'w session \<Rightarrow> exc option \<times> 'w session" where
  "after_loop n S =
     (let S1 = tell ''agent:turn_limit'' [(''round_count'', PInt (int n))] (S\<lparr>se_reason := ''tool_round_limit''\<rparr>) in
      case transition ''complete'' (se_state S1) of
        Inl e \<Rightarrow> (Some e, S1) | Inr s \<Rightarrow> (None, S1\<lparr>se_state := s\<rparr>))"

definition leave_follow_ups :: "'w session \<Rightarrow> 'w session" where
  "leave_follow_ups S = S\<lparr>se_follow_up_depth := se_follow_up_depth S - 1\<rparr>"

fun process_input :: "nat \<Rightarrow> 'w aenv \<Rightarrow> string \<Rightarrow> 'w session \<Rightarrow> ((exc + string) \<times> 'w session) option"
and input_loop :: "nat \<Rightarrow> 'w aenv \<Rightarrow> nat \<Rightarrow> string \<Rightarrow> 'w session \<Rightarrow> ((exc + string) \<times> 'w session) option"
and process_follow_ups :: "nat \<Rightarrow> 'w aenv \<Rightarrow> string \<Rightarrow> 'w session \<Rightarrow> ((exc + string) \<times> 'w session) option"
where
  "process_input 0 E prompt S = None"
| "process_input (Suc f) E prompt S =
     (case begin_input E prompt S of
        (Some e, S1) \<Rightarrow> Some (Inl e, S1)
      | (None, S1) \<Rightarrow> input_loop f E 0 [] S1)"
| "input_loop 0 E n last_text S = None"
| "input_loop (Suc f) E n last_text S =
     (case (if rounds_left E n then turn_round E last_text S else Stops S) of
        Raised e S1 \<Rightarrow> Some (Inl e, S1)
      | Waits text S1 \<Rightarrow> Some (Inr text, S1)
      | Continues text S1 \<Rightarrow> input_loop f E (n + 1) text S1
      | Finished text S1 \<Rightarrow>
          process_follow_ups f E text (S1\<lparr>se_follow_up_depth := se_follow_up_depth S1 + 1\<rparr>)
      | Stops S1 \<Rightarrow>
          (case after_loop n S1 of
             (Some e, S2) \<Rightarrow> Some (Inl e, S2)
           | (None, S2) \<Rightarrow>
               process_follow_ups f E last_text (S2\<lparr>se_follow_up_depth := se_follow_up_depth S2 + 1\<rparr>)))"
| "process_follow_ups 0 E result S = None"
| "process_follow_ups (Suc f) E result S =
     (let (next, rest) = drain_one (se_follow_ups S); S1 = S\<lparr>se_follow_ups := rest\<rparr> in
      case next of
        None \<Rightarrow>
          (let S2 = leave_follow_ups S1 in
           Some (Inr result, if se_follow_up_depth S2 = 0 then end_session S2 else S2))
      | Some m \<Rightarrow>
          (case process_input f E m S1 of
             None \<Rightarrow> None
           | Some (Inl e, S2) \<Rightarrow> Some (Inl e, leave_follow_ups S2)
           | Some (Inr text, S2) \<Rightarrow> process_follow_ups f E text S2))"

definition resume_with_input :: "nat \<Rightarrow> 'w aenv \<Rightarrow> string \<Rightarrow> 'w session \<Rightarrow> ((exc + string) \<times> 'w session) option" where
  "resume_with_input f E answer S =
     (case transition ''resume_input'' (se_state S) of
        Inl e \<Rightarrow> Some (Inl e, S)
      | Inr s \<Rightarrow>
          (case transition ''complete'' s of
             Inl e \<Rightarrow> Some (Inl e, S\<lparr>se_state := s\<rparr>)
           | Inr s' \<Rightarrow> process_input f E answer (S\<lparr>se_state := s'\<rparr>)))"

section \<open>Shutdown\<close>

definition register_process :: "nat \<Rightarrow> 'w session \<Rightarrow> 'w session" where
  "register_process pid S = S\<lparr>se_processes := List.insert pid (se_processes S)\<rparr>"

definition unregister_process :: "nat \<Rightarrow> 'w session \<Rightarrow> 'w session" where
  "unregister_process pid S = S\<lparr>se_processes := filter (\<lambda>p. p \<noteq> pid) (se_processes S)\<rparr>"

definition terminate_process :: "'w aenv \<Rightarrow> rat \<Rightarrow> nat \<Rightarrow> 'w \<Rightarrow> 'w" where
  "terminate_process E timeout pid w =
     (if ae_returncode E pid w \<noteq> None then w
      else let (sent, w1) = ae_terminate E pid w in
           if \<not> sent then w1
           else let (ended, w2) = ae_wait E pid timeout w1 in if ended then w2 else ae_kill E pid w2)"

definition terminate_tracked_processes :: "'w aenv \<Rightarrow> rat \<Rightarrow> 'w session \<Rightarrow> 'w session" where
  "terminate_tracked_processes E timeout S =
     S\<lparr>se_processes := [], se_world := foldl (\<lambda>w pid. terminate_process E timeout pid w) (se_world S) (se_processes S)\<rparr>"

definition default_process_timeout :: rat where
  "default_process_timeout = 2"

definition shutdown :: "'w aenv \<Rightarrow> rat option \<Rightarrow> 'w session \<Rightarrow> exc option \<times> 'w session" where
  "shutdown E process_timeout S =
     (if se_state S = CLOSED then (None, S)
      else let S1 = terminate_tracked_processes E
                 (case process_timeout of None \<Rightarrow> default_process_timeout | Some t \<Rightarrow> t) S;
               trigger = (if se_state S1 = PROCESSING then ''fatal_error''
                          else if se_state S1 = AWAITING_INPUT then ''abort'' else ''close'')
           in case transition trigger (se_state S1) of
                Inl e \<Rightarrow> (Some e, S1) | Inr s \<Rightarrow> (None, end_session (S1\<lparr>se_state := s\<rparr>)))"

end
