(* ===== verification/Agent_Facts.thy ===== *)
theory Agent_Facts
  imports Agent_Loop
begin

text \<open>
  Facts about the agent session: what each operation leaves alone, the pairing of tool calls and
  results in the history and in the requests, the induction rule for \<open>process_input\<close> with its loop and its follow-ups,
  as the locale \<open>session_invariant\<close>, and the bound on its fuel.
\<close>

section \<open>Frames\<close>

text \<open>An environment in which the host posts no follow-up while the session waits.\<close>

definition silent :: "'w aenv \<Rightarrow> bool" where
  "silent E =
     ((\<forall>rq w. po_follow_ups (fst (snd (ae_complete E rq w))) = [])
      \<and> (\<forall>rq w. po_follow_ups (fst (snd (ae_stream E rq w))) = [])
      \<and> (\<forall>c w. po_follow_ups (fst (snd (ae_run_tool E c w))) = []))"

text \<open>What all operations but those of the loop itself keep; \<open>kept\<close> keeps the history as well.\<close>

definition carried :: "'w aenv \<Rightarrow> 'w session \<Rightarrow> 'w session \<Rightarrow> bool" where
  "carried E S T =
     (se_state T = se_state S \<and> se_call_count T = se_call_count S \<and> se_requests T = se_requests S
      \<and> se_hydrated T = se_hydrated S \<and> se_reason T = se_reason S \<and> se_follow_up_depth T = se_follow_up_depth S
      \<and> (silent E \<longrightarrow> se_follow_ups T = se_follow_ups S))"

definition kept :: "'w aenv \<Rightarrow> 'w session \<Rightarrow> 'w session \<Rightarrow> bool" where
  "kept E S T = (carried E S T \<and> se_history T = se_history S)"

lemma carried_refl [simp]: "carried E S S" and kept_refl [simp]: "kept E S S"
  by (simp_all add: carried_def kept_def)

lemma carried_trans: "carried E A B \<Longrightarrow> carried E B C \<Longrightarrow> carried E A C"
  and kept_trans: "kept E A B \<Longrightarrow> kept E B C \<Longrightarrow> kept E A C"
  by (auto simp: carried_def kept_def)

lemma kept_carried: "kept E A B \<Longrightarrow> carried E A B"
  by (simp add: kept_def)

lemma tell_simps [simp]:
  "se_state (tell n p S) = se_state S" "se_history (tell n p S) = se_history S"
  "se_call_count (tell n p S) = se_call_count S" "se_requests (tell n p S) = se_requests S"
  "se_hydrated (tell n p S) = se_hydrated S" "se_reason (tell n p S) = se_reason S"
  "se_follow_up_depth (tell n p S) = se_follow_up_depth S" "se_follow_ups (tell n p S) = se_follow_ups S"
  "se_steering (tell n p S) = se_steering S" "se_world (tell n p S) = se_world S" "se_started (tell n p S) = se_started S"
  "se_signatures (tell n p S) = se_signatures S"
  by (simp_all add: tell_def)

lemma add_turn_simps [simp]:
  "se_state (add_turn t S) = se_state S" "se_history (add_turn t S) = se_history S @ [t]"
  "se_call_count (add_turn t S) = se_call_count S" "se_requests (add_turn t S) = se_requests S"
  "se_hydrated (add_turn t S) = se_hydrated S" "se_reason (add_turn t S) = se_reason S"
  "se_follow_up_depth (add_turn t S) = se_follow_up_depth S" "se_follow_ups (add_turn t S) = se_follow_ups S"
  "se_world (add_turn t S) = se_world S" "se_steering (add_turn t S) = se_steering S"
  by (simp_all add: add_turn_def)

lemma kept_tell [simp]: "kept E S (tell n p S)"
  by (simp add: kept_def carried_def)

lemma carried_add_turn [simp]: "carried E S (add_turn t S)"
  by (simp add: carried_def)

lemma end_session_simps [simp]:
  "se_state (end_session S) = se_state S" "se_history (end_session S) = se_history S"
  "se_call_count (end_session S) = se_call_count S" "se_requests (end_session S) = se_requests S"
  "se_hydrated (end_session S) = se_hydrated S" "se_reason (end_session S) = se_reason S"
  "se_follow_up_depth (end_session S) = se_follow_up_depth S" "se_follow_ups (end_session S) = se_follow_ups S"
  by (simp_all add: end_session_def)

lemma kept_receive: "silent E \<longrightarrow> po_follow_ups p = [] \<Longrightarrow> kept E S (receive p w S)"
  by (simp add: kept_def carried_def receive_def)

definition steering_only :: "turn list \<Rightarrow> bool" where
  "steering_only ts = list_all (\<lambda>t. case t of SteeringTurn s \<Rightarrow> True | _ \<Rightarrow> False) ts"

lemma drain_steering_facts:
  "carried E S (drain_steering S)
   \<and> (\<exists>ts. se_history (drain_steering S) = se_history S @ ts \<and> steering_only ts)"
proof -
  have "carried E A (foldl (\<lambda>T m. tell ''agent:steering_injected'' [(''content'', PStr m)] (add_turn (SteeringTurn m) T)) A ms)
      \<and> se_history (foldl (\<lambda>T m. tell ''agent:steering_injected'' [(''content'', PStr m)] (add_turn (SteeringTurn m) T)) A ms)
        = se_history A @ map SteeringTurn ms" for A and ms :: "string list"
  proof (induction ms arbitrary: A)
    case (Cons m ms)
    show ?case
      using Cons.IH [of "tell ''agent:steering_injected'' [(''content'', PStr m)] (add_turn (SteeringTurn m) A)"]
      by (auto simp: carried_def)
  qed simp
  note k = this [of "S\<lparr>se_steering := []\<rparr>" "se_steering S"]
  have "steering_only (map SteeringTurn ms)" for ms by (induction ms) (auto simp: steering_only_def)
  then show ?thesis using k by (auto simp: drain_steering_def drain_all_def carried_def)
qed

lemma call_provider_kept:
  assumes "call_provider E rq S = (r, T)"
  shows "kept E S T"
proof (cases "ae_streaming E")
  case False
  obtain res p w where c: "ae_complete E rq (se_world S) = (res, p, w)" by (rule prod_cases3)
  then have "silent E \<longrightarrow> po_follow_ups p = []" unfolding silent_def by (metis fst_conv snd_conv)
  then have "kept E S (receive p w S)" by (rule kept_receive)
  then show ?thesis
    using assms False c by (auto simp: call_provider_def call_provider_complete_def Let_def split: sum.splits)
next
  case True
  let ?S = "tell ''agent:assistant_text_start'' [] S"
  obtain chunks failure p w where c: "ae_stream E rq (se_world ?S) = ((chunks, failure), p, w)"
    by (metis prod_cases3 surj_pair)
  then have q: "silent E \<longrightarrow> po_follow_ups p = []" unfolding silent_def by (metis fst_conv snd_conv)
  have "kept E A (foldl tell_delta A cs)" for A cs
  proof (induction cs arbitrary: A)
    case (Cons x cs)
    have "kept E A (tell_delta A x)" by (simp add: tell_delta_def)
    then show ?case using Cons.IH kept_trans by fastforce
  qed simp
  then have "kept E S (foldl tell_delta (receive p w ?S) chunks)"
    using kept_trans [OF kept_tell kept_trans [OF kept_receive [OF q]]] by blast
  then show ?thesis
    using assms True c kept_trans [OF _ kept_tell]
    by (auto simp: call_provider_def call_provider_streaming_def Let_def split: option.splits)
qed

lemma check_context_usage_kept: "check_context_usage E S = (r, T) \<Longrightarrow> kept E S T"
  by (auto simp: check_context_usage_def Let_def split: if_splits sum.splits)

lemma tool_failed_result_kept: "tool_failed_result c e S = (r, T) \<Longrightarrow> kept E S T"
  by (auto simp: tool_failed_result_def tell_call_end_def tell_output_def Let_def kept_def carried_def split: if_splits)

lemma run_known_tool_kept: "run_known_tool E c S = (r, T) \<Longrightarrow> kept E S T"
proof -
  assume a: "run_known_tool E c S = (r, T)"
  obtain res p w where t: "ae_run_tool E c (se_world S) = (res, p, w)" by (rule prod_cases3)
  then have q: "silent E \<longrightarrow> po_follow_ups p = []" unfolding silent_def by (metis fst_conv snd_conv)
  have k: "kept E S (receive p w S)" using kept_receive [OF q] .
  show "kept E S T"
  proof (cases res)
    case (Inl e)
    then have "tool_failed_result c e (receive p w S) = (r, T)" using a t by (simp add: run_known_tool_def)
    then show ?thesis using kept_trans [OF k tool_failed_result_kept] by blast
  next
    case (Inr x)
    obtain post w2 where p2: "ae_tool_post E c (ae_serialize E x) (se_world (receive p w S)) = (post, w2)" by force
    let ?S2 = "(tell ''tool:post'' [(''tool_name'', PStr (tc_name c)), (''tool_input'', tc_arguments c),
        (''result'', PStr (ae_serialize E x)), (''call_id'', PStr (tc_id c))] (receive p w S))\<lparr>se_world := w2\<rparr>"
    have k2: "kept E S ?S2" using k by (simp add: kept_def carried_def)
    show ?thesis
    proof (cases post)
      case (Inl e)
      then have "tool_failed_result c e ?S2 = (r, T)" using a t p2 Inr by (simp add: run_known_tool_def Let_def)
      then show ?thesis using kept_trans [OF k2 tool_failed_result_kept] by blast
    next
      case y: (Inr y)
      then show ?thesis
        using a t p2 Inr k2
        by (auto simp: run_known_tool_def Let_def tell_call_end_def tell_output_def kept_def carried_def)
    qed
  qed
qed

lemma execute_single_tool_kept: "execute_single_tool E c S = (r, T) \<Longrightarrow> kept E S T"
proof -
  assume a: "execute_single_tool E c S = (r, T)"
  let ?S = "tell ''agent:tool_call_start'' [(''tool_name'', PStr (tc_name c)), (''call_id'', PStr (tc_id c))]
      (tell ''tool:pre'' [(''tool_name'', PStr (tc_name c)), (''tool_input'', tc_arguments c)] S)"
  have k: "kept E S ?S" by (simp add: kept_def carried_def)
  then have "kept E S U" if "kept E ?S U" for U using that kept_trans by blast
  then show ?thesis
    using a k
    by (auto simp: execute_single_tool_def Let_def tell_call_end_def dest: run_known_tool_kept
        split: option.splits sum.splits)
qed

lemma run_all_facts:
  "run_all E cs S = (r, T) \<Longrightarrow> kept E S T \<and> (\<forall>rs. r = Inr rs \<longrightarrow> length rs = length cs)"
proof (induction cs arbitrary: S r T)
  case (Cons c cs)
  obtain x S1 where x: "execute_single_tool E c S = (x, S1)" by force
  obtain y S2 where y: "run_all E cs S1 = (y, S2)" by force
  show ?case
    using Cons.prems x y Cons.IH [OF y] kept_trans [OF execute_single_tool_kept [OF x]]
    by (auto split: sum.splits)
qed auto

lemma run_in_turn_facts:
  "run_in_turn E cs S = (r, T) \<Longrightarrow> kept E S T \<and> (\<forall>rs. r = Inr rs \<longrightarrow> length rs = length cs)"
proof (induction cs arbitrary: S r T)
  case (Cons c cs)
  obtain x S1 where x: "execute_single_tool E c S = (x, S1)" by force
  obtain y S2 where y: "run_in_turn E cs S1 = (y, S2)" by force
  show ?case
    using Cons.prems x y Cons.IH [OF y] execute_single_tool_kept [OF x] kept_trans [OF execute_single_tool_kept [OF x]]
    by (auto split: sum.splits)
qed auto

lemma execute_tool_calls_facts:
  "execute_tool_calls E cs S = (r, T) \<Longrightarrow> kept E S T \<and> (\<forall>rs. r = Inr rs \<longrightarrow> length rs = length cs)"
  by (auto simp: execute_tool_calls_def dest: run_all_facts run_in_turn_facts split: if_splits prod.splits sum.splits)

lemma record_calls_kept [simp]: "kept E S (record_calls E' cs S)"
  by (simp add: record_calls_def kept_def carried_def)

lemma check_loop_detection_facts:
  "carried E S (check_loop_detection E' S)
   \<and> (\<exists>ts. se_history (check_loop_detection E' S) = se_history S @ ts \<and> steering_only ts)"
  by (auto simp: check_loop_detection_def carried_def steering_only_def split: option.splits)

section \<open>Pairing\<close>

text \<open>Every assistant turn with calls is followed by a turn with as many results, and results come
  nowhere else.\<close>

fun paired :: "turn list \<Rightarrow> bool" where
  "paired [] = True"
| "paired (ToolResultsTurn rs # ts) = False"
| "paired (AssistantTurn a # ts) =
     (if as_calls a = [] then paired ts
      else case ts of ToolResultsTurn rs # us \<Rightarrow> length rs = length (as_calls a) \<and> paired us | _ \<Rightarrow> False)"
| "paired (t # ts) = paired ts"

lemma paired_append: "paired xs \<Longrightarrow> paired (xs @ ys) = paired ys"
proof (induction xs rule: paired.induct)
  case (3 a ts)
  show ?case
  proof (cases "as_calls a = []")
    case True
    then show ?thesis using 3 by simp
  next
    case False
    then obtain rs us where ts: "ts = ToolResultsTurn rs # us" "length rs = length (as_calls a)" "paired us"
      using "3.prems" by (auto split: list.splits turn.splits)
    then show ?thesis using "3.IH"(2) [OF False ts(1) refl ts(3)] False by simp
  qed
qed simp_all

lemma paired_steering: "steering_only ts \<Longrightarrow> paired ts"
  by (induction ts) (auto simp: steering_only_def split: turn.splits)

text \<open>A request whose tool messages answer exactly the calls of the assistant message before them, in
  order and by their ids.\<close>

function wire_ok :: "message list \<Rightarrow> bool" where
  "wire_ok [] = True"
| "wire_ok (m # ms) =
     (ms_role m \<noteq> ''tool''
      \<and> map (\<lambda>x. (ms_role x, ms_call_id x)) (take (length (ms_calls m)) ms)
          = map (\<lambda>c. (''tool'', Some (tc_id c))) (ms_calls m)
      \<and> wire_ok (drop (length (ms_calls m)) ms))"
  by pat_completeness auto
termination by (relation "measure length") auto

lemma mk_message_simps [simp]:
  "ms_role (mk_message r c) = r" "ms_calls (mk_message r c) = []" "ms_call_id (mk_message r c) = None"
  by (simp_all add: mk_message_def)

lemma build_assistant_simps [simp]:
  "ms_role (build_assistant_message a) = ''assistant''" "ms_calls (build_assistant_message a) = as_calls a"
  by (simp_all add: build_assistant_message_def mk_message_def Let_def)

lemma tool_messages_heads:
  "length rs = length calls \<Longrightarrow>
   map (\<lambda>x. (ms_role x, ms_call_id x)) (tool_messages ser el calls rs) = map (\<lambda>c. (''tool'', Some (tc_id c))) calls"
  by (rule nth_equalityI) (auto simp: tool_messages_def tool_message_def Let_def)

lemma tool_messages_length [simp]: "length (tool_messages ser el calls rs) = length rs"
  by (simp add: tool_messages_def)

lemma convert_turns_wire: "paired ts \<Longrightarrow> wire_ok (snd (convert_turns ser keep pending k ts))"
proof (induction ts arbitrary: pending k rule: paired.induct)
  case (3 a ts)
  show ?case
  proof (cases "as_calls a = []")
    case True
    then show ?thesis using 3 by (auto simp: case_prod_beta)
  next
    case False
    then obtain rs us where ts: "ts = ToolResultsTurn rs # us" "length rs = length (as_calls a)" "paired us"
      using "3.prems" by (auto split: list.splits turn.splits)
    have "wire_ok (snd (convert_turns ser keep [] (k + 1) us))"
      using "3.IH"(2) [OF False ts(1) refl ts(3)] .
    then show ?thesis
      using False ts(2) tool_messages_heads [OF ts(2)] by (simp add: ts(1) case_prod_beta)
  qed
qed (auto simp: case_prod_beta)

lemma convert_turns_roles:
  "(\<forall>m \<in> set (fst (convert_turns ser keep pending k ts)). ms_role m = ''system'')
   \<and> (\<forall>m \<in> set (snd (convert_turns ser keep pending k ts)). ms_role m \<noteq> ''system'')"
  by (induction ts arbitrary: pending k)
    (auto simp: case_prod_beta tool_messages_def tool_message_def Let_def split: turn.splits)

lemma conversation_wire:
  assumes "conversation E S = Inr ms" "paired (se_history S)"
  shows "wire_ok ms"
proof -
  obtain sys oth where c: "convert_turns (ae_serialize E) (keep_from (cf_retention (ae_config E)) (se_history S)) [] 0
      (se_history S) = (sys, oth)" by force
  have "wire_ok oth" using convert_turns_wire [OF assms(2)] c by (metis snd_conv)
  moreover have "filter (\<lambda>m. ms_role m \<noteq> ''system'') (sys @ oth) = oth"
    using convert_turns_roles [of "ae_serialize E" "keep_from (cf_retention (ae_config E)) (se_history S)" "[]" 0 "se_history S"]
    by (simp add: c filter_id_conv)
  ultimately show ?thesis
    using assms(1) by (auto simp: conversation_def convert_history_to_messages_def c Let_def split: sum.splits)
qed

section \<open>What a round does\<close>

text \<open>\<open>same\<close>: nothing was asked. \<open>moved\<close>: the provider was asked at most once, with the conversation at the
  start of the round.\<close>

definition same :: "'w aenv \<Rightarrow> 'w session \<Rightarrow> 'w session \<Rightarrow> bool" where
  "same E S T =
     (se_call_count T = se_call_count S \<and> se_requests T = se_requests S \<and> se_hydrated T = se_hydrated S
      \<and> (silent E \<longrightarrow> se_follow_ups T = se_follow_ups S))"

definition moved :: "'w aenv \<Rightarrow> 'w session \<Rightarrow> 'w session \<Rightarrow> bool" where
  "moved E S T =
     ((se_requests T = se_requests S \<and> se_call_count T = se_call_count S
       \<or> (\<exists>ms. conversation E S = Inr ms \<and> se_requests T = se_requests S @ [ms] \<and> se_call_count T = se_call_count S + 1))
      \<and> se_hydrated T = se_hydrated S \<and> (silent E \<longrightarrow> se_follow_ups T = se_follow_ups S))"

definition effect :: "('w session \<Rightarrow> 'w session \<Rightarrow> bool) \<Rightarrow> 'w session \<Rightarrow> 'w step \<Rightarrow> bool" where
  "effect R S step =
     (case step of
        Raised e T \<Rightarrow> R S T \<and> se_state T \<in> {PROCESSING, CLOSED} \<and> se_reason T = se_reason S
      | Finished text T \<Rightarrow>
          R S T \<and> se_state T = IDLE \<and> (\<exists>ts. se_history T = se_history S @ ts \<and> paired ts)
          \<and> se_reason T \<in> {se_reason S, ''cancelled'', ''context_limit''}
      | Waits text T \<Rightarrow>
          R S T \<and> se_state T = AWAITING_INPUT \<and> (\<exists>ts. se_history T = se_history S @ ts \<and> paired ts)
          \<and> se_reason T = ''awaiting_input''
      | Stops T \<Rightarrow> R S T \<and> se_state T = PROCESSING \<and> se_history T = se_history S
      | Continues text T \<Rightarrow>
          R S T \<and> se_state T = PROCESSING \<and> (\<exists>ts. se_history T = se_history S @ ts \<and> paired ts)
          \<and> se_reason T = se_reason S)"

lemma effect_mono:
  assumes "effect (same E) A step" "\<And>T. same E A T \<Longrightarrow> R S T" "se_history A = se_history S" "se_reason A = se_reason S"
  shows "effect R S step"
  using assms by (auto simp: effect_def split: step.splits)

lemma carried_same: "carried E S T \<Longrightarrow> same E S T"
  by (simp add: carried_def same_def)

lemma transition_processing [simp]:
  "transition ''complete'' PROCESSING = Inr IDLE" "transition ''await_input'' PROCESSING = Inr AWAITING_INPUT"
  "transition ''fatal_error'' PROCESSING = Inr CLOSED"
  by (simp_all add: transition_def transitions_def)

lemma cancel_round_effect: "se_state S = PROCESSING \<Longrightarrow> effect (same E) S (cancel_round l S)"
  by (simp add: effect_def cancel_round_def fire_def same_def)

lemma provider_failed_effect: "se_state S = PROCESSING \<Longrightarrow> effect (same E) S (provider_failed l err S)"
  by (cases err)
    (simp_all add: effect_def fire_def same_def tell_error_def tell_provider_error_def close_failed_def Let_def)

lemma natural_end_effect:
  assumes "se_state A = PROCESSING" "same E S A" "se_history A = se_history S @ [AssistantTurn a]" "as_calls a = []"
    "se_reason A = se_reason S"
  shows "effect (same E) S (natural_end E text A)"
  using assms by (simp add: effect_def natural_end_def fire_def same_def)

lemma tool_round_effect:
  assumes "se_state A = PROCESSING" "same E S A" "se_history A = se_history S @ [AssistantTurn a]" "as_calls a = calls"
    "calls \<noteq> []" "se_reason A = se_reason S"
  shows "effect (same E) S (tool_round E text calls A)"
proof -
  obtain res B where x: "execute_tool_calls E calls A = (res, B)" by force
  note f = execute_tool_calls_facts [OF x]
  show ?thesis
  proof (cases res)
    case (Inl e)
    then show ?thesis using x f assms by (simp add: effect_def tool_round_def kept_def carried_def same_def)
  next
    case (Inr rs)
    define C where "C = record_calls E calls (add_turn (ToolResultsTurn rs) B)"
    have c1: "carried E A C" "se_history C = se_history S @ [AssistantTurn a, ToolResultsTurn rs]"
      using f assms(3) record_calls_kept [of E "add_turn (ToolResultsTurn rs) B" E calls]
      by (auto simp: C_def kept_def carried_def)
    obtain t1 where d: "carried E C (drain_steering C)" "se_history (drain_steering C) = se_history C @ t1" "steering_only t1"
      using drain_steering_facts [of E C] by blast
    define D where "D = check_loop_detection E (drain_steering C)"
    obtain t2 where l: "carried E (drain_steering C) D" "se_history D = se_history (drain_steering C) @ t2" "steering_only t2"
      using check_loop_detection_facts [of E "drain_steering C" E] unfolding D_def by blast
    have "carried E A D" using carried_trans [OF carried_trans [OF c1(1) d(1)] l(1)] .
    moreover have "se_history D = se_history S @ (AssistantTurn a # ToolResultsTurn rs # t1 @ t2)"
      using c1(2) d(2) l(2) by simp
    moreover have "paired (AssistantTurn a # ToolResultsTurn rs # t1 @ t2)"
      using f Inr assms(4,5) paired_append [OF paired_steering [OF d(3)], of t2] paired_steering [OF l(3)] by simp
    moreover have "tool_round E text calls A = Continues text D"
      by (simp add: tool_round_def x Inr D_def C_def)
    ultimately show ?thesis using assms(1,2,6) by (auto simp: effect_def carried_def same_def)
  qed
qed

lemma respond_effect:
  assumes "se_state S = PROCESSING"
  shows "effect (same E) S (respond E l r S)"
proof -
  let ?A = "tell_thinking r (tell ''provider:response'' ((''usage'', cr_usage_data r) # provider_identity E) S)"
  obtain x B where u: "check_context_usage E ?A = (x, B)" by force
  have k: "kept E S B"
    using kept_trans [OF _ check_context_usage_kept [OF u], of S] by (auto simp: tell_thinking_def kept_def carried_def)
  show ?thesis
  proof (cases x)
    case (Some e)
    then show ?thesis using u k assms by (simp add: respond_def effect_def kept_def carried_def same_def)
  next
    case None
    let ?C = "add_turn (AssistantTurn (assistant_of r)) B"
    define D where "D = (if ae_streaming E then ?C
       else tell ''agent:assistant_text_end'' (text_end (cr_text r) (cr_reasoning r)) ?C)"
    have d: "se_state D = PROCESSING" "same E S D" "se_history D = se_history S @ [AssistantTurn (assistant_of r)]"
        "se_reason D = se_reason S"
      using k assms by (auto simp: D_def kept_def carried_def same_def)
    have calls: "as_calls (assistant_of r) = cr_calls r" by (simp add: assistant_of_def)
    have "respond E l r S = (if cr_calls r = [] then natural_end E (cr_text r) D
        else tool_round E (if cr_text r \<noteq> [] then cr_text r else l) (cr_calls r) D)"
      by (simp add: respond_def u None D_def Let_def)
    then show ?thesis
      using natural_end_effect [OF d(1,2,3) _ d(4)] tool_round_effect [OF d(1,2,3) calls _ d(4)] calls by simp
  qed
qed

lemma turn_round_effect:
  assumes "se_state S = PROCESSING"
  shows "effect (moved E) S (turn_round E l S)"
proof -
  have still: "moved E S T" if "same E S T" for T using that by (auto simp: same_def moved_def)
  show ?thesis
  proof (cases "ae_cancelled E (se_world S)")
    case True
    then have "turn_round E l S = cancel_round l S" by (simp add: turn_round_def)
    then show ?thesis using effect_mono [OF cancel_round_effect [OF assms, of E l]] still by simp
  next
    case nc: False
    show ?thesis
    proof (cases "at_turn_limit E S")
      case True
      then show ?thesis using nc assms by (simp add: turn_round_def stop_at_turn_limit_def effect_def moved_def)
    next
      case nl: False
      show ?thesis
      proof (cases "conversation E S")
        case (Inl e)
        then show ?thesis using nc nl assms by (simp add: turn_round_def effect_def moved_def)
      next
        case (Inr ms)
        define S2 where "S2 = (let S1 = tell ''provider:request'' (provider_identity E) S
            in S1\<lparr>se_call_count := se_call_count S1 + 1, se_requests := se_requests S1 @ [ms]\<rparr>)"
        define rq where "rq = \<lparr>rq_messages = ms, rq_tools = get_tool_definitions E,
            rq_reasoning_effort = cf_reasoning_effort (ae_config E)\<rparr>"
        obtain res S3 where c: "call_provider E rq S2 = (res, S3)" by force
        have k: "kept E S2 S3" using call_provider_kept [OF c] .
        then have s3: "se_state S3 = PROCESSING" "se_history S3 = se_history S" "se_reason S3 = se_reason S"
          using assms by (simp_all add: kept_def carried_def S2_def Let_def)
        have mv: "moved E S T" if "same E S3 T" for T
          using that k Inr by (simp add: same_def moved_def kept_def carried_def S2_def Let_def)
        have step: "turn_round E l S = (case res of Inl err \<Rightarrow> provider_failed l err S3
            | Inr r \<Rightarrow> if ae_immediate E (se_world S3) then cancel_round l S3 else respond E l r S3)"
          using nc nl Inr c by (simp add: turn_round_def ask_provider_def Let_def S2_def rq_def)
        have "effect (same E) S3 (turn_round E l S)"
          unfolding step using s3(1) by (auto intro: provider_failed_effect cancel_round_effect respond_effect split: sum.splits)
        then show ?thesis using effect_mono [where R = "moved E" and A = S3 and S = S] mv s3(2,3) by blast
      qed
    qed
  qed
qed

section \<open>Induction over an invocation\<close>

text \<open>
  An invocation, its rounds and its follow-ups call each other. An invariant is a condition for the
  session between invocations, one at the head of the loop, one where the loop stopped, and
  one after an exception.
\<close>

locale session_invariant =
  fixes E :: "'w aenv"
    and outside :: "'w session \<Rightarrow> bool" and inside :: "'w session \<Rightarrow> bool"
    and stopped :: "'w session \<Rightarrow> bool" and failed :: "'w session \<Rightarrow> bool"
  assumes begin_ok: "outside S \<Longrightarrow> begin_input E p S = (None, T) \<Longrightarrow> inside T"
    and begin_fails: "outside S \<Longrightarrow> begin_input E p S = (Some e, T) \<Longrightarrow> failed T"
    and round_ok: "inside S \<Longrightarrow>
      (case turn_round E l S of Raised e T \<Rightarrow> failed T | Finished t T \<Rightarrow> outside T | Waits t T \<Rightarrow> outside T
       | Stops T \<Rightarrow> stopped T | Continues t T \<Rightarrow> inside T)"
    and at_limit: "inside S \<Longrightarrow> stopped S"
    and after_ok: "stopped S \<Longrightarrow> after_loop n S = (None, T) \<Longrightarrow> outside T"
    and after_fails: "stopped S \<Longrightarrow> after_loop n S = (Some e, T) \<Longrightarrow> failed T"
    and depth_ok: "outside S \<Longrightarrow> outside (S\<lparr>se_follow_up_depth := d\<rparr>)"
    and queue_ok: "outside S \<Longrightarrow> outside (S\<lparr>se_follow_ups := q\<rparr>)"
    and ended_ok: "outside S \<Longrightarrow> outside (end_session S)"
    and failed_depth: "failed S \<Longrightarrow> failed (S\<lparr>se_follow_up_depth := d\<rparr>)"
begin

definition ends_well :: "((exc + string) \<times> 'w session) option \<Rightarrow> bool" where
  "ends_well r = (case r of None \<Rightarrow> True | Some (Inl e, T) \<Rightarrow> failed T | Some (Inr t, T) \<Rightarrow> outside T)"

lemma ends_wellE:
  assumes "ends_well r"
  obtains "r = None" | e T where "r = Some (Inl e, T)" "failed T" | reply T where "r = Some (Inr reply, T)" "outside T"
proof (cases r)
  case (Some x)
  then show ?thesis using assms that by (cases x; cases "fst x") (auto simp: ends_well_def)
qed (use that in simp)

lemma follow_ups_step:
  assumes "\<And>p S. outside S \<Longrightarrow> ends_well (process_input f E p S)"
    "\<And>t S. outside S \<Longrightarrow> ends_well (process_follow_ups f E t S)" "outside S"
  shows "ends_well (process_follow_ups (Suc f) E t S)"
proof (cases "se_follow_ups S")
  case Nil
  then show ?thesis using assms(3) depth_ok queue_ok ended_ok
    by (simp add: drain_one_def Let_def ends_well_def leave_follow_ups_def)
next
  case (Cons m ms)
  let ?S = "S\<lparr>se_follow_ups := ms\<rparr>"
  have i: "ends_well (process_input f E m ?S)" using assms(1) queue_ok [OF assms(3)] by blast
  have step: "process_follow_ups (Suc f) E t S = (case process_input f E m ?S of None \<Rightarrow> None
      | Some (Inl e, T) \<Rightarrow> Some (Inl e, leave_follow_ups T) | Some (Inr text, T) \<Rightarrow> process_follow_ups f E text T)"
    by (simp add: Cons drain_one_def)
  from i show ?thesis
  proof (cases rule: ends_wellE)
    case 2
    then show ?thesis using failed_depth by (simp only: step) (simp add: ends_well_def leave_follow_ups_def)
  next
    case 1
    then show ?thesis by (simp only: step) (simp add: ends_well_def)
  next
    case 3
    then show ?thesis using assms(2) by (simp only: step) simp
  qed
qed

lemma loop_step:
  assumes "\<And>t S. outside S \<Longrightarrow> ends_well (process_follow_ups f E t S)"
    "\<And>n t S. inside S \<Longrightarrow> ends_well (input_loop f E n t S)" "inside S"
  shows "ends_well (input_loop (Suc f) E n t S)"
proof -
  have stop: "ends_well (case after_loop n T of (Some e, U) \<Rightarrow> Some (Inl e, U)
      | (None, U) \<Rightarrow> process_follow_ups f E l (U\<lparr>se_follow_up_depth := se_follow_up_depth U + 1\<rparr>))"
    if "stopped T" for T l
    using after_ok [OF that, of n] after_fails [OF that, of n] assms(1) depth_ok
    by (cases "after_loop n T"; cases "fst (after_loop n T)") (auto simp: ends_well_def)
  show ?thesis
  proof (cases "rounds_left E n")
    case False
    then show ?thesis using stop [OF at_limit [OF assms(3)]] by simp
  next
    case True
    then show ?thesis
      using round_ok [OF assms(3), of t] assms(1,2) depth_ok stop
      by (cases "turn_round E t S") (simp_all add: ends_well_def)
  qed
qed

lemma input_step:
  assumes "\<And>n t S. inside S \<Longrightarrow> ends_well (input_loop f E n t S)" "outside S"
  shows "ends_well (process_input (Suc f) E p S)"
  using begin_ok [OF assms(2), of p] begin_fails [OF assms(2), of p] assms(1)
  by (cases "begin_input E p S"; cases "fst (begin_input E p S)") (auto simp: ends_well_def)

lemma session_run:
  "(outside S \<longrightarrow> ends_well (process_input f E p S))
   \<and> (inside S \<longrightarrow> ends_well (input_loop f E n t S))
   \<and> (outside S \<longrightarrow> ends_well (process_follow_ups f E t S))"
proof (induction f arbitrary: S p n t)
  case 0
  show ?case by (simp add: ends_well_def)
next
  case (Suc f)
  show ?case
    using input_step [of f S p] loop_step [of f S n t] follow_ups_step [of f S t] Suc.IH by blast
qed

lemma after_input: "outside S \<Longrightarrow> process_input f E p S = Some (res, T) \<Longrightarrow>
    (case res of Inl e \<Rightarrow> failed T | Inr t \<Rightarrow> outside T)"
  using session_run [of S f p] by (auto simp: ends_well_def split: sum.splits)

end

end
