(* ===== verification/Agent_Properties.thy ===== *)
theory Agent_Properties
  imports Agent_Facts
begin

text \<open>
  Properties of the coding-agent session: the pairing of tool calls and results in every request, the
  states and the terminal reasons, the bound on the work of an invocation, and the reach of the loop
  detector.
\<close>

section \<open>Starting and leaving the loop\<close>

lemma seeded_turn_paired: "seeded_turn v = Some t \<Longrightarrow> paired [t]"
  by (auto simp: seeded_turn_def plain_assistant_def split: pyval.splits if_splits)

definition seed :: "'w session \<Rightarrow> pyval \<Rightarrow> 'w session" where
  "seed S v = (case seeded_turn v of None \<Rightarrow> S | Some t \<Rightarrow> add_turn t S)"

lemma hydrate_cases:
  assumes "hydrate_history_from_context E S = (r, T)"
  obtains "se_hydrated S" "r = None" "T = S"
    | w vs where "\<not> se_hydrated S" "T = foldl seed (S\<lparr>se_hydrated := True, se_world := w\<rparr>) vs"
proof (cases "se_hydrated S")
  case True
  then show thesis using that(1) assms by (simp add: hydrate_history_from_context_def)
next
  case False
  have seed: "(\<lambda>T v. case seeded_turn v of None \<Rightarrow> T | Some t \<Rightarrow> add_turn t T) = seed"
    by (simp add: seed_def fun_eq_iff)
  show thesis
  proof (cases "ae_get_messages E")
    case None
    then show thesis using that(2) [of "se_world S" "[]"] assms False by (simp add: hydrate_history_from_context_def)
  next
    case (Some get)
    obtain res w where g: "get (se_world S) = (res, w)" by force
    note h = assms [unfolded hydrate_history_from_context_def seed]
    show thesis
    proof (cases res)
      case (Inl e)
      then show thesis using that(2) [of w "[]"] h False Some g by simp
    next
      case (Inr v)
      then show thesis using that(2) [of w "[]"] that(2) [of w "case v of PList ms \<Rightarrow> ms | _ \<Rightarrow> []"] h False Some g
        by (cases v) simp_all
    qed
  qed
qed

lemma seed_facts: "carried E A (seed A v) \<and> (\<exists>ts. se_history (seed A v) = se_history A @ ts \<and> paired ts)"
  using seeded_turn_paired by (cases "seeded_turn v") (auto simp: seed_def)

lemma seeds_facts: "carried E A (foldl seed A vs) \<and> (\<exists>ts. se_history (foldl seed A vs) = se_history A @ ts \<and> paired ts)"
proof (induction vs arbitrary: A)
  case (Cons v vs)
  obtain t1 where b: "carried E A (seed A v)" "se_history (seed A v) = se_history A @ t1" "paired t1"
    using seed_facts [of E A v] by blast
  obtain t2 where "carried E (seed A v) (foldl seed (seed A v) vs)"
      "se_history (foldl seed (seed A v) vs) = se_history (seed A v) @ t2" "paired t2"
    using Cons.IH [of "seed A v"] by blast
  then show ?case using b carried_trans [of E A "seed A v"] paired_append [OF b(3), of t2] by auto
qed simp

lemma hydrate_facts:
  assumes "hydrate_history_from_context E S = (r, T)"
  shows "same E S (T\<lparr>se_hydrated := se_hydrated S\<rparr>)" "se_hydrated T" "se_state T = se_state S" "se_reason T = se_reason S"
    "\<exists>ts. se_history T = se_history S @ ts \<and> paired ts" "se_hydrated S \<longrightarrow> r = None \<and> T = S"
proof -
  have "same E S (T\<lparr>se_hydrated := se_hydrated S\<rparr>) \<and> se_hydrated T \<and> se_state T = se_state S \<and> se_reason T = se_reason S
      \<and> (\<exists>ts. se_history T = se_history S @ ts \<and> paired ts) \<and> (se_hydrated S \<longrightarrow> r = None \<and> T = S)"
    using assms
  proof (cases rule: hydrate_cases)
    case 1
    then show ?thesis by (simp add: same_def)
  next
    case (2 w vs)
    then show ?thesis
      using seeds_facts [of E "S\<lparr>se_hydrated := True, se_world := w\<rparr>" vs] by (auto simp: carried_def same_def)
  qed
  then show "same E S (T\<lparr>se_hydrated := se_hydrated S\<rparr>)" "se_hydrated T" "se_state T = se_state S"
    "se_reason T = se_reason S" "\<exists>ts. se_history T = se_history S @ ts \<and> paired ts"
    "se_hydrated S \<longrightarrow> r = None \<and> T = S"
    by blast+
qed

lemma begin_input_facts:
  assumes "begin_input E p S = (r, T)"
  shows "same E S (T\<lparr>se_hydrated := se_hydrated S\<rparr>)" "se_hydrated T"
    "\<exists>ts. se_history T = se_history S @ ts \<and> paired ts" "se_reason T \<in> {''natural'', se_reason S}"
    "r = None \<longleftrightarrow> se_state T = PROCESSING \<and> se_state S = IDLE"
    "r \<noteq> None \<Longrightarrow> se_state T = se_state S \<and> (se_hydrated S \<longrightarrow> se_history T = se_history S)"
proof -
  obtain x A where h: "hydrate_history_from_context E S = (x, A)" by force
  note f = hydrate_facts [OF h]
  obtain ts where ts: "se_history A = se_history S @ ts" "paired ts" using f(5) by blast
  define B where "B = (if se_started (A\<lparr>se_reason := ''natural''\<rparr>) then A\<lparr>se_reason := ''natural''\<rparr>
      else tell ''agent:session_start'' [(''session_id'', PStr (ae_session_id E))] (A\<lparr>se_reason := ''natural'', se_started := True\<rparr>))"
  have b: "se_state B = se_state S" "se_history B = se_history A" "se_hydrated B" "se_reason B = ''natural''"
      "same E S (B\<lparr>se_hydrated := se_hydrated S\<rparr>)"
    using f by (auto simp: B_def same_def)
  have trans: "transition ''submit'' s = (if s = IDLE then Inr PROCESSING else Inl (invalid_transition ''submit'' s))" for s
    by (cases s) (auto simp: transition_def transitions_def)
  define C where "C = tell ''agent:user_input'' [(''content'', PStr p)] (add_turn (UserTurn p) (B\<lparr>se_state := PROCESSING\<rparr>))"
  obtain us where d: "carried E C (drain_steering C)" "se_history (drain_steering C) = se_history C @ us" "steering_only us"
    using drain_steering_facts [of E C] by blast
  have c: "se_history (drain_steering C) = se_history S @ (ts @ UserTurn p # us)" "paired (ts @ UserTurn p # us)"
    using d(2) b(2) ts paired_append [OF ts(2)] paired_steering [OF d(3)] by (simp_all add: C_def)
  have eq: "begin_input E p S = (case x of Some e \<Rightarrow> (Some e, A)
      | None \<Rightarrow> (case transition ''submit'' (se_state B) of Inl e \<Rightarrow> (Some e, B)
          | Inr s \<Rightarrow> (None, drain_steering (tell ''agent:user_input'' [(''content'', PStr p)]
              (add_turn (UserTurn p) (B\<lparr>se_state := s\<rparr>))))))"
    unfolding begin_input_def h B_def Let_def by (cases x) simp_all
  consider (early) e where "r = Some e" "T = A" "x = Some e"
    | (refused) e where "r = Some e" "T = B" "se_state S \<noteq> IDLE" "x = None"
    | (ok) "r = None" "T = drain_steering C" "se_state S = IDLE" "x = None"
  proof (cases x) 
    case (Some e)
    then show thesis using early [of e] assms unfolding eq by simp
  next
    case None
    show thesis
    proof (cases "se_state S = IDLE")
      case True
      then show thesis using None ok assms unfolding eq trans b(1) C_def by simp
    next
      case False
      then show thesis using None refused [of "invalid_transition ''submit'' (se_state S)"] assms unfolding eq trans b(1)
        by simp
    qed
  qed
  then have "same E S (T\<lparr>se_hydrated := se_hydrated S\<rparr>) \<and> se_hydrated T
      \<and> (\<exists>ts. se_history T = se_history S @ ts \<and> paired ts) \<and> se_reason T \<in> {''natural'', se_reason S}
      \<and> (r = None \<longleftrightarrow> se_state T = PROCESSING \<and> se_state S = IDLE)
      \<and> (r \<noteq> None \<longrightarrow> se_state T = se_state S \<and> (se_hydrated S \<longrightarrow> se_history T = se_history S))"
  proof cases
    case early
    then show ?thesis using f by auto
  next
    case refused
    then show ?thesis using f b ts by fastforce
  next
    case ok
    have k: "carried E C T" using d(1) ok by simp
    have "same E S (T\<lparr>se_hydrated := se_hydrated S\<rparr>)" "se_hydrated T" "se_reason T = ''natural''" "se_state T = PROCESSING"
      using k b by (simp_all add: carried_def same_def C_def)
    then show ?thesis using ok c by auto
  qed
  then show "same E S (T\<lparr>se_hydrated := se_hydrated S\<rparr>)" "se_hydrated T"
    "\<exists>ts. se_history T = se_history S @ ts \<and> paired ts" "se_reason T \<in> {''natural'', se_reason S}"
    "r = None \<longleftrightarrow> se_state T = PROCESSING \<and> se_state S = IDLE"
    "r \<noteq> None \<Longrightarrow> se_state T = se_state S \<and> (se_hydrated S \<longrightarrow> se_history T = se_history S)"
    by blast+
qed

lemma after_loop_facts:
  "after_loop n S = (r, T) \<Longrightarrow> se_state S = PROCESSING \<Longrightarrow>
   r = None \<and> same E S T \<and> se_state T = IDLE \<and> se_history T = se_history S \<and> se_reason T = ''tool_round_limit''"
  by (auto simp: after_loop_def Let_def same_def)

section \<open>The invariants\<close>

definition sent_well :: "'w session \<Rightarrow> bool" where
  "sent_well S = list_all wire_ok (se_requests S)"

definition in_order :: "'w session \<Rightarrow> bool" where
  "in_order S =
     (sent_well S \<and> (paired (se_history S) \<or> (se_state S \<in> {PROCESSING, CLOSED} \<and> se_hydrated S)))"

definition in_loop :: "'w session \<Rightarrow> bool" where
  "in_loop S = (sent_well S \<and> paired (se_history S) \<and> se_state S = PROCESSING \<and> se_hydrated S)"

lemma paired_extend: "paired xs \<Longrightarrow> \<exists>ts. ys = xs @ ts \<and> paired ts \<Longrightarrow> paired ys"
  using paired_append by auto

lemma round_in_order:
  assumes "in_loop S"
  shows "case turn_round E l S of Raised e T \<Rightarrow> in_order T | Finished t T \<Rightarrow> in_order T | Waits t T \<Rightarrow> in_order T
    | Stops T \<Rightarrow> in_loop T | Continues t T \<Rightarrow> in_loop T"
proof -
  have s: "se_state S = PROCESSING" "paired (se_history S)" "se_hydrated S" "sent_well S"
    using assms by (simp_all add: in_loop_def)
  have sent: "sent_well T \<and> se_hydrated T" if "moved E S T" for T
    using that s(3,4) conversation_wire [OF _ s(2), of E] by (auto simp: moved_def sent_well_def)
  show ?thesis
    using turn_round_effect [OF s(1), of E l] sent s(2) paired_extend [OF s(2)]
    by (cases "turn_round E l S") (auto simp: effect_def in_order_def in_loop_def)
qed

interpretation pr: session_invariant E in_order in_loop in_loop in_order for E :: "'w aenv"
proof unfold_locales
  fix S T :: "'w session" and p e n
  show "in_order S \<Longrightarrow> begin_input E p S = (None, T) \<Longrightarrow> in_loop T"
    using begin_input_facts [of E p S None T] paired_extend by (auto simp: in_order_def in_loop_def sent_well_def same_def)
  show "in_order S \<Longrightarrow> begin_input E p S = (Some e, T) \<Longrightarrow> in_order T"
    using begin_input_facts [of E p S "Some e" T] paired_extend by (auto simp: in_order_def sent_well_def same_def)
  show "in_loop S \<Longrightarrow> after_loop n S = (None, T) \<Longrightarrow> in_order T"
    using after_loop_facts [of n S None T E] by (auto simp: in_order_def in_loop_def sent_well_def same_def)
  show "in_loop S \<Longrightarrow> after_loop n S = (Some e, T) \<Longrightarrow> in_order T"
    using after_loop_facts [of n S "Some e" T E] by (auto simp: in_loop_def)
qed (use round_in_order in \<open>auto simp: in_order_def sent_well_def\<close>)

definition documented_reason :: "'w session \<Rightarrow> bool" where
  "documented_reason S =
     (se_reason S \<in> {''natural'', ''cancelled'', ''context_limit'', ''awaiting_input'', ''tool_round_limit''})"

definition reason_in_loop :: "'w session \<Rightarrow> bool" where
  "reason_in_loop S = (documented_reason S \<and> se_state S = PROCESSING)"

definition processing :: "'w session \<Rightarrow> bool" where
  "processing S = (se_state S = PROCESSING)"

interpretation rs: session_invariant E documented_reason reason_in_loop processing documented_reason for E :: "'w aenv"
proof unfold_locales
  fix S T :: "'w session" and p e n l
  show "documented_reason S \<Longrightarrow> begin_input E p S = (None, T) \<Longrightarrow> reason_in_loop T"
    using begin_input_facts [of E p S None T] by (auto simp: documented_reason_def reason_in_loop_def)
  show "documented_reason S \<Longrightarrow> begin_input E p S = (Some e, T) \<Longrightarrow> documented_reason T"
    using begin_input_facts [of E p S "Some e" T] by (auto simp: documented_reason_def)
  show "reason_in_loop S \<Longrightarrow> (case turn_round E l S of Raised e T \<Rightarrow> documented_reason T
      | Finished t T \<Rightarrow> documented_reason T | Waits t T \<Rightarrow> documented_reason T
      | Stops T \<Rightarrow> processing T | Continues t T \<Rightarrow> reason_in_loop T)"
    using turn_round_effect [of S E l]
    by (cases "turn_round E l S") (auto simp: effect_def documented_reason_def reason_in_loop_def processing_def)
  show "processing S \<Longrightarrow> after_loop n S = (None, T) \<Longrightarrow> documented_reason T"
    using after_loop_facts [of n S None T E] by (auto simp: documented_reason_def processing_def)
  show "processing S \<Longrightarrow> after_loop n S = (Some e, T) \<Longrightarrow> documented_reason T"
    using after_loop_facts [of n S "Some e" T E] by (auto simp: processing_def)
qed (auto simp: documented_reason_def reason_in_loop_def processing_def)

definition at_rest :: "'w session \<Rightarrow> bool" where
  "at_rest S = (se_state S \<in> {IDLE, AWAITING_INPUT})"

definition anything :: "'w session \<Rightarrow> bool" where
  "anything S = True"

interpretation st: session_invariant E at_rest processing processing anything for E :: "'w aenv"
proof unfold_locales
  fix S T :: "'w session" and p n l
  show "at_rest S \<Longrightarrow> begin_input E p S = (None, T) \<Longrightarrow> processing T"
    using begin_input_facts [of E p S None T] by (auto simp: processing_def)
  show "processing S \<Longrightarrow> (case turn_round E l S of Raised e T \<Rightarrow> anything T
      | Finished t T \<Rightarrow> at_rest T | Waits t T \<Rightarrow> at_rest T
      | Stops T \<Rightarrow> processing T | Continues t T \<Rightarrow> processing T)"
    using turn_round_effect [of S E l]
    by (cases "turn_round E l S") (auto simp: effect_def at_rest_def processing_def anything_def)
  show "processing S \<Longrightarrow> after_loop n S = (None, T) \<Longrightarrow> at_rest T"
    using after_loop_facts [of n S None T E] by (auto simp: at_rest_def processing_def)
qed (auto simp: at_rest_def anything_def)

section \<open>Sessions\<close>

text \<open>The sessions a host can bring about: inputs, answers, messages to the queues, processes that come and go,
  and the shutdown.\<close>

inductive session_reach :: "'w aenv \<Rightarrow> 'w session \<Rightarrow> bool" for E where
  start: "session_reach E (session_init w)"
| input: "session_reach E S \<Longrightarrow> process_input f E p S = Some (r, T) \<Longrightarrow> session_reach E T"
| resume: "session_reach E S \<Longrightarrow> resume_with_input f E p S = Some (r, T) \<Longrightarrow> session_reach E T"
| steered: "session_reach E S \<Longrightarrow> session_reach E (S\<lparr>se_steering := steer m (se_steering S)\<rparr>)"
| followed: "session_reach E S \<Longrightarrow> session_reach E (S\<lparr>se_follow_ups := se_follow_ups S @ [m]\<rparr>)"
| registered: "session_reach E S \<Longrightarrow> session_reach E (register_process pid S)"
| unregistered: "session_reach E S \<Longrightarrow> session_reach E (unregister_process pid S)"
| shut: "session_reach E S \<Longrightarrow> shutdown E t S = (x, T) \<Longrightarrow> session_reach E T"

lemma shutdown_facts:
  "shutdown E t S = (x, T) \<Longrightarrow>
   se_requests T = se_requests S \<and> se_history T = se_history S \<and> se_hydrated T = se_hydrated S \<and> se_reason T = se_reason S
   \<and> se_state T = CLOSED \<and> x = None"
  by (cases "se_state S")
    (auto simp: shutdown_def Let_def terminate_tracked_processes_def transition_def transitions_def)

lemma resume_cases:
  assumes "resume_with_input f E p S = Some (r, T)"
  shows "T = S \<or> (se_state S = AWAITING_INPUT \<and> process_input f E p (S\<lparr>se_state := IDLE\<rparr>) = Some (r, T))"
  using assms by (cases "se_state S") (auto simp: resume_with_input_def transition_def transitions_def)

lemma reach_in_order: "session_reach E S \<Longrightarrow> in_order S \<and> documented_reason S"
proof (induction rule: session_reach.induct)
  case (start w)
  show ?case by (simp add: session_init_def in_order_def sent_well_def documented_reason_def)
next
  case (input S f p r T)
  then show ?case using pr.after_input rs.after_input by (fastforce split: sum.splits)
next
  case (resume S f p r T)
  have "in_order (S\<lparr>se_state := IDLE\<rparr>)" "documented_reason (S\<lparr>se_state := IDLE\<rparr>)" if "se_state S = AWAITING_INPUT"
    using resume.IH that by (auto simp: in_order_def sent_well_def documented_reason_def)
  then show ?case
    using resume_cases [OF resume.hyps(2)] resume.IH pr.after_input rs.after_input by (fastforce split: sum.splits)
next
  case (shut S t x T)
  then show ?case using shutdown_facts [OF shut.hyps(2)]
    by (auto simp: in_order_def sent_well_def documented_reason_def paired.simps)
qed (auto simp: in_order_def sent_well_def documented_reason_def register_process_def unregister_process_def)

section \<open>The work of an invocation\<close>

text \<open>An invocation that ends, with at most \<open>k\<close> requests and \<open>m\<close> more for every follow-up it consumed.\<close>

definition done_within :: "nat \<Rightarrow> nat \<Rightarrow> 'w session \<Rightarrow> ((exc + string) \<times> 'w session) option \<Rightarrow> bool" where
  "done_within m k S r =
     (case r of
        None \<Rightarrow> False
      | Some (x, T) \<Rightarrow>
          length (se_follow_ups T) \<le> length (se_follow_ups S)
          \<and> se_call_count T + m * length (se_follow_ups T) \<le> se_call_count S + m * length (se_follow_ups S) + k)"

lemma done_within_trans:
  assumes "done_within m k' A r" "length (se_follow_ups A) \<le> length (se_follow_ups S)"
    "se_call_count A + m * length (se_follow_ups A) + k' \<le> se_call_count S + m * length (se_follow_ups S) + k"
  shows "done_within m k S r"
  using assms by (cases r) (auto simp: done_within_def)

lemma done_within_depth: "done_within m k (S\<lparr>se_follow_up_depth := d\<rparr>) r = done_within m k S r"
  by (cases r) (auto simp: done_within_def)

lemma bounded_follow_ups:
  assumes "\<And>p S. (length (se_follow_ups S) + 1) * (m + 3) \<le> f \<Longrightarrow> done_within m m S (process_input f E p S)"
    "\<And>t S. length (se_follow_ups S) * (m + 3) + 1 \<le> f \<Longrightarrow> done_within m 0 S (process_follow_ups f E t S)"
    "length (se_follow_ups S) * (m + 3) + 1 \<le> Suc f"
  shows "done_within m 0 S (process_follow_ups (Suc f) E t S)"
proof (cases "se_follow_ups S")
  case Nil
  then show ?thesis by (simp add: drain_one_def done_within_def leave_follow_ups_def Let_def)
next
  case (Cons q qs)
  let ?S = "S\<lparr>se_follow_ups := qs\<rparr>"
  have fuel: "(length qs + 1) * (m + 3) \<le> f" using assms(3) Cons by simp
  have i: "done_within m m ?S (process_input f E q ?S)" using assms(1) [of ?S q] fuel by simp
  then obtain x T where r: "process_input f E q ?S = Some (x, T)"
    "length (se_follow_ups T) \<le> length qs" "se_call_count T + m * length (se_follow_ups T) \<le> se_call_count S + m * length qs + m"
    by (cases "process_input f E q ?S") (auto simp: done_within_def)
  show ?thesis
  proof (cases x)
    case (Inl e)
    then show ?thesis using r Cons by (simp add: drain_one_def done_within_def leave_follow_ups_def)
  next
    case (Inr reply)
    have "length qs * (m + 3) + (m + 3) \<le> f" using fuel by simp
    then have "length (se_follow_ups T) * (m + 3) + 1 \<le> f"
      using mult_le_mono1 [OF r(2), of "m + 3"] by linarith
    then have "done_within m 0 T (process_follow_ups f E reply T)" by (rule assms(2))
    then have "done_within m 0 S (process_follow_ups f E reply T)" by (rule done_within_trans) (use r Cons in simp_all)
    then show ?thesis using r Cons Inr by (simp add: drain_one_def)
  qed
qed

lemma bounded_stop:
  assumes "\<And>t S. length (se_follow_ups S) * (m + 3) + 1 \<le> f \<Longrightarrow> done_within m 0 S (process_follow_ups f E t S)"
    "se_state T = PROCESSING" "length (se_follow_ups T) * (m + 3) + 1 \<le> f"
  shows "done_within m 0 T (case after_loop n T of (Some e, U) \<Rightarrow> Some (Inl e, U)
      | (None, U) \<Rightarrow> process_follow_ups f E l (U\<lparr>se_follow_up_depth := se_follow_up_depth U + 1\<rparr>))"
proof -
  obtain U where a: "after_loop n T = (None, U)" "se_call_count U = se_call_count T" "se_follow_ups U = se_follow_ups T"
    using assms(2) by (simp add: after_loop_def Let_def)
  have "done_within m 0 (U\<lparr>se_follow_up_depth := d\<rparr>) (process_follow_ups f E l (U\<lparr>se_follow_up_depth := d\<rparr>))" for d
    using assms(1,3) a by simp
  from done_within_trans [OF this [of "se_follow_up_depth U + 1"], of T 0] show ?thesis using a by simp
qed

lemma bounded_loop:
  assumes "silent E" "cf_max_tool_rounds (ae_config E) = int m" "m > 0"
    "\<And>t S. length (se_follow_ups S) * (m + 3) + 1 \<le> f \<Longrightarrow> done_within m 0 S (process_follow_ups f E t S)"
    "\<And>n t S. se_state S = PROCESSING \<Longrightarrow> n \<le> m \<Longrightarrow> length (se_follow_ups S) * (m + 3) + (m - n) + 2 \<le> f \<Longrightarrow>
      done_within m (m - n) S (input_loop f E n t S)"
    "se_state S = PROCESSING" "n \<le> m" "length (se_follow_ups S) * (m + 3) + (m - n) + 2 \<le> Suc f"
  shows "done_within m (m - n) S (input_loop (Suc f) E n t S)"
proof (cases "n < m")
  case False
  then have "\<not> rounds_left E n" using assms(2,3) by (simp add: rounds_left_def)
  then show ?thesis using done_within_trans [OF bounded_stop [OF assms(4,6)], of S] assms(8) by simp
next
  case True
  have round: "effect (moved E) S (turn_round E t S)" using turn_round_effect [OF assms(6)] .
  have mv: "se_follow_ups T = se_follow_ups S \<and> se_call_count T \<le> se_call_count S + 1" if "moved E S T" for T
    using that assms(1) by (auto simp: moved_def)
  have after: "done_within m (m - n) S r" if "moved E S A" "done_within m k A r" "k + 1 \<le> m - n" for A r k
  proof -
    have f: "se_follow_ups A = se_follow_ups S" and c: "se_call_count A \<le> se_call_count S + 1"
      using mv [OF that(1)] by simp_all
    have "se_call_count A + k \<le> se_call_count S + (m - n)" using c that(3) by linarith
    then have "se_call_count A + m * length (se_follow_ups A) + k
        \<le> se_call_count S + m * length (se_follow_ups S) + (m - n)"
      unfolding f using add_right_mono [of _ _ "m * length (se_follow_ups S)"] by (metis add.assoc add.commute)
    from done_within_trans [OF that(2) _ this] show ?thesis by (simp add: f)
  qed
  have fuel: "length (se_follow_ups S) * (m + 3) + (m - n) + 1 \<le> f" using assms(8) by simp
  have left: "rounds_left E n" using True assms(2) by (simp add: rounds_left_def)
  show ?thesis
  proof (cases "turn_round E t S")
    case (Raised e T)
    then have "moved E S T" using round by (simp add: effect_def)
    from mv [OF this] show ?thesis using Raised left True by (auto simp: done_within_def)
  next
    case (Waits reply T)
    then have "moved E S T" using round by (simp add: effect_def)
    from mv [OF this] show ?thesis using Waits left True by (auto simp: done_within_def)
  next
    case (Finished reply T)
    let ?T = "T\<lparr>se_follow_up_depth := se_follow_up_depth T + 1\<rparr>"
    have m: "moved E S T" using round Finished by (simp add: effect_def)
    have "done_within m 0 T (process_follow_ups f E reply ?T)"
      using assms(4) [of ?T reply] mv [OF m] fuel by (simp add: done_within_depth)
    then show ?thesis using after [OF m] left Finished True by simp
  next
    case (Stops T)
    have m: "moved E S T" "se_state T = PROCESSING" using round Stops by (simp_all add: effect_def)
    have "length (se_follow_ups T) * (m + 3) + 1 \<le> f" using mv [OF m(1)] fuel by simp
    then show ?thesis using after [OF m(1) bounded_stop [OF assms(4) m(2)]] left Stops True by simp
  next
    case (Continues reply T)
    have m: "moved E S T" "se_state T = PROCESSING" using round Continues by (simp_all add: effect_def)
    have "done_within m (m - (n + 1)) T (input_loop f E (n + 1) reply T)"
      using assms(5) [OF m(2), of "n + 1"] mv [OF m(1)] fuel True by simp
    then show ?thesis using after [OF m(1)] left Continues True by simp
  qed
qed

lemma bounded_input:
  assumes "silent E" "\<And>n t S. se_state S = PROCESSING \<Longrightarrow> n \<le> m \<Longrightarrow>
      length (se_follow_ups S) * (m + 3) + (m - n) + 2 \<le> f \<Longrightarrow> done_within m (m - n) S (input_loop f E n t S)"
    "(length (se_follow_ups S) + 1) * (m + 3) \<le> Suc f"
  shows "done_within m m S (process_input (Suc f) E p S)"
proof -
  obtain x T where b: "begin_input E p S = (x, T)" by force
  note k = begin_input_facts [OF b]
  have c: "se_call_count T = se_call_count S" "se_follow_ups T = se_follow_ups S"
    using k(1) assms(1) by (simp_all add: same_def)
  show ?thesis
  proof (cases x)
    case (Some e)
    then show ?thesis using b c by (simp add: done_within_def)
  next
    case None
    then have "done_within m (m - 0) T (input_loop f E 0 [] T)" using k(5) assms(2) [of T 0] assms(3) c by simp
    then have "done_within m m S (input_loop f E 0 [] T)" by (rule done_within_trans) (use c in simp_all)
    then show ?thesis using b None by simp
  qed
qed

lemma bounded_run:
  assumes "silent E" "cf_max_tool_rounds (ae_config E) = int m" "m > 0"
  shows "((length (se_follow_ups S) + 1) * (m + 3) \<le> f \<longrightarrow> done_within m m S (process_input f E p S))
    \<and> (se_state S = PROCESSING \<longrightarrow> n \<le> m \<longrightarrow> length (se_follow_ups S) * (m + 3) + (m - n) + 2 \<le> f \<longrightarrow>
         done_within m (m - n) S (input_loop f E n t S))
    \<and> (length (se_follow_ups S) * (m + 3) + 1 \<le> f \<longrightarrow> done_within m 0 S (process_follow_ups f E t S))"
proof (induction f arbitrary: S p n t)
  case (Suc f)
  have ih: "\<And>p S. (length (se_follow_ups S) + 1) * (m + 3) \<le> f \<Longrightarrow> done_within m m S (process_input f E p S)"
    "\<And>n t S. se_state S = PROCESSING \<Longrightarrow> n \<le> m \<Longrightarrow> length (se_follow_ups S) * (m + 3) + (m - n) + 2 \<le> f \<Longrightarrow>
      done_within m (m - n) S (input_loop f E n t S)"
    "\<And>t S. length (se_follow_ups S) * (m + 3) + 1 \<le> f \<Longrightarrow> done_within m 0 S (process_follow_ups f E t S)"
    using Suc.IH by blast+
  show ?case
    using bounded_input [OF assms(1) ih(2), of S p] bounded_loop [OF assms ih(3,2), of S n t]
      bounded_follow_ups [OF ih(1,3), of S t] by blast
qed simp

section \<open>The loop detector\<close>

lemma list_of_ten:
  assumes "length (xs :: 'a list) = 10"
  obtains a0 a1 a2 a3 a4 a5 a6 a7 a8 a9 where "xs = [a0, a1, a2, a3, a4, a5, a6, a7, a8, a9]"
  using assms by (auto simp: length_Suc_conv numeral_eq_Suc)

lemma record_call_length: "length (record_call md5 k name args sigs) \<le> k"
  by (simp add: record_call_def push_bounded_def Let_def)

section \<open>A scripted session\<close>

text \<open>A session whose provider answers from a list, with one tool, for the evaluations.\<close>

type_synonym script = "(call_error + response) list"

definition read_tool :: tool where
  "read_tool = \<lparr>to_name = ''read'', to_description = ''Reads'', to_schema = None\<rparr>"

definition scripted_env :: "session_config \<Rightarrow> tool list \<Rightarrow> script aenv" where
  "scripted_env c ts =
     \<lparr>ae_config = c, ae_session_id = ''s'', ae_provider_name = ''openai'', ae_model = ''m'', ae_module_name = None,
      ae_streaming = False, ae_tools = register_bulk ts [], ae_md5 = (\<lambda>s. s), ae_serialize = (\<lambda>r. ''ok''),
      ae_environment = (\<lambda>w. ''env''), ae_project_docs = (\<lambda>w. []), ae_get_messages = None,
      ae_complete = (\<lambda>rq w. case w of [] \<Rightarrow> (Inl (Other_Error (type_error ''script'')), nothing_posted, [])
        | r # rs \<Rightarrow> (r, nothing_posted, rs)),
      ae_stream = (\<lambda>rq w. (([], None), nothing_posted, w)),
      ae_run_tool = (\<lambda>c w. (Inr \<lparr>tr_success = True, tr_output = PStr ''done''\<rparr>, nothing_posted, w)),
      ae_tool_post = (\<lambda>c out w. (Inr PNone, w)), ae_cancelled = (\<lambda>w. False), ae_immediate = (\<lambda>w. False),
      ae_returncode = (\<lambda>p w. None), ae_terminate = (\<lambda>p w. (True, w)), ae_wait = (\<lambda>p t w. (True, w)),
      ae_kill = (\<lambda>p w. w)\<rparr>"

definition small_config :: session_config where
  "small_config = default_config\<lparr>cf_max_tool_rounds := 2, cf_loop_detection := False, cf_system_prompt := ''sys'', cf_retention := 0\<rparr>"

definition reply_text :: "string \<Rightarrow> response" where
  "reply_text s = \<lparr>rs_content = [RText s], rs_calls = [], rs_usage = PNone, rs_response_id = PNone, rs_metadata = PNone\<rparr>"

definition reply_call :: "string \<Rightarrow> response" where
  "reply_call k = \<lparr>rs_content = [], rs_calls = [\<lparr>tc_id = k, tc_name = ''read'', tc_arguments = PDict []\<rparr>], rs_usage = PNone,
     rs_response_id = PNone, rs_metadata = PNone\<rparr>"

lemma scripted_silent: "silent (scripted_env c ts)"
  by (auto simp: silent_def scripted_env_def nothing_posted_def split: list.splits)

definition outcome_of :: "((exc + string) \<times> 'w session) option \<Rightarrow> (exc + string) option" where
  "outcome_of r = map_option fst r"

lemma question_before_follow_ups:
  "(case process_input 20 (scripted_env small_config []) ''go''
      ((session_init [Inr (reply_text ''Fine.''), Inr (reply_text ''Which one?''), Inr (reply_text ''Done.'')])
        \<lparr>se_follow_ups := [''a'', ''b'']\<rparr>) of
      Some (Inl e, T) \<Rightarrow> exc_type_name e = ''InvalidTransitionError'' \<and> se_state T = AWAITING_INPUT \<and> se_follow_ups T = []
    | _ \<Rightarrow> False)"
  by code_simp

lemma retryable_error_sticks:
  "(case process_input 20 (scripted_env small_config []) ''go''
      (session_init [Inl (Llm_Error \<lparr>le_message = ''slow'', le_retryable = True, le_status_code = PNone, le_provider = PNone\<rparr>),
         Inr (reply_text ''Done.'')]) of
      Some (Inl e, T) \<Rightarrow> se_state T = PROCESSING
        \<and> (case process_input 20 (scripted_env small_config []) ''again'' T of
             Some (Inl e2, U) \<Rightarrow> exc_type_name e2 = ''InvalidTransitionError'' | _ \<Rightarrow> False)
    | _ \<Rightarrow> False)"
  by code_simp

lemma listed_type_escapes:
  "(case process_input 20 (scripted_env small_config
        [read_tool\<lparr>to_schema := Some \<lparr>sc_required = [], sc_properties = [(''p'', [(''type'', PList [PStr ''string'', PStr ''null''])])]\<rparr>\<rparr>])
      ''go'' (session_init [Inr (reply_call ''c1'' \<lparr>rs_calls := [\<lparr>tc_id = ''c1'', tc_name = ''read'', tc_arguments = PDict [(''p'', PStr ''x'')]\<rparr>]\<rparr>)]) of
      Some (Inl e, T) \<Rightarrow> exc_type_name e = ''TypeError'' \<and> se_state T = PROCESSING | _ \<Rightarrow> False)"
  by code_simp

lemma cancelled_ends_twice:
  "(case process_input 20 ((scripted_env small_config [])\<lparr>ae_cancelled := \<lambda>w. True\<rparr>) ''go'' (session_init []) of
      Some (Inr reply, T) \<Rightarrow> reply = [] \<and> length (filter (\<lambda>e. fst e = ''agent:session_end'') (se_events T)) = 2 | _ \<Rightarrow> False)"
  by code_simp

lemma tool_script:
  "(case process_input 20 (scripted_env small_config [read_tool]) ''go''
     (session_init [Inr (reply_call ''c1''), Inr (reply_text ''Done.'')]) of None \<Rightarrow> False | Some r \<Rightarrow> True)"
  by code_simp

lemma tool_run:
  obtains r T where "process_input 20 (scripted_env small_config [read_tool]) ''go''
     (session_init [Inr (reply_call ''c1''), Inr (reply_text ''Done.'')]) = Some (r, T)"
  using tool_script by (auto split: option.splits)

lemma small_rounds: "cf_max_tool_rounds (ae_config (scripted_env small_config ts)) = 2"
  by (simp add: scripted_env_def small_config_def default_config_def)

section \<open>Properties\<close>

text \<open>C25: in every session a host can bring about (inputs, answers, queued messages, cancellations, errors, shutdowns),
  every request the session ever sent is well paired: each assistant message with tool calls is followed at once by one
  tool message per call, with the ids of the calls in their order, and there is no other tool message.\<close>

theorem requests_well_paired:
  assumes "session_reach E S"
  shows "list_all wire_ok (se_requests S)"
  using reach_in_order [OF assms] by (simp add: in_order_def sent_well_def)

theorem requests_well_paired_witness:
  "list_all wire_ok (se_requests (snd (the (process_input 20 (scripted_env small_config [read_tool]) ''go''
     (session_init [Inr (reply_call ''c1''), Inr (reply_text ''Done.'')])))))"
  using requests_well_paired [OF session_reach.input [OF session_reach.start]] by (metis tool_run option.sel snd_conv)

text \<open>a call of \<open>process_input\<close> that returns a text started from IDLE and leaves the session IDLE or waiting for
  the user; one that raises before the session was accepted leaves its state and its requests as they were.\<close>

theorem agent_states:
  "case process_input f E p S of
     None \<Rightarrow> True
   | Some (Inr t, T) \<Rightarrow> se_state S = IDLE \<and> se_state T \<in> {IDLE, AWAITING_INPUT}
   | Some (Inl e, T) \<Rightarrow> se_state S = IDLE \<or> (se_state T = se_state S \<and> se_requests T = se_requests S)"
proof (cases f)
  case (Suc f')
  obtain x U where b: "begin_input E p S = (x, U)" by force
  note k = begin_input_facts [OF b]
  show ?thesis
  proof (cases "se_state S = IDLE")
    case True
    then show ?thesis
      using st.session_run [where E = E and S = S and f = f and p = p]
      by (auto simp: st.ends_well_def at_rest_def split: option.splits sum.splits)
  next
    case False
    then obtain e where "x = Some e" using k(5) by auto
    then show ?thesis using b k Suc by (simp add: same_def)
  qed
qed simp

text \<open>whatever happens, the reason a session gives for its end is one of natural, cancelled, context_limit,
  awaiting_input and tool_round_limit. The reason max_turns, which the code sets at the turn limit, is always
  overwritten before the call returns.\<close>

theorem termination_reasons:
  assumes "session_reach E S"
  shows "documented_reason S"
  using reach_in_order [OF assms] by simp

theorem termination_reasons_witness:
  "documented_reason (snd (the (process_input 20 (scripted_env small_config [read_tool]) ''go''
     (session_init [Inr (reply_call ''c1''), Inr (reply_text ''Done.'')]))))"
  using termination_reasons [OF session_reach.input [OF session_reach.start]] by (metis tool_run option.sel snd_conv)

text \<open>C26: with a limit of \<open>m\<close> tool rounds, and no follow-up posted meanwhile, \<open>process_input\<close> ends, whatever provider
  and tools do, and asks the provider at most \<open>m\<close> times for the input and for each follow-up in the queue.\<close>

theorem agent_input_bounded:
  assumes "silent E" "cf_max_tool_rounds (ae_config E) = int m" "m > 0" "f \<ge> (length (se_follow_ups S) + 1) * (m + 3)"
  shows "\<exists>r T. process_input f E p S = Some (r, T)
    \<and> se_call_count T \<le> se_call_count S + m * (length (se_follow_ups S) + 1)"
proof -
  have "done_within m m S (process_input f E p S)"
    using bounded_run [OF assms(1-3)] assms(4) by blast
  moreover have "m * (length (se_follow_ups S) + 1) = m * length (se_follow_ups S) + m" by simp
  ultimately show ?thesis by (cases "process_input f E p S") (auto simp: done_within_def)
qed

theorem agent_input_bounded_witness:
  "\<exists>r T. process_input 5 (scripted_env small_config [read_tool]) ''go'' (session_init [Inr (reply_call ''c1'')]) = Some (r, T)
    \<and> se_call_count T \<le> 2"
  using agent_input_bounded [OF scripted_silent [of small_config "[read_tool]"], where m = 2 and f = 5
      and S = "session_init [Inr (reply_call ''c1'')]" and p = "''go''"]
    small_rounds [of "[read_tool]"] by (simp add: session_init_def numeral_2_eq_2)

text \<open>with the default window of ten calls the loop detector warns exactly when the last ten calls repeat with
  period two (or one). A loop of three calls, which it also promises to find, never gives a warning by itself: ten is no
  multiple of three.\<close>

theorem loop_detector_window:
  assumes "length sigs = 10"
  shows "check_loop 10 sigs \<noteq> None \<longleftrightarrow> (\<forall>i<8. sigs ! (i + 2) = sigs ! i)"
proof -
  obtain a0 a1 a2 a3 a4 a5 a6 a7 a8 a9 where s: "sigs = [a0, a1, a2, a3, a4, a5, a6, a7, a8, a9]"
    using list_of_ten [OF assms] by blast
  have "check_loop 10 sigs \<noteq> None \<longleftrightarrow> repeats 1 sigs \<or> repeats 2 sigs"
    using assms by (auto simp: check_loop_def)
  also have "\<dots> \<longleftrightarrow> a2 = a0 \<and> a3 = a1 \<and> a4 = a2 \<and> a5 = a3 \<and> a6 = a4 \<and> a7 = a5 \<and> a8 = a6 \<and> a9 = a7"
    by (auto simp: s repeats_def upt_rec)
  also have "\<dots> \<longleftrightarrow> (\<forall>i<8. sigs ! (i + 2) = sigs ! i)"
    by (simp add: s numeral_eq_Suc All_less_Suc) blast
  finally show ?thesis .
qed

theorem loop_detector_window_witness:
  "check_loop 10 (map (\<lambda>i. if i mod 3 = 0 then ''a'' else if i mod 3 = 1 then ''b'' else ''c'') [0..<10]) = None"
  using loop_detector_window [of "map (\<lambda>i. if i mod 3 = 0 then ''a'' else if i mod 3 = 1 then ''b'' else ''c'') [0..<10]"]
  by (auto simp: upt_rec dest: spec [of _ 0])

end
