(* ===== verification/Patch_Tool.thy ===== *)
theory Patch_Tool
  imports Tool_Handler
begin

text \<open>
  The patch tool of the agent, \<open>modules/tool-apply-patch\<close>: the parser of the patch format (\<open>parser.py\<close>)
  and the application of its operations to files (\<open>__init__.py\<close>).

  The disk is the text of each file by its path, a path is its text (two spellings of one file are two
  files), and \<open>di_refuses\<close> says which reads, writes, deletions and directories the operating system
  refuses, with the exception. Reading translates the line ends as Python's text mode does.
\<close>

section \<open>The patch\<close>

datatype line_kind = Context | Delete | Add

record hunk =
  hk_hint :: string
  hk_lines :: "(line_kind \<times> string) list"

datatype patch_op =
    Add_File (op_path: string) string
  | Delete_File (op_path: string)
  | Update_File (op_path: string) "hunk list" "string option"

definition add_header :: string where "add_header = ''*** Add File: ''"
definition delete_header :: string where "delete_header = ''*** Delete File: ''"
definition update_header :: string where "update_header = ''*** Update File: ''"
definition move_header :: string where "move_header = ''*** Move to: ''"

definition is_content_line :: "string \<Rightarrow> bool" where
  "is_content_line line = startswith ''+'' line"

definition is_hunk_line :: "string \<Rightarrow> bool" where
  "is_hunk_line line = (case line of [] \<Rightarrow> False | c # cs \<Rightarrow> c \<in> set '' -+'')"

definition invalid_hunk_line :: "string \<Rightarrow> exc" where
  "invalid_hunk_line line = value_error (''Invalid hunk line: '' @ repr_str line)"

definition parse_hunk_line :: "string \<Rightarrow> exc + (line_kind \<times> string)" where
  "parse_hunk_line line =
     (if startswith '' '' line then Inr (Context, tl line)
      else if startswith ''-'' line then Inr (Delete, tl line)
      else if startswith ''+'' line then Inr (Add, tl line)
      else Inl (invalid_hunk_line line))"

fun parse_hunk_lines :: "string list \<Rightarrow> exc + (line_kind \<times> string) list" where
  "parse_hunk_lines [] = Inr []"
| "parse_hunk_lines (l # ls) =
     (case parse_hunk_line l of
        Inl e \<Rightarrow> Inl e
      | Inr x \<Rightarrow> (case parse_hunk_lines ls of Inl e \<Rightarrow> Inl e | Inr xs \<Rightarrow> Inr (x # xs)))"

section \<open>The parser\<close>

definition find_line :: "string list \<Rightarrow> string \<Rightarrow> nat \<Rightarrow> nat option" where
  "find_line lines prefix start = find (\<lambda>i. py_strip (lines ! i) = prefix) [start..<length lines]"

text \<open>The hunks at the head of the lines, and the lines after them. A line that could belong to a hunk but
  follows no header is skipped.\<close>

fun parse_hunks :: "nat \<Rightarrow> string list \<Rightarrow> exc + (hunk list \<times> string list)" where
  "parse_hunks 0 ls = Inr ([], ls)"
| "parse_hunks (Suc n) [] = Inr ([], [])"
| "parse_hunks (Suc n) (l # ls) =
     (if startswith ''@@ '' l then
        (case parse_hunk_lines (takeWhile is_hunk_line ls) of
           Inl e \<Rightarrow> Inl e
         | Inr xs \<Rightarrow>
             (case parse_hunks n (dropWhile is_hunk_line ls) of
                Inl e \<Rightarrow> Inl e
              | Inr (hs, rest) \<Rightarrow> Inr (\<lparr>hk_hint = py_strip (drop 3 l), hk_lines = xs\<rparr> # hs, rest)))
      else if is_hunk_line l then parse_hunks n ls
      else Inr ([], l # ls))"

definition file_content :: "string list \<Rightarrow> string" where
  "file_content ls = py_join [CHR 0x0A] ls @ (if ls \<noteq> [] then [CHR 0x0A] else [])"

definition parse_move :: "string list \<Rightarrow> string option \<times> string list" where
  "parse_move ls =
     (case ls of
        [] \<Rightarrow> (None, [])
      | l # rest \<Rightarrow> (if startswith move_header l then (Some (drop (length move_header) l), rest) else (None, ls)))"

text \<open>The operations between the markers. Every pass uses up a line; the number of lines is the bound.\<close>

fun parse_operations :: "nat \<Rightarrow> string list \<Rightarrow> exc + patch_op list" where
  "parse_operations 0 ls = Inr []"
| "parse_operations (Suc n) [] = Inr []"
| "parse_operations (Suc n) (l # ls) =
     (if startswith add_header l then
        (case parse_operations n (dropWhile is_content_line ls) of
           Inl e \<Rightarrow> Inl e
         | Inr ops \<Rightarrow>
             Inr (Add_File (drop (length add_header) l) (file_content (map tl (takeWhile is_content_line ls))) # ops))
      else if startswith delete_header l then
        (case parse_operations n ls of
           Inl e \<Rightarrow> Inl e | Inr ops \<Rightarrow> Inr (Delete_File (drop (length delete_header) l) # ops))
      else if startswith update_header l then
        (let (move, rest) = parse_move ls in
         case parse_hunks (length rest) rest of
           Inl e \<Rightarrow> Inl e
         | Inr (hs, rest2) \<Rightarrow>
             (case parse_operations n rest2 of
                Inl e \<Rightarrow> Inl e | Inr ops \<Rightarrow> Inr (Update_File (drop (length update_header) l) hs move # ops)))
      else parse_operations n ls)"

definition parse_v4a_patch :: "string \<Rightarrow> exc + patch_op list" where
  "parse_v4a_patch patch =
     (let lines = py_split [CHR 0x0A] patch in
      case find_line lines ''*** Begin Patch'' 0 of
        None \<Rightarrow> Inl (value_error (''Missing '' @ quoted ''*** Begin Patch'' @ '' header''))
      | Some b \<Rightarrow>
          (case find_line lines ''*** End Patch'' (b + 1) of
             None \<Rightarrow> Inl (value_error (''Missing '' @ quoted ''*** End Patch'' @ '' footer''))
           | Some e \<Rightarrow> (let body = take (e - (b + 1)) (drop (b + 1) lines) in parse_operations (length body) body)))"

section \<open>Hunks\<close>

definition match_lines :: "hunk \<Rightarrow> string list" where
  "match_lines h = map snd (filter (\<lambda>(k, s). k = Context \<or> k = Delete) (hk_lines h))"

definition added_lines :: "hunk \<Rightarrow> string list" where
  "added_lines h = map snd (filter (\<lambda>(k, s). k = Add) (hk_lines h))"

text \<open>The exact match first, then one up to the white space at the ends of lines. The hint is not looked at.\<close>

definition find_match :: "string list \<Rightarrow> string list \<Rightarrow> string \<Rightarrow> nat option" where
  "find_match file ms hint =
     (let m = length ms; places = [0..<Suc (length file) - m] in
      if m = 0 then Some 0
      else case find (\<lambda>i. take m (drop i file) = ms) places of
             Some i \<Rightarrow> Some i
           | None \<Rightarrow> find (\<lambda>i. map py_rstrip (take m (drop i file)) = map py_rstrip ms) places)"

definition index_error :: exc where
  "index_error = PyError ''IndexError'' False ''list index out of range''"

text \<open>The walk through the lines of a hunk and the file from the place of the match.\<close>

fun rewrite :: "(line_kind \<times> string) list \<Rightarrow> string list \<Rightarrow> exc + string list" where
  "rewrite [] fs = Inr fs"
| "rewrite ((Context, s) # hs) fs =
     (case fs of [] \<Rightarrow> Inl index_error | f # fs' \<Rightarrow> (case rewrite hs fs' of Inl e \<Rightarrow> Inl e | Inr r \<Rightarrow> Inr (f # r)))"
| "rewrite ((Delete, s) # hs) fs = rewrite hs (tl fs)"
| "rewrite ((Add, s) # hs) fs = (case rewrite hs fs of Inl e \<Rightarrow> Inl e | Inr r \<Rightarrow> Inr (s # r))"

definition no_match :: "hunk \<Rightarrow> string \<Rightarrow> exc" where
  "no_match h filename =
     value_error (''Could not find hunk match in '' @ filename @ '' (context hint: '' @ repr_str (hk_hint h) @ '')'')"

definition apply_hunk :: "string list \<Rightarrow> hunk \<Rightarrow> string \<Rightarrow> exc + string list" where
  "apply_hunk file h filename =
     (if match_lines h = [] then Inr (file @ added_lines h)
      else case find_match file (match_lines h) (hk_hint h) of
             None \<Rightarrow> Inl (no_match h filename)
           | Some p \<Rightarrow>
               (case rewrite (hk_lines h) (drop p file) of Inl e \<Rightarrow> Inl e | Inr r \<Rightarrow> Inr (take p file @ r)))"

fun apply_hunks :: "string list \<Rightarrow> hunk list \<Rightarrow> string \<Rightarrow> exc + string list" where
  "apply_hunks file [] filename = Inr file"
| "apply_hunks file (h # hs) filename =
     (case apply_hunk file h filename of Inl e \<Rightarrow> Inl e | Inr file' \<Rightarrow> apply_hunks file' hs filename)"

text \<open>The lines joined again, with the line end at the end of the file.\<close>

definition rejoin :: "string \<Rightarrow> string list \<Rightarrow> string" where
  "rejoin content lines =
     (let new = py_join [CHR 0x0A] lines in
      if (endswith [CHR 0x0A] content \<or> (lines \<noteq> [] \<and> last lines = [])) \<and> \<not> endswith [CHR 0x0A] new
      then new @ [CHR 0x0A] else new)"

definition update_text :: "string \<Rightarrow> hunk list \<Rightarrow> string \<Rightarrow> exc + string" where
  "update_text content hs filename =
     (case apply_hunks (py_splitlines content) hs filename of
        Inl e \<Rightarrow> Inl e | Inr lines \<Rightarrow> Inr (rejoin content lines))"

section \<open>Files\<close>

type_synonym disk = "string dict"

record disk_env =
  di_working_dir :: "string option"
  di_refuses :: "string \<Rightarrow> string \<Rightarrow> exc option"

fun universal_newlines :: "string \<Rightarrow> string" where
  "universal_newlines [] = []"
| "universal_newlines (c # cs) =
     (if c = CHR 0x0D \<and> cs \<noteq> [] \<and> hd cs = CHR 0x0A then universal_newlines cs
      else if c = CHR 0x0D then CHR 0x0A # universal_newlines cs
      else c # universal_newlines cs)"

definition resolve_path :: "disk_env \<Rightarrow> string \<Rightarrow> string" where
  "resolve_path D rel =
     (if str_true (di_working_dir D) \<and> \<not> startswith ''/'' rel then the (di_working_dir D) @ ''/'' @ rel else rel)"

definition not_found :: "string \<Rightarrow> exc" where
  "not_found path = PyError ''FileNotFoundError'' False (''File not found: '' @ path)"

text \<open>One of the operations \<open>mkdir\<close> (of the parent), \<open>write\<close>, \<open>read\<close> and \<open>unlink\<close> on a path.\<close>

definition permitted :: "disk_env \<Rightarrow> string \<Rightarrow> string \<Rightarrow> exc + 'a \<Rightarrow> exc + 'a" where
  "permitted D action path r = (case di_refuses D action path of Some e \<Rightarrow> Inl e | None \<Rightarrow> r)"

definition write_file :: "disk_env \<Rightarrow> string \<Rightarrow> string \<Rightarrow> disk \<Rightarrow> exc + disk" where
  "write_file D path content disk = permitted D ''write'' path (Inr (dict_set path content disk))"

definition unlink_file :: "disk_env \<Rightarrow> string \<Rightarrow> disk \<Rightarrow> exc + disk" where
  "unlink_file D path disk = permitted D ''unlink'' path (Inr (dict_pop path disk))"

text \<open>Each operation gives the exception, if any, the summary and the disk.\<close>

definition apply_add_file :: "disk_env \<Rightarrow> string \<Rightarrow> string \<Rightarrow> disk \<Rightarrow> (exc + string) \<times> disk" where
  "apply_add_file D path content disk =
     (case permitted D ''mkdir'' (resolve_path D path) (write_file D (resolve_path D path) content disk) of
        Inl e \<Rightarrow> (Inl e, disk) | Inr disk' \<Rightarrow> (Inr (''Added '' @ path), disk'))"

definition apply_delete_file :: "disk_env \<Rightarrow> string \<Rightarrow> disk \<Rightarrow> (exc + string) \<times> disk" where
  "apply_delete_file D path disk =
     (if dict_get disk (resolve_path D path) = None then (Inl (not_found path), disk)
      else case unlink_file D (resolve_path D path) disk of
             Inl e \<Rightarrow> (Inl e, disk) | Inr disk' \<Rightarrow> (Inr (''Deleted '' @ path), disk'))"

definition store_update ::
    "disk_env \<Rightarrow> string \<Rightarrow> string option \<Rightarrow> string \<Rightarrow> disk \<Rightarrow> (exc + string) \<times> disk" where
  "store_update D path move_to new disk =
     (if str_true move_to
      then let target = resolve_path D (the move_to) in
           case permitted D ''mkdir'' target (write_file D target new disk) of
             Inl e \<Rightarrow> (Inl e, disk)
           | Inr disk1 \<Rightarrow>
               (case unlink_file D (resolve_path D path) disk1 of
                  Inl e \<Rightarrow> (Inl e, disk1)
                | Inr disk2 \<Rightarrow> (Inr (''Updated and moved '' @ path @ '' -> '' @ the move_to), disk2))
      else case write_file D (resolve_path D path) new disk of
             Inl e \<Rightarrow> (Inl e, disk) | Inr disk' \<Rightarrow> (Inr (''Updated '' @ path), disk'))"

definition apply_update_file ::
    "disk_env \<Rightarrow> string \<Rightarrow> hunk list \<Rightarrow> string option \<Rightarrow> disk \<Rightarrow> (exc + string) \<times> disk" where
  "apply_update_file D path hs move_to disk =
     (case dict_get disk (resolve_path D path) of
        None \<Rightarrow> (Inl (not_found path), disk)
      | Some raw \<Rightarrow>
          (case permitted D ''read'' (resolve_path D path) (update_text (universal_newlines raw) hs path) of
             Inl e \<Rightarrow> (Inl e, disk)
           | Inr new \<Rightarrow> store_update D path move_to new disk))"

fun apply_operation :: "disk_env \<Rightarrow> patch_op \<Rightarrow> disk \<Rightarrow> (exc + string) \<times> disk" where
  "apply_operation D (Add_File path content) disk = apply_add_file D path content disk"
| "apply_operation D (Delete_File path) disk = apply_delete_file D path disk"
| "apply_operation D (Update_File path hs move_to) disk = apply_update_file D path hs move_to disk"

section \<open>The tool\<close>

datatype patch_result = Patch_Failed string | Patch_Applied "string list" string

definition op_name :: "patch_op \<Rightarrow> string" where
  "op_name op =
     (case op of Add_File p c \<Rightarrow> ''add_file'' | Delete_File p \<Rightarrow> ''delete_file'' | Update_File p hs m \<Rightarrow> ''update_file'')"

text \<open>The operations in order, up to the first that fails: its message, or the summaries.\<close>

fun apply_operations :: "disk_env \<Rightarrow> patch_op list \<Rightarrow> disk \<Rightarrow> (string + string list) \<times> disk" where
  "apply_operations D [] disk = (Inr [], disk)"
| "apply_operations D (op # ops) disk =
     (case apply_operation D op disk of
        (Inl e, disk1) \<Rightarrow>
          (Inl (''Error applying '' @ op_name op @ '' to '' @ op_path op @ '': '' @ exc_str e), disk1)
      | (Inr summary, disk1) \<Rightarrow>
          (case apply_operations D ops disk1 of
             (Inl msg, disk2) \<Rightarrow> (Inl msg, disk2)
           | (Inr summaries, disk2) \<Rightarrow> (Inr (summary # summaries), disk2)))"

definition patch_execute :: "disk_env \<Rightarrow> string option \<Rightarrow> disk \<Rightarrow> patch_result \<times> disk" where
  "patch_execute D patch disk =
     (if \<not> str_true patch then (Patch_Failed ''patch parameter is required'', disk)
      else case parse_v4a_patch (the patch) of
             Inl e \<Rightarrow> (Patch_Failed (''Patch parse error: '' @ exc_str e), disk)
           | Inr ops \<Rightarrow>
               (if ops = [] then (Patch_Failed ''Patch contains no operations'', disk)
                else case apply_operations D ops disk of
                       (Inl msg, disk') \<Rightarrow> (Patch_Failed msg, disk')
                     | (Inr summaries, disk') \<Rightarrow>
                         (Patch_Applied (map op_path ops) (py_join ''; '' summaries), disk')))"

end
