(* ===== verification/Patch_Properties.thy ===== *)
theory Patch_Properties
  imports Patch_Tool
begin

text \<open>
  Properties of the patch tool: the parser reads back every rendered patch, a hunk replaces the first
  place it matches and nothing else, an update keeps the line end of its file, and a patch changes only
  the files it names, up to the first operation that fails.
\<close>

section \<open>Lines\<close>

abbreviation nl :: string where "nl \<equiv> [CHR 0x0A]"

definition clean :: "string \<Rightarrow> bool" where
  "clean s = (CHR 0x0A \<notin> set s)"

lemma split_nl_clean: "clean s \<Longrightarrow> split_go nl acc s = [rev acc @ s]"
  by (induction s arbitrary: acc) (auto simp: clean_def)

lemma split_nl_append: "clean s \<Longrightarrow> split_go nl acc (s @ CHR 0x0A # t) = (rev acc @ s) # split_go nl [] t"
  by (induction s arbitrary: acc) (auto simp: clean_def)

lemma split_join: "ls \<noteq> [] \<Longrightarrow> list_all clean ls \<Longrightarrow> py_split nl (py_join nl ls) = ls"
  unfolding py_split_def
proof (induction nl ls rule: py_join.induct)
  case (3 x y ys)
  then show ?case using split_nl_append [of x "[]"] by simp
qed (use split_nl_clean in auto)

lemma split_nl_some: "split_go nl acc s \<noteq> []"
  by (induction s arbitrary: acc) auto

lemma join_split_go: "py_join nl (split_go nl acc s) = rev acc @ s"
proof (induction s arbitrary: acc)
  case (Cons c s)
  show ?case
  proof (cases "c = CHR 0x0A")
    case True
    obtain y ys where "split_go nl [] s = y # ys" using split_nl_some [of "[]" s] by (cases "split_go nl [] s") auto
    then show ?thesis using True Cons.IH [of "[]"] by simp
  next
    case False
    then show ?thesis using Cons.IH [of "c # acc"] by auto
  qed
qed simp

lemma split_clean_all: "clean (rev acc) \<Longrightarrow> list_all clean (split_go nl acc s)"
  by (induction s arbitrary: acc) (auto simp: clean_def)

lemma rstrip_append: "u \<noteq> [] \<Longrightarrow> \<not> py_isspace (last u) \<Longrightarrow> py_rstrip (u @ r) = u @ py_rstrip r"
proof -
  assume u: "u \<noteq> []" "\<not> py_isspace (last u)"
  have "dropWhile py_isspace (rev u) = rev u"
    using u by (cases u rule: rev_cases) auto
  then have "dropWhile py_isspace (rev r @ rev u) = dropWhile py_isspace (rev r) @ rev u"
    by (cases "\<forall>x\<in>set (rev r). py_isspace x") (auto simp: dropWhile_append)
  then show ?thesis by (simp add: py_rstrip_def)
qed

lemma strip_starts: "u \<noteq> [] \<Longrightarrow> \<not> py_isspace (last u) \<Longrightarrow> \<not> py_isspace (hd u) \<Longrightarrow> py_strip (u @ r) = u @ py_rstrip r"
proof -
  assume u: "u \<noteq> []" "\<not> py_isspace (last u)" "\<not> py_isspace (hd u)"
  then have "py_lstrip (u @ r) = u @ r" by (cases u) (simp_all add: py_lstrip_def)
  then show ?thesis using rstrip_append [OF u(1,2)] by (simp add: py_strip_def)
qed

section \<open>Rendering\<close>

definition mark :: "line_kind \<Rightarrow> string" where
  "mark k = (case k of Context \<Rightarrow> '' '' | Delete \<Rightarrow> ''-'' | Add \<Rightarrow> ''+'')"

definition render_line :: "line_kind \<times> string \<Rightarrow> string" where
  "render_line x = mark (fst x) @ snd x"

definition render_hunk :: "hunk \<Rightarrow> string list" where
  "render_hunk h = (''@@ '' @ hk_hint h) # map render_line (hk_lines h)"

definition content_lines :: "string \<Rightarrow> string list" where
  "content_lines c = (if c = [] then [] else py_split nl (butlast c))"

fun render_op :: "patch_op \<Rightarrow> string list" where
  "render_op (Add_File p c) = (add_header @ p) # map (\<lambda>l. CHR ''+'' # l) (content_lines c)"
| "render_op (Delete_File p) = [delete_header @ p]"
| "render_op (Update_File p hs m) =
     (update_header @ p) # (case m of None \<Rightarrow> [] | Some q \<Rightarrow> [move_header @ q]) @ concat (map render_hunk hs)"

definition render_patch :: "patch_op list \<Rightarrow> string" where
  "render_patch ops = py_join nl (''*** Begin Patch'' # concat (map render_op ops) @ [''*** End Patch'', []])"

text \<open>What the format can carry: paths and lines without line ends, hints without outer white space, added files that
  are empty or end in a line end, and no context line that reads like the end of the patch.\<close>

definition hunk_ok :: "hunk \<Rightarrow> bool" where
  "hunk_ok h =
     (clean (hk_hint h) \<and> py_strip (hk_hint h) = hk_hint h
      \<and> list_all (\<lambda>(k, s). clean s \<and> (k = Context \<longrightarrow> py_strip s \<noteq> ''*** End Patch'')) (hk_lines h))"

definition op_ok :: "patch_op \<Rightarrow> bool" where
  "op_ok op =
     (clean (op_path op)
      \<and> (case op of Add_File p c \<Rightarrow> c = [] \<or> last c = CHR 0x0A | Delete_File p \<Rightarrow> True
         | Update_File p hs m \<Rightarrow> list_all hunk_ok hs \<and> (case m of None \<Rightarrow> True | Some q \<Rightarrow> clean q)))"

section \<open>Parsing what was rendered\<close>

lemma parse_rendered_line [simp]: "parse_hunk_line (render_line x) = Inr x"
  by (cases x; cases "fst x") (auto simp: parse_hunk_line_def render_line_def mark_def)

lemma parse_rendered_lines [simp]: "parse_hunk_lines (map render_line xs) = Inr xs"
  by (induction xs) simp_all

lemma rendered_is_hunk_line [simp]: "is_hunk_line (render_line x)"
  by (cases x; cases "fst x") (auto simp: is_hunk_line_def render_line_def mark_def)

text \<open>The lines after an operation: nothing, or the header of the next one.\<close>

definition starts_op :: "string list \<Rightarrow> bool" where
  "starts_op ls =
     (case ls of [] \<Rightarrow> True
      | l # rest \<Rightarrow> startswith add_header l \<or> startswith delete_header l \<or> startswith update_header l)"

lemmas headers = add_header_def delete_header_def update_header_def move_header_def

lemma starts_op_cases:
  assumes "starts_op ls"
  obtains "ls = []" | r rest where "ls = (''*** '' @ r) # rest" "\<not> startswith move_header (''*** '' @ r)"
proof (cases ls)
  case (Cons l rest)
  then show ?thesis using assms that(2) by (auto simp: starts_op_def headers startswith_iff)
qed (use that in simp)

lemma after_op:
  assumes "starts_op ls"
  shows "takeWhile is_hunk_line ls = []" "dropWhile is_hunk_line ls = ls" "takeWhile is_content_line ls = []"
    "dropWhile is_content_line ls = ls" "parse_hunks n ls = Inr ([], ls)" "parse_move ls = (None, ls)"
  using assms
  by (cases ls rule: starts_op_cases; cases n; simp add: is_hunk_line_def is_content_line_def parse_move_def)+

lemma render_hunk_length [simp]: "length (render_hunk h) = Suc (length (hk_lines h))"
  by (simp add: render_hunk_def)

lemma parse_rendered_hunks:
  assumes "list_all hunk_ok hs" "starts_op rest" "length (concat (map render_hunk hs)) \<le> n"
  shows "parse_hunks n (concat (map render_hunk hs) @ rest) = Inr (hs, rest)"
  using assms
proof (induction hs arbitrary: n)
  case Nil
  then show ?case using after_op [OF Nil(2)] by simp
next
  case (Cons h hs)
  let ?more = "concat (map render_hunk hs) @ rest"
  obtain m where n: "n = Suc m" using Cons.prems by (cases n) (auto simp: render_hunk_def)
  have more: "takeWhile is_hunk_line ?more = []" "dropWhile is_hunk_line ?more = ?more"
    using after_op [OF Cons.prems(2)] by (cases hs; simp add: render_hunk_def is_hunk_line_def)+
  have w: "takeWhile is_hunk_line (map render_line xs @ ?more) = map render_line xs"
      "dropWhile is_hunk_line (map render_line xs @ ?more) = ?more" for xs
    using more by (induction xs) simp_all
  have "length (concat (map render_hunk hs)) \<le> m" using Cons.prems(3) n by simp
  then have m: "parse_hunks m ?more = Inr (hs, rest)" using Cons.IH [of m] Cons.prems by simp
  have hint: "py_strip (hk_hint h) = hk_hint h" using Cons.prems by (simp add: hunk_ok_def)
  have eq: "concat (map render_hunk (h # hs)) @ rest = (''@@ '' @ hk_hint h) # map render_line (hk_lines h) @ ?more"
    by (simp add: render_hunk_def [of h])
  have at: "startswith ''@@ '' (''@@ '' @ hk_hint h)" "drop 3 (''@@ '' @ hk_hint h) = hk_hint h" by simp_all
  show ?case unfolding eq n parse_hunks.simps at w hint m by (simp add: hint)
qed

lemma file_content_lines: "c = [] \<or> last c = CHR 0x0A \<Longrightarrow> file_content (content_lines c) = c"
proof (cases c rule: rev_cases)
  case (snoc d x)
  assume "c = [] \<or> last c = CHR 0x0A"
  then show ?thesis
    using snoc split_nl_some [of "[]" d] join_split_go [of "[]" d]
    by (simp add: content_lines_def file_content_def py_split_def)
qed (simp add: content_lines_def file_content_def)

lemma rendered_starts: "starts_op (concat (map render_op ops))"
proof (cases ops)
  case (Cons op rest)
  then show ?thesis by (cases op) (simp_all add: starts_op_def)
qed (simp add: starts_op_def)

lemma other_header [simp]:
  "\<not> startswith add_header (delete_header @ p)" "\<not> startswith add_header (update_header @ p)"
  "\<not> startswith delete_header (update_header @ p)"
  by (simp_all add: headers)

lemma parse_rendered_ops:
  assumes "list_all op_ok ops" "length (concat (map render_op ops)) \<le> n"
  shows "parse_operations n (concat (map render_op ops)) = Inr ops"
  using assms
proof (induction ops arbitrary: n)
  case Nil
  then show ?case by (cases n) simp_all
next
  case (Cons op ops)
  let ?more = "concat (map render_op ops)"
  obtain m where n: "n = Suc m" using Cons.prems by (cases n; cases op) auto
  have more: "parse_operations m ?more = Inr ops" using Cons n by (cases op) auto
  note after = after_op [OF rendered_starts [of ops]]
  show ?case
  proof (cases op)
    case (Add_File p c)
    have w: "takeWhile is_content_line (map (\<lambda>l. CHR ''+'' # l) xs @ ?more) = map (\<lambda>l. CHR ''+'' # l) xs"
        "dropWhile is_content_line (map (\<lambda>l. CHR ''+'' # l) xs @ ?more) = ?more" for xs
      using after by (induction xs) (simp_all add: is_content_line_def)
    have "file_content (content_lines c) = c" using Cons.prems Add_File by (intro file_content_lines) (simp add: op_ok_def)
    moreover have "map tl (map (\<lambda>l. CHR ''+'' # l) xs) = xs" for xs :: "string list" by (induction xs) simp_all
    ultimately show ?thesis using w more by (simp add: Add_File n del: map_map)
  next
    case (Delete_File p)
    then show ?thesis using more by (simp add: n)
  next
    case (Update_File p hs mv)
    let ?hs = "concat (map render_hunk hs)"
    have h: "parse_hunks (length (?hs @ ?more)) (?hs @ ?more) = Inr (hs, ?more)"
      by (rule parse_rendered_hunks) (use Cons.prems Update_File rendered_starts in \<open>simp_all add: op_ok_def\<close>)
    have "parse_move ((case mv of None \<Rightarrow> [] | Some q \<Rightarrow> [move_header @ q]) @ ?hs @ ?more) = (mv, ?hs @ ?more)"
    proof (cases mv)
      case None
      then show ?thesis using after(6) by (cases hs) (simp_all add: parse_move_def render_hunk_def headers)
    qed (simp add: parse_move_def)
    then show ?thesis using h more by (simp add: Update_File n)
  qed
qed

text \<open>No line of a rendered operation reads like the end of the patch, and none has a line end.\<close>

lemma not_the_end:
  assumes "u \<noteq> []" "\<not> py_isspace (last u)" "\<not> py_isspace (hd u)" "take (length u) ''*** End Patch'' \<noteq> u"
  shows "py_strip (u @ r) \<noteq> ''*** End Patch''"
proof
  assume "py_strip (u @ r) = ''*** End Patch''"
  then have "take (length u) ''*** End Patch'' = u" using strip_starts [OF assms(1-3), of r] by (metis append_eq_conv_conj)
  then show False using assms(4) by simp
qed

lemma strip_space: "py_strip (CHR '' '' # s) = py_strip s"
  by (simp add: py_strip_def py_lstrip_def py_isspace_def)

lemma rendered_line_inside:
  assumes "clean s" "k = Context \<longrightarrow> py_strip s \<noteq> ''*** End Patch''"
  shows "clean (render_line (k, s)) \<and> py_strip (render_line (k, s)) \<noteq> ''*** End Patch''"
  using assms not_the_end [of "''-''" s] not_the_end [of "''+''" s]
  by (cases k) (auto simp: render_line_def mark_def clean_def strip_space py_isspace_def)

definition inside :: "string \<Rightarrow> bool" where
  "inside l = (clean l \<and> py_strip l \<noteq> ''*** End Patch'')"

lemma rendered_hunk_inside: "hunk_ok h \<Longrightarrow> list_all inside (render_hunk h)"
  using rendered_line_inside not_the_end [of "''@@''" "CHR '' '' # hk_hint h"]
  by (auto simp: hunk_ok_def render_hunk_def inside_def list_all_iff clean_def py_isspace_def)

lemma rendered_op_inside: "op_ok op \<Longrightarrow> list_all inside (render_op op)"
proof (cases op)
  case (Add_File p c)
  assume "op_ok op"
  moreover have "list_all clean (content_lines c)"
    using split_clean_all [of "[]"] by (simp add: content_lines_def py_split_def clean_def)
  ultimately show ?thesis
    using Add_File not_the_end [of "''+''"] not_the_end [of "''*** A''" "''dd File: '' @ p"]
    by (auto simp: op_ok_def inside_def list_all_iff clean_def py_isspace_def headers)
next
  case (Delete_File p)
  assume "op_ok op"
  then show ?thesis using Delete_File not_the_end [of "''*** D''" "''elete File: '' @ p"]
    by (auto simp: op_ok_def inside_def clean_def py_isspace_def headers)
next
  case (Update_File p hs mv)
  assume ok: "op_ok op"
  then have "list_all inside (concat (map render_hunk hs))"
    using rendered_hunk_inside by (auto simp: Update_File op_ok_def list_all_iff)
  then show ?thesis
    using ok not_the_end [of "''*** U''" "''pdate File: '' @ p"] not_the_end [of "''*** M''" "''ove to: '' @ the mv"]
    by (cases mv) (auto simp: Update_File op_ok_def inside_def clean_def py_isspace_def headers)
qed

lemma parse_rendered_patch:
  assumes "list_all op_ok ops"
  shows "parse_v4a_patch (render_patch ops) = Inr ops"
proof -
  let ?b = "concat (map render_op ops)"
  define ls where "ls = ''*** Begin Patch'' # ?b @ [''*** End Patch'', []]"
  have inside: "list_all inside ?b" using assms rendered_op_inside by (auto simp: list_all_iff)
  have "list_all clean ls" using inside by (auto simp: ls_def list_all_iff inside_def clean_def)
  then have lines: "py_split nl (render_patch ops) = ls" using split_join [of ls] by (simp add: ls_def render_patch_def)
  have strip: "py_strip ''*** Begin Patch'' = ''*** Begin Patch''" "py_strip ''*** End Patch'' = ''*** End Patch''"
    by (simp_all add: py_strip_def py_lstrip_def py_rstrip_def py_isspace_def)
  have "[0..<length ls] = 0 # [1..<length ls]" by (simp add: ls_def upt_rec)
  then have b: "find_line ls ''*** Begin Patch'' 0 = Some 0" using strip by (simp add: find_line_def ls_def)
  have "find_line ls ''*** End Patch'' 1 = Some (length ?b + 1)"
  proof -
    have "[1..<length ls] = [1..<length ?b + 1] @ [length ?b + 1..<length ls]"
      using upt_add_eq_append [of 1 "length ?b + 1" 2] by (simp add: ls_def)
    moreover have "[length ?b + 1..<length ls] = [length ?b + 1, length ?b + 2]"
      by (simp add: ls_def upt_rec)
    moreover have "find (\<lambda>i. py_strip (ls ! i) = ''*** End Patch'') [1..<length ?b + 1] = None"
    proof -
      have "py_strip (ls ! i) \<noteq> ''*** End Patch''" if "1 \<le> i" "i < length ?b + 1" for i
      proof -
        have "ls ! i = ?b ! (i - 1)" "i - 1 < length ?b" using that by (auto simp: ls_def nth_append nth_Cons')
        then show ?thesis using inside by (simp add: list_all_length inside_def)
      qed
      then show ?thesis by (auto simp: find_None_iff)
    qed
    moreover have "find P (xs @ ys) = (case find P xs of None \<Rightarrow> find P ys | Some x \<Rightarrow> Some x)" for P and xs ys :: "nat list"
      by (induction xs) auto
    ultimately show ?thesis using strip by (simp add: find_line_def ls_def nth_append)
  qed
  then show ?thesis
    using parse_rendered_ops [OF assms order_refl] b by (simp add: parse_v4a_patch_def lines Let_def) (simp add: ls_def)
qed

text \<open>C27: The parser reads back what the grammar writes, but for one thing it cannot carry. Rendering operations line by line
  as the grammar says and parsing the text gives the operations, with their paths, contents, hints, hunk lines and
  renames, for all operations whose paths and lines hold no line end, whose hints have no outer white space, whose
  added files are empty or end in a line end, and in which no context line reads \<open>*** End Patch\<close> up to white space. Such a
  context line, which the grammar allows, is taken for the end of the patch (the lemma after the witness).\<close>

theorem patch_roundtrip:
  assumes "list_all op_ok ops"
  shows "parse_v4a_patch (render_patch ops) = Inr ops"
  using assms by (rule parse_rendered_patch)

theorem patch_roundtrip_witness:
  "parse_v4a_patch (render_patch [Update_File ''a.py'' [\<lparr>hk_hint = ''def f'', hk_lines = [(Context, ''x''), (Delete, ''y''), (Add, ''z'')]\<rparr>] (Some ''b.py''),
     Delete_File ''c'']) = Inr [Update_File ''a.py'' [\<lparr>hk_hint = ''def f'', hk_lines = [(Context, ''x''), (Delete, ''y''), (Add, ''z'')]\<rparr>] (Some ''b.py''),
     Delete_File ''c'']"
  by (rule patch_roundtrip) code_simp

text \<open>A context line that reads like the footer cuts the patch silently: the rest of the hunk and the later operations are lost.\<close>

lemma footer_in_context_cuts:
  "parse_v4a_patch (render_patch
     [Update_File ''a'' [\<lparr>hk_hint = [], hk_lines = [(Context, ''x''), (Context, ''*** End Patch''), (Add, ''y'')]\<rparr>] None, Delete_File ''b''])
   = Inr [Update_File ''a'' [\<lparr>hk_hint = [], hk_lines = [(Context, ''x'')]\<rparr>] None]"
  by code_simp

section \<open>Hunks\<close>

text \<open>What a hunk makes of the lines it matches, as it is written.\<close>

definition new_lines :: "hunk \<Rightarrow> string list" where
  "new_lines h = map snd (filter (\<lambda>(k, s). k \<noteq> Delete) (hk_lines h))"

definition old_of :: "(line_kind \<times> string) list \<Rightarrow> string list" where
  "old_of xs = map snd (filter (\<lambda>(k, s). k = Context \<or> k = Delete) xs)"

lemma rewrite_length:
  "length (old_of xs) \<le> length fs \<Longrightarrow>
   \<exists>r. rewrite xs fs = Inr (r @ drop (length (old_of xs)) fs)
     \<and> length r + length (old_of xs) = length xs + length (filter (\<lambda>(k, s). k = Context) xs)"
proof (induction xs fs rule: rewrite.induct)
  case (2 s hs fs)
  then show ?case by (cases fs) (auto simp: old_of_def)
next
  case (3 s hs fs)
  then show ?case by (cases fs) (auto simp: old_of_def)
next
  case (4 s hs fs)
  then show ?case by (auto simp: old_of_def)
qed (simp add: old_of_def)

lemma rewrite_exact: "rewrite xs (old_of xs @ post) = Inr (map snd (filter (\<lambda>(k, s). k \<noteq> Delete) xs) @ post)"
proof (induction xs)
  case (Cons x xs)
  obtain k s where "x = (k, s)" by force
  then show ?case using Cons by (cases k) (simp_all add: old_of_def)
qed (simp add: old_of_def)

lemma find_upt_first: "P k \<Longrightarrow> k < n \<Longrightarrow> (\<And>i. i < k \<Longrightarrow> \<not> P i) \<Longrightarrow> find P [0..<n] = Some k"
  by (auto simp: find_Some_iff intro!: exI [of _ k])

text \<open>a hunk whose context and deleted lines occur in the file replaces their first occurrence by its context and added
  lines, and leaves the lines before and after it as they were.\<close>

theorem hunk_replaces_first:
  assumes "match_lines h \<noteq> []"
    and "\<And>i. i < length pre \<Longrightarrow> take (length (match_lines h)) (drop i (pre @ match_lines h @ post)) \<noteq> match_lines h"
  shows "apply_hunk (pre @ match_lines h @ post) h filename = Inr (pre @ new_lines h @ post)"
proof -
  let ?f = "pre @ match_lines h @ post" and ?m = "length (match_lines h)"
  have "find (\<lambda>i. take ?m (drop i ?f) = match_lines h) [0..<Suc (length ?f) - ?m] = Some (length pre)"
    by (rule find_upt_first) (use assms(2) in simp_all)
  then have "find_match ?f (match_lines h) (hk_hint h) = Some (length pre)"
    using assms(1) by (simp add: find_match_def Let_def)
  moreover have "match_lines h = old_of (hk_lines h)" by (simp add: match_lines_def old_of_def)
  ultimately show ?thesis
    using assms(1) rewrite_exact [of "hk_lines h" post] by (simp add: apply_hunk_def new_lines_def)
qed

theorem hunk_replaces_first_witness:
  "apply_hunk [''a'', ''b'', ''c'', ''b''] \<lparr>hk_hint = ''h'', hk_lines = [(Context, ''b''), (Delete, ''c''), (Add, ''d'')]\<rparr> ''f''
   = Inr [''a'', ''b'', ''d'', ''b'']"
  using hunk_replaces_first [of "\<lparr>hk_hint = ''h'', hk_lines = [(Context, ''b''), (Delete, ''c''), (Add, ''d'')]\<rparr>" "[''a'']" "[''b'']" "''f''"]
  by (simp add: match_lines_def new_lines_def)

lemma find_match_place:
  assumes "find_match file ms hint = Some p" "ms \<noteq> []"
  shows "p + length ms \<le> length file \<and> map py_rstrip (take (length ms) (drop p file)) = map py_rstrip ms"
  using assms by (auto simp: find_match_def Let_def find_Some_iff split: option.splits)

text \<open>Whatever a hunk matches, exactly or up to white space at line ends, the lines outside the place are kept, and a
  hunk that applies never runs off the end of the file.\<close>

lemma hunk_frame:
  assumes "apply_hunk file h filename = Inr r" "match_lines h \<noteq> []"
  shows "\<exists>pre old new post. file = pre @ old @ post \<and> r = pre @ new @ post
    \<and> map py_rstrip old = map py_rstrip (match_lines h)"
proof -
  let ?ms = "match_lines h"
  obtain p where p: "find_match file ?ms (hk_hint h) = Some p" using assms by (auto simp: apply_hunk_def split: option.splits)
  have old: "match_lines h = old_of (hk_lines h)" by (simp add: match_lines_def old_of_def)
  note place = find_match_place [OF p assms(2)]
  obtain new where "rewrite (hk_lines h) (drop p file) = Inr (new @ drop (length ?ms) (drop p file))"
  proof -
    have "length (old_of (hk_lines h)) \<le> length (drop p file)" using conjunct1 [OF place] old by simp
    from rewrite_length [OF this] show thesis using that old by force
  qed
  then have "r = take p file @ new @ drop (length ?ms) (drop p file)" using assms p by (simp add: apply_hunk_def)
  moreover have "file = take p file @ take (length ?ms) (drop p file) @ drop (length ?ms) (drop p file)" by (simp only: append_take_drop_id)
  ultimately show ?thesis using place by blast
qed

lemma hint_ignored:
  "apply_hunk file (h\<lparr>hk_hint := x\<rparr>) filename = Inr r \<longleftrightarrow> apply_hunk file h filename = Inr r"
  by (auto simp: apply_hunk_def find_match_def match_lines_def added_lines_def Let_def split: option.splits sum.splits)

section \<open>Files\<close>

text \<open>The paths an operation may write or delete.\<close>

definition touched :: "disk_env \<Rightarrow> patch_op \<Rightarrow> string set" where
  "touched D op =
     insert (resolve_path D (op_path op))
       (case op of Update_File p hs (Some q) \<Rightarrow> {resolve_path D q} | _ \<Rightarrow> {})"

lemma write_file_frame: "write_file D p c disk = Inr disk' \<Longrightarrow> q \<noteq> p \<Longrightarrow> dict_get disk' q = dict_get disk q"
  by (auto simp: write_file_def permitted_def split: option.splits)

lemma unlink_file_frame: "unlink_file D p disk = Inr disk' \<Longrightarrow> q \<noteq> p \<Longrightarrow> dict_get disk' q = dict_get disk q"
  by (auto simp: unlink_file_def permitted_def split: option.splits)

lemma permitted_Inr: "permitted D a p r = Inr x \<Longrightarrow> r = Inr x"
  by (simp add: permitted_def split: option.splits)

lemma store_update_frame:
  assumes "store_update D p m new disk = (r, disk')" "q \<noteq> resolve_path D p"
    "q \<notin> (case m of None \<Rightarrow> {} | Some t \<Rightarrow> {resolve_path D t})"
  shows "dict_get disk' q = dict_get disk q"
proof (cases "str_true m")
  case False
  then show ?thesis using assms by (auto simp: store_update_def split: sum.splits dest: write_file_frame)
next
  case True
  then obtain t where t: "m = Some t" by (cases m) auto
  let ?w = "permitted D ''mkdir'' (resolve_path D t) (write_file D (resolve_path D t) new disk)"
  show ?thesis
  proof (cases ?w)
    case (Inl e)
    then show ?thesis using assms(1) True t by (simp add: store_update_def)
  next
    case (Inr disk1)
    have w: "dict_get disk1 q = dict_get disk q"
      using write_file_frame [OF permitted_Inr [OF Inr]] assms(3) t by simp
    show ?thesis
      using assms(1,2) True t Inr w by (cases "unlink_file D (resolve_path D p) disk1") (auto simp: store_update_def dest: unlink_file_frame)
  qed
qed

lemma apply_operation_frame:
  assumes "apply_operation D op disk = (r, disk')" "q \<notin> touched D op"
  shows "dict_get disk' q = dict_get disk q"
proof (cases op)
  case (Add_File p c)
  then show ?thesis
    using assms by (auto simp: apply_add_file_def touched_def split: sum.splits dest!: permitted_Inr dest: write_file_frame)
next
  case (Delete_File p)
  then show ?thesis
    using assms by (auto simp: apply_delete_file_def touched_def split: sum.splits if_splits dest: unlink_file_frame)
next
  case (Update_File p hs m)
  then show ?thesis
    using assms store_update_frame [of D p m _ disk r disk' q]
    by (auto simp: apply_update_file_def touched_def split: sum.splits option.splits)
qed

lemma apply_operations_frame:
  "apply_operations D ops disk = (r, disk') \<Longrightarrow> q \<notin> (\<Union>op \<in> set ops. touched D op) \<Longrightarrow>
   dict_get disk' q = dict_get disk q"
proof (induction ops arbitrary: disk r)
  case (Cons op ops)
  obtain x disk1 where o: "apply_operation D op disk = (x, disk1)" by force
  have "dict_get disk1 q = dict_get disk q" using apply_operation_frame [OF o] Cons.prems by simp
  then show ?case
    using Cons o by (cases x; cases "apply_operations D ops disk1"; cases "fst (apply_operations D ops disk1)") auto
qed simp

text \<open>C28: a patch changes no file but those it names: whatever happens, the text of every path that is not the path or the
  rename target of one of its operations stays as it was.\<close>

theorem patch_touches_only_named:
  assumes "parse_v4a_patch patch = Inr ops" "q \<notin> (\<Union>op \<in> set ops. touched D op)"
  shows "dict_get (snd (patch_execute D (Some patch) disk)) q = dict_get disk q"
proof -
  obtain r disk' where a: "apply_operations D ops disk = (r, disk')" by force
  have "dict_get disk' q = dict_get disk q" using apply_operations_frame [OF a assms(2)] .
  then show ?thesis using assms(1) a by (simp add: patch_execute_def split: sum.splits)
qed

theorem patch_touches_only_named_witness:
  "dict_get (snd (patch_execute \<lparr>di_working_dir = None, di_refuses = \<lambda>a p. None\<rparr> (Some (render_patch [Delete_File ''c'']))
     [(''c'', ''x''), (''d'', ''y'')])) ''d'' = Some ''y''"
  using patch_touches_only_named [OF parse_rendered_patch, of "[Delete_File ''c'']" "''d''"
      "\<lparr>di_working_dir = None, di_refuses = \<lambda>a p. None\<rparr>" "[(''c'', ''x''), (''d'', ''y'')]"]
  by (simp add: touched_def resolve_path_def op_ok_def clean_def)

text \<open>a patch that fails has applied exactly the operations before the failing one: the files are as these left them,
  and as the failing operation left them, and nothing after it was tried. There is no rollback.\<close>

theorem patch_failure_prefix:
  assumes "apply_operations D ops disk = (Inl msg, disk')"
  shows "\<exists>did op rest summaries disk1 e. ops = did @ op # rest \<and> apply_operations D did disk = (Inr summaries, disk1)
    \<and> apply_operation D op disk1 = (Inl e, disk')
    \<and> msg = ''Error applying '' @ op_name op @ '' to '' @ op_path op @ '': '' @ exc_str e"
  using assms
proof (induction ops arbitrary: disk)
  case (Cons op ops)
  obtain x disk1 where o: "apply_operation D op disk = (x, disk1)" by force
  show ?case
  proof (cases x)
    case (Inl e)
    have "op # ops = [] @ op # ops \<and> apply_operations D [] disk = (Inr [], disk)
        \<and> apply_operation D op disk = (Inl e, disk')
        \<and> msg = ''Error applying '' @ op_name op @ '' to '' @ op_path op @ '': '' @ exc_str e"
      using Cons.prems o Inl by simp
    then show ?thesis by blast
  next
    case (Inr s)
    then have "apply_operations D ops disk1 = (Inl msg, disk')"
      using Cons.prems o by (cases "apply_operations D ops disk1"; cases "fst (apply_operations D ops disk1)") auto
    from Cons.IH [OF this] obtain did op' rest ss disk2 e where
      "ops = did @ op' # rest" "apply_operations D did disk1 = (Inr ss, disk2)" "apply_operation D op' disk2 = (Inl e, disk')"
      "msg = ''Error applying '' @ op_name op' @ '' to '' @ op_path op' @ '': '' @ exc_str e"
      by blast
    moreover have "apply_operations D (op # did) disk = (Inr (s # ss), disk2)" using o Inr calculation by simp
    ultimately show ?thesis by (metis append_Cons)
  qed
qed simp

definition plain_disk :: disk_env where
  "plain_disk = \<lparr>di_working_dir = None, di_refuses = \<lambda>a p. None\<rparr>"

theorem patch_failure_prefix_witness:
  "\<exists>did op rest summaries disk1 e. [Add_File ''a'' ''x'', Delete_File ''b'', Delete_File ''c''] = did @ op # rest
    \<and> apply_operations plain_disk did [] = (Inr summaries, disk1) \<and> apply_operation plain_disk op disk1 = (Inl e, [(''a'', ''x'')])
    \<and> ''Error applying delete_file to b: File not found: b''
      = ''Error applying '' @ op_name op @ '' to '' @ op_path op @ '': '' @ exc_str e"
  by (rule patch_failure_prefix)
    (simp add: plain_disk_def apply_add_file_def apply_delete_file_def resolve_path_def permitted_def write_file_def not_found_def
      op_name_def)

section \<open>Surprises\<close>

text \<open>A rename onto the same path deletes the file.\<close>

lemma rename_to_itself_deletes:
  "apply_operation plain_disk (Update_File ''a'' [] (Some ''a'')) [(''a'', ''x'')] = (Inr ''Updated and moved a -> a'', [])"
  by code_simp

text \<open>An update takes away one of several empty lines at the end of a file.\<close>

lemma blank_end_lost: "update_text (''x'' @ nl @ nl) [] ''f'' = Inr (''x'' @ nl)"
  by code_simp

text \<open>Carriage returns before line ends are gone after an update.\<close>

lemma carriage_returns_lost:
  "apply_operation plain_disk (Update_File ''a'' [] None) [(''a'', ''x'' @ [CHR 0x0D, CHR 0x0A] @ ''y'' @ [CHR 0x0D, CHR 0x0A])]
   = (Inr ''Updated a'', [(''a'', ''x'' @ nl @ ''y'' @ nl)])"
  by code_simp

text \<open>Under a header without a space (\<open>@@\<close> alone) all lines of the hunk are skipped, and so are those after an empty
  context line; the tool reports success.\<close>

lemma bare_header_skips:
  "parse_operations 9 [''*** Update File: a'', ''@@'', ''-x'', ''+y''] = Inr [Update_File ''a'' [] None]"
  by code_simp

lemma empty_context_line_cuts:
  "parse_operations 9 [''*** Update File: a'', ''@@ f'', '' p'', [], ''-x'', ''+y'']
   = Inr [Update_File ''a'' [\<lparr>hk_hint = ''f'', hk_lines = [(Context, ''p'')]\<rparr>] None]"
  by code_simp

end
