(* ===== verification/Truncation.thy ===== *)
theory Truncation
  imports Patch_Properties
begin

text \<open>
  The truncation of tool output, \<open>modules/hooks-tool-truncation\<close>: the two passes, the limits per tool and
  the handler of \<open>tool:post\<close> events, whose result is what the model reads.
\<close>

section \<open>Slices\<close>

text \<open>\<open>xs[:i]\<close> and \<open>xs[i:]\<close>, where a negative index counts from the end.\<close>

definition slice_index :: "int \<Rightarrow> 'a list \<Rightarrow> nat" where
  "slice_index i xs = nat (if i < 0 then int (length xs) + i else i)"

definition slice_to :: "int \<Rightarrow> 'a list \<Rightarrow> 'a list" where
  "slice_to i xs = take (slice_index i xs) xs"

definition slice_from :: "int \<Rightarrow> 'a list \<Rightarrow> 'a list" where
  "slice_from i xs = drop (slice_index i xs) xs"

section \<open>The passes\<close>

definition middle_marker :: "int \<Rightarrow> string" where
  "middle_marker removed =
     nl @ nl @ ''[WARNING: Tool output was truncated. '' @ int_str removed
     @ '' characters were removed from the middle. The full output is available in the event stream. If you need to see specific parts, re-run the tool with more targeted parameters.]''
     @ nl @ nl"

definition first_marker :: "int \<Rightarrow> string" where
  "first_marker removed =
     ''[WARNING: Tool output was truncated. First '' @ int_str removed
     @ '' characters were removed. The full output is available in the event stream.]'' @ nl @ nl"

definition truncate_chars :: "string \<Rightarrow> int \<Rightarrow> string \<Rightarrow> string" where
  "truncate_chars out max_chars mode =
     (if int (length out) \<le> max_chars then out
      else let removed = int (length out) - max_chars in
           if mode = ''head_tail''
           then let half = max_chars div 2 in slice_to half out @ middle_marker removed @ slice_from (- half) out
           else first_marker removed @ slice_from (- max_chars) out)"

definition omitted_line :: "int \<Rightarrow> string" where
  "omitted_line omitted = ''[... '' @ int_str omitted @ '' lines omitted ...]''"

definition lines_marker :: "int \<Rightarrow> string" where
  "lines_marker omitted = nl @ omitted_line omitted @ nl"

definition truncate_lines :: "string \<Rightarrow> int \<Rightarrow> string" where
  "truncate_lines out max_lines =
     (let lines = py_split nl out in
      if int (length lines) \<le> max_lines then out
      else let head_count = max_lines div 2; tail_count = max_lines - head_count;
               omitted = int (length lines) - head_count - tail_count
           in py_join nl (slice_to head_count lines) @ lines_marker omitted @ py_join nl (slice_from (- tail_count) lines))"

definition truncate_tool_output :: "string \<Rightarrow> int \<Rightarrow> string \<Rightarrow> int option \<Rightarrow> string" where
  "truncate_tool_output out char_limit char_mode line_limit =
     (let result = truncate_chars out char_limit char_mode in
      case line_limit of None \<Rightarrow> result | Some k \<Rightarrow> truncate_lines result k)"

section \<open>Limits\<close>

definition default_char_limits :: "int dict" where
  "default_char_limits =
     [(''read_file'', 50000), (''shell'', 30000), (''bash'', 30000), (''grep'', 20000), (''glob'', 20000),
      (''edit_file'', 10000), (''apply_patch'', 10000), (''write_file'', 1000), (''spawn_agent'', 20000)]"

definition default_modes :: "string dict" where
  "default_modes =
     [(''read_file'', ''head_tail''), (''shell'', ''head_tail''), (''bash'', ''head_tail''), (''grep'', ''tail''),
      (''glob'', ''tail''), (''edit_file'', ''tail''), (''apply_patch'', ''tail''), (''write_file'', ''tail''),
      (''spawn_agent'', ''head_tail'')]"

definition default_line_limits :: "int dict" where
  "default_line_limits = [(''shell'', 256), (''bash'', 256), (''grep'', 200), (''glob'', 500)]"

definition fallback_char_limit :: int where
  "fallback_char_limit = 30000"

definition fallback_mode :: string where
  "fallback_mode = ''head_tail''"

record truncation_config =
  tn_char_limits :: "int dict"
  tn_line_limits :: "int option dict"
  tn_modes :: "string dict"

record limits =
  li_chars :: int
  li_lines :: "int option"
  li_mode :: string

definition get_or :: "'a dict \<Rightarrow> string \<Rightarrow> 'a \<Rightarrow> 'a" where
  "get_or d k v = (case dict_get d k of None \<Rightarrow> v | Some x \<Rightarrow> x)"

definition build_tool_config :: "string \<Rightarrow> truncation_config \<Rightarrow> limits" where
  "build_tool_config tool_name c =
     \<lparr>li_chars = get_or (tn_char_limits c) tool_name (get_or default_char_limits tool_name fallback_char_limit),
      li_lines = get_or (tn_line_limits c) tool_name (dict_get default_line_limits tool_name),
      li_mode = get_or (tn_modes c) tool_name (get_or default_modes tool_name fallback_mode)\<rparr>"

section \<open>The hook\<close>

datatype hook_result = Hook_Continue | Hook_Modify "pyval dict"

text \<open>The attribution of a nested call, which is let through.\<close>

definition nonempty_text :: "pyval option \<Rightarrow> bool" where
  "nonempty_text v = (case v of Some (PStr s) \<Rightarrow> s \<noteq> [] | _ \<Rightarrow> False)"

definition is_dispatch_child :: "pyval dict \<Rightarrow> bool" where
  "is_dispatch_child data =
     (case dict_get data ''dispatch_source'' of
        Some (PDict source) \<Rightarrow>
          list_all (\<lambda>key. nonempty_text (dict_get source key))
            [''session_id'', ''run_id'', ''parent_tool_call_id'', ''tool_call_id'', ''tool_name'']
          \<and> list_all (\<lambda>key. dict_get data key = dict_get source key)
              [''session_id'', ''parent_tool_call_id'', ''tool_call_id'', ''tool_name'']
      | _ \<Rightarrow> False)"

definition result_text :: "pyval \<Rightarrow> string" where
  "result_text v =
     (case v of PStr s \<Rightarrow> s | PDict d \<Rightarrow> json_dumps v | PList xs \<Rightarrow> json_dumps v | _ \<Rightarrow> py_str v)"

definition needs_truncation :: "string \<Rightarrow> limits \<Rightarrow> bool" where
  "needs_truncation out l =
     (int (length out) > li_chars l
      \<or> (case li_lines l of None \<Rightarrow> False | Some k \<Rightarrow> int (length (filter (\<lambda>c. c = CHR 0x0A) out)) + 1 > k))"

text \<open>A tool name that is a list or an object cannot be looked up.\<close>

definition tool_limits :: "pyval \<Rightarrow> truncation_config \<Rightarrow> exc + limits" where
  "tool_limits name c =
     (case name of
        PStr s \<Rightarrow> Inr (build_tool_config s c)
      | PList xs \<Rightarrow> Inl (type_error (''unhashable type: '' @ quoted ''list''))
      | PDict d \<Rightarrow> Inl (type_error (''unhashable type: '' @ quoted ''dict''))
      | _ \<Rightarrow> Inr \<lparr>li_chars = fallback_char_limit, li_lines = None, li_mode = fallback_mode\<rparr>)"

definition handle_tool_post :: "truncation_config \<Rightarrow> pyval dict \<Rightarrow> exc + hook_result" where
  "handle_tool_post c data =
     (if is_dispatch_child data then Inr Hook_Continue
      else let raw = (case dict_get data ''result'' of None \<Rightarrow> PNone | Some v \<Rightarrow> v) in
           if raw = PNone then Inr Hook_Continue
           else case tool_limits (case dict_get data ''tool_name'' of None \<Rightarrow> PStr [] | Some v \<Rightarrow> v) c of
                  Inl e \<Rightarrow> Inl e
                | Inr l \<Rightarrow>
                    (let out = result_text raw in
                     if \<not> needs_truncation out l then Inr Hook_Continue
                     else Inr (Hook_Modify (dict_set ''full_output'' raw
                            (dict_set ''result''
                              (PStr (truncate_tool_output out (li_chars l) (li_mode l) (li_lines l))) data)))))"

section \<open>Properties\<close>

lemma slice_to_prefix: "\<exists>t. xs = slice_to i xs @ t"
  by (metis append_take_drop_id slice_to_def)

lemma slice_from_suffix: "\<exists>t. xs = t @ slice_from i xs"
  by (metis append_take_drop_id slice_from_def)

text \<open>with a limit of at least two characters the cut in the middle keeps the first and the last half of the limit of
  the output, unchanged and in place, around one marker.\<close>

theorem middle_cut:
  assumes "2 \<le> k" "int (length out) > k"
  shows "\<exists>head mid tail. out = head @ mid @ tail
    \<and> truncate_chars out k ''head_tail'' = head @ middle_marker (int (length out) - k) @ tail
    \<and> int (length head) = k div 2 \<and> int (length tail) = k div 2"
proof -
  define h where "h = nat (k div 2)"
  have h: "k div 2 = int h" "1 \<le> h" "2 * h \<le> length out" using assms by (auto simp: h_def)
  have a: "slice_to (k div 2) out = take h out" using h by (simp add: slice_to_def slice_index_def)
  have b: "slice_from (- (k div 2)) out = drop (length out - h) out"
    using h by (simp add: slice_from_def slice_index_def nat_diff_distrib)
  have "out = take h out @ take (length out - 2 * h) (drop h out) @ drop (length out - h) out"
  proof -
    have "drop (length out - h) out = drop (length out - 2 * h) (drop h out)" using h(3) by simp
    then show ?thesis by (simp only: append_take_drop_id)
  qed
  moreover have "truncate_chars out k ''head_tail''
      = take h out @ middle_marker (int (length out) - k) @ drop (length out - h) out"
    using assms(2) a b by (simp add: truncate_chars_def Let_def)
  moreover have "int (length (take h out)) = k div 2" "int (length (drop (length out - h) out)) = k div 2"
    using h by simp_all
  ultimately show ?thesis by blast
qed

theorem middle_cut_witness:
  "\<exists>head mid tail. ''abcdefgh'' = head @ mid @ tail
    \<and> truncate_chars ''abcdefgh'' 4 ''head_tail'' = head @ middle_marker 4 @ tail
    \<and> int (length head) = 2 \<and> int (length tail) = 2"
  using middle_cut [of 4 "''abcdefgh''"] by simp

lemma int_str_clean [simp]: "clean (int_str i)"
proof -
  have "CHR 0x0A \<notin> set (nat_str n)" for n using nat_str_digits [of n] by (auto simp: is_digit_def dest: bspec [of _ _ "CHR 0x0A"])
  then show ?thesis by (auto simp: clean_def int_str_def)
qed

lemma omitted_line_clean: "clean (omitted_line k)"
  using int_str_clean [of k] by (simp add: omitted_line_def clean_def)

lemma join_around: "as \<noteq> [] \<Longrightarrow> bs \<noteq> [] \<Longrightarrow> py_join nl as @ nl @ m @ nl @ py_join nl bs = py_join nl (as @ m # bs)"
proof (induction nl as rule: py_join.induct)
  case (2 x)
  then show ?case by (cases bs) simp_all
qed simp_all

text \<open>with a limit of at least two lines, an output of more lines becomes the first half of the limit of its lines, one
  line that says how many are left out, and the last lines up to the limit.\<close>

theorem lines_cut:
  assumes "2 \<le> k" "int (length (py_split nl out)) > k"
  shows "py_split nl (truncate_lines out k)
    = take (nat (k div 2)) (py_split nl out)
      @ [omitted_line (int (length (py_split nl out)) - k)]
      @ drop (length (py_split nl out) - nat (k - k div 2)) (py_split nl out)"
proof -
  define ls where "ls = py_split nl out"
  define a where "a = nat (k div 2)"
  define b where "b = nat (k - k div 2)"
  let ?m = "omitted_line (int (length ls) - k)"
  have ab: "k div 2 = int a" "k - k div 2 = int b" "1 \<le> a" "1 \<le> b" "a + b < length ls"
    using assms by (auto simp: a_def b_def ls_def)
  have omitted: "int (length ls) - int a - int b = int (length ls) - k" using ab(1,2) by simp
  have "slice_from (- int b) ls = drop (length ls - b) ls"
    using ab(4,5) by (simp add: slice_from_def slice_index_def nat_diff_distrib)
  then have slices: "slice_to (k div 2) ls = take a ls" "slice_from (- (k - k div 2)) ls = drop (length ls - b) ls"
    by (simp_all only: ab(1) slice_to_def slice_index_def) (use ab(2) in \<open>simp_all add: ab(1)\<close>)
  have "truncate_lines out k = py_join nl (take a ls) @ lines_marker (int (length ls) - k) @ py_join nl (drop (length ls - b) ls)"
    using assms(2) slices omitted ab(1,2) by (simp add: truncate_lines_def Let_def ls_def)
  also have "\<dots> = py_join nl (take a ls @ ?m # drop (length ls - b) ls)"
  proof -
    have "take a ls \<noteq> []" "drop (length ls - b) ls \<noteq> []" using ab(3,4,5) by auto
    from join_around [OF this, of ?m] show ?thesis by (simp add: lines_marker_def)
  qed
  finally have t: "truncate_lines out k = py_join nl (take a ls @ ?m # drop (length ls - b) ls)" .
  have "list_all clean ls" using split_clean_all [of "[]" out] by (simp add: ls_def py_split_def clean_def)
  then have "list_all clean (take a ls @ ?m # drop (length ls - b) ls)"
    using omitted_line_clean by (auto simp: list_all_iff dest: in_set_takeD in_set_dropD)
  then show ?thesis using split_join [of "take a ls @ ?m # drop (length ls - b) ls"] by (simp add: t ls_def a_def b_def)
qed

theorem lines_cut_witness:
  "py_split nl (truncate_lines (py_join nl [''a'', ''b'', ''c'', ''d'']) 2) = [''a'', omitted_line 2, ''d'']"
proof -
  have s: "py_split nl (py_join nl [''a'', ''b'', ''c'', ''d'']) = [''a'', ''b'', ''c'', ''d'']"
    by (rule split_join) (simp_all add: clean_def)
  show ?thesis using lines_cut [of 2 "py_join nl [''a'', ''b'', ''c'', ''d'']"] unfolding s by simp
qed

text \<open>the hook changes only the result of an event and adds the full output: the full output is the result as the tool
  gave it, and every other entry stays.\<close>

theorem full_output_kept:
  assumes "handle_tool_post c data = Inr (Hook_Modify data')"
  shows "dict_get data' k = (if k = ''full_output'' then dict_get data ''result''
    else if k = ''result'' then dict_get data' ''result'' else dict_get data k)"
  using assms by (auto simp: handle_tool_post_def Let_def split: if_splits sum.splits option.splits)

lemma tiny_output_cut:
  "handle_tool_post \<lparr>tn_char_limits = [(''t'', 4)], tn_line_limits = [], tn_modes = []\<rparr>
     [(''tool_name'', PStr ''t''), (''result'', PStr ''abcdefgh'')]
   = Inr (Hook_Modify [(''tool_name'', PStr ''t''), (''result'', PStr (''ab'' @ middle_marker 4 @ ''gh'')),
       (''full_output'', PStr ''abcdefgh'')])"
  by code_simp

theorem full_output_kept_witness:
  "dict_get [(''tool_name'', PStr ''t''), (''result'', PStr (''ab'' @ middle_marker 4 @ ''gh'')),
       (''full_output'', PStr ''abcdefgh'')] ''full_output'' = Some (PStr ''abcdefgh'')"
  using full_output_kept [OF tiny_output_cut, of "''full_output''"] by simp

text \<open>A limit of one character, or none, keeps the whole output and adds the marker; no lines likewise.\<close>

lemma smallest_limits_keep_all:
  "truncate_chars ''abc'' 1 ''head_tail'' = middle_marker 2 @ ''abc''"
  "truncate_lines (''a'' @ nl @ ''b'') 0 = lines_marker 2 @ ''a'' @ nl @ ''b''"
  by code_simp+

text \<open>With an odd limit one character more is removed than the marker says.\<close>

lemma odd_limit_miscounts: "truncate_chars ''abcdef'' 3 ''head_tail'' = ''a'' @ middle_marker 3 @ ''f''"
  by code_simp

end
