(* ===== verification/Verdicts.thy ===== *)
theory Verdicts
  imports Tool_Handler
begin

text \<open>
  What a model's answer says of its node, the second half of \<open>backend.py\<close>: the verdict ladder
  \<open>_parse_outcome\<close>, the results of spawned sessions, the marker of a silent turn, the resolution of model
  names; the status-file contract of \<open>status_contract.py\<close>.

  The fields of an answer are whatever JSON it holds. A \<open>verdict\<close> is an \<open>Outcome\<close> whose fields may have
  any type; \<open>typed\<close> is the outcome, where the types are the declared ones.
\<close>

section \<open>Verdicts\<close>

record verdict =
  vd_status :: stage_status
  vd_label :: pyval
  vd_ids :: pyval
  vd_updates :: pyval
  vd_notes :: pyval
  vd_reason :: pyval
  vd_explicit :: bool
  vd_response :: "string option"
  vd_session :: "string option"
  vd_failed_step :: "pyval option"

definition mk_verdict :: "stage_status \<Rightarrow> verdict" where
  "mk_verdict s =
     \<lparr>vd_status = s, vd_label = PNone, vd_ids = PNone, vd_updates = PNone, vd_notes = PNone, vd_reason = PNone,
      vd_explicit = False, vd_response = None, vd_session = None, vd_failed_step = None\<rparr>"

definition typed :: "verdict \<Rightarrow> outcome option" where
  "typed v =
     (if (vd_label v = PNone \<or> opt_str_of (vd_label v) \<noteq> None) \<and> (vd_ids v = PNone \<or> opt_list_of (vd_ids v) \<noteq> None)
         \<and> (vd_updates v = PNone \<or> opt_dict_of (vd_updates v) \<noteq> None) \<and> (vd_notes v = PNone \<or> opt_str_of (vd_notes v) \<noteq> None)
         \<and> (vd_reason v = PNone \<or> opt_str_of (vd_reason v) \<noteq> None)
      then Some ((mk_outcome (vd_status v))
             \<lparr>o_preferred_label := opt_str_of (vd_label v), o_suggested_next_ids := opt_list_of (vd_ids v),
              o_context_updates := opt_dict_of (vd_updates v), o_notes := opt_str_of (vd_notes v),
              o_failure_reason := opt_str_of (vd_reason v), o_is_explicit := vd_explicit v,
              o_response_text := vd_response v, o_session_id := vd_session v, o_failed_step := vd_failed_step v\<rparr>)
      else None)"

section \<open>The verdict ladder\<close>

text \<open>The pattern \<open>^```(?:json)?\s*([\s\S]*?)\s*```$\<close> on a stripped text: what stands between the fences.\<close>

definition unfence :: "string \<Rightarrow> string" where
  "unfence s =
     (if startswith ''```'' s \<and> endswith ''```'' s \<and> length s \<ge> 6
      then py_strip (drop (if startswith ''```json'' s then 7 else 3) (take (length s - 3) s))
      else s)"

text \<open>The verdict an object states, if its status is known. A status that cannot be looked up is none.\<close>

definition verdict_of :: "string \<Rightarrow> pyval \<Rightarrow> verdict option" where
  "verdict_of out data =
     (case data of
        PDict d \<Rightarrow>
          (case dict_get d ''status'' of
             Some (PStr s) \<Rightarrow>
               (case status_of_value s of
                  None \<Rightarrow> None
                | Some st \<Rightarrow>
                    Some ((mk_verdict st)
                      \<lparr>vd_reason := raw_get d ''failure_reason'' PNone, vd_notes := raw_get d ''notes'' PNone,
                       vd_label := raw_get d ''preferred_label'' PNone, vd_ids := raw_get d ''suggested_next_ids'' PNone,
                       vd_updates := raw_get d ''context_updates'' PNone, vd_explicit := True, vd_response := Some out\<rparr>))
           | _ \<Rightarrow> None)
      | _ \<Rightarrow> None)"

definition json_verdict :: "(string \<Rightarrow> string + pyval) \<Rightarrow> string \<Rightarrow> string \<Rightarrow> verdict option" where
  "json_verdict loads out s = (case loads s of Inl err \<Rightarrow> None | Inr data \<Rightarrow> verdict_of out data)"

definition last_open :: "string \<Rightarrow> nat option" where
  "last_open s = find (\<lambda>i. s ! i = CHR ''{'') (rev [0..<length s])"

text \<open>Where the brace opened at the head of the text closes.\<close>

fun closing :: "nat \<Rightarrow> string \<Rightarrow> nat option" where
  "closing depth [] = None"
| "closing depth (c # cs) =
     (if c = CHR ''{'' then map_option Suc (closing (depth + 1) cs)
      else if c = CHR ''}'' then (if depth = 1 then Some 0 else map_option Suc (closing (depth - 1) cs))
      else map_option Suc (closing depth cs))"

definition embedded_candidate :: "string \<Rightarrow> string option" where
  "embedded_candidate s =
     (case last_open s of
        None \<Rightarrow> None
      | Some i \<Rightarrow> (case closing 0 (drop i s) of None \<Rightarrow> None | Some k \<Rightarrow> Some (take (k + 1) (drop i s))))"

definition first_chars :: "string \<Rightarrow> string" where
  "first_chars out = take 200 out"

definition is_gate_node :: "node option \<Rightarrow> bool" where
  "is_gate_node n = (case n of None \<Rightarrow> False | Some m \<Rightarrow> resolve_bool_attr (node_attr_get m ''goal_gate''))"

definition empty_verdict :: verdict where
  "empty_verdict =
     (mk_verdict FAIL)\<lparr>vd_notes := PStr ''No output from LLM'', vd_reason := PStr ''Empty LLM response''\<rparr>"

definition plain_verdict :: "string \<Rightarrow> node option \<Rightarrow> verdict" where
  "plain_verdict out n =
     (if is_gate_node n
      then (mk_verdict RETRY)
        \<lparr>vd_notes := PStr (''No explicit verdict from goal_gate node -- plain text only: '' @ first_chars out),
         vd_reason := PStr ''goal_gate node requires an explicit verdict (JSON / status.json)'', vd_response := Some out\<rparr>
      else (mk_verdict SUCCESS)\<lparr>vd_notes := PStr (''Plain text response: '' @ first_chars out), vd_response := Some out\<rparr>)"

definition parse_outcome :: "(string \<Rightarrow> string + pyval) \<Rightarrow> string \<Rightarrow> node option \<Rightarrow> verdict" where
  "parse_outcome loads out n =
     (if py_strip out = [] then empty_verdict
      else let s = unfence (py_strip out) in
           case (if startswith ''{'' s then json_verdict loads out s else None) of
             Some v \<Rightarrow> v
           | None \<Rightarrow>
               (case (case embedded_candidate s of None \<Rightarrow> None | Some t \<Rightarrow> json_verdict loads out t) of
                  Some v \<Rightarrow> v
                | None \<Rightarrow> plain_verdict out n))"

section \<open>Silent turns\<close>

definition debrace :: "string \<Rightarrow> string" where
  "debrace s = map (\<lambda>c. if c = CHR ''{'' then CHR ''('' else if c = CHR ''}'' then CHR '')'' else c) s"

definition synthesize_outcome_marker :: "outcome \<Rightarrow> string" where
  "synthesize_outcome_marker out =
     ''['' @ (if o_is_explicit out then ''report_outcome'' else ''spawn-completion'') @ '': ''
     @ py_join '' ''
         ([''status='' @ status_value (o_status out)]
          @ (if str_true (o_preferred_label out) then [''preferred_label='' @ debrace (the (o_preferred_label out))] else [])
          @ (if str_true (o_notes out) then [''notes='' @ [CHR 0x22] @ debrace (the (o_notes out)) @ [CHR 0x22]] else []))
     @ '']''"

definition spawn_success_statuses :: "string list" where
  "spawn_success_statuses = [''success'', ''partial_success'']"

definition text_of :: "pyval option \<Rightarrow> string option" where
  "text_of v = (case v of Some (PStr s) \<Rightarrow> (if s = [] then None else Some s) | _ \<Rightarrow> None)"

definition session_id_from_spawn_result :: "pyval \<Rightarrow> string option" where
  "session_id_from_spawn_result result =
     (case result of
        PDict d \<Rightarrow>
          (case (case dict_get d ''metadata'' of Some (PDict m) \<Rightarrow> text_of (dict_get m ''worker_session_id'') | _ \<Rightarrow> None) of
             Some s \<Rightarrow> Some s | None \<Rightarrow> text_of (dict_get d ''session_id''))
      | _ \<Rightarrow> None)"

definition unhashable :: "pyval \<Rightarrow> exc option" where
  "unhashable v =
     (case v of
        PList xs \<Rightarrow> Some (type_error (''unhashable type: '' @ quoted ''list''))
      | PDict d \<Rightarrow> Some (type_error (''unhashable type: '' @ quoted ''dict''))
      | _ \<Rightarrow> None)"

definition outcome_from_spawn_result :: "pyval \<Rightarrow> exc + outcome option" where
  "outcome_from_spawn_result result =
     (case result of
        PDict d \<Rightarrow>
          (case unhashable (raw_get d ''status'' PNone) of
             Some e \<Rightarrow> Inl e
           | None \<Rightarrow>
               (case raw_get d ''status'' PNone of
                  PStr s \<Rightarrow>
                    (if s \<in> set spawn_success_statuses
                     then Inr (map_option (\<lambda>st. (mk_outcome st)
                            \<lparr>o_notes := Some ''Child session completed with empty final message''\<rparr>) (status_of_value s))
                     else Inr None)
                | _ \<Rightarrow> Inr None))
      | _ \<Rightarrow> Inr None)"

section \<open>Models\<close>

definition subscription_only_providers :: "string list" where
  "subscription_only_providers = [''github-copilot'', ''openai-chatgpt'']"

definition implicit_default_provider :: "string dict \<Rightarrow> string" where
  "implicit_default_provider profiles = (case profiles of [(k, v)] \<Rightarrow> k | _ \<Rightarrow> ''anthropic'')"

definition family_tokens :: "string list" where
  "family_tokens = [''opus'', ''sonnet'', ''haiku'']"

definition provider_default_model_pattern :: "(string \<times> bool) dict" where
  "provider_default_model_pattern =
     [(''anthropic'', (''sonnet'', True)), (''openai'', (''gpt-5.*[0-9]'', True)), (''gemini'', (''gemini-3*pro*'', False))]"

definition no_default_model :: "node \<Rightarrow> string \<Rightarrow> exc" where
  "no_default_model n provider =
     value_error (''Node '' @ quoted (n_id n) @ '' set llm_provider='' @ repr_str provider
       @ '' but no llm_model, and no per-provider default model is documented for '' @ repr_str provider
       @ '' (known defaults: '' @ repr_strs (sort (dict_keys provider_default_model_pattern))
       @ ''). Set llm_model='' @ [CHR 0x22] @ ''<model-name>'' @ [CHR 0x22]
       @ '' explicitly, or add a default for this provider to _PROVIDER_DEFAULT_MODEL_PATTERN. Malformed or unrecognized providers are never silently guessed.'')"

definition no_model :: "node \<Rightarrow> exc" where
  "no_model n =
     value_error (''Node '' @ quoted (n_id n) @ '' requires an explicit '' @ quoted ''llm_model'' @ '' attribute. Set llm_model=''
       @ [CHR 0x22] @ ''<model-name>'' @ [CHR 0x22]
       @ '' in the node's DOT attributes or via the pipeline's model_stylesheet. No default model is provided -- this prevents silently running against a deprecated or unintended model.'')"

text \<open>The model of a node, or the token that stands for its provider's default. Attributes are texts here.\<close>

definition resolve_model :: "node \<Rightarrow> exc + string" where
  "resolve_model n =
     (if py_true (node_attr_get n ''llm_model'') then Inr (py_str (node_attr_get n ''llm_model''))
      else if node_attr_get n ''llm_provider'' \<noteq> PNone
      then let provider = py_str (node_attr_get n ''llm_provider'') in
           case dict_get provider_default_model_pattern provider of
             Some (token, stable_only) \<Rightarrow> Inr token
           | None \<Rightarrow> Inl (no_default_model n provider)
      else Inl (no_model n))"

definition default_model_stable_only :: "string \<Rightarrow> bool" where
  "default_model_stable_only provider =
     (case dict_get provider_default_model_pattern provider of None \<Rightarrow> True | Some (t, stable_only) \<Rightarrow> stable_only)"

definition is_model_pattern :: "string \<Rightarrow> bool" where
  "is_model_pattern model =
     (list_ex (\<lambda>c. c \<in> set model) ''*?['' \<or> py_lower (py_strip model) \<in> set family_tokens)"

definition model_pattern :: "string \<Rightarrow> string" where
  "model_pattern model =
     (let token = py_lower (py_strip model) in if token \<in> set family_tokens then ''*'' @ token @ ''*'' else model)"

definition quote_mark :: char where
  "quote_mark = CHR 0x22"

definition subscription_model_hints :: "string dict" where
  "subscription_model_hints =
     [(''github-copilot'',
       ''github-copilot serves multiple model families -- set llm_model to an explicit id, e.g. llm_model='' @ [quote_mark]
       @ ''claude-sonnet-4.6'' @ [quote_mark] @ '' (a family token/glob like '' @ [quote_mark] @ ''sonnet'' @ [quote_mark]
       @ '' cannot be live-resolved for this provider). Omitting llm_model entirely also works: the mounted module defaults to its own configured default_model (''
       @ [quote_mark] @ ''claude-opus-4.5'' @ [quote_mark] @ '' unless overridden).''),
      (''openai-chatgpt'',
       ''openai-chatgpt serves multiple model families -- set llm_model to an explicit id, e.g. llm_model='' @ [quote_mark]
       @ ''gpt-5.6-luna'' @ [quote_mark] @ '' (a family token/glob like '' @ [quote_mark] @ ''sonnet'' @ [quote_mark]
       @ '' cannot be live-resolved for this provider). Omitting llm_model entirely also works: the mounted module resolves its own default_model=''
       @ [quote_mark] @ ''latest'' @ [quote_mark] @ '' dynamically.'')]"

definition subscription_model_error :: "string \<Rightarrow> string \<Rightarrow> exc" where
  "subscription_model_error provider model =
     value_error (''Cannot live-resolve llm_model='' @ repr_str model @ '' for llm_provider='' @ repr_str provider
       @ '': unified_llm.resolve_latest_for has no adapter for subscription providers (anthropic/openai/gemini only). ''
       @ (case dict_get subscription_model_hints provider of None \<Rightarrow> [] | Some hint \<Rightarrow> hint))"

section \<open>The status-file contract\<close>

definition contract_lines :: "string \<Rightarrow> string list" where
  "contract_lines path =
     [[], [], ''---'', ''## Status File Contract (spec Sec 4.5 / Appendix C)'', [],
      ''When you have finished this task, write your outcome to this EXACT'', ''absolute file path, exactly once:'', [],
      ''    '' @ path, [],
      ''Use your normal file-write tool (it is not a special tool call). The file'',
      ''must be a JSON object shaped like this:'', [],
      ''    {'',
      ''      \"outcome\": \"success | fail | partial_success | retry\",'',
      ''      \"preferred_label\": \"optional -- which edge label to follow\",'',
      ''      \"suggested_next_ids\": [\"optional\", \"explicit next node ids\"],'',
      ''      \"context_updates\": {\"optional\": \"key-value pairs to merge into pipeline context\"},'',
      ''      \"notes\": \"optional -- human-readable summary\"'',
      ''    }'', [],
      ''Only \"outcome\" is required; every other field is optional. This is the'',
      ''authoritative way to report your outcome -- write the file once, when you'',
      ''are truly finished, and let it reflect your real verdict.'', []]"

definition build_status_file_contract :: "string \<Rightarrow> string" where
  "build_status_file_contract path = py_join [CHR 0x0A] (contract_lines path)"

end
