(* ===== verification/Backend.thy ===== *)
theory Backend
  imports Verdicts Agent_Session
begin

text \<open>
  The backend of LLM nodes, \<open>AmplifierBackend\<close> of \<open>backend.py\<close>: the choice of provider, model, worker and
  fidelity, the instruction with its preamble and the human's answer, the spawned session, the direct
  worker (\<open>workers/direct_worker.py\<close>) and the transcripts of threads.

  The spawn capability, the generation of the direct worker, the live resolution of a model name and the
  hooks are functions on the world. The spawn capability is looked up once by the source; here it is there
  or not. Log lines are left out.
\<close>

section \<open>The environment\<close>

text \<open>What a session is spawned with, the arguments of the spawn capability.\<close>

record spawn_request =
  sq_agent :: string
  sq_instruction :: string
  sq_config :: "pyval dict"
  sq_preference :: "(pyval \<times> pyval) option"
  sq_attach :: "(pyval \<times> pyval) option"
  sq_parent_messages :: "(string \<times> string) list"

record generate_request =
  gq_model :: string
  gq_rounds :: int
  gq_effort :: pyval
  gq_provider :: string
  gq_history :: "(string \<times> string) list"
  gq_prompt :: string

record generated =
  gn_text :: "string option"
  gn_usage :: pyval
  gn_finish_reason :: pyval
  gn_steps :: nat
  gn_cost :: pyval

text \<open>\<open>bv_generate\<close> says of an exception whether it is an \<open>SDKError\<close>, with the payload of its event;
  \<open>bv_emit\<close> gives the reason of a hook that denies.\<close>

record 'w benv =
  bv_profiles :: "string dict"
  bv_default_worker :: "string option"
  bv_has_provider :: bool
  bv_agents :: "pyval dict"
  bv_tool_names :: "string list"
  bv_loads :: "string \<Rightarrow> string + pyval"
  bv_spawn :: "(spawn_request \<Rightarrow> 'w \<Rightarrow> (exc + pyval) \<times> 'w) option"
  bv_generate :: "generate_request \<Rightarrow> 'w \<Rightarrow> (((pyval dict) option \<times> exc) + generated) \<times> 'w"
  bv_resolve_latest :: "string \<Rightarrow> string \<Rightarrow> bool \<Rightarrow> 'w \<Rightarrow> (exc + string) \<times> 'w"
  bv_emit :: "string \<Rightarrow> pyval dict \<Rightarrow> 'w \<Rightarrow> string option \<times> 'w"

type_synonym exchange = "string \<times> string \<times> string"

record 'w backend =
  bk_transcripts :: "exchange list dict"
  bk_completed :: "outcome dict"
  bk_last_node :: "string option"
  bk_models :: "((string \<times> string \<times> bool) \<times> string) list"
  bk_world :: 'w

definition backend_init :: "'w \<Rightarrow> 'w backend" where
  "backend_init w =
     \<lparr>bk_transcripts = [], bk_completed = [], bk_last_node = None, bk_models = [], bk_world = w\<rparr>"

text \<open>A branch's copy: fresh transcripts, completions and last node. The resolved models are the
  process's.\<close>

definition clone_backend :: "'w backend \<Rightarrow> 'w backend" where
  "clone_backend B = B\<lparr>bk_transcripts := [], bk_completed := [], bk_last_node := None\<rparr>"

text \<open>An answer: an exception, an outcome with the text it was read from, or a verdict with fields of other types than
  an outcome declares.\<close>

datatype llm_answer = Broken exc | Answered string outcome | Ill_Typed verdict

definition said :: "string \<Rightarrow> verdict \<Rightarrow> llm_answer" where
  "said out v = (case typed v of None \<Rightarrow> Ill_Typed v | Some x \<Rightarrow> Answered out x)"

section \<open>Workers and models\<close>

definition spawn_worker :: string where
  "spawn_worker = ''spawn''"

definition known_workers :: "string list" where
  "known_workers = [''llm-direct'', spawn_worker]"

definition renamed_worker_names :: "string dict" where
  "renamed_worker_names = [(''direct'', ''llm-direct''), (''loop-agent'', ''coding-agent'')]"

definition renamed_hint :: "string \<Rightarrow> string" where
  "renamed_hint name =
     (case dict_get renamed_worker_names name of
        None \<Rightarrow> [] | Some r \<Rightarrow> '' (renamed: '' @ repr_str name @ '' -> '' @ repr_str r @ '')'')"

definition unknown_worker :: "node \<Rightarrow> string \<Rightarrow> exc" where
  "unknown_worker n w =
     value_error (''Node '' @ quoted (n_id n) @ '' declared worker='' @ repr_str w @ '', which is not a known worker''
       @ renamed_hint w @ ''. Known workers: '' @ repr_strs known_workers @ ''.'')"

text \<open>A backend is not created with an unknown default worker.\<close>

definition default_worker_error :: "'w benv \<Rightarrow> exc option" where
  "default_worker_error V =
     (case bv_default_worker V of
        Some d \<Rightarrow>
          (if d \<in> set known_workers then None
           else Some (value_error (''Unknown default_worker='' @ repr_str d @ renamed_hint d @ ''. Known workers: ''
             @ repr_strs known_workers @ ''.'')))
      | None \<Rightarrow> None)"

definition open_backend :: "'w benv \<Rightarrow> 'w \<Rightarrow> exc + 'w backend" where
  "open_backend V w = (case default_worker_error V of Some e \<Rightarrow> Inl e | None \<Rightarrow> Inr (backend_init w))"

definition resolve_worker_name :: "'w benv \<Rightarrow> node \<Rightarrow> exc + string" where
  "resolve_worker_name V n =
     (let w = node_attr_get n ''worker'' in
      if py_true w
      then if py_str w \<in> set known_workers then Inr (py_str w) else Inl (unknown_worker n (py_str w))
      else case bv_default_worker V of
             Some d \<Rightarrow> Inr d
           | None \<Rightarrow> Inr (if bv_spawn V = None then ''llm-direct'' else spawn_worker))"

definition in_world :: "('w \<Rightarrow> 'a \<times> 'w) \<Rightarrow> 'w backend \<Rightarrow> 'a \<times> 'w backend" where
  "in_world f B = (let (x, w) = f (bk_world B) in (x, B\<lparr>bk_world := w\<rparr>))"

text \<open>A concrete name is passed on; a pattern is resolved once per provider, token and filter.\<close>

definition resolve_pattern :: "'w benv \<Rightarrow> string \<Rightarrow> string \<Rightarrow> bool \<Rightarrow> 'w backend \<Rightarrow> (exc + string) \<times> 'w backend" where
  "resolve_pattern V provider model stable_only B =
     (if provider \<in> set subscription_only_providers then (Inl (subscription_model_error provider model), B)
      else case map_of (bk_models B) (provider, model, stable_only) of
             Some concrete \<Rightarrow> (Inr concrete, B)
           | None \<Rightarrow>
               (case in_world (bv_resolve_latest V provider (model_pattern model) stable_only) B of
                  (Inl e, B1) \<Rightarrow> (Inl e, B1)
                | (Inr concrete, B1) \<Rightarrow>
                    (let B2 = B1\<lparr>bk_models := ((provider, model, stable_only), concrete) # bk_models B1\<rparr>;
                         (denied, B3) = in_world (bv_emit V ''model:resolved''
                           [(''raw'', PStr model), (''resolved'', PStr concrete), (''provider'', PStr provider),
                            (''pattern'', PStr (model_pattern model))]) B2
                     in (Inr concrete, B3))))"

definition not_iterable :: "pyval \<Rightarrow> exc" where
  "not_iterable v = type_error (''argument of type '' @ quoted (py_type_name v) @ '' is not iterable'')"

definition resolve_concrete_model ::
    "'w benv \<Rightarrow> string \<Rightarrow> pyval \<Rightarrow> bool \<Rightarrow> 'w backend \<Rightarrow> (exc + pyval) \<times> 'w backend" where
  "resolve_concrete_model V provider model stable_only B =
     (if \<not> py_true model then (Inr model, B)
      else case model of
             PStr m \<Rightarrow>
               (if \<not> is_model_pattern m then (Inr model, B)
                else case resolve_pattern V provider m stable_only B of
                       (Inl e, B1) \<Rightarrow> (Inl e, B1) | (Inr concrete, B1) \<Rightarrow> (Inr (PStr concrete), B1))
           | _ \<Rightarrow> (Inl (not_iterable model), B))"

definition max_agent_turns :: "node \<Rightarrow> exc + int option" where
  "max_agent_turns n =
     (let raw = node_attr_get n ''max_agent_turns'' in
      if raw = PNone then Inr None
      else case py_int raw of
             Some i \<Rightarrow> Inr (Some i)
           | None \<Rightarrow> Inl (case raw of
                 PStr s \<Rightarrow> value_error (''invalid literal for int() with base 10: '' @ repr_str s)
               | _ \<Rightarrow> type_error (''int() argument must be a string, a bytes-like object or a real number, not ''
                   @ quoted (py_type_name raw))))"

section \<open>Transcripts\<close>

definition thread_turns :: "string \<Rightarrow> 'w backend \<Rightarrow> exchange list" where
  "thread_turns key B = (case dict_get (bk_transcripts B) key of None \<Rightarrow> [] | Some ts \<Rightarrow> ts)"

text \<open>A node that ran before in the thread takes its old turn, and all after it, away.\<close>

definition append_to_transcript :: "string \<Rightarrow> string \<Rightarrow> string \<Rightarrow> string \<Rightarrow> 'w backend \<Rightarrow> 'w backend" where
  "append_to_transcript key node_id instruction out B =
     B\<lparr>bk_transcripts := dict_set key
         (takeWhile (\<lambda>(i, x, y). i \<noteq> node_id) (thread_turns key B) @ [(node_id, instruction, out)]) (bk_transcripts B)\<rparr>"

definition parent_messages :: "string \<Rightarrow> 'w backend \<Rightarrow> (string \<times> string) list" where
  "parent_messages key B =
     concat (map (\<lambda>(i, instruction, out). [(''user'', instruction), (''assistant'', out)]) (thread_turns key B))"

definition append_on :: "string option \<Rightarrow> string \<Rightarrow> string \<Rightarrow> string \<Rightarrow> 'w backend \<Rightarrow> 'w backend" where
  "append_on key node_id instruction out B =
     (case key of None \<Rightarrow> B | Some k \<Rightarrow> append_to_transcript k node_id instruction out B)"

section \<open>The spawned session\<close>

definition no_attribute :: "pyval \<Rightarrow> string \<Rightarrow> exc" where
  "no_attribute v name =
     PyError ''AttributeError'' False (quoted (py_type_name v) @ '' object has no attribute '' @ quoted name)"

definition get_from :: "pyval \<Rightarrow> string \<Rightarrow> pyval \<Rightarrow> exc + pyval" where
  "get_from v key dflt = (case v of PDict d \<Rightarrow> Inr (raw_get d key dflt) | _ \<Rightarrow> Inl (no_attribute v ''get''))"

definition or_empty :: "pyval \<Rightarrow> pyval" where
  "or_empty v = (if py_true v then v else PDict [])"

text \<open>The orchestrator module the agent's own configuration names.\<close>

definition orchestrator_module :: "pyval dict \<Rightarrow> string \<Rightarrow> exc + pyval" where
  "orchestrator_module agents agent =
     (case get_from (or_empty (raw_get agents agent PNone)) ''session'' PNone of
        Inl e \<Rightarrow> Inl e
      | Inr session \<Rightarrow>
          (case get_from (or_empty session) ''orchestrator'' (PDict []) of
             Inl e \<Rightarrow> Inl e | Inr orch \<Rightarrow> get_from orch ''module'' PNone))"

definition recursion_guard :: "string \<Rightarrow> pyval \<Rightarrow> exc" where
  "recursion_guard agent md =
     value_error (''loop-pipeline recursion guard: agent '' @ quoted agent @ '' has session.orchestrator.module=''
       @ py_repr md
       @ ''. The child would inherit or re-enter loop-pipeline, causing infinite recursion. Fix: add an inline session.orchestrator (non-pipeline, e.g. loop-agent) to the ''
       @ quoted agent @ '' agent definition in your pipeline profile or bundle config.'')"

definition drop_none :: "pyval dict \<Rightarrow> pyval dict" where
  "drop_none d = filter (\<lambda>(k, v). v \<noteq> PNone) d"

definition or_none :: "pyval \<Rightarrow> pyval" where
  "or_none v = (if py_true v then v else PNone)"

definition spawn_config :: "node \<Rightarrow> ctx \<Rightarrow> pyval \<Rightarrow> int option \<Rightarrow> pyval dict" where
  "spawn_config n c provider turns =
     (let own = or_none (node_attr_get n ''user_instructions'') in
      drop_none
        [(''reasoning_effort'', node_attr_get n ''reasoning_effort''),
         (''max_turns'', case turns of None \<Rightarrow> PNone | Some i \<Rightarrow> PInt i),
         (''user_instructions'', if py_true own then own else or_none (ctx_get c ''user_instructions'')),
         (''llm_provider'', provider)])"

definition spawn_request_for ::
    "node \<Rightarrow> string \<Rightarrow> string option \<Rightarrow> pyval \<Rightarrow> pyval \<Rightarrow> int option \<Rightarrow> string \<Rightarrow> string option \<Rightarrow> ctx \<Rightarrow> 'w backend
      \<Rightarrow> spawn_request" where
  "spawn_request_for n instruction path provider model turns agent key c B =
     \<lparr>sq_agent = agent,
      sq_instruction = instruction @ (case path of None \<Rightarrow> [] | Some p \<Rightarrow> build_status_file_contract p),
      sq_config = spawn_config n c provider turns @ (case key of None \<Rightarrow> [] | Some k \<Rightarrow> [(''thread_key'', PStr k)]),
      sq_preference = (if py_true model then Some (provider, model) else None),
      sq_attach = (if py_true (ctx_get c ''internal.env_container_id'')
        then Some (ctx_get c ''internal.env_type'', ctx_get c ''internal.env_container_id'') else None),
      sq_parent_messages = (case key of None \<Rightarrow> [] | Some k \<Rightarrow> parent_messages k B)\<rparr>"

definition spawn_output :: "pyval \<Rightarrow> exc + string" where
  "spawn_output result =
     (case result of
        PDict d \<Rightarrow>
          (case raw_get d ''output'' (PStr []) of PStr s \<Rightarrow> Inr s | v \<Rightarrow> Inl (no_attribute v ''strip''))
      | _ \<Rightarrow> Inr (py_str result))"

definition empty_spawn_outcome :: outcome where
  "empty_spawn_outcome =
     (mk_outcome FAIL)\<lparr>o_notes := Some ''No output from child session'', o_failure_reason := Some ''Empty spawn output''\<rparr>"

definition with_session :: "pyval \<Rightarrow> outcome \<Rightarrow> outcome" where
  "with_session result out =
     (case session_id_from_spawn_result result of None \<Rightarrow> out | Some s \<Rightarrow> out\<lparr>o_session_id := Some s\<rparr>)"

text \<open>What is made of the result: the text's verdict, or the completion status where the text is blank.\<close>

definition read_spawn_result ::
    "'w benv \<Rightarrow> node \<Rightarrow> string \<Rightarrow> string option \<Rightarrow> pyval \<Rightarrow> 'w backend \<Rightarrow> llm_answer \<times> 'w backend" where
  "read_spawn_result V n instruction key result B =
     (case spawn_output result of
        Inl e \<Rightarrow> (Broken e, B)
      | Inr out \<Rightarrow>
          (if py_strip out = []
           then case outcome_from_spawn_result result of
                  Inl e \<Rightarrow> (Broken e, B)
                | Inr (Some x) \<Rightarrow>
                    (let y = with_session result x in
                     (Answered out y, append_on key (n_id n) instruction (synthesize_outcome_marker y) B))
                | Inr None \<Rightarrow> (Answered out empty_spawn_outcome, B)
           else let B1 = append_on key (n_id n) instruction out B in
                case said out (parse_outcome (bv_loads V) out (Some n)) of
                  Answered t x \<Rightarrow> (Answered t (with_session result x), B1)
                | a \<Rightarrow> (a, B1)))"

definition run_with_spawn ::
    "'w benv \<Rightarrow> (spawn_request \<Rightarrow> 'w \<Rightarrow> (exc + pyval) \<times> 'w) \<Rightarrow> node \<Rightarrow> string \<Rightarrow> string option \<Rightarrow> pyval \<Rightarrow> pyval
      \<Rightarrow> int option \<Rightarrow> string \<Rightarrow> string option \<Rightarrow> ctx \<Rightarrow> 'w backend \<Rightarrow> llm_answer \<times> 'w backend" where
  "run_with_spawn V spawn n instruction path provider model turns agent key c B =
     (case orchestrator_module (bv_agents V) agent of
        Inl e \<Rightarrow> (Broken e, B)
      | Inr md \<Rightarrow>
          (if md = PNone \<or> md = PStr ''loop-pipeline'' then (Broken (recursion_guard agent md), B)
           else case in_world (spawn (spawn_request_for n instruction path provider model turns agent key c B)) B of
                  (Inl e, B1) \<Rightarrow>
                    (if is_cancellation e then (Broken e, B1)
                     else (Answered [] ((mk_outcome FAIL)\<lparr>o_failure_reason := Some (exc_str e)\<rparr>), B1))
                | (Inr result, B1) \<Rightarrow> read_spawn_result V n instruction key result B1))"

section \<open>The direct worker\<close>

definition max_tool_loop_rounds :: int where
  "max_tool_loop_rounds = 20"

definition worker_identity :: "string \<Rightarrow> string \<Rightarrow> pyval \<Rightarrow> pyval dict" where
  "worker_identity provider model effort =
     [(''provider_module'', PStr provider), (''provider_instance'', PNone), (''model'', PStr model),
      (''reasoning_effort'', effort)]"

definition subscription_worker_error :: "node \<Rightarrow> string \<Rightarrow> exc" where
  "subscription_worker_error n provider =
     value_error (''Node '' @ quoted (n_id n) @ '' set llm_provider='' @ repr_str provider
       @ '', but the `llm-direct` worker is a pure unified-llm-spec client (SDK-direct anthropic/openai/gemini only) and cannot serve it. ''
       @ provider
       @ '' is available via the coding-agent and amplifier-agent workers -- add --worker coding-agent (or --worker amplifier-agent), or set llm_provider to one of: anthropic, openai, gemini.'')"

text \<open>The text of a generation and its outcome.\<close>

definition silent_worker_outcome :: "node \<Rightarrow> outcome" where
  "silent_worker_outcome n =
     (if resolve_bool_attr (node_attr_get n ''goal_gate'')
      then (mk_outcome FAIL)
        \<lparr>o_notes := Some (''No output from direct worker: '' @ n_id n),
         o_failure_reason := Some ''Empty direct-worker response -- goal_gate node requires explicit verdict''\<rparr>
      else (mk_outcome SUCCESS)\<lparr>o_notes := Some (''Stage completed: '' @ n_id n)\<rparr>)"

definition with_last_stage :: "node \<Rightarrow> string \<Rightarrow> outcome \<Rightarrow> outcome" where
  "with_last_stage n text out =
     out\<lparr>o_context_updates := Some (dict_update (case o_context_updates out of None \<Rightarrow> [] | Some d \<Rightarrow> d)
           [(''last_stage'', PStr (n_id n)), (''last_response'', PStr (first_chars text))])\<rparr>"

definition tool_loop_result :: "'w benv \<Rightarrow> node \<Rightarrow> string option \<Rightarrow> llm_answer" where
  "tool_loop_result V n text =
     (if \<not> str_true text then Answered [] (with_last_stage n [] (silent_worker_outcome n))
      else case said (the text) (parse_outcome (bv_loads V) (the text) (Some n)) of
             Answered t x \<Rightarrow> Answered t (with_last_stage n (the text) x) | a \<Rightarrow> a)"

definition worker_failed :: "string \<Rightarrow> llm_answer" where
  "worker_failed reason = Answered [] ((mk_outcome FAIL)\<lparr>o_failure_reason := Some reason\<rparr>)"

definition worker_generate ::
    "'w benv \<Rightarrow> node \<Rightarrow> generate_request \<Rightarrow> 'w backend \<Rightarrow> llm_answer \<times> 'w backend" where
  "worker_generate V n rq B =
     (let who = (''provider'', PStr (gq_provider rq)) # worker_identity (gq_provider rq) (gq_model rq) (gq_effort rq);
          here = (''node_id'', PStr (n_id n));
          (denied, B1) = in_world (bv_emit V ''provider:request'' (who @ [here,
            (''tool_names'', PList (map PStr (bv_tool_names V))),
            (''message_count'', PInt (if gq_history rq = [] then 1 else int (length (gq_history rq)) + 1))])) B
      in case denied of
           Some reason \<Rightarrow>
             (worker_failed (''Denied by hook: '' @ (if reason = [] then ''Denied by hook'' else reason)), B1)
         | None \<Rightarrow>
             (case in_world (bv_generate V rq) B1 of
                (Inl (sdk, e), B2) \<Rightarrow>
                  (case sdk of
                     Some payload \<Rightarrow> (worker_failed (exc_str e), snd (in_world (bv_emit V ''provider:error'' payload) B2))
                   | None \<Rightarrow> (if is_cancellation e then Broken e else worker_failed (exc_str e), B2))
              | (Inr r, B2) \<Rightarrow>
                  (tool_loop_result V n (gn_text r),
                   snd (in_world (bv_emit V ''provider:response'' (who @ [here, (''usage'', gn_usage r),
                     (''finish_reason'', gn_finish_reason r),
                     (''text_length'', PInt (case gn_text r of None \<Rightarrow> 0 | Some t \<Rightarrow> int (length t))),
                     (''step_count'', PInt (int (gn_steps r))), (''cost_usd'', gn_cost r)])) B2))))"

definition direct_provider :: "node \<Rightarrow> string" where
  "direct_provider n =
     (if py_true (node_attr_get n ''llm_provider'') then py_str (node_attr_get n ''llm_provider'')
      else py_str (node_attr_get_d n ''llm_provider'' (PStr ''anthropic'')))"

definition direct_worker_run ::
    "'w benv \<Rightarrow> node \<Rightarrow> string \<Rightarrow> (string \<times> string) list \<Rightarrow> 'w backend \<Rightarrow> llm_answer \<times> 'w backend" where
  "direct_worker_run V n instruction history B =
     (let provider = direct_provider n in
      if provider \<in> set subscription_only_providers then (Broken (subscription_worker_error n provider), B)
      else case resolve_model n of
             Inl e \<Rightarrow> (Broken e, B)
           | Inr token \<Rightarrow>
               (case resolve_concrete_model V provider (PStr token)
                       (if py_true (node_attr_get n ''llm_model'') then True else default_model_stable_only provider) B of
                  (Inl e, B1) \<Rightarrow> (Broken e, B1)
                | (Inr model, B1) \<Rightarrow>
                    (case max_agent_turns n of
                       Inl e \<Rightarrow> (Broken e, B1)
                     | Inr turns \<Rightarrow>
                         worker_generate V n
                           \<lparr>gq_model = py_str model,
                            gq_rounds = (case turns of None \<Rightarrow> max_tool_loop_rounds | Some i \<Rightarrow> i),
                            gq_effort = node_attr_get n ''reasoning_effort'', gq_provider = provider,
                            gq_history = history, gq_prompt = instruction\<rparr> B1)))"

definition run_with_tool_loop ::
    "'w benv \<Rightarrow> node \<Rightarrow> string \<Rightarrow> string option \<Rightarrow> 'w backend \<Rightarrow> llm_answer \<times> 'w backend" where
  "run_with_tool_loop V n instruction key B =
     (case direct_worker_run V n instruction (case key of None \<Rightarrow> [] | Some k \<Rightarrow> parent_messages k B) B of
        (Answered out x, B1) \<Rightarrow>
          (Answered out x,
           append_on key (n_id n) instruction (if py_strip out \<noteq> [] then out else synthesize_outcome_marker x) B1)
      | (a, B1) \<Rightarrow> (a, B1))"

section \<open>Running a node\<close>

definition node_fidelity :: "node \<Rightarrow> edge option \<Rightarrow> graph option \<Rightarrow> ctx \<Rightarrow> string" where
  "node_fidelity n incoming g c =
     (let own = (case g of Some h \<Rightarrow> resolve_fidelity n incoming h
                 | None \<Rightarrow> py_str (node_attr_get_d n ''fidelity'' (PStr ''compact'')));
          cap = ctx_get c resume_fidelity_cap_key
      in if py_true cap \<and> own = ''full'' then py_str cap else own)"

definition thread_of :: "string \<Rightarrow> node \<Rightarrow> edge option \<Rightarrow> graph option \<Rightarrow> 'w backend \<Rightarrow> string option" where
  "thread_of fidelity n incoming g B =
     (case g of
        None \<Rightarrow> None
      | Some h \<Rightarrow> (if fidelity = ''full'' then Some (resolve_thread_key n incoming h (bk_last_node B)) else None))"

definition rule_off :: string where
  "rule_off = newline @ newline @ ''---'' @ newline @ newline"

definition framed_prompt :: "string \<Rightarrow> string \<Rightarrow> ctx \<Rightarrow> 'w backend \<Rightarrow> string" where
  "framed_prompt fidelity prompt c B =
     (if fidelity = ''full'' then prompt
      else let preamble = build_preamble fidelity c (bk_completed B) in
           if preamble = [] then prompt else preamble @ rule_off @ prompt)"

text \<open>The human's answer at the gate before, which is used once.\<close>

definition inject_gate_text :: "string \<Rightarrow> ctx \<Rightarrow> string \<times> ctx" where
  "inject_gate_text instruction c =
     (let t = ctx_get c ''human.gate.text'' in
      if t = PNone then (instruction, c)
      else let c1 = ctx_set ''human.gate.text'' PNone c in
           (if py_true t
            then ''Human response at gate '' @ [CHR 0x22] @ py_str (ctx_get_d c1 ''human.gate.label'' (PStr []))
              @ [CHR 0x22] @ '':'' @ newline @ py_str t @ rule_off @ instruction
            else instruction, c1))"

definition no_spawn :: "node \<Rightarrow> exc" where
  "no_spawn n =
     value_error (''Node '' @ quoted (n_id n) @ '' selected worker='' @ repr_str spawn_worker
       @ '' (explicitly or via run-level default) but the session.spawn capability is not available for this run.'')"

definition provider_key_env :: "string dict" where
  "provider_key_env =
     [(''anthropic'', ''ANTHROPIC_API_KEY''), (''openai'', ''OPENAI_API_KEY''), (''gemini'', ''GEMINI_API_KEY'')]"

definition no_profile :: "'w benv \<Rightarrow> node \<Rightarrow> pyval \<Rightarrow> exc" where
  "no_profile V n provider =
     value_error (''Node '' @ quoted (n_id n) @ '' resolved llm_provider='' @ py_repr provider
       @ '' but no profile is mounted for that provider (mounted profiles: ''
       @ (if bv_profiles V = [] then ''none'' else repr_strs (sort (dict_keys (bv_profiles V))))
       @ ''). Refusing to fall back to another provider's profile -- silent single-provider fallback defeats dual-family critique (issue #155, EXTENSIONS.md section 36). Fix: add ''
       @ quoted (py_str provider @ '': <agent-name>'') @ '' to the orchestrator '' @ quoted ''profiles''
       @ '' config and ensure its credential (''
       @ (case dict_get provider_key_env (py_str provider) of None \<Rightarrow> ''<PROVIDER>_API_KEY'' | Some k \<Rightarrow> k)
       @ '') is set, or change the node's llm_provider.'')"

definition no_route :: outcome where
  "no_route =
     (mk_outcome FAIL)\<lparr>o_failure_reason :=
       Some ''Neither session.spawn nor a direct provider is available -- cannot execute node''\<rparr>"

definition profile_of :: "'w benv \<Rightarrow> pyval \<Rightarrow> string option" where
  "profile_of V provider = (case provider of PStr s \<Rightarrow> dict_get (bv_profiles V) s | _ \<Rightarrow> None)"

definition record_completed :: "node \<Rightarrow> llm_answer \<times> 'w backend \<Rightarrow> llm_answer \<times> 'w backend" where
  "record_completed n r =
     (case r of
        (Answered out x, B) \<Rightarrow>
          (Answered out x, B\<lparr>bk_completed := dict_set (n_id n) x (bk_completed B), bk_last_node := Some (n_id n)\<rparr>)
      | (a, B) \<Rightarrow> (a, B))"

text \<open>The routing by worker name.\<close>

definition route ::
    "'w benv \<Rightarrow> string \<Rightarrow> node \<Rightarrow> string \<Rightarrow> string option \<Rightarrow> pyval \<Rightarrow> pyval \<Rightarrow> int option \<Rightarrow> string option \<Rightarrow> ctx
      \<Rightarrow> 'w backend \<Rightarrow> llm_answer \<times> 'w backend" where
  "route V worker n instruction path provider model turns key c B =
     (if worker = spawn_worker
      then case bv_spawn V of
             None \<Rightarrow> (Broken (no_spawn n), B)
           | Some spawn \<Rightarrow>
               (case profile_of V provider of
                  None \<Rightarrow> (Broken (no_profile V n provider), B)
                | Some agent \<Rightarrow>
                    record_completed n (run_with_spawn V spawn n instruction path provider model turns agent key c B))
      else if bv_has_provider V then record_completed n (run_with_tool_loop V n instruction key B)
      else (Answered [] no_route, B))"

definition node_provider :: "'w benv \<Rightarrow> node \<Rightarrow> pyval" where
  "node_provider V n =
     (if py_true (node_attr_get n ''llm_provider'') then node_attr_get n ''llm_provider''
      else PStr (implicit_default_provider (bv_profiles V)))"

definition backend_run ::
    "'w benv \<Rightarrow> node \<Rightarrow> string \<Rightarrow> ctx \<Rightarrow> edge option \<Rightarrow> graph option \<Rightarrow> string option \<Rightarrow> 'w backend
      \<Rightarrow> llm_answer \<times> ctx \<times> 'w backend" where
  "backend_run V n prompt c incoming g path B =
     (let provider = node_provider V n in
      case resolve_concrete_model V (py_str provider) (node_attr_get n ''llm_model'') True B of
        (Inl e, B1) \<Rightarrow> (Broken e, c, B1)
      | (Inr model, B1) \<Rightarrow>
          (case max_agent_turns n of
             Inl e \<Rightarrow> (Broken e, c, B1)
           | Inr turns \<Rightarrow>
               (let fidelity = node_fidelity n incoming g c; key = thread_of fidelity n incoming g B1 in
                case resolve_worker_name V n of
                  Inl e \<Rightarrow> (Broken e, c, B1)
                | Inr worker \<Rightarrow>
                    (let (instruction, c1) = inject_gate_text (framed_prompt fidelity prompt c B1) c;
                         (a, B2) = route V worker n instruction path provider model turns key c1 B1
                     in (a, c1, B2)))))"

end
