(* ===== verification/Codergen.thy ===== *)
theory Codergen
  imports Backend Human_Gate
begin

text \<open>
  The handler of LLM nodes, \<open>handlers/codergen.py\<close>: the prompt with its variables, the call of the
  backend, the files of the stage (\<open>prompt.md\<close>, \<open>response.md\<close>, \<open>status.json\<close>), the verdict of a goal
  gate and the verdict a worker has written itself.

  The backend is a function on the world; \<open>amplifier_backend\<close> is the one of \<open>backend.py\<close>. The two
  context variables that are set while it runs are its last two arguments. A verdict with fields of other
  types than an outcome declares ends the model where it enters the handler.
\<close>

section \<open>The environment\<close>

datatype reply = Throws exc | Text string | Result outcome | Untyped verdict

type_synonym 'w llm = "node \<Rightarrow> string \<Rightarrow> ctx \<Rightarrow> graph \<Rightarrow> string \<Rightarrow> string \<Rightarrow> 'w \<Rightarrow> reply \<times> ctx \<times> 'w"

record 'w cgenv =
  cg_host :: host
  cg_logs_root :: string
  cg_time :: "'w \<Rightarrow> rat \<times> 'w"
  cg_files :: "'w \<Rightarrow> fsys"
  cg_makedirs :: "string \<Rightarrow> 'w \<Rightarrow> exc option \<times> 'w"
  cg_write :: "string \<Rightarrow> string \<Rightarrow> 'w \<Rightarrow> exc option \<times> 'w"
  cg_abspath :: "string \<Rightarrow> string"
  cg_backend :: "'w llm option"

text \<open>The production backend as one: the world is the backend's own state.\<close>

definition amplifier_backend :: "'v benv \<Rightarrow> 'v backend llm" where
  "amplifier_backend V n prompt c g sessions path B =
     (let (a, c1, B1) = backend_run V n prompt c None (Some g) (Some path) B
      in (case a of Broken e \<Rightarrow> Throws e | Answered t x \<Rightarrow> Result x | Ill_Typed v \<Rightarrow> Untyped v, c1, B1))"

section \<open>The prompt\<close>

text \<open>A context key without a dot is a parameter.\<close>

definition plain_params :: "ctx \<Rightarrow> string dict" where
  "plain_params c = map (\<lambda>(k, v). (k, py_str v)) (filter (\<lambda>(k, v). CHR ''.'' \<notin> set k) (ctx_snapshot c))"

definition expand_stage_prompt :: "string \<Rightarrow> graph \<Rightarrow> ctx \<Rightarrow> string" where
  "expand_stage_prompt prompt g c =
     (let context_goal = (if py_true (ctx_get c ''graph.goal'') then py_str (ctx_get c ''graph.goal'') else []);
          r1 = expand_goal_variable prompt (g_goal g) context_goal;
          last_response = (let v = ctx_get_d c ''last_response'' (PStr []) in if py_true v then py_str v else []);
          r2 = (if occurs_in (dollar # ''context'') r1 then replace_str (dollar # ''context'') last_response r1 else r1)
      in if dollar \<in> set r2 \<and> plain_params c \<noteq> [] then expand_params r2 (plain_params c) else r2)"

definition stage_prompt :: "node \<Rightarrow> pyval" where
  "stage_prompt n =
     (if n_prompt n \<noteq> [] then PStr (n_prompt n)
      else if py_true (node_attr_get n ''llm_prompt'') then node_attr_get n ''llm_prompt''
      else PStr (n_label n))"

text \<open>A prompt that is no text raises, as in the human gate.\<close>

definition codergen_prompt :: "graph \<Rightarrow> node \<Rightarrow> ctx \<Rightarrow> exc + string" where
  "codergen_prompt g n c =
     (case stage_prompt n of PStr s \<Rightarrow> Inr (expand_stage_prompt s g c) | v \<Rightarrow> Inl (not_text g c v))"

section \<open>What a failing stage leaves behind\<close>

definition prompt_tail_chars :: nat where
  "prompt_tail_chars = 500"

definition response_tail_chars :: nat where
  "response_tail_chars = 2000"

definition stage_failed_step :: "string \<Rightarrow> string option \<Rightarrow> string option \<Rightarrow> pyval" where
  "stage_failed_step prompt response err =
     (let tail = (''response_tail'', PStr (tail_of response_tail_chars (case response of None \<Rightarrow> [] | Some s \<Rightarrow> s)));
          start = (''prompt'', PStr (take prompt_tail_chars prompt));
          why = (''error'', case err of None \<Rightarrow> PNone | Some e \<Rightarrow> PStr e)
      in PDict (if over_cap [start, tail, why]
                then [start, why, (''verification_gap'', PDict [(''log_filtered'', PBool True)])]
                else [start, tail, why]))"

section \<open>status.json\<close>

text \<open>\<open>json.dumps(\<dots>, indent=2)\<close>.\<close>

definition indented :: "nat \<Rightarrow> char \<Rightarrow> string list \<Rightarrow> char \<Rightarrow> string" where
  "indented depth opening items closer =
     (if items = [] then [opening, closer]
      else let pad = CHR 0x0A # replicate (2 * depth + 2) CHR '' '' in
           opening # pad @ py_join (CHR '','' # pad) items @ CHR 0x0A # replicate (2 * depth) CHR '' '' @ [closer])"

fun json_pretty :: "nat \<Rightarrow> pyval \<Rightarrow> string" where
  "json_pretty depth (PList xs) = indented depth CHR ''['' (map (json_pretty (depth + 1)) xs) CHR '']''"
| "json_pretty depth (PDict d) =
     indented depth CHR ''{'' (map (\<lambda>(k, v). json_str k @ '': '' @ json_pretty (depth + 1) v) d) CHR ''}''"
| "json_pretty depth v = json_dumps v"

definition opt_val :: "('a \<Rightarrow> pyval) \<Rightarrow> 'a option \<Rightarrow> pyval" where
  "opt_val f x = (case x of None \<Rightarrow> PNone | Some y \<Rightarrow> f y)"

definition stage_status_json :: "outcome \<Rightarrow> pyval" where
  "stage_status_json out =
     PDict [(''outcome'', PStr (status_value (o_status out))), (''status'', PStr (status_value (o_status out))),
       (''preferred_next_label'', opt_val PStr (o_preferred_label out)),
       (''preferred_label'', opt_val PStr (o_preferred_label out)),
       (''suggested_next_ids'', opt_val PList (o_suggested_next_ids out)),
       (''context_updates'', opt_val PDict (o_context_updates out)),
       (''notes'', opt_val PStr (o_notes out)), (''failure_reason'', opt_val PStr (o_failure_reason out)),
       (''is_explicit'', PBool (o_is_explicit out)), (''session_id'', opt_val PStr (o_session_id out))]"

definition stage_dir :: "'w cgenv \<Rightarrow> node \<Rightarrow> string" where
  "stage_dir E n = os_path_join (cg_logs_root E) (n_id n)"

text \<open>The outcome, or the exception of the write.\<close>

definition write_stage_status :: "'w cgenv \<Rightarrow> node \<Rightarrow> outcome \<Rightarrow> 'w \<Rightarrow> llm_answer \<times> 'w" where
  "write_stage_status E n out w =
     (case cg_write E (os_path_join (stage_dir E n) ''status.json'') (json_pretty 0 (stage_status_json out)) w of
        (Some e, w1) \<Rightarrow> (Broken e, w1)
      | (None, w1) \<Rightarrow> (Answered [] out, w1))"

text \<open>A fresh \<open>status.json\<close> of the worker's own wins over the outcome.\<close>

definition settle_status :: "'w cgenv \<Rightarrow> node \<Rightarrow> rat \<Rightarrow> outcome \<Rightarrow> 'w \<Rightarrow> llm_answer \<times> 'w" where
  "settle_status E n start out w =
     (case read_status_override (cg_host E) (cg_files E w) n (cg_logs_root E) start out of
        Inl e \<Rightarrow> (Broken e, w)
      | Inr None \<Rightarrow> write_stage_status E n out w
      | Inr (Some theirs) \<Rightarrow> write_stage_status E n theirs w)"

section \<open>The handler\<close>

definition missing_backend :: exc where
  "missing_backend =
     value_error ''CodergenHandler requires a backend but none was provided. Pass backend=MockBackend() explicitly if you want simulated responses for testing.''"

text \<open>\<open>except Exception\<close>: the stage fails with the exception's text.\<close>

definition rescue :: "'w cgenv \<Rightarrow> node \<Rightarrow> string \<Rightarrow> llm_answer \<times> 'w \<Rightarrow> llm_answer \<times> 'w" where
  "rescue E n prompt r =
     (case r of
        (Broken e, w) \<Rightarrow>
          (if is_cancellation e then r
           else write_stage_status E n
             ((mk_outcome FAIL)\<lparr>o_failure_reason := Some (exc_str e),
               o_failed_step := Some (stage_failed_step prompt None (Some (exc_str e)))\<rparr>) w)
      | _ \<Rightarrow> r)"

text \<open>An outcome of the backend: its text is kept, then the status is settled.\<close>

definition keep_response :: "'w cgenv \<Rightarrow> node \<Rightarrow> string option \<Rightarrow> 'w \<Rightarrow> exc option \<times> 'w" where
  "keep_response E n text w =
     (if str_true text then cg_write E (os_path_join (stage_dir E n) ''response.md'') (the text) w else (None, w))"

definition outcome_stage :: "'w cgenv \<Rightarrow> node \<Rightarrow> rat \<Rightarrow> outcome \<Rightarrow> 'w \<Rightarrow> llm_answer \<times> 'w" where
  "outcome_stage E n start out w =
     (case keep_response E n (o_response_text out) w of
        (Some e, w1) \<Rightarrow> (Broken e, w1)
      | (None, w1) \<Rightarrow> settle_status E n start out w1)"

text \<open>The outcome of a text: of a goal gate it is the verdict the text states, elsewhere a success.\<close>

definition last_updates :: "node \<Rightarrow> string \<Rightarrow> pyval dict" where
  "last_updates n response = [(''last_stage'', PStr (n_id n)), (''last_response'', PStr (first_chars response))]"

definition gate_outcome :: "node \<Rightarrow> string \<Rightarrow> string \<Rightarrow> outcome \<Rightarrow> outcome" where
  "gate_outcome n prompt response out =
     (let out1 = out\<lparr>o_context_updates := Some (dict_update (last_updates n response)
            (case o_context_updates out of None \<Rightarrow> [] | Some d \<Rightarrow> d))\<rparr>
      in if o_status out1 = FAIL \<and> o_failed_step out1 = None
         then out1\<lparr>o_failed_step := Some (stage_failed_step prompt (Some response) (o_failure_reason out1))\<rparr>
         else out1)"

definition text_outcome :: "host \<Rightarrow> node \<Rightarrow> string \<Rightarrow> string \<Rightarrow> llm_answer" where
  "text_outcome h n prompt response =
     (if resolve_bool_attr (node_attr_get n ''goal_gate'')
      then case said [] (parse_outcome (h_json_loads h) response (Some n)) of
             Answered t out \<Rightarrow> Answered t (gate_outcome n prompt response out) | a \<Rightarrow> a
      else Answered [] ((mk_outcome SUCCESS)\<lparr>o_notes := Some (''Stage completed: '' @ n_id n),
             o_context_updates := Some (last_updates n response)\<rparr>))"

definition text_stage :: "'w cgenv \<Rightarrow> node \<Rightarrow> rat \<Rightarrow> string \<Rightarrow> string \<Rightarrow> 'w \<Rightarrow> llm_answer \<times> 'w" where
  "text_stage E n start prompt response w =
     (case cg_write E (os_path_join (stage_dir E n) ''response.md'') response w of
        (Some e, w1) \<Rightarrow> (Broken e, w1)
      | (None, w1) \<Rightarrow>
          (case text_outcome (cg_host E) n prompt response of
             Answered t out \<Rightarrow> settle_status E n start out w1
           | a \<Rightarrow> (a, w1)))"

text \<open>The call of the backend and what its reply leads to: all but a text is inside the \<open>try\<close>.\<close>

definition call_backend ::
    "'w cgenv \<Rightarrow> 'w llm \<Rightarrow> node \<Rightarrow> rat \<Rightarrow> string \<Rightarrow> ctx \<Rightarrow> graph \<Rightarrow> 'w \<Rightarrow> llm_answer \<times> ctx \<times> 'w" where
  "call_backend E ask n start prompt c g w =
     (case ask n prompt c g (os_path_join (stage_dir E n) ''sessions'')
             (cg_abspath E (os_path_join (stage_dir E n) ''status.json'')) w of
        (Throws e, c1, w1) \<Rightarrow> (let (a, w2) = rescue E n prompt (Broken e, w1) in (a, c1, w2))
      | (Result out, c1, w1) \<Rightarrow> (let (a, w2) = rescue E n prompt (outcome_stage E n start out w1) in (a, c1, w2))
      | (Untyped v, c1, w1) \<Rightarrow> (Ill_Typed v, c1, w1)
      | (Text response, c1, w1) \<Rightarrow> (let (a, w2) = text_stage E n start prompt response w1 in (a, c1, w2)))"

definition codergen_execute :: "'w cgenv \<Rightarrow> node \<Rightarrow> ctx \<Rightarrow> graph \<Rightarrow> 'w \<Rightarrow> llm_answer \<times> ctx \<times> 'w" where
  "codergen_execute E n c g w =
     (let (start, w1) = cg_time E w in
      case codergen_prompt g n c of
        Inl e \<Rightarrow> (Broken e, c, w1)
      | Inr prompt \<Rightarrow>
          (case cg_makedirs E (stage_dir E n) w1 of
             (Some e, w2) \<Rightarrow> (Broken e, c, w2)
           | (None, w2) \<Rightarrow>
               (case cg_write E (os_path_join (stage_dir E n) ''prompt.md'') prompt w2 of
                  (Some e, w3) \<Rightarrow> (Broken e, c, w3)
                | (None, w3) \<Rightarrow>
                    (case cg_backend E of
                       None \<Rightarrow> (Broken missing_backend, c, w3)
                     | Some ask \<Rightarrow> call_backend E ask n start prompt c g w3))))"

end
