(* ===== verification/Backend_Facts.thy ===== *)
theory Backend_Facts
  imports Codergen "HOL-Library.Sublist"
begin

text \<open>
  Facts of the LLM backend: what the verdict ladder reads is a part of the text, what a run of the backend
  does to the transcripts, and which spawn requests it can make.
\<close>

section \<open>Verdicts are read from the text\<close>

lemma strip_part: "sublist (py_strip s) s"
proof -
  have "suffix (dropWhile py_isspace t) t" for t by (rule suffix_dropWhile)
  then have "prefix (py_rstrip t) t" for t unfolding py_rstrip_def suffix_to_prefix [symmetric]
    by (metis rev_rev_ident suffix_to_prefix)
  then show ?thesis unfolding py_strip_def py_lstrip_def
    by (meson prefix_imp_sublist sublist_order.order.trans suffix_dropWhile suffix_imp_sublist)
qed

lemma drop_part: "sublist (drop i s) s"
  by (simp add: suffix_drop suffix_imp_sublist)

lemma take_part: "sublist (take i s) s"
  by (simp add: take_is_prefix)

lemma unfence_part: "sublist (unfence s) s"
  unfolding unfence_def
  by (auto intro: sublist_order.order.trans [OF strip_part] sublist_order.order.trans [OF drop_part] take_part)

lemma candidate_part: "embedded_candidate s = Some t \<Longrightarrow> sublist t s"
  by (auto simp: embedded_candidate_def split: option.splits
      intro: sublist_order.order.trans [OF take_part] drop_part)

text \<open>A text states a verdict in an object that is a part of it.\<close>

definition states :: "(string \<Rightarrow> string + pyval) \<Rightarrow> string \<Rightarrow> stage_status \<Rightarrow> bool" where
  "states loads out st =
     (\<exists>t d. sublist t out \<and> CHR ''{'' \<in> set t \<and> loads t = Inr (PDict d)
        \<and> dict_get d ''status'' = Some (PStr (status_value st)))"

lemma status_of_valueD: "status_of_value s = Some st \<Longrightarrow> s = status_value st"
  by (cases st) (auto simp: status_of_value_def status_value_def split: if_splits)

lemma json_verdictD:
  assumes "json_verdict loads out s = Some v"
  shows "vd_explicit v" "vd_response v = Some out"
    "\<exists>d. loads s = Inr (PDict d) \<and> dict_get d ''status'' = Some (PStr (status_value (vd_status v)))"
  using assms
  by (auto simp: json_verdict_def verdict_of_def mk_verdict_def
      dest!: status_of_valueD split: sum.splits pyval.splits option.splits)

lemma candidate_opens: "embedded_candidate s = Some t \<Longrightarrow> CHR ''{'' \<in> set t"
proof -
  assume "embedded_candidate s = Some t"
  then obtain i k where i: "last_open s = Some i" "t = take (k + 1) (drop i s)"
    by (auto simp: embedded_candidate_def split: option.splits)
  then have "i < length s" "s ! i = CHR ''{''" by (auto simp: last_open_def find_Some_iff rev_nth)
  then show ?thesis by (cases "drop i s") (auto simp: i(2) nth_via_drop)
qed

lemma plain_verdict_fields:
  "\<not> vd_explicit (plain_verdict out n)" "vd_status (plain_verdict out n) = (if is_gate_node n then RETRY else SUCCESS)"
  by (auto simp: plain_verdict_def mk_verdict_def)

lemma empty_verdict_fields: "\<not> vd_explicit empty_verdict" "vd_status empty_verdict = FAIL"
  by (auto simp: empty_verdict_def mk_verdict_def)

lemma startswith_brace: "startswith ''{'' s \<Longrightarrow> CHR ''{'' \<in> set s"
  by (cases s) auto

lemma parse_outcome_cases:
  obtains "py_strip out = []" "parse_outcome loads out n = empty_verdict"
    | s where "sublist s out" "CHR ''{'' \<in> set s" "json_verdict loads out s = Some (parse_outcome loads out n)"
    | "py_strip out \<noteq> []" "parse_outcome loads out n = plain_verdict out n"
proof (cases "py_strip out = []")
  case True
  then show ?thesis using that(1) by (simp add: parse_outcome_def)
next
  case False
  define s where "s = unfence (py_strip out)"
  have s: "sublist s out" unfolding s_def by (rule sublist_order.order.trans [OF unfence_part strip_part])
  note eq = parse_outcome_def [of loads out n] s_def [symmetric] Let_def
  show ?thesis
  proof (cases "if startswith ''{'' s then json_verdict loads out s else None")
    case None
    show ?thesis
    proof (cases "case embedded_candidate s of None \<Rightarrow> None | Some t \<Rightarrow> json_verdict loads out t")
      case None': None
      then show ?thesis using that(3) False None by (simp add: eq)
    next
      case (Some v)
      then obtain t where "embedded_candidate s = Some t" "json_verdict loads out t = Some v"
        by (auto split: option.splits)
      then show ?thesis
        using that(2) [of t] candidate_part candidate_opens sublist_order.order.trans [OF _ s] False None Some by (simp add: eq)
    qed
  next
    case (Some v)
    then show ?thesis using that(2) [of s] s startswith_brace False by (simp add: eq split: if_splits)
  qed
qed

lemma explicit_states: "vd_explicit (parse_outcome loads out n) \<Longrightarrow> states loads out (vd_status (parse_outcome loads out n))"
  by (rule parse_outcome_cases [of out loads n])
    (auto simp: empty_verdict_fields plain_verdict_fields states_def dest: json_verdictD(3))

lemma typed_fields:
  "typed v = Some x \<Longrightarrow> o_status x = vd_status v \<and> o_is_explicit x = vd_explicit v \<and> o_response_text x = vd_response v
    \<and> o_failure_reason x = opt_str_of (vd_reason v)"
  by (auto simp: typed_def split: if_splits)

lemma said_states:
  "said out (parse_outcome loads out n) = Answered t x \<Longrightarrow> o_is_explicit x \<Longrightarrow> t = out \<and> states loads out (o_status x)"
  using explicit_states [of loads out n] by (auto simp: said_def dest: typed_fields split: option.splits)

section \<open>Transcripts\<close>

lemma strip_blank: "py_strip s = [] \<longleftrightarrow> (\<forall>c \<in> set s. py_isspace c)"
  by (auto simp: py_strip_def py_rstrip_def py_lstrip_def dropWhile_eq_Nil_conv dest: set_dropWhileD)
    (metis dropWhile_eq_Nil_conv hd_dropWhile hd_in_set)

lemma marker_not_blank: "py_strip (synthesize_outcome_marker out) \<noteq> []"
  by (simp add: strip_blank synthesize_outcome_marker_def py_isspace_def)

text \<open>Two backends that differ in the world and the resolved models.\<close>

definition same_threads :: "'w backend \<Rightarrow> 'w backend \<Rightarrow> bool" where
  "same_threads A B =
     (bk_transcripts B = bk_transcripts A \<and> bk_completed B = bk_completed A \<and> bk_last_node B = bk_last_node A)"

named_theorems thread_frames \<open>operations that leave the threads alone\<close>

lemma same_threads_refl [simp]: "same_threads A A"
  by (simp add: same_threads_def)

lemma same_threads_trans: "same_threads A B \<Longrightarrow> same_threads B C \<Longrightarrow> same_threads A C"
  by (simp add: same_threads_def)

lemma in_world_frame [thread_frames]: "in_world f B = (x, C) \<Longrightarrow> same_threads B C"
  by (auto simp: in_world_def same_threads_def split: prod.splits)

lemma in_world_frame' [simp]: "same_threads B (snd (in_world f B))"
  by (auto simp: in_world_def same_threads_def split: prod.splits)

lemma resolve_pattern_frame [thread_frames]: "resolve_pattern V p m st B = (x, C) \<Longrightarrow> same_threads B C"
  by (auto simp: resolve_pattern_def in_world_def same_threads_def Let_def split: if_splits option.splits prod.splits sum.splits)

lemma resolve_concrete_model_frame [thread_frames]:
  "resolve_concrete_model V p m st B = (x, C) \<Longrightarrow> same_threads B C"
  by (auto simp: resolve_concrete_model_def dest: resolve_pattern_frame split: if_splits pyval.splits prod.splits sum.splits)

lemma worker_generate_frame [thread_frames]:
  fixes B :: "'a backend"
  assumes "worker_generate V n rq B = (a, C)"
  shows "same_threads B C"
proof -
  define who where "who = (''provider'', PStr (gq_provider rq)) # worker_identity (gq_provider rq) (gq_model rq) (gq_effort rq)"
  define ask where "ask = bv_emit V ''provider:request'' (who @ [(''node_id'', PStr (n_id n)),
            (''tool_names'', PList (map PStr (bv_tool_names V))),
            (''message_count'', PInt (if gq_history rq = [] then 1 else int (length (gq_history rq)) + 1))])"
  obtain d B1 where b1: "in_world ask B = (d, B1)" by force
  obtain r B2 where b2: "in_world (bv_generate V rq) B1 = (r, B2)" by force
  have "C = B1 \<or> C = B2 \<or> (\<exists>f :: 'a \<Rightarrow> string option \<times> 'a. C = snd (in_world f B2))"
    using assms unfolding worker_generate_def Let_def who_def [symmetric] ask_def [symmetric] b1 
    by (auto simp: b2 split: option.splits sum.splits prod.splits if_splits)
  then show ?thesis
    using in_world_frame [OF b1] in_world_frame [OF b2] same_threads_trans in_world_frame' by metis
qed

lemma direct_worker_run_frame [thread_frames]:
  "direct_worker_run V n i h B = (a, C) \<Longrightarrow> same_threads B C"
  by (auto simp: direct_worker_run_def Let_def split: if_splits sum.splits prod.splits
      dest: resolve_concrete_model_frame worker_generate_frame intro: same_threads_trans)

text \<open>What a run may do to the transcripts: one turn, of the node, in its own thread, with words in it.\<close>

definition turn_added :: "string option \<Rightarrow> string \<Rightarrow> 'w backend \<Rightarrow> 'w backend \<Rightarrow> bool" where
  "turn_added key i A B =
     (bk_transcripts B = bk_transcripts A
      \<or> (\<exists>k p out. key = Some k \<and> py_strip out \<noteq> [] \<and> bk_transcripts B = bk_transcripts (append_to_transcript k i p out A)))"

lemma turn_added_none [simp]: "same_threads A B \<Longrightarrow> turn_added key i A B"
  by (simp add: turn_added_def same_threads_def)

lemma turn_added_on: "py_strip out \<noteq> [] \<Longrightarrow> same_threads A B \<Longrightarrow> turn_added key i A (append_on key i p out B)"
  by (cases key) (auto simp: turn_added_def append_on_def append_to_transcript_def thread_turns_def same_threads_def)

lemma turn_added_after: "same_threads A B \<Longrightarrow> turn_added key i B C \<Longrightarrow> turn_added key i A C"
  by (simp add: turn_added_def same_threads_def append_to_transcript_def thread_turns_def)

lemma read_spawn_result_turn: "read_spawn_result V n p key res B = (a, C) \<Longrightarrow> turn_added key (n_id n) B C"
  by (auto simp: read_spawn_result_def Let_def marker_not_blank turn_added_on
      split: sum.splits option.splits if_splits llm_answer.splits)

lemma run_with_spawn_turn:
  "run_with_spawn V sp n p path pr m turns agent key c B = (a, C) \<Longrightarrow> turn_added key (n_id n) B C"
  by (auto simp: run_with_spawn_def dest!: in_world_frame split: sum.splits if_splits prod.splits
      intro: turn_added_after dest: read_spawn_result_turn)

lemma run_with_tool_loop_turn: "run_with_tool_loop V n p key B = (a, C) \<Longrightarrow> turn_added key (n_id n) B C"
  by (auto simp: run_with_tool_loop_def marker_not_blank split: prod.splits llm_answer.splits if_splits
      dest!: direct_worker_run_frame intro!: turn_added_on)

lemma record_completed_turn: "turn_added key i B C \<Longrightarrow> turn_added key i B (snd (record_completed n (a, C)))"
  by (auto simp: record_completed_def turn_added_def split: llm_answer.splits)

lemma route_turn:
  assumes "route V worker n p path pr m turns key c B = (a, C)"
  shows "turn_added key (n_id n) B C"
  using assms record_completed_turn [of key "n_id n" B _ n] run_with_spawn_turn [of V _ n] run_with_tool_loop_turn [of V n]
  by (auto simp: route_def split: if_splits option.splits) (metis prod.collapse snd_conv)+

lemma thread_of_frame: "same_threads A B \<Longrightarrow> thread_of f n e g B = thread_of f n e g A"
  by (auto simp: thread_of_def same_threads_def split: option.splits)

lemma backend_run_turn:
  assumes "backend_run V n p c e g path B = (a, c1, C)"
  shows "turn_added (thread_of (node_fidelity n e g c) n e g B) (n_id n) B C"
proof -
  obtain r B1 where m: "resolve_concrete_model V (py_str (node_provider V n)) (node_attr_get n ''llm_model'') True B = (r, B1)"
    by force
  note f = resolve_concrete_model_frame [OF m]
  show ?thesis
    using assms f turn_added_after [OF f route_turn]
    by (auto simp: backend_run_def m Let_def thread_of_frame [OF f] split: sum.splits prod.splits)
qed

section \<open>Requests\<close>

text \<open>What a spawned session of a node may be given: the profile of the node's own provider, this provider in
  its configuration and its preference, the turns of the node's thread, the path of the node's status file.\<close>

definition request_of ::
    "'w benv \<Rightarrow> node \<Rightarrow> string option \<Rightarrow> string option \<Rightarrow> 'w backend \<Rightarrow> spawn_request \<Rightarrow> bool" where
  "request_of V n key path B rq =
     ((\<exists>name. node_provider V n = PStr name \<and> dict_get (bv_profiles V) name = Some (sq_agent rq))
      \<and> dict_get (sq_config rq) ''llm_provider'' = Some (node_provider V n)
      \<and> (case sq_preference rq of None \<Rightarrow> True | Some (p, m) \<Rightarrow> p = node_provider V n)
      \<and> sq_parent_messages rq = (case key of None \<Rightarrow> [] | Some k \<Rightarrow> parent_messages k B)
      \<and> (case path of None \<Rightarrow> True | Some p \<Rightarrow> suffix (build_status_file_contract p) (sq_instruction rq)))"

lemma profile_ofD: "profile_of V p = Some agent \<Longrightarrow> \<exists>name. p = PStr name \<and> dict_get (bv_profiles V) name = Some agent"
  by (auto simp: profile_of_def split: pyval.splits)

lemma node_provider_set: "node_provider V n \<noteq> PNone"
  by (auto simp: node_provider_def)

lemma get_append: "dict_get (d @ e) k = (case dict_get d k of None \<Rightarrow> dict_get e k | Some v \<Rightarrow> Some v)"
  by (auto simp: map_add_def split: option.splits)

lemma config_provider: "p \<noteq> PNone \<Longrightarrow> dict_get (spawn_config n c p turns) ''llm_provider'' = Some p"
  by (simp add: spawn_config_def drop_none_def Let_def)

lemma parent_messages_frame: "same_threads A B \<Longrightarrow> parent_messages k B = parent_messages k A"
  by (simp add: parent_messages_def thread_turns_def same_threads_def)

lemma spawn_request_of:
  assumes "profile_of V (node_provider V n) = Some agent" "same_threads A B"
  shows "request_of V n key path A (spawn_request_for n p path (node_provider V n) m turns agent key c B)"
proof -
  have "dict_get (spawn_config n c (node_provider V n) turns @ e) ''llm_provider'' = Some (node_provider V n)" for e
    by (simp only: get_append config_provider [OF node_provider_set] option.case)
  then show ?thesis using profile_ofD [OF assms(1)] parent_messages_frame [OF assms(2)] config_provider [OF node_provider_set]
    by (cases key; cases path) (simp_all add: request_of_def spawn_request_for_def suffixI del: map_of_append)
qed

lemma spawn_fields:
  "bv_loads (V\<lparr>bv_spawn := x\<rparr>) = bv_loads V" "bv_emit (V\<lparr>bv_spawn := x\<rparr>) = bv_emit V"
  "bv_generate (V\<lparr>bv_spawn := x\<rparr>) = bv_generate V" "bv_tool_names (V\<lparr>bv_spawn := x\<rparr>) = bv_tool_names V"
  "bv_agents (V\<lparr>bv_spawn := x\<rparr>) = bv_agents V"
  "bv_resolve_latest (V\<lparr>bv_spawn := x\<rparr>) = bv_resolve_latest V"
  by simp_all

lemma run_with_spawn_cong:
  assumes "\<And>w. sp (spawn_request_for n p path pr m turns agent key c B) w = sp' (spawn_request_for n p path pr m turns agent key c B) w"
  shows "run_with_spawn (V\<lparr>bv_spawn := x\<rparr>) sp' n p path pr m turns agent key c B = run_with_spawn V sp n p path pr m turns agent key c B"
proof -
  have "sp (spawn_request_for n p path pr m turns agent key c B) = sp' (spawn_request_for n p path pr m turns agent key c B)"
    using assms by auto
  note same = this
  have "read_spawn_result (V\<lparr>bv_spawn := x\<rparr>) = read_spawn_result V"
    unfolding read_spawn_result_def spawn_fields ..
  then show ?thesis unfolding run_with_spawn_def spawn_fields same by (simp only:)
qed

lemma profile_of_spawn [simp]: "profile_of (V\<lparr>bv_spawn := x\<rparr>) = profile_of V"
  "no_profile (V\<lparr>bv_spawn := x\<rparr>) = no_profile V"
  "node_provider (V\<lparr>bv_spawn := x\<rparr>) = node_provider V"
  by (auto simp: fun_eq_iff profile_of_def no_profile_def node_provider_def split: pyval.splits)

lemma resolve_spawn [simp]:
  "resolve_pattern (V\<lparr>bv_spawn := x\<rparr>) = resolve_pattern V"
  "resolve_concrete_model (V\<lparr>bv_spawn := x\<rparr>) = resolve_concrete_model V"
  unfolding resolve_pattern_def resolve_concrete_model_def spawn_fields by simp_all

lemma worker_spawn [simp]:
  "worker_generate (V\<lparr>bv_spawn := x\<rparr>) = worker_generate V"
  "direct_worker_run (V\<lparr>bv_spawn := x\<rparr>) = direct_worker_run V"
  "run_with_tool_loop (V\<lparr>bv_spawn := x\<rparr>) = run_with_tool_loop V"
proof -
  have res: "resolve_concrete_model (V\<lparr>bv_spawn := x\<rparr>) = resolve_concrete_model V" by simp
  have said: "tool_loop_result (V\<lparr>bv_spawn := x\<rparr>) = tool_loop_result V"
    unfolding tool_loop_result_def spawn_fields ..
  show gen: "worker_generate (V\<lparr>bv_spawn := x\<rparr>) = worker_generate V"
    unfolding worker_generate_def spawn_fields said ..
  show run: "direct_worker_run (V\<lparr>bv_spawn := x\<rparr>) = direct_worker_run V"
    unfolding direct_worker_run_def gen res ..
  show "run_with_tool_loop (V\<lparr>bv_spawn := x\<rparr>) = run_with_tool_loop V"
    unfolding run_with_tool_loop_def run ..
qed

lemma resolve_worker_spawn: "bv_spawn V \<noteq> None \<Longrightarrow> resolve_worker_name (V\<lparr>bv_spawn := Some x\<rparr>) = resolve_worker_name V"
  by (auto simp: fun_eq_iff resolve_worker_name_def Let_def)

lemma route_cong:
  assumes "bv_spawn V = Some sp" "same_threads A B"
    and "\<And>rq w. request_of V n key path A rq \<Longrightarrow> sp rq w = sp' rq w"
  shows "route (V\<lparr>bv_spawn := Some sp'\<rparr>) worker n p path (node_provider V n) m turns key c B
       = route V worker n p path (node_provider V n) m turns key c B"
proof (cases "profile_of V (node_provider V n)")
  case (Some agent)
  have "run_with_spawn (V\<lparr>bv_spawn := Some sp'\<rparr>) sp' n p path (node_provider V n) m turns agent key c B
      = run_with_spawn V sp n p path (node_provider V n) m turns agent key c B"
    by (rule run_with_spawn_cong) (rule assms(3) [OF spawn_request_of [OF Some assms(2)]])
  then show ?thesis using assms(1) Some by (simp add: route_def)
qed (simp add: route_def assms(1))

section \<open>The text of the gate before\<close>

lemma inject_gate_text_ctx:
  assumes "inject_gate_text p c = (q, c1)"
  shows "c1 = (if ctx_get c ''human.gate.text'' = PNone then c else ctx_set ''human.gate.text'' PNone c)"
    "py_true (ctx_get c ''human.gate.text'') \<Longrightarrow>
       q = ''Human response at gate '' @ [CHR 0x22] @ py_str (ctx_get_d c ''human.gate.label'' (PStr []))
              @ [CHR 0x22] @ '':'' @ newline @ py_str (ctx_get c ''human.gate.text'') @ rule_off @ p"
    "\<not> py_true (ctx_get c ''human.gate.text'') \<Longrightarrow> q = p"
  using assms by (auto simp: inject_gate_text_def Let_def ctx_set_def ctx_get_d_def split: if_splits)

section \<open>Explicit outcomes\<close>

text \<open>An explicit outcome of the backend is stated in the text it keeps.\<close>

definition stated :: "'w benv \<Rightarrow> llm_answer \<Rightarrow> bool" where
  "stated V a =
     (case a of
        Answered t x \<Rightarrow> (o_is_explicit x \<longrightarrow> o_response_text x = Some t \<and> states (bv_loads V) t (o_status x))
      | _ \<Rightarrow> True)"

lemma said_stated: "stated V (said out (parse_outcome (bv_loads V) out n))"
proof (cases "typed (parse_outcome (bv_loads V) out n)")
  case (Some x)
  have "o_is_explicit x \<Longrightarrow> o_response_text x = Some out \<and> states (bv_loads V) out (o_status x)"
    using typed_fields [OF Some] explicit_states [of "bv_loads V" out n]
    by (rule_tac parse_outcome_cases [of out "bv_loads V" n])
      (auto simp: empty_verdict_fields plain_verdict_fields dest: json_verdictD(2))
  then show ?thesis by (simp add: said_def stated_def Some)
qed (simp add: said_def stated_def)

lemma with_session_fields [simp]:
  "o_is_explicit (with_session r x) = o_is_explicit x" "o_status (with_session r x) = o_status x"
  "o_response_text (with_session r x) = o_response_text x"
  by (simp_all add: with_session_def split: option.splits)

lemma spawn_outcome_silent: "outcome_from_spawn_result r = Inr (Some x) \<Longrightarrow> \<not> o_is_explicit x"
  by (auto simp: outcome_from_spawn_result_def Let_def mk_outcome_def split: pyval.splits option.splits if_splits)

lemma read_spawn_result_stated: "stated V (fst (read_spawn_result V n p key r B))"
proof (cases "spawn_output r")
  case (Inr out)
  show ?thesis
  proof (cases "py_strip out = []")
    case True
    then show ?thesis using Inr spawn_outcome_silent [of r]
      by (auto simp: read_spawn_result_def stated_def empty_spawn_outcome_def mk_outcome_def Let_def
          split: sum.splits option.splits)
  next
    case False
    then show ?thesis using Inr said_stated [of V out "Some n"]
      by (cases "said out (parse_outcome (bv_loads V) out (Some n))") (simp_all add: read_spawn_result_def stated_def Let_def)
  qed
qed (simp add: read_spawn_result_def stated_def)

lemma run_with_spawn_stated: "stated V (fst (run_with_spawn V sp n p path pr m turns agent key c B))"
  using read_spawn_result_stated
  by (auto simp: run_with_spawn_def stated_def mk_outcome_def split: sum.splits prod.splits)

lemma tool_loop_result_stated: "stated V (tool_loop_result V n text)"
proof (cases "str_true text")
  case True
  show ?thesis using said_stated [of V "the text" "Some n"]
    by (cases "said (the text) (parse_outcome (bv_loads V) (the text) (Some n))")
      (simp_all add: tool_loop_result_def stated_def with_last_stage_def True)
qed (simp add: tool_loop_result_def stated_def with_last_stage_def silent_worker_outcome_def mk_outcome_def)

lemma worker_failed_stated: "stated V (worker_failed r)" "stated V (Broken e)"
  by (simp_all add: stated_def worker_failed_def mk_outcome_def)

lemma worker_generate_stated: "stated V (fst (worker_generate V n rq B))"
  by (auto simp: worker_generate_def Let_def worker_failed_stated tool_loop_result_stated
      split: prod.splits option.splits sum.splits)

lemma direct_worker_run_stated: "stated V (fst (direct_worker_run V n p h B))"
  by (auto simp: direct_worker_run_def Let_def worker_failed_stated worker_generate_stated
      split: prod.splits option.splits sum.splits)

lemma run_with_tool_loop_stated: "stated V (fst (run_with_tool_loop V n p key B))"
proof -
  define h where "h = (case key of None \<Rightarrow> [] | Some k \<Rightarrow> parent_messages k B)"
  show ?thesis using direct_worker_run_stated [of V n p h B]
    by (cases "direct_worker_run V n p h B")
      (auto simp: run_with_tool_loop_def h_def [symmetric] stated_def split: llm_answer.splits)
qed

lemma record_completed_fst [simp]: "fst (record_completed n r) = fst r"
  by (auto simp: record_completed_def split: prod.splits llm_answer.splits)

lemma backend_run_stated: "stated V (fst (backend_run V n p c e g path B))"
proof -
  have none: "stated V (Answered [] no_route)" by (simp add: stated_def no_route_def mk_outcome_def)
  have "stated V (fst (route V worker n i path pr m turns key c2 B2))" for worker i pr m turns key c2 B2
    by (auto simp: route_def worker_failed_stated run_with_spawn_stated run_with_tool_loop_stated none split: option.splits)
  then show ?thesis
    by (auto simp: backend_run_def Let_def worker_failed_stated split: prod.splits sum.splits) (metis fst_conv)
qed

section \<open>The codergen handler\<close>

text \<open>The world the backend is called in.\<close>

definition asked_in :: "'w cgenv \<Rightarrow> node \<Rightarrow> string \<Rightarrow> 'w \<Rightarrow> 'w" where
  "asked_in E n prompt w =
     snd (cg_write E (os_path_join (stage_dir E n) ''prompt.md'') prompt (snd (cg_makedirs E (stage_dir E n) (snd (cg_time E w)))))"

definition put_to :: "'w cgenv \<Rightarrow> 'w llm \<Rightarrow> node \<Rightarrow> ctx \<Rightarrow> graph \<Rightarrow> string \<Rightarrow> 'w \<Rightarrow> reply \<times> ctx \<times> 'w" where
  "put_to E ask n c g prompt w =
     ask n prompt c g (os_path_join (stage_dir E n) ''sessions'')
       (cg_abspath E (os_path_join (stage_dir E n) ''status.json'')) (asked_in E n prompt w)"

lemma codergen_answered:
  assumes "codergen_execute E n c g w = (Answered t x, c1, w1)"
  obtains prompt ask where "codergen_prompt g n c = Inr prompt" "cg_backend E = Some ask"
    "call_backend E ask n (fst (cg_time E w)) prompt c g (asked_in E n prompt w) = (Answered t x, c1, w1)"
proof -
  obtain start w0 where "cg_time E w = (start, w0)" by force
  moreover obtain m w2 where "cg_makedirs E (stage_dir E n) w0 = (m, w2)" by force
  moreover obtain prompt where "codergen_prompt g n c = Inr prompt"
    using assms by (cases "codergen_prompt g n c") (auto simp: codergen_execute_def Let_def split: prod.splits)
  moreover obtain r w3 where "cg_write E (os_path_join (stage_dir E n) ''prompt.md'') prompt w2 = (r, w3)" by force
  ultimately show thesis
    using assms that by (auto simp: codergen_execute_def asked_in_def split: option.splits)
qed

lemma write_stage_status_answered:
  "write_stage_status E n out w = (Answered t x, w1) \<Longrightarrow>
     x = out \<and> cg_write E (os_path_join (stage_dir E n) ''status.json'') (json_pretty 0 (stage_status_json x)) w = (None, w1)"
  by (auto simp: write_stage_status_def split: prod.splits option.splits)

lemma settle_status_answered:
  assumes "settle_status E n start out w = (Answered t x, w1)"
  shows "x = out \<or> read_status_override (cg_host E) (cg_files E w) n (cg_logs_root E) start out = Inr (Some x)"
    "cg_write E (os_path_join (stage_dir E n) ''status.json'') (json_pretty 0 (stage_status_json x)) w = (None, w1)"
  using assms by (auto simp: settle_status_def dest!: write_stage_status_answered split: sum.splits option.splits)

lemma outcome_stage_answered:
  assumes "outcome_stage E n start out w = (Answered t x, w1)"
  shows "settle_status E n start out (snd (keep_response E n (o_response_text out) w)) = (Answered t x, w1)"
  using assms by (auto simp: outcome_stage_def split: prod.splits option.splits)

lemma rescue_answered:
  "rescue E n prompt r = (Answered t x, w1) \<Longrightarrow>
     r = (Answered t x, w1)
     \<or> (\<exists>e w. r = (Broken e, w) \<and> \<not> is_cancellation e \<and> o_status x = FAIL \<and> o_failure_reason x = Some (exc_str e)
          \<and> o_failed_step x = Some (stage_failed_step prompt None (Some (exc_str e)))
          \<and> cg_write E (os_path_join (stage_dir E n) ''status.json'') (json_pretty 0 (stage_status_json x)) w = (None, w1))"
  by (auto simp: rescue_def mk_outcome_def dest!: write_stage_status_answered split: prod.splits llm_answer.splits if_splits)

end
