(* ===== verification/Backend_Properties.thy ===== *)
theory Backend_Properties
  imports Backend_Facts Samples
begin

text \<open>
  Properties of LLM nodes: how a goal gate is satisfied, what a spawned session is given, the threads, the
  text of the gate before, and the status file of a stage.
\<close>

section \<open>A backend for the witnesses\<close>

definition verdict_text :: string where
  "verdict_text = ''done {v}''"

definition verdict_loads :: "string \<Rightarrow> string + pyval" where
  "verdict_loads s = (if s = ''{v}'' then Inr (PDict [(''status'', PStr ''success'')]) else Inl ''no JSON'')"

definition sample_benv :: "unit benv" where
  "sample_benv =
     \<lparr>bv_profiles = [(''anthropic'', ''coder'')], bv_default_worker = None, bv_has_provider = False,
      bv_agents = [(''coder'', PDict [(''session'', PDict [(''orchestrator'', PDict [(''module'', PStr ''loop-agent'')])])])],
      bv_tool_names = [], bv_loads = verdict_loads,
      bv_spawn = Some (\<lambda>rq w. (Inr (PDict [(''output'', PStr verdict_text)]), w)),
      bv_generate = (\<lambda>rq w. (Inl (None, value_error []), w)), bv_resolve_latest = (\<lambda>p m s w. (Inl (value_error []), w)),
      bv_emit = (\<lambda>e d w. (None, w))\<rparr>"

definition llm_node :: node where
  "llm_node = (plain_node ''n'' ''box'')
     \<lparr>n_goal_gate := PBool True, n_raw := [(''goal_gate'', PBool True)], n_fidelity := PStr ''full'', n_thread_id := PStr ''t''\<rparr>"

definition llm_graph :: graph where
  "llm_graph = plain_graph [llm_node] []"

definition llm_env :: "unit backend cgenv" where
  "llm_env =
     \<lparr>cg_host = plain_host PNone, cg_logs_root = ''l'', cg_time = (\<lambda>w. (0, w)), cg_files = (\<lambda>w s. None),
      cg_makedirs = (\<lambda>s w. (None, w)), cg_write = (\<lambda>s t w. (None, w)), cg_abspath = (\<lambda>s. s),
      cg_backend = Some (amplifier_backend sample_benv)\<rparr>"

section \<open>Goal gates\<close>

text \<open>C7: An LLM node satisfies its goal gate only by a verdict somebody stated. If the handler, with the
  production backend, answers with an outcome that satisfies a gate, then either it is the backend's own outcome
  and the text of the worker, kept on it, contains a JSON object with that status; or the worker left a fresh
  \<open>status.json\<close> in the stage directory that says so. Prose, silence, an exception or the completion status of
  the spawned session never do.\<close>

theorem llm_gate_needs_verdict:
  assumes "cg_backend E = Some (amplifier_backend V)" "codergen_prompt g n c = Inr prompt"
    and "codergen_execute E n c g B = (Answered t x, c1, C)" "gate_satisfied x"
  shows "case put_to E (amplifier_backend V) n c g prompt B of
      (Result out, c2, B1) \<Rightarrow>
        (x = out \<and> (\<exists>text. o_response_text out = Some text \<and> states (bv_loads V) text (o_status x)))
        \<or> read_status_override (cg_host E) (cg_files E (snd (keep_response E n (o_response_text out) B1))) n
             (cg_logs_root E) (fst (cg_time E B)) out = Inr (Some x)
    | _ \<Rightarrow> False"
proof -
  obtain reply c2 B1 where put: "put_to E (amplifier_backend V) n c g prompt B = (reply, c2, B1)" by (rule prod_cases3)
  have call: "call_backend E (amplifier_backend V) n (fst (cg_time E B)) prompt c g (asked_in E n prompt B) = (Answered t x, c1, C)"
    using assms(1,2) by (rule_tac codergen_answered [OF assms(3)]) auto
  have not_failed: "o_status x \<noteq> FAIL" using assms(4) by (auto simp: gate_satisfied_def is_success_def)
  note ask = put [unfolded put_to_def]
  show ?thesis
  proof (cases reply)
    case (Throws e)
    then show ?thesis using call not_failed
      by (auto simp: call_backend_def ask split: prod.splits dest!: rescue_answered)
  next
    case (Text s)
    then show ?thesis using ask by (auto simp: amplifier_backend_def split: prod.splits llm_answer.splits)
  next
    case (Untyped v)
    then show ?thesis using call by (simp add: call_backend_def ask)
  next
    case (Result out)
    then have "outcome_stage E n (fst (cg_time E B)) out B1 = (Answered t x, C)"
      using call not_failed by (auto simp: call_backend_def ask split: prod.splits dest!: rescue_answered)
    note settled = settle_status_answered [OF outcome_stage_answered [OF this]]
    obtain t' where "fst (backend_run V n prompt c None (Some g)
        (Some (cg_abspath E (os_path_join (stage_dir E n) ''status.json''))) (asked_in E n prompt B)) = Answered t' out"
      using ask Result by (auto simp: amplifier_backend_def split: prod.splits llm_answer.splits)
    then have "o_is_explicit out \<Longrightarrow> \<exists>text. o_response_text out = Some text \<and> states (bv_loads V) text (o_status out)"
      using backend_run_stated [of V n prompt c None "Some g"
        "Some (cg_abspath E (os_path_join (stage_dir E n) ''status.json''))" "asked_in E n prompt B"]
      by (auto simp: stated_def)
    then show ?thesis using settled(1) assms(4) by (auto simp: put Result gate_satisfied_def)
  qed
qed

lemma llm_gate_needs_verdict_witness:
  "case put_to llm_env (amplifier_backend sample_benv) llm_node ctx_new llm_graph ''n'' (backend_init ()) of
      (Result out, c2, B1) \<Rightarrow>
        (\<exists>x. (x = out \<and> (\<exists>text. o_response_text out = Some text \<and> states (bv_loads sample_benv) text (o_status x)))
        \<or> read_status_override (cg_host llm_env) (cg_files llm_env (snd (keep_response llm_env llm_node (o_response_text out) B1)))
             llm_node (cg_logs_root llm_env) (fst (cg_time llm_env (backend_init ()))) out = Inr (Some x))
    | _ \<Rightarrow> False"
proof -
  obtain r c1 C where put: "put_to llm_env (amplifier_backend sample_benv) llm_node ctx_new llm_graph ''n'' (backend_init ()) = (r, c1, C)"
    by (rule prod_cases3)
  have "case put_to llm_env (amplifier_backend sample_benv) llm_node ctx_new llm_graph ''n'' (backend_init ()) of
      (Result out, c1, C) \<Rightarrow> gate_satisfied out | _ \<Rightarrow> False"
    by code_simp
  then obtain out where out: "r = Result out" "gate_satisfied out" by (auto simp: put split: reply.splits)
  have prompt: "codergen_prompt llm_graph llm_node ctx_new = Inr ''n''" by code_simp
  have env: "cg_time llm_env w = (0, w)" "cg_makedirs llm_env d w = (None, w)" "cg_write llm_env d s w = (None, w)"
    "cg_files llm_env w d = None" "cg_backend llm_env = Some (amplifier_backend sample_benv)" for w d s
    by (simp_all add: llm_env_def)
  have "outcome_stage llm_env llm_node 0 out C = (Answered [] out, C)"
    by (simp add: outcome_stage_def keep_response_def settle_status_def read_status_override_def write_stage_status_def env)
  then have "call_backend llm_env (amplifier_backend sample_benv) llm_node 0 ''n'' ctx_new llm_graph (backend_init ()) = (Answered [] out, c1, C)"
    using put by (simp add: call_backend_def put_to_def asked_in_def env out(1) rescue_def)
  then have "codergen_execute llm_env llm_node ctx_new llm_graph (backend_init ()) = (Answered [] out, c1, C)"
    by (simp add: codergen_execute_def env prompt)
  from llm_gate_needs_verdict [OF env(5) prompt this out(2)] show ?thesis by (auto simp: put out(1))
qed

section \<open>Spawned sessions\<close>

text \<open>C17: A session is spawned only for the node's own provider and thread. Two spawn capabilities that agree
  on the requests a node may make (the agent is the profile of the node's provider, its configuration and its
  model preference name this provider, the earlier turns are those of the node's thread and of no other, the
  instruction ends in the contract for the node's status file) cannot be told apart by a run of it.\<close>

theorem spawn_requests_own_provider:
  assumes "bv_spawn V = Some sp"
    and "\<And>rq w. request_of V n (thread_of (node_fidelity n e g c) n e g B) path B rq \<Longrightarrow> sp rq w = sp' rq w"
  shows "backend_run (V\<lparr>bv_spawn := Some sp'\<rparr>) n prompt c e g path B = backend_run V n prompt c e g path B"
proof -
  obtain r B1 where m: "resolve_concrete_model V (py_str (node_provider V n)) (node_attr_get n ''llm_model'') True B = (r, B1)"
    by force
  note f = resolve_concrete_model_frame [OF m]
  have "route (V\<lparr>bv_spawn := Some sp'\<rparr>) worker n p path (node_provider V n) m turns (thread_of (node_fidelity n e g c) n e g B) c2 B1
      = route V worker n p path (node_provider V n) m turns (thread_of (node_fidelity n e g c) n e g B) c2 B1"
    for worker p m turns c2
    by (rule route_cong [OF assms(1) f]) (rule assms(2))
  note here = this
  have worker: "resolve_worker_name (V\<lparr>bv_spawn := Some sp'\<rparr>) = resolve_worker_name V"
    by (rule resolve_worker_spawn) (simp add: assms(1))
  show ?thesis
    unfolding backend_run_def profile_of_spawn resolve_spawn m worker Let_def prod.case thread_of_frame [OF f] here ..
qed

lemma spawn_requests_own_provider_witness:
  "backend_run (sample_benv\<lparr>bv_spawn := Some (\<lambda>rq w. if sq_agent rq = ''coder'' then (Inr (PDict [(''output'', PStr verdict_text)]), w)
       else (Inl (value_error ''other''), w))\<rparr>) llm_node ''p'' ctx_new None (Some llm_graph) None (backend_init ())
   = backend_run sample_benv llm_node ''p'' ctx_new None (Some llm_graph) None (backend_init ())"
proof (rule spawn_requests_own_provider)
  have own: "profile_of sample_benv (node_provider sample_benv llm_node) = Some ''coder''" by code_simp
  show "bv_spawn sample_benv = Some (\<lambda>rq w. (Inr (PDict [(''output'', PStr verdict_text)]), w))" by (simp add: sample_benv_def)
  show "(Inr (PDict [(''output'', PStr verdict_text)]), w) = (if sq_agent rq = ''coder'' then (Inr (PDict [(''output'', PStr verdict_text)]), w)
       else (Inl (value_error ''other''), w))"
    if "request_of sample_benv llm_node (thread_of (node_fidelity llm_node None (Some llm_graph) ctx_new) llm_node None (Some llm_graph)
        (backend_init ())) None (backend_init ()) rq" for rq and w :: unit
    using that own by (auto simp: request_of_def profile_of_def)
qed

section \<open>Threads\<close>

text \<open>The states of a backend: it is created, runs nodes, is copied for a branch, and the world moves on.\<close>

inductive backend_reached :: "'w benv \<Rightarrow> 'w backend \<Rightarrow> bool" for V where
  created: "backend_reached V (backend_init w)"
| ran: "backend_reached V B \<Longrightarrow> backend_run V n prompt c e g path B = (a, c1, C) \<Longrightarrow> backend_reached V C"
| cloned: "backend_reached V B \<Longrightarrow> backend_reached V (clone_backend B)"
| elsewhere: "backend_reached V B \<Longrightarrow> backend_reached V (B\<lparr>bk_world := w\<rparr>)"

definition turns_ok :: "exchange list \<Rightarrow> bool" where
  "turns_ok ts = (distinct (map fst ts) \<and> (\<forall>(i, p, out) \<in> set ts. py_strip out \<noteq> []))"

definition threads_ok :: "'w backend \<Rightarrow> bool" where
  "threads_ok B = (\<forall>k. turns_ok (thread_turns k B))"

lemma turns_ok_append:
  assumes "turns_ok ts" "py_strip out \<noteq> []"
  shows "turns_ok (takeWhile (\<lambda>(i, x, y). i \<noteq> n) ts @ [(n, p, out)])"
proof -
  have "distinct (map fst (takeWhile Q ts))" for Q
    using assms(1) by (metis distinct_take take_map takeWhile_eq_take turns_ok_def)
  then show ?thesis using assms by (fastforce simp: turns_ok_def dest: set_takeWhileD)
qed

text \<open>C16: Threads are sound histories. In every state a backend reaches, each thread holds at most one turn of
  a node, so that a node that runs again replaces its old turn, and every turn has an answer with words in it: a
  session is never given an assistant message that is empty.\<close>

theorem threads_sound:
  assumes "backend_reached V B"
  shows "threads_ok B"
  using assms
proof induction
  case (ran B n prompt c e g path a c1 C)
  from backend_run_turn [OF ran.hyps(2)]
  consider "bk_transcripts C = bk_transcripts B"
    | k p out where "py_strip out \<noteq> []" "bk_transcripts C = bk_transcripts (append_to_transcript k (n_id n) p out B)"
    by (auto simp: turn_added_def)
  then show ?case
  proof cases
    case 1
    then show ?thesis using ran.IH by (simp add: threads_ok_def thread_turns_def)
  next
    case 2
    then have "thread_turns j C = (if j = k then takeWhile (\<lambda>(i, x, y). i \<noteq> n_id n) (thread_turns k B) @ [(n_id n, p, out)]
        else thread_turns j B)" for j
      by (simp add: thread_turns_def append_to_transcript_def)
    then show ?thesis using ran.IH turns_ok_append [OF _ 2(1)] by (simp add: threads_ok_def)
  qed
qed (simp_all add: threads_ok_def thread_turns_def backend_init_def clone_backend_def turns_ok_def)

lemma threads_sound_witness:
  "threads_ok (snd (snd (backend_run sample_benv llm_node ''p'' ctx_new None (Some llm_graph) None (backend_init ()))))
   \<and> thread_turns ''t'' (snd (snd (backend_run sample_benv llm_node ''p'' ctx_new None (Some llm_graph) None (backend_init ()))))
       = [(''n'', ''p'', verdict_text)]"
proof -
  define r where "r = backend_run sample_benv llm_node ''p'' ctx_new None (Some llm_graph) None (backend_init ())"
  obtain a c1 C where res: "r = (a, c1, C)" by (rule prod_cases3)
  have "backend_reached sample_benv C"
    using backend_reached.ran [OF backend_reached.created res [unfolded r_def]] .
  from threads_sound [OF this] have "threads_ok (snd (snd r))" by (simp add: res)
  moreover have "thread_turns ''t'' (snd (snd r)) = [(''n'', ''p'', verdict_text)]" unfolding r_def by code_simp
  ultimately show ?thesis by (simp add: r_def)
qed

section \<open>The text of the gate before\<close>

text \<open>The human's answer at the gate before is used once. A run leaves the context as it was or with
  \<open>human.gate.text\<close> emptied and nothing else changed; and where the node was answered, a text that was there is
  emptied.\<close>

theorem gate_text_used_once:
  "case backend_run V n prompt c e g path B of
     (a, c1, C) \<Rightarrow>
       c1 \<in> {c, ctx_set ''human.gate.text'' PNone c}
       \<and> (case a of Answered t x \<Rightarrow> ctx_get c1 ''human.gate.text'' = PNone | _ \<Rightarrow> True)"
  by (auto simp: backend_run_def Let_def ctx_get_def ctx_get_d_def ctx_set_def dest!: inject_gate_text_ctx(1) split: prod.splits sum.splits llm_answer.splits)

text \<open>A node that could not be run has used it all the same: the retry asks without it.\<close>

lemma gate_text_lost:
  "case backend_run (sample_benv\<lparr>bv_profiles := []\<rparr>) llm_node ''p'' (ctx_set ''human.gate.text'' (PStr ''yes'') ctx_new)
      None (Some llm_graph) None (backend_init ()) of
     (Broken e, c1, C) \<Rightarrow> ctx_get c1 ''human.gate.text'' = PNone | _ \<Rightarrow> False"
  by code_simp

section \<open>The stage\<close>

text \<open>C24: The status file holds what the handler answers. When the handler answers with an outcome, on any
  path, the last thing it did was to write exactly this outcome to the stage's \<open>status.json\<close>.\<close>

theorem stage_status_recorded:
  "case codergen_execute E n c g w of
     (Answered t x, c1, w1) \<Rightarrow>
       (\<exists>w0. cg_write E (os_path_join (stage_dir E n) ''status.json'') (json_pretty 0 (stage_status_json x)) w0 = (None, w1))
   | _ \<Rightarrow> True"
proof -
  obtain a c1 w1 where res: "codergen_execute E n c g w = (a, c1, w1)" by (rule prod_cases3)
  show ?thesis
  proof (cases a)
    case (Answered t x)
    obtain prompt ask where "call_backend E ask n (fst (cg_time E w)) prompt c g (asked_in E n prompt w) = (Answered t x, c1, w1)"
      using res Answered by (auto elim: codergen_answered)
    then have "\<exists>w0. cg_write E (os_path_join (stage_dir E n) ''status.json'') (json_pretty 0 (stage_status_json x)) w0 = (None, w1)"
      by (auto simp: call_backend_def text_stage_def split: prod.splits reply.splits option.splits llm_answer.splits
          dest!: rescue_answered outcome_stage_answered settle_status_answered(2))
    then show ?thesis by (simp add: res Answered)
  qed (simp_all add: res)
qed

text \<open>The step a failing stage leaves can be over the cap with the response dropped: the text of the error is
  never cut.\<close>

lemma json_str_longer: "length s \<le> length (json_str s)"
proof -
  have "length s \<le> length (concat (map json_char s))"
    by (induction s) (auto simp: json_char_def Let_def)
  then show ?thesis by (simp add: json_str_def)
qed

lemma stage_step_over_cap:
  assumes "length e > total_cap_bytes"
  shows "case stage_failed_step prompt response (Some e) of PDict d \<Rightarrow> over_cap d | _ \<Rightarrow> False"
  using assms json_str_longer [of e]
  by (auto simp: stage_failed_step_def over_cap_def Let_def)

section \<open>Silent turns\<close>

lemma debrace_plain: "CHR ''{'' \<notin> set (debrace s)"
  by (auto simp: debrace_def)

lemma marker_plain: "CHR ''{'' \<notin> set (synthesize_outcome_marker out)"
  using debrace_plain by (auto simp: synthesize_outcome_marker_def status_value_def split: stage_status.splits)

text \<open>The marker that stands for a silent turn in a thread states nothing. Whatever the labels and notes of
  the outcome hold, the verdict ladder never reads a verdict in the marker, so that a worker that repeats its own
  history does not satisfy a gate by it.\<close>

theorem marker_states_nothing:
  "\<not> vd_explicit (parse_outcome loads (synthesize_outcome_marker out) n)"
proof (rule parse_outcome_cases [of "synthesize_outcome_marker out" loads n])
  fix s
  assume "sublist s (synthesize_outcome_marker out)" "CHR ''{'' \<in> set s"
  then show ?thesis using marker_plain set_mono_sublist by blast
qed (simp_all add: empty_verdict_fields plain_verdict_fields)

section \<open>What the ladder misses\<close>

text \<open>The embedded verdict is sought from the last opening brace, which in an object with an object inside is the
  inner one: the verdict is lost, and outside a goal gate the failure is a success.\<close>

definition nested_text :: string where
  "nested_text = ''I stop: {x:{}}''"

definition nested_loads :: "string \<Rightarrow> string + pyval" where
  "nested_loads s =
     (if s = ''{x:{}}'' then Inr (PDict [(''status'', PStr ''fail''), (''context_updates'', PDict [])])
      else if s = ''{}'' then Inr (PDict []) else Inl ''no JSON'')"

lemma nested_verdict_lost:
  "vd_status (parse_outcome nested_loads nested_text None) = SUCCESS"
  "vd_status (parse_outcome nested_loads (drop 8 nested_text) None) = FAIL"
  by code_simp+

end
