(* ===== verification/Preflight.thy ===== *)
theory Preflight
  imports Backend Validation
begin

text \<open>
  What is checked before the first node runs, \<open>preflight.py\<close>, and what the orchestrator hands to it,
  \<open>__init__.py\<close>: the provider profiles, the agents a spawned session can resolve, the choice of the backend.

  The process environment and the provider instances of the host are parameters. The coordinator is a record:
  its capability and its configuration. Log lines are left out.
\<close>

section \<open>Names of environment variables\<close>

definition preflight_error :: "string \<Rightarrow> exc" where
  "preflight_error msg = PyError ''ProviderPreflightError'' False msg"

definition tool_env_error :: "string \<Rightarrow> exc" where
  "tool_env_error msg = PyError ''ToolEnvPreflightError'' False msg"

definition tool_env_failure :: "node \<Rightarrow> string \<Rightarrow> string" where
  "tool_env_failure n name =
     ''  - node '' @ quoted (n_id n) @ '' declares tool_env name '' @ quoted name @ '', which would be exported as ''
     @ quoted (py_upper name) @ '' -- not a POSIX environment-variable identifier ([A-Za-z_][A-Za-z0-9_]*)''"

definition tool_env_failures :: "graph \<Rightarrow> string list" where
  "tool_env_failures g =
     concat (map (\<lambda>n. map (tool_env_failure n) (non_identifier_tool_env_names (node_attr_get n ''tool_env''))) (graph_nodes g))"

definition check_tool_env_names :: "graph \<Rightarrow> exc option" where
  "check_tool_env_names g =
     (if tool_env_failures g = [] then None
      else Some (tool_env_error
        (''TOOL_ENV PREFLIGHT FAILED -- refusing to start the pipeline (issue #64, EXTENSIONS.md section 20). The following nodes declare a tool_env name that can never reach the command:''
         @ newline @ py_join newline (tool_env_failures g) @ newline
         @ ''/bin/sh (dash) drops an environment entry whose name is not an identifier before exec'ing the child, so the command would run with the value absent, exit 0, and the node would report SUCCESS -- the value silently lost on a green run. (bash keeps such an entry, which is why this depends on what /bin/sh points at.) Fix: rename the context key to a valid identifier and declare that name here, or drop the name from tool_env. The engine deliberately does NOT sanitize the name for you: exporting a name the graph never wrote would make the declared and the exported vocabularies disagree.'')))"

section \<open>Declared providers\<close>

definition llm_handler_types :: "string list" where
  "llm_handler_types = [''codergen'', ''stack.manager_loop'']"

definition is_llm_node :: "node \<Rightarrow> bool" where
  "is_llm_node n = (resolve_handler_type (n_type n) (n_shape n) \<in> set llm_handler_types)"

definition declared_provider :: "node \<Rightarrow> string option" where
  "declared_provider n =
     (if py_true (n_llm_provider n) then Some (py_str (n_llm_provider n))
      else let attr = node_attr_get n ''llm_provider'' in if py_true attr then Some (py_str attr) else None)"

text \<open>The nodes that declare a provider, per provider, in order.\<close>

definition declares :: "string list dict \<Rightarrow> node \<Rightarrow> string list dict" where
  "declares acc n =
     (if \<not> is_llm_node n then acc
      else case declared_provider n of
             None \<Rightarrow> acc
           | Some p \<Rightarrow>
               (if p = [] then acc
                else dict_set p ((case dict_get acc p of None \<Rightarrow> [] | Some ids \<Rightarrow> ids) @ [n_id n]) acc))"

definition collect_declared_llm_providers :: "graph \<Rightarrow> string list dict" where
  "collect_declared_llm_providers g = map (\<lambda>(p, ids). (p, sort ids)) (foldl declares [] (graph_nodes g))"

section \<open>Attributes that select nothing\<close>

definition provider_selection_aliases :: "string dict" where
  "provider_selection_aliases =
     [(''provider'', ''llm_provider''), (''provider_name'', ''llm_provider''), (''llm'', ''llm_provider''),
      (''model'', ''llm_model''), (''model_name'', ''llm_model''), (''llm_model_name'', ''llm_model''),
      (''reasoning'', ''reasoning_effort''), (''effort'', ''reasoning_effort''),
      (''reasoning_level'', ''reasoning_effort''), (''llm_reasoning_effort'', ''reasoning_effort'')]"

definition alias_failure :: "node \<Rightarrow> string \<Rightarrow> string \<Rightarrow> string" where
  "alias_failure n attr canonical =
     ''  - node '' @ quoted (n_id n) @ '' declares '' @ attr @ ''='' @ [quote_mark]
     @ py_str (case node_attr_item n attr of None \<Rightarrow> PNone | Some v \<Rightarrow> v) @ [quote_mark]
     @ '', which this engine does not read; the canonical attribute is '' @ quoted canonical
     @ '' (attractor-spec-canonical.md Section 2.6 / Appendix A)''"

definition alias_failures :: "graph \<Rightarrow> string list" where
  "alias_failures g =
     concat (map (\<lambda>n.
       concat (map (\<lambda>attr. case dict_get provider_selection_aliases attr of
                             None \<Rightarrow> [] | Some canonical \<Rightarrow> [alias_failure n attr canonical])
                (sort (dict_keys (n_raw n)))))
       (filter is_llm_node (graph_nodes g)))"

definition check_provider_selection_attrs :: "graph \<Rightarrow> exc option" where
  "check_provider_selection_attrs g =
     (if alias_failures g = [] then None
      else Some (preflight_error
        (''PROVIDER PREFLIGHT FAILED -- refusing to start the pipeline. The following nodes declare a provider/model-selection attribute this engine cannot honor:''
         @ newline @ py_join newline (alias_failures g) @ newline
         @ ''Such an attribute selects nothing: the run would take the engine's default provider and report success, so a graph that reads as a deliberate model choice would silently measure a different model. Fix: rename each attribute above to its canonical name. The complete set of provider/model-selection node attributes is llm_provider, llm_model, reasoning_effort.'')))"

section \<open>Serviceable providers\<close>

record serving =
  sv_mounted :: "string list"
  sv_profiles :: "string dict"
  sv_resolvable :: "string list option"
  sv_env :: "string dict"
  sv_instances :: "string list"

definition unresolvable :: "serving \<Rightarrow> string \<Rightarrow> string list" where
  "unresolvable v profile =
     (case sv_resolvable v of
        None \<Rightarrow> []
      | Some rs \<Rightarrow>
          (if profile \<in> set rs then []
           else [''profile '' @ quoted profile @ '' is mapped for it, but no agent named '' @ quoted profile
             @ '' can be resolved for the spawn backend (resolvable agents: ''
             @ (if rs = [] then ''none'' else py_join '', '' (sort (remdups rs))) @ '') -- every spawn for this node would fail'']))"

definition key_present :: "serving \<Rightarrow> string \<Rightarrow> bool" where
  "key_present v key = str_true (dict_get (sv_env v) key)"

definition uncredentialed :: "serving \<Rightarrow> string \<Rightarrow> string \<Rightarrow> string list" where
  "uncredentialed v provider profile =
     (case dict_get provider_key_env provider of
        None \<Rightarrow> []
      | Some key \<Rightarrow>
          (if key_present v key then []
           else [''profile '' @ quoted profile @ '' is mounted for it, but its credential '' @ key @ '' is not set'']))"

text \<open>Why a provider cannot be served, if it cannot.\<close>

definition unserviceable :: "serving \<Rightarrow> string \<Rightarrow> string option" where
  "unserviceable v provider =
     (if provider \<in> set (sv_mounted v) then None
      else case dict_get (sv_profiles v) provider of
             Some profile \<Rightarrow>
               (let problems = unresolvable v profile @ uncredentialed v provider profile in
                if problems = [] then None else Some (py_join ''; '' problems))
           | None \<Rightarrow>
               Some (''no provider module or profile is mounted for it''
                 @ (case dict_get provider_key_env provider of
                      None \<Rightarrow> [] | Some key \<Rightarrow> '' (credential: '' @ key @ '')'')))"

definition service_failures :: "serving \<Rightarrow> graph \<Rightarrow> string list" where
  "service_failures v g =
     concat (map (\<lambda>(provider, ids).
       case unserviceable v provider of
         None \<Rightarrow> []
       | Some why \<Rightarrow>
           map (\<lambda>i. ''  - node '' @ quoted i @ '' declares llm_provider='' @ [quote_mark] @ provider @ [quote_mark] @ '': '' @ why) ids)
       (sort_key fst (collect_declared_llm_providers g)))"

definition instance_hint :: "serving \<Rightarrow> string" where
  "instance_hint v =
     (if sv_instances v = []
      then newline @ ''No provider instances are configured in this host's Amplifier settings (config.providers[].id), so no instance id is addressable on this run.''
      else newline @ ''Configured provider instances on this host (address one by declaring its id as llm_provider): ''
        @ py_join '', '' (sv_instances v)
        @ ''. An instance is only mounted when this run NAMES it -- via a node's llm_provider or the run's --provider flag.'')"

text \<open>Where nothing is mounted the run is a simulation, and nothing is checked.\<close>

definition check_provider_preflight :: "serving \<Rightarrow> graph \<Rightarrow> exc option" where
  "check_provider_preflight v g =
     (if (sv_mounted v = [] \<and> sv_profiles v = []) \<or> service_failures v g = [] then None
      else Some (preflight_error
        (''PROVIDER PREFLIGHT FAILED -- refusing to start the pipeline (issue #155, EXTENSIONS.md section 36). The following nodes declare an llm_provider this run cannot serve:''
         @ newline @ py_join newline (service_failures v g) @ newline
         @ ''An unserviceable provider would otherwise crash on every visit and can drain the entire iteration budget in a crash loop, or silently degrade to a different provider -- both are the failure class this preflight exists to prevent (e.g. dual-family critique silently collapsing to one model family). Fix: mount a provider/profile for each provider named above and set its credential env var, or change the node's llm_provider. Degrading to fewer providers must be an explicit graph/bundle change, never a silent fallback.''
         @ instance_hint v)))"

section \<open>The orchestrator's part\<close>

text \<open>The coordinator: whether it has the spawn capability, and the \<open>agents\<close> of its configuration, an empty
  mapping where there are none.\<close>

record coordinator =
  co_spawn :: bool
  co_agents :: pyval

definition spawn_capable :: "coordinator option \<Rightarrow> bool" where
  "spawn_capable co = (case co of None \<Rightarrow> False | Some x \<Rightarrow> co_spawn x)"

text \<open>An agents entry that is no mapping raises.\<close>

definition resolve_profiles :: "string dict \<Rightarrow> coordinator option \<Rightarrow> exc + string dict" where
  "resolve_profiles explicit co =
     (if explicit \<noteq> [] \<or> \<not> spawn_capable co then Inr explicit
      else case co_agents (the co) of
             PDict agents \<Rightarrow>
               Inr (map (\<lambda>(name, cfg). (name, name)) (filter (\<lambda>(name, cfg). opt_dict_of cfg \<noteq> None) agents))
           | v \<Rightarrow> Inl (no_attribute v ''items''))"

definition spawn_resolvable_agents :: "coordinator option \<Rightarrow> string list option" where
  "spawn_resolvable_agents co = (if spawn_capable co then map_option dict_keys (opt_dict_of (co_agents (the co))) else None)"

text \<open>What the check is given: a discovery that raises leaves fewer profiles.\<close>

definition serving_of ::
    "string list \<Rightarrow> string dict \<Rightarrow> coordinator option \<Rightarrow> string dict \<Rightarrow> string list \<Rightarrow> serving" where
  "serving_of providers explicit co environ instances =
     \<lparr>sv_mounted = providers,
      sv_profiles = (case resolve_profiles explicit co of Inl e \<Rightarrow> [] | Inr ps \<Rightarrow> ps),
      sv_resolvable = spawn_resolvable_agents co, sv_env = environ, sv_instances = instances\<rparr>"

text \<open>The checks in their order. An injected backend answers for its own providers.\<close>

definition preflight :: "bool \<Rightarrow> serving \<Rightarrow> graph \<Rightarrow> exc option" where
  "preflight injected v g =
     (case check_provider_selection_attrs g of
        Some e \<Rightarrow> Some e
      | None \<Rightarrow>
          (case check_tool_env_names g of
             Some e \<Rightarrow> Some e
           | None \<Rightarrow> (if injected then None else check_provider_preflight v g)))"

text \<open>The backend that is built: none without a provider and the spawn capability.\<close>

definition build_backend ::
    "'w benv \<Rightarrow> string list \<Rightarrow> string dict \<Rightarrow> string option \<Rightarrow> coordinator option \<Rightarrow> exc + 'w benv option" where
  "build_backend base providers explicit worker co =
     (if providers = [] \<and> \<not> spawn_capable co then Inr None
      else case (if spawn_capable co then resolve_profiles explicit co else Inr []) of
             Inl e \<Rightarrow> Inl e
           | Inr ps \<Rightarrow>
               (let V = base\<lparr>bv_profiles := ps, bv_default_worker := worker, bv_has_provider := providers \<noteq> [],
                          bv_spawn := (if spawn_capable co then bv_spawn base else None)\<rparr>
                in case default_worker_error V of Some e \<Rightarrow> Inl e | None \<Rightarrow> Inr (Some V)))"

end
