(* ===== verification/Preflight_Properties.thy ===== *)
theory Preflight_Properties
  imports Preflight Samples
begin

text \<open>
  What the preflight promises: it refuses exactly the graphs with an LLM node whose provider cannot be served,
  and what it has accepted the backend can route.
\<close>

section \<open>The declarations\<close>

definition declaring :: "string \<Rightarrow> node \<Rightarrow> bool" where
  "declaring p n = (is_llm_node n \<and> declared_provider n = Some p \<and> p \<noteq> [])"

lemma declares_get:
  "dict_get (foldl declares acc ns) p =
     (if \<exists>n \<in> set ns. declaring p n
      then Some ((case dict_get acc p of None \<Rightarrow> [] | Some ids \<Rightarrow> ids) @ map n_id (filter (declaring p) ns))
      else dict_get acc p)"
proof (induction ns arbitrary: acc)
  case (Cons n ns)
  have "dict_get (declares acc n) p =
      (if declaring p n then Some ((case dict_get acc p of None \<Rightarrow> [] | Some ids \<Rightarrow> ids) @ [n_id n]) else dict_get acc p)"
    by (auto simp: declares_def declaring_def split: option.splits)
  then show ?case by (auto simp: Cons.IH)
qed simp

lemma collected:
  "dict_get (collect_declared_llm_providers g) p =
     (if \<exists>n \<in> set (graph_nodes g). declaring p n then Some (sort (map n_id (filter (declaring p) (graph_nodes g)))) else None)"
proof -
  have "map_of (map (\<lambda>(p, ids). (p, sort ids)) d) p = map_option sort (map_of d p)" for d :: "string list dict"
    by (induction d) auto
  then show ?thesis by (simp add: collect_declared_llm_providers_def declares_get [of "[]", simplified])
qed

lemma declares_ok: "dict_ok acc \<Longrightarrow> dict_ok (declares acc n)"
  by (auto simp: declares_def Let_def split: option.splits)

lemma collected_ok: "dict_ok (collect_declared_llm_providers g)"
proof -
  have "dict_ok acc \<Longrightarrow> dict_ok (foldl declares acc ns)" for acc ns
    by (induction ns arbitrary: acc) (auto intro: declares_ok)
  then have "dict_ok (foldl declares [] (graph_nodes g))" by (simp add: dict_ok_def)
  then show ?thesis by (simp add: collect_declared_llm_providers_def dict_ok_def comp_def split_def)
qed

section \<open>What is refused\<close>

text \<open>A provider is served by a module mounted under its name, or by a profile of its name whose agent can be
  resolved and whose credential, where one is known, is set.\<close>

definition serviceable :: "serving \<Rightarrow> string \<Rightarrow> bool" where
  "serviceable v p =
     (p \<in> set (sv_mounted v)
      \<or> (\<exists>profile. dict_get (sv_profiles v) p = Some profile
          \<and> (case sv_resolvable v of None \<Rightarrow> True | Some rs \<Rightarrow> profile \<in> set rs)
          \<and> (case dict_get provider_key_env p of None \<Rightarrow> True | Some key \<Rightarrow> str_true (dict_get (sv_env v) key))))"

lemma unserviceable_iff: "unserviceable v p = None \<longleftrightarrow> serviceable v p"
  by (auto simp: unserviceable_def serviceable_def unresolvable_def uncredentialed_def key_present_def Let_def
      split: option.splits if_splits)

lemma sort_Nil: "sort xs = [] \<longleftrightarrow> xs = []"
  by (metis length_0_conv length_sort)

lemma service_failures_iff:
  "service_failures v g = [] \<longleftrightarrow> (\<forall>n \<in> set (graph_nodes g). \<forall>p. declaring p n \<longrightarrow> serviceable v p)"
proof -
  have "service_failures v g = [] \<longleftrightarrow>
      (\<forall>(p, ids) \<in> set (collect_declared_llm_providers g). unserviceable v p = None \<or> ids = [])"
    by (auto simp: service_failures_def split: option.splits)
  also have "\<dots> \<longleftrightarrow> (\<forall>p ids. dict_get (collect_declared_llm_providers g) p = Some ids \<longrightarrow> unserviceable v p = None \<or> ids = [])"
    using collected_ok [of g] by (auto simp: dict_ok_def map_of_eq_Some_iff)
  also have "\<dots> \<longleftrightarrow> (\<forall>n \<in> set (graph_nodes g). \<forall>p. declaring p n \<longrightarrow> serviceable v p)"
    by (auto simp: collected unserviceable_iff filter_empty_conv sort_Nil split: if_splits)
  finally show ?thesis .
qed

text \<open>The provider check refuses exactly what cannot be served. Unless nothing at all is mounted, it
  passes if and only if every LLM node that declares a provider declares one that is served.\<close>

theorem preflight_exact:
  "check_provider_preflight v g = None \<longleftrightarrow>
     (sv_mounted v = [] \<and> sv_profiles v = [])
     \<or> list_all (\<lambda>n. case (if is_llm_node n then declared_provider n else None) of
          None \<Rightarrow> True | Some p \<Rightarrow> p = [] \<or> serviceable v p) (graph_nodes g)"
  by (auto simp: check_provider_preflight_def service_failures_iff declaring_def list_all_iff split: option.splits)

section \<open>From the check to the route\<close>

text \<open>C18: What the preflight has accepted the spawn route can serve. If the checks pass for the providers and
  profiles of a run that mounts something, and the backend is the one built from the same configuration with the
  spawn capability, then a node of the graph that declares a provider no module is mounted for has a profile, its
  agent is one of those the spawn backend can resolve, and a credential known for it is set: the run does not
  meet the refusal of a missing profile.\<close>

theorem preflight_routes:
  assumes "preflight False (serving_of providers explicit co environ instances) g = None"
    and "build_backend base providers explicit worker co = Inr (Some V)" "spawn_capable co"
    and "providers \<noteq> [] \<or> bv_profiles V \<noteq> []"
    and "n \<in> set (graph_nodes g)" "is_llm_node n" "n_llm_provider n = PStr p" "p \<noteq> []" "p \<notin> set providers"
  shows "\<exists>agent. profile_of V (node_provider V n) = Some agent
     \<and> (case co_agents (the co) of PDict agents \<Rightarrow> agent \<in> set (dict_keys agents) | _ \<Rightarrow> True)
     \<and> (case dict_get provider_key_env p of None \<Rightarrow> True | Some key \<Rightarrow> str_true (dict_get environ key))"
proof -
  obtain ps where ps: "resolve_profiles explicit co = Inr ps" "bv_profiles V = ps"
    using assms(2,3) by (auto simp: build_backend_def Let_def split: if_splits sum.splits option.splits)
  have node: "node_provider V n = PStr p" "declared_provider n = Some p"
    using assms(7,8) by (simp_all add: node_provider_def declared_provider_def node_attr_get_def node_attr_get_d_def
        node_promoted_attrs_def node_field_def)
  have "check_provider_preflight (serving_of providers explicit co environ instances) g = None"
    using assms(1) by (auto simp: preflight_def split: option.splits)
  then have "serviceable (serving_of providers explicit co environ instances) p"
    using assms(4-6,8) node(2)
    by (auto simp: check_provider_preflight_def service_failures_iff declaring_def serving_of_def ps split: if_splits)
  then show ?thesis
    using assms(3,9)
    by (auto simp: serviceable_def serving_of_def ps profile_of_def node spawn_resolvable_agents_def opt_dict_of_def
        split: option.splits pyval.splits)
qed

definition hired :: "coordinator option" where
  "hired = Some \<lparr>co_spawn = True, co_agents = PDict [(''coder'', PDict [])]\<rparr>"

definition asking_node :: "string \<Rightarrow> node" where
  "asking_node p = (plain_node ''n'' ''box'')\<lparr>n_llm_provider := PStr p\<rparr>"

definition bare_benv :: "unit benv" where
  "bare_benv =
     \<lparr>bv_profiles = [], bv_default_worker = None, bv_has_provider = False, bv_agents = [], bv_tool_names = [],
      bv_loads = (\<lambda>s. Inl []), bv_spawn = Some (\<lambda>rq w. (Inr PNone, w)), bv_generate = (\<lambda>rq w. (Inl (None, value_error []), w)),
      bv_resolve_latest = (\<lambda>p m s w. (Inl (value_error []), w)), bv_emit = (\<lambda>e d w. (None, w))\<rparr>"

definition built_benv :: "unit benv" where
  "built_benv = bare_benv\<lparr>bv_profiles := [(''gemini'', ''coder'')], bv_has_provider := False\<rparr>"

lemma preflight_routes_witness:
  "\<exists>agent. profile_of built_benv (node_provider built_benv (asking_node ''gemini'')) = Some agent
     \<and> (case co_agents (the hired) of PDict agents \<Rightarrow> agent \<in> set (dict_keys agents) | _ \<Rightarrow> True)
     \<and> (case dict_get provider_key_env ''gemini'' of None \<Rightarrow> True
        | Some key \<Rightarrow> str_true (dict_get [(''GEMINI_API_KEY'', ''k'')] key))"
proof (rule preflight_routes)
  show "preflight False (serving_of [] [(''gemini'', ''coder'')] hired [(''GEMINI_API_KEY'', ''k'')] [])
      (plain_graph [asking_node ''gemini''] []) = None"
    by code_simp
  show "build_backend bare_benv [] [(''gemini'', ''coder'')] None hired = Inr (Some built_benv)"
    by (simp add: build_backend_def hired_def spawn_capable_def resolve_profiles_def default_worker_error_def
        bare_benv_def built_benv_def)
qed (simp_all add: hired_def spawn_capable_def built_benv_def plain_graph_def graph_nodes_def asking_node_def plain_node_def
    is_llm_node_def resolve_handler_type_def shape_to_handler_def llm_handler_types_def)

text \<open>A module mounted under the name satisfies the check and not the spawn route, which takes a profile only.\<close>

lemma mounted_yet_refused:
  "preflight False (serving_of [''openai''] [(''gemini'', ''coder'')] hired [(''GEMINI_API_KEY'', ''k'')] [])
     (plain_graph [asking_node ''openai''] []) = None"
  "profile_of (built_benv\<lparr>bv_has_provider := True\<rparr>) (node_provider (built_benv\<lparr>bv_has_provider := True\<rparr>) (asking_node ''openai'')) = None"
  by code_simp+

end
