(* ===== verification/Model_Resolver.thy ===== *)
theory Model_Resolver
  imports Backend "HOL-Library.Product_Lexorder"
begin

text \<open>
  The live resolution of a model pattern, \<open>modules/unified-llm-client/unified_llm/resolver.py\<close>: shell patterns,
  the version key, the filter of unstable models and the selection of the latest; and the detection of the
  providers a key is set for, from \<open>client.py\<close>.

  The list of models a provider serves is a function on the world.
\<close>

section \<open>Shell patterns\<close>

text \<open>\<open>fnmatch\<close>: the members of a bracket are single characters and ranges; a range is empty when its ends are
  the wrong way round, and a dash that has nothing on one side is a character.\<close>

fun in_members :: "char \<Rightarrow> string \<Rightarrow> bool" where
  "in_members c (a # d # b # rest) =
     (if d = CHR ''-'' then (a \<le> c \<and> c \<le> b) \<or> in_members c rest else c = a \<or> in_members c (d # b # rest))"
| "in_members c (a # rest) = (c = a \<or> in_members c rest)"
| "in_members c [] = False"

text \<open>The bracket that is open: its members and what follows it. A closing bracket in first place, or after
  the negation, is a member.\<close>

definition until_close :: "string \<Rightarrow> (string \<times> string) option" where
  "until_close p =
     (let (xs, ys) = (takeWhile (\<lambda>c. c \<noteq> CHR '']'') p, dropWhile (\<lambda>c. c \<noteq> CHR '']'') p) in
      case ys of [] \<Rightarrow> None | y # rest \<Rightarrow> Some (xs, rest))"

definition members :: "string \<Rightarrow> (string \<times> string) option" where
  "members p =
     (case p of
        c # cs \<Rightarrow> (if c = CHR '']'' then map_option (\<lambda>(xs, rest). (c # xs, rest)) (until_close cs) else until_close p)
      | [] \<Rightarrow> None)"

definition bracket :: "string \<Rightarrow> (bool \<times> string \<times> string) option" where
  "bracket p =
     (case p of
        c # cs \<Rightarrow> (if c = CHR ''!'' then map_option (\<lambda>m. (True, m)) (members cs) else map_option (\<lambda>m. (False, m)) (members p))
      | [] \<Rightarrow> None)"

lemma until_close_shorter:
  assumes "until_close p = Some (xs, rest)"
  shows "length rest < length p"
proof (cases "dropWhile (\<lambda>c. c \<noteq> CHR '']'') p")
  case (Cons y ys)
  then have "rest = ys" using assms by (simp add: until_close_def)
  then show ?thesis using length_dropWhile_le [of "\<lambda>c. c \<noteq> CHR '']''" p] by (simp add: Cons)
next
  case Nil
  then show ?thesis using assms by (simp only: until_close_def Let_def prod.case list.case option.distinct)
qed

lemma members_shorter: "members p = Some (xs, rest) \<Longrightarrow> length rest < length p"
  by (fastforce simp: members_def split: list.splits if_splits dest: until_close_shorter)

lemma bracket_shorter: "bracket p = Some (b, xs, rest) \<Longrightarrow> length rest < Suc (length p)"
  by (fastforce simp: bracket_def split: list.splits if_splits dest: members_shorter)

function fnmatch :: "string \<Rightarrow> string \<Rightarrow> bool" where
  "fnmatch [] s = (s = [])"
| "fnmatch (p # ps) s =
     (if p = CHR ''*'' then fnmatch ps s \<or> (case s of [] \<Rightarrow> False | c # cs \<Rightarrow> fnmatch (p # ps) cs)
      else case s of
             [] \<Rightarrow> False
           | c # cs \<Rightarrow>
               (if p = CHR ''?'' then fnmatch ps cs
                else if p = CHR ''['' then
                  (case bracket ps of
                     None \<Rightarrow> c = p \<and> fnmatch ps cs
                   | Some (negated, xs, rest) \<Rightarrow> in_members c xs \<noteq> negated \<and> fnmatch rest cs)
                else c = p \<and> fnmatch ps cs))"
  by pat_completeness auto
termination
  by (relation "measure (\<lambda>(p, s). length p + length s)") (auto dest: bracket_shorter)

definition is_glob :: "string \<Rightarrow> bool" where
  "is_glob s = list_ex (\<lambda>c. c \<in> {CHR ''*'', CHR ''?'', CHR ''[''}) s"


section \<open>Unstable models\<close>

definition non_stable_markers :: "string list" where
  "non_stable_markers =
     [''preview'', ''experimental'', ''exp'', ''beta'', ''alpha'', ''rc'', ''snapshot'', ''canary'', ''nightly'', ''-latest'']"

definition is_non_stable :: "string \<Rightarrow> bool" where
  "is_non_stable model_id = list_ex (\<lambda>m. occurs_in m (py_lower model_id)) non_stable_markers"

section \<open>The version key\<close>

text \<open>\<open>-(\d{4})-(\d{2})-(\d{2})$\<close> and \<open>-(\d{4})(\d{2})(\d{2})$\<close>: the date at the end and what stands before it.\<close>

definition number_of :: "string \<Rightarrow> nat" where
  "number_of ds = digits_val 0 ds"

definition iso_date :: "string \<Rightarrow> (string \<times> nat list) option" where
  "iso_date s =
     (let k = length s - 11; d = drop k s in
      if length s \<ge> 11 \<and> d ! 0 = CHR ''-'' \<and> d ! 5 = CHR ''-'' \<and> d ! 8 = CHR ''-''
         \<and> list_all (\<lambda>i. is_digit (d ! i)) [1, 2, 3, 4, 6, 7, 9, 10]
      then Some (take k s, [number_of (take 4 (drop 1 d)), number_of (take 2 (drop 6 d)), number_of (take 2 (drop 9 d))])
      else None)"

definition short_date :: "string \<Rightarrow> (string \<times> nat list) option" where
  "short_date s =
     (let k = length s - 9; d = drop k s in
      if length s \<ge> 9 \<and> d ! 0 = CHR ''-'' \<and> list_all is_digit (drop 1 d)
      then Some (take k s, [number_of (take 4 (drop 1 d)), number_of (take 2 (drop 5 d)), number_of (take 2 (drop 7 d))])
      else None)"

definition split_date :: "string \<Rightarrow> string \<times> nat list" where
  "split_date s =
     (case iso_date s of
        Some r \<Rightarrow> r
      | None \<Rightarrow> (case short_date s of Some r \<Rightarrow> r | None \<Rightarrow> (s, [])))"

text \<open>The runs of digits and of other characters.\<close>

function version_runs :: "string \<Rightarrow> (nat \<times> nat \<times> string) list" where
  "version_runs [] = []"
| "version_runs (c # cs) =
     (if is_digit c
      then (1, number_of (takeWhile is_digit (c # cs)), []) # version_runs (dropWhile is_digit (c # cs))
      else (0, 0, takeWhile (\<lambda>x. \<not> is_digit x) (c # cs)) # version_runs (dropWhile (\<lambda>x. \<not> is_digit x) (c # cs)))"
  by pat_completeness auto
termination
  by (relation "measure length") (auto simp: le_imp_less_Suc length_dropWhile_le)

type_synonym version = "(nat \<times> nat \<times> string) list \<times> nat list \<times> string"

definition version_key :: "string \<Rightarrow> version" where
  "version_key model_id =
     (case split_date (py_lower model_id) of (rest, date) \<Rightarrow> (version_runs rest, date, model_id))"

section \<open>The latest\<close>

text \<open>\<open>max\<close> with a key keeps the first of the greatest.\<close>

fun max_by :: "('a \<Rightarrow> 'k::linorder) \<Rightarrow> 'a \<Rightarrow> 'a list \<Rightarrow> 'a" where
  "max_by k best [] = best"
| "max_by k best (x # xs) = max_by k (if k best < k x then x else best) xs"

definition no_match :: "string list \<Rightarrow> string \<Rightarrow> exc" where
  "no_match model_ids pattern =
     value_error (''select_latest: no model ids match pattern '' @ repr_str pattern @ ''. Checked ''
       @ nat_str (length model_ids)
       @ '' model id(s).  Verify the pattern and ensure the model list is not empty.'')"

definition all_unstable :: "string list \<Rightarrow> string \<Rightarrow> exc" where
  "all_unstable found pattern =
     value_error (''select_latest: pattern '' @ repr_str pattern @ '' matched '' @ nat_str (length found)
       @ '' model id(s) but all were filtered as non-stable (stable_only=True).  Matched ids: '' @ repr_strs found
       @ ''.  Set stable_only=False to include preview/experimental models.'')"

definition matching :: "string list \<Rightarrow> string \<Rightarrow> string list" where
  "matching model_ids pattern =
     filter (\<lambda>m. if is_glob pattern then fnmatch (py_lower pattern) (py_lower m) else m = pattern) model_ids"

definition select_latest :: "string list \<Rightarrow> string \<Rightarrow> bool \<Rightarrow> exc + string" where
  "select_latest model_ids pattern stable_only =
     (case matching model_ids pattern of
        [] \<Rightarrow> Inl (no_match model_ids pattern)
      | c # cs \<Rightarrow>
          (if \<not> stable_only then Inr (max_by version_key c cs)
           else case filter (\<lambda>m. \<not> is_non_stable m) (c # cs) of
                  [] \<Rightarrow> Inl (all_unstable (c # cs) pattern)
                | d # ds \<Rightarrow> Inr (max_by version_key d ds)))"

section \<open>Providers\<close>

definition provider_env_keys :: "string list dict" where
  "provider_env_keys =
     [(''anthropic'', [''ANTHROPIC_API_KEY'']), (''openai'', [''OPENAI_API_KEY'']),
      (''gemini'', [''GEMINI_API_KEY'', ''GOOGLE_API_KEY''])]"

definition detect_configured_providers :: "string dict \<Rightarrow> string list" where
  "detect_configured_providers env =
     map fst (filter (\<lambda>(name, keys). list_ex (\<lambda>k. str_true (dict_get env k)) keys) provider_env_keys)"

text \<open>The list of models of a provider's adapter.\<close>

record 'w listing =
  ls_environ :: "string dict"
  ls_list_models :: "string \<Rightarrow> 'w \<Rightarrow> (exc + string list) \<times> 'w"

definition no_keys :: exc where
  "no_keys = PyError ''ConfigurationError'' False
     ''No API keys found in environment. Set at least one of: ANTHROPIC_API_KEY, OPENAI_API_KEY, GEMINI_API_KEY''"

definition resolve_latest :: "'w listing \<Rightarrow> string \<Rightarrow> string \<Rightarrow> bool \<Rightarrow> 'w \<Rightarrow> (exc + string) \<times> 'w" where
  "resolve_latest L provider pattern stable_only w =
     (case ls_list_models L provider w of
        (Inl e, w1) \<Rightarrow> (Inl e, w1)
      | (Inr ids, w1) \<Rightarrow> (select_latest ids pattern stable_only, w1))"

definition resolve_latest_for :: "'w listing \<Rightarrow> string \<Rightarrow> string \<Rightarrow> bool \<Rightarrow> 'w \<Rightarrow> (exc + string) \<times> 'w" where
  "resolve_latest_for L provider pattern stable_only w =
     (let available = detect_configured_providers (ls_environ L) in
      if available = [] then (Inl no_keys, w)
      else if provider \<notin> set available
      then (Inl (value_error (''resolve_latest_for: no adapter found for provider '' @ repr_str provider
              @ ''.  Providers available (check that API key is set): '' @ repr_strs available)), w)
      else resolve_latest L provider pattern stable_only w)"

section \<open>Lemmas\<close>

lemma max_by_mem: "max_by k b xs \<in> insert b (set xs)"
proof (induction xs arbitrary: b)
  case (Cons x xs)
  then show ?case using Cons.IH [of x] Cons.IH [of b] by auto
qed simp

lemma max_by_max: "y \<in> insert b (set xs) \<Longrightarrow> k y \<le> k (max_by k b xs)"
proof (induction xs arbitrary: b y)
  case (Cons x xs)
  have mono: "k z \<le> k (max_by k z xs)" for z by (rule Cons.IH) simp
  show ?case
  proof (cases "y \<in> set xs")
    case True
    then show ?thesis using Cons.IH by simp
  next
    case False
    then show ?thesis using Cons.prems mono [of "if k b < k x then x else b"] by (auto split: if_splits)
  qed
qed simp

lemma version_key_eq: "version_key a = version_key b \<Longrightarrow> a = b"
  by (simp add: version_key_def split: prod.splits)

end
