(* ===== verification/Resolver_Properties.thy ===== *)
theory Resolver_Properties
  imports Model_Resolver Backend_Facts
begin

text \<open>
  Properties of the model resolver: the selected model is the greatest of the matching ones, whatever the order
  of the list, and what a pattern of a node resolves to in the backend.
\<close>

section \<open>The selection\<close>

definition eligible :: "string list \<Rightarrow> string \<Rightarrow> bool \<Rightarrow> string set" where
  "eligible ids pattern stable_only =
     {m \<in> set ids. (if is_glob pattern then fnmatch (py_lower pattern) (py_lower m) else m = pattern)
        \<and> (stable_only \<longrightarrow> \<not> is_non_stable m)}"

lemma eligible_list:
  "eligible ids pattern stable_only = set (filter (\<lambda>m. stable_only \<longrightarrow> \<not> is_non_stable m) (matching ids pattern))"
  by (auto simp: eligible_def matching_def)

lemma select_latest_eq:
  "select_latest ids pattern stable_only =
     (case filter (\<lambda>m. stable_only \<longrightarrow> \<not> is_non_stable m) (matching ids pattern) of
        [] \<Rightarrow> Inl (if matching ids pattern = [] then no_match ids pattern else all_unstable (matching ids pattern) pattern)
      | d # ds \<Rightarrow> Inr (max_by version_key d ds))"
  by (cases stable_only) (auto simp: select_latest_def split: list.splits)

lemma select_latest_iff:
  "select_latest ids pattern stable_only = Inr m \<longleftrightarrow>
     m \<in> eligible ids pattern stable_only \<and> (\<forall>x \<in> eligible ids pattern stable_only. version_key x \<le> version_key m)"
proof (cases "filter (\<lambda>m. stable_only \<longrightarrow> \<not> is_non_stable m) (matching ids pattern)")
  case Nil
  then show ?thesis using eligible_list [of ids pattern stable_only] by (simp add: select_latest_eq)
next
  case (Cons d ds)
  have e: "eligible ids pattern stable_only = insert d (set ds)" unfolding eligible_list Cons by simp
  have "max_by version_key d ds = m \<longleftrightarrow> m \<in> insert d (set ds) \<and> (\<forall>x \<in> insert d (set ds). version_key x \<le> version_key m)"
    using max_by_mem [of version_key d ds] max_by_max [of _ d ds version_key] by (metis order_antisym version_key_eq)
  then show ?thesis by (simp add: select_latest_eq Cons e)
qed

text \<open>C19: The resolver selects the latest model. It answers with a model exactly when the model is in the list,
  matches the pattern, is stable where that is asked for, and no other such model has a greater version key; so
  the answer depends on the set of models a provider serves and not on the order it lists them in, and there is
  one whenever there is a candidate.\<close>

theorem select_latest_exact:
  "(select_latest ids pattern stable_only = Inr m \<longleftrightarrow>
      m \<in> eligible ids pattern stable_only
      \<and> eligible ids pattern stable_only \<subseteq> {x. version_key x \<le> version_key m})
   \<and> (isl (select_latest ids pattern stable_only) \<longleftrightarrow> eligible ids pattern stable_only = {})"
proof (intro conjI)
  show "select_latest ids pattern stable_only = Inr m \<longleftrightarrow>
      m \<in> eligible ids pattern stable_only
      \<and> eligible ids pattern stable_only \<subseteq> {x. version_key x \<le> version_key m}"
    by (auto simp: select_latest_iff)
  show "isl (select_latest ids pattern stable_only) \<longleftrightarrow> eligible ids pattern stable_only = {}"
    unfolding eligible_list select_latest_eq
    by (cases "filter (\<lambda>m. stable_only \<longrightarrow> \<not> is_non_stable m) (matching ids pattern)") (simp_all del: set_filter)
qed

text \<open>The markers are sought anywhere in the name: a model that searches holds the marker of a release
  candidate.\<close>

lemma search_is_unstable:
  "is_non_stable ''gpt-6-search''" "select_latest [''gpt-6-search''] ''gpt-6*'' True \<noteq> Inr ''gpt-6-search''"
  by code_simp+

text \<open>A letter after a version number outranks a second number.\<close>

lemma letter_outranks_number: "select_latest [''gpt-4.1'', ''gpt-4o''] ''gpt-4*'' True = Inr ''gpt-4o''"
  by code_simp

end
