(* ===== verification/Llm_Types.thy ===== *)
theory Llm_Types
  imports Tool_Handler
begin

text \<open>
  The data of the LLM client, \<open>modules/unified-llm-client/unified_llm\<close>: messages, requests, responses, usage
  and stream events (\<open>types.py\<close>), the accumulation of a stream into a response, the cost of a call (\<open>_cost.py\<close>)
  and the errors with their classification (\<open>errors.py\<close>).

  A content part keeps its kind and the payloads that are text, a tool call, a tool result or thinking; images,
  audio and documents are not looked at by the client. Decimal amounts are rational numbers: the products of token
  counts and rates are far from the 28 digits of a \<open>Decimal\<close>.
\<close>

section \<open>Messages\<close>

datatype role = Role_System | Role_User | Role_Assistant | Role_Tool | Role_Developer

datatype content_kind =
    Kind_Text | Kind_Image | Kind_Audio | Kind_Document | Kind_Tool_Call | Kind_Tool_Result | Kind_Thinking
  | Kind_Redacted_Thinking | Kind_Other string

record tool_call_data =
  td_id :: string
  td_name :: string
  td_arguments :: pyval

record tool_result_data =
  tr_tool_call_id :: string
  tr_content :: pyval
  tr_is_error :: bool

record thinking_data =
  th_text :: string
  th_signature :: "string option"
  th_redacted :: bool

record content_part =
  pt_kind :: content_kind
  pt_text :: "string option"
  pt_tool_call :: "tool_call_data option"
  pt_tool_result :: "tool_result_data option"
  pt_thinking :: "thinking_data option"

record llm_message =
  mg_role :: role
  mg_content :: "content_part list"
  mg_name :: "string option"
  mg_tool_call_id :: "string option"

definition bare_part :: "content_kind \<Rightarrow> content_part" where
  "bare_part k = \<lparr>pt_kind = k, pt_text = None, pt_tool_call = None, pt_tool_result = None, pt_thinking = None\<rparr>"

definition text_part :: "string \<Rightarrow> content_part" where
  "text_part s = (bare_part Kind_Text)\<lparr>pt_text := Some s\<rparr>"

definition text_message :: "role \<Rightarrow> string \<Rightarrow> llm_message" where
  "text_message r s = \<lparr>mg_role = r, mg_content = [text_part s], mg_name = None, mg_tool_call_id = None\<rparr>"

definition message_text :: "llm_message \<Rightarrow> string" where
  "message_text m =
     concat (map (\<lambda>p. case pt_text p of None \<Rightarrow> [] | Some s \<Rightarrow> s) (filter (\<lambda>p. pt_kind p = Kind_Text) (mg_content m)))"

definition tool_result_message :: "string \<Rightarrow> pyval \<Rightarrow> bool \<Rightarrow> llm_message" where
  "tool_result_message call_id content is_error =
     \<lparr>mg_role = Role_Tool,
      mg_content = [(bare_part Kind_Tool_Result)\<lparr>pt_tool_result :=
        Some \<lparr>tr_tool_call_id = call_id, tr_content = content, tr_is_error = is_error\<rparr>\<rparr>],
      mg_name = None, mg_tool_call_id = Some call_id\<rparr>"

definition message_tool_calls :: "llm_message \<Rightarrow> tool_call_data list" where
  "message_tool_calls m =
     List.map_filter (\<lambda>p. if pt_kind p = Kind_Tool_Call then pt_tool_call p else None) (mg_content m)"

definition message_reasoning :: "llm_message \<Rightarrow> string option" where
  "message_reasoning m =
     (let parts = List.map_filter (\<lambda>p.
            if pt_kind p \<in> {Kind_Thinking, Kind_Redacted_Thinking}
            then (case pt_thinking p of None \<Rightarrow> None | Some t \<Rightarrow> if th_text t = [] then None else Some (th_text t)) else None)
          (mg_content m)
      in if parts = [] then None else Some (concat parts))"

section \<open>Usage\<close>

record usage =
  us_input :: int
  us_output :: int
  us_total :: int
  us_reasoning :: "int option"
  us_cache_read :: "int option"
  us_cache_write :: "int option"
  us_cost :: "rat option"

text \<open>An absent count is a zero; an absent cost is unknown, and so is every sum with it.\<close>

definition add_optional :: "int option \<Rightarrow> int option \<Rightarrow> int option" where
  "add_optional a b =
     (if a = None \<and> b = None then None
      else Some ((case a of None \<Rightarrow> 0 | Some x \<Rightarrow> x) + (case b of None \<Rightarrow> 0 | Some y \<Rightarrow> y)))"

definition add_cost :: "rat option \<Rightarrow> rat option \<Rightarrow> rat option" where
  "add_cost a b = (case a of None \<Rightarrow> None | Some x \<Rightarrow> (case b of None \<Rightarrow> None | Some y \<Rightarrow> Some (x + y)))"

definition add_usage :: "usage \<Rightarrow> usage \<Rightarrow> usage" where
  "add_usage a b =
     \<lparr>us_input = us_input a + us_input b, us_output = us_output a + us_output b, us_total = us_total a + us_total b,
      us_reasoning = add_optional (us_reasoning a) (us_reasoning b),
      us_cache_read = add_optional (us_cache_read a) (us_cache_read b),
      us_cache_write = add_optional (us_cache_write a) (us_cache_write b), us_cost = add_cost (us_cost a) (us_cost b)\<rparr>"

definition no_usage :: usage where
  "no_usage = \<lparr>us_input = 0, us_output = 0, us_total = 0, us_reasoning = None, us_cache_read = None,
      us_cache_write = None, us_cost = None\<rparr>"

section \<open>Requests and responses\<close>

text \<open>The parameters of a request that no step changes are kept together.\<close>

record llm_request =
  lq_model :: string
  lq_messages :: "llm_message list"
  lq_provider :: "string option"
  lq_tools :: "(string \<times> string \<times> pyval) list option"
  lq_params :: "pyval dict"
  lq_validation :: "string option"

record llm_response =
  lr_id :: string
  lr_model :: string
  lr_provider :: string
  lr_message :: llm_message
  lr_finish :: string
  lr_usage :: usage
  lr_warnings :: "string list"

section \<open>Cost\<close>

text \<open>Dollars per million tokens: input, output, cache read, cache write.\<close>

definition sonnet_rates :: "rat \<times> rat \<times> rat \<times> rat" where
  "sonnet_rates = (3, 15, 3 / 10, 15 / 4)"

definition opus_rates :: "rat \<times> rat \<times> rat \<times> rat" where
  "opus_rates = (5, 25, 1 / 2, 25 / 4)"

definition rates :: "(rat \<times> rat \<times> rat \<times> rat) dict" where
  "rates =
     [(''claude-sonnet-4-5'', sonnet_rates), (''claude-sonnet-4-5-20250929'', sonnet_rates),
      (''claude-sonnet-4-6'', sonnet_rates), (''claude-sonnet-5'', sonnet_rates),
      (''claude-opus-4-5'', opus_rates), (''claude-opus-4-5-20251101'', opus_rates),
      (''claude-opus-4-6'', opus_rates), (''claude-opus-4-6-20260101'', opus_rates),
      (''claude-opus-4-7'', opus_rates), (''claude-opus-4-7-20260416'', opus_rates),
      (''claude-opus-4-8'', opus_rates), (''claude-opus-5'', opus_rates),
      (''claude-fable-5'', (10, 50, 1, 25 / 2)),
      (''claude-haiku-3-5-20250929'', (4 / 5, 4, 2 / 25, 1)),
      (''claude-haiku-4-5'', (1, 5, 1 / 10, 5 / 4)), (''claude-haiku-4-5-20251001'', (1, 5, 1 / 10, 5 / 4)),
      (''claude-3-haiku-20240307'', (1 / 4, 5 / 4, 1 / 40, 5 / 16)),
      (''claude-sonnet-4-20250514'', sonnet_rates), (''claude-opus-4-20250514'', (15, 75, 3 / 2, 75 / 4))]"

definition fast_eligible_models :: "string list" where
  "fast_eligible_models = [''claude-opus-4-6'', ''claude-opus-4-7'', ''claude-opus-4-8'', ''claude-opus-5'']"

definition compute_cost :: "string \<Rightarrow> int \<Rightarrow> int \<Rightarrow> int \<Rightarrow> int \<Rightarrow> string option \<Rightarrow> rat option" where
  "compute_cost model input_tokens output_tokens cache_read cache_write speed =
     (case dict_get rates model of
        None \<Rightarrow> None
      | Some (i, out, r, w) \<Rightarrow>
          (let cost = of_int input_tokens * i / 1000000 + of_int output_tokens * out / 1000000
                 + (if cache_read > 0 then of_int cache_read * r / 1000000 else 0)
                 + (if cache_write > 0 then of_int cache_write * w / 1000000 else 0)
           in Some (if speed = Some ''fast'' \<and> model \<in> set fast_eligible_models then cost * 2 else cost)))"

text \<open>The cost of a call that has none, where the model's rates are known.\<close>

definition with_cost :: "string \<Rightarrow> usage \<Rightarrow> usage" where
  "with_cost model u =
     (if us_cost u \<noteq> None then u
      else u\<lparr>us_cost := compute_cost model (us_input u) (us_output u)
             (case us_cache_read u of None \<Rightarrow> 0 | Some x \<Rightarrow> x) (case us_cache_write u of None \<Rightarrow> 0 | Some x \<Rightarrow> x) None\<rparr>)"

section \<open>Streams\<close>

record tool_call =
  tl_id :: string
  tl_name :: string
  tl_arguments :: pyval

datatype stream_kind =
    STREAM_START | TEXT_START | TEXT_DELTA | TEXT_END | REASONING_START | REASONING_DELTA | REASONING_END
  | TOOL_CALL_START | TOOL_CALL_DELTA | TOOL_CALL_END | FINISH | ERROR | PROVIDER_EVENT
  | Other_Event string

record stream_event =
  ev_kind :: stream_kind
  ev_delta :: "string option"
  ev_text_id :: "string option"
  ev_reasoning :: "string option"
  ev_tool_call :: "tool_call option"
  ev_finish :: "string option"
  ev_usage :: "usage option"
  ev_response :: "llm_response option"

definition bare_event :: "stream_kind \<Rightarrow> stream_event" where
  "bare_event k =
     \<lparr>ev_kind = k, ev_delta = None, ev_text_id = None, ev_reasoning = None, ev_tool_call = None, ev_finish = None,
      ev_usage = None, ev_response = None\<rparr>"

record accumulator =
  ac_text :: "(string option \<times> string) list"
  ac_reasoning :: "string list"
  ac_tool_calls :: "tool_call list"
  ac_finish :: "string option"
  ac_usage :: "usage option"
  ac_origin :: "string \<times> string \<times> string"

definition empty_accumulator :: accumulator where
  "empty_accumulator =
     \<lparr>ac_text = [], ac_reasoning = [], ac_tool_calls = [], ac_finish = None, ac_usage = None, ac_origin = ([], [], [])\<rparr>"

text \<open>The text of an id is kept where the id first came.\<close>

fun add_text :: "string option \<Rightarrow> string \<Rightarrow> (string option \<times> string) list \<Rightarrow> (string option \<times> string) list" where
  "add_text k s [] = [(k, s)]"
| "add_text k s ((j, t) # rest) = (if j = k then (j, t @ s) # rest else (j, t) # add_text k s rest)"

definition accumulate :: "accumulator \<Rightarrow> stream_event \<Rightarrow> accumulator" where
  "accumulate a e =
     (if ev_kind e = TEXT_DELTA \<and> str_true (ev_delta e)
      then a\<lparr>ac_text := add_text (ev_text_id e) (the (ev_delta e)) (ac_text a)\<rparr>
      else if ev_kind e = REASONING_DELTA \<and> str_true (ev_reasoning e)
      then a\<lparr>ac_reasoning := ac_reasoning a @ [the (ev_reasoning e)]\<rparr>
      else if ev_kind e = TOOL_CALL_END \<and> ev_tool_call e \<noteq> None
      then a\<lparr>ac_tool_calls := ac_tool_calls a @ [the (ev_tool_call e)]\<rparr>
      else if ev_kind e = FINISH
      then a\<lparr>ac_finish := ev_finish e, ac_usage := ev_usage e,
             ac_origin := (case ev_response e of None \<Rightarrow> ac_origin a
               | Some r \<Rightarrow> (lr_id r, lr_model r, lr_provider r))\<rparr>
      else a)"

definition accumulated :: "accumulator \<Rightarrow> llm_response" where
  "accumulated a =
     (let full_text = concat (map snd (ac_text a));
          texts = (if full_text = [] then [] else [text_part full_text]);
          thoughts = (if ac_reasoning a = [] then []
            else [(bare_part Kind_Thinking)\<lparr>pt_thinking :=
              Some \<lparr>th_text = concat (ac_reasoning a), th_signature = None, th_redacted = False\<rparr>\<rparr>]);
          calls = map (\<lambda>c. (bare_part Kind_Tool_Call)\<lparr>pt_tool_call :=
              Some \<lparr>td_id = tl_id c, td_name = tl_name c, td_arguments = tl_arguments c\<rparr>\<rparr>) (ac_tool_calls a);
          base = (case ac_usage a of None \<Rightarrow> no_usage | Some u \<Rightarrow> u);
          (origin_id, model, provider) = ac_origin a
      in \<lparr>lr_id = origin_id, lr_model = model, lr_provider = provider,
          lr_message = \<lparr>mg_role = Role_Assistant, mg_content = texts @ thoughts @ calls, mg_name = None,
            mg_tool_call_id = None\<rparr>,
          lr_finish = (case ac_finish a of None \<Rightarrow> ''other'' | Some r \<Rightarrow> r),
          lr_usage = (if model \<noteq> [] then with_cost model base else base), lr_warnings = []\<rparr>)"

section \<open>Errors\<close>

datatype provider_class =
    Generic | Authentication | Access_Denied | Not_Found | Invalid_Request | Content_Filter | Context_Length
  | Quota_Exceeded | Rate_Limit | Server

record provider_error =
  pe_class :: provider_class
  pe_message :: string
  pe_provider :: string
  pe_status :: "int option"
  pe_code :: "string option"
  pe_retryable :: bool
  pe_retry_after :: "rat option"

datatype sdk_error =
    Provider_Error provider_error | Request_Timeout string | Abort string | Network string | Stream_Failed string
  | Stream_Protocol string | Invalid_Tool_Call string | No_Object string | Configuration string

definition sdk_retryable :: "sdk_error \<Rightarrow> bool" where
  "sdk_retryable e =
     (case e of
        Provider_Error p \<Rightarrow> pe_retryable p
      | Request_Timeout m \<Rightarrow> True | Abort m \<Rightarrow> False | Network m \<Rightarrow> True | Stream_Failed m \<Rightarrow> True | Stream_Protocol m \<Rightarrow> True
      | Invalid_Tool_Call m \<Rightarrow> False | No_Object m \<Rightarrow> False | Configuration m \<Rightarrow> False)"

definition sdk_retry_after :: "sdk_error \<Rightarrow> rat option" where
  "sdk_retry_after e = (case e of Provider_Error p \<Rightarrow> pe_retry_after p | _ \<Rightarrow> None)"

definition retried_classes :: "provider_class list" where
  "retried_classes = [Rate_Limit, Server]"

definition status_classes :: "(int \<times> provider_class) list" where
  "status_classes =
     [(400, Invalid_Request), (401, Authentication), (403, Access_Denied), (404, Not_Found), (413, Context_Length),
      (422, Invalid_Request), (429, Rate_Limit), (500, Server), (502, Server), (503, Server), (504, Server)]"

definition quota_phrases :: "string list" where
  "quota_phrases = [''insufficient_quota'', ''quota exceeded'', ''billing'', ''rate limit'', ''quota'']"

definition context_phrases :: "string list" where
  "context_phrases = [''context length'', ''maximum context'', ''too many tokens'', ''prompt is too long'']"

definition content_filter_phrases :: "string list" where
  "content_filter_phrases = [''content filter'', ''content_policy'', ''safety'', ''blocked'']"

definition classify_by_message :: "string \<Rightarrow> provider_class option" where
  "classify_by_message message =
     (let says = list_ex (\<lambda>phrase. occurs_in phrase (py_lower message)) in
      if says quota_phrases then Some Quota_Exceeded
      else if says context_phrases then Some Context_Length
      else if says content_filter_phrases then Some Content_Filter
      else None)"

definition status_class :: "int \<Rightarrow> string \<Rightarrow> provider_class option" where
  "status_class status_code message =
     (let cls = map_of status_classes status_code in
      if cls = None \<or> cls = Some Invalid_Request
      then (case classify_by_message message of None \<Rightarrow> cls | Some c \<Rightarrow> Some c) else cls)"

definition error_from_status_code ::
    "int \<Rightarrow> string \<Rightarrow> string \<Rightarrow> string option \<Rightarrow> rat option \<Rightarrow> sdk_error" where
  "error_from_status_code status_code message provider error_code retry_after =
     (if status_code = 408 then Request_Timeout message
      else
        (let cls = (if error_code = Some ''model_not_found'' then Some Not_Found else status_class status_code message) in
         Provider_Error
           \<lparr>pe_class = (case cls of None \<Rightarrow> Generic | Some c \<Rightarrow> c), pe_message = message, pe_provider = provider,
            pe_status = Some status_code, pe_code = error_code,
            pe_retryable = (case cls of None \<Rightarrow> True | Some c \<Rightarrow> c \<in> set retried_classes),
            pe_retry_after = retry_after\<rparr>))"

end
