(* ===== verification/Llm_Client.thy ===== *)
theory Llm_Client
  imports Llm_Types Model_Resolver
begin

text \<open>
  The LLM client below its high-level functions, in \<open>modules/unified-llm-client/unified_llm\<close>: the retry of a call
  (\<open>retry.py\<close>), the chain of middleware (\<open>middleware.py\<close>), the checks on a stream (\<open>stream_validation.py\<close>), and the
  routing of requests to adapters (\<open>client.py\<close>).

  An adapter is a pair of functions on the world. A stream is a feed: its events, each with the world in which it
  arrives, then the fault it ends with, if any, and the last world.
\<close>

section \<open>Faults\<close>

text \<open>An error of the client's own hierarchy, or any other exception.\<close>

datatype fault = Sdk sdk_error | Foreign exc

section \<open>Retry\<close>

record 'w retry_policy =
  rp_max_retries :: int
  rp_base_delay :: rat
  rp_max_delay :: rat
  rp_multiplier :: rat
  rp_jitter :: bool
  rp_on_retry :: "(sdk_error \<Rightarrow> int \<Rightarrow> rat \<Rightarrow> 'w \<Rightarrow> exc option \<times> 'w) option"

definition default_retry_policy :: "int \<Rightarrow> 'w retry_policy" where
  "default_retry_policy n =
     \<lparr>rp_max_retries = n, rp_base_delay = 1, rp_max_delay = 60, rp_multiplier = 2, rp_jitter = True, rp_on_retry = None\<rparr>"

text \<open>\<open>random.uniform(0.5, 1.5)\<close> and the sleep, which a cancellation can end.\<close>

record 'w rhythm =
  rh_uniform :: "'w \<Rightarrow> rat \<times> 'w"
  rh_sleep :: "rat \<Rightarrow> 'w \<Rightarrow> exc option \<times> 'w"

definition calculate_delay :: "'w retry_policy \<Rightarrow> 'w rhythm \<Rightarrow> int \<Rightarrow> 'w \<Rightarrow> (exc + rat) \<times> 'w" where
  "calculate_delay P R attempt w =
     (let p = rp_multiplier P ^ nat attempt in
      if p \<ge> float_limit then (Inl (PyError ''OverflowError'' False ''(34, 'Numerical result out of range')''), w)
      else let delay = min (rp_base_delay P * p) (rp_max_delay P) in
           if rp_jitter P then (case rh_uniform R w of (u, w1) \<Rightarrow> (Inr (delay * u), w1)) else (Inr delay, w))"

text \<open>Whether the failure of an attempt is final.\<close>

definition gives_up :: "'w retry_policy \<Rightarrow> sdk_error \<Rightarrow> int \<Rightarrow> bool" where
  "gives_up P err attempt =
     (\<not> sdk_retryable err \<or> attempt \<ge> rp_max_retries P
      \<or> (case sdk_retry_after err of None \<Rightarrow> False | Some s \<Rightarrow> s > rp_max_delay P))"

text \<open>Between two attempts: the delay, the callback, the sleep.\<close>

definition retry_wait :: "'w retry_policy \<Rightarrow> 'w rhythm \<Rightarrow> sdk_error \<Rightarrow> int \<Rightarrow> 'w \<Rightarrow> exc option \<times> 'w" where
  "retry_wait P R err attempt w =
     (case (case sdk_retry_after err of Some s \<Rightarrow> (Inr s, w) | None \<Rightarrow> calculate_delay P R attempt w) of
        (Inl e, w1) \<Rightarrow> (Some e, w1)
      | (Inr delay, w1) \<Rightarrow>
          (case (case rp_on_retry P of None \<Rightarrow> (None, w1) | Some callback \<Rightarrow> callback err attempt delay w1) of
             (Some e, w2) \<Rightarrow> (Some e, w2)
           | (None, w2) \<Rightarrow> rh_sleep R delay w2))"

text \<open>A negative number of retries makes no attempt at all, and meets the assertion after the loop.\<close>

function retry_from :: "'w retry_policy \<Rightarrow> 'w rhythm \<Rightarrow> ('w \<Rightarrow> (fault + 'a) \<times> 'w) \<Rightarrow> int \<Rightarrow> 'w \<Rightarrow> (fault + 'a) \<times> 'w" where
  "retry_from P R fn attempt w =
     (if attempt > rp_max_retries P then (Inl (Foreign (PyError ''AssertionError'' False [])), w)
      else case fn w of
             (Inr y, w1) \<Rightarrow> (Inr y, w1)
           | (Inl (Foreign e), w1) \<Rightarrow> (Inl (Foreign e), w1)
           | (Inl (Sdk err), w1) \<Rightarrow>
               (if gives_up P err attempt then (Inl (Sdk err), w1)
                else case retry_wait P R err attempt w1 of
                       (Some e, w2) \<Rightarrow> (Inl (Foreign e), w2)
                     | (None, w2) \<Rightarrow> retry_from P R fn (attempt + 1) w2))"
  by pat_completeness auto
termination
  by (relation "measure (\<lambda>(P, R, fn, attempt, w). nat (rp_max_retries P + 1 - attempt))") auto

declare retry_from.simps [simp del]

definition retry_call :: "'w retry_policy \<Rightarrow> 'w rhythm \<Rightarrow> ('w \<Rightarrow> (fault + 'a) \<times> 'w) \<Rightarrow> 'w \<Rightarrow> (fault + 'a) \<times> 'w" where
  "retry_call P R fn w = retry_from P R fn 0 w"

section \<open>Middleware\<close>

text \<open>A middleware is given the request and the rest of the chain; the first one registered is outermost. The
  same chain serves complete calls and streams.\<close>

fun build_chain :: "('q \<Rightarrow> ('q \<Rightarrow> 'r) \<Rightarrow> 'r) list \<Rightarrow> ('q \<Rightarrow> 'r) \<Rightarrow> 'q \<Rightarrow> 'r" where
  "build_chain [] handler req = handler req"
| "build_chain (m # ms) handler req = m req (build_chain ms handler)"

section \<open>Checks on a stream\<close>

type_synonym 'w feed = "(stream_event \<times> 'w) list \<times> fault option \<times> 'w"

record vstate =
  va_text :: bool
  va_text_id :: "string option"
  va_tool :: bool
  va_tool_id :: "string option"
  va_finish :: bool

definition vstate_init :: vstate where
  "vstate_init = \<lparr>va_text = False, va_text_id = None, va_tool = False, va_tool_id = None, va_finish = False\<rparr>"

text \<open>The violations an event commits, the events passed on, and the next state. Outside the mode
  \<open>warn\<close> the first violation ends the stream before the event is passed on.\<close>

definition check_text_delta :: "string \<Rightarrow> vstate \<Rightarrow> stream_event \<Rightarrow> string list \<times> stream_event list \<times> vstate" where
  "check_text_delta mode s e =
     (if \<not> va_text s then
        (if mode = ''normalize'' \<and> ev_text_id e \<noteq> None
         then ([], [(bare_event TEXT_START)\<lparr>ev_text_id := ev_text_id e\<rparr>, e], s\<lparr>va_text := True, va_text_id := ev_text_id e\<rparr>)
         else ([''TEXT_DELTA without TEXT_START''], [e], s))
      else if ev_text_id e \<noteq> None then
        (if va_text_id s = None then ([], [e], s\<lparr>va_text_id := ev_text_id e\<rparr>)
         else if ev_text_id e \<noteq> va_text_id s then ([''TEXT_DELTA id mismatch''], [e], s)
         else ([], [e], s))
      else ([], [e], s))"

definition check_text_end :: "vstate \<Rightarrow> stream_event \<Rightarrow> string list \<times> stream_event list \<times> vstate" where
  "check_text_end s e =
     (if \<not> va_text s then ([''TEXT_END without TEXT_START''], [e], s)
      else if ev_text_id e \<noteq> None \<and> va_text_id s \<noteq> None \<and> ev_text_id e \<noteq> va_text_id s
      then ([''TEXT_END id mismatch''], [e], s)
      else ([], [e], s\<lparr>va_text := False, va_text_id := None\<rparr>))"

definition check_tool_delta :: "vstate \<Rightarrow> stream_event \<Rightarrow> string list \<times> stream_event list \<times> vstate" where
  "check_tool_delta s e =
     (let bad = (if va_tool s then [] else [''TOOL_CALL_DELTA without TOOL_CALL_START'']) in
      case ev_tool_call e of
        None \<Rightarrow> (bad @ [''TOOL_CALL_DELTA id mismatch''], [e], s)
      | Some c \<Rightarrow>
          (if va_tool_id s = None then (bad, [e], s\<lparr>va_tool_id := Some (tl_id c)\<rparr>)
           else if Some (tl_id c) \<noteq> va_tool_id s then (bad @ [''TOOL_CALL_DELTA id mismatch''], [e], s)
           else (bad, [e], s)))"

definition check_tool_end :: "vstate \<Rightarrow> stream_event \<Rightarrow> string list \<times> stream_event list \<times> vstate" where
  "check_tool_end s e =
     (let bad = (if va_tool s then [] else [''TOOL_CALL_END without TOOL_CALL_START'']);
          closed = s\<lparr>va_tool := False, va_tool_id := None\<rparr> in
      case ev_tool_call e of
        None \<Rightarrow> (bad @ [''TOOL_CALL_END id mismatch''], [e], closed)
      | Some c \<Rightarrow>
          (if va_tool_id s \<noteq> None \<and> Some (tl_id c) \<noteq> va_tool_id s then (bad @ [''TOOL_CALL_END id mismatch''], [e], s)
           else (bad, [e], closed)))"

definition check_event :: "string \<Rightarrow> vstate \<Rightarrow> stream_event \<Rightarrow> string list \<times> stream_event list \<times> vstate" where
  "check_event mode s e =
     (case ev_kind e of
        TEXT_START \<Rightarrow>
          (if va_text s then ([''TEXT_START while text open''], [e], s)
           else ([], [e], s\<lparr>va_text := True, va_text_id := ev_text_id e\<rparr>))
      | TEXT_DELTA \<Rightarrow> check_text_delta mode s e
      | TEXT_END \<Rightarrow> check_text_end s e
      | TOOL_CALL_START \<Rightarrow>
          (let bad = (if va_tool s then [''TOOL_CALL_START while tool call open''] else []) in
           case ev_tool_call e of
             None \<Rightarrow> (bad @ [''TOOL_CALL_START missing tool_call''], [e], s)
           | Some c \<Rightarrow> (bad, [e], s\<lparr>va_tool := True, va_tool_id := Some (tl_id c)\<rparr>))
      | TOOL_CALL_DELTA \<Rightarrow> check_tool_delta s e
      | TOOL_CALL_END \<Rightarrow> check_tool_end s e
      | FINISH \<Rightarrow>
          ((if va_text s \<or> va_tool s then [''FINISH before closing text/tool call''] else []), [e], s\<lparr>va_finish := True\<rparr>)
      | _ \<Rightarrow> ([], [e], s))"

definition protocol_error :: "string \<Rightarrow> fault" where
  "protocol_error m = Sdk (Stream_Protocol m)"

fun validate_from :: "string \<Rightarrow> vstate \<Rightarrow> (stream_event \<times> 'w) list \<Rightarrow> fault option \<Rightarrow> 'w \<Rightarrow> 'w feed" where
  "validate_from mode s [] fault w =
     (if fault \<noteq> None then ([], fault, w)
      else if \<not> va_finish s \<and> mode \<noteq> ''warn'' then ([], Some (protocol_error ''Missing FINISH event''), w)
      else ([], None, w))"
| "validate_from mode s ((e, v) # es) fault w =
     (case check_event mode s e of
        (bad, passed, s1) \<Rightarrow>
          (if bad \<noteq> [] \<and> mode \<noteq> ''warn'' then ([], Some (protocol_error (hd bad)), v)
           else case validate_from mode s1 es fault w of (rest, f, w1) \<Rightarrow> (map (\<lambda>x. (x, v)) passed @ rest, f, w1)))"

definition validate_stream :: "string \<Rightarrow> 'w feed \<Rightarrow> 'w feed" where
  "validate_stream mode feed = (case feed of (events, fault, w) \<Rightarrow> validate_from mode vstate_init events fault w)"

section \<open>The client\<close>

record 'w adapter =
  ad_complete :: "llm_request \<Rightarrow> 'w \<Rightarrow> (fault + llm_response) \<times> 'w"
  ad_stream :: "llm_request \<Rightarrow> 'w \<Rightarrow> 'w feed"

text \<open>A middleware as it is called around complete calls and around streams.\<close>

record 'w middleware =
  mw_complete :: "llm_request \<Rightarrow> (llm_request \<Rightarrow> 'w \<Rightarrow> (fault + llm_response) \<times> 'w) \<Rightarrow> 'w \<Rightarrow> (fault + llm_response) \<times> 'w"
  mw_stream :: "llm_request \<Rightarrow> (llm_request \<Rightarrow> 'w \<Rightarrow> 'w feed) \<Rightarrow> 'w \<Rightarrow> 'w feed"

record 'w client =
  cl_providers :: "'w adapter dict"
  cl_default_provider :: "string option"
  cl_middleware :: "'w middleware list"

definition configuration_error :: "string \<Rightarrow> fault" where
  "configuration_error m = Sdk (Configuration m)"

definition resolve_adapter :: "'w client \<Rightarrow> llm_request \<Rightarrow> fault + 'w adapter" where
  "resolve_adapter C rq =
     (case (if str_true (lq_provider rq) then lq_provider rq else cl_default_provider C) of
        None \<Rightarrow> Inl (configuration_error
          ''No provider specified and no default provider configured. Set provider on the request or configure a default_provider.'')
      | Some name \<Rightarrow>
          (case dict_get (cl_providers C) name of
             None \<Rightarrow> Inl (configuration_error
               (''Provider '' @ quoted name @ '' not found. Available providers: '' @ repr_strs (dict_keys (cl_providers C))))
           | Some a \<Rightarrow> Inr a))"

definition complete :: "'w client \<Rightarrow> llm_request \<Rightarrow> 'w \<Rightarrow> (fault + llm_response) \<times> 'w" where
  "complete C rq w =
     (case resolve_adapter C rq of
        Inl e \<Rightarrow> (Inl e, w)
      | Inr a \<Rightarrow>
          (case build_chain (map mw_complete (cl_middleware C)) (ad_complete a) rq w of
             (Inl e, w1) \<Rightarrow> (Inl e, w1)
           | (Inr r, w1) \<Rightarrow> (Inr (r\<lparr>lr_usage := with_cost (lr_model r) (lr_usage r)\<rparr>), w1)))"

definition validation_mode :: "llm_request \<Rightarrow> string" where
  "validation_mode rq = (case lq_validation rq of None \<Rightarrow> ''strict'' | Some m \<Rightarrow> m)"

definition client_stream :: "'w client \<Rightarrow> llm_request \<Rightarrow> 'w \<Rightarrow> 'w feed" where
  "client_stream C rq w =
     (case resolve_adapter C rq of
        Inl e \<Rightarrow> ([], Some e, w)
      | Inr a \<Rightarrow>
          build_chain (map mw_stream (cl_middleware C))
            (\<lambda>q v. validate_stream (validation_mode q) (ad_stream a q v)) rq w)"

text \<open>The client of an environment: an adapter per provider with a key, the first of them the default.\<close>

definition client_from_env :: "string dict \<Rightarrow> (string \<Rightarrow> 'w adapter) \<Rightarrow> fault + 'w client" where
  "client_from_env environ adapter_of =
     (case detect_configured_providers environ of
        [] \<Rightarrow> Inl (configuration_error
          ''No API keys found in environment. Set at least one of: ANTHROPIC_API_KEY, OPENAI_API_KEY, GEMINI_API_KEY'')
      | name # names \<Rightarrow>
          Inr \<lparr>cl_providers = map (\<lambda>n. (n, adapter_of n)) (name # names), cl_default_provider = Some name, cl_middleware = []\<rparr>)"

definition get_default_client :: "'w client option \<Rightarrow> string dict \<Rightarrow> (string \<Rightarrow> 'w adapter) \<Rightarrow> fault + 'w client" where
  "get_default_client stored environ adapter_of =
     (case stored of Some C \<Rightarrow> Inr C | None \<Rightarrow> client_from_env environ adapter_of)"

end
