(* ===== verification/Llm_Generate.thy ===== *)
theory Llm_Generate
  imports Llm_Client Fidelity
begin

text \<open>
  The high-level functions of the LLM client, \<open>modules/unified-llm-client/unified_llm/generate.py\<close>: the tool loop of
  \<open>generate\<close> and of \<open>stream\<close>, the execution of tools, timeouts and the abort signal, and structured output.

  The environment \<open>genv\<close> is what the functions cannot see into: the abort signal read in a world, a bounded await
  (the world it times out in, if it does), the interruption of the whole call, the clock, random draws and sleeps,
  the default client and the JSON reader. Tools that run at the same time are run one after the other; their results are in the
  order of the calls either way. A consumer of a stream does not change the world between two events.
\<close>

section \<open>Tools\<close>

record 'w tool =
  tn_name :: string
  tn_description :: string
  tn_parameters :: pyval
  tn_execute :: "(pyval dict \<Rightarrow> 'w \<Rightarrow> (exc + pyval) \<times> 'w) option"

definition has_active_tools :: "'w tool list option \<Rightarrow> bool" where
  "has_active_tools tools = (case tools of None \<Rightarrow> False | Some ts \<Rightarrow> list_ex (\<lambda>t. tn_execute t \<noteq> None) ts)"

text \<open>Of several tools with one name the last one counts.\<close>

definition tool_map :: "'w tool list \<Rightarrow> 'w tool dict" where
  "tool_map ts = foldl (\<lambda>d t. dict_set (tn_name t) t d) [] (filter (\<lambda>t. tn_execute t \<noteq> None) ts)"

definition tool_failed :: "tool_call \<Rightarrow> string \<Rightarrow> tool_result_data" where
  "tool_failed c s = \<lparr>tr_tool_call_id = tl_id c, tr_content = PStr s, tr_is_error = True\<rparr>"

definition result_content :: "pyval \<Rightarrow> pyval" where
  "result_content v = (case v of PStr s \<Rightarrow> v | PDict d \<Rightarrow> v | PList xs \<Rightarrow> v | _ \<Rightarrow> PStr (py_str v))"

definition call_arguments :: "tool_call \<Rightarrow> pyval dict" where
  "call_arguments c = (case tl_arguments c of PDict d \<Rightarrow> d | _ \<Rightarrow> [])"

text \<open>Every failure of a tool is a result; only a cancellation passes.\<close>

definition execute_one :: "'w tool dict \<Rightarrow> tool_call \<Rightarrow> 'w \<Rightarrow> (exc + tool_result_data) \<times> 'w" where
  "execute_one tools c w =
     (case (case dict_get tools (tl_name c) of None \<Rightarrow> None | Some t \<Rightarrow> tn_execute t) of
        None \<Rightarrow> (Inr (tool_failed c (''Unknown tool: '' @ tl_name c)), w)
      | Some execute \<Rightarrow>
          (case execute (call_arguments c) w of
             (Inr v, w1) \<Rightarrow> (Inr \<lparr>tr_tool_call_id = tl_id c, tr_content = result_content v, tr_is_error = False\<rparr>, w1)
           | (Inl e, w1) \<Rightarrow> (if is_cancellation e then (Inl e, w1) else (Inr (tool_failed c (exc_str e)), w1))))"

fun execute_calls :: "'w tool dict \<Rightarrow> tool_call list \<Rightarrow> 'w \<Rightarrow> (exc + tool_result_data list) \<times> 'w" where
  "execute_calls tools [] w = (Inr [], w)"
| "execute_calls tools (c # cs) w =
     (case execute_one tools c w of
        (Inl e, w1) \<Rightarrow> (Inl e, w1)
      | (Inr r, w1) \<Rightarrow>
          (case execute_calls tools cs w1 of
             (Inl e, w2) \<Rightarrow> (Inl e, w2)
           | (Inr rs, w2) \<Rightarrow> (Inr (r # rs), w2)))"

definition execute_tools :: "'w tool list option \<Rightarrow> tool_call list \<Rightarrow> 'w \<Rightarrow> (exc + tool_result_data list) \<times> 'w" where
  "execute_tools tools cs w = execute_calls (tool_map (case tools of None \<Rightarrow> [] | Some ts \<Rightarrow> ts)) cs w"

text \<open>The calls of a response. Arguments that are no mapping are replaced by none.\<close>

definition calls_of :: "llm_response \<Rightarrow> tool_call list" where
  "calls_of r =
     map (\<lambda>c. \<lparr>tl_id = td_id c, tl_name = td_name c,
               tl_arguments = (case td_arguments c of PDict d \<Rightarrow> PDict d | _ \<Rightarrow> PDict [])\<rparr>)
       (message_tool_calls (lr_message r))"

definition result_message :: "tool_result_data \<Rightarrow> llm_message" where
  "result_message t =
     tool_result_message (tr_tool_call_id t)
       (case tr_content t of PStr s \<Rightarrow> PStr s | v \<Rightarrow> PStr (py_str v)) (tr_is_error t)"

definition wants_tools :: "llm_response \<Rightarrow> bool" where
  "wants_tools r = (calls_of r \<noteq> [] \<and> lr_finish r = ''tool_calls'')"

section \<open>Arguments and environment\<close>

datatype timeout = Seconds rat | Timeout_Config "rat option" "rat option"

definition resolve_timeout :: "timeout option \<Rightarrow> (rat option \<times> rat option) option" where
  "resolve_timeout t =
     (case t of
        None \<Rightarrow> None
      | Some (Seconds s) \<Rightarrow> Some (Some s, None)
      | Some (Timeout_Config whole per_step) \<Rightarrow> Some (whole, per_step))"

record step_result =
  sr_text :: string
  sr_tool_calls :: "tool_call list"
  sr_tool_results :: "tool_result_data list"
  sr_finish :: string
  sr_usage :: usage
  sr_response :: llm_response
  sr_warnings :: "string list"
  sr_reasoning :: "string option"

record 'w generation =
  ga_model :: string
  ga_prompt :: "string option"
  ga_messages :: "llm_message list option"
  ga_system :: "string option"
  ga_tools :: "'w tool list option"
  ga_max_tool_rounds :: int
  ga_stop_when :: "(step_result list \<Rightarrow> 'w \<Rightarrow> (exc + bool) \<times> 'w) option"
  ga_params :: "pyval dict"
  ga_validation :: "string option"
  ga_provider :: "string option"
  ga_max_retries :: int
  ga_timeout :: "timeout option"
  ga_signal :: bool
  ga_client :: "'w client option"

datatype interruption = Abort_Fired | Out_Of_Time | Cancelled

record 'w genv =
  ge_aborted :: "'w \<Rightarrow> bool"
  ge_bounded :: "rat \<Rightarrow> 'w \<Rightarrow> 'w option"
  ge_interrupt :: "rat option \<Rightarrow> 'w \<Rightarrow> (interruption \<times> 'w) option"
  ge_now :: "'w \<Rightarrow> rat"
  ge_rhythm :: "'w rhythm"
  ge_stored :: "'w client option"
  ge_environ :: "string dict"
  ge_adapter :: "string \<Rightarrow> 'w adapter"
  ge_loads :: "string \<Rightarrow> string + pyval"

definition aborted_fault :: "string \<Rightarrow> fault" where
  "aborted_fault m = Sdk (Abort m)"

definition is_aborted :: "'w genv \<Rightarrow> 'w generation \<Rightarrow> 'w \<Rightarrow> bool" where
  "is_aborted E G w = (ga_signal G \<and> ge_aborted E w)"

definition both_given :: fault where
  "both_given = configuration_error ''Cannot specify both 'prompt' and 'messages'. Use one or the other.''"

definition none_given :: fault where
  "none_given = configuration_error ''Either 'prompt' or 'messages' must be provided.''"

definition system_messages :: "'w generation \<Rightarrow> llm_message list" where
  "system_messages G =
     (if str_true (ga_system G) then [text_message Role_System (the (ga_system G))] else [])"

definition build_messages :: "'w generation \<Rightarrow> fault + llm_message list" where
  "build_messages G =
     (case (ga_prompt G, ga_messages G) of
        (Some p, Some ms) \<Rightarrow> Inl both_given
      | (Some p, None) \<Rightarrow> Inr (system_messages G @ [text_message Role_User p])
      | (None, Some ms) \<Rightarrow> Inr (system_messages G @ ms)
      | (None, None) \<Rightarrow> Inl none_given)"

definition resolved_client :: "'w genv \<Rightarrow> 'w generation \<Rightarrow> fault + 'w client" where
  "resolved_client E G =
     (case ga_client G of
        Some C \<Rightarrow> Inr C
      | None \<Rightarrow> get_default_client (ge_stored E) (ge_environ E) (ge_adapter E))"

definition step_request :: "'w generation \<Rightarrow> llm_message list \<Rightarrow> llm_request" where
  "step_request G conv =
     \<lparr>lq_model = ga_model G, lq_messages = conv, lq_provider = ga_provider G,
      lq_tools = map_option (map (\<lambda>t. (tn_name t, tn_description t, tn_parameters t))) (ga_tools G),
      lq_params = ga_params G, lq_validation = ga_validation G\<rparr>"

section \<open>The tool loop\<close>

text \<open>The call of a step, retried, within the limit per step. A limit of zero seconds is none.\<close>

definition per_step :: "'w generation \<Rightarrow> rat option" where
  "per_step G =
     (case resolve_timeout (ga_timeout G) of
        Some (whole, Some s) \<Rightarrow> (if s = 0 then None else Some s)
      | _ \<Rightarrow> None)"

definition step_call :: "'w genv \<Rightarrow> 'w generation \<Rightarrow> 'w client \<Rightarrow> llm_message list \<Rightarrow> 'w \<Rightarrow> (fault + llm_response) \<times> 'w" where
  "step_call E G C conv w =
     (let call = retry_call (default_retry_policy (ga_max_retries G)) (ge_rhythm E) (complete C (step_request G conv)) in
      case (case per_step G of None \<Rightarrow> None | Some s \<Rightarrow> ge_bounded E s w) of
        Some w1 \<Rightarrow> (Inl (Sdk (Request_Timeout ''Per-step timeout exceeded'')), w1)
      | None \<Rightarrow> call w)"

definition step_of :: "llm_response \<Rightarrow> tool_result_data list \<Rightarrow> step_result" where
  "step_of r results =
     \<lparr>sr_text = message_text (lr_message r), sr_tool_calls = calls_of r, sr_tool_results = results,
      sr_finish = lr_finish r, sr_usage = lr_usage r, sr_response = r, sr_warnings = lr_warnings r,
      sr_reasoning = message_reasoning (lr_message r)\<rparr>"

text \<open>One round: the step it adds, and whether the loop goes on.\<close>

definition generate_round ::
    "'w genv \<Rightarrow> 'w generation \<Rightarrow> 'w client \<Rightarrow> int \<Rightarrow> llm_message list \<Rightarrow> step_result list \<Rightarrow> 'w
     \<Rightarrow> (fault + step_result \<times> bool) \<times> 'w" where
  "generate_round E G C k conv steps w =
     (if is_aborted E G w then (Inl (aborted_fault ''Operation aborted''), w)
      else case step_call E G C conv w of
        (Inl f, w1) \<Rightarrow> (Inl f, w1)
      | (Inr r, w1) \<Rightarrow>
          (case (if wants_tools r \<and> has_active_tools (ga_tools G) then execute_tools (ga_tools G) (calls_of r) w1
                 else (Inr [], w1)) of
             (Inl e, w2) \<Rightarrow> (Inl (Foreign e), w2)
           | (Inr results, w2) \<Rightarrow>
               (let step = step_of r results in
                if \<not> wants_tools r \<or> \<not> has_active_tools (ga_tools G) \<or> k \<ge> ga_max_tool_rounds G
                then (Inr (step, False), w2)
                else case ga_stop_when G of
                       None \<Rightarrow> (Inr (step, True), w2)
                     | Some stop \<Rightarrow>
                         (case stop (steps @ [step]) w2 of
                            (Inl e, w3) \<Rightarrow> (Inl (Foreign e), w3)
                          | (Inr b, w3) \<Rightarrow> (Inr (step, \<not> b), w3)))))"

text \<open>What a step adds to the conversation.\<close>

definition exchange_of :: "step_result \<Rightarrow> llm_message list" where
  "exchange_of s = lr_message (sr_response s) # map result_message (sr_tool_results s)"

function generate_rounds ::
    "'w genv \<Rightarrow> 'w generation \<Rightarrow> 'w client \<Rightarrow> int \<Rightarrow> llm_message list \<Rightarrow> step_result list \<Rightarrow> 'w
     \<Rightarrow> (fault + step_result list) \<times> 'w" where
  "generate_rounds E G C k conv steps w =
     (if k > ga_max_tool_rounds G then (Inr steps, w)
      else case generate_round E G C k conv steps w of
             (Inl f, w1) \<Rightarrow> (Inl f, w1)
           | (Inr (step, True), w1) \<Rightarrow>
               generate_rounds E G C (k + 1) (conv @ exchange_of step) (steps @ [step]) w1
           | (Inr (step, False), w1) \<Rightarrow> (Inr (steps @ [step]), w1))"
  by pat_completeness auto
termination
  by (relation "measure (\<lambda>(E, G, C, k, conv, steps, w). nat (ga_max_tool_rounds G + 1 - k))") auto

declare generate_rounds.simps [simp del]

record generate_result =
  gr_text :: string
  gr_finish :: string
  gr_usage :: usage
  gr_total_usage :: usage
  gr_steps :: "step_result list"
  gr_response :: llm_response
  gr_reasoning :: "string option"
  gr_tool_calls :: "tool_call list"
  gr_tool_results :: "tool_result_data list"
  gr_parsed :: "pyval option"

text \<open>The result of the steps; without a step there is none.\<close>

definition aggregate :: "step_result list \<Rightarrow> fault + generate_result" where
  "aggregate steps =
     (case steps of
        [] \<Rightarrow> Inl (Foreign (PyError ''IndexError'' False ''list index out of range''))
      | first # others \<Rightarrow>
          (let final = last (first # others) in
           Inr \<lparr>gr_text = sr_text final, gr_finish = sr_finish final, gr_usage = sr_usage final,
                gr_total_usage = foldl (\<lambda>u s. add_usage u (sr_usage s)) (sr_usage first) others,
                gr_steps = first # others, gr_response = sr_response final, gr_reasoning = sr_reasoning final,
                gr_tool_calls = sr_tool_calls final, gr_tool_results = sr_tool_results final, gr_parsed = None\<rparr>))"

definition run_generate :: "'w genv \<Rightarrow> 'w generation \<Rightarrow> 'w client \<Rightarrow> llm_message list \<Rightarrow> 'w \<Rightarrow> (fault + generate_result) \<times> 'w" where
  "run_generate E G C messages w =
     (case generate_rounds E G C 0 messages [] w of
        (Inl f, w1) \<Rightarrow> (Inl f, w1)
      | (Inr steps, w1) \<Rightarrow> (aggregate steps, w1))"

text \<open>The whole call under the abort signal and the total limit.\<close>

definition with_abort_and_timeout ::
    "'w genv \<Rightarrow> 'w generation \<Rightarrow> ('w \<Rightarrow> (fault + 'a) \<times> 'w) \<Rightarrow> 'w \<Rightarrow> (fault + 'a) \<times> 'w" where
  "with_abort_and_timeout E G main w =
     (if is_aborted E G w then (Inl (aborted_fault ''Operation aborted''), w)
      else case ge_interrupt E (case resolve_timeout (ga_timeout G) of None \<Rightarrow> None | Some (whole, s) \<Rightarrow> whole) w of
             None \<Rightarrow> main w
           | Some (Cancelled, w1) \<Rightarrow> (Inl (aborted_fault ''Operation cancelled''), w1)
           | Some (Abort_Fired, w1) \<Rightarrow>
               (if ga_signal G then (Inl (aborted_fault ''Operation aborted''), w1)
                else (Inl (Sdk (Request_Timeout ''Operation timed out'')), w1))
           | Some (Out_Of_Time, w1) \<Rightarrow> (Inl (Sdk (Request_Timeout ''Operation timed out'')), w1))"

definition generate :: "'w genv \<Rightarrow> 'w generation \<Rightarrow> 'w \<Rightarrow> (fault + generate_result) \<times> 'w" where
  "generate E G w =
     (if ga_prompt G \<noteq> None \<and> ga_messages G \<noteq> None then (Inl both_given, w)
      else case resolved_client E G of
             Inl f \<Rightarrow> (Inl f, w)
           | Inr C \<Rightarrow>
               (case build_messages G of
                  Inl f \<Rightarrow> (Inl f, w)
                | Inr messages \<Rightarrow>
                    (if is_aborted E G w then (Inl (aborted_fault ''Operation aborted''), w)
                     else if ga_signal G \<or> ga_timeout G \<noteq> None
                     then with_abort_and_timeout E G (run_generate E G C messages) w
                     else run_generate E G C messages w)))"

end
