(* ===== verification/Llm_Stream.thy ===== *)
theory Llm_Stream
  imports Llm_Generate
begin

text \<open>
  \<open>stream\<close> with its tool loop, and structured output: \<open>generate_object\<close> and \<open>stream_object\<close>, from \<open>generate.py\<close> of the
  LLM client.

  Of a schema its type and its required fields are looked at; the record \<open>object_schema\<close> holds these.
\<close>

section \<open>The tool loop of a stream\<close>

definition stop_iteration :: exc where
  "stop_iteration = PyError ''StopAsyncIteration'' False []"

text \<open>The start of a step's stream: its first event. A stream that ends without one raises.\<close>

definition start_stream :: "'w client \<Rightarrow> llm_request \<Rightarrow> 'w \<Rightarrow> (fault + (stream_event \<times> 'w) \<times> 'w feed) \<times> 'w" where
  "start_stream C rq w =
     (case client_stream C rq w of
        ((e, v) # es, ending) \<Rightarrow> (Inr ((e, v), es, ending), v)
      | ([], Some f, w1) \<Rightarrow> (Inl f, w1)
      | ([], None, w1) \<Rightarrow> (Inl (Foreign stop_iteration), w1))"

text \<open>An exception of that kind that leaves an asynchronous generator is a \<open>RuntimeError\<close>.\<close>

definition leaving_generator :: "fault \<Rightarrow> fault" where
  "leaving_generator f =
     (if f = Foreign stop_iteration
      then Foreign (PyError ''RuntimeError'' False ''async generator raised StopAsyncIteration'') else f)"

text \<open>The other events, up to an abort.\<close>

fun follow :: "'w genv \<Rightarrow> 'w generation \<Rightarrow> (stream_event \<times> 'w) list \<Rightarrow> fault option \<Rightarrow> 'w \<Rightarrow> 'w feed" where
  "follow E G [] fault w = ([], fault, w)"
| "follow E G ((e, v) # es) fault w =
     (if is_aborted E G v then ([], Some (aborted_fault ''Operation aborted''), v)
      else case follow E G es fault w of (rest, f, w1) \<Rightarrow> ((e, v) # rest, f, w1))"

definition accumulate_all :: "stream_event list \<Rightarrow> llm_response" where
  "accumulate_all events = accumulated (foldl accumulate empty_accumulator events)"

text \<open>The events of a step.\<close>

definition stream_step :: "'w genv \<Rightarrow> 'w generation \<Rightarrow> 'w client \<Rightarrow> llm_message list \<Rightarrow> 'w \<Rightarrow> 'w feed" where
  "stream_step E G C conv w =
     (case retry_call (default_retry_policy (ga_max_retries G)) (ge_rhythm E) (start_stream C (step_request G conv)) w of
        (Inl f, w1) \<Rightarrow> ([], Some (leaving_generator f), w1)
      | (Inr (first, es, fault, w2), w1) \<Rightarrow>
          (case follow E G es fault w2 of (rest, f, w3) \<Rightarrow> (first # rest, f, w3)))"

definition step_finish :: "llm_response \<Rightarrow> stream_event" where
  "step_finish r = (bare_event (Other_Event ''step_finish''))\<lparr>ev_response := Some r\<rparr>"

function stream_rounds :: "'w genv \<Rightarrow> 'w generation \<Rightarrow> 'w client \<Rightarrow> int \<Rightarrow> llm_message list \<Rightarrow> 'w \<Rightarrow> 'w feed" where
  "stream_rounds E G C k conv w =
     (if k > ga_max_tool_rounds G then ([], None, w)
      else if is_aborted E G w then ([], Some (aborted_fault ''Operation aborted''), w)
      else case stream_step E G C conv w of
             (events, Some f, w1) \<Rightarrow> (events, Some f, w1)
           | (events, None, w1) \<Rightarrow>
               (let r = accumulate_all (map fst events) in
                if \<not> wants_tools r \<or> \<not> has_active_tools (ga_tools G) \<or> k \<ge> ga_max_tool_rounds G then (events, None, w1)
                else case execute_tools (ga_tools G) (calls_of r) w1 of
                       (Inl e, w2) \<Rightarrow> (events, Some (Foreign e), w2)
                     | (Inr results, w2) \<Rightarrow>
                         (case stream_rounds E G C (k + 1) (conv @ lr_message r # map result_message results) w2 of
                            (rest, f, w3) \<Rightarrow> (events @ (step_finish r, w2) # rest, f, w3))))"
  by pat_completeness auto
termination
  by (relation "measure (\<lambda>(E, G, C, k, conv, w). nat (ga_max_tool_rounds G + 1 - k))") auto

declare stream_rounds.simps [simp del]

text \<open>The total limit, looked at with each event.\<close>

fun in_time :: "'w genv \<Rightarrow> 'w generation \<Rightarrow> rat \<Rightarrow> (stream_event \<times> 'w) list \<Rightarrow> fault option \<Rightarrow> 'w \<Rightarrow> 'w feed" where
  "in_time E G deadline [] fault w = ([], fault, w)"
| "in_time E G deadline ((e, v) # es) fault w =
     (if is_aborted E G v then ([], Some (aborted_fault ''Operation aborted''), v)
      else if deadline - ge_now E v \<le> 0 then ([], Some (Sdk (Request_Timeout ''Stream total timeout exceeded'')), v)
      else case in_time E G deadline es fault w of (rest, f, w1) \<Rightarrow> ((e, v) # rest, f, w1))"

definition stream_with_timeout :: "'w genv \<Rightarrow> 'w generation \<Rightarrow> rat \<Rightarrow> 'w feed \<Rightarrow> 'w \<Rightarrow> 'w feed" where
  "stream_with_timeout E G limit feed w =
     (case feed of (events, fault, w1) \<Rightarrow> in_time E G (ge_now E w + limit) events fault w1)"

text \<open>The call raises at once where the messages or the client are wanting; the feed is what iterating over its result
  gives.\<close>

definition stream :: "'w genv \<Rightarrow> 'w generation \<Rightarrow> 'w \<Rightarrow> fault + 'w feed" where
  "stream E G w =
     (case build_messages G of
        Inl f \<Rightarrow> Inl f
      | Inr messages \<Rightarrow>
          (case resolved_client E G of
             Inl f \<Rightarrow> Inl f
           | Inr C \<Rightarrow>
               (let feed = stream_rounds E G C 0 messages w in
                Inr (case resolve_timeout (ga_timeout G) of
                       Some (Some limit, s) \<Rightarrow> stream_with_timeout E G limit feed w
                     | _ \<Rightarrow> feed))))"

definition stream_response :: "'w feed \<Rightarrow> llm_response" where
  "stream_response feed = accumulate_all (map fst (fst feed))"

definition text_stream :: "'w feed \<Rightarrow> string list" where
  "text_stream feed =
     map (\<lambda>(e, v). the (ev_delta e)) (filter (\<lambda>(e, v). ev_kind e = TEXT_DELTA \<and> str_true (ev_delta e)) (fst feed))"

section \<open>Structured output\<close>

record object_schema =
  os_type :: "string option"
  os_required :: "string list"
  os_schema :: pyval

definition no_object :: "string \<Rightarrow> fault" where
  "no_object m = Sdk (No_Object m)"

text \<open>\<open>^```(?:json)?\s*\n(.*?)\n```$\<close> on a stripped text, and its group stripped: the first line break of the
  white space after the opening fence may begin the group, since what is skipped then is stripped.\<close>

definition fence_body :: "string \<Rightarrow> string option" where
  "fence_body s =
     (if startswith ''```'' s then
        (let rest = drop (if startswith ''```json'' s then 7 else 3) s;
             blank = takeWhile py_isspace rest;
             skipped = takeWhile (\<lambda>c. c \<noteq> CHR 0x0A) blank;
             body = drop (length skipped + 1) rest
         in if CHR 0x0A \<in> set blank \<and> length body \<ge> 4 \<and> endswith (newline @ ''```'') body
            then Some (py_strip (take (length body - 4) body)) else None)
      else None)"

definition parse_json_response :: "(string \<Rightarrow> string + pyval) \<Rightarrow> string \<Rightarrow> fault + pyval" where
  "parse_json_response loads s =
     (let stripped = (case fence_body (py_strip s) of None \<Rightarrow> py_strip s | Some t \<Rightarrow> t) in
      case loads stripped of
        Inr v \<Rightarrow> Inr v
      | Inl e \<Rightarrow> Inl (no_object (''Failed to parse JSON from response: '' @ e)))"

definition is_object :: "pyval \<Rightarrow> bool" where
  "is_object v = (case v of PDict d \<Rightarrow> True | _ \<Rightarrow> False)"

definition is_array :: "pyval \<Rightarrow> bool" where
  "is_array v = (case v of PList xs \<Rightarrow> True | _ \<Rightarrow> False)"

definition missing_fields :: "object_schema \<Rightarrow> pyval \<Rightarrow> string list" where
  "missing_fields sch v = (case v of PDict d \<Rightarrow> filter (\<lambda>k. \<not> dict_has d k) (os_required sch) | _ \<Rightarrow> [])"

definition validate_against_schema :: "object_schema \<Rightarrow> pyval \<Rightarrow> fault option" where
  "validate_against_schema sch v =
     (if os_type sch = Some ''object'' \<and> is_object v then
        (if missing_fields sch v = [] then None
         else Some (no_object (''Response missing required fields: '' @ repr_strs (missing_fields sch v))))
      else if os_type sch = Some ''object'' then Some (no_object (''Expected object, got '' @ py_type_name v))
      else if os_type sch = Some ''array'' \<and> \<not> is_array v then Some (no_object (''Expected array, got '' @ py_type_name v))
      else None)"

text \<open>The request for an object: the schema as response format, no tools.\<close>

definition object_generation :: "object_schema \<Rightarrow> 'w generation \<Rightarrow> 'w generation" where
  "object_generation sch G =
     G\<lparr>ga_tools := None, ga_max_tool_rounds := 0, ga_stop_when := None,
       ga_params := dict_set ''response_format''
         (PDict [(''type'', PStr ''json_schema''), (''json_schema'', os_schema sch), (''strict'', PBool True)]) (ga_params G)\<rparr>"

definition structured_output_tool :: string where
  "structured_output_tool = ''__structured_output__''"

text \<open>The object of a result: the arguments of the extraction call, or the text. The arguments are always a
  mapping here, see \<open>calls_of\<close>.\<close>

definition extract_object :: "(string \<Rightarrow> string + pyval) \<Rightarrow> generate_result \<Rightarrow> fault + pyval" where
  "extract_object loads r =
     (case filter (\<lambda>c. tl_name c = structured_output_tool) (gr_tool_calls r) of
        c # cs \<Rightarrow>
          (case tl_arguments c of
             PStr s \<Rightarrow>
               (case loads s of
                  Inr v \<Rightarrow> Inr v
                | Inl e \<Rightarrow> Inl (no_object (''Failed to parse structured output tool arguments: '' @ e)))
           | v \<Rightarrow> Inr v)
      | [] \<Rightarrow>
          (let raw = py_strip (gr_text r) in
           if raw = [] then Inl (no_object
             ''Provider returned empty text and no structured-output tool call. Structured output is unavailable for this request.'')
           else parse_json_response loads raw))"

definition generate_object :: "'w genv \<Rightarrow> object_schema \<Rightarrow> 'w generation \<Rightarrow> 'w \<Rightarrow> (fault + generate_result) \<times> 'w" where
  "generate_object E sch G w =
     (case generate E (object_generation sch G) w of
        (Inl f, w1) \<Rightarrow> (Inl f, w1)
      | (Inr r, w1) \<Rightarrow>
          (case extract_object (ge_loads E) r of
             Inl f \<Rightarrow> (Inl f, w1)
           | Inr v \<Rightarrow>
               (case validate_against_schema sch v of
                  Some f \<Rightarrow> (Inl f, w1)
                | None \<Rightarrow> (Inr (r\<lparr>gr_parsed := Some v\<rparr>), w1))))"

text \<open>\<open>stream_object\<close>: the objects yielded while the text grows, the text, and the final object, which is kept before
  it is validated. A feed that ends with a fault raises it before the final parse.\<close>

fun partial_objects :: "(string \<Rightarrow> string + pyval) \<Rightarrow> string \<Rightarrow> stream_event list \<Rightarrow> pyval list \<times> string" where
  "partial_objects loads acc [] = ([], acc)"
| "partial_objects loads acc (e # es) =
     (if ev_kind e = TEXT_DELTA \<and> str_true (ev_delta e) then
        (let acc1 = acc @ the (ev_delta e); (vs, done_text) = partial_objects loads acc1 es in
         case loads acc1 of Inr v \<Rightarrow> (v # vs, done_text) | Inl m \<Rightarrow> (vs, done_text))
      else partial_objects loads acc es)"

record object_stream =
  ob_partials :: "pyval list"
  ob_text :: string
  ob_final :: "pyval option"
  ob_fault :: "fault option"

definition stream_object :: "'w genv \<Rightarrow> object_schema \<Rightarrow> 'w generation \<Rightarrow> 'w \<Rightarrow> fault + object_stream" where
  "stream_object E sch G w =
     (case stream E (object_generation sch G) w of
        Inl f \<Rightarrow> Inl f
      | Inr (events, fault, w1) \<Rightarrow>
          (case partial_objects (ge_loads E) [] (map fst events) of
             (vs, acc) \<Rightarrow>
               Inr \<lparr>ob_partials = vs, ob_text = acc,
                    ob_final = (if fault \<noteq> None \<or> py_strip acc = [] then None
                      else case parse_json_response (ge_loads E) acc of Inl f \<Rightarrow> None | Inr v \<Rightarrow> Some v),
                    ob_fault = fault\<rparr>))"

text \<open>\<open>.object()\<close>: an object that is there is returned as it is; \<open>None\<close> counts as no object.\<close>

definition stream_object_result :: "'w genv \<Rightarrow> object_schema \<Rightarrow> object_stream \<Rightarrow> fault + pyval" where
  "stream_object_result E sch s =
     (if ob_final s \<noteq> None \<and> ob_final s \<noteq> Some PNone then Inr (the (ob_final s))
      else if py_strip (ob_text s) \<noteq> [] then
        (case parse_json_response (ge_loads E) (ob_text s) of
           Inl f \<Rightarrow> Inl f
         | Inr v \<Rightarrow> (case validate_against_schema sch v of Some f \<Rightarrow> Inl f | None \<Rightarrow> Inr v))
      else Inl (no_object ''No JSON content received in stream''))"

end
