(* ===== verification/Stream_Language.thy ===== *)
theory Stream_Language
  imports Llm_Stream "HOL-Library.Sublist"
begin

text \<open>
  The streams that pass the strict checks, as a language: of the text events and of the tool events every block is
  started, continued and ended under one id, blocks do not overlap, and the stream finishes while no block is open.

  The checks are shown to run two automata side by side, one per track, and each automaton accepts its language.
\<close>

section \<open>The language\<close>

definition texty :: "stream_event \<Rightarrow> bool" where
  "texty e = (ev_kind e \<in> {TEXT_START, TEXT_DELTA, TEXT_END, FINISH})"

definition tooly :: "stream_event \<Rightarrow> bool" where
  "tooly e = (ev_kind e \<in> {TOOL_CALL_START, TOOL_CALL_DELTA, TOOL_CALL_END, FINISH})"

definition tool_id :: "stream_event \<Rightarrow> string option" where
  "tool_id e = map_option tl_id (ev_tool_call e)"

text \<open>An event without an id agrees with every id; a tool event names its call.\<close>

definition text_agrees :: "string option \<Rightarrow> stream_event \<Rightarrow> bool" where
  "text_agrees i e = (ev_text_id e = None \<or> ev_text_id e = i)"

inductive text_word :: "stream_event list \<Rightarrow> bool" where
  text_empty: "text_word []"
| text_open: "\<lbrakk> ev_kind s = TEXT_START; list_all (\<lambda>d. ev_kind d = TEXT_DELTA) ds; list_all (text_agrees i) (s # ds) \<rbrakk>
     \<Longrightarrow> text_word (s # ds)"
| text_block: "\<lbrakk> ev_kind s = TEXT_START; list_all (\<lambda>d. ev_kind d = TEXT_DELTA) ds; ev_kind e = TEXT_END;
     list_all (text_agrees i) (s # ds @ [e]); text_word rest \<rbrakk> \<Longrightarrow> text_word (s # ds @ e # rest)"
| text_finish: "\<lbrakk> ev_kind f = FINISH; text_word rest \<rbrakk> \<Longrightarrow> text_word (f # rest)"

inductive tool_word :: "stream_event list \<Rightarrow> bool" where
  tool_empty: "tool_word []"
| tool_open: "\<lbrakk> ev_kind s = TOOL_CALL_START; list_all (\<lambda>d. ev_kind d = TOOL_CALL_DELTA) ds;
     list_all (\<lambda>x. tool_id x = Some i) (s # ds) \<rbrakk> \<Longrightarrow> tool_word (s # ds)"
| tool_block: "\<lbrakk> ev_kind s = TOOL_CALL_START; list_all (\<lambda>d. ev_kind d = TOOL_CALL_DELTA) ds; ev_kind e = TOOL_CALL_END;
     list_all (\<lambda>x. tool_id x = Some i) (s # ds @ [e]); tool_word rest \<rbrakk> \<Longrightarrow> tool_word (s # ds @ e # rest)"
| tool_finish: "\<lbrakk> ev_kind f = FINISH; tool_word rest \<rbrakk> \<Longrightarrow> tool_word (f # rest)"

section \<open>The automata\<close>

text \<open>The state of a track: no block, or a block with the id known so far.\<close>

fun text_run :: "string option option \<Rightarrow> stream_event list \<Rightarrow> bool" where
  "text_run st [] = True"
| "text_run None (e # es) =
     (if ev_kind e = TEXT_START then text_run (Some (ev_text_id e)) es
      else ev_kind e = FINISH \<and> text_run None es)"
| "text_run (Some i) (e # es) =
     (if ev_kind e = TEXT_DELTA
      then (i = None \<or> text_agrees i e) \<and> text_run (Some (if i = None then ev_text_id e else i)) es
      else ev_kind e = TEXT_END \<and> (i = None \<or> text_agrees i e) \<and> text_run None es)"

fun tool_run :: "string option \<Rightarrow> stream_event list \<Rightarrow> bool" where
  "tool_run st [] = True"
| "tool_run None (e # es) =
     (if ev_kind e = TOOL_CALL_START then tool_id e \<noteq> None \<and> tool_run (tool_id e) es
      else ev_kind e = FINISH \<and> tool_run None es)"
| "tool_run (Some i) (e # es) =
     (if ev_kind e = TOOL_CALL_DELTA then tool_id e = Some i \<and> tool_run (Some i) es
      else ev_kind e = TOOL_CALL_END \<and> tool_id e = Some i \<and> tool_run None es)"

definition text_track :: "vstate \<Rightarrow> string option option" where
  "text_track s = (if va_text s then Some (va_text_id s) else None)"

definition tool_track :: "vstate \<Rightarrow> string option" where
  "tool_track s = (if va_tool s then va_tool_id s else None)"

definition vstate_ok :: "vstate \<Rightarrow> bool" where
  "vstate_ok s = (if va_tool s then va_tool_id s \<noteq> None else va_tool_id s = None)"

lemma check_event_strict:
  assumes "check_event ''strict'' s e = (bad, passed, s1)" "vstate_ok s"
  shows "bad = [] \<longleftrightarrow>
      (texty e \<longrightarrow> text_run (text_track s) [e]) \<and> (tooly e \<longrightarrow> tool_run (tool_track s) [e])"
    and "bad = [] \<Longrightarrow> passed = [e] \<and> vstate_ok s1 \<and> (va_finish s1 \<longleftrightarrow> va_finish s \<or> ev_kind e = FINISH)
      \<and> (\<forall>es. text_run (text_track s) (if texty e then e # es else es) \<longleftrightarrow> text_run (text_track s1) es)
      \<and> (\<forall>es. tool_run (tool_track s) (if tooly e then e # es else es) \<longleftrightarrow> tool_run (tool_track s1) es)"
  using assms
  by (cases "ev_kind e";
      auto simp: check_event_def check_text_delta_def check_text_end_def check_tool_delta_def check_tool_end_def Let_def
        texty_def tooly_def text_track_def tool_track_def vstate_ok_def tool_id_def text_agrees_def
        split: if_splits option.splits)+

lemma text_run_step: "text_run st (e # es) \<Longrightarrow> text_run st [e]"
  by (cases st; cases "ev_kind e = TEXT_START"; cases "ev_kind e = TEXT_DELTA") simp_all

lemma tool_run_step: "tool_run st (e # es) \<Longrightarrow> tool_run st [e]"
  by (cases st; cases "ev_kind e = TOOL_CALL_START"; cases "ev_kind e = TOOL_CALL_DELTA") simp_all

lemma validate_runs:
  fixes es :: "(stream_event \<times> 'w) list"
  assumes "vstate_ok s"
  shows "(fst (snd (validate_from ''strict'' s es None w)) = None \<longleftrightarrow>
      text_run (text_track s) (filter texty (map fst es)) \<and> tool_run (tool_track s) (filter tooly (map fst es))
      \<and> (va_finish s \<or> FINISH \<in> ev_kind ` set (map fst es)))
    \<and> (fst (snd (validate_from ''strict'' s es None w)) = None \<longrightarrow> validate_from ''strict'' s es None w = (es, None, w))"
  using assms
proof (induction es arbitrary: s)
  case (Cons x es)
  obtain e v where x: "x = (e, v)" by force
  obtain bad passed s1 where c: "check_event ''strict'' s e = (bad, passed, s1)" by (metis prod_cases3)
  have p: "filter texty (map fst (x # es)) = (if texty e then e # filter texty (map fst es) else filter texty (map fst es))"
    "filter tooly (map fst (x # es)) = (if tooly e then e # filter tooly (map fst es) else filter tooly (map fst es))"
    by (simp_all add: x)
  show ?case
  proof (cases "bad = []")
    case True
    note k = check_event_strict(2) [OF c Cons.prems True]
    have t: "text_run (text_track s) (filter texty (map fst (x # es))) = text_run (text_track s1) (filter texty (map fst es))"
      unfolding p using k by blast
    have u: "tool_run (tool_track s) (filter tooly (map fst (x # es))) = tool_run (tool_track s1) (filter tooly (map fst es))"
      unfolding p using k by blast
    have f: "va_finish s1 \<longleftrightarrow> va_finish s \<or> ev_kind e = FINISH" and o: "vstate_ok s1" "passed = [e]" using k by auto
    show ?thesis
      unfolding t u using Cons.IH [OF o(1)] by (auto simp: x c True f o split: prod.splits)
  next
    case False
    then have "\<not> (text_run (text_track s) (filter texty (map fst (x # es))) \<and> tool_run (tool_track s) (filter tooly (map fst (x # es))))"
      unfolding p using check_event_strict(1) [OF c Cons.prems] text_run_step tool_run_step by auto
    then show ?thesis by (auto simp: x c False protocol_error_def)
  qed
qed simp

section \<open>The automata accept the languages\<close>

lemma text_agrees_known: "text_agrees (Some a) e \<Longrightarrow> ev_text_id e = None \<or> ev_text_id e = Some a"
  by (auto simp: text_agrees_def)

text \<open>In an open block with known id \<open>j\<close>: deltas that agree, then the end of the block and a word, or nothing.\<close>

definition text_tail :: "string option \<Rightarrow> stream_event list \<Rightarrow> bool" where
  "text_tail j es \<longleftrightarrow>
     (\<exists>ds i. list_all (\<lambda>d. ev_kind d = TEXT_DELTA) ds \<and> (j = None \<or> j = i) \<and> list_all (text_agrees i) ds
        \<and> (es = ds \<or> (\<exists>e rest. es = ds @ e # rest \<and> ev_kind e = TEXT_END \<and> text_agrees i e \<and> text_word rest)))"

lemma text_tail_delta:
  assumes "ev_kind e = TEXT_DELTA" "j = None \<or> text_agrees j e" "text_tail (if j = None then ev_text_id e else j) es"
  shows "text_tail j (e # es)"
proof -
  obtain ds i where d: "list_all (\<lambda>d. ev_kind d = TEXT_DELTA) ds" "(if j = None then ev_text_id e else j) = None \<or> (if j = None then ev_text_id e else j) = i"
      "list_all (text_agrees i) ds"
      "es = ds \<or> (\<exists>x rest. es = ds @ x # rest \<and> ev_kind x = TEXT_END \<and> text_agrees i x \<and> text_word rest)"
    using assms(3) unfolding text_tail_def by blast
  have "text_agrees i e" "j = None \<or> j = i" using assms(2) d(2) by (auto simp: text_agrees_def split: if_splits)
  then show ?thesis
    unfolding text_tail_def using assms(1) d by (intro exI [of _ "e # ds"] exI [of _ i]) auto
qed

lemma text_run_sound: "(text_run None es \<longrightarrow> text_word es) \<and> (\<forall>j. text_run (Some j) es \<longrightarrow> text_tail j es)"
proof (induction es)
  case Nil
  show ?case by (auto simp: text_empty text_tail_def intro: exI [of _ "[]"])
next
  case (Cons e es)
  have "text_word (e # es)" if r: "text_run None (e # es)"
  proof (cases "ev_kind e = TEXT_START")
    case True
    then have "text_tail (ev_text_id e) es" using r Cons.IH by simp
    then obtain ds i where d: "list_all (\<lambda>d. ev_kind d = TEXT_DELTA) ds" "ev_text_id e = None \<or> ev_text_id e = i"
        "list_all (text_agrees i) ds"
        "es = ds \<or> (\<exists>x rest. es = ds @ x # rest \<and> ev_kind x = TEXT_END \<and> text_agrees i x \<and> text_word rest)"
      unfolding text_tail_def by blast
    then show ?thesis
      using True text_open [of e ds i] text_block [of e ds _ i] by (auto simp: text_agrees_def)
  next
    case False
    then show ?thesis using r Cons.IH by (auto intro: text_finish)
  qed
  moreover have "text_tail j (e # es)" if r: "text_run (Some j) (e # es)" for j
  proof (cases "ev_kind e = TEXT_DELTA")
    case True
    then show ?thesis using r Cons.IH by (auto intro: text_tail_delta)
  next
    case False
    then have "ev_kind e = TEXT_END" "text_word es" "j = None \<or> text_agrees j e" using r Cons.IH by auto
    then show ?thesis
      unfolding text_tail_def
      by (intro exI [of _ "[]"] exI [of _ "if j = None then ev_text_id e else j"]) (auto simp: text_agrees_def)
  qed
  ultimately show ?case by blast
qed

lemma text_run_deltas:
  assumes "list_all (\<lambda>d. ev_kind d = TEXT_DELTA) ds" "list_all (text_agrees i) ds" "j = None \<or> j = i"
  shows "\<exists>k. (k = None \<or> k = i) \<and> (\<forall>rest. text_run (Some j) (ds @ rest) = text_run (Some k) rest)"
  using assms
proof (induction ds arbitrary: j)
  case (Cons d ds)
  let ?j = "if j = None then ev_text_id d else j"
  have "?j = None \<or> ?j = i" using Cons.prems by (auto simp: text_agrees_def)
  then obtain k where "k = None \<or> k = i" "\<forall>rest. text_run (Some ?j) (ds @ rest) = text_run (Some k) rest"
    using Cons.IH [of ?j] Cons.prems by auto
  then show ?case using Cons.prems by (intro exI [of _ k]) (auto simp: text_agrees_def)
qed auto

lemma text_run_complete: "text_word es \<Longrightarrow> text_run None es"
proof (induction rule: text_word.induct)
  case (text_open s ds i)
  obtain k where "\<forall>rest. text_run (Some (ev_text_id s)) (ds @ rest) = text_run (Some k) rest"
    using text_run_deltas [of ds i "ev_text_id s"] text_open by (auto simp: text_agrees_def)
  from this [rule_format, of "[]"] show ?case using text_open by simp
next
  case (text_block s ds e i rest)
  obtain k where "k = None \<or> k = i" "\<forall>r. text_run (Some (ev_text_id s)) (ds @ r) = text_run (Some k) r"
    using text_run_deltas [of ds i "ev_text_id s"] text_block by (auto simp: text_agrees_def)
  then show ?case using text_block by auto
qed simp_all

lemma text_run_iff: "text_run None es \<longleftrightarrow> text_word es"
  using text_run_sound text_run_complete by blast

text \<open>The same for tool calls, where the id is known from the start.\<close>

definition tool_tail :: "string \<Rightarrow> stream_event list \<Rightarrow> bool" where
  "tool_tail i es \<longleftrightarrow>
     (\<exists>ds. list_all (\<lambda>d. ev_kind d = TOOL_CALL_DELTA \<and> tool_id d = Some i) ds
        \<and> (es = ds \<or> (\<exists>e rest. es = ds @ e # rest \<and> ev_kind e = TOOL_CALL_END \<and> tool_id e = Some i \<and> tool_word rest)))"

lemma tool_run_deltas:
  "list_all (\<lambda>d. ev_kind d = TOOL_CALL_DELTA \<and> tool_id d = Some i) ds \<Longrightarrow> tool_run (Some i) (ds @ rest) = tool_run (Some i) rest"
  by (induction ds) simp_all

lemma tool_run_sound: "(tool_run None es \<longrightarrow> tool_word es) \<and> (\<forall>i. tool_run (Some i) es \<longrightarrow> tool_tail i es)"
proof (induction es)
  case Nil
  show ?case by (auto simp: tool_empty tool_tail_def)
next
  case (Cons e es)
  have "tool_word (e # es)" if r: "tool_run None (e # es)"
  proof (cases "ev_kind e = TOOL_CALL_START")
    case True
    then obtain i where i: "tool_id e = Some i" "tool_tail i es" using r Cons.IH by auto
    then obtain ds where "list_all (\<lambda>d. ev_kind d = TOOL_CALL_DELTA \<and> tool_id d = Some i) ds"
        "es = ds \<or> (\<exists>x rest. es = ds @ x # rest \<and> ev_kind x = TOOL_CALL_END \<and> tool_id x = Some i \<and> tool_word rest)"
      unfolding tool_tail_def by blast
    then show ?thesis
      using True i(1) tool_open [of e ds i] tool_block [of e ds _ i] by (auto simp: list_all_iff)
  next
    case False
    then show ?thesis using r Cons.IH by (auto intro: tool_finish)
  qed
  moreover have "tool_tail i (e # es)" if r: "tool_run (Some i) (e # es)" for i
  proof (cases "ev_kind e = TOOL_CALL_DELTA")
    case True
    then obtain ds where "tool_id e = Some i" "list_all (\<lambda>d. ev_kind d = TOOL_CALL_DELTA \<and> tool_id d = Some i) ds"
        "es = ds \<or> (\<exists>x rest. es = ds @ x # rest \<and> ev_kind x = TOOL_CALL_END \<and> tool_id x = Some i \<and> tool_word rest)"
      using r Cons.IH unfolding tool_tail_def by auto
    then show ?thesis
      unfolding tool_tail_def using True by (intro exI [of _ "e # ds"]) auto
  next
    case False
    then show ?thesis
      using r Cons.IH unfolding tool_tail_def by (intro exI [of _ "[]"]) (auto split: if_splits)
  qed
  ultimately show ?case by blast
qed

lemma tool_run_complete: "tool_word es \<Longrightarrow> tool_run None es"
proof (induction rule: tool_word.induct)
  case (tool_open s ds i)
  then show ?case using tool_run_deltas [of i ds "[]"] by (simp add: list_all_iff)
next
  case (tool_block s ds e i rest)
  then show ?case using tool_run_deltas [of i ds "e # rest"] by (simp add: list_all_iff)
qed simp_all

lemma tool_run_iff: "tool_run None es \<longleftrightarrow> tool_word es"
  using tool_run_sound tool_run_complete by blast

section \<open>Property\<close>

lemma strict_passes: "check_event ''strict'' s e = (bad, passed, s1) \<Longrightarrow> passed = [e]"
  by (auto simp: check_event_def check_text_delta_def check_text_end_def check_tool_delta_def check_tool_end_def Let_def
      split: if_splits option.splits stream_kind.splits)

lemma strict_cuts:
  "validate_from ''strict'' s es None w = (out, f, v) \<Longrightarrow> prefix out es \<and> (f = None \<or> (\<exists>m. f = Some (protocol_error m)))"
proof (induction es arbitrary: s out)
  case (Cons x es)
  obtain e u where x: "x = (e, u)" by force
  obtain bad passed s1 where c: "check_event ''strict'' s e = (bad, passed, s1)" by (metis prod_cases3)
  show ?case
    using Cons.prems Cons.IH [of s1] strict_passes [OF c] by (auto simp: x c split: if_splits prod.splits)
qed (auto split: if_splits)

definition well_formed_stream :: "stream_event list \<Rightarrow> bool" where
  "well_formed_stream es =
     (text_word (filter texty es) \<and> tool_word (filter tooly es) \<and> FINISH \<in> ev_kind ` set es)"

text \<open>C22: The strict checks of the LLM client accept exactly the well-formed streams. A stream the adapter ends
  without a fault passes, with every event as it came, if its text events and its tool events are sequences of blocks
  (a start, deltas, an end, under one id; a tool block names its call in every event; the last block may be open) with
  each FINISH between two blocks, and there is a FINISH. Any other stream is cut before some event and ends with a
  StreamProtocolError.\<close>

theorem strict_stream_exact:
  "case validate_stream ''strict'' (es, None, w) of (out, f, v) \<Rightarrow>
     (if well_formed_stream (map fst es) then out = es \<and> f = None \<and> v = w
      else prefix out es \<and> (\<exists>m. f = Some (protocol_error m)))"
proof -
  have init: "vstate_ok vstate_init" "text_track vstate_init = None" "tool_track vstate_init = None" "\<not> va_finish vstate_init"
    by (simp_all add: vstate_init_def vstate_ok_def text_track_def tool_track_def)
  obtain out f v where r: "validate_from ''strict'' vstate_init es None w = (out, f, v)" by (metis prod_cases3)
  show ?thesis
    using validate_runs [OF init(1), of es w] strict_cuts [OF r]
    by (auto simp: validate_stream_def r init well_formed_stream_def text_run_iff tool_run_iff)
qed

text \<open>The checks look at open blocks when a FINISH comes only: what follows the last one may stay open.\<close>

lemma open_after_finish:
  "well_formed_stream [bare_event FINISH, bare_event TEXT_START]"
  unfolding well_formed_stream_def text_run_iff [symmetric] tool_run_iff [symmetric] by code_simp

end
