(* ===== verification/Llm_Properties.thy ===== *)
theory Llm_Properties
  imports Stream_Language
begin

text \<open>
  Properties of the LLM client: the requests a generation sends, the steps it returns, and which HTTP failures are
  retried. Two concrete runs show what becomes of an invalid object of a stream and of the tools of the last round.
\<close>

section \<open>Answered calls\<close>

lemma execute_one_id: "execute_one ts c w = (Inr r, w1) \<Longrightarrow> tr_tool_call_id r = tl_id c"
  by (auto simp: execute_one_def tool_failed_def split: option.splits prod.splits sum.splits if_splits)

lemma execute_calls_ids: "execute_calls ts cs w = (Inr rs, w1) \<Longrightarrow> map tr_tool_call_id rs = map tl_id cs"
  by (induction cs arbitrary: w rs) (auto split: prod.splits sum.splits dest: execute_one_id)

lemma calls_of_ids [simp]: "map tl_id (calls_of r) = map td_id (message_tool_calls (lr_message r))"
  by (simp add: calls_of_def)

text \<open>An assistant message with calls, then a tool message for each call in their order.\<close>

definition answered :: "llm_message list \<Rightarrow> bool" where
  "answered ms =
     (case ms of
        [] \<Rightarrow> False
      | m # rs \<Rightarrow>
          message_tool_calls m \<noteq> []
          \<and> map (\<lambda>t. (mg_role t, mg_tool_call_id t)) rs = map (\<lambda>c. (Role_Tool, Some (td_id c))) (message_tool_calls m))"

lemma result_message_head [simp]:
  "mg_role (result_message t) = Role_Tool" "mg_tool_call_id (result_message t) = Some (tr_tool_call_id t)"
  by (simp_all add: result_message_def tool_result_message_def)

definition step_answered :: "'w generation \<Rightarrow> step_result \<Rightarrow> bool" where
  "step_answered G s =
     (map tr_tool_call_id (sr_tool_results s) =
        (if wants_tools (sr_response s) \<and> has_active_tools (ga_tools G)
         then map td_id (message_tool_calls (lr_message (sr_response s))) else []))"

lemma exchange_answered:
  assumes "step_answered G s" "wants_tools (sr_response s)" "has_active_tools (ga_tools G)"
  shows "answered (exchange_of s)"
proof -
  have "map (\<lambda>t. (Role_Tool, Some (tr_tool_call_id t))) (sr_tool_results s)
      = map (\<lambda>c. (Role_Tool, Some (td_id c))) (message_tool_calls (lr_message (sr_response s)))"
    using arg_cong [of _ _ "map (\<lambda>i. (Role_Tool, Some i))", OF assms(1) [unfolded step_answered_def]] assms(2,3)
    by (simp add: comp_def)
  then show ?thesis using assms(2) by (auto simp: answered_def exchange_of_def wants_tools_def calls_of_def comp_def)
qed

lemma round_step:
  assumes "generate_round E G C k conv steps w = (Inr (s, goes), w1)"
  shows "step_answered G s" "sr_usage s = lr_usage (sr_response s)" "sr_text s = message_text (lr_message (sr_response s))"
    and "goes \<Longrightarrow> wants_tools (sr_response s) \<and> has_active_tools (ga_tools G) \<and> k < ga_max_tool_rounds G"
    and "\<not> goes \<Longrightarrow> \<not> wants_tools (sr_response s) \<or> \<not> has_active_tools (ga_tools G) \<or> k \<ge> ga_max_tool_rounds G
           \<or> ga_stop_when G \<noteq> None"
  using assms
  by (auto simp: generate_round_def Let_def step_of_def step_answered_def execute_tools_def dest!: execute_calls_ids
      split: if_splits prod.splits sum.splits option.splits)

section \<open>Steps\<close>

text \<open>What the steps of the rounds from \<open>k\<close> on are.\<close>

definition steps_from :: "'w generation \<Rightarrow> int \<Rightarrow> step_result list \<Rightarrow> bool" where
  "steps_from G k new =
     (new \<noteq> [] \<and> int (length new) \<le> ga_max_tool_rounds G + 1 - k
      \<and> list_all (step_answered G) new \<and> list_all (\<lambda>s. wants_tools (sr_response s)) (butlast new)
      \<and> list_all (\<lambda>s. sr_usage s = lr_usage (sr_response s) \<and> sr_text s = message_text (lr_message (sr_response s))) new
      \<and> (\<not> wants_tools (sr_response (last new)) \<or> \<not> has_active_tools (ga_tools G)
         \<or> int (length new) = ga_max_tool_rounds G + 1 - k \<or> ga_stop_when G \<noteq> None))"

lemma rounds_steps:
  assumes "generate_rounds E G C k conv steps w = (Inr ss, w1)" "k \<le> ga_max_tool_rounds G"
  shows "\<exists>new. ss = steps @ new \<and> steps_from G k new"
  using assms
proof (induction E G C k conv steps w rule: generate_rounds.induct)
  case (1 E G C k conv steps w)
  obtain x v where r: "generate_round E G C k conv steps w = (x, v)" by force
  from "1.prems" r obtain s goes where x: "x = Inr (s, goes)"
    by (subst (asm) generate_rounds.simps) (auto split: sum.splits)
  note k = round_step [OF r [unfolded x]]
  show ?case
  proof (cases goes)
    case True
    then have x: "x = Inr (s, True)" using x by simp
    have "k < ga_max_tool_rounds G" using k(4) True by simp
    moreover have "generate_rounds E G C (k + 1) (conv @ exchange_of s) (steps @ [s]) v = (Inr ss, w1)"
      using "1.prems" r x by (subst (asm) generate_rounds.simps) simp
    ultimately obtain new where "ss = (steps @ [s]) @ new" "steps_from G (k + 1) new"
      using "1.IH" [OF _ r [symmetric] x refl refl] "1.prems"(2) by fastforce
    then show ?thesis using k True by (intro exI [of _ "s # new"]) (auto simp: steps_from_def)
  next
    case False
    then have "ss = steps @ [s]" using "1.prems" r x by (subst (asm) generate_rounds.simps) simp
    then show ?thesis using k False "1.prems"(2) by (intro exI [of _ "[s]"]) (auto simp: steps_from_def)
  qed
qed

section \<open>The sum of the usage\<close>

text \<open>Counts that may be absent: unknown if all are, and otherwise the sum of those known.\<close>

definition known_sum :: "int option list \<Rightarrow> int option" where
  "known_sum xs = (if list_all (\<lambda>x. x = None) xs then None else Some (\<Sum>x \<leftarrow> xs. case x of None \<Rightarrow> 0 | Some v \<Rightarrow> v))"

lemma known_sum_add: "add_optional x (known_sum xs) = known_sum (x # xs)"
proof -
  have "(\<Sum>x \<leftarrow> xs. case x of None \<Rightarrow> 0 | Some v \<Rightarrow> v) = 0" if "list_all (\<lambda>x. x = None) xs" for xs :: "int option list"
    using that by (induction xs) auto
  then show ?thesis by (auto simp: add_optional_def known_sum_def split: option.splits)
qed

lemma add_optional_assoc: "add_optional (add_optional x y) z = add_optional x (add_optional y z)"
  by (auto simp: add_optional_def)

lemma sum_optional:
  assumes "\<And>a b. f (add_usage a b) = add_optional (f a) (f b)"
  shows "f (foldl (\<lambda>u s. add_usage u (sr_usage s)) u ss) = known_sum (f u # map (\<lambda>s. f (sr_usage s)) ss)"
proof (induction ss arbitrary: u)
  case Nil
  then show ?case by (auto simp: known_sum_def split: option.splits)
next
  case (Cons s ss)
  then show ?case by (simp add: assms add_optional_assoc known_sum_add flip: known_sum_add)
qed

lemma sum_usage:
  "us_input (foldl (\<lambda>u s. add_usage u (sr_usage s)) u ss) = us_input u + (\<Sum>s \<leftarrow> ss. us_input (sr_usage s))"
  "us_output (foldl (\<lambda>u s. add_usage u (sr_usage s)) u ss) = us_output u + (\<Sum>s \<leftarrow> ss. us_output (sr_usage s))"
  "us_total (foldl (\<lambda>u s. add_usage u (sr_usage s)) u ss) = us_total u + (\<Sum>s \<leftarrow> ss. us_total (sr_usage s))"
  "us_cost (foldl (\<lambda>u s. add_usage u (sr_usage s)) u ss) =
     (if us_cost u = None \<or> list_ex (\<lambda>s. us_cost (sr_usage s) = None) ss then None
      else Some (the (us_cost u) + (\<Sum>s \<leftarrow> ss. the (us_cost (sr_usage s)))))"
  by (induction ss arbitrary: u) (auto simp: add_usage_def add_cost_def split: option.splits)

lemma generate_runs:
  assumes "generate E G w = (Inr r, w1)"
  shows "\<exists>C ms v ss. resolved_client E G = Inr C \<and> build_messages G = Inr ms
     \<and> generate_rounds E G C 0 ms [] v = (Inr ss, w1) \<and> aggregate ss = Inr r"
  using assms
  by (auto simp: generate_def with_abort_and_timeout_def run_generate_def split: if_splits sum.splits prod.splits
      option.splits interruption.splits)

text \<open>C23: What a generation returns. Its steps number at least one and at most the tool rounds plus one; in every
  step but the last the model asked for tools; where tools were run, there is one result per call, under its id and
  in its order; the loop did not stop early (it stopped because the model asked for no tool, no tool can be run, the
  rounds were used up, or by the caller's condition). The text is the last response's; input, output and total
  tokens are the sums over all steps; reasoning and cache tokens are the sums of what the steps report, and unknown if
  none does; and the cost is known only if that of every step is, and is their sum.\<close>

theorem generate_steps:
  assumes "generate E G w = (Inr r, w1)"
  shows "steps_from G 0 (gr_steps r)
     \<and> gr_text r = message_text (lr_message (sr_response (last (gr_steps r)))) \<and> gr_response r = sr_response (last (gr_steps r))
     \<and> us_input (gr_total_usage r) = (\<Sum>s \<leftarrow> gr_steps r. us_input (lr_usage (sr_response s)))
     \<and> us_output (gr_total_usage r) = (\<Sum>s \<leftarrow> gr_steps r. us_output (lr_usage (sr_response s)))
     \<and> us_total (gr_total_usage r) = (\<Sum>s \<leftarrow> gr_steps r. us_total (lr_usage (sr_response s)))
     \<and> us_reasoning (gr_total_usage r) = known_sum (map (\<lambda>s. us_reasoning (lr_usage (sr_response s))) (gr_steps r))
     \<and> us_cache_read (gr_total_usage r) = known_sum (map (\<lambda>s. us_cache_read (lr_usage (sr_response s))) (gr_steps r))
     \<and> us_cache_write (gr_total_usage r) = known_sum (map (\<lambda>s. us_cache_write (lr_usage (sr_response s))) (gr_steps r))
     \<and> us_cost (gr_total_usage r) =
         (if list_ex (\<lambda>s. us_cost (lr_usage (sr_response s)) = None) (gr_steps r) then None
          else Some (\<Sum>s \<leftarrow> gr_steps r. the (us_cost (lr_usage (sr_response s)))))"
proof -
  obtain C ms v ss where g: "generate_rounds E G C 0 ms [] v = (Inr ss, w1)" "aggregate ss = Inr r"
    using generate_runs [OF assms] by blast
  then obtain s ss' where ss: "ss = s # ss'" by (auto simp: aggregate_def split: list.splits)
  have "0 \<le> ga_max_tool_rounds G"
    using g(1) ss by (subst (asm) generate_rounds.simps) (auto split: if_splits)
  then have new: "steps_from G 0 ss" using rounds_steps [OF g(1)] by auto
  have u: "map (\<lambda>s. f (lr_usage (sr_response s))) ss = map (\<lambda>s. f (sr_usage s)) ss" for f :: "usage \<Rightarrow> 'b"
    using new by (auto simp: steps_from_def list_all_iff)
  have c: "list_ex (\<lambda>s. us_cost (lr_usage (sr_response s)) = None) ss = list_ex (\<lambda>s. us_cost (sr_usage s) = None) ss"
    using new by (auto simp: steps_from_def list_all_iff list_ex_iff)
  have "gr_steps r = ss" "gr_text r = sr_text (last ss)" "gr_response r = sr_response (last ss)"
    "gr_total_usage r = foldl (\<lambda>u s. add_usage u (sr_usage s)) (sr_usage s) ss'"
    using g(2) by (auto simp: aggregate_def ss Let_def)
  moreover have "sr_text (last ss) = message_text (lr_message (sr_response (last ss)))"
    using new by (auto simp: steps_from_def list_all_iff)
  moreover have "us_input (gr_total_usage r) = (\<Sum>s \<leftarrow> ss. us_input (sr_usage s))"
    "us_output (gr_total_usage r) = (\<Sum>s \<leftarrow> ss. us_output (sr_usage s))"
    "us_total (gr_total_usage r) = (\<Sum>s \<leftarrow> ss. us_total (sr_usage s))"
    "us_cost (gr_total_usage r) = (if list_ex (\<lambda>s. us_cost (sr_usage s) = None) ss then None
      else Some (\<Sum>s \<leftarrow> ss. the (us_cost (sr_usage s))))"
    unfolding calculation(4) ss by (simp_all add: sum_usage)
  moreover have "us_reasoning (gr_total_usage r) = known_sum (map (\<lambda>s. us_reasoning (sr_usage s)) ss)"
    "us_cache_read (gr_total_usage r) = known_sum (map (\<lambda>s. us_cache_read (sr_usage s)) ss)"
    "us_cache_write (gr_total_usage r) = known_sum (map (\<lambda>s. us_cache_write (sr_usage s)) ss)"
    unfolding calculation(4) ss by (subst sum_optional; simp add: add_usage_def)+
  ultimately show ?thesis
    using new by (simp only: c u [of us_total] u [of us_reasoning] u [of us_cache_read] u [of us_cache_write] u [of us_input] u [of us_output] u [of "\<lambda>x. the (us_cost x)"] simp_thms)
qed

section \<open>The requests\<close>

text \<open>\<open>sent\<close> reads the requests the adapters have been given out of a world: an adapter adds its request, and nothing
  else changes them. No middleware stands in between.\<close>

definition records :: "('w \<Rightarrow> llm_request list) \<Rightarrow> 'w genv \<Rightarrow> 'w generation \<Rightarrow> 'w client \<Rightarrow> bool" where
  "records sent E G C \<longleftrightarrow>
     cl_middleware C = []
     \<and> (\<forall>name a rq v. dict_get (cl_providers C) name = Some a \<longrightarrow> sent (snd (ad_complete a rq v)) = sent v @ [rq])
     \<and> (\<forall>v. sent (snd (rh_uniform (ge_rhythm E) v)) = sent v)
     \<and> (\<forall>d v. sent (snd (rh_sleep (ge_rhythm E) d v)) = sent v)
     \<and> (\<forall>ts t f d v. ga_tools G = Some ts \<longrightarrow> t \<in> set ts \<longrightarrow> tn_execute t = Some f \<longrightarrow> sent (snd (f d v)) = sent v)
     \<and> (\<forall>stop ss v. ga_stop_when G = Some stop \<longrightarrow> sent (snd (stop ss v)) = sent v)"

lemma complete_sent:
  assumes "records sent E G C"
  shows "\<exists>n \<le> 1. sent (snd (complete C rq w)) = sent w @ replicate n rq"
proof (cases "resolve_adapter C rq")
  case (Inl e)
  then show ?thesis by (intro exI [of _ 0]) (simp add: complete_def)
next
  case (Inr a)
  then obtain name where "dict_get (cl_providers C) name = Some a"
    by (auto simp: resolve_adapter_def split: option.splits)
  then have "sent (snd (complete C rq w)) = sent w @ [rq]"
    using assms by (auto simp: complete_def Inr records_def split: prod.splits sum.splits) (metis snd_conv)+
  then show ?thesis by (intro exI [of _ 1]) simp
qed

lemma wait_sent:
  assumes "records sent E G C"
  shows "sent (snd (retry_wait (default_retry_policy n) (ge_rhythm E) err k w)) = sent w"
  using assms
  by (auto simp: retry_wait_def calculate_delay_def default_retry_policy_def records_def Let_def split: option.splits prod.splits sum.splits if_splits)
    (metis snd_conv)+

lemma retry_sent:
  fixes E :: "'w genv"
  assumes "records sent E G C"
  shows "\<exists>n. sent (snd (retry_from (default_retry_policy m) (ge_rhythm E) (complete C rq) k w)) = sent w @ replicate n rq
     \<and> int n \<le> max 0 (m + 1 - k)"
proof (induction "nat (m + 1 - k)" arbitrary: k w)
  case 0
  then show ?case by (subst retry_from.simps) (auto simp: default_retry_policy_def)
next
  case (Suc j)
  have le: "k \<le> m" and j: "j = nat (m + 1 - (k + 1))" using Suc.hyps(2) by auto
  obtain x w1 where c: "complete C rq w = (x, w1)" by force
  obtain i where i: "i \<le> 1" "sent w1 = sent w @ replicate i rq" using complete_sent [OF assms, of rq w] c by auto
  have last: "\<exists>n. sent w1 = sent w @ replicate n rq \<and> int n \<le> max 0 (m + 1 - k)"
    using i le by (intro exI [of _ i]) auto
  show ?case
  proof (cases "\<exists>err w2. x = Inl (Sdk err) \<and> \<not> gives_up (default_retry_policy m :: 'w retry_policy) err k
      \<and> retry_wait (default_retry_policy m) (ge_rhythm E) err k w1 = (None, w2)")
    case True
    then obtain err w2 where x: "x = Inl (Sdk err)" "\<not> gives_up (default_retry_policy m :: 'w retry_policy) err k"
      "retry_wait (default_retry_policy m) (ge_rhythm E) err k w1 = (None, w2)" by blast
    have "sent w2 = sent w1" using wait_sent [OF assms, of m err k w1] x(3) by simp
    moreover obtain n where "sent (snd (retry_from (default_retry_policy m) (ge_rhythm E) (complete C rq) (k + 1) w2))
        = sent w2 @ replicate n rq" "int n \<le> max 0 (m + 1 - (k + 1))"
      using Suc.hyps(1) [OF j] by blast
    moreover have "retry_from (default_retry_policy m) (ge_rhythm E) (complete C rq) k w
        = retry_from (default_retry_policy m) (ge_rhythm E) (complete C rq) (k + 1) w2"
      using le c x by (subst retry_from.simps) (simp add: default_retry_policy_def)
    ultimately show ?thesis
      using i le by (intro exI [of _ "i + n"]) (auto simp: replicate_add)
  next
    case False
    have "sent (snd (retry_from (default_retry_policy m) (ge_rhythm E) (complete C rq) k w)) = sent w1"
      using False le c wait_sent [OF assms, of m _ k w1]
      by (subst retry_from.simps) (auto simp: default_retry_policy_def split: sum.splits fault.splits prod.splits option.splits; metis snd_conv)
    then show ?thesis using last by simp
  qed
qed

lemma tool_map_set: "(n, t) \<in> set (tool_map ts) \<Longrightarrow> t \<in> set ts"
proof -
  have "(n, t) \<in> set (foldl (\<lambda>d t. dict_set (tn_name t) t d) d us) \<Longrightarrow> t \<in> snd ` set d \<union> set us" for d us
  proof (induction us arbitrary: d)
    case (Cons u us)
    have "snd ` set (dict_set k u d) \<subseteq> insert u (snd ` set d)" for k by (induction d) auto
    then show ?case using Cons.IH [of "dict_set (tn_name u) u d"] Cons.prems by fastforce
  qed force
  from this [of "[]" "filter (\<lambda>t. tn_execute t \<noteq> None) ts"] show "(n, t) \<in> set (tool_map ts) \<Longrightarrow> t \<in> set ts"
    by (auto simp: tool_map_def)
qed

lemma tools_sent:
  assumes "records sent E G C"
  shows "sent (snd (execute_tools (ga_tools G) cs w)) = sent w"
proof (cases "ga_tools G")
  case None
  have "snd (execute_calls [] cs w) = w"
    by (induction cs) (auto simp: execute_one_def split: prod.splits sum.splits)
  then show ?thesis by (simp add: execute_tools_def tool_map_def None)
next
  case (Some ts)
  have one: "sent (snd (execute_one (tool_map ts) c v)) = sent v" for c v
  proof (cases "\<exists>t f. dict_get (tool_map ts) (tl_name c) = Some t \<and> tn_execute t = Some f")
    case True
    then obtain t f where t: "dict_get (tool_map ts) (tl_name c) = Some t" "tn_execute t = Some f" by blast
    then have "t \<in> set ts" using tool_map_set map_of_SomeD by fastforce
    then have "sent (snd (f d v)) = sent v" for d using assms Some t(2) by (auto simp: records_def)
    then show ?thesis
      by (auto simp: execute_one_def t split: prod.splits sum.splits) (metis snd_conv)+
  qed (auto simp: execute_one_def split: option.splits)
  have "sent (snd (execute_calls (tool_map ts) cs v)) = sent v" for v
    by (induction cs arbitrary: v) (auto split: prod.splits sum.splits, (metis one snd_conv)+)
  then show ?thesis by (simp add: execute_tools_def Some)
qed

lemma round_sent:
  assumes "records sent E G C" "\<forall>s v. ge_bounded E s v = None"
  shows "\<exists>n. sent (snd (generate_round E G C k conv steps w)) = sent w @ replicate n (step_request G conv)
     \<and> int n \<le> max 0 (ga_max_retries G + 1)"
proof (cases "is_aborted E G w")
  case True
  then show ?thesis by (intro exI [of _ 0]) (simp add: generate_round_def)
next
  case False
  obtain x w1 where c: "step_call E G C conv w = (x, w1)" by force
  obtain n where n: "sent w1 = sent w @ replicate n (step_request G conv)" "int n \<le> max 0 (ga_max_retries G + 1)"
    using retry_sent [OF assms(1), of "ga_max_retries G" "step_request G conv" 0 w] c assms(2)
    by (auto simp: step_call_def retry_call_def split: option.splits)
  have "sent (snd (generate_round E G C k conv steps w)) = sent w1"
  proof (cases x)
    case (Inr r)
    obtain y w2 where y: "(if wants_tools r \<and> has_active_tools (ga_tools G) then execute_tools (ga_tools G) (calls_of r) w1
        else (Inr [], w1)) = (y, w2)" by force
    then have "sent w2 = sent w1" using tools_sent [OF assms(1), of "calls_of r" w1] by (auto split: if_splits)
    then show ?thesis
      using assms(1)
      by (auto simp: generate_round_def False c Inr y Let_def records_def split: sum.splits option.splits prod.splits)
        (metis snd_conv)+
  qed (simp add: generate_round_def False c)
  then show ?thesis using n by metis
qed

text \<open>A request that continues a conversation with at most \<open>n\<close> answered exchanges.\<close>

definition continues :: "llm_message list \<Rightarrow> int \<Rightarrow> llm_request \<Rightarrow> bool" where
  "continues ms n rq \<longleftrightarrow> (\<exists>xs. lq_messages rq = ms @ concat xs \<and> list_all answered xs \<and> int (length xs) \<le> n)"

lemma continues_now: "0 \<le> n \<Longrightarrow> continues conv n (step_request G conv)"
  unfolding continues_def by (intro exI [of _ "[]"]) (simp add: step_request_def)

lemma continues_later:
  assumes "continues (conv @ x) (n - 1) rq" "answered x"
  shows "continues conv n rq"
proof -
  obtain xs where "lq_messages rq = (conv @ x) @ concat xs" "list_all answered xs" "int (length xs) \<le> n - 1"
    using assms(1) unfolding continues_def by blast
  then show ?thesis using assms(2) unfolding continues_def by (intro exI [of _ "x # xs"]) simp
qed

lemma rounds_sent:
  assumes "records sent E G C" "\<forall>s v. ge_bounded E s v = None"
  shows "\<exists>rqs. sent (snd (generate_rounds E G C k conv steps w)) = sent w @ rqs
     \<and> list_all (continues conv (ga_max_tool_rounds G - k)) rqs
     \<and> int (length rqs) \<le> max 0 (ga_max_tool_rounds G + 1 - k) * max 0 (ga_max_retries G + 1)"
proof (induction "nat (ga_max_tool_rounds G + 1 - k)" arbitrary: k conv steps w)
  case 0
  then show ?case by (subst generate_rounds.simps) (auto intro: exI [of _ "[]"])
next
  case (Suc j)
  let ?b = "max 0 (ga_max_retries G + 1)"
  have le: "k \<le> ga_max_tool_rounds G" and j: "j = nat (ga_max_tool_rounds G + 1 - (k + 1))" using Suc.hyps(2) by auto
  obtain x w1 where r: "generate_round E G C k conv steps w = (x, w1)" by force
  obtain n where n: "sent w1 = sent w @ replicate n (step_request G conv)" "int n \<le> ?b"
    using round_sent [OF assms, of k conv steps w] r by auto
  have now: "list_all (continues conv (ga_max_tool_rounds G - k)) (replicate n (step_request G conv))"
    using continues_now [of "ga_max_tool_rounds G - k" conv G] le by (simp add: list_all_iff)
  show ?case
  proof (cases "\<exists>s. x = Inr (s, True)")
    case True
    then obtain s where x: "x = Inr (s, True)" by blast
    note st = round_step [OF r [unfolded x]]
    obtain rqs where h: "sent (snd (generate_rounds E G C (k + 1) (conv @ exchange_of s) (steps @ [s]) w1)) = sent w1 @ rqs"
      "list_all (continues (conv @ exchange_of s) (ga_max_tool_rounds G - (k + 1))) rqs"
      "int (length rqs) \<le> max 0 (ga_max_tool_rounds G + 1 - (k + 1)) * ?b"
      using Suc.hyps(1) [OF j] by blast
    have "generate_rounds E G C k conv steps w = generate_rounds E G C (k + 1) (conv @ exchange_of s) (steps @ [s]) w1"
      using le r x by (subst generate_rounds.simps) simp
    moreover have "list_all (continues conv (ga_max_tool_rounds G - k)) rqs"
      using h(2) continues_later [OF _ exchange_answered [OF st(1)]] st(4) by (auto simp: list_all_iff algebra_simps)
    moreover have "int n + int (length rqs) \<le> max 0 (ga_max_tool_rounds G + 1 - k) * ?b"
    proof -
      have "max 0 (ga_max_tool_rounds G + 1 - k) = max 0 (ga_max_tool_rounds G + 1 - (k + 1)) + 1" using le by simp
      then show ?thesis using h(3) n(2) by (simp add: distrib_right)
    qed
    ultimately show ?thesis
      using h(1) n(1) now by (intro exI [of _ "replicate n (step_request G conv) @ rqs"]) auto
  next
    case False
    have "snd (generate_rounds E G C k conv steps w) = w1"
      using le r False by (subst generate_rounds.simps) (auto split: sum.splits prod.splits bool.splits)
    moreover have "int n \<le> max 0 (ga_max_tool_rounds G + 1 - k) * ?b"
    proof -
      have "1 * ?b \<le> max 0 (ga_max_tool_rounds G + 1 - k) * ?b" using le by (intro mult_right_mono) auto
      then show ?thesis using n(2) by simp
    qed
    ultimately show ?thesis using n(1) now by (intro exI [of _ "replicate n (step_request G conv)"]) auto
  qed
qed

text \<open>C20: What a generation sends. Every request to an adapter is the given conversation followed by completed
  exchanges only: an assistant message with its tool calls, then one tool message per call with the ids of the calls
  in their order; and there are at most (tool rounds + 1) times (retries + 1) requests. This holds whether the
  generation succeeds or fails, for a client without middleware and a call that no time limit or abort cuts off.\<close>

theorem generate_requests:
  assumes "records sent E G C" "resolved_client E G = Inr C" "build_messages G = Inr ms"
    and "\<forall>s v. ge_bounded E s v = None" "\<forall>t v. ge_interrupt E t v = None"
  shows "\<exists>rqs. sent (snd (generate E G w)) = sent w @ rqs \<and> list_all (continues ms (ga_max_tool_rounds G)) rqs
     \<and> int (length rqs) \<le> max 0 (ga_max_tool_rounds G + 1) * max 0 (ga_max_retries G + 1)"
proof -
  have run: "snd (run_generate E G C ms w) = snd (generate_rounds E G C 0 ms [] w)"
    by (auto simp: run_generate_def split: prod.splits sum.splits)
  have "snd (generate E G w) = w \<or> snd (generate E G w) = snd (run_generate E G C ms w)"
    using assms(2,3,5) by (auto simp: generate_def with_abort_and_timeout_def)
  then show ?thesis
  proof
    assume "snd (generate E G w) = w"
    then show ?thesis by (intro exI [of _ "[]"]) simp
  next
    assume "snd (generate E G w) = snd (run_generate E G C ms w)"
    then show ?thesis using rounds_sent [OF assms(1,4), of 0 ms "[]" w] run by simp
  qed
qed

section \<open>A scripted adapter\<close>

text \<open>The world holds the requests received and the answers to come.\<close>

type_synonym script = "llm_request list \<times> (fault + llm_response) list"

definition script_adapter :: "stream_event list \<Rightarrow> script adapter" where
  "script_adapter events =
     \<lparr>ad_complete = (\<lambda>rq (received, answers).
        case answers of
          [] \<Rightarrow> (Inl (Foreign stop_iteration), (received @ [rq], []))
        | x # xs \<Rightarrow> (x, (received @ [rq], xs))),
      ad_stream = (\<lambda>rq w. (map (\<lambda>e. (e, w)) events, None, w))\<rparr>"

definition script_client :: "stream_event list \<Rightarrow> script client" where
  "script_client events =
     \<lparr>cl_providers = [(''p'', script_adapter events)], cl_default_provider = Some ''p'', cl_middleware = []\<rparr>"

definition script_env :: "script genv" where
  "script_env =
     \<lparr>ge_aborted = (\<lambda>w. False), ge_bounded = (\<lambda>s w. None), ge_interrupt = (\<lambda>t w. None), ge_now = (\<lambda>w. 0),
      ge_rhythm = \<lparr>rh_uniform = (\<lambda>w. (1, w)), rh_sleep = (\<lambda>d w. (None, w))\<rparr>, ge_stored = None, ge_environ = [],
      ge_adapter = (\<lambda>n. script_adapter []), ge_loads = (\<lambda>s. if s = ''{}'' then Inr (PDict []) else Inl ''no JSON'')\<rparr>"

definition echo_tool :: "script tool" where
  "echo_tool =
     \<lparr>tn_name = ''echo'', tn_description = [], tn_parameters = PDict [], tn_execute = Some (\<lambda>args w. (Inr (PStr ''hi''), w))\<rparr>"

definition sample_generation :: "stream_event list \<Rightarrow> int \<Rightarrow> script generation" where
  "sample_generation events rounds =
     \<lparr>ga_model = ''m'', ga_prompt = Some ''go'', ga_messages = None, ga_system = None, ga_tools = Some [echo_tool],
      ga_max_tool_rounds = rounds, ga_stop_when = None, ga_params = [], ga_validation = None, ga_provider = None,
      ga_max_retries = 2, ga_timeout = None, ga_signal = False, ga_client = Some (script_client events)\<rparr>"

definition sample_response :: "content_part list \<Rightarrow> string \<Rightarrow> llm_response" where
  "sample_response parts finish =
     \<lparr>lr_id = ''r'', lr_model = ''m'', lr_provider = ''p'',
      lr_message = \<lparr>mg_role = Role_Assistant, mg_content = parts, mg_name = None, mg_tool_call_id = None\<rparr>,
      lr_finish = finish, lr_usage = no_usage\<lparr>us_input := 3\<rparr>, lr_warnings = []\<rparr>"

definition echo_call :: content_part where
  "echo_call = (bare_part Kind_Tool_Call)\<lparr>pt_tool_call := Some \<lparr>td_id = ''c1'', td_name = ''echo'', td_arguments = PDict []\<rparr>\<rparr>"

definition busy :: fault where
  "busy = Sdk (error_from_status_code 503 [] ''p'' None None)"

definition sample_world :: script where
  "sample_world = ([], [Inl busy, Inr (sample_response [echo_call] ''tool_calls''), Inr (sample_response [text_part ''done''] ''stop'')])"

lemma sample_runs:
  "(case generate script_env (sample_generation [] 1) sample_world of
      (Inr r, w) \<Rightarrow> length (gr_steps r) = 2 \<and> length (fst w) = 3 \<and> us_input (gr_total_usage r) = 6 | _ \<Rightarrow> False)"
  by code_simp

theorem generate_steps_witness:
  "case generate script_env (sample_generation [] 1) sample_world of
     (Inl f, w) \<Rightarrow> False
   | (Inr r, w) \<Rightarrow> steps_from (sample_generation [] 1) 0 (gr_steps r) \<and> gr_text r = message_text (lr_message (sr_response (last (gr_steps r))))"
  using sample_runs generate_steps [of script_env "sample_generation [] 1" sample_world]
  by (auto split: prod.splits sum.splits)

lemma script_records: "records fst script_env (sample_generation events n) (script_client events)"
  by (auto simp: records_def script_client_def script_adapter_def script_env_def sample_generation_def echo_tool_def
      split: prod.splits list.splits if_splits)

theorem generate_requests_witness:
  "\<exists>rqs. fst (snd (generate script_env (sample_generation [] 1) sample_world)) = rqs
     \<and> list_all (continues [text_message Role_User ''go''] 1) rqs \<and> int (length rqs) \<le> 6"
proof -
  have "build_messages (sample_generation [] 1) = Inr [text_message Role_User ''go'']"
    "resolved_client script_env (sample_generation [] 1) = Inr (script_client [])"
    by (simp_all add: build_messages_def system_messages_def sample_generation_def resolved_client_def)
  from generate_requests [OF script_records this(2,1), of sample_world] show ?thesis
    by (simp add: script_env_def sample_world_def sample_generation_def)
qed

section \<open>Which HTTP failures are retried\<close>

text \<open>Which HTTP failures the client retries. An answer with status 408, 429, 500, 502, 503 or 504 is retried,
  unless it says that the model was not found; so is one with a status outside the table whose message holds
  none of the phrases for quota, context length and content filter; no other answer is. The two statuses of an invalid
  request are told apart by the message and never retried.\<close>

theorem status_retry_exact:
  "sdk_retryable (error_from_status_code status message provider code retry_after) \<longleftrightarrow>
     status = 408
     \<or> (code \<noteq> Some ''model_not_found''
        \<and> (status \<in> {429, 500, 502, 503, 504}
           \<or> (status \<notin> {400, 401, 403, 404, 413, 422}
              \<and> \<not> list_ex (\<lambda>phrase. occurs_in phrase (py_lower message))
                    (quota_phrases @ context_phrases @ content_filter_phrases))))"
  by (auto simp: error_from_status_code_def status_class_def status_classes_def classify_by_message_def sdk_retryable_def
      retried_classes_def Let_def split: if_splits option.splits)

text \<open>A rate limit under a status outside the table counts as an exhausted quota and is not retried.\<close>

lemma overload_not_retried:
  "\<not> sdk_retryable (error_from_status_code 529 ''Rate limit reached'' p None None)"
  "sdk_retryable (error_from_status_code 529 ''Overloaded'' p None None)"
  by code_simp+

section \<open>Two runs\<close>

text \<open>Tools of the last round run, and the model never sees their results; a stream leaves them alone.\<close>

lemma last_round_runs_tools:
  "case generate script_env (sample_generation [] 0) ([], [Inr (sample_response [echo_call] ''tool_calls'')]) of
     (Inr r, w) \<Rightarrow> map tr_content (gr_tool_results r) = [PStr ''hi''] \<and> length (fst w) = 1 | _ \<Rightarrow> False"
  by code_simp

text \<open>An object that lacks a required field is refused by \<open>generate_object\<close> and returned by \<open>stream_object\<close>.\<close>

definition named_schema :: object_schema where
  "named_schema = \<lparr>os_type = Some ''object'', os_required = [''name''], os_schema = PDict []\<rparr>"

definition empty_object_events :: "stream_event list" where
  "empty_object_events =
     [bare_event TEXT_START, (bare_event TEXT_DELTA)\<lparr>ev_delta := Some ''{}''\<rparr>, bare_event TEXT_END, bare_event FINISH]"

lemma invalid_object_returned:
  "validate_against_schema named_schema (PDict []) \<noteq> None"
  "isl (fst (generate_object script_env named_schema (sample_generation [] 0) ([], [Inr (sample_response [text_part ''{}''] ''stop'')])))"
  "case stream_object script_env named_schema (sample_generation empty_object_events 0) ([], []) of
     Inl f \<Rightarrow> False
   | Inr s \<Rightarrow> ob_fault s = None \<and> stream_object_result script_env named_schema s = Inr (PDict [])"
  by code_simp+

end
