(* ===== verification/Stream_Agreement.thy ===== *)
theory Stream_Agreement
  imports Llm_Properties
begin

text \<open>
  \<open>stream\<close> and \<open>generate\<close> follow the same conversation: where an adapter streams what it would answer, the steps of the
  stream accumulate to the responses of the generation.
\<close>

section \<open>Adapters that stream what they answer\<close>

text \<open>A complete call answers what the events of the stream accumulate to, in the same last world; a call that fails
  is a stream that fails before its first event. No adapter sends the event that separates the steps.\<close>

definition no_separator :: "(stream_event \<times> 'w) list \<Rightarrow> bool" where
  "no_separator events = list_all (\<lambda>(e, v). ev_kind e \<noteq> Other_Event ''step_finish'') events"

definition alike :: "'w client \<Rightarrow> 'w generation \<Rightarrow> bool" where
  "alike C G \<longleftrightarrow>
     (\<forall>conv v. case complete C (step_request G conv) v of
        (Inl f, w) \<Rightarrow> client_stream C (step_request G conv) v = ([], Some f, w)
      | (Inr r, w) \<Rightarrow>
          (\<exists>first rest. client_stream C (step_request G conv) v = (first # rest, None, w)
             \<and> accumulate_all (map fst (first # rest)) = r \<and> no_separator (first # rest)))"

lemma start_alike:
  assumes "alike C G"
  shows "case complete C (step_request G conv) v of
      (Inl f, w) \<Rightarrow> start_stream C (step_request G conv) v = (Inl f, w)
    | (Inr r, w) \<Rightarrow> (\<exists>first rest u. start_stream C (step_request G conv) v = (Inr (first, rest, None, w), u)
         \<and> accumulate_all (map fst (first # rest)) = r \<and> no_separator (first # rest))"
  using assms [unfolded alike_def, THEN spec [of _ conv], THEN spec [of _ v]]
  by (fastforce simp: start_stream_def split: prod.splits sum.splits)

lemma retry_alike:
  assumes "alike C G" "retry_from P R (complete C (step_request G conv)) k v = (Inr r, w)"
  shows "\<exists>first rest u. retry_from P R (start_stream C (step_request G conv)) k v = (Inr (first, rest, None, w), u)
         \<and> accumulate_all (map fst (first # rest)) = r \<and> no_separator (first # rest)"
  using assms(2)
proof (induction "nat (rp_max_retries P + 1 - k)" arbitrary: k v)
  case 0
  then show ?case by (subst (asm) retry_from.simps) simp
next
  case (Suc j)
  have le: "k \<le> rp_max_retries P" and j: "j = nat (rp_max_retries P + 1 - (k + 1))" using Suc.hyps(2) by auto
  obtain x w1 where c: "complete C (step_request G conv) v = (x, w1)" by force
  note s = start_alike [OF assms(1), of conv v, unfolded c]
  show ?case
  proof (cases x)
    case (Inr y)
    then have "y = r" "w1 = w" using Suc.prems c le by (subst (asm) retry_from.simps, simp)+
    then show ?thesis using s Inr le by (subst retry_from.simps) auto
  next
    case (Inl f)
    then obtain err w2 where f: "f = Sdk err" "\<not> gives_up P err k" "retry_wait P R err k w1 = (None, w2)"
      and n: "retry_from P R (complete C (step_request G conv)) (k + 1) w2 = (Inr r, w)"
      using Suc.prems c le
      by (subst (asm) retry_from.simps) (auto split: fault.splits if_splits prod.splits option.splits)
    have "retry_from P R (start_stream C (step_request G conv)) k v
        = retry_from P R (start_stream C (step_request G conv)) (k + 1) w2"
      using s Inl f le by (subst retry_from.simps) simp
    then show ?thesis using Suc.hyps(1) [OF j n] by simp
  qed
qed

lemma follow_all: "\<not> ga_signal G \<Longrightarrow> follow E G es fault w = (es, fault, w)"
  by (induction E G es fault w rule: follow.induct) (simp_all add: is_aborted_def)

lemma step_alike:
  assumes "alike C G" "\<not> ga_signal G" "ga_timeout G = None" "step_call E G C conv w = (Inr r, w1)"
  shows "\<exists>events. stream_step E G C conv w = (events, None, w1) \<and> accumulate_all (map fst events) = r \<and> no_separator events"
proof -
  have "retry_from (default_retry_policy (ga_max_retries G)) (ge_rhythm E) (complete C (step_request G conv)) 0 w = (Inr r, w1)"
    using assms(3,4) by (simp add: step_call_def per_step_def resolve_timeout_def retry_call_def)
  from retry_alike [OF assms(1) this] show ?thesis
    using assms(2) by (auto simp: stream_step_def retry_call_def follow_all)
qed

section \<open>The responses of a stream\<close>

text \<open>The responses of the steps: what stands between two separators, accumulated.\<close>

fun step_responses :: "stream_event list \<Rightarrow> stream_event list \<Rightarrow> llm_response list" where
  "step_responses acc [] = [accumulate_all acc]"
| "step_responses acc (e # es) =
     (if ev_kind e = Other_Event ''step_finish'' then accumulate_all acc # step_responses [] es
      else step_responses (acc @ [e]) es)"

lemma step_responses_append:
  "no_separator events \<Longrightarrow> step_responses acc (map fst events @ es) = step_responses (acc @ map fst events) es"
  by (induction events arbitrary: acc) (auto simp: no_separator_def)

lemma rounds_alike:
  assumes "alike C G" "\<not> ga_signal G" "ga_timeout G = None" "ga_stop_when G = None"
    and "generate_rounds E G C k conv steps w = (Inr ss, w1)" "k \<le> ga_max_tool_rounds G"
  shows "\<exists>events w2 new. stream_rounds E G C k conv w = (events, None, w2) \<and> ss = steps @ new
     \<and> step_responses [] (map fst events) = map sr_response new"
  using assms(5,6)
proof (induction "nat (ga_max_tool_rounds G + 1 - k)" arbitrary: k conv steps w)
  case (Suc j)
  have j: "j = nat (ga_max_tool_rounds G + 1 - (k + 1))" using Suc.hyps(2) by auto
  have na: "\<not> is_aborted E G v" for v using assms(2) by (simp add: is_aborted_def)
  obtain x v where c: "step_call E G C conv w = (x, v)" by force
  have "\<exists>r. x = Inr r"
    using Suc.prems c na by (subst (asm) generate_rounds.simps) (auto simp: generate_round_def split: sum.splits)
  then obtain r where c: "step_call E G C conv w = (Inr r, v)" using c by blast
  obtain events where ev: "stream_step E G C conv w = (events, None, v)" "accumulate_all (map fst events) = r" "no_separator events"
    using step_alike [OF assms(1-3) c] by blast
  define goes where "goes \<longleftrightarrow> wants_tools r \<and> has_active_tools (ga_tools G) \<and> k < ga_max_tool_rounds G"
  show ?case
  proof (cases goes)
    case True
    obtain y u where t: "execute_tools (ga_tools G) (calls_of r) v = (y, u)" by force
    have y: "\<exists>results. y = Inr results"
      using Suc.prems True c t na
      by (subst (asm) generate_rounds.simps) (auto simp: generate_round_def goes_def split: sum.splits)
    then obtain results where t: "execute_tools (ga_tools G) (calls_of r) v = (Inr results, u)" using t by blast
    have round: "generate_round E G C k conv steps w = (Inr (step_of r results, True), u)"
      using True c t na assms(4) by (simp add: generate_round_def goes_def Let_def)
    have "generate_rounds E G C (k + 1) (conv @ exchange_of (step_of r results)) (steps @ [step_of r results]) u = (Inr ss, w1)"
      using Suc.prems round by (subst (asm) generate_rounds.simps) simp
    then obtain events' w2 new where h:
      "stream_rounds E G C (k + 1) (conv @ exchange_of (step_of r results)) u = (events', None, w2)"
      "ss = (steps @ [step_of r results]) @ new" "step_responses [] (map fst events') = map sr_response new"
      using Suc.hyps(1) [OF j] True goes_def by fastforce
    have "stream_rounds E G C k conv w = (events @ (step_finish r, u) # events', None, w2)"
      using True Suc.prems(2) na ev t h(1)
      by (subst stream_rounds.simps) (simp add: goes_def Let_def exchange_of_def step_of_def)
    moreover have "step_responses [] (map fst (events @ (step_finish r, u) # events')) = r # map sr_response new"
      using step_responses_append [OF ev(3), of "[]"] ev(2) h(3) by (simp add: step_finish_def bare_event_def)
    ultimately show ?thesis using h(2) by (intro exI conjI) (auto simp: step_of_def)
  next
    case False
    have "\<exists>results u. generate_round E G C k conv steps w = (Inr (step_of r results, False), u)"
      using Suc.prems False c na
      by (subst (asm) generate_rounds.simps) (auto simp: generate_round_def goes_def Let_def split: sum.splits if_splits prod.splits)
    then obtain results u where "generate_round E G C k conv steps w = (Inr (step_of r results, False), u)" by blast
    then have "ss = steps @ [step_of r results]"
      using Suc.prems by (subst (asm) generate_rounds.simps) simp
    moreover have "stream_rounds E G C k conv w = (events, None, v)"
      using False Suc.prems(2) na ev by (subst stream_rounds.simps) (auto simp: goes_def Let_def)
    moreover have "step_responses [] (map fst events) = [r]"
      using step_responses_append [OF ev(3), of "[]" "[]"] ev(2) by simp
    ultimately show ?thesis by (intro exI conjI) (auto simp: step_of_def)
  qed
qed simp

text \<open>C21: Streaming follows the same conversation. If an adapter streams what it would answer, and a generation without
  abort signal, time limit and stop condition succeeds, then the stream of the same arguments ends without a fault,
  and its events, cut at the step separators, accumulate step by step to exactly the responses of the generation.\<close>

theorem stream_agrees:
  assumes "resolved_client E G = Inr C" "alike C G" "\<not> ga_signal G" "ga_timeout G = None" "ga_stop_when G = None"
    and "generate E G w = (Inr r, w1)"
  shows "\<exists>events w2. stream E G w = Inr (events, None, w2)
     \<and> step_responses [] (map fst events) = map sr_response (gr_steps r)"
proof -
  obtain ms where ms: "build_messages G = Inr ms" "run_generate E G C ms w = (Inr r, w1)"
    using assms(1,3,4,6) by (auto simp: generate_def is_aborted_def split: if_splits sum.splits)
  then obtain ss where g: "generate_rounds E G C 0 ms [] w = (Inr ss, w1)" "aggregate ss = Inr r"
    by (auto simp: run_generate_def split: prod.splits sum.splits)
  then have "ss \<noteq> []" by (auto simp: aggregate_def)
  then have "0 \<le> ga_max_tool_rounds G"
    using g(1) by (subst (asm) generate_rounds.simps) (auto split: if_splits)
  then obtain events w2 where "stream_rounds E G C 0 ms w = (events, None, w2)"
      "step_responses [] (map fst events) = map sr_response ss"
    using rounds_alike [OF assms(2-5) g(1)] by auto
  moreover have "gr_steps r = ss" using g(2) by (auto simp: aggregate_def Let_def split: list.splits)
  ultimately show ?thesis
    using assms(1,4) ms(1) by (simp add: stream_def resolve_timeout_def)
qed

text \<open>An adapter that asks for a tool until it is given a result.\<close>

definition asking_events :: "bool \<Rightarrow> stream_event list" where
  "asking_events given_result =
     (if given_result
      then [bare_event TEXT_START, (bare_event TEXT_DELTA)\<lparr>ev_delta := Some ''done''\<rparr>, bare_event TEXT_END,
            (bare_event FINISH)\<lparr>ev_finish := Some ''stop''\<rparr>]
      else let c = \<lparr>tl_id = ''c1'', tl_name = ''echo'', tl_arguments = PDict []\<rparr> in
           [(bare_event TOOL_CALL_START)\<lparr>ev_tool_call := Some c\<rparr>, (bare_event TOOL_CALL_END)\<lparr>ev_tool_call := Some c\<rparr>,
            (bare_event FINISH)\<lparr>ev_finish := Some ''tool_calls''\<rparr>])"

definition events_for :: "llm_request \<Rightarrow> stream_event list" where
  "events_for rq = asking_events (mg_role (last (lq_messages rq)) = Role_Tool)"

definition asking_client :: "script client" where
  "asking_client =
     \<lparr>cl_providers = [(''p'', \<lparr>ad_complete = (\<lambda>rq w. (Inr (accumulate_all (events_for rq)), w)),
                              ad_stream = (\<lambda>rq w. (map (\<lambda>e. (e, w)) (events_for rq), None, w))\<rparr>)],
      cl_default_provider = Some ''p'', cl_middleware = []\<rparr>"

definition asking_generation :: "script generation" where
  "asking_generation = (sample_generation [] 3)\<lparr>ga_client := Some asking_client\<rparr>"

lemma asking_passes:
  "validate_stream ''strict'' (map (\<lambda>e. (e, w)) (asking_events b), None, w) = (map (\<lambda>e. (e, w)) (asking_events b), None, w)"
proof -
  have "well_formed_stream (map fst (map (\<lambda>e. (e, w)) (asking_events b)))"
    unfolding well_formed_stream_def text_run_iff [symmetric] tool_run_iff [symmetric] list.map_comp comp_def fst_conv
    by (cases b) (simp_all only: list.map_ident, code_simp+)
  then show ?thesis
    using strict_stream_exact [of "map (\<lambda>e. (e, w)) (asking_events b)" w] by (simp split: prod.splits)
qed

lemma asking_alike: "alike asking_client asking_generation"
proof -
  have cost: "(accumulate_all (asking_events b))\<lparr>lr_usage :=
      with_cost (lr_model (accumulate_all (asking_events b))) (lr_usage (accumulate_all (asking_events b)))\<rparr>
      = accumulate_all (asking_events b)" for b
    by (cases b) (simp_all only:, code_simp+)
  have comp: "complete asking_client rq v = (Inr (accumulate_all (events_for rq)), v)"
    if "lq_provider rq = None" for rq v
    using that cost [of "mg_role (last (lq_messages rq)) = Role_Tool"]
    by (simp add: complete_def resolve_adapter_def asking_client_def events_for_def)
  have feed: "client_stream asking_client rq v = (map (\<lambda>e. (e, v)) (events_for rq), None, v)"
    if "lq_provider rq = None" "lq_validation rq = None" for rq v
    using that asking_passes by (simp add: client_stream_def resolve_adapter_def asking_client_def validation_mode_def events_for_def)
  have "\<exists>first rest. client_stream asking_client (step_request asking_generation conv) v = (first # rest, None, v)
      \<and> accumulate_all (map fst (first # rest)) = accumulate_all (events_for (step_request asking_generation conv))
      \<and> no_separator (first # rest)" for conv v
  proof -
    let ?rq = "step_request asking_generation conv"
    obtain e es where e: "events_for ?rq = e # es"
      by (cases "events_for ?rq") (auto simp: events_for_def asking_events_def Let_def split: if_splits)
    have "no_separator (map (\<lambda>e. (e, v)) (events_for ?rq))"
      by (auto simp: no_separator_def events_for_def asking_events_def bare_event_def Let_def)
    then show ?thesis
      using feed [of ?rq v] e
      by (intro exI [of _ "(e, v)"] exI [of _ "map (\<lambda>e. (e, v)) es"])
        (simp add: step_request_def asking_generation_def sample_generation_def comp_def)
  qed
  then show ?thesis
    unfolding alike_def by (simp add: comp step_request_def asking_generation_def sample_generation_def)
qed

theorem stream_agrees_witness:
  "\<exists>r w events w2. generate script_env asking_generation ([], []) = (Inr r, w) \<and> length (gr_steps r) = 2
     \<and> stream script_env asking_generation ([], []) = Inr (events, None, w2)
     \<and> step_responses [] (map fst events) = map sr_response (gr_steps r)"
proof -
  have "case generate script_env asking_generation ([], []) of (Inr r, w) \<Rightarrow> length (gr_steps r) = 2 | _ \<Rightarrow> False"
    by code_simp
  then obtain r w where g: "generate script_env asking_generation ([], []) = (Inr r, w)" "length (gr_steps r) = 2"
    by (auto split: prod.splits sum.splits)
  have "resolved_client script_env asking_generation = Inr asking_client"
    by (simp add: resolved_client_def asking_generation_def)
  from stream_agrees [OF this asking_alike _ _ _ g(1)] show ?thesis
    using g by (auto simp: asking_generation_def sample_generation_def)
qed

text \<open>The response of a whole stream is not the last step's: the calls of the first step stay in it.\<close>

lemma whole_stream_mixes_steps:
  "case stream script_env asking_generation ([], []) of
     Inl f \<Rightarrow> False
   | Inr feed \<Rightarrow>
       (let r = stream_response feed in
        length (calls_of r) = 1 \<and> lr_finish r = ''stop'' \<and> message_text (lr_message r) = ''done'')"
  by code_simp

end
