(* ===== verification/Spec2Isabelle.thy ===== *)
theory Spec2Isabelle
  imports Component_Properties Lint_Text_Properties Handler_Properties Subgraph_Properties Agent_Properties Truncation Backend_Properties Preflight_Properties Resolver_Properties Stream_Agreement
begin

text \<open>
  A verification library for the pipeline engine of the repository, the Python package
  \<open>modules/loop-pipeline\<close> (all file names below are relative to its
  \<open>amplifier_module_loop_pipeline/\<close>).

  \<^bold>\<open>The program.\<close> A pipeline is a directed graph written in DOT. \<open>PipelineEngine.run\<close> walks it from the
  start node: it executes each node's handler under a retry ladder, records the outcome, updates a
  shared context, saves a checkpoint, and selects one outgoing edge by conditions, labels,
  suggestions and weights. At an exit node goal gates decide whether the run may succeed, or has to
  go back to a retry target. A component node fans out into branches that run on clones of the
  context and meet again at a fan-in node. An interrupted run is resumed from its checkpoint.

  \<^bold>\<open>The theories,\<close> in the order of their imports:

  \<^item> \<open>Prelude\<close>: the Python text functions the source uses (\<open>split\<close>, \<open>strip\<close>, \<open>replace\<close>, \<open>join\<close>, \<open>str\<close>),
    dictionaries as association lists in insertion order with the map interface as a locale, the
    attempt-loop interface, and the named collections of facts.
  \<^item> \<open>PyVal\<close>: the dynamic values of attributes, contexts and JSON, their truth value, text and equality.
  \<^item> \<open>Graph_Model\<close> (\<open>graph.py\<close>): nodes, edges, graphs, and the attribute proxies, whose laws are a locale
    interpreted three times.
  \<^item> \<open>Pipeline_State\<close> (\<open>outcome.py\<close>, \<open>context.py\<close>): exceptions, outcomes, the context.
  \<^item> \<open>Routing\<close> (\<open>conditions.py\<close>, \<open>edge_selection.py\<close>): the condition language and edge selection.
  \<^item> \<open>Templates\<close> (\<open>substitution.py\<close>, \<open>transforms.py\<close>, \<open>node_outputs.py\<close>): token substitution, the
    reference scan, the output table.
  \<^item> \<open>Contracts\<close> (\<open>freshness.py\<close>, \<open>must_write.py\<close>, \<open>status_file.py\<close>): the artifact contract and the
    worker-written status file.
  \<^item> \<open>Retry\<close> (\<open>retry.py\<close>): error classification, backoff, the ladder, the event type.
  \<^item> \<open>Fidelity\<close> (\<open>fidelity.py\<close>); \<open>Checkpoints\<close> (\<open>checkpoint.py\<close>); \<open>Handlers\<close> (\<open>handlers/__init__.py\<close> and the
    start, exit, conditional and fan-in handlers, the join policy).
  \<^item> \<open>Stylesheet\<close> (\<open>stylesheet.py\<close>, \<open>apply_transforms\<close>): the scanner of the model stylesheet and its cascade;
    \<open>Validation\<close> (\<open>validation.py\<close>): the structural rules, \<open>validate\<close> and \<open>validate_or_raise\<close>, with their
    consequences for the engine in \<open>Validation_Facts\<close> and their properties in \<open>Validation_Properties\<close>.
  \<^item> \<open>Dot_Lexer\<close> and \<open>Dot_Parser\<close> (\<open>dot_parser.py\<close>): from the source text to tokens, and from tokens to the
    graph; \<open>Dot_Facts\<close>: the tokenizer reads back its tokens, and the locale \<open>statement_invariant\<close> lifts what
    every statement keeps to the statement loop; \<open>Dot_Properties\<close>: their properties, up to the theorem
    that joins parser, transforms, validator and run.
  \<^item> \<open>Lint_Graph\<close> (\<open>validation.py\<close>): the two cycle searches of the linter, with their exactness in
    \<open>Lint_Graph_Facts\<close> (a search as a step relation, refined by the first pass) and \<open>Lint_Cycle_Facts\<close>;
    \<open>Lint_Rules\<close>: the rules TOPO-001 to TOPO-010, with their facts in \<open>Lint_Rules_Facts\<close> and their
    properties in \<open>Lint_Properties\<close>.
  \<^item> \<open>Lint_Commands\<close>: the linter's rules on shell commands (CMD-001, CMD-002), attribute spellings and
    removed attributes; \<open>Lint_Render\<close>: the render rules and \<open>lint\<close>; their properties in
    \<open>Lint_Text_Properties\<close>.
  \<^item> \<open>Tool_Handler\<close> (\<open>handlers/tool.py\<close>), \<open>Interviewer\<close> (\<open>interviewer.py\<close>) and \<open>Human_Gate\<close> (\<open>handlers/human.py\<close>),
    with their properties in \<open>Handler_Properties\<close>; \<open>Folder_Handler\<close> (\<open>handlers/pipeline.py\<close>) and \<open>Manager_Loop\<close>
    (\<open>handlers/manager_loop.py\<close>), which run child pipelines on the engine's own model, with their
    properties in \<open>Subgraph_Properties\<close>. The shell, the interviewer and the file system are records of
    functions on the world; what the tool handler does to processes is read from a log kept beside the world. What
    \<open>json.loads\<close> raises apart from a \<open>JSONDecodeError\<close> is the parameter \<open>h_json_raises\<close>.
  \<^item> \<open>Agent_Parts\<close>, \<open>Agent_Session\<close> and \<open>Agent_Loop\<close>: the coding agent of the second package,
    \<open>modules/loop-agent\<close>, which serves the nodes of a pipeline: its state machine, history and loop detector; its
    requests, provider calls and tools; its loop. \<open>process_input\<close>, the rounds and the follow-ups call each
    other and take fuel; with a round limit of \<open>m\<close> and \<open>q\<close> queued messages, \<open>(q + 1) * (m + 3)\<close> is enough
    (\<open>agent_input_bounded\<close>). \<open>Agent_Facts\<close> has the locale \<open>session_invariant\<close>, the induction over an invocation,
    interpreted three times in \<open>Agent_Properties\<close>.
  \<^item> \<open>Patch_Tool\<close> (\<open>modules/tool-apply-patch\<close>) with \<open>Patch_Properties\<close>: the parser of patches, hunks and files;
    \<open>Truncation\<close> (\<open>modules/hooks-tool-truncation\<close>): what the model sees of a long tool output.
  \<^item> \<open>Verdicts\<close>, \<open>Backend\<close> (\<open>backend.py\<close>, \<open>workers/direct_worker.py\<close>, \<open>status_contract.py\<close>) and \<open>Codergen\<close>
    (\<open>handlers/codergen.py\<close>): LLM nodes, from the prompt over the spawned session or the direct worker to the
    outcome and the files of the stage. The spawn capability, the generation and the file system are functions on
    the world, the JSON reader is a parameter. \<open>Backend_Facts\<close> follows a run through every route;
    \<open>Backend_Properties\<close>: a goal gate is satisfied only by a stated verdict, a session is spawned for the node's
    own provider and thread, threads are sound histories, \<open>status.json\<close> holds what is answered.
  \<^item> \<open>Preflight\<close> (\<open>preflight.py\<close> and the orchestrator's part of \<open>__init__.py\<close>) with \<open>Preflight_Properties\<close>: what is
    refused before the first node runs, and that the backend built from the same configuration can route what
    was accepted.
  \<^item> \<open>Model_Resolver\<close> (\<open>modules/unified-llm-client/unified_llm/resolver.py\<close>) with \<open>Resolver_Properties\<close>: the live
    resolution of model patterns. \<open>Llm_Types\<close> (\<open>types.py\<close>, \<open>_cost.py\<close>, \<open>errors.py\<close> of the same package): messages, usage,
    cost, streams and errors of the LLM client; \<open>Llm_Client\<close> (\<open>retry.py\<close>, \<open>middleware.py\<close>, \<open>stream_validation.py\<close>, \<open>client.py\<close>),
    \<open>Llm_Generate\<close> and \<open>Llm_Stream\<close> (\<open>generate.py\<close>): its calls, its tool loop, its streams and structured output.
    The adapters are functions on the world. \<open>Stream_Language\<close>: the streams the checks accept, as a language;
    \<open>Llm_Properties\<close>: requests, steps, retried failures; \<open>Stream_Agreement\<close>: a stream follows the generation.
  \<^item> \<open>Engine\<close> and \<open>Engine_Loop\<close> (\<open>engine.py\<close>): the engine's state, its operations, the loop and \<open>run\<close>;
    \<open>Resume\<close>: restoration and \<open>resume\<close>; \<open>Parallel\<close>: \<open>run_subgraph\<close>, branches, \<open>handlers/parallel.py\<close>.
  \<^item> \<open>Engine_Facts\<close>, \<open>Fan_In\<close>, \<open>Run_Facts\<close>, \<open>Resume_Facts\<close>: the lemmas, with the loop's invariants as an
    interpretation of the locale \<open>loop_invariant\<close>.
  \<^item> \<open>Samples\<close>: the concrete graphs and environment of the witnesses. \<open>Component_Properties\<close>: the
    properties of single components. This theory: the properties of whole runs and of components
    together.

  \<^bold>\<open>Correspondence.\<close> A definition has the name of the function it models, without a leading underscore;
  a step of a long function has a name of its own and stands in the order of the source. A Python
  object is a record, a dictionary an association list in insertion order, an exception the left
  part of a sum, an early return a branch. Mutable state is passed and returned: \<open>'w rstate\<close> is the
  context, the outside world and the event log, \<open>'w engine\<close> adds the engine's own fields. The world
  \<open>'w\<close> is abstract. Handlers, clocks, random draws, the file system, the hash, the cancel event and
  the bounded await are functions on it (the records \<open>host\<close>, \<open>env\<close> and \<open>eenv\<close>), so a statement holds
  for all of them. Python floats are rationals; where rounding or overflow decides, the rounding is
  the parameter \<open>h_f64\<close> and the overflow bound is written out.

  \<^bold>\<open>What the lemmas show.\<close> Every operation of the loop has a frame lemma (which fields it leaves alone)
  and a lemma for what it records. \<open>run_turn_cases\<close> and \<open>turn_cases\<close> list the ways through a turn; an
  invariant is proved once per operation and lifted to \<open>run_loop\<close> by \<open>run_loop_rule\<close>. The
  properties follow from these in a few steps: gates, checkpoints, budgets and the step bound for
  whole runs; what a run recorded is read from its trace, which no retry clears, so that the verdict of the gates is
  a statement about the trace's last pass (\<open>Run_Facts\<close>); agreement of a resumed run with the interrupted one; skip propagation; convergence of
  fan-in, by the lengths of walks and not by the depths its search counts (\<open>Fan_In\<close>); and, per component, round trips, bounds, error branches and the priority of routing.

  \<^bold>\<open>Bounds and fuel.\<close> \<open>run_loop\<close> terminates by its own step bound, 50 times the number of nodes, so it
  needs no fuel; the same bound counts \<open>sub_loop\<close> down. The retry ladder recurses over the attempts
  left. Scanners and worklists terminate by the length of the rest, or by the nodes not yet visited.

  \<^bold>\<open>Simplifications,\<close> none of which a property hides: log lines and durations are left out; directories
  and run-directory files are taken to be writable; characters outside Latin-1 in messages are
  written in ASCII; letters and digits are those of ASCII; branches of a parallel node run one
  after the other, and the interleavings enter as the batches of the early-stop collectors; a
  context operation is atomic. A task's cancellation enters the engine as its cancel event, its fuse and the timeout of
  a node; a \<open>CancelledError\<close> out of a handler, which \<open>except Exception\<close> lets through, is taken for any other
  exception by the retry ladder and the branches of a parallel node (not by the handlers, the backend and the agent).
  The patch tool's paths are texts: two spellings of a path are two files.

  \<^bold>\<open>Not modelled\<close> and why:  artifact storage, the
  command line, the remote source and the hooks (input and output around the engine); the agent's
  orchestrator and sub-agents (glue to the kernel) and the adapters of the LLM client (code over services
  outside the repository). To the engine a handler is a parameter; the tool, gate, folder, manager and
  codergen handlers are modelled beside it.

  \<^bold>\<open>Plan.\<close> The engine first, as the component every other one serves, then the stylesheet, the structural validator and what it guarantees to the engine, the DOT parser, the linter and the handlers of tools, gates, folders and managers (done); next the tools and hooks around the engine.
\<close>

section \<open>Properties of whole runs\<close>

text \<open>C1: A run succeeds only by the goal gates' verdict on its last pass. Whatever the graph, the handlers, the clocks
  and the cancellation do, when \<open>run\<close> on a new engine returns an outcome other than FAIL, the trace of all recorded
  executions ends in a pass (the nodes completed since the last retry or restart) in which the last record of every
  goal gate is an explicit success, and the outcome has the status of the pass's last record (SUCCESS for an empty
  pass). Records before that pass, which the verdict does not read, exist only where the graph has a retry target or a
  restart edge, or after a node that failed (EXTENSIONS section 25, fail-closed gates).\<close>

theorem run_success_gated:
  "case run X g goal (engine_init c w evs) of
     (Inl e, S') \<Rightarrow> True
   | (Inr out, S') \<Rightarrow> o_status out = FAIL
       \<or> (\<exists>past pass. s_trace S' = past @ pass \<and> map t_node_id pass = s_completed S'
            \<and> filter (\<lambda>i. is_goal_gate g i \<and> \<not> (case last_record pass i of None \<Rightarrow> False
                  | Some t \<Rightarrow> t_status t \<in> {SUCCESS, PARTIAL_SUCCESS} \<and> t_is_explicit t)) (s_completed S') = []
            \<and> o_status out = (if pass = [] then SUCCESS else t_status (last pass)) \<and> out = final_outcome S'
            \<and> (past = [] \<or> may_clear g \<or> list_ex (\<lambda>t. t_status t = FAIL) past))"
proof -
  obtain res S' where r: "run X g goal (engine_init c w evs) = (res, S')" by force
  show ?thesis
  proof (cases "is_fail res")
    case True
    then show ?thesis unfolding r by (cases res) simp_all
  next
    case False
    then obtain out where o: "res = Inr out" "out = final_outcome S'" and e: "earned g out S'"
      using run_earned [OF r pass_ok_new] by (auto simp: gates_passed_def)
    show ?thesis unfolding r o(1) prod.case sum.case using o(2) e [unfolded earned_def] by blast
  qed
qed

text \<open>The pass matters: a failed goal gate whose retry target is an exit node is forgotten. The gate check at \<open>n\<close> fails
  and sends the run to the exit \<open>m\<close> with an empty record, and the check there reports SUCCESS; the gate's failure is in
  the trace only.\<close>

lemma retry_to_exit_forgets_gate:
  assumes "at_exit X g n k S = Goto m k' S'"
  shows "o_status (gate_verdict g S) = FAIL
    \<and> (\<exists>S''. at_exit X g m k2 S' = Return (Inr ((mk_outcome SUCCESS)\<lparr>o_notes := Some ''Pipeline completed''\<rparr>)) S''
         \<and> s_trace S'' = s_trace S)"
proof -
  have S': "s_outcomes S' = []" "s_completed S' = []" "s_trace S' = s_trace S" and f: "o_status (gate_verdict g S) = FAIL"
    using assms by (auto simp: at_exit_def check_goal_gates_def Let_def split: option.splits if_splits)
  have "gate_verdict g S' = (mk_outcome SUCCESS)\<lparr>o_notes := Some ''Pipeline completed''\<rparr>"
    using S' by (simp add: gate_verdict_def unsatisfied_gates_def final_outcome_def Let_def)
  then show ?thesis using S'(3) f by (simp add: at_exit_def check_goal_gates_def)
qed

text \<open>C4: A run ends after a bounded number of node executions: from a new engine, the execution
  counts of all nodes together never exceed 50 times the number of nodes, whatever the handlers
  return and however the edges loop.\<close>

theorem run_executions_bounded:
  "total_executions (snd (run X g goal (engine_init c w evs))) \<le> 50 * int (length (g_nodes g))"
proof -
  obtain res S' where r: "run X g goal (engine_init c w evs) = (res, S')" by force
  have z: "total_executions (engine_init c w evs) = 0"
    by (simp add: total_executions_def engine_init_def)
  from r have "total_executions S' \<le> max_steps g"
  proof (cases rule: run_cases)
    case (refused e)
    then show ?thesis using total_same z
      by (fastforce simp: max_steps_def max_goal_gate_retries_def)
  next
    case (looped n S1 res1 S2)
    have "total_executions S2 \<le> total_executions S1 + (max_steps g - k_steps no_counters)"
      by (rule run_loop_total [OF looped(5)]) (simp add: no_counters_def max_steps_def max_goal_gate_retries_def)
    moreover have "total_executions S' = total_executions S2"
      by (rule total_cong) (rule close_run_core(4) [OF looped(6)])
    ultimately show ?thesis using total_same [OF looped(3)] z by (simp add: no_counters_def)
  qed
  then show ?thesis by (simp add: r max_steps_def max_goal_gate_retries_def)
qed

text \<open>C2: The checkpoint a run leaves is accepted or refused by the resume ladder exactly as it
  should: if the file holds the last checkpoint of a run that was ended by an exception, all rungs
  accept it for the same DOT source; if the run returned an outcome, rung 4 refuses it as already
  completed; and rung 6 finds its node references consistent with the graph.\<close>

theorem run_checkpoint_resumable:
  assumes "run X g goal S = (res, S')" "fresh S" "graph_ok g" "g_dot_source g \<noteq> []"
    "s_last S' = Some cp" "file_holds h fs path (checkpoint_json cp)"
  shows "load_checkpoint_for_resume h (x_sha X) fs path (Some (g_dot_source g)) =
      (case res of Inl e \<Rightarrow> Inr cp | Inr out \<Rightarrow> Inl CheckpointAlreadyCompleted)
    \<and> verify_checkpoint_structure cp g = None"
proof -
  obtain cp0 where good: "checkpoint_good X g cp0"
    and cp: "cp = (case res of Inl e \<Rightarrow> cp0 | Inr out \<Rightarrow> completed_copy cp0)"
    by (rule run_last [OF assms(1,2,3,5)])
  have "verify_checkpoint_structure cp g = None"
    using checkpoint_good_structure [OF good] cp by (auto simp: completed_copy_structure split: sum.splits)
  then show ?thesis
    using ladder_of_good [OF good assms(4)] assms(6) cp by (auto split: sum.splits)
qed

theorem run_checkpoint_resumable_witness:
  "\<exists>cp. load_checkpoint_for_resume (plain_host (checkpoint_json cp)) (x_sha plain_eenv) written_file ''p'' (Some ''d'')
     = Inl CheckpointAlreadyCompleted"
proof -
  let ?r = "run plain_eenv single_graph None start_state"
  obtain cp where cp: "s_last (snd ?r) = Some cp" using single_run by blast
  obtain out where out: "fst ?r = Inr out" using single_run by (cases "fst ?r") (auto simp: is_fail_def)
  have "file_holds (plain_host (checkpoint_json cp)) written_file ''p'' (checkpoint_json cp)"
    by (simp add: file_holds_def plain_host_def written_file_def)
  from run_checkpoint_resumable [OF prod.collapse [symmetric] start_state_fresh single_graph_ok _ cp this] out
  show ?thesis by (auto simp: single_graph_def plain_graph_def)
qed

text \<open>C11: The retry budgets are durable: in every checkpoint a run leaves, the goal-gate and the
  failure-routing counter are between 0 and 50 and the step counter is within the step bound, so a
  resume continues with what is left of them.\<close>

theorem saved_counters_bounded:
  assumes "run X g goal S = (res, S')" "fresh S" "graph_ok g" "s_last S' = Some cp"
  shows "\<exists>k. (\<exists>es. cp_engine_state cp = PDict es \<and> restore_counters es = Inr k)
    \<and> counters_ok k \<and> k_steps k \<le> max_steps g"
proof -
  obtain cp0 where good: "checkpoint_good X g cp0"
    and cp: "cp = (case res of Inl e \<Rightarrow> cp0 | Inr out \<Rightarrow> completed_copy cp0)"
    by (rule run_last [OF assms])
  have "cp_engine_state cp = cp_engine_state cp0" using cp by (simp add: completed_copy_def split: sum.splits)
  then show ?thesis using good restore_counters_of by (fastforce simp: checkpoint_good_def checkpoint_of_def)
qed

theorem saved_counters_bounded_witness:
  "\<exists>cp k. s_last (snd (run plain_eenv single_graph None start_state)) = Some cp
     \<and> (\<exists>es. cp_engine_state cp = PDict es \<and> restore_counters es = Inr k) \<and> counters_ok k"
proof -
  let ?r = "run plain_eenv single_graph None start_state"
  obtain cp where cp: "s_last (snd ?r) = Some cp" using single_run by blast
  from saved_counters_bounded [OF prod.collapse [symmetric] start_state_fresh single_graph_ok cp] cp
  show ?thesis by blast
qed

section \<open>Properties of the engine's operations\<close>

text \<open>C3: Resuming decides as the interrupted run would have. From the checkpoint of an engine
  state, restored into an engine with an empty context, every recorded node makes the same edge
  selection from its rehydrated outcome, the same goal gates are unsatisfied, and the gate verdict
  has the same status; counters, iteration and execution counts are those of the checkpoint.\<close>

theorem resume_decides_alike:
  fixes S S0 :: "'w engine"
  assumes "dict_ok (s_outcomes S)" "ctx_ok (s_ctx S)" "c_values (s_ctx S0) = []"
  shows "\<exists>S1. restore_state g (checkpoint_of X g i k now S) None S0 = Inr (k, S1)
    \<and> (\<forall>j out. dict_get (s_outcomes S) j = Some out \<longrightarrow>
         (\<exists>out1. dict_get (s_outcomes S1) j = Some out1
            \<and> select_edge j out1 (s_ctx S1) g = select_edge j out (s_ctx S) g))
    \<and> unsatisfied_gates g S1 = unsatisfied_gates g S
    \<and> o_status (gate_verdict g S1) = o_status (gate_verdict g S)
    \<and> s_completed S1 = s_completed S \<and> s_iteration S1 = s_iteration S \<and> s_counts S1 = s_counts S"
proof -
  obtain S1 where S1: "restore_state g (checkpoint_of X g i k now S) None S0 = Inr (k, S1)" "restored g S S1"
    using restore_checkpoint [OF assms] by blast
  have "\<exists>out1. dict_get (s_outcomes S1) j = Some out1 \<and> select_edge j out1 (s_ctx S1) g = select_edge j out (s_ctx S) g"
    if "dict_get (s_outcomes S) j = Some out" for j out
    using that S1(2) restored_select_edge [OF S1(2)] by (auto simp: restored_def rehydrate_all_get)
  then show ?thesis
    using S1 restored_gates [OF S1(2)] restored_verdict [OF S1(2)] by (auto simp: restored_def)
qed

theorem resume_decides_alike_witness:
  "\<exists>S1. restore_state chain_graph
       (checkpoint_of plain_eenv chain_graph ''t'' no_counters []
          (record_outcome ''t'' (mk_outcome FAIL) start_state)) None start_state = Inr (no_counters, S1)
     \<and> s_completed S1 = [''t'']"
proof -
  have "c_values (s_ctx start_state) = []" "s_outcomes start_state = []" "s_completed start_state = []"
    by (simp_all add: start_state_def engine_init_def ctx_new_def)
  then show ?thesis
    using resume_decides_alike [of "record_outcome ''t'' (mk_outcome FAIL) start_state" start_state
        chain_graph plain_eenv "''t''" no_counters "[]"]
    by (auto simp: dict_ok_def ctx_ok_def)
qed

text \<open>C9: A node that refers to the output of a failed or skipped node is not executed: when the
  loop reaches it, no execution count changes, and if the walk goes on the node is on record as
  SKIPPED and its own outputs are marked failed in turn, so the skip propagates.\<close>

theorem failed_reference_skips:
  assumes "set_order_ok X" "\<not> is_exit_node n" "key \<in> set (extract_node_refs n)"
    "dict_get (s_failed S) key = Some producer"
  shows "s_counts (turn_state (turn X g n k None S)) = s_counts S
    \<and> (\<forall>m k' S'. turn X g n k None S = Goto m k' S' \<longrightarrow>
         (\<exists>skip. dict_get (s_outcomes S') (n_id n) = Some skip \<and> o_status skip = SKIPPED)
         \<and> (\<forall>out \<in> set (node_outputs g (n_id n)). dict_has (s_failed S') out))"
  using refl [of "turn X g n k None S"]
proof (cases rule: turn_cases)
  case (fault e S1)
  then show ?thesis by (simp add: turn_state_def same_core_def)
next
  case (stopped out S1)
  then show ?thesis by (simp add: turn_state_def same_core_def)
next
  case (skip sk S1 S2)
  have core: "same_core S S2" using skip(3) node_skip_core [OF skip(5)] same_core_trans by blast
  have "o_status sk = SKIPPED"
    using skip(5) by (auto simp: check_node_skip_def skip_outcome_def split: list.splits)
  moreover have "s_failed (record_skip X g n sk k S2) = mark_failed (n_id n) (node_outputs g (n_id n)) (s_failed S2)"
    "s_outcomes (record_skip X g n sk k S2) = dict_set (n_id n) sk (s_outcomes S2)"
    "s_counts (record_skip X g n sk k S2) = s_counts S"
    using core by (auto simp: record_skip_core [OF refl] same_core_def)
  ultimately show ?thesis
    unfolding skip(6)
    by (cases "skip_turn X g n sk k S2")
      (auto simp: turn_state_def mark_failed_in dest!: skip_turn_kept)
next
  case (exec S1)
  have "s_failed S1 = s_failed S" using exec(3) by (simp add: same_core_def)
  moreover have "failed_refs X n S1 = []" using exec(6) by (auto simp: check_node_skip_def split: list.splits)
  ultimately show ?thesis using assms failed_refs_iff by fastforce
qed (use assms in auto)

theorem failed_reference_skips_witness:
  "s_counts (turn_state (turn plain_eenv chain_graph ((plain_node ''n'' ''box'')\<lparr>n_prompt := ''${k}''\<rparr>) no_counters None
       (start_state\<lparr>s_failed := [(''k'', ''t'')]\<rparr>))) = []"
proof -
  have refs: "extract_node_refs ((plain_node ''n'' ''box'')\<lparr>n_prompt := ''${k}''\<rparr>) = [''k'']" by code_simp
  have ne: "\<not> is_exit_node ((plain_node ''n'' ''box'')\<lparr>n_prompt := ''${k}''\<rparr>)" by code_simp
  show ?thesis
    using failed_reference_skips [OF plain_eenv_order ne, of "''k''" "start_state\<lparr>s_failed := [(''k'', ''t'')]\<rparr>" "''t''"
        chain_graph no_counters] refs
    by (simp add: start_state_def engine_init_def)
qed

text \<open>C8: No override turns a violated artifact contract into a success. Whatever outcome the
  handler or the retry ladder returned, if the outcome the engine settles on and records is a
  success and the node declares \<open>must_write=\<close>, then the artifact exists, strictly post-dates the
  node's start by the freshness floor, is readable and is not blank.\<close>

theorem must_write_not_overridable:
  assumes "is_success (settle_outcome X n start_wall out S)" "py_true (node_attr_get n ''must_write'')"
  shows "\<exists>f content. e_files (x_env X) (s_world S) (must_write_path (e_host (x_env X)) n (s_ctx S)) = Some f
    \<and> wrote_after_node_start (h_f64 (e_host (x_env X))) (f_mtime_ns f) start_wall
    \<and> f_content f = Inr content \<and> \<not> blank_bytes content"
proof -
  have "check_must_write (e_host (x_env X)) (e_files (x_env X) (s_world S)) n
      (promote_auto_status n out) start_wall (s_ctx S) = None
    \<and> is_success (promote_auto_status n out)"
    using assms(1) check_must_write_Some
    by (auto simp: settle_outcome_def Let_def is_success_def split: option.splits)
  then show ?thesis using check_must_write_None assms(2) by blast
qed

theorem must_write_not_overridable_witness:
  "\<exists>f content. written_file ''/a'' = Some f \<and> f_content f = Inr content \<and> \<not> blank_bytes content"
proof -
  let ?X = "plain_eenv\<lparr>x_env := plain_env\<lparr>e_files := (\<lambda>w. written_file)\<rparr>\<rparr>"
  let ?n = "(plain_node ''n'' ''box'')\<lparr>n_raw := [(''must_write'', PStr ''/a'')]\<rparr>"
  have "is_success (settle_outcome ?X ?n 0 (mk_outcome SUCCESS) start_state)"
    and "py_true (node_attr_get ?n ''must_write'')"
    and "must_write_path (e_host (x_env ?X)) ?n (s_ctx start_state) = ''/a''" by code_simp+
  with must_write_not_overridable [of ?X ?n 0 "mk_outcome SUCCESS" start_state]
  show ?thesis by auto
qed

text \<open>A skip never opens a goal gate: if the handler's outcome is SKIPPED, the outcome the
  engine records does not satisfy the gate, whether \<open>auto_status\<close> promotes it to a success or not.\<close>

theorem skipped_never_satisfies_gate:
  assumes "o_status out = SKIPPED"
  shows "\<not> gate_satisfied (settle_outcome X n start_wall out S)"
proof -
  have "\<not> gate_satisfied (promote_auto_status n out)"
    using assms by (simp add: promote_auto_status_def gate_satisfied_def is_success_def)
  moreover have "o_status m = FAIL" if "check_must_write h fs n out1 sw c = Some m" for h fs out1 sw c m
    using check_must_write_Some [OF that] by simp
  ultimately show ?thesis
    by (auto simp: settle_outcome_def Let_def gate_satisfied_def is_success_def split: option.splits)
qed

theorem skipped_never_satisfies_gate_witness:
  "o_status (settle_outcome plain_eenv ((plain_node ''n'' ''box'')\<lparr>n_auto_status := PBool True\<rparr>) 0
       ((mk_outcome SKIPPED)\<lparr>o_is_explicit := True\<rparr>) start_state) = SUCCESS
   \<and> \<not> gate_satisfied (settle_outcome plain_eenv ((plain_node ''n'' ''box'')\<lparr>n_auto_status := PBool True\<rparr>) 0
       ((mk_outcome SKIPPED)\<lparr>o_is_explicit := True\<rparr>) start_state)"
proof
  show "o_status (settle_outcome plain_eenv ((plain_node ''n'' ''box'')\<lparr>n_auto_status := PBool True\<rparr>) 0
       ((mk_outcome SKIPPED)\<lparr>o_is_explicit := True\<rparr>) start_state) = SUCCESS" by code_simp
qed (rule skipped_never_satisfies_gate, simp)

text \<open>C10: The fan-in node of a component is the nearest convergence of all its branches. It is not itself the head of a
  branch; the head of every branch reaches it over edges in at most \<open>N\<close> steps; and no node outside the heads is
  reached from all of them in fewer steps.\<close>

theorem fan_in_converges:
  assumes "set_order_ok X" "find_fan_in_node X g heads = Some i"
  shows "i \<notin> set heads \<and> (\<exists>N. (\<forall>h \<in> set heads. \<exists>n \<le> N. (h, i) \<in> edge_rel g ^^ n)
    \<and> (\<forall>j M. j \<notin> set heads \<and> (\<forall>h \<in> set heads. \<exists>n \<le> M. (h, j) \<in> edge_rel g ^^ n) \<longrightarrow> N \<le> M))"
  using fan_in_Some [OF assms] fan_in_nearest [OF assms] by (simp add: shared_descendant_def)

theorem fan_in_converges_witness:
  "''j'' \<notin> {''a'', ''b''} \<and> (\<exists>N. (\<forall>h \<in> {''a'', ''b''}. \<exists>n \<le> N. (h, ''j'') \<in> edge_rel fan_graph ^^ n)
    \<and> (\<forall>j M. j \<notin> {''a'', ''b''} \<and> (\<forall>h \<in> {''a'', ''b''}. \<exists>n \<le> M. (h, j) \<in> edge_rel fan_graph ^^ n) \<longrightarrow> N \<le> M))"
proof -
  have "find_fan_in_node plain_eenv fan_graph [''a'', ''b''] = Some ''j''" by code_simp
  from fan_in_converges [OF plain_eenv_order this] show ?thesis by simp
qed

text \<open>A component with branches is refused as unconverging only when it is: the search finds no
  fan-in node exactly when no node outside the branch heads is reachable from all of them.\<close>

theorem fan_in_complete:
  assumes "set_order_ok X" "heads \<noteq> []"
  shows "find_fan_in_node X g heads = None \<longleftrightarrow>
    \<not> (\<exists>i. (\<forall>h \<in> set heads. (h, i) \<in> (edge_rel g)\<^sup>*) \<and> i \<notin> set heads)"
  using fan_in_None [OF assms] by (simp add: shared_descendant_def)

theorem fan_in_complete_witness:
  "\<not> (\<exists>i. (\<forall>h \<in> {''t'', ''x''}. (h, i) \<in> (edge_rel chain_graph)\<^sup>*) \<and> i \<notin> {''t'', ''x''})"
proof -
  have "find_fan_in_node plain_eenv chain_graph [''t'', ''x''] = None" by code_simp
  with fan_in_complete [OF plain_eenv_order, of "[''t'', ''x'']" chain_graph] show ?thesis by simp
qed

text \<open>At an exit with every gate satisfied, a last outcome that FAILED but names the exit node
  in its own \<open>suggested_next_ids\<close> is taken for a gate retry: the walk restarts at the exit with the
  record of the failure cleared, and the next turn reports SUCCESS. (The comment in \<open>_run_loop\<close>
  holds \<open>_check_goal_gates\<close> to be the sole producer of such an outcome.)\<close>

theorem failing_suggestion_is_forgotten:
  assumes "node_in g n" "unsatisfied_gates g S = []" "final_outcome S = out" "o_status out = FAIL"
    "o_suggested_next_ids out = Some (PStr (n_id n) # rest)"
    "k_goal_gate_retries k < max_goal_gate_retries"
  shows "\<exists>k' S'. at_exit X g n k S = Goto n k' S'
    \<and> (\<exists>S''. at_exit X g n k' S' = Return (Inr ((mk_outcome SUCCESS)\<lparr>o_notes := Some ''Pipeline completed''\<rparr>)) S'')"
proof -
  have v: "gate_verdict g S = out" using assms(2,3) by (simp add: gate_verdict_def)
  have r: "gate_retry g out k = Some n"
    using assms by (simp add: gate_retry_def coerce_suggested_id_def node_in_def)
  obtain S1 where S1: "at_exit X g n k S = Goto n (k\<lparr>k_goal_gate_retries := k_goal_gate_retries k + 1\<rparr>) (clear_run S1)"
    using assms(4) v r by (simp add: at_exit_def check_goal_gates_def)
  have "gate_verdict g (clear_run S1) = (mk_outcome SUCCESS)\<lparr>o_notes := Some ''Pipeline completed''\<rparr>"
    by (simp add: gate_verdict_def unsatisfied_gates_def final_outcome_def Let_def)
  then have "\<exists>S''. at_exit X g n k' (clear_run S1) = Return (Inr ((mk_outcome SUCCESS)\<lparr>o_notes := Some ''Pipeline completed''\<rparr>)) S''" for k'
    by (simp add: at_exit_def check_goal_gates_def)
  with S1 show ?thesis by blast
qed

theorem failing_suggestion_is_forgotten_witness:
  "\<exists>k' S'. at_exit plain_eenv chain_graph (plain_node ''x'' ''Msquare'') no_counters
     (record_outcome ''t'' ((mk_outcome FAIL)\<lparr>o_suggested_next_ids := Some [PStr ''x'']\<rparr>) start_state)
     = Goto (plain_node ''x'' ''Msquare'') k' S'"
proof -
  let ?n = "plain_node ''x'' ''Msquare''"
  let ?S = "record_outcome ''t'' ((mk_outcome FAIL)\<lparr>o_suggested_next_ids := Some [PStr ''x'']\<rparr>) start_state"
  have id: "n_id ?n = ''x''" by (simp add: plain_node_def)
  have "node_in chain_graph ?n"
    by (simp add: node_in_def chain_graph_def plain_graph_def plain_node_def)
  moreover have "unsatisfied_gates chain_graph ?S = []" by code_simp
  moreover have "final_outcome ?S = (mk_outcome FAIL)\<lparr>o_suggested_next_ids := Some [PStr ''x'']\<rparr>"
    by (simp add: final_outcome_def start_state_def engine_init_def)
  ultimately show ?thesis
    using failing_suggestion_is_forgotten [of chain_graph ?n ?S _ "[]" no_counters plain_eenv] id
    by (simp add: no_counters_def max_goal_gate_retries_def) blast
qed

text \<open>A failure mark outlives the failure. Once a context key is marked as the output of a
  failed node, recording any later completion, even the success of the very node that produced it,
  keeps the mark; so after a fail-and-fix cycle without \<open>loop_restart\<close> the nodes that refer to the
  key are still skipped.\<close>

theorem failure_mark_survives_success:
  assumes "dict_get (s_failed S) key = Some producer"
  shows "dict_get (s_failed (record_completion X g n out idx k S)) key = Some producer"
  using assms mark_failed_kept by (simp add: record_completion_core [OF refl])

theorem failure_mark_survives_success_witness:
  "dict_get (s_failed (record_completion plain_eenv chain_graph (plain_node ''t'' ''parallelogram'')
     (mk_outcome SUCCESS) 2 no_counters (start_state\<lparr>s_failed := [(''tool.output'', ''t'')]\<rparr>))) ''tool.output'' = Some ''t''"
  by (rule failure_mark_survives_success) simp

text \<open>The failed outputs a resume derives are not those of the live run: a node whose handler
  returned SKIPPED leaves the live table as it was, but every output of it is marked failed after
  the restoration.\<close>

theorem resume_marks_handler_skips:
  assumes "o_status out = SKIPPED" "key \<in> set (node_outputs g (n_id n))"
  shows "s_failed (record_completion X g n out idx k S) = s_failed S
    \<and> dict_has (rederive_failed g (s_outcomes (record_completion X g n out idx k S))) key"
proof -
  let ?S = "record_completion X g n out idx k S"
  have "dict_get (s_outcomes ?S) (n_id n) = Some out" by (simp add: record_completion_core [OF refl])
  then have "(n_id n, out) \<in> set (s_outcomes ?S)" by (rule map_of_SomeD)
  then show ?thesis
    using rederive_failed_has assms by (fastforce simp: record_completion_core [OF refl])
qed

theorem resume_marks_handler_skips_witness:
  "dict_has (rederive_failed chain_graph (s_outcomes (record_completion plain_eenv chain_graph
     (plain_node ''t'' ''parallelogram'') (mk_outcome SKIPPED) 1 no_counters start_state))) ''tool.output''"
proof -
  have "''tool.output'' \<in> set (node_outputs chain_graph (n_id (plain_node ''t'' ''parallelogram'')))" by code_simp
  then show ?thesis
    using resume_marks_handler_skips [of "mk_outcome SKIPPED" "''tool.output''" chain_graph
        "plain_node ''t'' ''parallelogram''" plain_eenv 1 no_counters start_state] by simp
qed

text \<open>A \<open>loop_restart\<close> edge starts a clean cycle at its target: completed nodes, outcomes and
  failed outputs are cleared, both retry budgets are full again while the step count runs on, the
  iteration advances in the engine and in the context, no stale preferred label is left to route by,
  and no other context key changes.\<close>

theorem loop_restart_resets:
  assumes "resolve_bool_attr (e_loop_restart e)" "dict_get (g_nodes g) (to_node e) = Some m"
  shows "\<exists>S'. follow_edge X g e k S = Goto m (k\<lparr>k_goal_gate_retries := 0, k_failure_routing_retries := 0\<rparr>) S'
    \<and> s_completed S' = [] \<and> s_outcomes S' = [] \<and> s_failed S' = [] \<and> s_iteration S' = s_iteration S + 1
    \<and> s_counts S' = s_counts S \<and> ctx_get (s_ctx S') ''preferred_label'' = PNone
    \<and> ctx_get (s_ctx S') ''iteration'' = PStr (int_str (s_iteration S + 1))
    \<and> (\<forall>key. key \<notin> {''preferred_label'', ''iteration'', ''loop_count''} \<longrightarrow>
         ctx_get (s_ctx S') key = ctx_get (s_ctx S) key)"
proof -
  let ?E = "emit X (PIPELINE_EDGE_SELECTED (from_node e) (to_node e) (e_label e)) S"
  let ?S = "restart_loop X ?E"
  have ctx: "s_ctx ?S = ctx_set ''loop_count'' (PStr (int_str (s_iteration S + 1)))
      (ctx_set ''iteration'' (PStr (int_str (s_iteration S + 1))) (ctx_set ''preferred_label'' PNone (s_ctx S)))"
    by (simp add: restart_loop_def Let_def clear_run_def emit_def)
  have "follow_edge X g e k S = Goto m (k\<lparr>k_goal_gate_retries := 0, k_failure_routing_retries := 0\<rparr>) ?S"
    using assms by (simp add: follow_edge_def Let_def goto_node_def)
  moreover have "ctx_get (s_ctx ?S) ''preferred_label'' = PNone"
    "ctx_get (s_ctx ?S) ''iteration'' = PStr (int_str (s_iteration S + 1))"
    unfolding ctx by (simp_all add: cx.look_put)
  moreover have "\<forall>key. key \<notin> {''preferred_label'', ''iteration'', ''loop_count''} \<longrightarrow>
         ctx_get (s_ctx ?S) key = ctx_get (s_ctx S) key"
    unfolding ctx by (simp add: cx.look_put)
  ultimately show ?thesis by (intro exI [of _ ?S]) simp
qed

theorem loop_restart_resets_witness:
  "\<exists>S'. follow_edge plain_eenv chain_graph ((plain_edge ''x'' ''t'')\<lparr>e_loop_restart := PBool True\<rparr>) no_counters
       (record_outcome ''t'' (mk_outcome FAIL) start_state)
     = Goto (plain_node ''t'' ''parallelogram'') no_counters S' \<and> s_completed S' = []"
proof -
  have "dict_get (g_nodes chain_graph) ''t'' = Some (plain_node ''t'' ''parallelogram'')"
    by (simp add: chain_graph_def plain_graph_def plain_node_def)
  then show ?thesis
    using loop_restart_resets [of "(plain_edge ''x'' ''t'')\<lparr>e_loop_restart := PBool True\<rparr>" chain_graph
        "plain_node ''t'' ''parallelogram''" plain_eenv no_counters "record_outcome ''t'' (mk_outcome FAIL) start_state"]
    by (auto simp: plain_edge_def resolve_bool_attr_def no_counters_def)
qed

end
